(* ===== verification/Prelude.thy ===== *)
theory Prelude
  imports Complex_Main "HOL-Library.AList" "HOL-Library.List_Lexorder" "HOL-Library.Char_ord"
begin

text \<open>
  What every component of the development shares: identifiers and times, the exceptions the
  code raises, computations inside a database transaction (state passing with an error that
  keeps the state reached so far, because PostgreSQL statements already executed on a
  caller-supplied connection stay executed when a Python exception is caught), tables of rows
  with a primary key, the evaluation of \<open>WITH RECURSIVE\<close> queries, JSON values, and the
  Python string renderings that occur in error messages.
\<close>

section \<open>Identifiers, times, exceptions\<close>

text \<open>
  A UUID is only compared for equality by the modelled code, so any countable type will do. A
  \<open>datetime\<close> is its number of microseconds since the epoch.
\<close>

type_synonym uuid = nat
type_synonym time = int

text \<open>
  The exceptions of \<open>lib/shared/errors.py\<close> and \<open>lib/shared/edge_registry.py\<close> with their
  message (and the invariant's code), and the exceptions asyncpg raises for the constraints
  of \<open>db/migrations\<close>. The free-form \<open>**context\<close> arguments are not kept.
\<close>

datatype err =
    ValidationError string
  | InvariantViolation string string
  | EdgeRegistryError string
  | CircuitOpenError
  | ValueError string
  | UniqueViolationError string
  | ForeignKeyViolationError string
  | CheckViolationError string
  | DeadlockDetectedError
  | SerializationError
  | OtherError string

type_synonym 'a result = "err + 'a"
type_synonym ('s, 'a) tx = "'s \<Rightarrow> 'a result \<times> 's"

named_theorems tx_simps \<open>inversion of computations in a transaction\<close>
named_theorems check_simps \<open>inversion of sequences of checks\<close>
named_theorems row_simps \<open>reading a table after it was written\<close>

section \<open>Computations inside a transaction\<close>

definition return_tx :: "'a \<Rightarrow> ('s, 'a) tx" where
  "return_tx x s = (Inr x, s)"

definition raise_tx :: "err \<Rightarrow> ('s, 'a) tx" where
  "raise_tx e s = (Inl e, s)"

definition bind_tx :: "('s, 'a) tx \<Rightarrow> ('a \<Rightarrow> ('s, 'b) tx) \<Rightarrow> ('s, 'b) tx" where
  "bind_tx m f s = (case m s of (Inl e, s') \<Rightarrow> (Inl e, s') | (Inr x, s') \<Rightarrow> f x s')"

definition modify_tx :: "('s \<Rightarrow> 's) \<Rightarrow> ('s, unit) tx" where
  "modify_tx f s = (Inr (), f s)"

text \<open>A check reads the state and says which exception is raised, if any.\<close>

definition check_tx :: "('s \<Rightarrow> err option) \<Rightarrow> ('s, unit) tx" where
  "check_tx c s = (case c s of Some e \<Rightarrow> (Inl e, s) | None \<Rightarrow> (Inr (), s))"

primrec for_tx :: "'a list \<Rightarrow> ('a \<Rightarrow> ('s, unit) tx) \<Rightarrow> ('s, unit) tx" where
  "for_tx [] f = return_tx ()"
| "for_tx (x # xs) f = bind_tx (f x) (\<lambda>_. for_tx xs f)"

text \<open>\<open>async with transaction() as tx\<close>: an exception that leaves the block rolls it back.\<close>

definition atomically :: "('s, 'a) tx \<Rightarrow> ('s, 'a) tx" where
  "atomically m s = (case m s of (Inl e, _) \<Rightarrow> (Inl e, s) | (Inr x, s') \<Rightarrow> (Inr x, s'))"

lemma return_tx_eq [tx_simps]:
  "return_tx x s = (r, t) \<longleftrightarrow> r = Inr x \<and> t = s"
  by (auto simp: return_tx_def)

lemma raise_tx_eq [tx_simps]: "raise_tx e s = (r, t) \<longleftrightarrow> r = Inl e \<and> t = s"
  by (auto simp: raise_tx_def)

lemma modify_tx_eq [tx_simps]: "modify_tx f s = (r, t) \<longleftrightarrow> r = Inr () \<and> t = f s"
  by (auto simp: modify_tx_def)

lemma bind_tx_Inr [tx_simps]:
  "bind_tx m f s = (Inr y, t) \<longleftrightarrow> (\<exists>x u. m s = (Inr x, u) \<and> f x u = (Inr y, t))"
  by (auto simp: bind_tx_def split: prod.splits sum.splits)

lemma bind_tx_Inl [tx_simps]:
  "bind_tx m f s = (Inl e, t) \<longleftrightarrow>
     m s = (Inl e, t) \<or> (\<exists>x u. m s = (Inr x, u) \<and> f x u = (Inl e, t))"
  by (auto simp: bind_tx_def split: prod.splits sum.splits)

lemma check_tx_Inr [tx_simps]: "check_tx c s = (Inr u, t) \<longleftrightarrow> c s = None \<and> t = s"
  by (auto simp: check_tx_def split: option.splits)

lemma check_tx_Inl [tx_simps]: "check_tx c s = (Inl e, t) \<longleftrightarrow> c s = Some e \<and> t = s"
  by (auto simp: check_tx_def split: option.splits)

lemma atomically_Inr [tx_simps]: "atomically m s = (Inr x, t) \<longleftrightarrow> m s = (Inr x, t)"
  by (auto simp: atomically_def split: prod.splits sum.splits)

lemma atomically_Inl [tx_simps]:
  "atomically m s = (Inl e, t) \<longleftrightarrow> (\<exists>u. m s = (Inl e, u)) \<and> t = s"
  by (auto simp: atomically_def split: prod.splits sum.splits)

text \<open>A property kept by every body of a loop is kept by the loop.\<close>

lemma for_tx_keeps:
  assumes "for_tx xs f s = (Inr u, t)" and "I s"
    and "\<And>x s t u. x \<in> set xs \<Longrightarrow> I s \<Longrightarrow> f x s = (Inr u, t) \<Longrightarrow> I t"
  shows "I t"
  using assms
proof (induction xs arbitrary: s)
  case Nil
  then show ?case by (simp add: tx_simps)
next
  case (Cons x xs)
  then obtain v w where "f x s = (Inr v, w)" and "for_tx xs f w = (Inr u, t)"
    by (auto simp: tx_simps)
  with Cons.prems Cons.IH [of w] show ?case
    by (meson list.set_intros)
qed

lemma for_tx_preserved:
  assumes "for_tx xs f s = (Inr u, t)"
    and "\<And>x s t u. x \<in> set xs \<Longrightarrow> f x s = (Inr u, t) \<Longrightarrow> g t = g s"
  shows "g t = g s"
  using for_tx_keeps [OF assms(1), of "\<lambda>w. g w = g s"] assms(2) by force

section \<open>Hoare-style rules\<close>

text \<open>
  \<open>keeps I m\<close>: \<open>m\<close> keeps \<open>I\<close> whether it returns or raises. \<open>ensures P m Q\<close>: when
  \<open>m\<close> returns, \<open>Q\<close> holds.
\<close>

definition keeps :: "('s \<Rightarrow> bool) \<Rightarrow> ('s, 'a) tx \<Rightarrow> bool" where
  "keeps I m \<longleftrightarrow> (\<forall>s r t. I s \<longrightarrow> m s = (r, t) \<longrightarrow> I t)"

definition ensures :: "('s \<Rightarrow> bool) \<Rightarrow> ('s, 'a) tx \<Rightarrow> ('a \<Rightarrow> 's \<Rightarrow> bool) \<Rightarrow> bool" where
  "ensures P m Q \<longleftrightarrow> (\<forall>s x t. P s \<longrightarrow> m s = (Inr x, t) \<longrightarrow> Q x t)"

named_theorems keeps_intros \<open>rules for preservation by composed computations\<close>
named_theorems ensures_intros \<open>rules for postconditions of composed computations\<close>

lemma keepsI: "(\<And>s r t. I s \<Longrightarrow> m s = (r, t) \<Longrightarrow> I t) \<Longrightarrow> keeps I m"
  by (auto simp: keeps_def)

lemma keepsD: "keeps I m \<Longrightarrow> I s \<Longrightarrow> m s = (r, t) \<Longrightarrow> I t"
  by (auto simp: keeps_def)

lemma keeps_snd: "keeps I m \<Longrightarrow> I s \<Longrightarrow> I (snd (m s))"
  by (cases "m s") (auto dest: keepsD)

lemma ensuresI: "(\<And>s x t. P s \<Longrightarrow> m s = (Inr x, t) \<Longrightarrow> Q x t) \<Longrightarrow> ensures P m Q"
  by (auto simp: ensures_def)

lemma ensuresD: "ensures P m Q \<Longrightarrow> P s \<Longrightarrow> m s = (Inr x, t) \<Longrightarrow> Q x t"
  by (auto simp: ensures_def)

lemma keeps_return [keeps_intros]: "keeps I (return_tx x)"
  by (auto simp: keeps_def tx_simps)

lemma keeps_raise [keeps_intros]: "keeps I (raise_tx e)"
  by (auto simp: keeps_def tx_simps)

lemma keeps_check [keeps_intros]: "keeps I (check_tx c)"
  by (auto simp: keeps_def check_tx_def split: option.splits)

lemma keeps_modify: "(\<And>s. I s \<Longrightarrow> I (f s)) \<Longrightarrow> keeps I (modify_tx f)"
  by (auto simp: keeps_def tx_simps)

lemma keeps_bind [keeps_intros]:
  assumes "keeps I m" and "\<And>x. keeps I (f x)"
  shows "keeps I (bind_tx m f)"
proof (rule keepsI)
  fix s r t
  assume I: "I s" and run: "bind_tx m f s = (r, t)"
  obtain q u where m: "m s = (q, u)" by (cases "m s")
  with assms(1) I have Iu: "I u" by (rule keepsD)
  show "I t"
  proof (cases q)
    case (Inl e)
    with m run Iu show ?thesis by (simp add: bind_tx_def)
  next
    case (Inr x)
    with m run have "f x u = (r, t)" by (simp add: bind_tx_def)
    with assms(2) Iu show ?thesis by (rule keepsD)
  qed
qed

lemma keeps_check_bind:
  assumes "\<And>s r t. I s \<Longrightarrow> c s = None \<Longrightarrow> f () s = (r, t) \<Longrightarrow> I t"
  shows "keeps I (bind_tx (check_tx c) f)"
  using assms
  by (auto simp: keeps_def bind_tx_def check_tx_def split: prod.splits sum.splits option.splits)

lemma keeps_for [keeps_intros]:
  "(\<And>x. x \<in> set xs \<Longrightarrow> keeps I (f x)) \<Longrightarrow> keeps I (for_tx xs f)"
  by (induction xs) (auto intro: keeps_intros)

lemma keeps_atomically [keeps_intros]: "keeps I m \<Longrightarrow> keeps I (atomically m)"
  by (auto simp: keeps_def atomically_def split: prod.splits sum.splits)

lemma ensures_return: "(\<And>s. P s \<Longrightarrow> Q x s) \<Longrightarrow> ensures P (return_tx x) Q"
  by (auto simp: ensures_def tx_simps)

lemma ensures_modify: "(\<And>s. P s \<Longrightarrow> Q () (f s)) \<Longrightarrow> ensures P (modify_tx f) Q"
  by (auto simp: ensures_def tx_simps)

lemma ensures_check: "(\<And>s. P s \<Longrightarrow> c s = None \<Longrightarrow> Q () s) \<Longrightarrow> ensures P (check_tx c) Q"
  by (auto simp: ensures_def tx_simps)

lemma ensures_bind:
  "ensures P m R \<Longrightarrow> (\<And>x. ensures (R x) (f x) Q) \<Longrightarrow> ensures P (bind_tx m f) Q"
  by (fastforce simp: ensures_def tx_simps)

lemma keeps_ensures: "keeps I m \<Longrightarrow> ensures I m (\<lambda>_. I)"
  by (auto simp: keeps_def ensures_def)

text \<open>A loop establishes what each round establishes, if later rounds keep it.\<close>

lemma for_tx_establishes:
  assumes "for_tx xs f s = (Inr u, t)" and "x \<in> set xs"
    and "\<And>s t u. f x s = (Inr u, t) \<Longrightarrow> Q x t"
    and "\<And>y s t u. f y s = (Inr u, t) \<Longrightarrow> Q x s \<Longrightarrow> Q x t"
  shows "Q x t"
  using assms(1,2)
proof (induction xs arbitrary: s)
  case (Cons y ys)
  from Cons.prems(1) obtain v w where one: "f y s = (Inr v, w)" and rest: "for_tx ys f w = (Inr u, t)"
    by (auto simp: tx_simps)
  show ?case
  proof (cases "x = y")
    case True
    with one assms(3) have "Q x w" by blast
    then show ?thesis by (rule for_tx_keeps [OF rest]) (blast intro: assms(4))
  next
    case False
    with Cons.prems(2) Cons.IH [OF rest] show ?thesis by simp
  qed
qed simp

text \<open>
  \<open>not s or not s.strip()\<close>: the string is empty or made of whitespace. The characters of a
  string are its UTF-8 bytes, and only the ASCII whitespace is recognised.
\<close>

definition py_isspace :: "char \<Rightarrow> bool" where
  "py_isspace c \<longleftrightarrow> c \<in> {CHR 0x09, CHR 0x0A, CHR 0x0B, CHR 0x0C, CHR 0x0D, CHR 0x1C, CHR 0x1D,
     CHR 0x1E, CHR 0x1F, CHR 0x20}"

definition blank :: "string \<Rightarrow> bool" where
  "blank s \<longleftrightarrow> list_all py_isspace s"

section \<open>Sequences of checks\<close>

definition then_check :: "err option \<Rightarrow> err option \<Rightarrow> err option" where
  "then_check c d = (case c of Some e \<Rightarrow> Some e | None \<Rightarrow> d)"

definition fails :: "bool \<Rightarrow> err \<Rightarrow> err option" where
  "fails b e = (if b then Some e else None)"

primrec check_all :: "('a \<Rightarrow> err option) \<Rightarrow> 'a list \<Rightarrow> err option" where
  "check_all c [] = None"
| "check_all c (x # xs) = then_check (c x) (check_all c xs)"

lemma then_check_None [check_simps]: "then_check c d = None \<longleftrightarrow> c = None \<and> d = None"
  by (simp add: then_check_def split: option.splits)

lemma then_check_Some [check_simps]:
  "then_check c d = Some e \<longleftrightarrow> c = Some e \<or> (c = None \<and> d = Some e)"
  by (simp add: then_check_def split: option.splits)

lemma fails_None [check_simps]: "fails b e = None \<longleftrightarrow> \<not> b"
  by (simp add: fails_def)

lemma fails_Some [check_simps]: "fails b e = Some e' \<longleftrightarrow> b \<and> e' = e"
  by (auto simp: fails_def)

lemma check_all_None [check_simps]: "check_all c xs = None \<longleftrightarrow> (\<forall>x \<in> set xs. c x = None)"
  by (induction xs) (simp_all add: check_simps)

section \<open>Tables\<close>

text \<open>
  A table is the list of its rows; \<open>key\<close> projects the primary key.
  \<open>SELECT .. WHERE id = $1\<close> is \<open>row_at\<close>, \<open>UPDATE .. WHERE id = $1\<close> is \<open>row_update\<close>.
\<close>

definition row_at :: "('r \<Rightarrow> 'k) \<Rightarrow> 'k \<Rightarrow> 'r list \<Rightarrow> 'r option" where
  "row_at key k t = List.find (\<lambda>r. key r = k) t"

definition row_update :: "('r \<Rightarrow> 'k) \<Rightarrow> 'k \<Rightarrow> ('r \<Rightarrow> 'r) \<Rightarrow> 'r list \<Rightarrow> 'r list" where
  "row_update key k f t = map (\<lambda>r. if key r = k then f r else r) t"

lemma row_at_Nil [row_simps]: "row_at key k [] = None"
  by (simp add: row_at_def)

lemma row_at_Cons [row_simps]:
  "row_at key k (r # t) = (if key r = k then Some r else row_at key k t)"
  by (simp add: row_at_def)

lemma row_at_append [row_simps]:
  "row_at key k (t @ u) = (case row_at key k t of Some r \<Rightarrow> Some r | None \<Rightarrow> row_at key k u)"
  by (induction t) (simp_all add: row_simps)

lemma row_at_Some: "row_at key k t = Some r \<Longrightarrow> r \<in> set t \<and> key r = k"
  by (induction t) (auto simp: row_simps split: if_splits)

lemma row_at_None: "row_at key k t = None \<longleftrightarrow> k \<notin> key ` set t"
  by (induction t) (auto simp: row_simps)

lemma row_at_update [row_simps]:
  assumes "\<And>r. key r = k \<Longrightarrow> key (f r) = k"
  shows "row_at key j (row_update key k f t) =
    (if j = k then map_option f (row_at key k t) else row_at key j t)"
  using assms by (induction t) (auto simp: row_simps row_update_def)

lemma row_update_keys [row_simps]:
  assumes "\<And>r. key r = k \<Longrightarrow> key (f r) = k"
  shows "map key (row_update key k f t) = map key t"
  using assms by (induction t) (auto simp: row_update_def)

lemma row_at_unique:
  "distinct (map key t) \<Longrightarrow> r \<in> set t \<Longrightarrow> row_at key (key r) t = Some r"
  by (induction t) (auto simp: row_simps)

lemma set_row_update:
  "set (row_update key k f t) = (\<lambda>r. if key r = k then f r else r) ` set t"
  by (simp add: row_update_def)

lemma in_row_update:
  "r' \<in> set (row_update key k f t) \<longleftrightarrow>
    (\<exists>r \<in> set t. r' = (if key r = k then f r else r))"
  unfolding set_row_update by blast

lemma row_at_in: "r \<in> set t \<Longrightarrow> distinct (map key t) \<Longrightarrow> row_at key k t = Some r' \<Longrightarrow>
    key r = k \<Longrightarrow> r = r'"
  using row_at_unique [of key t r] by simp

text \<open>\<open>INSERT .. ON CONFLICT DO NOTHING\<close> on a table whose key is the projection \<open>key\<close>.\<close>

definition insert_new :: "('r \<Rightarrow> 'k) \<Rightarrow> 'r \<Rightarrow> 'r list \<Rightarrow> 'r list" where
  "insert_new key r t = (if key r \<in> key ` set t then t else t @ [r])"

lemma set_insert_new:
  "set (insert_new key r t) = (if key r \<in> key ` set t then set t else insert r (set t))"
  by (auto simp: insert_new_def)

lemma insert_new_subset: "set t \<subseteq> set (insert_new key r t)"
  by (auto simp: set_insert_new)

lemma insert_new_keys: "key ` set (insert_new key r t) = insert (key r) (key ` set t)"
  by (auto simp: set_insert_new)

lemma distinct_insert_new:
  "distinct (map key t) \<Longrightarrow> distinct (map key (insert_new key r t))"
  by (auto simp: insert_new_def)

end
