(* ===== verification/Json.thy ===== *)
theory Json
  imports Prelude
begin

text \<open>
  JSON values, as the code's dictionaries and JSONB columns hold them, and the dictionary
  operations the code applies to them. A dictionary is an association list in insertion order
  with at most one entry per key; \<open>d[k] = v\<close> and \<open>d.update(e)\<close> keep the place of a key
  that is already there, as Python does. A float is a real number: rounding is not modelled.
\<close>

datatype json =
    JNull
  | JBool bool
  | JInt int
  | JFloat real
  | JStr string
  | JUuid uuid \<comment> \<open>\<open>str(uuid)\<close>\<close>
  | JList "json list"
  | JObj "(string \<times> json) list"

type_synonym dict = "(string \<times> json) list"

definition dict_get :: "dict \<Rightarrow> string \<Rightarrow> json option" where
  "dict_get d k = map_of d k"

definition dict_set :: "string \<Rightarrow> json \<Rightarrow> dict \<Rightarrow> dict" where
  "dict_set k v d = AList.update k v d"

definition dict_update :: "dict \<Rightarrow> dict \<Rightarrow> dict" where
  "dict_update d e = fold (\<lambda>(k, v). dict_set k v) e d"

definition dict_without :: "string list \<Rightarrow> dict \<Rightarrow> dict" where
  "dict_without ks d = filter (\<lambda>(k, v). k \<notin> set ks) d"

named_theorems dict_simps \<open>looking a key up after the dictionary was written\<close>

lemma dict_get_Nil [dict_simps]: "dict_get [] k = None"
  by (simp add: dict_get_def)

lemma dict_get_set [dict_simps]:
  "dict_get (dict_set k v d) j = (if j = k then Some v else dict_get d j)"
  by (simp add: dict_get_def dict_set_def update_conv)

lemma dict_get_without [dict_simps]:
  "dict_get (dict_without ks d) j = (if j \<in> set ks then None else dict_get d j)"
  by (induction d) (auto simp: dict_get_def dict_without_def)

lemma dict_get_update [dict_simps]:
  "dict_get (dict_update d e) j = (case dict_get (rev e) j of Some v \<Rightarrow> Some v | None \<Rightarrow> dict_get d j)"
proof (induction e arbitrary: d)
  case Nil
  then show ?case by (simp add: dict_update_def dict_get_def)
next
  case (Cons kv e)
  obtain k v where kv: "kv = (k, v)" by (cases kv)
  have "dict_update d (kv # e) = dict_update (dict_set k v d) e"
    by (simp add: dict_update_def kv)
  then have "dict_get (dict_update d (kv # e)) j =
      (case dict_get (rev e) j of Some w \<Rightarrow> Some w | None \<Rightarrow> dict_get (dict_set k v d) j)"
    by (simp add: Cons.IH)
  then show ?case
    by (simp only: dict_get_set kv) (simp add: dict_get_def map_add_def split: option.splits)
qed

section \<open>Numbers\<close>

text \<open>
  \<open>int(v)\<close> on a JSON value, as the capacity and ledger arithmetic uses it: booleans are 0 and
  1, floats are truncated towards zero, strings are parsed (surrounding whitespace, a sign,
  digits with single underscores between them); \<open>int\<close> of \<open>None\<close>, a list or a dictionary
  raises \<open>TypeError\<close>.
\<close>

definition trunc_real :: "real \<Rightarrow> int" where
  "trunc_real r = (if r < 0 then \<lceil>r\<rceil> else \<lfloor>r\<rfloor>)"

definition digit_of :: "char \<Rightarrow> nat option" where
  "digit_of c = (let n = of_char c :: nat in if 48 \<le> n \<and> n \<le> 57 then Some (n - 48) else None)"

text \<open>\<open>again\<close>: the previous character was a digit, so an underscore or the end may follow.\<close>

fun parse_digits :: "bool \<Rightarrow> nat \<Rightarrow> string \<Rightarrow> nat option" where
  "parse_digits again acc [] = (if again then Some acc else None)"
| "parse_digits again acc (c # cs) =
    (case digit_of c of
       Some d \<Rightarrow> parse_digits True (10 * acc + d) cs
     | None \<Rightarrow> if again \<and> c = CHR ''_'' then parse_digits False acc cs else None)"

definition py_strip :: "string \<Rightarrow> string" where
  "py_strip s = rev (dropWhile py_isspace (rev (dropWhile py_isspace s)))"

definition py_int_of_string :: "string \<Rightarrow> int result" where
  "py_int_of_string s =
    (let t = py_strip s;
         (neg, u) = (case t of [] \<Rightarrow> (False, [])
           | c # cs \<Rightarrow> if c = CHR ''-'' then (True, cs) else if c = CHR ''+'' then (False, cs)
                      else (False, t))
     in case parse_digits False 0 u of
          Some n \<Rightarrow> Inr (if neg then - int n else int n)
        | None \<Rightarrow> Inl (ValueError ''invalid literal for int() with base 10''))"

definition type_error :: err where
  "type_error = OtherError ''TypeError''"

fun py_int :: "json \<Rightarrow> int result" where
  "py_int (JInt n) = Inr n"
| "py_int (JBool b) = Inr (if b then 1 else 0)"
| "py_int (JFloat r) = Inr (trunc_real r)"
| "py_int (JStr s) = py_int_of_string s"
| "py_int (JUuid u) = Inl (ValueError ''invalid literal for int() with base 10'')"
| "py_int _ = Inl type_error"

text \<open>\<open>model_validate\<close> of a row class rejecting a value.\<close>

definition pydantic_error :: err where
  "pydantic_error = OtherError ''pydantic_core.ValidationError''"

text \<open>The numeric value of a JSON number, and \<open>abs\<close>, \<open>!= 0\<close>, \<open>< 0\<close> on JSON values.\<close>

fun num_of :: "json \<Rightarrow> real option" where
  "num_of (JInt n) = Some (of_int n)"
| "num_of (JBool b) = Some (if b then 1 else 0)"
| "num_of (JFloat r) = Some r"
| "num_of _ = None"

fun py_abs :: "json \<Rightarrow> json result" where
  "py_abs (JInt n) = Inr (JInt \<bar>n\<bar>)"
| "py_abs (JBool b) = Inr (JInt (if b then 1 else 0))"
| "py_abs (JFloat r) = Inr (JFloat \<bar>r\<bar>)"
| "py_abs _ = Inl type_error"

fun py_neg :: "json \<Rightarrow> json result" where
  "py_neg (JInt n) = Inr (JInt (- n))"
| "py_neg (JBool b) = Inr (JInt (if b then - 1 else 0))"
| "py_neg (JFloat r) = Inr (JFloat (- r))"
| "py_neg _ = Inl type_error"

definition is_zero :: "json \<Rightarrow> bool" where
  "is_zero v \<longleftrightarrow> num_of v = Some 0"

definition py_less_0 :: "json \<Rightarrow> bool result" where
  "py_less_0 v = (case num_of v of Some r \<Rightarrow> Inr (r < 0) | None \<Rightarrow> Inl type_error)"

definition dict_get_or :: "dict \<Rightarrow> string \<Rightarrow> json \<Rightarrow> json" where
  "dict_get_or d k v = (case dict_get d k of Some w \<Rightarrow> w | None \<Rightarrow> v)"

definition dict_has :: "dict \<Rightarrow> string \<Rightarrow> bool" where
  "dict_has d k \<longleftrightarrow> dict_get d k \<noteq> None"

text \<open>Python truth value.\<close>

fun truthy :: "json \<Rightarrow> bool" where
  "truthy JNull = False"
| "truthy (JBool b) = b"
| "truthy (JInt n) = (n \<noteq> 0)"
| "truthy (JFloat r) = (r \<noteq> 0)"
| "truthy (JStr s) = (s \<noteq> [])"
| "truthy (JUuid u) = True"
| "truthy (JList xs) = (xs \<noteq> [])"
| "truthy (JObj d) = (d \<noteq> [])"

text \<open>\<open>v or w\<close>.\<close>

definition py_or :: "json \<Rightarrow> json \<Rightarrow> json" where
  "py_or v w = (if truthy v then v else w)"

text \<open>\<open>s.lower()\<close>, on the ASCII letters.\<close>

definition to_lower :: "string \<Rightarrow> string" where
  "to_lower s = map (\<lambda>c. let n = of_char c :: nat in if 65 \<le> n \<and> n \<le> 90 then char_of (n + 32) else c) s"

section \<open>Reading JSON values\<close>

text \<open>\<open>UUID(str(raw))\<close>; \<open>None\<close> where it raises.\<close>

fun as_uuid :: "json \<Rightarrow> uuid option" where
  "as_uuid (JUuid u) = Some u"
| "as_uuid _ = None"

text \<open>\<open>if isinstance(raw, list)\<close> and \<open>if isinstance(ent, dict)\<close>.\<close>

fun json_items :: "json \<Rightarrow> json list" where
  "json_items (JList xs) = xs"
| "json_items _ = []"

fun json_fields :: "json \<Rightarrow> dict option" where
  "json_fields (JObj o') = Some o'"
| "json_fields _ = None"

fun json_text :: "json \<Rightarrow> string option" where
  "json_text (JStr s) = Some s"
| "json_text _ = None"

fun json_list :: "json \<Rightarrow> json list option" where
  "json_list (JList vs) = Some vs"
| "json_list _ = None"

text \<open>First occurrences, in order.\<close>

definition dedup :: "'a list \<Rightarrow> 'a list" where
  "dedup xs = rev (remdups (rev xs))"

lemma set_dedup [simp]: "set (dedup xs) = set xs"
  by (simp add: dedup_def)

lemma distinct_dedup [simp]: "distinct (dedup xs)"
  by (simp add: dedup_def)

section \<open>Lists of identifiers\<close>

definition jget :: "dict \<Rightarrow> string \<Rightarrow> json" where
  "jget p k = dict_get_or p k JNull"

text \<open>\<open>_coerce_uuid_list\<close>: what \<open>UUID()\<close> accepts, in order, without repetitions.\<close>

fun coerce_loop :: "uuid list \<Rightarrow> json list \<Rightarrow> uuid list" where
  "coerce_loop seen [] = []"
| "coerce_loop seen (v # vs) =
    (case as_uuid v of
       None \<Rightarrow> coerce_loop seen vs
     | Some u \<Rightarrow> if u \<in> set seen then coerce_loop seen vs else u # coerce_loop (u # seen) vs)"

definition coerce_uuid_list :: "json list \<Rightarrow> uuid list" where
  "coerce_uuid_list vs = coerce_loop [] vs"

definition payload_uuid_list :: "dict \<Rightarrow> string \<Rightarrow> uuid list" where
  "payload_uuid_list p key = (case jget p key of JList vs \<Rightarrow> coerce_uuid_list vs | _ \<Rightarrow> [])"

lemma set_coerce_loop: "set (coerce_loop seen vs) = {u. \<exists>v \<in> set vs. as_uuid v = Some u} - set seen"
  by (induction vs arbitrary: seen) (auto split: option.splits)

lemma set_coerce [simp]: "set (coerce_uuid_list vs) = {u. \<exists>v \<in> set vs. as_uuid v = Some u}"
  by (simp add: coerce_uuid_list_def set_coerce_loop)

lemma distinct_coerce [simp]: "distinct (coerce_uuid_list vs)"
  unfolding coerce_uuid_list_def
proof -
  have "distinct (coerce_loop seen vs)" for seen
    by (induction vs arbitrary: seen) (auto simp: set_coerce_loop split: option.splits)
  then show "distinct (coerce_loop [] vs)" .
qed

lemma set_coerce_uuids: "set (coerce_uuid_list (map JUuid us)) = set us"
  by auto

lemma distinct_payload_uuids [simp]: "distinct (payload_uuid_list p key)"
  by (simp add: payload_uuid_list_def split: json.splits)

section \<open>Results\<close>

text \<open>Sequencing of computations that only return or raise.\<close>

definition bind_result :: "'a result \<Rightarrow> ('a \<Rightarrow> 'b result) \<Rightarrow> 'b result" where
  "bind_result r f = (case r of Inl e \<Rightarrow> Inl e | Inr x \<Rightarrow> f x)"

lemma bind_result_simps [simp]:
  "bind_result (Inr x) f = f x" "bind_result (Inl e) f = Inl e"
  by (simp_all add: bind_result_def)

lemma bind_result_Inr: "bind_result r f = Inr y \<longleftrightarrow> (\<exists>x. r = Inr x \<and> f x = Inr y)"
  by (auto simp: bind_result_def split: sum.splits)

text \<open>Iterating over a JSON value: a string yields its characters, a dictionary its keys.\<close>

fun py_iter :: "json \<Rightarrow> json list result" where
  "py_iter (JList xs) = Inr xs"
| "py_iter (JStr s) = Inr (map (\<lambda>c. JStr [c]) s)"
| "py_iter (JObj f) = Inr (map (JStr \<circ> fst) f)"
| "py_iter _ = Inl type_error"

end
