(* ===== verification/StateMachines.thy ===== *)
theory StateMachines
  imports Prelude
begin

text \<open>
  \<open>services/domain/acts/state_machines.py\<close>: the transition tables of goals, commitments
  and decisions, and the check every transition goes through. The state strings are the
  constructors of \<open>act_state\<close>, any other string is \<open>UnknownState\<close>; likewise for the act
  kinds. The dictionaries are association lists, the sets of states lists. The locale \<open>state_table\<close> is what the callers rely on
  (terminal states have no successors, no table is left, every state has a way out); the
  three tables are its interpretations.
\<close>

section \<open>Python renderings used in the reasons\<close>

text \<open>\<open>repr\<close> of a string without quotes or escapes, and of a list of such strings.\<close>

definition py_repr :: "string \<Rightarrow> string" where
  "py_repr s = CHR 0x27 # s @ [CHR 0x27]"

primrec py_join :: "string \<Rightarrow> string list \<Rightarrow> string" where
  "py_join sep [] = []"
| "py_join sep (x # xs) = (if xs = [] then x else x @ sep @ py_join sep xs)"

definition py_list_repr :: "string list \<Rightarrow> string" where
  "py_list_repr xs = ''['' @ py_join '', '' (map py_repr xs) @ '']''"

text \<open>The arrow U+2192 in UTF-8.\<close>

definition arrow :: string where
  "arrow = [CHR 0xE2, CHR 0x86, CHR 0x92]"

section \<open>States and kinds\<close>

datatype act_state =
    Active | Paused | Achieved | Abandoned
  | Proposed | Blocked | DoneUnverified | DoneVerified | Closed
  | Drafted | Revisited | Archived
  | UnknownState string

datatype act_kind = Goal | Commitment | Decision | UnknownKind string

primrec state_text :: "act_state \<Rightarrow> string" where
  "state_text Active = ''active''"
| "state_text Paused = ''paused''"
| "state_text Achieved = ''achieved''"
| "state_text Abandoned = ''abandoned''"
| "state_text Proposed = ''proposed''"
| "state_text Blocked = ''blocked''"
| "state_text DoneUnverified = ''doneunverified''"
| "state_text DoneVerified = ''doneverified''"
| "state_text Closed = ''closed''"
| "state_text Drafted = ''drafted''"
| "state_text Revisited = ''revisited''"
| "state_text Archived = ''archived''"
| "state_text (UnknownState s) = s"

primrec kind_text :: "act_kind \<Rightarrow> string" where
  "kind_text Goal = ''goal''"
| "kind_text Commitment = ''commitment''"
| "kind_text Decision = ''decision''"
| "kind_text (UnknownKind s) = s"

abbreviation state_repr :: "act_state \<Rightarrow> string" where
  "state_repr s \<equiv> py_repr (state_text s)"

section \<open>The tables\<close>

definition GOAL_TRANSITIONS :: "(act_state \<times> act_state list) list" where
  "GOAL_TRANSITIONS =
    [(Active, [Paused, Achieved, Abandoned]),
     (Paused, [Active, Achieved, Abandoned]),
     (Achieved, []),
     (Abandoned, [])]"

definition GOAL_TERMINAL :: "act_state list" where
  "GOAL_TERMINAL = [Achieved, Abandoned]"

definition COMMITMENT_TRANSITIONS :: "(act_state \<times> act_state list) list" where
  "COMMITMENT_TRANSITIONS =
    [(Proposed, [Active, Closed]),
     (Active, [Blocked, Paused, DoneUnverified, Closed]),
     (Blocked, [Active, Paused, Closed]),
     (Paused, [Active, Closed]),
     (DoneUnverified, [DoneVerified, Active, Closed]),
     (DoneVerified, []),
     (Closed, [])]"

definition COMMITMENT_TERMINAL :: "act_state list" where
  "COMMITMENT_TERMINAL = [DoneVerified, Closed]"

definition DECISION_TRANSITIONS :: "(act_state \<times> act_state list) list" where
  "DECISION_TRANSITIONS =
    [(Drafted, [Active]),
     (Active, [Revisited, Archived]),
     (Revisited, [Active, Archived]),
     (Archived, [])]"

definition DECISION_TERMINAL :: "act_state list" where
  "DECISION_TERMINAL = [Archived]"

definition act_transitions :: "(act_kind \<times> (act_state \<times> act_state list) list) list" where
  "act_transitions =
    [(Goal, GOAL_TRANSITIONS), (Commitment, COMMITMENT_TRANSITIONS),
     (Decision, DECISION_TRANSITIONS)]"

definition act_terminal :: "(act_kind \<times> act_state list) list" where
  "act_terminal =
    [(Goal, GOAL_TERMINAL), (Commitment, COMMITMENT_TERMINAL), (Decision, DECISION_TERMINAL)]"

lemmas table_defs = GOAL_TRANSITIONS_def GOAL_TERMINAL_def COMMITMENT_TRANSITIONS_def
  COMMITMENT_TERMINAL_def DECISION_TRANSITIONS_def DECISION_TERMINAL_def
  act_transitions_def act_terminal_def

section \<open>The operations\<close>

definition is_terminal :: "act_state \<Rightarrow> act_kind \<Rightarrow> bool" where
  "is_terminal state kind =
    (state \<in> set (case map_of act_terminal kind of Some ts \<Rightarrow> ts | None \<Rightarrow> []))"

definition legal_targets :: "act_state \<Rightarrow> act_kind \<Rightarrow> act_state list" where
  "legal_targets current_state kind =
    (case map_of act_transitions kind of
       None \<Rightarrow> []
     | Some table \<Rightarrow> (case map_of table current_state of Some ts \<Rightarrow> ts | None \<Rightarrow> []))"

definition can_transition :: "act_state \<Rightarrow> act_state \<Rightarrow> act_kind \<Rightarrow> bool \<times> string" where
  "can_transition current_state new_state kind =
    (case map_of act_transitions kind of
       None \<Rightarrow> (False, ''unknown act kind: '' @ py_repr (kind_text kind))
     | Some table \<Rightarrow>
        (case map_of table current_state of
           None \<Rightarrow> (False, ''unknown '' @ kind_text kind @ '' state: '' @ state_repr current_state)
         | Some allowed \<Rightarrow>
            if is_terminal current_state kind
            then (False, ''cannot transition out of terminal '' @ kind_text kind @ '' state ''
                         @ state_repr current_state)
            else if new_state = current_state
            then (False, ''no-op transition '' @ state_repr current_state @ arrow
                         @ state_repr new_state)
            else if new_state \<in> set allowed then (True, [])
            else (False, ''illegal '' @ kind_text kind @ '' transition: ''
                         @ state_repr current_state @ arrow @ state_repr new_state
                         @ '' (allowed: '' @ py_list_repr (sort (map state_text allowed))
                         @ '')'')))"

definition can_move :: "act_kind \<Rightarrow> act_state \<Rightarrow> act_state \<Rightarrow> bool" where
  "can_move kind s t = fst (can_transition s t kind)"

definition act_known :: "act_kind \<Rightarrow> act_state \<Rightarrow> bool" where
  "act_known kind s =
    (case map_of act_transitions kind of None \<Rightarrow> False | Some table \<Rightarrow> map_of table s \<noteq> None)"

section \<open>The contract of a transition table\<close>

locale state_table =
  fixes targets :: "'a \<Rightarrow> 'a list"
    and terminal :: "'a \<Rightarrow> bool"
    and known :: "'a \<Rightarrow> bool"
  assumes terminal_targets: "terminal s \<Longrightarrow> targets s = []"
    and known_targets: "t \<in> set (targets s) \<Longrightarrow> known t \<and> known s"
    and no_self_loop: "s \<notin> set (targets s)"
    and way_out: "known s \<Longrightarrow> \<not> terminal s \<Longrightarrow>
      \<exists>t \<in> set (targets s). terminal t \<or> (\<exists>u \<in> set (targets t). terminal u)"
begin

definition moves :: "'a \<Rightarrow> 'a \<Rightarrow> bool" where
  "moves s t \<longleftrightarrow> t \<in> set (targets s)"

lemma moves_from_terminal: "terminal s \<Longrightarrow> moves\<^sup>*\<^sup>* s t \<Longrightarrow> t = s"
  by (erule converse_rtranclpE) (auto simp: moves_def terminal_targets)

lemma moves_known: "moves\<^sup>*\<^sup>* s t \<Longrightarrow> known s \<Longrightarrow> known t"
  by (induction rule: rtranclp_induct) (auto simp: moves_def dest: known_targets)

lemma reaches_terminal: "known s \<Longrightarrow> \<exists>t. moves\<^sup>*\<^sup>* s t \<and> terminal t"
proof (cases "terminal s")
  case False
  assume "known s"
  with way_out [OF this False] obtain t where t: "t \<in> set (targets s)"
    and or: "terminal t \<or> (\<exists>u \<in> set (targets t). terminal u)" by blast
  have st: "moves\<^sup>*\<^sup>* s t" using t by (simp add: moves_def r_into_rtranclp)
  from or show ?thesis
  proof
    assume "terminal t"
    with st show ?thesis by blast
  next
    assume "\<exists>u \<in> set (targets t). terminal u"
    then obtain u where "moves t u" and "terminal u" by (auto simp: moves_def)
    with st show ?thesis by (meson rtranclp.rtrancl_into_rtrancl)
  qed
qed blast

end

lemma legal_targets_goal:
  "legal_targets s Goal =
    (case s of Active \<Rightarrow> [Paused, Achieved, Abandoned] | Paused \<Rightarrow> [Active, Achieved, Abandoned]
     | _ \<Rightarrow> [])"
  by (cases s) (simp_all add: legal_targets_def table_defs)

lemma legal_targets_commitment:
  "legal_targets s Commitment =
    (case s of Proposed \<Rightarrow> [Active, Closed]
     | Active \<Rightarrow> [Blocked, Paused, DoneUnverified, Closed]
     | Blocked \<Rightarrow> [Active, Paused, Closed] | Paused \<Rightarrow> [Active, Closed]
     | DoneUnverified \<Rightarrow> [DoneVerified, Active, Closed] | _ \<Rightarrow> [])"
  by (cases s) (simp_all add: legal_targets_def table_defs)

lemma legal_targets_decision:
  "legal_targets s Decision =
    (case s of Drafted \<Rightarrow> [Active] | Active \<Rightarrow> [Revisited, Archived]
     | Revisited \<Rightarrow> [Active, Archived] | _ \<Rightarrow> [])"
  by (cases s) (simp_all add: legal_targets_def table_defs)

lemma is_terminal_goal: "is_terminal s Goal \<longleftrightarrow> s = Achieved \<or> s = Abandoned"
  by (simp add: is_terminal_def table_defs)

lemma is_terminal_commitment: "is_terminal s Commitment \<longleftrightarrow> s = DoneVerified \<or> s = Closed"
  by (simp add: is_terminal_def table_defs)

lemma is_terminal_decision: "is_terminal s Decision \<longleftrightarrow> s = Archived"
  by (simp add: is_terminal_def table_defs)

lemmas table_simps = legal_targets_goal legal_targets_commitment legal_targets_decision
  is_terminal_goal is_terminal_commitment is_terminal_decision

lemma act_known_simps:
  "act_known Goal s \<longleftrightarrow> s \<in> {Active, Paused, Achieved, Abandoned}"
  "act_known Commitment s \<longleftrightarrow>
     s \<in> {Proposed, Active, Blocked, Paused, DoneUnverified, DoneVerified, Closed}"
  "act_known Decision s \<longleftrightarrow> s \<in> {Drafted, Active, Revisited, Archived}"
  by (cases s; simp add: act_known_def table_defs)+

lemma goal_table: "state_table (\<lambda>s. legal_targets s Goal) (\<lambda>s. is_terminal s Goal) (act_known Goal)"
  by unfold_locales (auto simp: table_simps act_known_simps split: act_state.splits)

interpretation goal_sm: state_table
  "\<lambda>s. legal_targets s Goal" "\<lambda>s. is_terminal s Goal" "act_known Goal"
  by (rule goal_table)

lemma commitment_table:
  "state_table (\<lambda>s. legal_targets s Commitment) (\<lambda>s. is_terminal s Commitment)
     (act_known Commitment)"
  by unfold_locales (auto simp: table_simps act_known_simps split: act_state.splits)

interpretation commitment_sm: state_table
  "\<lambda>s. legal_targets s Commitment" "\<lambda>s. is_terminal s Commitment" "act_known Commitment"
  by (rule commitment_table)

lemma decision_table:
  "state_table (\<lambda>s. legal_targets s Decision) (\<lambda>s. is_terminal s Decision) (act_known Decision)"
  by unfold_locales (auto simp: table_simps act_known_simps split: act_state.splits)

interpretation decision_sm: state_table
  "\<lambda>s. legal_targets s Decision" "\<lambda>s. is_terminal s Decision" "act_known Decision"
  by (rule decision_table)

section \<open>What the check accepts\<close>

lemma can_transition_accepts:
  "fst (can_transition s t kind) \<longleftrightarrow> t \<in> set (legal_targets s kind)"
proof (cases kind)
  case (UnknownKind x)
  then show ?thesis by (simp add: can_transition_def legal_targets_def table_defs)
next
  case Goal
  then show ?thesis
    by (cases s) (simp_all add: can_transition_def legal_targets_def table_defs is_terminal_def)
next
  case Commitment
  then show ?thesis
    by (cases s) (simp_all add: can_transition_def legal_targets_def table_defs is_terminal_def)
next
  case Decision
  then show ?thesis
    by (cases s) (simp_all add: can_transition_def legal_targets_def table_defs is_terminal_def)
qed

lemma can_move_targets: "can_move kind s t \<longleftrightarrow> t \<in> set (legal_targets s kind)"
  by (simp add: can_move_def can_transition_accepts)

lemma can_move_moves:
  "can_move Goal = goal_sm.moves" "can_move Commitment = commitment_sm.moves"
  "can_move Decision = decision_sm.moves"
  by (simp_all add: fun_eq_iff can_move_targets goal_sm.moves_def commitment_sm.moves_def
      decision_sm.moves_def)

text \<open>
  \<open>can_transition\<close> accepts exactly the entries of the kind's table. Its earlier guards
  (unknown kind, unknown state, terminal state, no-op) never refuse a transition that the
  table lists, and an accepted transition carries the empty reason while a refused one never
  does.
\<close>

theorem can_transition_exact:
  "(fst (can_transition s t kind) \<longleftrightarrow> t \<in> set (legal_targets s kind)) \<and>
   (fst (can_transition s t kind) \<longleftrightarrow> snd (can_transition s t kind) = [])"
proof
  show "fst (can_transition s t kind) \<longleftrightarrow> t \<in> set (legal_targets s kind)"
    by (rule can_transition_accepts)
  show "fst (can_transition s t kind) \<longleftrightarrow> snd (can_transition s t kind) = []"
    by (simp add: can_transition_def split: option.splits)
qed

text \<open>
  no sequence of accepted transitions leaves a terminal state, none leaves the states of
  the table, and from every state of the table some sequence of accepted transitions reaches a
  terminal state. This holds for the three kinds of act.
\<close>

theorem act_lifecycle:
  assumes "act_known kind s"
  shows "(\<forall>t. (can_move kind)\<^sup>*\<^sup>* s t \<longrightarrow> act_known kind t \<and> (is_terminal s kind \<longrightarrow> t = s)) \<and>
    (\<exists>t. (can_move kind)\<^sup>*\<^sup>* s t \<and> is_terminal t kind)"
proof (cases kind)
  case Goal
  with assms show ?thesis
    by (auto simp: can_move_moves dest: goal_sm.moves_known goal_sm.moves_from_terminal
        intro: goal_sm.reaches_terminal)
next
  case Commitment
  with assms show ?thesis
    by (auto simp: can_move_moves dest: commitment_sm.moves_known
        commitment_sm.moves_from_terminal intro: commitment_sm.reaches_terminal)
next
  case Decision
  with assms show ?thesis
    by (auto simp: can_move_moves dest: decision_sm.moves_known
        decision_sm.moves_from_terminal intro: decision_sm.reaches_terminal)
next
  case (UnknownKind x)
  with assms show ?thesis by (simp add: act_known_def table_defs)
qed

theorem act_lifecycle_witness:
  "act_known Commitment Blocked \<and>
   (\<exists>t. (can_move Commitment)\<^sup>*\<^sup>* Blocked t \<and> is_terminal t Commitment) \<and>
   {t. (can_move Commitment)\<^sup>*\<^sup>* Closed t} = {Closed}"
proof -
  have known: "act_known Commitment Blocked" "act_known Commitment Closed"
    by (simp_all add: act_known_simps)
  have "{t. (can_move Commitment)\<^sup>*\<^sup>* Closed t} = {Closed}"
    using act_lifecycle [OF known(2)] by (auto simp: table_simps)
  then show ?thesis
    using known(1) act_lifecycle [OF known(1)] by blast
qed

end
