(* ===== verification/Closure.thy ===== *)
theory Closure
  imports Prelude
begin

text \<open>
  The two shapes of \<open>WITH RECURSIVE\<close> queries the code runs, as PostgreSQL evaluates them.
  With one id column, \<open>UNION\<close> drops rows already produced, so the evaluation stops and
  returns the reachable ids. With a depth column and \<open>depth < 1000\<close>, it returns the ids on
  paths of bounded length. Both are executable, and both are proved equal to their relational
  meaning. The locale \<open>guarded_graph\<close> is the contract between a store of edges and
  the guard that is evaluated before an edge is inserted; its users get acyclicity.
\<close>

section \<open>UNION on ids: the reachable set\<close>

definition successors :: "('a \<times> 'a) list \<Rightarrow> 'a list \<Rightarrow> 'a list" where
  "successors E w = [snd e. e \<leftarrow> E, fst e \<in> set w]"

lemma set_successors: "set (successors E w) = set E `` set w"
  by (force simp: successors_def)

text \<open>
  \<open>w\<close> is the working table, \<open>seen\<close> the rows of the result so far: a round joins the
  working table with the edges, discards the rows already produced, and stops when nothing is
  left.
\<close>

function cte_close :: "('a \<times> 'a) list \<Rightarrow> 'a list \<Rightarrow> 'a list \<Rightarrow> 'a list" where
  "cte_close E w seen =
     (let new = remdups (filter (\<lambda>x. x \<notin> set seen) (successors E w))
      in if new = [] then seen else cte_close E new (seen @ new))"
  by pat_completeness auto
termination
proof (relation "measure (\<lambda>(E, w, seen). card (snd ` set E - set seen))", goal_cases)
  case 1
  show ?case by simp
next
  case (2 E w seen new)
  have fin: "finite (snd ` set E - set seen)" by simp
  from 2 have x: "hd new \<in> set new" by (intro hd_in_set) simp
  with 2 have "hd new \<in> snd ` set E - set seen" by (auto simp: successors_def)
  with x have "snd ` set E - set (seen @ new) \<subset> snd ` set E - set seen" by auto
  with fin show ?case by (simp add: psubset_card_mono)
qed

declare cte_close.simps [simp del]

definition cte_reach :: "('a \<times> 'a) list \<Rightarrow> 'a list \<Rightarrow> 'a list" where
  "cte_reach E seeds = cte_close E (remdups seeds) (remdups seeds)"

lemma cte_close_sound:
  "set w \<subseteq> set seen \<Longrightarrow> set (cte_close E w seen) \<subseteq> (set E)\<^sup>* `` set seen"
proof (induction E w seen rule: cte_close.induct)
  case (1 E w seen)
  define new where "new = remdups (filter (\<lambda>x. x \<notin> set seen) (successors E w))"
  show ?case
  proof (cases "new = []")
    case True
    then show ?thesis
      by (subst cte_close.simps) (auto simp: new_def Let_def)
  next
    case False
    have "set E `` set w \<subseteq> (set E)\<^sup>* `` set seen"
      using "1.prems" by blast
    then have new: "set new \<subseteq> (set E)\<^sup>* `` set seen"
      by (auto simp: new_def set_successors)
    have "set (cte_close E w seen) = set (cte_close E new (seen @ new))"
      using False by (subst cte_close.simps) (simp add: new_def Let_def)
    also have "\<dots> \<subseteq> (set E)\<^sup>* `` set (seen @ new)"
      using "1.IH" [OF new_def False] by simp
    also have "\<dots> \<subseteq> (set E)\<^sup>* `` set seen"
      using new by (auto intro: rtrancl_trans)
    finally show ?thesis .
  qed
qed

lemma cte_close_closed:
  assumes "set w \<subseteq> set seen" and "set E `` (set seen - set w) \<subseteq> set seen"
  shows "set seen \<subseteq> set (cte_close E w seen) \<and>
    set E `` set (cte_close E w seen) \<subseteq> set (cte_close E w seen)"
  using assms
proof (induction E w seen rule: cte_close.induct)
  case (1 E w seen)
  define new where "new = remdups (filter (\<lambda>x. x \<notin> set seen) (successors E w))"
  have set_new: "set new = set E `` set w - set seen"
    by (auto simp: new_def set_successors)
  show ?case
  proof (cases "new = []")
    case True
    with set_new "1.prems" have "set E `` set seen \<subseteq> set seen"
      by (simp add: Image_iff subset_iff) blast
    with True show ?thesis
      by (subst (1 2 3) cte_close.simps) (simp add: new_def Let_def)
  next
    case False
    have "set E `` (set (seen @ new) - set new) \<subseteq> set (seen @ new)"
      using "1.prems" unfolding set_append set_new by blast
    then have "set (seen @ new) \<subseteq> set (cte_close E new (seen @ new)) \<and>
      set E `` set (cte_close E new (seen @ new)) \<subseteq> set (cte_close E new (seen @ new))"
      using "1.IH" [OF new_def False] by simp
    moreover have "cte_close E w seen = cte_close E new (seen @ new)"
      using False by (subst cte_close.simps) (simp add: new_def Let_def)
    ultimately show ?thesis by auto
  qed
qed

lemma closed_rtrancl: "R `` S \<subseteq> S \<Longrightarrow> x \<in> S \<Longrightarrow> (x, y) \<in> R\<^sup>* \<Longrightarrow> y \<in> S"
  by (rotate_tac 2, induction rule: rtrancl_induct) auto

theorem set_cte_reach: "set (cte_reach E seeds) = (set E)\<^sup>* `` set seeds"
proof
  show "set (cte_reach E seeds) \<subseteq> (set E)\<^sup>* `` set seeds"
    using cte_close_sound [of "remdups seeds" "remdups seeds" E] by (simp add: cte_reach_def)
next
  have "set seeds \<subseteq> set (cte_reach E seeds)"
    "set E `` set (cte_reach E seeds) \<subseteq> set (cte_reach E seeds)"
    using cte_close_closed [of "remdups seeds" "remdups seeds" E] by (simp_all add: cte_reach_def)
  then show "(set E)\<^sup>* `` set seeds \<subseteq> set (cte_reach E seeds)"
    by (meson Image_singleton_iff closed_rtrancl ImageE subsetD subsetI)
qed

section \<open>UNION with a depth column: paths of bounded length\<close>

text \<open>\<open>n\<close> is how many more rounds the depth condition allows.\<close>

fun cte_levels :: "nat \<Rightarrow> ('a \<times> 'a) list \<Rightarrow> 'a list \<Rightarrow> 'a list" where
  "cte_levels n E [] = []"
| "cte_levels 0 E w = w"
| "cte_levels (Suc n) E w = w @ cte_levels n E (remdups (successors E w))"

lemma set_cte_levels:
  "set (cte_levels n E w) = {y. \<exists>k \<le> n. \<exists>x \<in> set w. (x, y) \<in> set E ^^ k}"
proof (induction n arbitrary: w)
  case 0
  then show ?case by (cases w) auto
next
  case (Suc n)
  show ?case
  proof (cases w)
    case Nil
    then show ?thesis by simp
  next
    case (Cons a v)
    have *: "(\<exists>k \<le> Suc n. \<exists>x \<in> set w. (x, y) \<in> set E ^^ k) \<longleftrightarrow>
      y \<in> set w \<or> (\<exists>k \<le> n. \<exists>x \<in> set E `` set w. (x, y) \<in> set E ^^ k)" for y
    proof
      assume "\<exists>k \<le> Suc n. \<exists>x \<in> set w. (x, y) \<in> set E ^^ k"
      then obtain k x where k: "k \<le> Suc n" and x: "x \<in> set w" and xy: "(x, y) \<in> set E ^^ k"
        by blast
      show "y \<in> set w \<or> (\<exists>k \<le> n. \<exists>x \<in> set E `` set w. (x, y) \<in> set E ^^ k)"
      proof (cases k)
        case 0
        with x xy show ?thesis by simp
      next
        case (Suc j)
        with xy obtain z where "(x, z) \<in> set E" and "(z, y) \<in> set E ^^ j"
          by (blast dest: relpow_Suc_D2)
        with Suc k x show ?thesis by auto
      qed
    next
      assume "y \<in> set w \<or> (\<exists>k \<le> n. \<exists>x \<in> set E `` set w. (x, y) \<in> set E ^^ k)"
      then show "\<exists>k \<le> Suc n. \<exists>x \<in> set w. (x, y) \<in> set E ^^ k"
      proof
        assume "y \<in> set w"
        then show ?thesis by (intro exI [of _ 0]) auto
      next
        assume "\<exists>k \<le> n. \<exists>x \<in> set E `` set w. (x, y) \<in> set E ^^ k"
        then obtain k x z where "k \<le> n" "z \<in> set w" "(z, x) \<in> set E" "(x, y) \<in> set E ^^ k"
          by auto
        then show ?thesis
          by (intro exI [of _ "Suc k"]) (auto intro: relpow_Suc_I2 simp del: relpow.simps)
      qed
    qed
    have "set (cte_levels (Suc n) E w) =
        set w \<union> {y. \<exists>k \<le> n. \<exists>x \<in> set E `` set w. (x, y) \<in> set E ^^ k}"
      using Cons by (simp add: Suc.IH set_successors)
    then show ?thesis using * by blast
  qed
qed

lemma cte_levels_rtrancl: "y \<in> set (cte_levels n E w) \<Longrightarrow> \<exists>x \<in> set w. (x, y) \<in> (set E)\<^sup>*"
  unfolding set_cte_levels by (auto dest: relpow_imp_rtrancl)

section \<open>Guarded insertion keeps a graph acyclic\<close>

lemma acyclic_insert_edge:
  "acyclic (insert (a, b) R) \<longleftrightarrow> acyclic R \<and> (b, a) \<notin> R\<^sup>*"
  by (rule acyclic_insert)

text \<open>
  The contract of a store of edges: \<open>graph s\<close> is what the store holds, \<open>guard s a b\<close>
  what is evaluated before the edge from \<open>a\<close> to \<open>b\<close> is inserted, \<open>add a b s\<close> the
  insertion.
\<close>

locale guarded_graph =
  fixes graph :: "'s \<Rightarrow> ('n \<times> 'n) set"
    and guard :: "'s \<Rightarrow> 'n \<Rightarrow> 'n \<Rightarrow> bool"
    and add :: "'n \<Rightarrow> 'n \<Rightarrow> 's \<Rightarrow> 's"
  assumes guard_reach: "guard s a b \<Longrightarrow> (b, a) \<notin> (graph s)\<^sup>*"
    and graph_add: "graph (add a b s) \<subseteq> insert (a, b) (graph s)"
begin

lemma add_acyclic:
  assumes "acyclic (graph s)" and "guard s a b"
  shows "acyclic (graph (add a b s))"
proof -
  have "acyclic (insert (a, b) (graph s))"
    using assms by (simp add: acyclic_insert_edge guard_reach)
  then show ?thesis by (rule acyclic_subset) (rule graph_add)
qed

text \<open>A sequence of guarded insertions, each checked against the store it is made on.\<close>

fun add_all :: "('n \<times> 'n) list \<Rightarrow> 's \<Rightarrow> 's" where
  "add_all [] s = s"
| "add_all ((a, b) # es) s = (if guard s a b then add_all es (add a b s) else add_all es s)"

lemma add_all_acyclic: "acyclic (graph s) \<Longrightarrow> acyclic (graph (add_all es s))"
  by (induction es s rule: add_all.induct) (auto intro: add_acyclic)

end

text \<open>An acyclic graph is one in which every edge goes up in some well-founded numbering.\<close>

lemma acyclic_if_decreasing:
  fixes f :: "'a \<Rightarrow> nat"
  assumes "\<And>a b. (a, b) \<in> R \<Longrightarrow> f b < f a"
  shows "acyclic R"
proof (rule acyclicI, rule allI)
  fix x
  have "(a, b) \<in> R\<^sup>+ \<Longrightarrow> f b < f a" for a b
    by (induction rule: trancl_induct) (auto dest: assms)
  then show "(x, x) \<notin> R\<^sup>+" by blast
qed

end
