(* ===== verification/Store.thy ===== *)
theory Store
  imports Json StateMachines Closure
begin

text \<open>
  The database the domain services write: one record with a list of rows per table of
  \<open>db/migrations\<close> that the modelled code touches, the supply of fresh identifiers
  (\<open>lib/shared/ids.py\<close>, \<open>uuid7\<close>: every call yields an id not seen before; its bits are the
  subject of theory \<open>Ids\<close>), PostgreSQL's \<open>now()\<close> and the clock of the Python process. The
  locale \<open>row_store\<close> is the interface the services use a table through.
\<close>

section \<open>Rows\<close>

datatype health = Healthy | Warning | Degraded | Critical

record actor_row =
  a_id :: uuid
  a_tenant :: uuid
  a_status :: string

record goal_row =
  g_id :: uuid
  g_tenant :: uuid
  g_title :: string
  g_description :: "string option"
  g_state :: act_state
  g_target_date :: "time option"
  g_parent :: "uuid option"
  g_altitude :: string
  g_success_criteria :: "dict option"
  g_health :: health
  g_health_at :: "time option"
  g_created_at :: time
  g_changed_at :: time
  g_created_by :: uuid
  g_archived_at :: "time option"

record commitment_row =
  c_id :: uuid
  c_tenant :: uuid
  c_title :: string
  c_description :: "string option"
  c_state :: act_state
  c_owner :: "uuid option"
  c_due :: "time option"
  c_ambition :: string
  c_priority :: int
  c_success_criteria :: "dict option"
  c_resolved :: "uuid list"
  c_counterparty :: "dict option"
  c_capacity :: "dict option"
  c_maintenance :: bool
  c_created_at :: time
  c_changed_at :: time
  c_terminal_at :: "time option"
  c_created_by :: uuid
  c_basis :: "uuid option"

record decision_row =
  d_id :: uuid
  d_tenant :: uuid
  d_title :: string
  d_text :: string
  d_rationale :: "string option"
  d_state :: act_state
  d_scope :: "dict option"
  d_triggers :: "dict option"
  d_created_at :: time
  d_changed_at :: time
  d_created_by :: uuid
  d_archived_at :: "time option"

record contributor_row =
  cc_commitment :: uuid
  cc_actor :: uuid
  cc_role :: "string option"

record contributes_row =
  ct_commitment :: uuid
  ct_goal :: uuid
  ct_critical :: bool

record observation_row =
  o_id :: uuid
  o_tenant :: uuid
  o_occurred_at :: time
  o_kind :: string
  o_channel :: string
  o_actor :: "uuid option"
  o_content :: dict
  o_trust :: string
  o_cause :: "uuid option"
  o_entities :: "json list"

datatype resource_kind =
    Financial | Ip | Relational | Capacity | Infrastructure | Regulatory
  | UnknownResourceKind string

datatype utilization = Available | Deployed | Committed | Depleted | Expired | UnknownUtil string

record resource_row =
  r_id :: uuid
  r_tenant :: uuid
  r_kind :: resource_kind
  r_identity :: string
  r_description :: "string option"
  r_value :: dict
  r_confidence :: real
  r_util :: utilization
  r_controllability :: string
  r_temporal :: string
  r_metadata :: "dict option"
  r_created_at :: time
  r_updated_at :: time
  r_updated_by :: "uuid option"
  r_archived_at :: "time option"

datatype tx_type =
    Acquire | Deploy | Release | Spend | Strengthen | Weaken | Expire | UnknownTx string

record ledger_row =
  x_id :: uuid
  x_resource :: uuid
  x_tenant :: uuid
  x_type :: tx_type
  x_delta :: dict
  x_occurred_at :: time
  x_source :: uuid
  x_created_at :: time

record deployment_row =
  p_resource :: uuid
  p_commitment :: uuid
  p_quantity :: dict
  p_at :: time
  p_released_at :: "time option"

record link_row =
  l_id :: uuid
  l_tenant :: uuid
  l_customer :: uuid
  l_commitment :: uuid
  l_description :: "string option"
  l_relationship :: string
  l_revenue :: "real option"
  l_criticality :: string
  l_created_at :: time

record trigger_row =
  q_id :: uuid
  q_tenant :: uuid
  q_kind :: string
  q_subkind :: "string option"
  q_observation :: "uuid option"
  q_model :: "uuid option"
  q_payload :: dict
  q_scheduled_for :: "time option"
  q_locked_by :: "string option"
  q_locked_at :: "time option"
  q_enqueued_at :: time
  q_attempts :: int
  q_completed_at :: "time option"
  q_batch_parent :: "uuid option"
  q_last_error :: "string option"
  q_quarantined :: "(time \<times> uuid \<times> string) option"

section \<open>The database\<close>

record db =
  actors :: "actor_row list"
  goals :: "goal_row list"
  commitments :: "commitment_row list"
  decisions :: "decision_row list"
  contributors :: "contributor_row list"
  contributes_to :: "contributes_row list"
  depends_on :: "(uuid \<times> uuid) list"
  constrained_by :: "(uuid \<times> uuid) list"
  observations :: "observation_row list"
  resources :: "resource_row list"
  ledger :: "ledger_row list"
  deployments :: "deployment_row list"
  links :: "link_row list"
  trigger_queue :: "trigger_row list"
  model_ids :: "uuid list"
  uuid_next :: uuid
  db_now :: time
  py_now :: time

definition empty_db :: db where
  "empty_db = \<lparr>actors = [], goals = [], commitments = [], decisions = [], contributors = [],
     contributes_to = [], depends_on = [], constrained_by = [], observations = [],
     resources = [], ledger = [], deployments = [], links = [], trigger_queue = [], model_ids = [],
     uuid_next = 0, db_now = 0, py_now = 0\<rparr>"

definition take_uuid :: "'a db_scheme \<Rightarrow> uuid \<times> 'a db_scheme" where
  "take_uuid d = (uuid_next d, d\<lparr>uuid_next := Suc (uuid_next d)\<rparr>)"

definition sel_actor :: "uuid \<Rightarrow> db \<Rightarrow> actor_row option" where
  "sel_actor i d = row_at a_id i (actors d)"

definition sel_goal :: "uuid \<Rightarrow> db \<Rightarrow> goal_row option" where
  "sel_goal i d = row_at g_id i (goals d)"

definition upd_goal :: "uuid \<Rightarrow> (goal_row \<Rightarrow> goal_row) \<Rightarrow> db \<Rightarrow> db" where
  "upd_goal i f d = d\<lparr>goals := row_update g_id i f (goals d)\<rparr>"

definition ins_goal :: "goal_row \<Rightarrow> db \<Rightarrow> db" where
  "ins_goal r d = d\<lparr>goals := goals d @ [r]\<rparr>"

definition sel_commitment :: "uuid \<Rightarrow> db \<Rightarrow> commitment_row option" where
  "sel_commitment i d = row_at c_id i (commitments d)"

definition upd_commitment :: "uuid \<Rightarrow> (commitment_row \<Rightarrow> commitment_row) \<Rightarrow> db \<Rightarrow> db" where
  "upd_commitment i f d = d\<lparr>commitments := row_update c_id i f (commitments d)\<rparr>"

definition ins_commitment :: "commitment_row \<Rightarrow> db \<Rightarrow> db" where
  "ins_commitment r d = d\<lparr>commitments := commitments d @ [r]\<rparr>"

definition sel_decision :: "uuid \<Rightarrow> db \<Rightarrow> decision_row option" where
  "sel_decision i d = row_at d_id i (decisions d)"

definition upd_decision :: "uuid \<Rightarrow> (decision_row \<Rightarrow> decision_row) \<Rightarrow> db \<Rightarrow> db" where
  "upd_decision i f d = d\<lparr>decisions := row_update d_id i f (decisions d)\<rparr>"

definition ins_decision :: "decision_row \<Rightarrow> db \<Rightarrow> db" where
  "ins_decision r d = d\<lparr>decisions := decisions d @ [r]\<rparr>"

definition sel_resource :: "uuid \<Rightarrow> db \<Rightarrow> resource_row option" where
  "sel_resource i d = row_at r_id i (resources d)"

definition upd_resource :: "uuid \<Rightarrow> (resource_row \<Rightarrow> resource_row) \<Rightarrow> db \<Rightarrow> db" where
  "upd_resource i f d = d\<lparr>resources := row_update r_id i f (resources d)\<rparr>"

definition ins_resource :: "resource_row \<Rightarrow> db \<Rightarrow> db" where
  "ins_resource r d = d\<lparr>resources := resources d @ [r]\<rparr>"

section \<open>The interface of a table\<close>

locale row_store =
  fixes sel :: "uuid \<Rightarrow> 's \<Rightarrow> 'r option"
    and upd :: "uuid \<Rightarrow> ('r \<Rightarrow> 'r) \<Rightarrow> 's \<Rightarrow> 's"
    and ins :: "'r \<Rightarrow> 's \<Rightarrow> 's"
    and key :: "'r \<Rightarrow> uuid"
  assumes sel_key: "sel i s = Some r \<Longrightarrow> key r = i"
    and sel_upd: "(\<And>r. key (f r) = key r) \<Longrightarrow>
      sel j (upd i f s) = (if j = i then map_option f (sel i s) else sel j s)"
    and sel_ins: "sel j (ins r s) = (case sel j s of Some r' \<Rightarrow> Some r'
      | None \<Rightarrow> if j = key r then Some r else None)"
begin

definition each :: "('r \<Rightarrow> bool) \<Rightarrow> 's \<Rightarrow> bool" where
  "each P s \<longleftrightarrow> (\<forall>i r. sel i s = Some r \<longrightarrow> P r)"

lemma eachD: "each P s \<Longrightarrow> sel i s = Some r \<Longrightarrow> P r"
  by (auto simp: each_def)

lemma each_upd:
  assumes "each P s" and "\<And>r. key (f r) = key r"
    and "\<And>r. sel i s = Some r \<Longrightarrow> P r \<Longrightarrow> P (f r)"
  shows "each P (upd i f s)"
  using assms by (auto simp: each_def sel_upd)

lemma each_ins: "each P s \<Longrightarrow> P r \<Longrightarrow> each P (ins r s)"
  by (auto simp: each_def sel_ins split: option.splits if_splits)

lemma sel_ins_new: "sel (key r) s = None \<Longrightarrow> sel (key r) (ins r s) = Some r"
  by (simp add: sel_ins)

lemma sel_upd_dom:
  assumes "\<And>r. key (f r) = key r"
  shows "sel j (upd i f s) = None \<longleftrightarrow> sel j s = None"
  by (simp add: sel_upd [OF assms])

lemma sel_ins_mono: "sel j s = Some r \<Longrightarrow> sel j (ins r' s) = Some r"
  by (simp add: sel_ins)

end

lemmas store_defs = sel_goal_def upd_goal_def ins_goal_def sel_commitment_def
  upd_commitment_def ins_commitment_def sel_decision_def upd_decision_def ins_decision_def
  sel_resource_def upd_resource_def ins_resource_def sel_actor_def

interpretation goal_store: row_store sel_goal upd_goal ins_goal g_id
  by unfold_locales (auto simp: store_defs row_simps dest: row_at_Some split: option.splits)

interpretation commitment_store: row_store sel_commitment upd_commitment ins_commitment c_id
  by unfold_locales (auto simp: store_defs row_simps dest: row_at_Some split: option.splits)

interpretation decision_store: row_store sel_decision upd_decision ins_decision d_id
  by unfold_locales (auto simp: store_defs row_simps dest: row_at_Some split: option.splits)

interpretation resource_store: row_store sel_resource upd_resource ins_resource r_id
  by unfold_locales (auto simp: store_defs row_simps dest: row_at_Some split: option.splits)

section \<open>State-change observations\<close>

text \<open>
  \<open>services/domain/acts/goals.py\<close>, \<open>_emit_state_change\<close>. The column
  \<open>content_text\<close>, a rendering of \<open>content\<close>, is not kept.
\<close>

definition emit_act_state_change ::
  "uuid \<Rightarrow> string \<Rightarrow> uuid \<Rightarrow> act_state option \<Rightarrow> act_state \<Rightarrow> uuid option \<Rightarrow> db \<Rightarrow> uuid \<times> db" where
  "emit_act_state_change tenant_id entity_kind entity_id from_state to_state cause_event_id d =
    (let (obs_id, d) = take_uuid d;
         content =
           [(''entity_kind'', JStr entity_kind), (''entity_id'', JUuid entity_id),
            (''from_state'', case from_state of None \<Rightarrow> JNull | Some s \<Rightarrow> JStr (state_text s)),
            (''to_state'', JStr (state_text to_state))]
     in (obs_id, d\<lparr>observations := observations d @
          [\<lparr>o_id = obs_id, o_tenant = tenant_id, o_occurred_at = py_now d,
            o_kind = ''state_change'', o_channel = ''internal:state_change'', o_actor = None,
            o_content = content, o_trust = ''authoritative'', o_cause = cause_event_id,
            o_entities = [JObj [(''type'', JStr entity_kind), (''id'', JUuid entity_id)]]\<rparr>]\<rparr>))"

text \<open>\<open>services/domain/observations/state_change.py\<close>, \<open>emit_state_change\<close>.\<close>

definition STATE_CHANGE_CHANNEL :: string where
  "STATE_CHANGE_CHANNEL = ''internal:state_change''"

definition STATE_CHANGE_TRUST_TIER :: string where
  "STATE_CHANGE_TRUST_TIER = ''authoritative''"

definition emit_state_change ::
  "string \<Rightarrow> uuid \<Rightarrow> uuid \<Rightarrow> uuid option \<Rightarrow> dict option \<Rightarrow> uuid option \<Rightarrow> time option \<Rightarrow>
   string option \<Rightarrow> db \<Rightarrow> uuid \<times> db" where
  "emit_state_change kind entity_id tenant_id cause_event_id metadata actor_id occurred_at
     entity_kind d =
    (let occurred_at = (case occurred_at of Some t \<Rightarrow> t | None \<Rightarrow> py_now d);
         (obs_id, d) = take_uuid d;
         content = [(''entity_id'', JUuid entity_id), (''state_change_kind'', JStr kind)]
           @ (case entity_kind of None \<Rightarrow> [] | Some k \<Rightarrow> [(''entity_kind'', JStr k)])
           @ (case metadata of None \<Rightarrow> [] | Some m \<Rightarrow> [(''metadata'', JObj m)])
     in (obs_id, d\<lparr>observations := observations d @
          [\<lparr>o_id = obs_id, o_tenant = tenant_id, o_occurred_at = occurred_at,
            o_kind = ''state_change'', o_channel = STATE_CHANGE_CHANNEL, o_actor = actor_id,
            o_content = content, o_trust = STATE_CHANGE_TRUST_TIER, o_cause = cause_event_id,
            o_entities = []\<rparr>]\<rparr>))"

text \<open>Neither emission touches any other table.\<close>

lemma emit_act_frame [simp]:
  "actors (snd (emit_act_state_change t k e f g c d)) = actors d"
  "goals (snd (emit_act_state_change t k e f g c d)) = goals d"
  "commitments (snd (emit_act_state_change t k e f g c d)) = commitments d"
  "decisions (snd (emit_act_state_change t k e f g c d)) = decisions d"
  "contributors (snd (emit_act_state_change t k e f g c d)) = contributors d"
  "contributes_to (snd (emit_act_state_change t k e f g c d)) = contributes_to d"
  "depends_on (snd (emit_act_state_change t k e f g c d)) = depends_on d"
  "constrained_by (snd (emit_act_state_change t k e f g c d)) = constrained_by d"
  "resources (snd (emit_act_state_change t k e f g c d)) = resources d"
  "ledger (snd (emit_act_state_change t k e f g c d)) = ledger d"
  "deployments (snd (emit_act_state_change t k e f g c d)) = deployments d"
  "links (snd (emit_act_state_change t k e f g c d)) = links d"
  "trigger_queue (snd (emit_act_state_change t k e f g c d)) = trigger_queue d"
  "db_now (snd (emit_act_state_change t k e f g c d)) = db_now d"
  "py_now (snd (emit_act_state_change t k e f g c d)) = py_now d"
  "uuid_next (snd (emit_act_state_change t k e f g c d)) = Suc (uuid_next d)"
  by (simp_all add: emit_act_state_change_def take_uuid_def Let_def)

lemma emit_frame [simp]:
  "actors (snd (emit_state_change k e t c m a oc ek d)) = actors d"
  "goals (snd (emit_state_change k e t c m a oc ek d)) = goals d"
  "commitments (snd (emit_state_change k e t c m a oc ek d)) = commitments d"
  "decisions (snd (emit_state_change k e t c m a oc ek d)) = decisions d"
  "contributors (snd (emit_state_change k e t c m a oc ek d)) = contributors d"
  "contributes_to (snd (emit_state_change k e t c m a oc ek d)) = contributes_to d"
  "depends_on (snd (emit_state_change k e t c m a oc ek d)) = depends_on d"
  "constrained_by (snd (emit_state_change k e t c m a oc ek d)) = constrained_by d"
  "resources (snd (emit_state_change k e t c m a oc ek d)) = resources d"
  "ledger (snd (emit_state_change k e t c m a oc ek d)) = ledger d"
  "deployments (snd (emit_state_change k e t c m a oc ek d)) = deployments d"
  "links (snd (emit_state_change k e t c m a oc ek d)) = links d"
  "trigger_queue (snd (emit_state_change k e t c m a oc ek d)) = trigger_queue d"
  "db_now (snd (emit_state_change k e t c m a oc ek d)) = db_now d"
  "py_now (snd (emit_state_change k e t c m a oc ek d)) = py_now d"
  "uuid_next (snd (emit_state_change k e t c m a oc ek d)) = Suc (uuid_next d)"
  by (simp_all add: emit_state_change_def take_uuid_def Let_def)

end
