(* ===== verification/ActsInvariants.thy ===== *)
theory ActsInvariants
  imports Store
begin

text \<open>
  \<open>services/domain/acts/invariants.py\<close>: the checks C1 to C10 and G1 to G4, as functions of
  the database. A check returns the list of violations, as in the code; a query is a list
  comprehension over the tables it joins. The lemmas say what the guards that run before an
  edge is inserted decide, and when the audits report nothing.
\<close>

definition actor_active :: string where
  "actor_active = ''active''"

definition active_family :: "act_state list" where
  "active_family = [Active, Blocked, Paused, DoneUnverified]"

section \<open>Commitment invariants\<close>

definition check_c1_owner_required :: "db \<Rightarrow> uuid \<Rightarrow> err list" where
  "check_c1_owner_required d commitment_id =
    (case sel_commitment commitment_id d of
       None \<Rightarrow> []
     | Some row \<Rightarrow>
        if c_state row \<in> set active_family \<and> c_owner row = None
        then [InvariantViolation ''C1''
               (''commitment in state '' @ state_repr (c_state row) @ '' requires owner_id'')]
        else [])"

definition check_c3_doneverified_resolved :: "db \<Rightarrow> uuid \<Rightarrow> err list" where
  "check_c3_doneverified_resolved d commitment_id =
    (case sel_commitment commitment_id d of
       None \<Rightarrow> []
     | Some row \<Rightarrow>
        if c_state row = DoneVerified \<and> length (c_resolved row) = 0
        then [InvariantViolation ''C3''
               ''doneverified commitment requires >=1 resolved_by_event_id'']
        else [])"

definition actor_status :: "db \<Rightarrow> uuid \<Rightarrow> string option" where
  "actor_status d actor_id = map_option a_status (sel_actor actor_id d)"

definition check_c5_active_owner_contributors :: "db \<Rightarrow> uuid \<Rightarrow> err list" where
  "check_c5_active_owner_contributors d commitment_id =
    (case sel_commitment commitment_id d of
       None \<Rightarrow> []
     | Some row \<Rightarrow>
        (case c_owner row of
           None \<Rightarrow> []
         | Some owner_id \<Rightarrow>
            (case actor_status d owner_id of
               None \<Rightarrow> [InvariantViolation ''C5'' ''owner_id does not reference an actor'']
             | Some status \<Rightarrow>
                if status \<noteq> actor_active
                then [InvariantViolation ''C5''
                       (''owner actor status is '' @ py_repr status @ '', must be '' @
                        py_repr actor_active)]
                else []))
        @ [InvariantViolation ''C5''
             (''contributor actor status is '' @
              py_repr (case actor_status d (cc_actor cc) of None \<Rightarrow> ''<missing>'' | Some s \<Rightarrow> s) @
              '', must be '' @ py_repr actor_active).
           cc \<leftarrow> contributors d,
           cc_commitment cc = commitment_id, actor_status d (cc_actor cc) \<noteq> Some actor_active])"

text \<open>
  The guard run before \<open>(dependent, dependency)\<close> is inserted: the query starts from the
  dependencies of \<open>dependency\<close> and looks for \<open>dependent\<close>.
\<close>

definition check_c6_depends_on_acyclic :: "db \<Rightarrow> uuid \<Rightarrow> uuid \<Rightarrow> err list" where
  "check_c6_depends_on_acyclic d dependent_id dependency_id =
    (if dependent_id = dependency_id
     then [InvariantViolation ''C6'' ''self-dependency forbidden'']
     else let reach = cte_reach (depends_on d) (successors (depends_on d) [dependency_id])
       in if dependent_id \<in> set reach
          then [InvariantViolation ''C6'' ''depends_on edge would create a cycle'']
          else [])"

text \<open>The audit's query has a depth column that starts at 1 and must be below 1000 to go on.\<close>

definition check_c6_existing_cycle :: "db \<Rightarrow> uuid \<Rightarrow> err list" where
  "check_c6_existing_cycle d commitment_id =
    (let reach = cte_levels 999 (depends_on d) (successors (depends_on d) [commitment_id])
     in if commitment_id \<in> set reach
        then [InvariantViolation ''C6'' ''commitment is part of a depends_on cycle'']
        else [])"

definition one_second :: int where
  "one_second = 1000000"

definition check_c9_due_date_future :: "db \<Rightarrow> uuid \<Rightarrow> err list" where
  "check_c9_due_date_future d commitment_id =
    (case sel_commitment commitment_id d of
       None \<Rightarrow> []
     | Some row \<Rightarrow>
        (case c_due row of
           None \<Rightarrow> []
         | Some due \<Rightarrow>
            if \<bar>c_changed_at row - c_created_at row\<bar> > one_second then []
            else if due \<le> c_created_at row
            then [InvariantViolation ''C9'' ''due_date at creation must be in the future'']
            else []))"

definition capacity_maintenance :: "dict option \<Rightarrow> bool" where
  "capacity_maintenance capacity =
    (case capacity of Some c \<Rightarrow> dict_get c ''maintenance'' = Some (JBool True) | None \<Rightarrow> False)"

definition check_c10_contributes_or_maintenance :: "db \<Rightarrow> uuid \<Rightarrow> err list" where
  "check_c10_contributes_or_maintenance d commitment_id =
    (case sel_commitment commitment_id d of
       None \<Rightarrow> []
     | Some row \<Rightarrow>
        if c_state row \<in> {Proposed, DoneVerified, Closed} then []
        else if c_maintenance row \<or> capacity_maintenance (c_capacity row) then []
        else if length [e. e \<leftarrow> contributes_to d, ct_commitment e = commitment_id] = 0
        then [InvariantViolation ''C10''
               ''commitment has no contributes_to edges and is not maintenance'']
        else [])"

definition is_unsatisfied_dependency :: "db \<Rightarrow> uuid \<Rightarrow> bool" where
  "is_unsatisfied_dependency d dependency_commitment_id =
    (case sel_commitment dependency_commitment_id d of
       None \<Rightarrow> True
     | Some row \<Rightarrow> c_state row \<noteq> DoneVerified)"

definition count_unsatisfied_dependencies :: "db \<Rightarrow> uuid \<Rightarrow> nat" where
  "count_unsatisfied_dependencies d commitment_id =
    length [c. e \<leftarrow> depends_on d, c \<leftarrow> commitments d, c_id c = snd e,
      fst e = commitment_id \<and> c_state c \<noteq> DoneVerified]"

definition count_revisited_constraining_decisions :: "db \<Rightarrow> uuid \<Rightarrow> nat" where
  "count_revisited_constraining_decisions d commitment_id =
    length [q. e \<leftarrow> constrained_by d, q \<leftarrow> decisions d, d_id q = snd e,
      fst e = commitment_id \<and> d_state q = Revisited]"

definition check_c2_blocked_reason :: "db \<Rightarrow> uuid \<Rightarrow> err list" where
  "check_c2_blocked_reason d commitment_id =
    (case sel_commitment commitment_id d of
       None \<Rightarrow> []
     | Some row \<Rightarrow>
        if c_state row \<noteq> Blocked then []
        else if count_unsatisfied_dependencies d commitment_id = 0 \<and>
                count_revisited_constraining_decisions d commitment_id = 0
        then [InvariantViolation ''C2''
               ''blocked commitment has no unsatisfied dependency or revisited constraining decision'']
        else [])"

text \<open>The two wrappers: all violations, or the first one raised.\<close>

definition raise_first :: "bool \<Rightarrow> err list \<Rightarrow> (bool \<times> err list) result" where
  "raise_first raise_on_violation violations =
    (case violations of
       [] \<Rightarrow> Inr (True, [])
     | v # vs \<Rightarrow> if raise_on_violation then Inl v else Inr (False, v # vs))"

definition validate_commitment_invariants ::
  "db \<Rightarrow> uuid \<Rightarrow> bool \<Rightarrow> (bool \<times> err list) result" where
  "validate_commitment_invariants d commitment_id raise_on_violation =
    raise_first raise_on_violation
      (check_c1_owner_required d commitment_id
       @ check_c2_blocked_reason d commitment_id
       @ check_c3_doneverified_resolved d commitment_id
       @ check_c5_active_owner_contributors d commitment_id
       @ check_c6_existing_cycle d commitment_id
       @ check_c9_due_date_future d commitment_id
       @ check_c10_contributes_or_maintenance d commitment_id)"

section \<open>Goal invariants\<close>

definition check_g1_active_has_work :: "db \<Rightarrow> uuid \<Rightarrow> err list" where
  "check_g1_active_has_work d goal_id =
    (case sel_goal goal_id d of
       None \<Rightarrow> []
     | Some row \<Rightarrow>
        if g_state row \<noteq> Active then []
        else if length [e. e \<leftarrow> contributes_to d, ct_goal e = goal_id]
                + length [g. g \<leftarrow> goals d, g_parent g = Some goal_id] = 0
        then [InvariantViolation ''G1''
               ''active goal has neither contributing commitments nor sub-goals'']
        else [])"

definition parent_edges :: "db \<Rightarrow> (uuid \<times> uuid) list" where
  "parent_edges d = [(g_id g, p). g \<leftarrow> goals d, p \<leftarrow> (case g_parent g of None \<Rightarrow> [] | Some p \<Rightarrow> [p])]"

text \<open>The guard run before \<open>goal_id\<close> is put under \<open>parent_goal_id\<close>.\<close>

definition check_g2_tree_acyclic :: "db \<Rightarrow> uuid \<Rightarrow> uuid option \<Rightarrow> err list" where
  "check_g2_tree_acyclic d goal_id parent_goal_id =
    (case parent_goal_id of
       None \<Rightarrow> []
     | Some parent \<Rightarrow>
        if parent = goal_id
        then [InvariantViolation ''G2'' ''goal cannot be its own parent'']
        else if goal_id \<in> set (cte_levels 999 (parent_edges d) [parent])
        then [InvariantViolation ''G2'' ''goal tree cycle detected'']
        else [])"

definition check_g2_existing_cycle :: "db \<Rightarrow> uuid \<Rightarrow> err list" where
  "check_g2_existing_cycle d goal_id =
    (if goal_id \<in> set (cte_levels 999 (parent_edges d) (successors (parent_edges d) [goal_id]))
     then [InvariantViolation ''G2'' ''goal is part of a parent_goal_id cycle'']
     else [])"

text \<open>\<open>contributes_to ct JOIN commitments c\<close> for the critical-path edges of a goal.\<close>

definition critical_states :: "db \<Rightarrow> uuid \<Rightarrow> act_state list" where
  "critical_states d goal_id =
    [c_state c. ct \<leftarrow> contributes_to d, c \<leftarrow> commitments d, c_id c = ct_commitment ct,
      ct_goal ct = goal_id \<and> ct_critical ct]"

definition compute_worst_of_health :: "db \<Rightarrow> uuid \<Rightarrow> health" where
  "compute_worst_of_health d goal_id =
    (let states = critical_states d goal_id
     in if states = [] then Healthy
        else if list_ex (\<lambda>s. s = Blocked) states then Degraded
        else if list_ex (\<lambda>s. s = Closed) states \<and> list_ex (\<lambda>s. s \<noteq> DoneVerified) states
        then Critical
        else if list_all (\<lambda>s. s = DoneVerified) states then Healthy
        else Healthy)"

definition check_g3_cached_health_fresh :: "db \<Rightarrow> uuid \<Rightarrow> err list" where
  "check_g3_cached_health_fresh d goal_id =
    (case sel_goal goal_id d of
       None \<Rightarrow> []
     | Some row \<Rightarrow>
        if g_health row \<noteq> compute_worst_of_health d goal_id
        then [InvariantViolation ''G3'' ''cached_health is stale''] else [])"

definition count_critical_incomplete :: "db \<Rightarrow> uuid \<Rightarrow> nat" where
  "count_critical_incomplete d goal_id =
    length [c. ct \<leftarrow> contributes_to d, c \<leftarrow> commitments d, c_id c = ct_commitment ct,
      ct_goal ct = goal_id \<and> ct_critical ct \<and> c_state c \<noteq> DoneVerified]"

definition check_g4_achieved_requires_done :: "db \<Rightarrow> uuid \<Rightarrow> err list" where
  "check_g4_achieved_requires_done d goal_id =
    (case sel_goal goal_id d of
       None \<Rightarrow> []
     | Some row \<Rightarrow>
        if g_state row \<noteq> Achieved then []
        else if count_critical_incomplete d goal_id > 0
        then [InvariantViolation ''G4''
               ''achieved goal has critical-path commitments not doneverified'']
        else [])"

definition validate_goal_invariants :: "db \<Rightarrow> uuid \<Rightarrow> bool \<Rightarrow> (bool \<times> err list) result" where
  "validate_goal_invariants d goal_id raise_on_violation =
    raise_first raise_on_violation
      (check_g1_active_has_work d goal_id
       @ check_g2_existing_cycle d goal_id
       @ check_g3_cached_health_fresh d goal_id
       @ check_g4_achieved_requires_done d goal_id)"

section \<open>What the guards decide\<close>

lemma check_c6_Nil:
  "check_c6_depends_on_acyclic d a b = [] \<longleftrightarrow> (b, a) \<notin> (set (depends_on d))\<^sup>*"
proof (cases "a = b")
  case True
  then show ?thesis by (simp add: check_c6_depends_on_acyclic_def)
next
  case False
  have "(b, a) \<in> (set (depends_on d))\<^sup>* \<longleftrightarrow>
      a \<in> set (cte_reach (depends_on d) (successors (depends_on d) [b]))"
    using False unfolding set_cte_reach set_successors
    by (auto elim: converse_rtranclE intro: converse_rtrancl_into_rtrancl)
  with False show ?thesis by (simp add: check_c6_depends_on_acyclic_def Let_def)
qed

lemma parent_edges_set:
  "(g, p) \<in> set (parent_edges d) \<longleftrightarrow> (\<exists>r \<in> set (goals d). g_id r = g \<and> g_parent r = Some p)"
  by (force simp: parent_edges_def split: option.splits)

lemma count_unsatisfied_0:
  "count_unsatisfied_dependencies d i = 0 \<longleftrightarrow>
    (\<forall>j. (i, j) \<in> set (depends_on d) \<longrightarrow>
      (\<forall>c \<in> set (commitments d). c_id c = j \<longrightarrow> c_state c = DoneVerified))"
  by (fastforce simp: count_unsatisfied_dependencies_def filter_empty_conv)

lemma count_critical_0:
  "count_critical_incomplete d i = 0 \<longleftrightarrow>
    (\<forall>e \<in> set (contributes_to d). ct_goal e = i \<and> ct_critical e \<longrightarrow>
      (\<forall>c \<in> set (commitments d). c_id c = ct_commitment e \<longrightarrow> c_state c = DoneVerified))"
  by (fastforce simp: count_critical_incomplete_def)

text \<open>
  The guard C6 refuses an edge exactly when the edge would close a cycle of the
  \<open>depends_on\<close> relation: on an acyclic relation, the guard reports no violation if and
  only if the relation with the edge is still acyclic.
\<close>

theorem check_c6_exact:
  assumes "acyclic (set (depends_on d))"
  shows "check_c6_depends_on_acyclic d dependent_id dependency_id = [] \<longleftrightarrow>
    acyclic (insert (dependent_id, dependency_id) (set (depends_on d)))"
  using assms by (simp add: check_c6_Nil acyclic_insert)

definition c6_example :: db where
  "c6_example = empty_db\<lparr>depends_on := [(2, 1), (3, 2)]\<rparr>"

lemma c6_example_acyclic: "acyclic (set (depends_on c6_example))"
  by (rule acyclic_if_decreasing [where f = id]) (auto simp: c6_example_def)

theorem check_c6_exact_witness:
  "acyclic (insert (4, 3) (set (depends_on c6_example))) \<and>
   \<not> acyclic (insert (1, 3) (set (depends_on c6_example)))"
proof -
  have "check_c6_depends_on_acyclic c6_example 4 3 = []"
    and "check_c6_depends_on_acyclic c6_example 1 3 \<noteq> []"
    by (simp_all add: check_c6_depends_on_acyclic_def c6_example_def cte_reach_def
        cte_close.simps successors_def)
  then show ?thesis using check_c6_exact [OF c6_example_acyclic] by simp
qed

text \<open>
  The depth bound of the goal guard is harmless below a thousand parent links: as long as
  no more than 999 goals have a parent, the guard G2 reports no violation exactly when the new
  parent link keeps the goal forest acyclic.
\<close>

theorem check_g2_exact:
  assumes "acyclic (set (parent_edges d))" and "card (set (parent_edges d)) \<le> 999"
  shows "check_g2_tree_acyclic d goal (Some parent) = [] \<longleftrightarrow>
    acyclic (insert (goal, parent) (set (parent_edges d)))"
proof -
  let ?R = "set (parent_edges d)"
  have "(parent, goal) \<in> ?R\<^sup>* \<longleftrightarrow> (\<exists>k \<le> 999. (parent, goal) \<in> ?R ^^ k)"
  proof
    assume "(parent, goal) \<in> ?R\<^sup>*"
    then obtain k where "k \<le> card ?R" and "(parent, goal) \<in> ?R ^^ k"
      by (auto simp: rtrancl_finite_eq_relpow)
    then show "\<exists>k \<le> 999. (parent, goal) \<in> ?R ^^ k" using assms(2) le_trans by blast
  qed (auto dest: relpow_imp_rtrancl)
  then have "goal \<in> set (cte_levels 999 (parent_edges d) [parent]) \<longleftrightarrow> (parent, goal) \<in> ?R\<^sup>*"
    by (simp add: set_cte_levels)
  then show ?thesis using assms(1)
    by (auto simp: check_g2_tree_acyclic_def acyclic_insert)
qed

definition example_goal :: "uuid \<Rightarrow> uuid option \<Rightarrow> goal_row" where
  "example_goal i p = \<lparr>g_id = i, g_tenant = 0, g_title = ''t'', g_description = None,
     g_state = Active, g_target_date = None, g_parent = p, g_altitude = ''operational'',
     g_success_criteria = None, g_health = Healthy, g_health_at = None, g_created_at = 0,
     g_changed_at = 0, g_created_by = 0, g_archived_at = None\<rparr>"

definition g2_example :: db where
  "g2_example = empty_db\<lparr>goals := [example_goal 1 None, example_goal 2 (Some 1),
     example_goal 3 (Some 2)]\<rparr>"

lemma g2_example_edges: "parent_edges g2_example = [(2, 1), (3, 2)]"
  by (simp add: parent_edges_def g2_example_def example_goal_def)

theorem check_g2_exact_witness:
  "\<not> acyclic (insert (1, 3) (set (parent_edges g2_example)))"
proof -
  have ac: "acyclic (set (parent_edges g2_example))"
    unfolding g2_example_edges by (rule acyclic_if_decreasing [where f = id]) auto
  have "(1::uuid) \<in> set (cte_levels 999 [(2, 1), (3, 2)] [3])"
  proof -
    have "((3::uuid), 2) \<in> set [(2::uuid, 1::uuid), (3, 2)] ^^ Suc 0" by simp
    then have "((3::uuid), 1) \<in> set [(2::uuid, 1::uuid), (3, 2)] ^^ Suc (Suc 0)"
      by (rule relpow_Suc_I) simp
    then show ?thesis unfolding set_cte_levels by (intro CollectI exI [of _ "Suc (Suc 0)"]) simp
  qed
  then have "check_g2_tree_acyclic g2_example 1 (Some 3) \<noteq> []"
    by (simp add: check_g2_tree_acyclic_def g2_example_edges)
  then show ?thesis
    using check_g2_exact [OF ac, of 1 3] by (simp add: g2_example_edges)
qed

text \<open>
  What \<open>compute_worst_of_health\<close> computes, over the states of the commitments on the
  goal's critical path: degraded if one is blocked, else critical if one is closed, else
  healthy. A closed commitment makes the goal critical even when every other one is
  doneverified, because the closed one itself counts as incomplete; and the value
  \<open>warning\<close> of the schema is never computed.
\<close>

theorem compute_worst_of_health_exact:
  "compute_worst_of_health d goal_id =
    (if Blocked \<in> set (critical_states d goal_id) then Degraded
     else if Closed \<in> set (critical_states d goal_id) then Critical
     else Healthy)"
  by (auto simp: compute_worst_of_health_def Let_def list_ex_iff)

end
