(* ===== verification/Retry.thy ===== *)
theory Retry
  imports Prelude
begin

text \<open>
  \<open>services/domain/acts/retry.py\<close>, the retry loop around the write paths of the acts, and the
  two backoff schedules of \<open>lib/shared\<close>: \<open>backoff.py\<close> (durable queues) and
  \<open>http_retry.py\<close> (outbound HTTP). Floats are reals, \<open>random()\<close> is an argument, and the
  sleeps are returned as a list.
\<close>

section \<open>with_deadlock_retry\<close>

definition retriable :: "err \<Rightarrow> bool" where
  "retriable e \<longleftrightarrow> e = DeadlockDetectedError \<or> e = SerializationError"

text \<open>
  \<open>fn k\<close> is the call made on attempt \<open>k\<close>: the database may abort one attempt and not the
  next, so the attempts differ. \<open>n\<close> attempts are left.
\<close>

fun retry_loop ::
  "(nat \<Rightarrow> ('s, 'a) tx) \<Rightarrow> real \<Rightarrow> nat \<Rightarrow> nat \<Rightarrow> err option \<Rightarrow> 's \<Rightarrow> ('a result \<times> 's) \<times> real list" where
  "retry_loop fn initial_backoff_ms 0 attempt last_exc s =
     ((Inl (case last_exc of Some e \<Rightarrow> e | None \<Rightarrow> OtherError ''AssertionError''), s), [])"
| "retry_loop fn initial_backoff_ms (Suc n) attempt last_exc s =
     (case fn attempt s of
        (Inr x, t) \<Rightarrow> ((Inr x, t), [])
      | (Inl e, t) \<Rightarrow>
          if \<not> retriable e then ((Inl e, t), [])
          else if n = 0 then ((Inl e, t), [])
          else let (r, sleeps) = retry_loop fn initial_backoff_ms n (Suc attempt) (Some e) t
            in (r, (initial_backoff_ms / 1000) * real (attempt + 1) # sleeps))"

definition with_deadlock_retry ::
  "(nat \<Rightarrow> ('s, 'a) tx) \<Rightarrow> nat \<Rightarrow> real \<Rightarrow> 's \<Rightarrow> ('a result \<times> 's) \<times> real list" where
  "with_deadlock_retry fn max_attempts initial_backoff_ms s =
    retry_loop fn initial_backoff_ms max_attempts 0 None s"

text \<open>
  A call is rolled back when it fails (it is made of \<open>async with transaction()\<close>).
\<close>

definition rolls_back :: "(nat \<Rightarrow> ('s, 'a) tx) \<Rightarrow> bool" where
  "rolls_back fn \<longleftrightarrow> (\<forall>k s e t. fn k s = (Inl e, t) \<longrightarrow> t = s)"

lemma rolls_back_atomically: "rolls_back (\<lambda>k. atomically (m k))"
  by (auto simp: rolls_back_def tx_simps)

lemma retry_loop_result:
  assumes "rolls_back fn" and "0 < n"
  shows "\<exists>k < n. fst (retry_loop fn ms n a l s) = fn (a + k) s \<and>
    (\<forall>j < k. \<exists>e. fst (fn (a + j) s) = Inl e \<and> retriable e) \<and>
    ((\<exists>e. fst (fn (a + k) s) = Inl e \<and> retriable e) \<longrightarrow> Suc k = n) \<and>
    snd (retry_loop fn ms n a l s) = map (\<lambda>j. (ms / 1000) * real (a + j + 1)) [0..<k]"
  using assms(2)
proof (induction n arbitrary: a l)
  case 0
  then show ?case by simp
next
  case (Suc n)
  obtain r t where rt: "fn a s = (r, t)" by (cases "fn a s")
  show ?case
  proof (cases "(\<exists>e. r = Inl e \<and> retriable e) \<and> n \<noteq> 0")
    case False
    have "retry_loop fn ms (Suc n) a l s = (fn a s, [])"
      using False rt by (cases r) auto
    then show ?thesis using False rt by (intro exI [of _ 0]) auto
  next
    case True
    then obtain e where e: "r = Inl e" "retriable e" by blast
    with rt assms(1) have t: "t = s" by (auto simp: rolls_back_def)
    obtain r' sl where rec: "retry_loop fn ms n (Suc a) (Some e) s = (r', sl)"
      by (cases "retry_loop fn ms n (Suc a) (Some e) s")
    have eq: "retry_loop fn ms (Suc n) a l s = (r', (ms / 1000) * real (a + 1) # sl)"
      using True e rt t rec by simp
    from Suc.IH [of "Suc a" "Some e"] True rec obtain k where k: "k < n"
      "r' = fn (Suc a + k) s"
      "\<forall>j < k. \<exists>e. fst (fn (Suc a + j) s) = Inl e \<and> retriable e"
      "(\<exists>e. fst (fn (Suc a + k) s) = Inl e \<and> retriable e) \<longrightarrow> Suc k = n"
      "sl = map (\<lambda>j. (ms / 1000) * real (Suc a + j + 1)) [0..<k]"
      by auto
    have "\<forall>j < Suc k. \<exists>e. fst (fn (a + j) s) = Inl e \<and> retriable e"
      using k(3) e rt by (auto simp: less_Suc_eq_0_disj)
    moreover have "[0..<Suc k] = 0 # map Suc [0..<k]"
      by (simp add: upt_conv_Cons map_Suc_upt del: upt_Suc)
    ultimately show ?thesis
      using k eq by (intro exI [of _ "Suc k"]) (auto simp: o_def del: upt_Suc)
  qed
qed

text \<open>
  \<open>with_deadlock_retry\<close> returns what one of its at most \<open>max_attempts\<close> calls returned,
  made on the unchanged state; every call before it was aborted by a deadlock or a
  serialization failure; any other exception ends the loop at once; and the sleeps between the
  calls grow linearly, \<open>initial_backoff_ms\<close> milliseconds at a time.
\<close>

theorem with_deadlock_retry_spec:
  assumes "rolls_back fn" and "0 < max_attempts"
  shows "\<exists>k < max_attempts. fst (with_deadlock_retry fn max_attempts ms s) = fn k s \<and>
    (\<forall>j < k. \<exists>e. fst (fn j s) = Inl e \<and> retriable e) \<and>
    ((\<exists>e. fst (fn k s) = Inl e \<and> retriable e) \<longrightarrow> Suc k = max_attempts) \<and>
    snd (with_deadlock_retry fn max_attempts ms s) =
      map (\<lambda>j. (ms / 1000) * real (j + 1)) [0..<k]"
  using retry_loop_result [OF assms, of ms 0 None s]
  by (simp add: with_deadlock_retry_def)

definition flaky_call :: "nat \<Rightarrow> (nat, nat) tx" where
  "flaky_call k = atomically (\<lambda>s. if k < 2 then (Inl DeadlockDetectedError, Suc s) else (Inr s, s + 10))"

theorem with_deadlock_retry_spec_witness:
  "rolls_back flaky_call \<and>
   with_deadlock_retry flaky_call 3 25 7 = ((Inr 7, 17), [25 / 1000, (25 / 1000) * 2]) \<and>
   (\<exists>k < 3. fst (with_deadlock_retry flaky_call 3 25 7) = flaky_call k 7)"
proof -
  have rb: "rolls_back flaky_call"
    unfolding flaky_call_def by (rule rolls_back_atomically)
  have "with_deadlock_retry flaky_call 3 25 7 = ((Inr 7, 17), [25 / 1000, (25 / 1000) * 2])"
    by (simp add: with_deadlock_retry_def numeral_3_eq_3 flaky_call_def atomically_def retriable_def)
  moreover have "\<exists>k < 3. fst (with_deadlock_retry flaky_call 3 25 7) = flaky_call k 7"
    using with_deadlock_retry_spec [OF rb, of 3 25 7] by auto
  ultimately show ?thesis using rb by blast
qed

section \<open>Running an operation\<close>

text \<open>
  Every write operation of the acts takes an optional connection. With one, its body runs on
  the caller's transaction; without, it runs in a transaction of its own under
  \<open>with_deadlock_retry\<close>, where the database may abort attempt \<open>k\<close> with the exception
  \<open>contention k\<close>.
\<close>

datatype conn_mode = Supplied | Own "nat \<Rightarrow> err option"

definition run_op :: "conn_mode \<Rightarrow> ('s, 'a) tx \<Rightarrow> ('s, 'a) tx" where
  "run_op conn body =
    (case conn of
       Supplied \<Rightarrow> body
     | Own contention \<Rightarrow>
        (\<lambda>s. fst (with_deadlock_retry
          (\<lambda>k. atomically (case contention k of Some e \<Rightarrow> raise_tx e | None \<Rightarrow> body)) 3 25 s)))"

lemma retry_loop_call:
  assumes "rolls_back fn"
  shows "\<exists>k. fst (retry_loop fn ms 3 0 None s) = fn k s"
proof -
  have "(0::nat) < 3" by simp
  from retry_loop_result [OF assms this, of ms 0 None s] show ?thesis by auto
qed

lemma run_op_Own:
  "\<exists>k. run_op (Own contention) body s =
    atomically (case contention k of Some e \<Rightarrow> raise_tx e | None \<Rightarrow> body) s"
proof -
  let ?fn = "\<lambda>k. atomically (case contention k of Some e \<Rightarrow> raise_tx e | None \<Rightarrow> body)"
  have rb: "rolls_back ?fn" by (rule rolls_back_atomically)
  obtain k where "fst (retry_loop ?fn 25 3 0 None s) = ?fn k s"
    using retry_loop_call [OF rb] by blast
  then have "run_op (Own contention) body s = ?fn k s"
    by (simp add: run_op_def with_deadlock_retry_def)
  then show ?thesis by blast
qed

lemma run_op_Inr:
  assumes "run_op conn body s = (Inr x, t)"
  shows "body s = (Inr x, t)"
proof (cases conn)
  case Supplied
  with assms show ?thesis by (simp add: run_op_def)
next
  case (Own contention)
  obtain k where "run_op (Own contention) body s =
      atomically (case contention k of Some e \<Rightarrow> raise_tx e | None \<Rightarrow> body) s"
    using run_op_Own [of contention body s] by blast
  with Own assms have "atomically (case contention k of Some e \<Rightarrow> raise_tx e | None \<Rightarrow> body) s = (Inr x, t)"
    by simp
  then show ?thesis by (simp add: tx_simps split: option.splits)
qed

lemma run_op_Own_Inl: "run_op (Own contention) body s = (Inl e, t) \<Longrightarrow> t = s"
  using run_op_Own [of contention body s] by (metis atomically_Inl)

lemma keeps_run_op [keeps_intros]: "keeps I body \<Longrightarrow> keeps I (run_op conn body)"
proof (rule keepsI)
  fix s r t
  assume "keeps I body" "I s" and run: "run_op conn body s = (r, t)"
  show "I t"
  proof (cases r)
    case (Inr x)
    from run_op_Inr [OF run [unfolded Inr]] have "body s = (Inr x, t)" .
    with \<open>keeps I body\<close> \<open>I s\<close> show ?thesis by (rule keepsD)
  next
    case (Inl e)
    show ?thesis
    proof (cases conn)
      case Supplied
      with run have "body s = (r, t)" by (simp add: run_op_def)
      with \<open>keeps I body\<close> \<open>I s\<close> show ?thesis by (rule keepsD)
    next
      case (Own contention)
      from run_op_Own_Inl [OF run [unfolded Own Inl]] have "t = s" .
      with \<open>I s\<close> show ?thesis by simp
    qed
  qed
qed

section \<open>lib/shared/backoff.py\<close>

definition QUEUE_RETRY_BACKOFF_BASE_SECONDS :: real where
  "QUEUE_RETRY_BACKOFF_BASE_SECONDS = 10"

definition QUEUE_RETRY_BACKOFF_CAP_SECONDS :: real where
  "QUEUE_RETRY_BACKOFF_CAP_SECONDS = 300"

definition exponential_backoff_seconds ::
  "int \<Rightarrow> real \<Rightarrow> real \<Rightarrow> real \<Rightarrow> real \<Rightarrow> real \<Rightarrow> real \<Rightarrow> real result" where
  "exponential_backoff_seconds attempt base_seconds cap_seconds multiplier jitter_ratio
     minimum_seconds rand =
    (if attempt \<le> 0 then Inr 0
     else if base_seconds < 0 then Inl (ValueError ''base_seconds must be >= 0'')
     else if cap_seconds < 0 then Inl (ValueError ''cap_seconds must be >= 0'')
     else if multiplier < 1 then Inl (ValueError ''multiplier must be >= 1'')
     else if jitter_ratio < 0 then Inl (ValueError ''jitter_ratio must be >= 0'')
     else if minimum_seconds < 0 then Inl (ValueError ''minimum_seconds must be >= 0'')
     else
       let delay = min cap_seconds (base_seconds * multiplier ^ nat (max 0 (attempt - 1)));
           delay = (if jitter_ratio \<noteq> 0
                    then delay + delay * jitter_ratio * (2 * rand - 1) else delay)
       in Inr (max minimum_seconds delay))"

definition queue_retry_backoff_seconds :: "int \<Rightarrow> real result" where
  "queue_retry_backoff_seconds attempt =
    exponential_backoff_seconds attempt QUEUE_RETRY_BACKOFF_BASE_SECONDS
      QUEUE_RETRY_BACKOFF_CAP_SECONDS 2 0 0 0"

section \<open>lib/shared/http_retry.py\<close>

record http_retry_config =
  max_attempts :: int
  initial_backoff_s :: real
  max_backoff_s :: real
  jitter_ratio :: real

definition http_retry_config_post_init :: "http_retry_config \<Rightarrow> http_retry_config result" where
  "http_retry_config_post_init c =
    (if max_attempts c < 1 then Inl (ValueError ''max_attempts must be >= 1'')
     else if initial_backoff_s c < 0 then Inl (ValueError ''initial_backoff_s must be >= 0'')
     else if max_backoff_s c < initial_backoff_s c
     then Inl (ValueError ''max_backoff_s must be >= initial_backoff_s'')
     else if \<not> (0 \<le> jitter_ratio c \<and> jitter_ratio c \<le> 1)
     then Inl (ValueError ''jitter_ratio must be between 0 and 1'')
     else Inr c)"

definition RETRYABLE_HTTP_STATUSES :: "int list" where
  "RETRYABLE_HTTP_STATUSES = [408, 409, 425, 429, 500, 502, 503, 504]"

datatype http_exc = HTTPStatusError int | TimeoutException | NetworkError | OtherHttpExc

definition is_retryable_httpx_error :: "http_exc \<Rightarrow> bool" where
  "is_retryable_httpx_error exc =
    (case exc of
       HTTPStatusError status_code \<Rightarrow> status_code \<in> set RETRYABLE_HTTP_STATUSES
     | TimeoutException \<Rightarrow> True | NetworkError \<Rightarrow> True | OtherHttpExc \<Rightarrow> False)"

definition retry_delay_s :: "nat \<Rightarrow> http_retry_config \<Rightarrow> real \<Rightarrow> real" where
  "retry_delay_s attempt_index config rand =
    (let base = min (max_backoff_s config) (initial_backoff_s config * 2 ^ attempt_index)
     in if base \<le> 0 \<or> jitter_ratio config \<le> 0 then base
        else let low = 1 - jitter_ratio config; high = 1 + jitter_ratio config
          in base * (low + (high - low) * rand))"

definition sleep_before_retry :: "nat \<Rightarrow> http_retry_config \<Rightarrow> real \<Rightarrow> real list" where
  "sleep_before_retry attempt_index config rand =
    (let delay = retry_delay_s attempt_index config rand in if delay > 0 then [delay] else [])"

section \<open>Bounds of the schedules\<close>

lemma jitter_bounds:
  fixes x j rand :: real
  assumes "0 \<le> x" "0 \<le> j" "0 \<le> rand" "rand \<le> 1"
  shows "x * (1 - j) \<le> x + x * j * (2 * rand - 1)" "x + x * j * (2 * rand - 1) \<le> x * (1 + j)"
proof -
  have "0 \<le> x * j" using assms by simp
  then have "x * j * (- 1) \<le> x * j * (2 * rand - 1)" "x * j * (2 * rand - 1) \<le> x * j * 1"
    using assms by (intro mult_left_mono; simp)+
  then show "x * (1 - j) \<le> x + x * j * (2 * rand - 1)" "x + x * j * (2 * rand - 1) \<le> x * (1 + j)"
    by (simp_all add: algebra_simps)
qed

text \<open>
  The delay of \<open>exponential_backoff_seconds\<close> is never negative, never below the minimum,
  and exceeds the cap only by the jitter (applied after the cap) or by a minimum that is itself
  above the cap; and without jitter the delays never decrease from one attempt to the next.
\<close>

theorem exponential_backoff_bounds:
  assumes "exponential_backoff_seconds attempt base cap mult jit mini rand = Inr delay"
    and "0 < attempt" and "0 \<le> rand" and "rand \<le> 1"
  shows "0 \<le> delay \<and> mini \<le> delay \<and> delay \<le> max mini (cap * (1 + jit)) \<and>
    (jit = 0 \<longrightarrow> (\<exists>next. exponential_backoff_seconds (attempt + 1) base cap mult jit mini rand
        = Inr next \<and> delay \<le> next))"
proof -
  let ?d = "\<lambda>a. min cap (base * mult ^ nat (max 0 (a - 1)))"
  have guards: "0 \<le> base" "0 \<le> cap" "1 \<le> mult" "0 \<le> jit" "0 \<le> mini"
    and delay: "delay = max mini (if jit \<noteq> 0 then ?d attempt + ?d attempt * jit * (2 * rand - 1)
      else ?d attempt)"
    using assms(1,2)
    by (auto simp: exponential_backoff_seconds_def Let_def split: if_splits)
  have d0: "0 \<le> ?d attempt" using guards by simp
  have cap: "?d attempt * (1 + jit) \<le> cap * (1 + jit)" "?d attempt \<le> ?d attempt * (1 + jit)"
    using guards d0 mult_left_mono [of 1 "1 + jit" "?d attempt"]
    by (auto intro: mult_right_mono simp del: min.bounded_iff min_less_iff_conj)
  have "(if jit \<noteq> 0 then ?d attempt + ?d attempt * jit * (2 * rand - 1) else ?d attempt)
      \<le> cap * (1 + jit)"
    using order_trans [OF jitter_bounds(2) [OF d0 guards(4) assms(3,4)] cap(1)]
      order_trans [OF cap(2) cap(1)] by (cases "jit = 0") (simp_all only: simp_thms if_True if_False)
  then have upper: "delay \<le> max mini (cap * (1 + jit))"
    unfolding delay by (rule max.mono [OF order_refl])
  have mono: "?d attempt \<le> ?d (attempt + 1)"
  proof -
    have "mult ^ nat (max 0 (attempt - 1)) \<le> mult ^ nat (max 0 (attempt + 1 - 1))"
      using guards(3) by (intro power_increasing) auto
    then have "base * mult ^ nat (max 0 (attempt - 1)) \<le> base * mult ^ nat (max 0 (attempt + 1 - 1))"
      using guards(1) by (intro mult_left_mono)
    then show ?thesis by (simp add: min_def)
  qed
  have "jit = 0 \<Longrightarrow> exponential_backoff_seconds (attempt + 1) base cap mult jit mini rand
      = Inr (max mini (?d (attempt + 1)))"
    using guards assms(2) by (simp add: exponential_backoff_seconds_def Let_def)
  moreover have "jit = 0 \<Longrightarrow> delay \<le> max mini (?d (attempt + 1))"
    using mono by (simp add: delay max_def)
  moreover have "0 \<le> delay" "mini \<le> delay"
    unfolding delay using guards(5) by (simp_all add: le_max_iff_disj)
  ultimately show ?thesis using upper by blast
qed

theorem exponential_backoff_bounds_witness:
  "queue_retry_backoff_seconds 3 = Inr 40 \<and> queue_retry_backoff_seconds 9 = Inr 300 \<and>
   (0::real) \<le> 40 \<and> (40::real) \<le> max 0 (300 * (1 + 0))"
proof -
  have "queue_retry_backoff_seconds 3 = Inr 40" "queue_retry_backoff_seconds 9 = Inr 300"
    by (simp_all add: queue_retry_backoff_seconds_def exponential_backoff_seconds_def
        QUEUE_RETRY_BACKOFF_BASE_SECONDS_def QUEUE_RETRY_BACKOFF_CAP_SECONDS_def)
  then show ?thesis
    using exponential_backoff_bounds [of 3 10 300 2 0 0 0 40]
    by (simp add: queue_retry_backoff_seconds_def QUEUE_RETRY_BACKOFF_BASE_SECONDS_def
        QUEUE_RETRY_BACKOFF_CAP_SECONDS_def)
qed

text \<open>
  For every configuration \<open>HttpRetryConfig\<close> accepts and every value of \<open>random()\<close>, the
  delay before an HTTP retry lies within the jitter band around the capped exponential delay,
  so it is never negative and at most \<open>(1 + jitter_ratio)\<close> times the maximum backoff.
\<close>

theorem retry_delay_bounds:
  assumes "http_retry_config_post_init config = Inr config" and "0 \<le> rand" and "rand \<le> 1"
  shows "let base = min (max_backoff_s config) (initial_backoff_s config * 2 ^ attempt_index);
             delay = retry_delay_s attempt_index config rand
    in base * (1 - jitter_ratio config) \<le> delay \<and> delay \<le> base * (1 + jitter_ratio config) \<and>
       0 \<le> delay \<and> delay \<le> max_backoff_s config * (1 + jitter_ratio config)"
proof -
  let ?b = "min (max_backoff_s config) (initial_backoff_s config * 2 ^ attempt_index)"
  let ?j = "jitter_ratio config"
  have c: "0 \<le> initial_backoff_s config" "initial_backoff_s config \<le> max_backoff_s config"
    "0 \<le> ?j" "?j \<le> 1"
    using assms(1) by (auto simp: http_retry_config_post_init_def split: if_splits)
  have b: "0 \<le> ?b" using c by simp
  have eq: "retry_delay_s attempt_index config rand = ?b + ?b * ?j * (2 * rand - 1)"
  proof (cases "?b \<le> 0 \<or> ?j \<le> 0")
    case True
    with b c(3) have "?b = 0 \<or> ?j = 0" by linarith
    with True show ?thesis by (auto simp: retry_delay_s_def Let_def)
  next
    case False
    then show ?thesis by (simp add: retry_delay_s_def Let_def algebra_simps)
  qed
  have "0 \<le> ?b * (1 - ?j)" using b c(4) by (intro mult_nonneg_nonneg) auto
  moreover have "?b * (1 + ?j) \<le> max_backoff_s config * (1 + ?j)"
    using c(3) by (intro mult_right_mono) auto
  ultimately show ?thesis
    using jitter_bounds [OF b c(3) assms(2,3)] unfolding Let_def eq by linarith
qed

definition default_http_retry_config :: http_retry_config where
  "default_http_retry_config =
    \<lparr>max_attempts = 3, initial_backoff_s = 1 / 10, max_backoff_s = 1, jitter_ratio = 1 / 5\<rparr>"

theorem retry_delay_bounds_witness:
  "retry_delay_s 10 default_http_retry_config 1 = 6 / 5 \<and>
   (0::real) \<le> 6 / 5 \<and> (6 / 5 :: real) \<le> 1 * (1 + 1 / 5)"
proof -
  have "http_retry_config_post_init default_http_retry_config = Inr default_http_retry_config"
    by (simp add: http_retry_config_post_init_def default_http_retry_config_def)
  moreover have d: "retry_delay_s 10 default_http_retry_config 1 = 6 / 5"
    by (simp add: retry_delay_s_def default_http_retry_config_def Let_def)
  ultimately show ?thesis
    using retry_delay_bounds [of default_http_retry_config 1 10]
    by (simp add: Let_def default_http_retry_config_def)
qed

end
