(* ===== verification/Goals.thy ===== *)
theory Goals
  imports ActsInvariants Retry
begin

text \<open>
  \<open>services/domain/acts/goals.py\<close>: creating a goal, moving it through its state machine,
  recomputing its cached health. Every write operation is a body that runs on a transaction
  and an entry point that runs the body on the caller's connection or in a transaction of its
  own (\<open>run_op\<close> of theory \<open>Retry\<close>).
\<close>

section \<open>Rows returned to the caller\<close>

text \<open>
  \<open>GoalRow.model_validate\<close> (\<open>lib/shared/types.py\<close>) accepts the literals of
  \<open>GoalState\<close> and \<open>GoalAltitude\<close> only; JSONB columns come decoded (the codec the
  gateway registers). It runs after the row is written.
\<close>

definition GoalState :: "act_state list" where
  "GoalState = [Active, Paused, Achieved, Abandoned]"

definition GoalAltitude :: "string list" where
  "GoalAltitude = [''strategic'', ''operational'', ''tactical'']"

definition goal_row_validate :: "goal_row \<Rightarrow> goal_row result" where
  "goal_row_validate row =
    (if g_state row \<in> set GoalState \<and> g_altitude row \<in> set GoalAltitude
     then Inr row else Inl pydantic_error)"

section \<open>Create\<close>

definition goal_parent_check :: "uuid option \<Rightarrow> uuid \<Rightarrow> db \<Rightarrow> err option" where
  "goal_parent_check parent_goal_id tenant_id d =
    (case parent_goal_id of
       None \<Rightarrow> None
     | Some p \<Rightarrow>
        (case sel_goal p d of
           None \<Rightarrow> Some (ValidationError ''parent_goal_id does not exist'')
         | Some parent \<Rightarrow>
            if g_tenant parent \<noteq> tenant_id
            then Some (ValidationError ''parent_goal_id belongs to a different tenant'')
            else if g_state parent \<noteq> Active
            then Some (ValidationError ''parent goal must be in 'active' state'')
            else None))"

definition new_goal ::
  "uuid \<Rightarrow> string \<Rightarrow> string option \<Rightarrow> uuid option \<Rightarrow> string \<Rightarrow> dict option \<Rightarrow> time option \<Rightarrow>
   uuid \<Rightarrow> uuid \<Rightarrow> time \<Rightarrow> goal_row" where
  "new_goal goal_id title description parent_goal_id altitude success_criteria target_date
     created_by_event_id tenant_id now =
    \<lparr>g_id = goal_id, g_tenant = tenant_id, g_title = title, g_description = description,
     g_state = Active, g_target_date = target_date, g_parent = parent_goal_id,
     g_altitude = altitude, g_success_criteria = success_criteria, g_health = Healthy,
     g_health_at = Some now, g_created_at = now, g_changed_at = now,
     g_created_by = created_by_event_id, g_archived_at = None\<rparr>"

definition goal_create_inner ::
  "string \<Rightarrow> string option \<Rightarrow> uuid option \<Rightarrow> string \<Rightarrow> dict option \<Rightarrow> time option \<Rightarrow> uuid \<Rightarrow>
   uuid \<Rightarrow> (db, goal_row) tx" where
  "goal_create_inner title description parent_goal_id altitude success_criteria target_date
     created_by_event_id tenant_id d =
    (case goal_parent_check parent_goal_id tenant_id d of
       Some e \<Rightarrow> (Inl e, d)
     | None \<Rightarrow>
        let (goal_id, d) = take_uuid d;
            row = new_goal goal_id title description parent_goal_id altitude success_criteria
              target_date created_by_event_id tenant_id (db_now d);
            d = ins_goal row d;
            (obs_id, d) = emit_act_state_change tenant_id ''goal'' goal_id None Active
              (Some created_by_event_id) d
        in (goal_row_validate row, d))"

definition goal_create ::
  "string \<Rightarrow> string option \<Rightarrow> uuid option \<Rightarrow> string \<Rightarrow> dict option \<Rightarrow> time option \<Rightarrow> uuid \<Rightarrow>
   uuid \<Rightarrow> conn_mode \<Rightarrow> (db, goal_row) tx" where
  "goal_create title description parent_goal_id altitude success_criteria target_date
     created_by_event_id tenant_id conn d =
    (if blank title then (Inl (ValidationError ''goal title is required''), d)
     else run_op conn (goal_create_inner title description parent_goal_id altitude
       success_criteria target_date created_by_event_id tenant_id) d)"

section \<open>Acyclicity, cached health\<close>

definition validate_acyclic :: "uuid \<Rightarrow> uuid option \<Rightarrow> (db, unit) tx" where
  "validate_acyclic goal_id parent_goal_id d =
    (case check_g2_tree_acyclic d goal_id parent_goal_id of
       v # vs \<Rightarrow> (Inl v, d) | [] \<Rightarrow> (Inr (), d))"

definition recompute_cached_health :: "uuid \<Rightarrow> db \<Rightarrow> health \<times> db" where
  "recompute_cached_health goal_id d =
    (let new_health = compute_worst_of_health d goal_id
     in (new_health,
         upd_goal goal_id (\<lambda>r. r\<lparr>g_health := new_health, g_health_at := Some (db_now d)\<rparr>) d))"

section \<open>Transition\<close>

definition goal_transition_check :: "uuid \<Rightarrow> act_state \<Rightarrow> goal_row \<Rightarrow> db \<Rightarrow> err option" where
  "goal_transition_check goal_id new_state row d =
    (let (ok, reason) = can_transition (g_state row) new_state Goal
     in if \<not> ok then Some (InvariantViolation ''G_STATE'' reason)
        else if new_state = Achieved \<and> count_critical_incomplete d goal_id > 0
        then Some (InvariantViolation ''G4''
               ''achieved requires all critical-path commitments doneverified'')
        else None)"

definition set_goal_state :: "act_state \<Rightarrow> time \<Rightarrow> goal_row \<Rightarrow> goal_row" where
  "set_goal_state new_state now r =
    (let r = r\<lparr>g_state := new_state, g_changed_at := now\<rparr>
     in if new_state \<in> {Achieved, Abandoned} then r\<lparr>g_archived_at := Some now\<rparr> else r)"

definition goal_transition_inner ::
  "uuid \<Rightarrow> act_state \<Rightarrow> uuid option \<Rightarrow> (db, goal_row) tx" where
  "goal_transition_inner goal_id new_state cause_event_id d =
    (case sel_goal goal_id d of
       None \<Rightarrow> (Inl (ValidationError ''goal not found''), d)
     | Some row \<Rightarrow>
        (case goal_transition_check goal_id new_state row d of
           Some e \<Rightarrow> (Inl e, d)
         | None \<Rightarrow>
            let updated = set_goal_state new_state (db_now d) row;
                d = upd_goal goal_id (set_goal_state new_state (db_now d)) d;
                (obs_id, d) = emit_act_state_change (g_tenant row) ''goal'' goal_id
                  (Some (g_state row)) new_state cause_event_id d
            in (goal_row_validate updated, d)))"

definition goal_transition ::
  "uuid \<Rightarrow> act_state \<Rightarrow> uuid option \<Rightarrow> conn_mode \<Rightarrow> (db, goal_row) tx" where
  "goal_transition goal_id new_state cause_event_id conn =
    run_op conn (goal_transition_inner goal_id new_state cause_event_id)"

definition goal_get :: "uuid \<Rightarrow> db \<Rightarrow> goal_row option result" where
  "goal_get goal_id d =
    (case sel_goal goal_id d of
       None \<Rightarrow> Inr None
     | Some row \<Rightarrow> (case goal_row_validate row of Inl e \<Rightarrow> Inl e | Inr r \<Rightarrow> Inr (Some r)))"

section \<open>What a committed call has done\<close>

lemma set_goal_state_fields [simp]:
  "g_id (set_goal_state st now r) = g_id r"
  "g_tenant (set_goal_state st now r) = g_tenant r"
  "g_state (set_goal_state st now r) = st"
  "g_parent (set_goal_state st now r) = g_parent r"
  "g_altitude (set_goal_state st now r) = g_altitude r"
  "g_changed_at (set_goal_state st now r) = now"
  by (simp_all add: set_goal_state_def Let_def)

lemma goal_create_inner_db:
  "goal_create_inner t de p al sc td ev te d = (r, d') \<Longrightarrow> d' = d \<or>
    (goal_parent_check p te d = None \<and>
     goals d' = goals d @ [new_goal (uuid_next d) t de p al sc td ev te (db_now d)] \<and>
     commitments d' = commitments d \<and> decisions d' = decisions d \<and>
     contributors d' = contributors d \<and> contributes_to d' = contributes_to d \<and>
     depends_on d' = depends_on d \<and> constrained_by d' = constrained_by d \<and>
     uuid_next d' = Suc (Suc (uuid_next d)))"
  by (auto simp: goal_create_inner_def take_uuid_def ins_goal_def Let_def case_prod_beta
      split: option.splits)

lemma goal_transition_inner_db:
  "goal_transition_inner i st ev d = (r, d') \<Longrightarrow> d' = d \<or>
    (\<exists>row. sel_goal i d = Some row \<and> goal_transition_check i st row d = None \<and>
     goals d' = row_update g_id i (set_goal_state st (db_now d)) (goals d) \<and>
     commitments d' = commitments d \<and> decisions d' = decisions d \<and>
     contributors d' = contributors d \<and> contributes_to d' = contributes_to d \<and>
     depends_on d' = depends_on d \<and> constrained_by d' = constrained_by d \<and>
     uuid_next d' = Suc (uuid_next d))"
  by (auto simp: goal_transition_inner_def upd_goal_def Let_def case_prod_beta
      split: option.splits)

lemma goal_transition_check_None:
  "goal_transition_check i st row d = None \<longleftrightarrow> can_move Goal (g_state row) st \<and>
    (st = Achieved \<longrightarrow> count_critical_incomplete d i = 0)"
  by (auto simp: goal_transition_check_def can_move_def Let_def case_prod_beta)

lemma goal_transition_Inr:
  "goal_transition_inner i st ev d = (Inr r, d') \<Longrightarrow> \<exists>row. sel_goal i d = Some row \<and>
    can_move Goal (g_state row) st \<and> r = set_goal_state st (db_now d) row"
  by (auto simp: goal_transition_inner_def goal_row_validate_def Let_def case_prod_beta
      goal_transition_check_None split: option.splits if_splits)

end
