(* ===== verification/Decisions.thy ===== *)
theory Decisions
  imports Goals
begin

text \<open>\<open>services/domain/acts/decisions.py\<close>: creation and transitions of decisions.\<close>

definition DecisionState :: "act_state list" where
  "DecisionState = [Drafted, Active, Revisited, Archived]"

definition decision_row_validate :: "decision_row \<Rightarrow> decision_row result" where
  "decision_row_validate row =
    (if d_state row \<in> set DecisionState then Inr row else Inl pydantic_error)"

definition new_decision ::
  "uuid \<Rightarrow> string \<Rightarrow> string \<Rightarrow> string option \<Rightarrow> act_state \<Rightarrow> dict option \<Rightarrow> dict option \<Rightarrow> uuid \<Rightarrow>
   uuid \<Rightarrow> time \<Rightarrow> decision_row" where
  "new_decision decision_id title decision_text rationale state scope revisit_triggers
     created_by_event_id tenant_id now =
    \<lparr>d_id = decision_id, d_tenant = tenant_id, d_title = title, d_text = decision_text,
     d_rationale = rationale, d_state = state, d_scope = scope, d_triggers = revisit_triggers,
     d_created_at = now, d_changed_at = now, d_created_by = created_by_event_id,
     d_archived_at = None\<rparr>"

definition decision_create_inner ::
  "string \<Rightarrow> string \<Rightarrow> string option \<Rightarrow> act_state \<Rightarrow> dict option \<Rightarrow> dict option \<Rightarrow> uuid \<Rightarrow> uuid \<Rightarrow>
   (db, decision_row) tx" where
  "decision_create_inner title decision_text rationale state scope revisit_triggers
     created_by_event_id tenant_id d =
    (let (decision_id, d) = take_uuid d;
         row = new_decision decision_id title decision_text rationale state scope
           revisit_triggers created_by_event_id tenant_id (db_now d);
         d = ins_decision row d;
         (obs_id, d) = emit_act_state_change tenant_id ''decision'' decision_id None state
           (Some created_by_event_id) d
     in (decision_row_validate row, d))"

definition decision_create ::
  "string \<Rightarrow> string \<Rightarrow> string option \<Rightarrow> act_state \<Rightarrow> dict option \<Rightarrow> dict option \<Rightarrow> uuid \<Rightarrow> uuid \<Rightarrow>
   conn_mode \<Rightarrow> (db, decision_row) tx" where
  "decision_create title decision_text rationale state scope revisit_triggers
     created_by_event_id tenant_id conn d =
    (if blank title then (Inl (ValidationError ''decision title is required''), d)
     else if blank decision_text
     then (Inl (ValidationError ''decision_text is required''), d)
     else if state \<notin> {Drafted, Active}
     then (Inl (ValidationError (''decision cannot be created in state '' @ state_repr state)), d)
     else run_op conn (decision_create_inner title decision_text rationale state scope
       revisit_triggers created_by_event_id tenant_id) d)"

definition set_decision_state :: "act_state \<Rightarrow> time \<Rightarrow> decision_row \<Rightarrow> decision_row" where
  "set_decision_state new_state now r =
    (let r = r\<lparr>d_state := new_state, d_changed_at := now\<rparr>
     in if new_state = Archived then r\<lparr>d_archived_at := Some now\<rparr> else r)"

definition decision_transition_inner ::
  "uuid \<Rightarrow> act_state \<Rightarrow> uuid option \<Rightarrow> (db, decision_row) tx" where
  "decision_transition_inner decision_id new_state cause_event_id d =
    (case sel_decision decision_id d of
       None \<Rightarrow> (Inl (ValidationError ''decision not found''), d)
     | Some row \<Rightarrow>
        let (ok, reason) = can_transition (d_state row) new_state Decision
        in if \<not> ok then (Inl (InvariantViolation ''D_STATE'' reason), d)
           else
             let updated = set_decision_state new_state (db_now d) row;
                 d = upd_decision decision_id (set_decision_state new_state (db_now d)) d;
                 (obs_id, d) = emit_act_state_change (d_tenant row) ''decision'' decision_id
                   (Some (d_state row)) new_state cause_event_id d
             in (decision_row_validate updated, d))"

definition decision_transition ::
  "uuid \<Rightarrow> act_state \<Rightarrow> uuid option \<Rightarrow> conn_mode \<Rightarrow> (db, decision_row) tx" where
  "decision_transition decision_id new_state cause_event_id conn =
    run_op conn (decision_transition_inner decision_id new_state cause_event_id)"

definition decision_get :: "uuid \<Rightarrow> db \<Rightarrow> decision_row option result" where
  "decision_get decision_id d =
    (case sel_decision decision_id d of
       None \<Rightarrow> Inr None
     | Some row \<Rightarrow> (case decision_row_validate row of Inl e \<Rightarrow> Inl e | Inr r \<Rightarrow> Inr (Some r)))"

lemma set_decision_state_fields [simp]:
  "d_id (set_decision_state st now r) = d_id r"
  "d_state (set_decision_state st now r) = st"
  "d_tenant (set_decision_state st now r) = d_tenant r"
  by (simp_all add: set_decision_state_def Let_def)

lemma decision_create_inner_db:
  "decision_create_inner t tx ra st sc rt ev te d = (r, d') \<Longrightarrow>
     decisions d' = decisions d @ [new_decision (uuid_next d) t tx ra st sc rt ev te (db_now d)] \<and>
     goals d' = goals d \<and> commitments d' = commitments d \<and>
     contributors d' = contributors d \<and> contributes_to d' = contributes_to d \<and>
     depends_on d' = depends_on d \<and> constrained_by d' = constrained_by d \<and>
     uuid_next d' = Suc (Suc (uuid_next d))"
  by (auto simp: decision_create_inner_def take_uuid_def ins_decision_def Let_def case_prod_beta)

lemma decision_transition_inner_db:
  "decision_transition_inner i st ev d = (r, d') \<Longrightarrow> d' = d \<or>
    (\<exists>row. sel_decision i d = Some row \<and> can_move Decision (d_state row) st \<and>
     decisions d' = row_update d_id i (set_decision_state st (db_now d)) (decisions d) \<and>
     goals d' = goals d \<and> commitments d' = commitments d \<and>
     contributors d' = contributors d \<and> contributes_to d' = contributes_to d \<and>
     depends_on d' = depends_on d \<and> constrained_by d' = constrained_by d \<and>
     uuid_next d' = Suc (uuid_next d))"
  by (auto simp: decision_transition_inner_def upd_decision_def can_move_def Let_def
      case_prod_beta split: option.splits if_splits)

lemma decision_transition_Inr:
  "decision_transition_inner i st ev d = (Inr r, d') \<Longrightarrow> \<exists>row. sel_decision i d = Some row \<and>
    can_move Decision (d_state row) st \<and> r = set_decision_state st (db_now d) row"
  by (auto simp: decision_transition_inner_def decision_row_validate_def can_move_def Let_def
      case_prod_beta split: option.splits if_splits)

end
