(* ===== verification/Commitments.thy ===== *)
theory Commitments
  imports Decisions
begin

text \<open>
  \<open>services/domain/acts/commitments.py\<close>: creation (with contributors and the three kinds of
  edges), transitions, contributors, edges. The foreign keys and primary keys of the tables
  (\<open>db/migrations/0001_foundation.sql\<close>) are part of the operations that insert; the keys
  into the tables of other components (\<open>models\<close>, \<open>tenants\<close>) are not.
\<close>

section \<open>Rows returned to the caller\<close>

definition CommitmentState :: "act_state list" where
  "CommitmentState = [Proposed, Active, Blocked, Paused, DoneUnverified, DoneVerified, Closed]"

definition AmbitionLevel :: "string list" where
  "AmbitionLevel = [''base'', ''stretch'', ''aspirational'']"

definition commitment_row_validate :: "commitment_row \<Rightarrow> commitment_row result" where
  "commitment_row_validate row =
    (if c_state row \<in> set CommitmentState \<and> c_ambition row \<in> set AmbitionLevel
     then Inr row else Inl pydantic_error)"

section \<open>The input of a creation\<close>

text \<open>An item of \<open>contributes_to_goal_ids\<close>: a goal, or a goal and \<open>is_critical_path\<close>.\<close>

datatype goal_item = GoalId uuid | GoalEdge uuid bool

primrec contributes_to_edge_parts :: "goal_item \<Rightarrow> uuid \<times> bool" where
  "contributes_to_edge_parts (GoalId goal_id) = (goal_id, False)"
| "contributes_to_edge_parts (GoalEdge goal_id is_critical_path) = (goal_id, is_critical_path)"

text \<open>
  \<open>_CommitmentCreateInput\<close>. An absent list argument of \<open>create\<close> is the empty list here
  (the code replaces \<open>None\<close> by \<open>[]\<close>).
\<close>

record commitment_input =
  i_title :: string
  i_description :: "string option"
  i_initial_state :: act_state
  i_owner :: "uuid option"
  i_due :: "time option"
  i_ambition :: string
  i_priority :: int
  i_success_criteria :: "dict option"
  i_goals :: "goal_item list"
  i_depends_on :: "uuid list"
  i_constrained_by :: "uuid list"
  i_contributors :: "(uuid \<times> string option) list"
  i_counterparty :: "dict option"
  i_capacity :: "dict option"
  i_maintenance :: bool
  i_created_by :: uuid
  i_basis :: "uuid option"
  i_tenant :: uuid

definition prepare_commitment_create_input ::
  "bool option \<Rightarrow> commitment_input \<Rightarrow> time \<Rightarrow> commitment_input result" where
  "prepare_commitment_create_input is_maintenance a now =
    (if blank (i_title a) then Inl (ValidationError ''commitment title is required'')
     else if i_initial_state a \<noteq> Proposed \<and> i_owner a = None
     then Inl (InvariantViolation ''C1''
            (''initial_state '' @ state_repr (i_initial_state a) @ '' requires owner_id''))
     else if (case i_due a of None \<Rightarrow> False | Some due \<Rightarrow> due \<le> now)
     then Inl (InvariantViolation ''C9'' ''due_date at creation must be in the future'')
     else
       let legacy_maintenance = capacity_maintenance (i_capacity a) in
       if is_maintenance = Some False \<and> legacy_maintenance
       then Inl (ValidationError
              ''is_maintenance=False conflicts with estimated_capacity.maintenance=True'')
       else
         let maintenance = (case is_maintenance of None \<Rightarrow> legacy_maintenance | Some b \<Rightarrow> b) in
         if maintenance \<and> i_goals a \<noteq> []
         then Inl (InvariantViolation ''C10''
                ''is_maintenance=True cannot have contributes_to edges'')
         else if i_initial_state a \<notin> {Proposed, DoneVerified, Closed} \<and> \<not> maintenance \<and> i_goals a = []
         then Inl (InvariantViolation ''C10''
                ''active commitment needs >=1 contributes_to or maintenance flag'')
         else Inr (a\<lparr>i_maintenance := maintenance\<rparr>))"

section \<open>References\<close>

definition require_active_actor :: "uuid \<Rightarrow> string \<Rightarrow> db \<Rightarrow> err option" where
  "require_active_actor actor_id role d =
    (case actor_status d actor_id of
       None \<Rightarrow> Some (InvariantViolation ''C5'' (role @ '' actor does not exist''))
     | Some status \<Rightarrow>
        fails (status \<noteq> actor_active) (InvariantViolation ''C5''
          (role @ '' actor status is '' @ py_repr status @ '', must be '' @ py_repr ''active'')))"

definition require_tenant_goal :: "uuid \<Rightarrow> uuid \<Rightarrow> db \<Rightarrow> err option" where
  "require_tenant_goal goal_id tenant_id d =
    (case sel_goal goal_id d of
       None \<Rightarrow> Some (ValidationError ''contributes_to goal_id does not exist'')
     | Some g \<Rightarrow> fails (g_tenant g \<noteq> tenant_id)
         (ValidationError ''contributes_to goal belongs to different tenant''))"

definition require_tenant_commitment :: "uuid \<Rightarrow> uuid \<Rightarrow> db \<Rightarrow> err option" where
  "require_tenant_commitment commitment_id tenant_id d =
    (case sel_commitment commitment_id d of
       None \<Rightarrow> Some (ValidationError ''depends_on commitment does not exist'')
     | Some c \<Rightarrow> fails (c_tenant c \<noteq> tenant_id)
         (ValidationError ''depends_on commitment belongs to different tenant''))"

definition require_tenant_decision :: "uuid \<Rightarrow> uuid \<Rightarrow> db \<Rightarrow> err option" where
  "require_tenant_decision decision_id tenant_id d =
    (case sel_decision decision_id d of
       None \<Rightarrow> Some (ValidationError ''constrained_by decision does not exist'')
     | Some q \<Rightarrow> fails (d_tenant q \<noteq> tenant_id)
         (ValidationError ''constrained_by decision belongs to different tenant''))"

definition validate_commitment_create_references :: "commitment_input \<Rightarrow> db \<Rightarrow> err option" where
  "validate_commitment_create_references inp d =
    then_check (case i_owner inp of None \<Rightarrow> None | Some o' \<Rightarrow> require_active_actor o' ''owner'' d)
   (then_check (check_all (\<lambda>(a, role). require_active_actor a ''contributor'' d) (i_contributors inp))
   (then_check (check_all (\<lambda>item. require_tenant_goal (fst (contributes_to_edge_parts item))
                                    (i_tenant inp) d) (i_goals inp))
   (then_check (check_all (\<lambda>dep. require_tenant_commitment dep (i_tenant inp) d) (i_depends_on inp))
     (check_all (\<lambda>dec. require_tenant_decision dec (i_tenant inp) d) (i_constrained_by inp)))))"

definition require_goal_can_accept_critical_path ::
  "uuid \<Rightarrow> act_state \<Rightarrow> bool \<Rightarrow> db \<Rightarrow> err option" where
  "require_goal_can_accept_critical_path goal_id commitment_state is_critical_path d =
    (if \<not> is_critical_path then None
     else fails (map_option g_state (sel_goal goal_id d) = Some Achieved
                 \<and> commitment_state \<noteq> DoneVerified)
       (InvariantViolation ''G4''
          ''achieved goal cannot receive an unfinished critical-path commitment''))"

definition require_contributes_to_allowed :: "uuid \<Rightarrow> uuid \<Rightarrow> bool \<Rightarrow> db \<Rightarrow> err option" where
  "require_contributes_to_allowed commitment_id goal_id is_critical_path d =
    (case sel_commitment commitment_id d of
       None \<Rightarrow> Some (ValidationError ''contributes_to commitment_id does not exist'')
     | Some c \<Rightarrow>
        (case sel_goal goal_id d of
           None \<Rightarrow> Some (ValidationError ''contributes_to goal_id does not exist'')
         | Some g \<Rightarrow>
            if c_tenant c \<noteq> g_tenant g
            then Some (ValidationError ''contributes_to entities belong to different tenants'')
            else fails (is_critical_path \<and> g_state g = Achieved \<and> c_state c \<noteq> DoneVerified)
              (InvariantViolation ''G4''
                ''achieved goal cannot receive an unfinished critical-path commitment'')))"

section \<open>Inserting rows\<close>

definition ct_key :: "contributes_row \<Rightarrow> uuid \<times> uuid" where
  "ct_key e = (ct_commitment e, ct_goal e)"

definition cc_key :: "contributor_row \<Rightarrow> uuid \<times> uuid" where
  "cc_key e = (cc_commitment e, cc_actor e)"

definition ins_contributes_to :: "uuid \<Rightarrow> uuid \<Rightarrow> bool \<Rightarrow> db \<Rightarrow> db" where
  "ins_contributes_to commitment_id goal_id is_critical_path d =
    d\<lparr>contributes_to := insert_new ct_key
        \<lparr>ct_commitment = commitment_id, ct_goal = goal_id, ct_critical = is_critical_path\<rparr>
        (contributes_to d)\<rparr>"

definition ins_depends_on :: "uuid \<Rightarrow> uuid \<Rightarrow> db \<Rightarrow> db" where
  "ins_depends_on a b d = d\<lparr>depends_on := insert_new id (a, b) (depends_on d)\<rparr>"

definition ins_constrained_by :: "uuid \<Rightarrow> uuid \<Rightarrow> db \<Rightarrow> db" where
  "ins_constrained_by a b d = d\<lparr>constrained_by := insert_new id (a, b) (constrained_by d)\<rparr>"

definition resolve_effective_initial_state :: "commitment_input \<Rightarrow> db \<Rightarrow> act_state" where
  "resolve_effective_initial_state inp d =
    (if i_initial_state inp \<noteq> Active \<or> i_depends_on inp = [] then i_initial_state inp
     else if list_ex (is_unsatisfied_dependency d) (i_depends_on inp) then Blocked
     else i_initial_state inp)"

definition new_commitment :: "commitment_input \<Rightarrow> uuid \<Rightarrow> act_state \<Rightarrow> time \<Rightarrow> commitment_row" where
  "new_commitment inp commitment_id effective_initial now =
    \<lparr>c_id = commitment_id, c_tenant = i_tenant inp, c_title = i_title inp,
     c_description = i_description inp, c_state = effective_initial, c_owner = i_owner inp,
     c_due = i_due inp, c_ambition = i_ambition inp, c_priority = i_priority inp,
     c_success_criteria = i_success_criteria inp, c_resolved = [],
     c_counterparty = i_counterparty inp, c_capacity = i_capacity inp,
     c_maintenance = i_maintenance inp, c_created_at = now, c_changed_at = now,
     c_terminal_at = None, c_created_by = i_created_by inp, c_basis = i_basis inp\<rparr>"

definition basis_fkey :: "uuid option \<Rightarrow> db \<Rightarrow> err option" where
  "basis_fkey basis d =
    (case basis of
       None \<Rightarrow> None
     | Some b \<Rightarrow> fails (b \<notin> set (model_ids d))
         (ForeignKeyViolationError ''commitments_last_confidence_basis_fkey''))"

lemma basis_fkey_None [simp]: "basis_fkey None d = None"
  by (simp add: basis_fkey_def)

definition insert_commitment :: "commitment_input \<Rightarrow> uuid \<Rightarrow> act_state \<Rightarrow> (db, unit) tx" where
  "insert_commitment inp commitment_id effective_initial =
    bind_tx (check_tx (basis_fkey (i_basis inp))) (\<lambda>_.
      modify_tx (\<lambda>d. ins_commitment (new_commitment inp commitment_id effective_initial (db_now d)) d))"

definition insert_commitment_contributors :: "uuid \<Rightarrow> commitment_input \<Rightarrow> (db, unit) tx" where
  "insert_commitment_contributors commitment_id inp =
    for_tx (i_contributors inp) (\<lambda>(actor_id, role). modify_tx (\<lambda>d.
      d\<lparr>contributors := insert_new cc_key
          \<lparr>cc_commitment = commitment_id, cc_actor = actor_id, cc_role = role\<rparr>
          (contributors d)\<rparr>))"

definition insert_contributes_to_edges ::
  "uuid \<Rightarrow> act_state \<Rightarrow> commitment_input \<Rightarrow> (db, unit) tx" where
  "insert_contributes_to_edges commitment_id effective_initial inp =
    for_tx (i_goals inp) (\<lambda>item.
      let (goal_id, is_critical_path) = contributes_to_edge_parts item in
      bind_tx (check_tx (require_goal_can_accept_critical_path goal_id effective_initial
                is_critical_path))
        (\<lambda>_. modify_tx (ins_contributes_to commitment_id goal_id is_critical_path)))"

definition first_violation :: "err list \<Rightarrow> err option" where
  "first_violation violations = (case violations of [] \<Rightarrow> None | v # _ \<Rightarrow> Some v)"

definition insert_depends_on_edges :: "uuid \<Rightarrow> commitment_input \<Rightarrow> (db, unit) tx" where
  "insert_depends_on_edges commitment_id inp =
    for_tx (i_depends_on inp) (\<lambda>dep_id.
      bind_tx (check_tx (\<lambda>d. first_violation (check_c6_depends_on_acyclic d commitment_id dep_id)))
        (\<lambda>_. modify_tx (ins_depends_on commitment_id dep_id)))"

definition insert_constrained_by_edges :: "uuid \<Rightarrow> commitment_input \<Rightarrow> (db, unit) tx" where
  "insert_constrained_by_edges commitment_id inp =
    for_tx (i_constrained_by inp) (\<lambda>dec_id. modify_tx (ins_constrained_by commitment_id dec_id))"

section \<open>Create\<close>

definition fetch_commitment :: "uuid \<Rightarrow> (db, commitment_row) tx" where
  "fetch_commitment commitment_id d =
    (case sel_commitment commitment_id d of
       None \<Rightarrow> (Inl (OtherError ''TypeError''), d)
     | Some row \<Rightarrow> (commitment_row_validate row, d))"

definition commitment_create_inner :: "commitment_input \<Rightarrow> (db, commitment_row) tx" where
  "commitment_create_inner inp =
    bind_tx (check_tx (validate_commitment_create_references inp)) (\<lambda>_ d.
      let (commitment_id, d) = take_uuid d;
          effective_initial = resolve_effective_initial_state inp d
      in bind_tx (insert_commitment inp commitment_id effective_initial) (\<lambda>_.
         bind_tx (insert_commitment_contributors commitment_id inp) (\<lambda>_.
         bind_tx (insert_contributes_to_edges commitment_id effective_initial inp) (\<lambda>_.
         bind_tx (insert_depends_on_edges commitment_id inp) (\<lambda>_.
         bind_tx (insert_constrained_by_edges commitment_id inp) (\<lambda>_.
         bind_tx (modify_tx (\<lambda>d. snd (emit_act_state_change (i_tenant inp) ''commitment''
                    commitment_id None effective_initial (Some (i_created_by inp)) d))) (\<lambda>_.
           fetch_commitment commitment_id)))))) d)"

definition commitment_create ::
  "bool option \<Rightarrow> commitment_input \<Rightarrow> conn_mode \<Rightarrow> (db, commitment_row) tx" where
  "commitment_create is_maintenance a conn d =
    (case prepare_commitment_create_input is_maintenance a (py_now d) of
       Inl e \<Rightarrow> (Inl e, d)
     | Inr create_input \<Rightarrow> run_op conn (commitment_create_inner create_input) d)"

section \<open>Transition\<close>

definition merge_resolved :: "uuid list \<Rightarrow> uuid list \<Rightarrow> uuid list" where
  "merge_resolved resolved new =
    fold (\<lambda>eid acc. if eid \<in> set acc then acc else acc @ [eid]) new resolved"

definition commitment_transition_check ::
  "act_state \<Rightarrow> uuid list \<Rightarrow> uuid option \<Rightarrow> commitment_row \<Rightarrow> db \<Rightarrow> err option" where
  "commitment_transition_check new_state resolved_by_event_ids cause_event_id row d =
    (let (ok, reason) = can_transition (c_state row) new_state Commitment in
     then_check (fails (\<not> ok) (InvariantViolation
        (if c_state row \<in> set COMMITMENT_TERMINAL then ''C8'' else ''C_STATE'') reason))
    (then_check (fails (cause_event_id = None)
        (InvariantViolation ''C4'' ''state transition requires cause_event_id''))
    (then_check (fails (new_state \<in> {Active, Blocked, Paused, DoneUnverified} \<and> c_owner row = None)
        (InvariantViolation ''C1''
          (''transition to '' @ state_repr new_state @ '' requires owner_id'')))
    (then_check (case c_owner row of
         None \<Rightarrow> None
       | Some owner_id \<Rightarrow>
           if new_state \<noteq> Closed then require_active_actor owner_id ''owner'' d else None)
    (then_check (fails (new_state = DoneVerified \<and>
          length (merge_resolved (c_resolved row) resolved_by_event_ids) = 0)
        (InvariantViolation ''C3'' ''doneverified requires >=1 resolved_by_event_id''))
      (fails (new_state = Blocked \<and> count_unsatisfied_dependencies d (c_id row) = 0 \<and>
          count_revisited_constraining_decisions d (c_id row) = 0)
        (InvariantViolation ''C2''
          ''blocked requires unsatisfied dependency OR revisited constraining decision'')))))))"

definition set_commitment_state ::
  "act_state \<Rightarrow> uuid list \<Rightarrow> uuid option \<Rightarrow> time \<Rightarrow> commitment_row \<Rightarrow> commitment_row" where
  "set_commitment_state new_state merged_resolved new_basis now r =
    r\<lparr>c_state := new_state, c_changed_at := now, c_resolved := merged_resolved,
      c_basis := new_basis,
      c_terminal_at := if is_terminal new_state Commitment then Some now else c_terminal_at r\<rparr>"

definition commitment_transition_inner ::
  "uuid \<Rightarrow> act_state \<Rightarrow> uuid list \<Rightarrow> uuid option \<Rightarrow> uuid option \<Rightarrow> (db, commitment_row) tx" where
  "commitment_transition_inner commitment_id new_state resolved_by_event_ids
     last_confidence_basis cause_event_id d =
    (case sel_commitment commitment_id d of
       None \<Rightarrow> (Inl (ValidationError ''commitment not found''), d)
     | Some row \<Rightarrow>
        (case commitment_transition_check new_state resolved_by_event_ids cause_event_id row d of
           Some e \<Rightarrow> (Inl e, d)
         | None \<Rightarrow>
            (case basis_fkey last_confidence_basis d of Some e \<Rightarrow> (Inl e, d) | None \<Rightarrow>
            let merged_resolved = merge_resolved (c_resolved row) resolved_by_event_ids;
                new_basis = (case last_confidence_basis of Some b \<Rightarrow> Some b | None \<Rightarrow> c_basis row);
                upd = set_commitment_state new_state merged_resolved new_basis (db_now d);
                updated = upd row;
                d = upd_commitment commitment_id upd d;
                viols = (if new_state \<in> {Active, Blocked, Paused, DoneUnverified}
                         then check_c10_contributes_or_maintenance d commitment_id else [])
            in case viols of
                 v # _ \<Rightarrow> (Inl v, d)
               | [] \<Rightarrow>
                   let (obs_id, d) = emit_act_state_change (c_tenant row) ''commitment''
                         commitment_id (Some (c_state row)) new_state cause_event_id d
                   in (commitment_row_validate updated, d))))"

definition commitment_transition ::
  "uuid \<Rightarrow> act_state \<Rightarrow> uuid list \<Rightarrow> uuid option \<Rightarrow> uuid option \<Rightarrow> conn_mode \<Rightarrow>
   (db, commitment_row) tx" where
  "commitment_transition commitment_id new_state resolved_by_event_ids last_confidence_basis
     cause_event_id conn =
    run_op conn (commitment_transition_inner commitment_id new_state resolved_by_event_ids
      last_confidence_basis cause_event_id)"

section \<open>Contributors\<close>

definition add_contributor_inner ::
  "uuid \<Rightarrow> uuid \<Rightarrow> string option \<Rightarrow> (db, contributor_row) tx" where
  "add_contributor_inner commitment_id actor_id role d =
    (case require_active_actor actor_id ''contributor'' d of
       Some e \<Rightarrow> (Inl e, d)
     | None \<Rightarrow>
        let row = \<lparr>cc_commitment = commitment_id, cc_actor = actor_id, cc_role = role\<rparr> in
        if cc_key row \<in> cc_key ` set (contributors d)
        then (Inr row, d\<lparr>contributors := row_update cc_key (cc_key row) (\<lambda>r. r\<lparr>cc_role := role\<rparr>)
                           (contributors d)\<rparr>)
        else if sel_commitment commitment_id d = None
        then (Inl (ForeignKeyViolationError ''commitment_contributors_commitment_id_fkey''), d)
        else (Inr row, d\<lparr>contributors := contributors d @ [row]\<rparr>))"

definition add_contributor ::
  "uuid \<Rightarrow> uuid \<Rightarrow> string option \<Rightarrow> conn_mode \<Rightarrow> (db, contributor_row) tx" where
  "add_contributor commitment_id actor_id role conn =
    run_op conn (add_contributor_inner commitment_id actor_id role)"

text \<open>The tag \<open>DELETE N\<close> ends in 1 or 2 for the at most one row of a primary key.\<close>

definition remove_contributor :: "uuid \<Rightarrow> uuid \<Rightarrow> (db, bool) tx" where
  "remove_contributor commitment_id actor_id d =
    (let hit = (\<lambda>r. cc_commitment r = commitment_id \<and> cc_actor r = actor_id);
         n = length (filter hit (contributors d))
     in (Inr (n = 1 \<or> n = 2), d\<lparr>contributors := filter (\<lambda>r. \<not> hit r) (contributors d)\<rparr>))"

section \<open>Edges\<close>

datatype edge_kind = EContributesTo | EDependsOn | EConstrainedBy | UnknownEdge string

datatype edge = ContributesToEdge contributes_row | DependsOnEdge uuid uuid
  | ConstrainedByEdge uuid uuid

record edge_args =
  e_commitment :: "uuid option"
  e_goal :: "uuid option"
  e_dependent :: "uuid option"
  e_dependency :: "uuid option"
  e_decision :: "uuid option"
  e_critical :: bool

definition add_contributes_to :: "uuid \<Rightarrow> uuid \<Rightarrow> bool \<Rightarrow> (db, edge) tx" where
  "add_contributes_to commitment_id goal_id is_critical_path d =
    (case require_contributes_to_allowed commitment_id goal_id is_critical_path d of
       Some e \<Rightarrow> (Inl e, d)
     | None \<Rightarrow>
        let d = ins_contributes_to commitment_id goal_id is_critical_path d
        in (case row_at ct_key (commitment_id, goal_id) (contributes_to d) of
              Some row \<Rightarrow> Inr (ContributesToEdge row)
            | None \<Rightarrow> Inl (OtherError ''TypeError''), d))"

definition add_depends_on :: "uuid \<Rightarrow> uuid \<Rightarrow> (db, edge) tx" where
  "add_depends_on dependent_id dependency_id d =
    (case first_violation (check_c6_depends_on_acyclic d dependent_id dependency_id) of
       Some e \<Rightarrow> (Inl e, d)
     | None \<Rightarrow>
        if (dependent_id, dependency_id) \<in> set (depends_on d)
        then (Inr (DependsOnEdge dependent_id dependency_id), d)
        else if sel_commitment dependent_id d = None
        then (Inl (ForeignKeyViolationError ''depends_on_dependent_commitment_id_fkey''), d)
        else if sel_commitment dependency_id d = None
        then (Inl (ForeignKeyViolationError ''depends_on_dependency_commitment_id_fkey''), d)
        else (Inr (DependsOnEdge dependent_id dependency_id),
              ins_depends_on dependent_id dependency_id d))"

definition add_constrained_by :: "uuid \<Rightarrow> uuid \<Rightarrow> (db, edge) tx" where
  "add_constrained_by commitment_id decision_id d =
    (if (commitment_id, decision_id) \<in> set (constrained_by d)
     then (Inr (ConstrainedByEdge commitment_id decision_id), d)
     else if sel_commitment commitment_id d = None
     then (Inl (ForeignKeyViolationError ''constrained_by_commitment_id_fkey''), d)
     else if sel_decision decision_id d = None
     then (Inl (ForeignKeyViolationError ''constrained_by_decision_id_fkey''), d)
     else (Inr (ConstrainedByEdge commitment_id decision_id),
           ins_constrained_by commitment_id decision_id d))"

definition add_edge_inner :: "edge_kind \<Rightarrow> edge_args \<Rightarrow> (db, edge) tx" where
  "add_edge_inner kind a d =
    (case kind of
       EContributesTo \<Rightarrow>
        (case (e_commitment a, e_goal a) of
           (Some c, Some g) \<Rightarrow> add_contributes_to c g (e_critical a) d
         | _ \<Rightarrow> (Inl (ValidationError ''contributes_to requires commitment_id and goal_id''), d))
     | EDependsOn \<Rightarrow>
        (case (e_dependent a, e_dependency a) of
           (Some x, Some y) \<Rightarrow> add_depends_on x y d
         | _ \<Rightarrow> (Inl (ValidationError
             ''depends_on requires dependent_commitment_id and dependency_commitment_id''), d))
     | EConstrainedBy \<Rightarrow>
        (case (e_commitment a, e_decision a) of
           (Some c, Some q) \<Rightarrow> add_constrained_by c q d
         | _ \<Rightarrow> (Inl (ValidationError ''constrained_by requires commitment_id and decision_id''), d))
     | UnknownEdge k \<Rightarrow> (Inl (ValidationError (''unknown edge kind: '' @ py_repr k)), d))"

definition add_edge :: "edge_kind \<Rightarrow> edge_args \<Rightarrow> conn_mode \<Rightarrow> (db, edge) tx" where
  "add_edge kind a conn = run_op conn (add_edge_inner kind a)"

definition commitment_get :: "uuid \<Rightarrow> db \<Rightarrow> commitment_row option result" where
  "commitment_get commitment_id d =
    (case sel_commitment commitment_id d of
       None \<Rightarrow> Inr None
     | Some row \<Rightarrow>
        (case commitment_row_validate row of Inl e \<Rightarrow> Inl e | Inr r \<Rightarrow> Inr (Some r)))"

end
