(* ===== verification/ActsSafety.thy ===== *)
theory ActsSafety
  imports Commitments
begin

text \<open>
  What the acts promise together: an invariant of the database that every operation of
  \<open>services/domain/acts\<close> keeps, whether it returns or raises (\<open>acts_inv\<close>), the invariant
  C10, which every committed operation keeps, and the transition system of all committed
  operations (\<open>act_step\<close>) with the facts that hold in every state it reaches.
\<close>

section \<open>The invariant\<close>

definition active_no_owner :: "commitment_row \<Rightarrow> bool" where
  "active_no_owner c \<longleftrightarrow> c_state c \<in> set active_family \<and> c_owner c = None"

definition ids_inv :: "db \<Rightarrow> bool" where
  "ids_inv d \<longleftrightarrow>
    distinct (map g_id (goals d)) \<and> distinct (map c_id (commitments d)) \<and>
    distinct (map d_id (decisions d)) \<and>
    (\<forall>g \<in> set (goals d). g_id g < uuid_next d) \<and>
    (\<forall>c \<in> set (commitments d). c_id c < uuid_next d) \<and>
    (\<forall>q \<in> set (decisions d). d_id q < uuid_next d)"

definition refs_inv :: "db \<Rightarrow> bool" where
  "refs_inv d \<longleftrightarrow>
    (\<forall>e \<in> set (contributes_to d). ct_commitment e \<in> c_id ` set (commitments d) \<and>
       ct_goal e \<in> g_id ` set (goals d)) \<and>
    (\<forall>(a, b) \<in> set (depends_on d). a \<in> c_id ` set (commitments d) \<and>
       b \<in> c_id ` set (commitments d)) \<and>
    (\<forall>(a, b) \<in> set (constrained_by d). a \<in> c_id ` set (commitments d) \<and>
       b \<in> d_id ` set (decisions d)) \<and>
    (\<forall>e \<in> set (contributors d). cc_commitment e \<in> c_id ` set (commitments d))"

definition owner_inv :: "db \<Rightarrow> bool" where
  "owner_inv d \<longleftrightarrow> (\<forall>c \<in> set (commitments d). \<not> active_no_owner c)"

definition tree_inv :: "db \<Rightarrow> bool" where
  "tree_inv d \<longleftrightarrow> (\<forall>g \<in> set (goals d). \<forall>p. g_parent g = Some p \<longrightarrow>
     p < g_id g \<and> p \<in> g_id ` set (goals d))"

definition achieved_inv :: "db \<Rightarrow> bool" where
  "achieved_inv d \<longleftrightarrow>
    (\<forall>e \<in> set (contributes_to d). \<forall>g \<in> set (goals d). \<forall>c \<in> set (commitments d).
       ct_critical e \<and> g_id g = ct_goal e \<and> g_state g = Achieved \<and> c_id c = ct_commitment e \<longrightarrow>
       c_state c = DoneVerified)"

definition acts_inv :: "db \<Rightarrow> bool" where
  "acts_inv d \<longleftrightarrow> ids_inv d \<and> refs_inv d \<and> owner_inv d \<and> acyclic (set (depends_on d)) \<and>
     tree_inv d \<and> achieved_inv d"

lemmas acts_inv_defs = acts_inv_def ids_inv_def refs_inv_def owner_inv_def tree_inv_def
  achieved_inv_def

lemma acts_invD:
  assumes "acts_inv d"
  shows "ids_inv d" "refs_inv d" "owner_inv d" "acyclic (set (depends_on d))" "tree_inv d"
    "achieved_inv d"
  using assms by (simp_all add: acts_inv_def)

text \<open>The tables the invariant reads.\<close>

definition acts_tables where
  "acts_tables d = (goals d, commitments d, decisions d, contributors d, contributes_to d,
     depends_on d, constrained_by d)"

lemma acts_inv_frame:
  assumes "acts_inv d" and "acts_tables d' = acts_tables d" and "uuid_next d \<le> uuid_next d'"
  shows "acts_inv d'"
  using assms unfolding acts_inv_defs acts_tables_def by (auto intro: less_le_trans)

lemma emit_act_tables [simp]:
  "acts_tables (snd (emit_act_state_change t k e f g c d)) = acts_tables d"
  by (simp add: acts_tables_def)

lemma take_uuid_tables [simp]:
  "acts_tables (snd (take_uuid d)) = acts_tables d" "fst (take_uuid d) = uuid_next d"
  "uuid_next (snd (take_uuid d)) = Suc (uuid_next d)"
  by (simp_all add: take_uuid_def acts_tables_def)

section \<open>The elementary changes keep the invariant\<close>

lemma sel_goal_in: "sel_goal i d = Some g \<Longrightarrow> g \<in> set (goals d) \<and> g_id g = i"
  by (auto simp: sel_goal_def dest: row_at_Some)

lemma sel_commitment_in: "sel_commitment i d = Some c \<Longrightarrow> c \<in> set (commitments d) \<and> c_id c = i"
  by (auto simp: sel_commitment_def dest: row_at_Some)

lemma sel_decision_in: "sel_decision i d = Some c \<Longrightarrow> c \<in> set (decisions d) \<and> d_id c = i"
  by (auto simp: sel_decision_def dest: row_at_Some)

lemma sel_goal_row: "ids_inv d \<Longrightarrow> g \<in> set (goals d) \<Longrightarrow> sel_goal (g_id g) d = Some g"
  by (simp add: sel_goal_def ids_inv_def row_at_unique)

lemma sel_commitment_row:
  "ids_inv d \<Longrightarrow> c \<in> set (commitments d) \<Longrightarrow> sel_commitment (c_id c) d = Some c"
  by (simp add: sel_commitment_def ids_inv_def row_at_unique)

lemma goal_insert_inv:
  assumes "acts_inv d" and "goal_parent_check p te d = None"
    and g: "g_id g = uuid_next d" "g_parent g = p" "g_state g = Active"
    and d': "acts_tables d' = acts_tables (ins_goal g d)" "uuid_next d < uuid_next d'"
  shows "acts_inv d'"
proof -
  have tab: "goals d' = goals d @ [g]" "commitments d' = commitments d"
    "decisions d' = decisions d" "contributors d' = contributors d"
    "contributes_to d' = contributes_to d" "depends_on d' = depends_on d"
    "constrained_by d' = constrained_by d"
    using d'(1) by (simp_all add: acts_tables_def ins_goal_def)
  have parent: "q \<in> g_id ` set (goals d)" if "p = Some q" for q
    using assms(2) that by (auto simp: goal_parent_check_def dest: sel_goal_in split: option.splits)
  note inv = acts_invD [OF assms(1)]
  have "ids_inv d'" using inv(1) d'(2) g(1) by (auto simp: ids_inv_def tab)
  moreover have "refs_inv d'" using inv(2) unfolding refs_inv_def tab by auto
  moreover have "owner_inv d'" using inv(3) by (simp add: owner_inv_def tab)
  moreover have "tree_inv d'"
    using inv(1,5) g parent by (auto simp: tree_inv_def ids_inv_def tab)
  moreover have "achieved_inv d'" using inv(6) g(3) by (auto simp: achieved_inv_def tab)
  ultimately show ?thesis using inv(4) by (simp add: acts_inv_def tab)
qed

lemma goal_update_inv:
  assumes "acts_inv d" and f: "\<And>g. g_id (f g) = g_id g" "\<And>g. g_parent (f g) = g_parent g"
    and achieved: "\<And>g. g \<in> set (goals d) \<Longrightarrow> g_id g = i \<Longrightarrow> g_state (f g) = Achieved \<Longrightarrow>
      g_state g = Achieved \<or> count_critical_incomplete d i = 0"
    and d': "acts_tables d' = acts_tables (upd_goal i f d)" "uuid_next d \<le> uuid_next d'"
  shows "acts_inv d'"
proof -
  have tab: "goals d' = row_update g_id i f (goals d)" "commitments d' = commitments d"
    "decisions d' = decisions d" "contributors d' = contributors d"
    "contributes_to d' = contributes_to d" "depends_on d' = depends_on d"
    "constrained_by d' = constrained_by d"
    using d'(1) by (simp_all add: acts_tables_def upd_goal_def)
  have keys: "map g_id (goals d') = map g_id (goals d)" by (simp add: tab row_simps f)
  then have kset: "g_id ` set (goals d') = g_id ` set (goals d)" by (metis list.set_map)
  note inv = acts_invD [OF assms(1)]
  have "(\<forall>x \<in> g_id ` set (goals d'). x < uuid_next d')"
    unfolding kset using inv(1) d'(2) by (auto simp: ids_inv_def)
  then have "ids_inv d'" using inv(1) d'(2) keys
    by (fastforce simp: ids_inv_def tab(2-))
  moreover have "refs_inv d'" using inv(2) kset by (auto simp: refs_inv_def tab(2-))
  moreover have "owner_inv d'" using inv(3) by (simp add: owner_inv_def tab)
  moreover have "tree_inv d'"
    unfolding tree_inv_def kset using inv(5) f
    by (auto simp: tab(1) in_row_update tree_inv_def split: if_splits)
  moreover have "achieved_inv d'"
    using inv(6) f achieved
    by (fastforce simp: achieved_inv_def tab in_row_update count_critical_0 split: if_splits)
  ultimately show ?thesis using inv(4) by (simp add: acts_inv_def tab)
qed

lemma commitment_insert_inv:
  assumes "acts_inv d" and c: "c_id c < uuid_next d" "c_id c \<notin> c_id ` set (commitments d)"
    "\<not> active_no_owner c"
    and d': "acts_tables d' = acts_tables (ins_commitment c d)" "uuid_next d \<le> uuid_next d'"
  shows "acts_inv d'"
proof -
  have tab: "goals d' = goals d" "commitments d' = commitments d @ [c]"
    "decisions d' = decisions d" "contributors d' = contributors d"
    "contributes_to d' = contributes_to d" "depends_on d' = depends_on d"
    "constrained_by d' = constrained_by d"
    using d'(1) by (simp_all add: acts_tables_def ins_commitment_def)
  note inv = acts_invD [OF assms(1)]
  have "ids_inv d'" using inv(1) d'(2) c by (fastforce simp: ids_inv_def tab)
  moreover have "refs_inv d'" using inv(2) unfolding refs_inv_def tab by auto
  moreover have "owner_inv d'" using inv(3) c(3) by (auto simp: owner_inv_def tab)
  moreover have "tree_inv d'" using inv(5) by (simp add: tree_inv_def tab)
  moreover have "achieved_inv d'"
    using inv(2,6) c(2) by (auto simp: achieved_inv_def refs_inv_def tab)
  ultimately show ?thesis using inv(4) by (simp add: acts_inv_def tab)
qed

lemma commitment_update_inv:
  assumes "acts_inv d" and f: "\<And>c. c_id (f c) = c_id c"
    and row: "\<And>c. c \<in> set (commitments d) \<Longrightarrow> c_id c = i \<Longrightarrow> \<not> active_no_owner (f c) \<and>
      (c_state c = DoneVerified \<longrightarrow> c_state (f c) = DoneVerified)"
    and d': "acts_tables d' = acts_tables (upd_commitment i f d)" "uuid_next d \<le> uuid_next d'"
  shows "acts_inv d'"
proof -
  have tab: "goals d' = goals d" "commitments d' = row_update c_id i f (commitments d)"
    "decisions d' = decisions d" "contributors d' = contributors d"
    "contributes_to d' = contributes_to d" "depends_on d' = depends_on d"
    "constrained_by d' = constrained_by d"
    using d'(1) by (simp_all add: acts_tables_def upd_commitment_def)
  have keys: "map c_id (commitments d') = map c_id (commitments d)" by (simp add: tab row_simps f)
  then have kset: "c_id ` set (commitments d') = c_id ` set (commitments d)"
    by (metis list.set_map)
  note inv = acts_invD [OF assms(1)]
  have "(\<forall>x \<in> c_id ` set (commitments d'). x < uuid_next d')"
    unfolding kset using inv(1) d'(2) by (auto simp: ids_inv_def)
  then have "ids_inv d'" using inv(1) d'(2) keys
    by (fastforce simp: ids_inv_def tab(1,3-))
  moreover have "refs_inv d'" using inv(2) kset by (auto simp: refs_inv_def tab(1,3-))
  moreover have "owner_inv d'" using inv(3) row
    by (auto simp: owner_inv_def tab in_row_update split: if_splits)
  moreover have "tree_inv d'" using inv(5) by (simp add: tree_inv_def tab)
  moreover have "achieved_inv d'"
    using inv(6) f row
    by (fastforce simp: achieved_inv_def tab in_row_update split: if_splits)
  ultimately show ?thesis using inv(4) by (simp add: acts_inv_def tab)
qed


text \<open>The guard C6 and the insertion into \<open>depends_on\<close> are a guarded graph.\<close>

interpretation dep_graph: guarded_graph "\<lambda>d. set (depends_on d)"
  "\<lambda>d a b. check_c6_depends_on_acyclic d a b = []" ins_depends_on
  by unfold_locales (auto simp: check_c6_Nil ins_depends_on_def set_insert_new)

lemma contributes_insert_inv:
  assumes "acts_inv d" and c: "c \<in> c_id ` set (commitments d)" and g: "g \<in> g_id ` set (goals d)"
    and crit: "k \<Longrightarrow> map_option g_state (sel_goal g d) = Some Achieved \<Longrightarrow>
      (\<forall>r \<in> set (commitments d). c_id r = c \<longrightarrow> c_state r = DoneVerified)"
  shows "acts_inv (ins_contributes_to c g k d)"
proof -
  note inv = acts_invD [OF assms(1)]
  have "achieved_inv (ins_contributes_to c g k d)"
    unfolding achieved_inv_def
  proof (intro ballI impI)
    fix e gl cm
    assume e: "e \<in> set (contributes_to (ins_contributes_to c g k d))"
      and gl: "gl \<in> set (goals (ins_contributes_to c g k d))"
      and cm: "cm \<in> set (commitments (ins_contributes_to c g k d))"
      and hyp: "ct_critical e \<and> g_id gl = ct_goal e \<and> g_state gl = Achieved \<and>
        c_id cm = ct_commitment e"
    have gl': "gl \<in> set (goals d)" and cm': "cm \<in> set (commitments d)"
      using gl cm by (simp_all add: ins_contributes_to_def)
    from e have "e \<in> set (contributes_to d) \<or>
        e = \<lparr>ct_commitment = c, ct_goal = g, ct_critical = k\<rparr>"
      by (auto simp: ins_contributes_to_def set_insert_new split: if_splits)
    then show "c_state cm = DoneVerified"
    proof
      assume "e \<in> set (contributes_to d)"
      with inv(6) gl' cm' hyp show ?thesis unfolding achieved_inv_def by blast
    next
      assume "e = \<lparr>ct_commitment = c, ct_goal = g, ct_critical = k\<rparr>"
      with hyp crit sel_goal_row [OF inv(1) gl'] cm' show ?thesis by auto
    qed
  qed
  moreover have "refs_inv (ins_contributes_to c g k d)"
    using inv(2) c g unfolding refs_inv_def by (auto simp: ins_contributes_to_def set_insert_new)
  ultimately show ?thesis using inv
    by (simp add: acts_inv_def ids_inv_def owner_inv_def tree_inv_def ins_contributes_to_def)
qed

lemma depends_insert_inv:
  assumes "acts_inv d" and "check_c6_depends_on_acyclic d a b = []"
    and ab: "a \<in> c_id ` set (commitments d)" "b \<in> c_id ` set (commitments d)"
  shows "acts_inv (ins_depends_on a b d)"
proof -
  note inv = acts_invD [OF assms(1)]
  have "acyclic (set (depends_on (ins_depends_on a b d)))"
    using dep_graph.add_acyclic [OF inv(4)] assms(2) by simp
  moreover have "refs_inv (ins_depends_on a b d)"
    using inv(2) ab unfolding refs_inv_def by (auto simp: ins_depends_on_def set_insert_new)
  ultimately show ?thesis using inv
    by (simp add: acts_inv_def ids_inv_def owner_inv_def tree_inv_def achieved_inv_def
        ins_depends_on_def)
qed

lemma constrained_insert_inv:
  assumes "acts_inv d" and ab: "a \<in> c_id ` set (commitments d)" "b \<in> d_id ` set (decisions d)"
  shows "acts_inv (ins_constrained_by a b d)"
proof -
  note inv = acts_invD [OF assms(1)]
  have "refs_inv (ins_constrained_by a b d)"
    using inv(2) ab unfolding refs_inv_def by (auto simp: ins_constrained_by_def set_insert_new)
  then show ?thesis using inv
    by (simp add: acts_inv_def ids_inv_def owner_inv_def tree_inv_def achieved_inv_def
        ins_constrained_by_def)
qed

lemma contributors_inv:
  assumes "acts_inv d"
    and "\<And>e. e \<in> set es \<Longrightarrow> cc_commitment e \<in> c_id ` set (commitments d)"
  shows "acts_inv (d\<lparr>contributors := es\<rparr>)"
  using assms by (simp add: acts_inv_defs)

lemma decisions_inv:
  assumes "acts_inv d" and "distinct (map d_id qs)" and "\<forall>q \<in> set qs. d_id q < uuid_next d'"
    and "d_id ` set (decisions d) \<subseteq> d_id ` set qs"
    and "acts_tables d' = acts_tables (d\<lparr>decisions := qs\<rparr>)" and "uuid_next d \<le> uuid_next d'"
  shows "acts_inv d'"
proof -
  have tab: "goals d' = goals d" "commitments d' = commitments d"
    "decisions d' = qs" "contributors d' = contributors d"
    "contributes_to d' = contributes_to d" "depends_on d' = depends_on d"
    "constrained_by d' = constrained_by d"
    using assms(5) by (simp_all add: acts_tables_def)
  note inv = acts_invD [OF assms(1)]
  have "ids_inv d'" using inv(1) assms(2,3,6) by (fastforce simp: ids_inv_def tab)
  moreover have "refs_inv d'" using inv(2) assms(4) unfolding refs_inv_def tab by blast
  ultimately show ?thesis using inv
    by (simp add: acts_inv_def owner_inv_def tree_inv_def achieved_inv_def tab)
qed

section \<open>Every operation keeps the invariant\<close>

lemma can_move_unchanged: "can_move k s t \<Longrightarrow> t \<noteq> s"
  by (auto simp: can_move_def can_transition_def split: option.splits if_splits)

lemma can_move_not_terminal: "can_move k s t \<Longrightarrow> \<not> is_terminal s k"
  by (auto simp: can_move_def can_transition_def split: option.splits if_splits)

lemma keeps_goal_create_inner: "keeps acts_inv (goal_create_inner t de p al sc td ev te)"
proof (rule keepsI)
  fix d r d'
  assume inv: "acts_inv d" and run: "goal_create_inner t de p al sc td ev te d = (r, d')"
  from goal_create_inner_db [OF run] show "acts_inv d'"
  proof
    assume "d' = d"
    with inv show ?thesis by simp
  next
    assume "goal_parent_check p te d = None \<and>
     goals d' = goals d @ [new_goal (uuid_next d) t de p al sc td ev te (db_now d)] \<and>
     commitments d' = commitments d \<and> decisions d' = decisions d \<and>
     contributors d' = contributors d \<and> contributes_to d' = contributes_to d \<and>
     depends_on d' = depends_on d \<and> constrained_by d' = constrained_by d \<and>
     uuid_next d' = Suc (Suc (uuid_next d))"
    then show ?thesis
      by (intro goal_insert_inv [OF inv, of p te "new_goal (uuid_next d) t de p al sc td ev te (db_now d)"])
        (auto simp: new_goal_def acts_tables_def ins_goal_def)
  qed
qed

lemma keeps_goal_transition_inner: "keeps acts_inv (goal_transition_inner i st ev)"
proof (rule keepsI)
  fix d r d'
  assume inv: "acts_inv d" and run: "goal_transition_inner i st ev d = (r, d')"
  from goal_transition_inner_db [OF run] show "acts_inv d'"
  proof (elim disjE exE conjE)
    assume "d' = d"
    with inv show ?thesis by simp
  next
    fix row
    assume check: "goal_transition_check i st row d = None"
      and tab: "goals d' = row_update g_id i (set_goal_state st (db_now d)) (goals d)"
       "commitments d' = commitments d" "decisions d' = decisions d"
       "contributors d' = contributors d" "contributes_to d' = contributes_to d"
       "depends_on d' = depends_on d" "constrained_by d' = constrained_by d"
       "uuid_next d' = Suc (uuid_next d)"
    show ?thesis
      by (rule goal_update_inv [OF inv, of "set_goal_state st (db_now d)" i])
        (use check tab in \<open>auto simp: goal_transition_check_None acts_tables_def upd_goal_def\<close>)
  qed
qed

lemma keeps_decision_create_inner: "keeps acts_inv (decision_create_inner t tx ra st sc rt ev te)"
proof (rule keepsI)
  fix d r d'
  assume inv: "acts_inv d" and run: "decision_create_inner t tx ra st sc rt ev te d = (r, d')"
  let ?q = "new_decision (uuid_next d) t tx ra st sc rt ev te (db_now d)"
  note ids = acts_invD(1) [OF inv]
  show "acts_inv d'"
    by (rule decisions_inv [OF inv, of "decisions d @ [?q]"])
      (use decision_create_inner_db [OF run] ids in
        \<open>auto simp: new_decision_def acts_tables_def ids_inv_def\<close>)
qed

lemma keeps_decision_transition_inner: "keeps acts_inv (decision_transition_inner i st ev)"
proof (rule keepsI)
  fix d r d'
  assume inv: "acts_inv d" and run: "decision_transition_inner i st ev d = (r, d')"
  note ids = acts_invD(1) [OF inv]
  let ?f = "set_decision_state st (db_now d)"
  have keys: "map d_id (row_update d_id i ?f (decisions d)) = map d_id (decisions d)"
    by (simp add: row_simps)
  then have kset: "d_id ` set (row_update d_id i ?f (decisions d)) = d_id ` set (decisions d)"
    by (metis list.set_map)
  have bound: "\<forall>x \<in> d_id ` set (decisions d). x < Suc (uuid_next d)"
    using ids by (auto simp: ids_inv_def)
  from decision_transition_inner_db [OF run] show "acts_inv d'"
  proof (elim disjE exE conjE)
    assume "d' = d"
    with inv show ?thesis by simp
  next
    fix row
    assume tab: "decisions d' = row_update d_id i ?f (decisions d)" "goals d' = goals d"
       "commitments d' = commitments d" "contributors d' = contributors d"
       "contributes_to d' = contributes_to d" "depends_on d' = depends_on d"
       "constrained_by d' = constrained_by d" "uuid_next d' = Suc (uuid_next d)"
    show ?thesis
    proof (rule decisions_inv [OF inv, of "row_update d_id i ?f (decisions d)"])
      show "\<forall>q \<in> set (row_update d_id i ?f (decisions d)). d_id q < uuid_next d'"
        using bound kset tab(8) by (metis image_eqI)
    qed (use tab ids in \<open>auto simp: keys kset acts_tables_def ids_inv_def\<close>)
  qed
qed

subsection \<open>Commitments\<close>

text \<open>What the pre-checks of a creation establish.\<close>

definition input_ok :: "commitment_input \<Rightarrow> bool" where
  "input_ok inp \<longleftrightarrow> (i_initial_state inp \<noteq> Proposed \<longrightarrow> i_owner inp \<noteq> None) \<and>
    (i_initial_state inp \<notin> {Proposed, DoneVerified, Closed} \<longrightarrow>
       i_maintenance inp \<or> i_goals inp \<noteq> []) \<and>
    (i_maintenance inp \<longrightarrow> i_goals inp = [])"

lemma prepare_input_ok:
  "prepare_commitment_create_input m a now = Inr inp \<Longrightarrow> input_ok inp"
  by (auto simp: prepare_commitment_create_input_def input_ok_def Let_def split: if_splits)

lemma effective_state:
  "resolve_effective_initial_state inp d = i_initial_state inp \<or>
   i_initial_state inp = Active \<and> resolve_effective_initial_state inp d = Blocked"
  by (auto simp: resolve_effective_initial_state_def)

definition creating_inv :: "commitment_input \<Rightarrow> uuid \<Rightarrow> act_state \<Rightarrow> db \<Rightarrow> bool" where
  "creating_inv inp cid st d \<longleftrightarrow> acts_inv d \<and>
    (\<exists>c \<in> set (commitments d). c_id c = cid \<and> c_state c = st) \<and>
    (\<forall>item \<in> set (i_goals inp). fst (contributes_to_edge_parts item) \<in> g_id ` set (goals d)) \<and>
    (\<forall>dep \<in> set (i_depends_on inp). dep \<in> c_id ` set (commitments d)) \<and>
    (\<forall>dec \<in> set (i_constrained_by inp). dec \<in> d_id ` set (decisions d))"

lemma creating_contributors:
  "keeps (creating_inv inp cid st) (insert_commitment_contributors cid inp)"
  unfolding insert_commitment_contributors_def
proof (rule keeps_for, clarify)
  fix a role
  show "keeps (creating_inv inp cid st) (modify_tx (\<lambda>d. d\<lparr>contributors := insert_new cc_key
          \<lparr>cc_commitment = cid, cc_actor = a, cc_role = role\<rparr> (contributors d)\<rparr>))"
    by (rule keeps_modify)
      (auto simp: creating_inv_def acts_inv_defs set_insert_new split: if_splits)
qed

lemma creating_goals:
  "keeps (creating_inv inp cid st) (insert_contributes_to_edges cid st inp)"
  unfolding insert_contributes_to_edges_def
proof (rule keeps_for)
  fix item
  assume item: "item \<in> set (i_goals inp)"
  obtain g k where gk: "contributes_to_edge_parts item = (g, k)"
    by (cases "contributes_to_edge_parts item")
  have "keeps (creating_inv inp cid st)
    (bind_tx (check_tx (require_goal_can_accept_critical_path g st k))
      (\<lambda>_. modify_tx (ins_contributes_to cid g k)))"
  proof (rule keeps_check_bind)
    fix d r t
    assume inv: "creating_inv inp cid st d"
      and guard: "require_goal_can_accept_critical_path g st k d = None"
      and run: "modify_tx (ins_contributes_to cid g k) d = (r, t)"
    from run have t: "t = ins_contributes_to cid g k d" by (simp add: tx_simps)
    from inv obtain c where c: "c \<in> set (commitments d)" "c_id c = cid" "c_state c = st"
      by (auto simp: creating_inv_def)
    from inv have ai: "acts_inv d" by (simp add: creating_inv_def)
    have only: "r = c" if "r \<in> set (commitments d)" "c_id r = cid" for r
      using sel_commitment_row [OF acts_invD(1) [OF ai] that(1)]
        sel_commitment_row [OF acts_invD(1) [OF ai] c(1)] that(2) c(2) by simp
    have "acts_inv t" unfolding t
    proof (rule contributes_insert_inv [OF ai])
      show "cid \<in> c_id ` set (commitments d)" using c by auto
      show "g \<in> g_id ` set (goals d)" using inv item gk by (force simp: creating_inv_def)
      show "\<forall>r\<in>set (commitments d). c_id r = cid \<longrightarrow> c_state r = DoneVerified"
        if "k" "map_option g_state (sel_goal g d) = Some Achieved"
        using guard that only c(3)
        by (auto simp: require_goal_can_accept_critical_path_def check_simps)
    qed
    with inv show "creating_inv inp cid st t"
      by (simp add: creating_inv_def t ins_contributes_to_def)
  qed
  then show "keeps (creating_inv inp cid st)
     (let (g, k) = contributes_to_edge_parts item
      in bind_tx (check_tx (require_goal_can_accept_critical_path g st k))
           (\<lambda>_. modify_tx (ins_contributes_to cid g k)))"
    by (simp add: gk)
qed

lemma first_violation_None: "first_violation vs = None \<longleftrightarrow> vs = []"
  by (simp add: first_violation_def split: list.splits)

lemma creating_depends:
  "keeps (creating_inv inp cid st) (insert_depends_on_edges cid inp)"
  unfolding insert_depends_on_edges_def
proof (rule keeps_for, rule keeps_check_bind)
  fix dep d r t
  assume dep: "dep \<in> set (i_depends_on inp)" and inv: "creating_inv inp cid st d"
    and guard: "first_violation (check_c6_depends_on_acyclic d cid dep) = None"
    and run: "modify_tx (ins_depends_on cid dep) d = (r, t)"
  from run have t: "t = ins_depends_on cid dep d" by (simp add: tx_simps)
  have "acts_inv t" unfolding t
    using inv dep guard
    by (intro depends_insert_inv) (auto simp: creating_inv_def first_violation_None)
  with inv show "creating_inv inp cid st t" by (simp add: creating_inv_def t ins_depends_on_def)
qed

lemma creating_constrained:
  "keeps (creating_inv inp cid st) (insert_constrained_by_edges cid inp)"
  unfolding insert_constrained_by_edges_def
proof (rule keeps_for, rule keeps_modify)
  fix dec d
  assume dec: "dec \<in> set (i_constrained_by inp)" and inv: "creating_inv inp cid st d"
  have "acts_inv (ins_constrained_by cid dec d)"
    using inv dec by (intro constrained_insert_inv) (auto simp: creating_inv_def)
  with inv show "creating_inv inp cid st (ins_constrained_by cid dec d)"
    by (simp add: creating_inv_def ins_constrained_by_def)
qed


definition insert_edges :: "uuid \<Rightarrow> act_state \<Rightarrow> commitment_input \<Rightarrow> (db, commitment_row) tx" where
  "insert_edges cid st inp =
    bind_tx (insert_commitment_contributors cid inp) (\<lambda>_.
    bind_tx (insert_contributes_to_edges cid st inp) (\<lambda>_.
    bind_tx (insert_depends_on_edges cid inp) (\<lambda>_.
    bind_tx (insert_constrained_by_edges cid inp) (\<lambda>_.
    bind_tx (modify_tx (\<lambda>d. snd (emit_act_state_change (i_tenant inp) ''commitment''
               cid None st (Some (i_created_by inp)) d))) (\<lambda>_.
      fetch_commitment cid)))))"

lemma bind_insert_commitment:
  "bind_tx (insert_commitment inp cid st) f d =
    bind_tx (check_tx (basis_fkey (i_basis inp)))
      (\<lambda>_ d. f () (ins_commitment (new_commitment inp cid st (db_now d)) d)) d"
  by (simp add: insert_commitment_def bind_tx_def modify_tx_def split: prod.split sum.split)

lemma commitment_create_inner_insert_edges:
  "commitment_create_inner inp =
    bind_tx (check_tx (validate_commitment_create_references inp)) (\<lambda>_ d.
      let cid = uuid_next d; d1 = snd (take_uuid d);
          st = resolve_effective_initial_state inp d1
      in bind_tx (check_tx (basis_fkey (i_basis inp))) (\<lambda>_ d.
           insert_edges cid st inp (ins_commitment (new_commitment inp cid st (db_now d)) d)) d1)"
  by (simp add: commitment_create_inner_def insert_edges_def bind_insert_commitment Let_def
      case_prod_beta)

lemma keeps_fetch: "keeps I (fetch_commitment cid)"
  by (rule keepsI) (auto simp: fetch_commitment_def split: option.splits)

lemma creating_insert_edges: "keeps (creating_inv inp cid st) (insert_edges cid st inp)"
  unfolding insert_edges_def
proof (intro keeps_bind creating_contributors creating_goals creating_depends
    creating_constrained keeps_fetch keeps_modify)
  fix d
  assume inv: "creating_inv inp cid st d"
  let ?d = "snd (emit_act_state_change (i_tenant inp) ''commitment'' cid None st
    (Some (i_created_by inp)) d)"
  have "acts_inv ?d"
  proof (rule acts_inv_frame)
    show "acts_inv d" using inv by (simp add: creating_inv_def)
  qed simp_all
  with inv show "creating_inv inp cid st ?d" by (simp add: creating_inv_def)
qed

lemma required_goal: "require_tenant_goal g te d = None \<Longrightarrow> g \<in> g_id ` set (goals d)"
  by (auto simp: require_tenant_goal_def dest: sel_goal_in split: option.splits)

lemma required_commitment:
  "require_tenant_commitment c te d = None \<Longrightarrow> c \<in> c_id ` set (commitments d)"
  by (auto simp: require_tenant_commitment_def dest: sel_commitment_in split: option.splits)

lemma required_decision:
  "require_tenant_decision q te d = None \<Longrightarrow> q \<in> d_id ` set (decisions d)"
  by (auto simp: require_tenant_decision_def dest: sel_decision_in split: option.splits)

lemma references_exist:
  assumes "validate_commitment_create_references inp d = None"
  shows "\<forall>item \<in> set (i_goals inp). fst (contributes_to_edge_parts item) \<in> g_id ` set (goals d)"
    and "\<forall>dep \<in> set (i_depends_on inp). dep \<in> c_id ` set (commitments d)"
    and "\<forall>dec \<in> set (i_constrained_by inp). dec \<in> d_id ` set (decisions d)"
proof -
  note checks = assms [unfolded validate_commitment_create_references_def then_check_None
      check_all_None]
  show "\<forall>item \<in> set (i_goals inp). fst (contributes_to_edge_parts item) \<in> g_id ` set (goals d)"
    using checks by (blast intro: required_goal)
  show "\<forall>dep \<in> set (i_depends_on inp). dep \<in> c_id ` set (commitments d)"
    using checks by (blast intro: required_commitment)
  show "\<forall>dec \<in> set (i_constrained_by inp). dec \<in> d_id ` set (decisions d)"
    using checks by (blast intro: required_decision)
qed

lemma creating_start:
  assumes inv: "acts_inv d" and ok: "input_ok inp"
    and refs: "validate_commitment_create_references inp d = None"
    and st: "st = resolve_effective_initial_state inp d0"
  shows "creating_inv inp (uuid_next d) st
    (ins_commitment (new_commitment inp (uuid_next d) st now) (snd (take_uuid d)))"
proof -
  let ?c = "new_commitment inp (uuid_next d) st now"
  let ?d1 = "snd (take_uuid d)"
  have inv1: "acts_inv ?d1" by (rule acts_inv_frame [OF inv]) simp_all
  have tab: "commitments ?d1 = commitments d" "goals ?d1 = goals d" "decisions ?d1 = decisions d"
    by (simp_all add: take_uuid_def)
  have own: "\<not> active_no_owner ?c"
    using ok effective_state [of inp d0] unfolding st
    by (auto simp: active_no_owner_def input_ok_def new_commitment_def active_family_def)
  have "acts_inv (ins_commitment ?c ?d1)"
  proof (rule commitment_insert_inv [OF inv1, of ?c])
    show "c_id ?c < uuid_next ?d1" by (simp add: new_commitment_def)
    show "c_id ?c \<notin> c_id ` set (commitments ?d1)"
      using acts_invD(1) [OF inv] by (auto simp: new_commitment_def tab ids_inv_def)
    show "uuid_next ?d1 \<le> uuid_next (ins_commitment ?c ?d1)" by (simp add: ins_commitment_def)
  qed (use own in simp_all)
  moreover have "c_id ?c = uuid_next d" "c_state ?c = st" by (simp_all add: new_commitment_def)
  ultimately show ?thesis
    using references_exist [OF refs] by (simp add: creating_inv_def ins_commitment_def tab)
qed

lemma keeps_commitment_create_inner:
  assumes "input_ok inp"
  shows "keeps acts_inv (commitment_create_inner inp)"
  unfolding commitment_create_inner_insert_edges Let_def
proof (rule keeps_check_bind)
  fix d r t
  let ?st = "resolve_effective_initial_state inp (snd (take_uuid d))"
  assume inv: "acts_inv d" and refs: "validate_commitment_create_references inp d = None"
    and run: "bind_tx (check_tx (basis_fkey (i_basis inp))) (\<lambda>_ d'. insert_edges (uuid_next d) ?st inp
       (ins_commitment (new_commitment inp (uuid_next d) ?st (db_now d')) d')) (snd (take_uuid d)) = (r, t)"
  show "acts_inv t"
  proof (cases "basis_fkey (i_basis inp) (snd (take_uuid d))")
    case None
    with run have "insert_edges (uuid_next d) ?st inp (ins_commitment
        (new_commitment inp (uuid_next d) ?st (db_now (snd (take_uuid d)))) (snd (take_uuid d))) = (r, t)"
      by (simp add: bind_tx_def check_tx_def)
    from keepsD [OF creating_insert_edges creating_start [OF inv assms refs refl] this]
    show ?thesis by (simp add: creating_inv_def)
  next
    case (Some e)
    with run have "t = snd (take_uuid d)" by (simp add: bind_tx_def check_tx_def)
    then show ?thesis by (simp add: acts_inv_frame [OF inv])
  qed
qed

lemma commitment_transition_check_None:
  "commitment_transition_check st res ev row d = None \<longleftrightarrow>
    can_move Commitment (c_state row) st \<and> ev \<noteq> None \<and>
    (st \<in> {Active, Blocked, Paused, DoneUnverified} \<longrightarrow> c_owner row \<noteq> None) \<and>
    (\<forall>owner. c_owner row = Some owner \<longrightarrow> st \<noteq> Closed \<longrightarrow> require_active_actor owner ''owner'' d = None) \<and>
    (st = DoneVerified \<longrightarrow> merge_resolved (c_resolved row) res \<noteq> []) \<and>
    (st = Blocked \<longrightarrow> count_unsatisfied_dependencies d (c_id row) \<noteq> 0 \<or>
       count_revisited_constraining_decisions d (c_id row) \<noteq> 0)"
  by (auto simp: commitment_transition_check_def can_move_def check_simps Let_def case_prod_beta
      split: option.splits)

lemma set_commitment_state_fields [simp]:
  "c_id (set_commitment_state st m b now r) = c_id r"
  "c_tenant (set_commitment_state st m b now r) = c_tenant r"
  "c_state (set_commitment_state st m b now r) = st"
  "c_owner (set_commitment_state st m b now r) = c_owner r"
  "c_due (set_commitment_state st m b now r) = c_due r"
  "c_maintenance (set_commitment_state st m b now r) = c_maintenance r"
  "c_capacity (set_commitment_state st m b now r) = c_capacity r"
  "c_created_at (set_commitment_state st m b now r) = c_created_at r"
  "c_changed_at (set_commitment_state st m b now r) = now"
  "c_ambition (set_commitment_state st m b now r) = c_ambition r"
  "c_resolved (set_commitment_state st m b now r) = m"
  by (simp_all add: set_commitment_state_def)

lemma commitment_transition_inner_db:
  "commitment_transition_inner i st res b ev d = (r, d') \<Longrightarrow> d' = d \<or>
    (\<exists>row. sel_commitment i d = Some row \<and>
     commitment_transition_check st res ev row d = None \<and>
     acts_tables d' = acts_tables (upd_commitment i (set_commitment_state st
       (merge_resolved (c_resolved row) res) (case b of Some b \<Rightarrow> Some b | None \<Rightarrow> c_basis row)
       (db_now d)) d) \<and>
     uuid_next d \<le> uuid_next d')"
  by (auto simp: commitment_transition_inner_def Let_def case_prod_beta upd_commitment_def
      split: option.splits list.splits if_splits)

end
