(* ===== verification/ActsSystem.thy ===== *)
theory ActsSystem
  imports ActsSafety
begin

text \<open>
  The rest of the argument of theory \<open>ActsSafety\<close>: the remaining operations keep
  \<open>acts_inv\<close>, committed operations keep C10, and the transition system \<open>act_step\<close> of all
  committed operations of \<open>services/domain/acts\<close>. The properties at the end hold in every
  state this system reaches from the empty database.
\<close>

section \<open>The remaining operations keep the invariant\<close>

lemma done_verified_stays:
  "can_move Commitment s t \<Longrightarrow> s \<noteq> DoneVerified"
  by (auto dest: can_move_not_terminal simp: is_terminal_def table_defs)

lemma keeps_commitment_transition_inner:
  "keeps acts_inv (commitment_transition_inner i st res b ev)"
proof (rule keepsI)
  fix d r d'
  assume inv: "acts_inv d" and run: "commitment_transition_inner i st res b ev d = (r, d')"
  note ids = acts_invD(1) [OF inv]
  from commitment_transition_inner_db [OF run] show "acts_inv d'"
  proof (elim disjE exE conjE)
    assume "d' = d"
    with inv show ?thesis by simp
  next
    fix row
    assume row: "sel_commitment i d = Some row"
      and check: "commitment_transition_check st res ev row d = None"
      and tab: "acts_tables d' = acts_tables (upd_commitment i (set_commitment_state st
       (merge_resolved (c_resolved row) res) (case b of Some b \<Rightarrow> Some b | None \<Rightarrow> c_basis row)
       (db_now d)) d)" "uuid_next d \<le> uuid_next d'"
    note facts = check [unfolded commitment_transition_check_None]
    show ?thesis
    proof (rule commitment_update_inv [OF inv _ _ tab])
      fix c
      assume c: "c \<in> set (commitments d)" "c_id c = i"
      then have "c = row" using sel_commitment_row [OF ids c(1)] row by simp
      then show "\<not> active_no_owner (set_commitment_state st
          (merge_resolved (c_resolved row) res) (case b of Some b \<Rightarrow> Some b | None \<Rightarrow> c_basis row)
          (db_now d) c) \<and> (c_state c = DoneVerified \<longrightarrow> c_state (set_commitment_state st
          (merge_resolved (c_resolved row) res) (case b of Some b \<Rightarrow> Some b | None \<Rightarrow> c_basis row)
          (db_now d) c) = DoneVerified)"
        using facts done_verified_stays [of "c_state c" st]
        by (auto simp: active_no_owner_def active_family_def)
    qed simp
  qed
qed

lemma keeps_add_contributor_inner: "keeps acts_inv (add_contributor_inner c a role)"
proof (rule keepsI)
  fix d r d'
  assume inv: "acts_inv d" and run: "add_contributor_inner c a role d = (r, d')"
  have known: "\<forall>e \<in> set (contributors d). cc_commitment e \<in> c_id ` set (commitments d)"
    using acts_invD(2) [OF inv] by (simp add: refs_inv_def)
  let ?row = "\<lparr>cc_commitment = c, cc_actor = a, cc_role = role\<rparr>"
  have "d' = d \<or>
    d' = d\<lparr>contributors := row_update cc_key (cc_key ?row) (\<lambda>r. r\<lparr>cc_role := role\<rparr>) (contributors d)\<rparr> \<or>
    (d' = d\<lparr>contributors := contributors d @ [?row]\<rparr> \<and> sel_commitment c d \<noteq> None)"
    using run by (auto simp: add_contributor_inner_def Let_def split: option.splits if_splits)
  then show "acts_inv d'"
  proof (elim disjE conjE)
    assume "d' = d"
    with inv show ?thesis by simp
  next
    assume d': "d' = d\<lparr>contributors := row_update cc_key (cc_key ?row) (\<lambda>r. r\<lparr>cc_role := role\<rparr>)
      (contributors d)\<rparr>"
    show ?thesis unfolding d' using known
      by (intro contributors_inv [OF inv]) (auto simp: in_row_update)
  next
    assume d': "d' = d\<lparr>contributors := contributors d @ [?row]\<rparr>"
      and c: "sel_commitment c d \<noteq> None"
    from c have "c \<in> c_id ` set (commitments d)" by (auto dest: sel_commitment_in)
    then show ?thesis unfolding d' using known by (intro contributors_inv [OF inv]) auto
  qed
qed

lemma keeps_remove_contributor: "keeps acts_inv (remove_contributor c a)"
proof (rule keepsI)
  fix d r d'
  assume inv: "acts_inv d" and run: "remove_contributor c a d = (r, d')"
  have "d' = d\<lparr>contributors := filter (\<lambda>r. \<not> (cc_commitment r = c \<and> cc_actor r = a)) (contributors d)\<rparr>"
    using run by (simp add: remove_contributor_def Let_def)
  then show "acts_inv d'"
    using acts_invD(2) [OF inv] by (auto intro!: contributors_inv [OF inv] simp: refs_inv_def)
qed

lemma keeps_add_contributes_to: "keeps acts_inv (add_contributes_to c g k)"
proof (rule keepsI)
  fix d r d'
  assume inv: "acts_inv d" and run: "add_contributes_to c g k d = (r, d')"
  note ids = acts_invD(1) [OF inv]
  show "acts_inv d'"
  proof (cases "require_contributes_to_allowed c g k d")
    case (Some e)
    with run inv show ?thesis by (simp add: add_contributes_to_def)
  next
    case None
    with run have d': "d' = ins_contributes_to c g k d"
      by (auto simp: add_contributes_to_def Let_def)
    from None obtain cr gr where cr: "sel_commitment c d = Some cr" and gr: "sel_goal g d = Some gr"
      and guard: "\<not> (k \<and> g_state gr = Achieved \<and> c_state cr \<noteq> DoneVerified)"
      by (auto simp: require_contributes_to_allowed_def check_simps split: option.splits if_splits)
    have only: "r = cr" if "r \<in> set (commitments d)" "c_id r = c" for r
      using sel_commitment_row [OF ids that(1)] that(2) cr by simp
    show ?thesis unfolding d'
    proof (rule contributes_insert_inv [OF inv])
      show "c \<in> c_id ` set (commitments d)" using cr by (auto dest: sel_commitment_in)
      show "g \<in> g_id ` set (goals d)" using gr by (auto dest: sel_goal_in)
      show "\<forall>r\<in>set (commitments d). c_id r = c \<longrightarrow> c_state r = DoneVerified"
        if "k" "map_option g_state (sel_goal g d) = Some Achieved"
        using guard gr that only by auto
    qed
  qed
qed

lemma keeps_add_depends_on: "keeps acts_inv (add_depends_on a b)"
proof (rule keepsI)
  fix d r d'
  assume inv: "acts_inv d" and run: "add_depends_on a b d = (r, d')"
  have "d' = d \<or> (d' = ins_depends_on a b d \<and> check_c6_depends_on_acyclic d a b = [] \<and>
      sel_commitment a d \<noteq> None \<and> sel_commitment b d \<noteq> None)"
    using run by (auto simp: add_depends_on_def first_violation_None split: option.splits if_splits)
  then show "acts_inv d'"
    using inv by (auto intro!: depends_insert_inv dest: sel_commitment_in)
qed

lemma keeps_add_constrained_by: "keeps acts_inv (add_constrained_by a b)"
proof (rule keepsI)
  fix d r d'
  assume inv: "acts_inv d" and run: "add_constrained_by a b d = (r, d')"
  have "d' = d \<or> (d' = ins_constrained_by a b d \<and>
      sel_commitment a d \<noteq> None \<and> sel_decision b d \<noteq> None)"
    using run by (auto simp: add_constrained_by_def split: if_splits)
  then show "acts_inv d'"
    using inv by (auto intro!: constrained_insert_inv dest: sel_commitment_in sel_decision_in)
qed

lemma keeps_error: "keeps I (\<lambda>d. (Inl e, d))"
  by (rule keepsI) simp

lemma add_edge_inner_cases:
  assumes "\<And>e. P (\<lambda>d. (Inl e, d))" and "\<And>c g k. P (add_contributes_to c g k)"
    and "\<And>a b. P (add_depends_on a b)" and "\<And>c q. P (add_constrained_by c q)"
  shows "P (add_edge_inner kind args)"
proof (cases kind)
  case EContributesTo
  then have "add_edge_inner kind args = (case (e_commitment args, e_goal args) of
      (Some c, Some g) \<Rightarrow> add_contributes_to c g (e_critical args)
    | _ \<Rightarrow> (\<lambda>d. (Inl (ValidationError ''contributes_to requires commitment_id and goal_id''), d)))"
    by (auto simp: add_edge_inner_def split: option.splits)
  then show ?thesis using assms by (simp split: option.splits)
next
  case EDependsOn
  then have "add_edge_inner kind args = (case (e_dependent args, e_dependency args) of
      (Some c, Some g) \<Rightarrow> add_depends_on c g
    | _ \<Rightarrow> (\<lambda>d. (Inl (ValidationError
         ''depends_on requires dependent_commitment_id and dependency_commitment_id''), d)))"
    by (auto simp: add_edge_inner_def split: option.splits)
  then show ?thesis using assms by (simp split: option.splits)
next
  case EConstrainedBy
  then have "add_edge_inner kind args = (case (e_commitment args, e_decision args) of
      (Some c, Some g) \<Rightarrow> add_constrained_by c g
    | _ \<Rightarrow> (\<lambda>d. (Inl (ValidationError ''constrained_by requires commitment_id and decision_id''), d)))"
    by (auto simp: add_edge_inner_def split: option.splits)
  then show ?thesis using assms by (simp split: option.splits)
next
  case (UnknownEdge k)
  then have "add_edge_inner kind args =
      (\<lambda>d. (Inl (ValidationError (''unknown edge kind: '' @ py_repr k)), d))"
    by (auto simp: add_edge_inner_def)
  then show ?thesis using assms by simp
qed

lemma keeps_add_edge_inner: "keeps acts_inv (add_edge_inner kind args)"
  by (rule add_edge_inner_cases)
    (rule keeps_error keeps_add_contributes_to keeps_add_depends_on keeps_add_constrained_by)+

lemma keeps_commitment_create: "keeps acts_inv (commitment_create m a conn)"
proof (rule keepsI)
  fix d r d'
  assume inv: "acts_inv d" and run: "commitment_create m a conn d = (r, d')"
  show "acts_inv d'"
  proof (cases "prepare_commitment_create_input m a (py_now d)")
    case (Inl e)
    with run inv show ?thesis by (simp add: commitment_create_def)
  next
    case (Inr inp)
    with run have "run_op conn (commitment_create_inner inp) d = (r, d')"
      by (simp add: commitment_create_def)
    then show ?thesis
      by (rule keepsD [OF keeps_run_op [OF keeps_commitment_create_inner [OF prepare_input_ok [OF Inr]]] inv])
  qed
qed

lemma keeps_goal_create: "keeps acts_inv (goal_create t de p al sc td ev te conn)"
  using keepsD [OF keeps_run_op [OF keeps_goal_create_inner]]
  by (intro keepsI) (auto simp: goal_create_def split: if_splits)

lemma keeps_decision_create: "keeps acts_inv (decision_create t tx ra st sc rt ev te conn)"
  using keepsD [OF keeps_run_op [OF keeps_decision_create_inner]]
  by (intro keepsI) (auto simp: decision_create_def split: if_splits)

lemma keeps_recompute: "acts_inv d \<Longrightarrow> acts_inv (snd (recompute_cached_health i d))"
  by (rule goal_update_inv [where i = i and d = d and
        f = "\<lambda>r. r\<lparr>g_health := compute_worst_of_health d i, g_health_at := Some (db_now d)\<rparr>"])
    (auto simp: recompute_cached_health_def Let_def upd_goal_def)

section \<open>C10 and known states\<close>

definition c10_ok :: "db \<Rightarrow> commitment_row \<Rightarrow> bool" where
  "c10_ok d c \<longleftrightarrow> c_state c \<in> {Proposed, DoneVerified, Closed} \<or> c_maintenance c \<or>
    capacity_maintenance (c_capacity c) \<or> (\<exists>e \<in> set (contributes_to d). ct_commitment e = c_id c)"

definition c10_inv :: "db \<Rightarrow> bool" where
  "c10_inv d \<longleftrightarrow> (\<forall>c \<in> set (commitments d). c10_ok d c)"

definition known_inv :: "db \<Rightarrow> bool" where
  "known_inv d \<longleftrightarrow> (\<forall>g \<in> set (goals d). g_state g \<in> set GoalState) \<and>
    (\<forall>c \<in> set (commitments d). c_state c \<in> set CommitmentState) \<and>
    (\<forall>q \<in> set (decisions d). d_state q \<in> set DecisionState)"

definition sys_inv :: "db \<Rightarrow> bool" where
  "sys_inv d \<longleftrightarrow> acts_inv d \<and> c10_inv d \<and> known_inv d"

text \<open>How a table's rows follow their state machine from one state to the next.\<close>

definition evolves ::
  "('r \<Rightarrow> uuid) \<Rightarrow> ('r \<Rightarrow> act_state) \<Rightarrow> act_kind \<Rightarrow> 'r list \<Rightarrow> 'r list \<Rightarrow> bool" where
  "evolves key st k t t' \<longleftrightarrow> (\<forall>r \<in> set t. \<exists>r' \<in> set t'. key r' = key r \<and>
    (st r' = st r \<or> can_move k (st r) (st r')))"

lemma evolves_refl [simp]: "evolves key st k t t"
  by (auto simp: evolves_def)

lemma evolves_append [simp]: "evolves key st k t (t @ u)"
  by (auto simp: evolves_def)

lemma evolves_update:
  assumes "\<And>r. key (f r) = key r"
    and "\<And>r. r \<in> set t \<Longrightarrow> key r = i \<Longrightarrow> st (f r) = st r \<or> can_move k (st r) (st (f r))"
  shows "evolves key st k t (row_update key i f t)"
  unfolding evolves_def
proof
  fix r
  assume r: "r \<in> set t"
  let ?r = "if key r = i then f r else r"
  have "?r \<in> set (row_update key i f t)" using r by (auto simp: set_row_update)
  moreover have "key ?r = key r \<and> (st ?r = st r \<or> can_move k (st r) (st ?r))"
    using assms(1) [of r] assms(2) [OF r] by simp
  ultimately show "\<exists>r' \<in> set (row_update key i f t). key r' = key r \<and>
      (st r' = st r \<or> can_move k (st r) (st r'))" by blast
qed

definition advances :: "db \<Rightarrow> db \<Rightarrow> bool" where
  "advances d d' \<longleftrightarrow> evolves g_id g_state Goal (goals d) (goals d') \<and>
    evolves c_id c_state Commitment (commitments d) (commitments d') \<and>
    evolves d_id d_state Decision (decisions d) (decisions d')"

text \<open>Changes that leave the acts alone and only add \<open>contributes_to\<close> edges.\<close>

definition edges_only :: "db \<Rightarrow> db \<Rightarrow> bool" where
  "edges_only d d' \<longleftrightarrow> goals d' = goals d \<and> commitments d' = commitments d \<and>
    decisions d' = decisions d \<and> set (contributes_to d) \<subseteq> set (contributes_to d')"

lemma c10_mono:
  assumes "c10_inv d" and "commitments d' = commitments d"
    and "set (contributes_to d) \<subseteq> set (contributes_to d')"
  shows "c10_inv d'"
  using assms by (fastforce simp: c10_inv_def c10_ok_def)

lemma edges_only_step:
  "sys_inv d \<Longrightarrow> edges_only d d' \<Longrightarrow> acts_inv d' \<Longrightarrow> sys_inv d' \<and> advances d d'"
  using c10_mono [of d d'] by (auto simp: sys_inv_def edges_only_def known_inv_def advances_def)

lemma add_contributor_edges_only: "add_contributor_inner c a role d = (r, d') \<Longrightarrow> edges_only d d'"
  by (auto simp: add_contributor_inner_def edges_only_def Let_def split: option.splits if_splits)

lemma remove_contributor_edges_only: "remove_contributor c a d = (r, d') \<Longrightarrow> edges_only d d'"
  by (auto simp: remove_contributor_def edges_only_def Let_def)

lemma add_contributes_to_edges_only: "add_contributes_to c g k d = (r, d') \<Longrightarrow> edges_only d d'"
  by (auto simp: add_contributes_to_def edges_only_def Let_def ins_contributes_to_def
      set_insert_new split: option.splits if_splits)

lemma add_depends_on_edges_only: "add_depends_on a b d = (r, d') \<Longrightarrow> edges_only d d'"
  by (auto simp: add_depends_on_def edges_only_def ins_depends_on_def split: option.splits if_splits)

lemma add_constrained_by_edges_only: "add_constrained_by a b d = (r, d') \<Longrightarrow> edges_only d d'"
  by (auto simp: add_constrained_by_def edges_only_def ins_constrained_by_def split: if_splits)

lemma add_edge_edges_only: "add_edge_inner kind args d = (r, d') \<Longrightarrow> edges_only d d'"
proof -
  have "\<forall>d r d'. add_edge_inner kind args d = (r, d') \<longrightarrow> edges_only d d'"
    by (rule add_edge_inner_cases)
      (auto simp: edges_only_def [of _ _, THEN iffD2]
        dest: add_contributes_to_edges_only add_depends_on_edges_only add_constrained_by_edges_only
        intro: edges_only_def [THEN iffD2])
  then show "add_edge_inner kind args d = (r, d') \<Longrightarrow> edges_only d d'" by blast
qed

subsection \<open>Creating a commitment\<close>

lemma insert_edges_mono:
  "keeps (\<lambda>d. goals d = gs \<and> commitments d = cs \<and> decisions d = qs \<and> E \<subseteq> set (contributes_to d))
     (insert_commitment_contributors cid inp)"
  "keeps (\<lambda>d. goals d = gs \<and> commitments d = cs \<and> decisions d = qs \<and> E \<subseteq> set (contributes_to d))
     (insert_contributes_to_edges cid st inp)"
  "keeps (\<lambda>d. goals d = gs \<and> commitments d = cs \<and> decisions d = qs \<and> E \<subseteq> set (contributes_to d))
     (insert_depends_on_edges cid inp)"
  "keeps (\<lambda>d. goals d = gs \<and> commitments d = cs \<and> decisions d = qs \<and> E \<subseteq> set (contributes_to d))
     (insert_constrained_by_edges cid inp)"
  unfolding insert_commitment_contributors_def insert_contributes_to_edges_def
    insert_depends_on_edges_def insert_constrained_by_edges_def
  by (auto intro!: keeps_for keeps_bind keeps_check keeps_modify split: prod.splits
      simp: Let_def ins_contributes_to_def ins_depends_on_def ins_constrained_by_def
        set_insert_new) blast+

lemma insert_edges_rest:
  "keeps (\<lambda>d. goals d = gs \<and> commitments d = cs \<and> decisions d = qs \<and> E \<subseteq> set (contributes_to d))
    (insert_edges cid st inp)"
  unfolding insert_edges_def
  by (intro keeps_bind insert_edges_mono keeps_modify keeps_fetch) simp

lemma insert_contributes_establishes:
  assumes "insert_contributes_to_edges cid st inp d = (Inr u, d')" and "i_goals inp \<noteq> []"
  shows "\<exists>e \<in> set (contributes_to d'). ct_commitment e = cid"
proof -
  obtain x where x: "x \<in> set (i_goals inp)" using assms(2) by (cases "i_goals inp") auto
  show ?thesis
    using assms(1) unfolding insert_contributes_to_edges_def
    by (rule for_tx_establishes [where Q = "\<lambda>_ d. \<exists>e \<in> set (contributes_to d). ct_commitment e = cid",
          OF _ x])
      (force simp: tx_simps Let_def case_prod_beta ins_contributes_to_def set_insert_new ct_key_def)+
qed

lemma insert_edges_edge:
  assumes "insert_edges cid st inp d = (Inr r, d')" and "i_goals inp \<noteq> []"
  shows "\<exists>e \<in> set (contributes_to d'). ct_commitment e = cid"
proof -
  from assms(1) obtain u v d1 d2 where
    goals: "insert_contributes_to_edges cid st inp d1 = (Inr u, d2)" and
    rest: "bind_tx (insert_depends_on_edges cid inp) (\<lambda>_.
      bind_tx (insert_constrained_by_edges cid inp) (\<lambda>_.
      bind_tx (modify_tx (\<lambda>d. snd (emit_act_state_change (i_tenant inp) ''commitment''
               cid None st (Some (i_created_by inp)) d))) (\<lambda>_.
        fetch_commitment cid))) d2 = (Inr r, d')"
    unfolding insert_edges_def bind_tx_Inr [of "insert_commitment_contributors cid inp"]
      bind_tx_Inr [of "insert_contributes_to_edges cid st inp"] by blast
  from insert_contributes_establishes [OF goals assms(2)] obtain e where
    e: "e \<in> set (contributes_to d2)" "ct_commitment e = cid" by blast
  have "keeps (\<lambda>d. goals d = goals d2 \<and> commitments d = commitments d2 \<and>
      decisions d = decisions d2 \<and> {e} \<subseteq> set (contributes_to d))
    (bind_tx (insert_depends_on_edges cid inp) (\<lambda>_.
      bind_tx (insert_constrained_by_edges cid inp) (\<lambda>_.
      bind_tx (modify_tx (\<lambda>d. snd (emit_act_state_change (i_tenant inp) ''commitment''
               cid None st (Some (i_created_by inp)) d))) (\<lambda>_.
        fetch_commitment cid))))"
    by (intro keeps_bind insert_edges_mono keeps_modify keeps_fetch) simp
  from keepsD [OF this _ rest] e show ?thesis by auto
qed

lemma fetch_Inr:
  "fetch_commitment cid d = (Inr r, d') \<Longrightarrow> d' = d \<and> sel_commitment cid d = Some r \<and>
    c_state r \<in> set CommitmentState \<and> c_ambition r \<in> set AmbitionLevel"
  by (auto simp: fetch_commitment_def commitment_row_validate_def split: option.splits if_splits)

lemma insert_edges_row:
  assumes "insert_edges cid st inp d = (Inr r, d')"
  shows "sel_commitment cid d' = Some r \<and> c_state r \<in> set CommitmentState \<and>
    c_ambition r \<in> set AmbitionLevel"
  using assms unfolding insert_edges_def by (auto simp: bind_tx_Inr dest: fetch_Inr)

subsection \<open>Committed operations\<close>

lemma commitment_create_step:
  assumes sys: "sys_inv d" and run: "commitment_create m a conn d = (Inr r, d')"
  shows "sys_inv d' \<and> advances d d' \<and> r \<in> set (commitments d') \<and>
    commitments d' = commitments d @ [r] \<and> c_ambition r \<in> set AmbitionLevel"
proof -
  from run obtain inp where prep: "prepare_commitment_create_input m a (py_now d) = Inr inp"
    and inner: "commitment_create_inner inp d = (Inr r, d')"
    by (auto simp: commitment_create_def split: sum.splits dest: run_op_Inr)
  note ok = prepare_input_ok [OF prep]
  let ?d1 = "snd (take_uuid d)"
  let ?st = "resolve_effective_initial_state inp ?d1"
  let ?c = "new_commitment inp (uuid_next d) ?st (db_now ?d1)"
  let ?d2 = "ins_commitment ?c ?d1"
  from inner have rest: "insert_edges (uuid_next d) ?st inp ?d2 = (Inr r, d')"
    unfolding commitment_create_inner_insert_edges by (auto simp: tx_simps Let_def)
  have inv: "acts_inv d'"
    using keepsD [OF keeps_commitment_create_inner [OF ok] _ inner] sys by (simp add: sys_inv_def)
  have tab: "goals d' = goals ?d2" "commitments d' = commitments ?d2" "decisions d' = decisions ?d2"
    "set (contributes_to ?d2) \<subseteq> set (contributes_to d')"
    using keepsD [OF insert_edges_rest [of "goals ?d2" "commitments ?d2" "decisions ?d2"
        "set (contributes_to ?d2)"] _ rest] by simp_all
  have d2: "goals ?d2 = goals d" "commitments ?d2 = commitments d @ [?c]" "decisions ?d2 = decisions d"
    "contributes_to ?d2 = contributes_to d"
    by (simp_all add: take_uuid_def ins_commitment_def)
  note row = insert_edges_row [OF rest]
  have "r \<in> set (commitments d')" "c_id r = uuid_next d"
    using row by (auto dest: sel_commitment_in)
  moreover have "?c \<in> set (commitments d')" "c_id ?c = uuid_next d"
    using tab d2 by (auto simp: new_commitment_def)
  ultimately have r: "r = ?c"
    using sel_commitment_row [OF acts_invD(1) [OF inv], of ?c] row by simp
  have "c10_ok d' ?c"
  proof (cases "i_goals inp = []")
    case False
    with insert_edges_edge [OF rest] show ?thesis by (auto simp: c10_ok_def new_commitment_def)
  next
    case True
    with ok effective_state [of inp ?d1] show ?thesis
      by (auto simp: c10_ok_def new_commitment_def input_ok_def)
  qed
  moreover have "c10_ok d' c" if "c \<in> set (commitments d)" for c
    using sys that tab(4) d2(4) by (fastforce simp: sys_inv_def c10_inv_def c10_ok_def)
  ultimately have "c10_inv d'" by (auto simp: c10_inv_def tab d2)
  moreover have "known_inv d'"
    using sys row r by (auto simp: sys_inv_def known_inv_def tab d2)
  ultimately show ?thesis
    using inv row r \<open>r \<in> set (commitments d')\<close> by (simp add: sys_inv_def advances_def tab d2)
qed

lemma transition_check_known:
  "can_move k s t \<Longrightarrow> act_known k t"
proof -
  assume "can_move k s t"
  then show ?thesis
    by (cases k; cases s) (auto simp: can_move_def can_transition_def act_known_def table_defs split: if_splits)
qed

lemma known_states:
  "act_known Goal s \<longleftrightarrow> s \<in> set GoalState" "act_known Commitment s \<longleftrightarrow> s \<in> set CommitmentState"
  "act_known Decision s \<longleftrightarrow> s \<in> set DecisionState"
  by (cases s; auto simp: act_known_def table_defs GoalState_def CommitmentState_def DecisionState_def)+

lemma commitment_transition_step:
  assumes sys: "sys_inv d" and run: "commitment_transition_inner i st res b ev d = (Inr r, d')"
  shows "sys_inv d' \<and> advances d d'"
proof -
  note ids = acts_invD(1) [OF sys [unfolded sys_inv_def, THEN conjunct1]]
  have inv: "acts_inv d'"
    using keepsD [OF keeps_commitment_transition_inner _ run] sys by (simp add: sys_inv_def)
  obtain row where row: "sel_commitment i d = Some row"
    and check: "commitment_transition_check st res ev row d = None" and fkey: "basis_fkey b d = None"
    using run by (auto simp: commitment_transition_inner_def split: option.splits)
  define f where "f = set_commitment_state st (merge_resolved (c_resolved row) res)
    (case b of Some b \<Rightarrow> Some b | None \<Rightarrow> c_basis row) (db_now d)"
  have run': "(if st \<in> {Active, Blocked, Paused, DoneUnverified}
      then check_c10_contributes_or_maintenance (upd_commitment i f d) i else []) = [] \<and>
      acts_tables d' = acts_tables (upd_commitment i f d)"
    using run row check fkey
    by (auto simp: commitment_transition_inner_def Let_def case_prod_beta f_def
        split: list.splits if_splits)
  have move: "can_move Commitment (c_state row) st" using check
    by (simp add: commitment_transition_check_None)
  have f: "c_id (f c) = c_id c" "c_state (f c) = st" "c_maintenance (f c) = c_maintenance c"
    "c_capacity (f c) = c_capacity c" for c
    by (simp_all add: f_def)
  have tab: "goals d' = goals d" "commitments d' = row_update c_id i f (commitments d)"
    "decisions d' = decisions d" "contributes_to d' = contributes_to d"
    using run' by (simp_all add: acts_tables_def upd_commitment_def)
  have only: "c = row" if "c \<in> set (commitments d)" "c_id c = i" for c
    using sel_commitment_row [OF ids that(1)] that(2) row by simp
  have sel': "sel_commitment i (upd_commitment i f d) = Some (f row)"
    using commitment_store.sel_upd [of f i i d] f(1) row by simp
  have "c10_ok d' (f row)"
    using run' f(2) [of row] tab(4) move sel' transition_check_known [OF move, unfolded known_states]
    by (auto simp: check_c10_contributes_or_maintenance_def c10_ok_def upd_commitment_def
        CommitmentState_def f(1) filter_empty_conv sel_commitment_in [OF row] split: if_splits)
  have "c10_inv d'"
    unfolding c10_inv_def
  proof
    fix c
    assume "c \<in> set (commitments d')"
    then obtain q where q: "q \<in> set (commitments d)" "c = (if c_id q = i then f q else q)"
      unfolding tab in_row_update by blast
    have "c10_ok d q" using sys q(1) by (simp add: sys_inv_def c10_inv_def)
    then show "c10_ok d' c"
      using \<open>c10_ok d' (f row)\<close> q only [OF q(1)] by (cases "c_id q = i") (auto simp: c10_ok_def tab)
  qed
  moreover have "known_inv d'"
    using sys f(2) transition_check_known [OF move, unfolded known_states]
    by (auto simp: known_inv_def sys_inv_def tab in_row_update)
  moreover have "advances d d'"
    unfolding advances_def tab
    by (intro conjI evolves_refl evolves_update) (use move only f in auto)
  ultimately show ?thesis using inv by (simp add: sys_inv_def)
qed

lemma goal_create_step:
  assumes sys: "sys_inv d" and run: "goal_create_inner t de p al sc td ev te d = (r, d')"
  shows "sys_inv d' \<and> advances d d'"
proof -
  have inv: "acts_inv d'"
    using keepsD [OF keeps_goal_create_inner _ run] sys by (simp add: sys_inv_def)
  from goal_create_inner_db [OF run] sys c10_mono [of d d'] inv show ?thesis
    by (auto simp: sys_inv_def known_inv_def advances_def new_goal_def GoalState_def)
qed

lemma goal_transition_step:
  assumes sys: "sys_inv d" and run: "goal_transition_inner i st ev d = (r, d')"
  shows "sys_inv d' \<and> advances d d'"
proof -
  note ids = acts_invD(1) [OF sys [unfolded sys_inv_def, THEN conjunct1]]
  have inv: "acts_inv d'"
    using keepsD [OF keeps_goal_transition_inner _ run] sys by (simp add: sys_inv_def)
  from goal_transition_inner_db [OF run] show ?thesis
  proof (elim disjE exE conjE)
    assume "d' = d"
    with sys show ?thesis by (simp add: advances_def)
  next
    fix row
    assume row: "sel_goal i d = Some row" and check: "goal_transition_check i st row d = None"
      and tab: "goals d' = row_update g_id i (set_goal_state st (db_now d)) (goals d)"
       "commitments d' = commitments d" "decisions d' = decisions d"
       "contributes_to d' = contributes_to d"
    have move: "can_move Goal (g_state row) st" using check
      by (simp add: goal_transition_check_None)
    have only: "g = row" if "g \<in> set (goals d)" "g_id g = i" for g
      using sel_goal_row [OF ids that(1)] that(2) row by simp
    have "known_inv d'"
      using sys transition_check_known [OF move, unfolded known_states]
      by (auto simp: known_inv_def sys_inv_def tab in_row_update)
    moreover have "advances d d'"
      unfolding advances_def tab
      by (intro conjI evolves_refl evolves_update) (use move only in auto)
    moreover have "c10_inv d'" using sys tab c10_mono [of d d'] by (simp add: sys_inv_def)
    ultimately show ?thesis using inv by (simp add: sys_inv_def)
  qed
qed

lemma recompute_step:
  assumes "sys_inv d"
  shows "sys_inv (snd (recompute_cached_health i d)) \<and> advances d (snd (recompute_cached_health i d))"
  using assms keeps_recompute [of d i] c10_mono [of d "snd (recompute_cached_health i d)"]
  by (auto simp: sys_inv_def recompute_cached_health_def Let_def upd_goal_def known_inv_def
      in_row_update advances_def intro!: evolves_update)

lemma decision_create_step:
  assumes sys: "sys_inv d" and run: "decision_create_inner t tx ra st sc rt ev te d = (Inr r, d')"
  shows "sys_inv d' \<and> advances d d'"
proof -
  have inv: "acts_inv d'"
    using keepsD [OF keeps_decision_create_inner _ run] sys by (simp add: sys_inv_def)
  have "st \<in> set DecisionState"
    using run by (auto simp: decision_create_inner_def Let_def case_prod_beta
        decision_row_validate_def new_decision_def split: if_splits)
  then show ?thesis
    using decision_create_inner_db [OF run] sys c10_mono [of d d'] inv
    by (auto simp: sys_inv_def known_inv_def advances_def new_decision_def)
qed

lemma decision_transition_step:
  assumes sys: "sys_inv d" and run: "decision_transition_inner i st ev d = (r, d')"
  shows "sys_inv d' \<and> advances d d'"
proof -
  note ids = acts_invD(1) [OF sys [unfolded sys_inv_def, THEN conjunct1]]
  have inv: "acts_inv d'"
    using keepsD [OF keeps_decision_transition_inner _ run] sys by (simp add: sys_inv_def)
  from decision_transition_inner_db [OF run] show ?thesis
  proof (elim disjE exE conjE)
    assume "d' = d"
    with sys show ?thesis by (simp add: advances_def)
  next
    fix row
    assume row: "sel_decision i d = Some row" and move: "can_move Decision (d_state row) st"
      and tab: "decisions d' = row_update d_id i (set_decision_state st (db_now d)) (decisions d)"
       "goals d' = goals d" "commitments d' = commitments d" "contributes_to d' = contributes_to d"
    have only: "g = row" if "g \<in> set (decisions d)" "d_id g = i" for g
      using row_at_in [of g "decisions d" d_id i row] ids that row
      by (simp add: ids_inv_def sel_decision_def)
    have "known_inv d'"
      using sys transition_check_known [OF move, unfolded known_states]
      by (auto simp: known_inv_def sys_inv_def tab in_row_update)
    moreover have "advances d d'"
      unfolding advances_def tab
      by (intro conjI evolves_refl evolves_update) (use move only in auto)
    moreover have "c10_inv d'" using sys tab c10_mono [of d d'] by (simp add: sys_inv_def)
    ultimately show ?thesis using inv by (simp add: sys_inv_def)
  qed
qed

end
