(* ===== verification/ActsReach.thy ===== *)
theory ActsReach
  imports ActsSystem
begin

text \<open>
  The transition system of all committed operations of \<open>services/domain/acts\<close>, and what
  holds in the states it reaches from the empty database.
\<close>

section \<open>The system\<close>

text \<open>
  One step is one call of a public operation that returned (with a connection of the caller's,
  or in a transaction of its own), or any change of the rest of the database: other tables,
  actors, clocks, identifiers drawn by others.
\<close>

inductive act_step :: "db \<Rightarrow> db \<Rightarrow> bool" where
  goal_create: "goal_create t de p al sc td ev te conn d = (Inr g, d') \<Longrightarrow> act_step d d'"
| goal_transition: "goal_transition i st ev conn d = (Inr g, d') \<Longrightarrow> act_step d d'"
| goal_health: "recompute_cached_health i d = (h, d') \<Longrightarrow> act_step d d'"
| decision_create: "decision_create t tx ra st sc rt ev te conn d = (Inr q, d') \<Longrightarrow> act_step d d'"
| decision_transition: "decision_transition i st ev conn d = (Inr q, d') \<Longrightarrow> act_step d d'"
| commitment_create: "commitment_create m a conn d = (Inr c, d') \<Longrightarrow> act_step d d'"
| commitment_transition:
    "commitment_transition i st res b ev conn d = (Inr c, d') \<Longrightarrow> act_step d d'"
| add_contributor: "add_contributor i a role conn d = (Inr cc, d') \<Longrightarrow> act_step d d'"
| remove_contributor: "remove_contributor i a d = (Inr n, d') \<Longrightarrow> act_step d d'"
| add_edge: "add_edge kind args conn d = (Inr e, d') \<Longrightarrow> act_step d d'"
| elsewhere: "acts_tables d' = acts_tables d \<Longrightarrow> uuid_next d \<le> uuid_next d' \<Longrightarrow> act_step d d'"

lemma act_step_inv:
  assumes "act_step d d'" and sys: "sys_inv d"
  shows "sys_inv d' \<and> advances d d'"
  using assms(1)
proof cases
  case (goal_create t de p al sc td ev te conn g)
  then show ?thesis
    by (auto simp: goal_create_def split: if_splits dest!: run_op_Inr goal_create_step [OF sys])
next
  case (goal_transition i st ev conn g)
  then show ?thesis
    by (auto simp: goal_transition_def dest!: run_op_Inr goal_transition_step [OF sys])
next
  case (goal_health i h)
  then show ?thesis using recompute_step [OF sys, of i] by simp
next
  case (decision_create t tx ra st sc rt ev te conn q)
  then show ?thesis
    by (auto simp: decision_create_def split: if_splits dest!: run_op_Inr decision_create_step [OF sys])
next
  case (decision_transition i st ev conn q)
  then show ?thesis
    by (auto simp: decision_transition_def dest!: run_op_Inr decision_transition_step [OF sys])
next
  case (commitment_create m a conn c)
  then show ?thesis using commitment_create_step [OF sys] by blast
next
  case (commitment_transition i st res b ev conn c)
  then show ?thesis
    by (auto simp: commitment_transition_def dest!: run_op_Inr commitment_transition_step [OF sys])
next
  case (add_contributor i a role conn cc)
  then have run: "add_contributor_inner i a role d = (Inr cc, d')"
    by (auto simp: add_contributor_def dest: run_op_Inr)
  show ?thesis
    using keepsD [OF keeps_add_contributor_inner _ run] sys
      edges_only_step [OF sys add_contributor_edges_only [OF run]] by (simp add: sys_inv_def)
next
  case (remove_contributor i a n)
  then show ?thesis
    using keepsD [OF keeps_remove_contributor _ remove_contributor] sys
      edges_only_step [OF sys remove_contributor_edges_only [OF remove_contributor]]
    by (simp add: sys_inv_def)
next
  case (add_edge kind args conn e)
  then have run: "add_edge_inner kind args d = (Inr e, d')"
    by (auto simp: add_edge_def dest: run_op_Inr)
  show ?thesis
    using keepsD [OF keeps_add_edge_inner _ run] sys
      edges_only_step [OF sys add_edge_edges_only [OF run]] by (simp add: sys_inv_def)
next
  case elsewhere
  then have "acts_inv d'" using sys by (intro acts_inv_frame [of d d']) (auto simp: sys_inv_def)
  then show ?thesis
    using sys elsewhere(1) edges_only_step [OF sys, of d']
    by (simp add: acts_tables_def edges_only_def)
qed

lemma empty_db_inv: "sys_inv empty_db"
  by (simp add: sys_inv_def acts_inv_defs c10_inv_def known_inv_def empty_db_def acyclic_def)

lemma reachable_inv: "act_step\<^sup>*\<^sup>* d d' \<Longrightarrow> sys_inv d \<Longrightarrow> sys_inv d'"
  by (induction rule: rtranclp_induct) (auto dest: act_step_inv)

lemma reachable_sys: "act_step\<^sup>*\<^sup>* empty_db d \<Longrightarrow> sys_inv d"
  by (rule reachable_inv [OF _ empty_db_inv])

lemma terminal_no_move: "is_terminal s k \<Longrightarrow> \<not> can_move k s t"
  using can_move_not_terminal by blast

lemma evolves_terminal:
  assumes "evolves key st k t t'" and "r \<in> set t" and "is_terminal (st r) k"
  shows "\<exists>r' \<in> set t'. key r' = key r \<and> st r' = st r"
  using assms terminal_no_move [OF assms(3)] unfolding evolves_def by blast

lemma terminal_rows:
  assumes "act_step\<^sup>*\<^sup>* d d'" and "sys_inv d"
  shows "(\<forall>c \<in> set (commitments d). is_terminal (c_state c) Commitment \<longrightarrow>
      (\<exists>c' \<in> set (commitments d'). c_id c' = c_id c \<and> c_state c' = c_state c)) \<and>
    (\<forall>c \<in> set (goals d). is_terminal (g_state c) Goal \<longrightarrow>
      (\<exists>c' \<in> set (goals d'). g_id c' = g_id c \<and> g_state c' = g_state c)) \<and>
    (\<forall>c \<in> set (decisions d). is_terminal (d_state c) Decision \<longrightarrow>
      (\<exists>c' \<in> set (decisions d'). d_id c' = d_id c \<and> d_state c' = d_state c))"
  using assms
proof (induction rule: rtranclp_induct)
  case base
  then show ?case by blast
next
  case (step d1 d2)
  have adv: "advances d1 d2" using act_step_inv [OF step(2) reachable_inv [OF step(1) step.prems]] ..
  note ev = adv [unfolded advances_def]
  show ?case
    using step.IH [OF step.prems] evolves_terminal [OF ev [THEN conjunct1]]
      evolves_terminal [OF ev [THEN conjunct2, THEN conjunct1]]
      evolves_terminal [OF ev [THEN conjunct2, THEN conjunct2]]
    by metis
qed

section \<open>Properties\<close>





subsection \<open>A small database\<close>

definition ex_actor_db :: db where
  "ex_actor_db = empty_db\<lparr>actors := [\<lparr>a_id = 0, a_tenant = 7, a_status = ''active''\<rparr>],
     uuid_next := 1, py_now := 5\<rparr>"

definition ex_goal_db :: db where
  "ex_goal_db = snd (goal_create ''Grow'' None None ''operational'' None None 0 7 Supplied ex_actor_db)"

definition ex_input :: commitment_input where
  "ex_input = \<lparr>i_title = ''Ship'', i_description = None, i_initial_state = Active, i_owner = Some 0,
     i_due = Some 10, i_ambition = ''base'', i_priority = 5, i_success_criteria = None,
     i_goals = [GoalEdge 1 True], i_depends_on = [], i_constrained_by = [],
     i_contributors = [(0, None)], i_counterparty = None, i_capacity = None,
     i_maintenance = False, i_created_by = 0, i_basis = None, i_tenant = 7\<rparr>"

definition ex_commit_db :: db where
  "ex_commit_db = snd (commitment_create None ex_input Supplied ex_goal_db)"

lemma ex_goal_ok: "fst (goal_create ''Grow'' None None ''operational'' None None 0 7 Supplied ex_actor_db)
    = Inr (new_goal 1 ''Grow'' None None ''operational'' None None 0 7 0)"
  by code_simp

lemma ex_commit_ok: "fst (commitment_create None ex_input Supplied ex_goal_db)
    = Inr (new_commitment ex_input 3 Active 0)"
  by code_simp

lemma ex_goal_reached: "act_step\<^sup>*\<^sup>* empty_db ex_goal_db"
proof -
  have "act_step empty_db ex_actor_db"
    by (rule elsewhere) (simp_all add: ex_actor_db_def acts_tables_def empty_db_def)
  moreover have "act_step ex_actor_db ex_goal_db"
    by (rule goal_create [where conn = Supplied])
      (use ex_goal_ok in \<open>simp add: ex_goal_db_def prod_eq_iff\<close>)
  ultimately show ?thesis by (meson r_into_rtranclp rtranclp.rtrancl_into_rtrancl)
qed

lemma ex_commit_step: "act_step ex_goal_db ex_commit_db"
  by (rule commitment_create [where conn = Supplied])
    (use ex_commit_ok in \<open>simp add: ex_commit_db_def prod_eq_iff\<close>)

lemma ex_commit_reached: "act_step\<^sup>*\<^sup>* empty_db ex_commit_db"
  using ex_goal_reached ex_commit_step by (rule rtranclp.rtrancl_into_rtrancl)



section \<open>Histories\<close>

text \<open>
  C3: a goal, commitment or decision that has reached a terminal state stays in it: no later
  sequence of operations changes the state of the row.
\<close>

theorem terminal_forever:
  assumes "act_step\<^sup>*\<^sup>* empty_db d" and "act_step\<^sup>*\<^sup>* d d'"
  shows "(\<forall>i c. sel_commitment i d = Some c \<and> is_terminal (c_state c) Commitment \<longrightarrow>
      (\<exists>c'. sel_commitment i d' = Some c' \<and> c_state c' = c_state c)) \<and>
    (\<forall>i g. sel_goal i d = Some g \<and> is_terminal (g_state g) Goal \<longrightarrow>
      (\<exists>g'. sel_goal i d' = Some g' \<and> g_state g' = g_state g)) \<and>
    (\<forall>i q. sel_decision i d = Some q \<and> is_terminal (d_state q) Decision \<longrightarrow>
      (\<exists>q'. sel_decision i d' = Some q' \<and> d_state q' = d_state q))"
proof -
  note sys = reachable_sys [OF assms(1)]
  note rows = terminal_rows [OF assms(2) sys]
  have ids: "ids_inv d'"
    using reachable_inv [OF assms(2) sys] by (simp add: sys_inv_def acts_invD)
  have dec: "sel_decision (d_id q) d' = Some q" if "q \<in> set (decisions d')" for q
    using row_at_unique [of d_id "decisions d'" q] ids that by (simp add: sel_decision_def ids_inv_def)
  show ?thesis
  proof (intro conjI allI impI; elim conjE)
    fix i c
    assume c: "sel_commitment i d = Some c" "is_terminal (c_state c) Commitment"
    then obtain c' where "c' \<in> set (commitments d')" "c_id c' = i" "c_state c' = c_state c"
      using rows sel_commitment_in [OF c(1)] by metis
    with sel_commitment_row [OF ids] show "\<exists>c'. sel_commitment i d' = Some c' \<and> c_state c' = c_state c"
      by blast
  next
    fix i g
    assume g: "sel_goal i d = Some g" "is_terminal (g_state g) Goal"
    then obtain g' where "g' \<in> set (goals d')" "g_id g' = i" "g_state g' = g_state g"
      using rows sel_goal_in [OF g(1)] by metis
    with sel_goal_row [OF ids] show "\<exists>g'. sel_goal i d' = Some g' \<and> g_state g' = g_state g"
      by blast
  next
    fix i q
    assume q: "sel_decision i d = Some q" "is_terminal (d_state q) Decision"
    then obtain q' where "q' \<in> set (decisions d')" "d_id q' = i" "d_state q' = d_state q"
      using rows sel_decision_in [OF q(1)] by metis
    with dec show "\<exists>q'. sel_decision i d' = Some q' \<and> d_state q' = d_state q"
      by blast
  qed
qed

definition ex_closed_db :: db where
  "ex_closed_db = snd (commitment_transition 3 Closed [] None (Some 0) Supplied ex_commit_db)"

lemma ex_closed_step: "act_step ex_commit_db ex_closed_db"
proof -
  have "\<not> isl (fst (commitment_transition 3 Closed [] None (Some 0) Supplied ex_commit_db))"
    by code_simp
  then obtain r where "fst (commitment_transition 3 Closed [] None (Some 0) Supplied ex_commit_db) = Inr r"
    by (cases "fst (commitment_transition 3 Closed [] None (Some 0) Supplied ex_commit_db)") auto
  then have "commitment_transition 3 Closed [] None (Some 0) Supplied ex_commit_db = (Inr r, ex_closed_db)"
    by (simp add: ex_closed_db_def prod_eq_iff)
  then show ?thesis by (rule commitment_transition)
qed

theorem terminal_forever_witness:
  "act_step ex_closed_db (snd (recompute_cached_health 1 ex_closed_db)) \<and>
   map_option c_state (sel_commitment 3 (snd (recompute_cached_health 1 ex_closed_db))) = Some Closed"
proof -
  let ?d = "snd (recompute_cached_health 1 ex_closed_db)"
  have reached: "act_step\<^sup>*\<^sup>* empty_db ex_closed_db"
    using ex_commit_reached ex_closed_step by (rule rtranclp.rtrancl_into_rtrancl)
  have step: "act_step ex_closed_db ?d" by (rule goal_health) (rule prod.collapse [symmetric])
  have "map_option c_state (sel_commitment 3 ex_closed_db) = Some Closed" by code_simp
  then obtain c where c: "sel_commitment 3 ex_closed_db = Some c" "c_state c = Closed" by auto
  have "is_terminal Closed Commitment" by (simp add: is_terminal_def table_defs)
  moreover from step have "act_step\<^sup>*\<^sup>* ex_closed_db ?d" by (rule r_into_rtranclp)
  ultimately show ?thesis
    using c step terminal_forever [OF reached, of ?d] by fastforce
qed

section \<open>What single operations do\<close>

lemma check_c10_row:
  "sel_commitment i d = Some c \<Longrightarrow> check_c10_contributes_or_maintenance d i = [] \<longleftrightarrow>
    c_state c \<in> {Proposed, DoneVerified, Closed} \<or> c_maintenance c \<or>
    capacity_maintenance (c_capacity c) \<or> (\<exists>e \<in> set (contributes_to d). ct_commitment e = i)"
  by (auto simp: check_c10_contributes_or_maintenance_def filter_empty_conv)

lemma upd_commitment_frame:
  "contributes_to (upd_commitment i f d) = contributes_to d"
  "observations (upd_commitment i f d) = observations d"
  by (simp_all add: upd_commitment_def)

lemma case_run:
  "(case x of Some e \<Rightarrow> (Inl e, d) | None \<Rightarrow> (case y of Some e \<Rightarrow> (Inl e, d) | None \<Rightarrow>
     (case vs of v # ws \<Rightarrow> (Inl v, d1) | [] \<Rightarrow> (res, d2)))) = (Inr r, d') \<longleftrightarrow>
   x = None \<and> y = None \<and> vs = [] \<and> res = Inr r \<and> d' = d2"
  by (auto split: option.splits list.splits)

lemma emit_act_observed:
  "\<exists>ob. observations (snd (emit_act_state_change te k e f g c d)) = observations d @ [ob] \<and>
     o_cause ob = c"
  by (simp add: emit_act_state_change_def Let_def take_uuid_def)

lemma ex_point: "(\<exists>x y. P \<and> Q \<and> R \<and> S \<and> x = a \<and> y = b) \<longleftrightarrow> P \<and> Q \<and> R \<and> S"
  by blast

lemma if_Nil: "(if b then xs else []) = [] \<longleftrightarrow> (b \<longrightarrow> xs = [])"
  by simp

lemma set_merge_resolved: "set (merge_resolved xs ys) = set xs \<union> set ys"
proof (induction ys arbitrary: xs)
  case (Cons y ys)
  have "merge_resolved xs (y # ys) = merge_resolved (if y \<in> set xs then xs else xs @ [y]) ys"
    by (simp add: merge_resolved_def)
  then show ?case by (auto simp: Cons.IH)
qed (simp add: merge_resolved_def)

lemma merge_resolved_Nil: "merge_resolved xs ys = [] \<longleftrightarrow> xs = [] \<and> ys = []"
  using set_merge_resolved [of xs ys] by (metis Un_empty set_empty)

text \<open>
  C2: \<open>commitments.transition\<close> returns exactly when the commitment exists, the state
  machine allows the move, a cause is given, an active-family target has an owner, the owner
  (unless the target is closed) is an active actor, doneverified has a resolving event,
  blocked has a reason, an active-family target satisfies C10, and a confidence basis, when one
  is passed, is the id of a stored model (the foreign key of the column). Then the row and only that
  row has the new state, the resolving events are merged, the passed basis replaces the old one,
  \<open>terminal_at\<close> is set for terminal targets, and exactly one state-change observation is
  written.
\<close>

theorem commitment_transition_exact:
  assumes "sel_commitment i d = Some row" and "c_ambition row \<in> set AmbitionLevel"
  shows "((\<exists>r d'. commitment_transition_inner i st res basis cause d = (Inr r, d')) \<longleftrightarrow>
    can_move Commitment (c_state row) st \<and> cause \<noteq> None \<and>
    (st \<in> {Active, Blocked, Paused, DoneUnverified} \<longrightarrow> c_owner row \<noteq> None \<and>
       (c_maintenance row \<or> capacity_maintenance (c_capacity row) \<or>
        (\<exists>e \<in> set (contributes_to d). ct_commitment e = i))) \<and>
    (\<forall>owner. c_owner row = Some owner \<longrightarrow> st \<noteq> Closed \<longrightarrow> actor_status d owner = Some actor_active) \<and>
    (st = DoneVerified \<longrightarrow> c_resolved row \<noteq> [] \<or> res \<noteq> []) \<and>
    (st = Blocked \<longrightarrow> count_unsatisfied_dependencies d i \<noteq> 0 \<or>
       count_revisited_constraining_decisions d i \<noteq> 0) \<and>
    (\<forall>b. basis = Some b \<longrightarrow> b \<in> set (model_ids d))) \<and>
   (\<forall>r d'. commitment_transition_inner i st res basis cause d = (Inr r, d') \<longrightarrow>
     c_state r = st \<and> c_resolved r = merge_resolved (c_resolved row) res \<and>
     c_basis r = (case basis of Some b \<Rightarrow> Some b | None \<Rightarrow> c_basis row) \<and>
     (is_terminal st Commitment \<longrightarrow> c_terminal_at r = Some (db_now d)) \<and>
     sel_commitment i d' = Some r \<and> (\<forall>j. j \<noteq> i \<longrightarrow> sel_commitment j d' = sel_commitment j d) \<and>
     (\<exists>ob. observations d' = observations d @ [ob] \<and> o_cause ob = cause))"
proof -
  let ?b = "case basis of Some b \<Rightarrow> Some b | None \<Rightarrow> c_basis row"
  let ?f = "set_commitment_state st (merge_resolved (c_resolved row) res) ?b (db_now d)"
  let ?d = "upd_commitment i ?f d"
  have cid: "c_id row = i" using sel_commitment_in [OF assms(1)] by simp
  have sel: "sel_commitment j ?d = (if j = i then Some (?f row) else sel_commitment j d)" for j
    using commitment_store.sel_upd [of ?f j i d] assms(1) by simp
  have c10: "check_c10_contributes_or_maintenance ?d i = [] \<longleftrightarrow>
      st \<in> {Proposed, DoneVerified, Closed} \<or> c_maintenance row \<or>
      capacity_maintenance (c_capacity row) \<or> (\<exists>e \<in> set (contributes_to d). ct_commitment e = i)"
    using check_c10_row [of i ?d "?f row"] sel by (simp add: upd_commitment_frame)
  have known: "can_move Commitment (c_state row) st \<Longrightarrow> st \<in> set CommitmentState"
    by (simp add: transition_check_known flip: known_states)
  have actor: "require_active_actor owner ''owner'' d = None \<longleftrightarrow>
      actor_status d owner = Some actor_active" for owner
    by (auto simp: require_active_actor_def check_simps split: option.splits)
  have run: "commitment_transition_inner i st res basis cause d =
    (case commitment_transition_check st res cause row d of Some e \<Rightarrow> (Inl e, d)
     | None \<Rightarrow> (case basis_fkey basis d of Some e \<Rightarrow> (Inl e, d) | None \<Rightarrow>
        (case (if st \<in> {Active, Blocked, Paused, DoneUnverified}
               then check_c10_contributes_or_maintenance ?d i else []) of
           v # _ \<Rightarrow> (Inl v, ?d)
         | [] \<Rightarrow> (commitment_row_validate (?f row), snd (emit_act_state_change (c_tenant row)
             ''commitment'' i (Some (c_state row)) st cause ?d)))))"
    by (simp only: commitment_transition_inner_def assms(1) Let_def case_prod_beta option.case)
  have valid: "commitment_row_validate (?f row) = Inr r \<longleftrightarrow> st \<in> set CommitmentState \<and> r = ?f row" for r
    using assms(2) by (auto simp: commitment_row_validate_def)
  have fkey: "basis_fkey basis d = None \<longleftrightarrow> (\<forall>b. basis = Some b \<longrightarrow> b \<in> set (model_ids d))"
    by (auto simp: basis_fkey_def fails_def split: option.splits)
  have returns: "commitment_transition_inner i st res basis cause d = (Inr r, d') \<longleftrightarrow>
      commitment_transition_check st res cause row d = None \<and> basis_fkey basis d = None \<and>
      st \<in> set CommitmentState \<and> (st \<in> {Active, Blocked, Paused, DoneUnverified} \<longrightarrow>
         check_c10_contributes_or_maintenance ?d i = []) \<and> r = ?f row \<and>
      d' = snd (emit_act_state_change (c_tenant row) ''commitment'' i (Some (c_state row)) st cause ?d)"
    for r d'
    unfolding run case_run valid if_Nil by blast
  show ?thesis (is "?returns \<and> ?effect")
  proof
    let ?fam = "st \<in> {Active, Blocked, Paused, DoneUnverified}"
    let ?edge = "c_maintenance row \<or> capacity_maintenance (c_capacity row) \<or>
      (\<exists>e \<in> set (contributes_to d). ct_commitment e = i)"
    have c10_fam: "?fam \<longrightarrow> (check_c10_contributes_or_maintenance ?d i = [] \<longleftrightarrow> ?edge)"
      unfolding c10 by blast
    have step: "?returns = (commitment_transition_check st res cause row d = None \<and>
        basis_fkey basis d = None \<and> st \<in> set CommitmentState \<and> (?fam \<longrightarrow> ?edge) \<longleftrightarrow>
        can_move Commitment (c_state row) st \<and> cause \<noteq> None \<and> (?fam \<longrightarrow> c_owner row \<noteq> None \<and> ?edge) \<and>
        (\<forall>owner. c_owner row = Some owner \<longrightarrow> st \<noteq> Closed \<longrightarrow> actor_status d owner = Some actor_active) \<and>
        (st = DoneVerified \<longrightarrow> c_resolved row \<noteq> [] \<or> res \<noteq> []) \<and>
        (st = Blocked \<longrightarrow> count_unsatisfied_dependencies d i \<noteq> 0 \<or>
           count_revisited_constraining_decisions d i \<noteq> 0) \<and>
        (\<forall>b. basis = Some b \<longrightarrow> b \<in> set (model_ids d)))"
      unfolding returns using c10_fam by (simp only: ex_point simp_thms cong: imp_cong)
    show ?returns
      unfolding step
      unfolding commitment_transition_check_None fkey actor cid merge_resolved_Nil de_Morgan_conj
      using known by (simp only: imp_conjR) argo
    show ?effect
    proof (intro allI impI)
      fix r d'
      assume "commitment_transition_inner i st res basis cause d = (Inr r, d')"
      then have r: "r = ?f row" and d': "d' = snd (emit_act_state_change (c_tenant row)
          ''commitment'' i (Some (c_state row)) st cause ?d)"
        unfolding returns by blast+
      have "sel_commitment j d' = sel_commitment j ?d" for j
        unfolding d' by (simp add: sel_commitment_def)
      moreover have "\<exists>ob. observations d' = observations d @ [ob] \<and> o_cause ob = cause"
        using emit_act_observed unfolding d' upd_commitment_frame(2) [of i ?f d, symmetric] .
      ultimately show "c_state r = st \<and> c_resolved r = merge_resolved (c_resolved row) res \<and>
         c_basis r = (case basis of Some b \<Rightarrow> Some b | None \<Rightarrow> c_basis row) \<and>
         (is_terminal st Commitment \<longrightarrow> c_terminal_at r = Some (db_now d)) \<and>
         sel_commitment i d' = Some r \<and> (\<forall>j. j \<noteq> i \<longrightarrow> sel_commitment j d' = sel_commitment j d) \<and>
         (\<exists>ob. observations d' = observations d @ [ob] \<and> o_cause ob = cause)"
        by (simp add: sel r) (simp add: set_commitment_state_def)
    qed
  qed
qed

theorem commitment_transition_exact_witness:
  "\<not> isl (fst (commitment_transition_inner 3 Paused [] None (Some 0) ex_commit_db)) \<and>
   isl (fst (commitment_transition_inner 3 Blocked [] None (Some 0) ex_commit_db)) \<and>
   isl (fst (commitment_transition_inner 3 Paused [] (Some 9) (Some 0) ex_commit_db))"
proof -
  obtain row where row: "sel_commitment 3 ex_commit_db = Some row"
    "c_ambition row = ''base''" "c_state row = Active" "c_owner row = Some 0"
  proof -
    have "map_option (\<lambda>r. (c_ambition r, c_state r, c_owner r)) (sel_commitment 3 ex_commit_db)
        = Some (''base'', Active, Some 0)" by code_simp
    then show ?thesis using that by auto
  qed
  have amb: "c_ambition row \<in> set AmbitionLevel" by (simp add: row(2) AmbitionLevel_def)
  have facts: "can_move Commitment Active Paused"
    "\<exists>e \<in> set (contributes_to ex_commit_db). ct_commitment e = 3"
    "actor_status ex_commit_db 0 = Some actor_active"
    "count_unsatisfied_dependencies ex_commit_db 3 = 0"
    "count_revisited_constraining_decisions ex_commit_db 3 = 0"
    "(9::uuid) \<notin> set (model_ids ex_commit_db)"
    by code_simp+
  note exact = commitment_transition_exact [OF row(1) amb, THEN conjunct1]
  have "\<exists>r d'. commitment_transition_inner 3 Paused [] None (Some 0) ex_commit_db = (Inr r, d')"
    unfolding exact using row facts by simp
  moreover have "\<not> (\<exists>r d'. commitment_transition_inner 3 Blocked [] None (Some 0) ex_commit_db = (Inr r, d'))"
    unfolding exact using facts by simp
  moreover have "\<not> (\<exists>r d'. commitment_transition_inner 3 Paused [] (Some 9) (Some 0) ex_commit_db = (Inr r, d'))"
    unfolding exact using facts by simp
  moreover have "isl (fst x) \<longleftrightarrow> \<not> (\<exists>r d'. x = (Inr r, d'))" for x :: "commitment_row result \<times> db"
    by (cases x; cases "fst x") auto
  ultimately show ?thesis by blast
qed

end
