(* ===== verification/ActsContracts.thy ===== *)
theory ActsContracts
  imports ActsReach
begin

text \<open>
  Further contracts of the act operations: auto-blocking at creation, atomicity of the
  operations that own their transaction, the due-date rule C9, and two places where the code
  does less than its comments say.
\<close>

lemma insert_depends_establishes:
  assumes "insert_depends_on_edges cid inp d = (Inr u, d')" and "dep \<in> set (i_depends_on inp)"
  shows "(cid, dep) \<in> set (depends_on d')"
  using assms(1) unfolding insert_depends_on_edges_def
  by (rule for_tx_establishes [where Q = "\<lambda>dep d. (cid, dep) \<in> set (depends_on d)",
        OF _ assms(2)])
    (auto simp: tx_simps ins_depends_on_def set_insert_new)

lemma insert_edges_dependency:
  assumes "insert_edges cid st inp d = (Inr r, d')" and "dep \<in> set (i_depends_on inp)"
  shows "(cid, dep) \<in> set (depends_on d')"
proof -
  from assms(1) obtain u d1 d2 where
    deps: "insert_depends_on_edges cid inp d1 = (Inr u, d2)" and
    rest: "bind_tx (insert_constrained_by_edges cid inp) (\<lambda>_.
      bind_tx (modify_tx (\<lambda>d. snd (emit_act_state_change (i_tenant inp) ''commitment''
               cid None st (Some (i_created_by inp)) d))) (\<lambda>_.
        fetch_commitment cid)) d2 = (Inr r, d')"
    unfolding insert_edges_def bind_tx_Inr [of "insert_commitment_contributors cid inp"]
      bind_tx_Inr [of "insert_contributes_to_edges cid st inp"]
      bind_tx_Inr [of "insert_depends_on_edges cid inp"] by blast
  have "keeps (\<lambda>d. (cid, dep) \<in> set (depends_on d)) (insert_constrained_by_edges cid inp)"
    unfolding insert_constrained_by_edges_def
    by (intro keeps_for keeps_modify) (simp add: ins_constrained_by_def)
  then have "keeps (\<lambda>d. (cid, dep) \<in> set (depends_on d))
    (bind_tx (insert_constrained_by_edges cid inp) (\<lambda>_.
      bind_tx (modify_tx (\<lambda>d. snd (emit_act_state_change (i_tenant inp) ''commitment''
               cid None st (Some (i_created_by inp)) d))) (\<lambda>_.
        fetch_commitment cid)))"
    by (intro keeps_bind keeps_modify keeps_fetch) simp_all
  from keepsD [OF this insert_depends_establishes [OF deps assms(2)] rest] show ?thesis .
qed

lemma unsatisfied_take_uuid:
  "is_unsatisfied_dependency (snd (take_uuid d)) = is_unsatisfied_dependency d"
  by (rule ext) (simp add: is_unsatisfied_dependency_def sel_commitment_def take_uuid_def)

text \<open>What a creation that returned has done, in one lemma.\<close>

lemma commitment_create_result:
  assumes inv: "acts_inv d" and run: "commitment_create m a conn d = (Inr r, d')"
  obtains inp st where "prepare_commitment_create_input m a (py_now d) = Inr inp"
    and "st = resolve_effective_initial_state inp d"
    and "r = new_commitment inp (uuid_next d) st (db_now d)"
    and "commitments d' = commitments d @ [r]" and "sel_commitment (uuid_next d) d' = Some r"
    and "insert_edges (uuid_next d) st inp (ins_commitment r (snd (take_uuid d))) = (Inr r, d')"
    and "validate_commitment_create_references inp d = None"
proof -
  from run obtain inp where prep: "prepare_commitment_create_input m a (py_now d) = Inr inp"
    and inner: "commitment_create_inner inp d = (Inr r, d')"
    by (auto simp: commitment_create_def split: sum.splits dest: run_op_Inr)
  let ?d1 = "snd (take_uuid d)"
  let ?st = "resolve_effective_initial_state inp ?d1"
  have st: "?st = resolve_effective_initial_state inp d" "db_now ?d1 = db_now d"
    by (simp_all add: resolve_effective_initial_state_def unsatisfied_take_uuid)
      (simp add: take_uuid_def)
  let ?c = "new_commitment inp (uuid_next d) ?st (db_now d)"
  from inner st have rest: "insert_edges (uuid_next d) ?st inp (ins_commitment ?c ?d1) = (Inr r, d')"
    and refs: "validate_commitment_create_references inp d = None"
    unfolding commitment_create_inner_insert_edges by (auto simp: tx_simps Let_def)
  have inv': "acts_inv d'"
    by (rule keepsD [OF keeps_commitment_create_inner [OF prepare_input_ok [OF prep]] inv inner])
  have tab: "commitments d' = commitments d @ [?c]"
    using keepsD [OF insert_edges_rest [of "goals ?d1" "commitments (ins_commitment ?c ?d1)"
        "decisions ?d1" "{}"] _ rest] by (simp add: ins_commitment_def take_uuid_def)
  note row = insert_edges_row [OF rest]
  have "sel_commitment (c_id ?c) d' = Some ?c"
    by (rule sel_commitment_row [OF acts_invD(1) [OF inv']]) (simp add: tab)
  then have r: "r = ?c" using row by (simp add: new_commitment_def)
  from that [OF prep st(1) r] tab rest r row refs show ?thesis by simp
qed

lemma prepare_fields:
  "prepare_commitment_create_input m a now = Inr inp \<Longrightarrow>
    inp = a\<lparr>i_maintenance := i_maintenance inp\<rparr> \<and>
    (\<forall>due. i_due a = Some due \<longrightarrow> now < due)"
  by (auto simp: prepare_commitment_create_input_def Let_def split: if_splits option.splits)

text \<open>
  a commitment created as active lands in blocked exactly when one of the commitments it
  depends on is not doneverified, and then the audit C2 finds its reason for being blocked.
\<close>

theorem create_auto_block:
  assumes "act_step\<^sup>*\<^sup>* empty_db d" and run: "commitment_create m a conn d = (Inr r, d')"
    and "i_initial_state a = Active"
  shows "(c_state r = Blocked \<longleftrightarrow> (\<exists>dep \<in> set (i_depends_on a). is_unsatisfied_dependency d dep)) \<and>
    (c_state r \<noteq> Blocked \<longrightarrow> c_state r = Active) \<and> check_c2_blocked_reason d' (c_id r) = []"
proof -
  have inv: "acts_inv d" using reachable_sys [OF assms(1)] by (simp add: sys_inv_def)
  obtain inp st where prep: "prepare_commitment_create_input m a (py_now d) = Inr inp"
    and st: "st = resolve_effective_initial_state inp d"
    and r: "r = new_commitment inp (uuid_next d) st (db_now d)"
    and tab: "commitments d' = commitments d @ [r]"
    and sel: "sel_commitment (uuid_next d) d' = Some r"
    and edges: "insert_edges (uuid_next d) st inp (ins_commitment r (snd (take_uuid d))) = (Inr r, d')"
    and refs: "validate_commitment_create_references inp d = None"
    by (rule commitment_create_result [OF inv run])
  have eq: "inp = a\<lparr>i_maintenance := i_maintenance inp\<rparr>" using prepare_fields [OF prep] ..
  have inp: "i_initial_state inp = Active" "i_depends_on inp = i_depends_on a"
    by (subst eq, simp add: assms(3))+
  have state: "c_state r = st" "c_id r = uuid_next d" by (simp_all add: r new_commitment_def)
  have blocked: "st = Blocked \<longleftrightarrow> (\<exists>dep \<in> set (i_depends_on a). is_unsatisfied_dependency d dep)"
    by (auto simp: st resolve_effective_initial_state_def inp list_ex_iff)
  have "count_unsatisfied_dependencies d' (uuid_next d) \<noteq> 0" if "st = Blocked"
  proof -
    from that blocked obtain dep where dep: "dep \<in> set (i_depends_on inp)"
      "is_unsatisfied_dependency d dep" unfolding inp by blast
    obtain c where c: "c \<in> set (commitments d)" "c_id c = dep"
      using references_exist(2) [OF refs] dep(1) by auto
    with sel_commitment_row [OF acts_invD(1) [OF inv] c(1)] dep(2) have "c_state c \<noteq> DoneVerified"
      by (simp add: is_unsatisfied_dependency_def)
    with insert_edges_dependency [OF edges dep(1)] c tab show ?thesis
      by (auto simp: count_unsatisfied_0)
  qed
  then have "check_c2_blocked_reason d' (uuid_next d) = []"
    by (auto simp: check_c2_blocked_reason_def sel state)
  with blocked effective_state [of inp d] show ?thesis by (auto simp: state st inp)
qed

definition ex_dependent_input :: commitment_input where
  "ex_dependent_input = ex_input\<lparr>i_title := ''Announce'', i_depends_on := [3]\<rparr>"

theorem create_auto_block_witness:
  "\<exists>r d'. commitment_create None ex_dependent_input Supplied ex_commit_db = (Inr r, d') \<and>
     c_state r = Blocked \<and> check_c2_blocked_reason d' (c_id r) = []"
proof -
  have "\<not> isl (fst (commitment_create None ex_dependent_input Supplied ex_commit_db))"
    by code_simp
  then obtain r d' where run: "commitment_create None ex_dependent_input Supplied ex_commit_db = (Inr r, d')"
    by (cases "commitment_create None ex_dependent_input Supplied ex_commit_db";
        cases "fst (commitment_create None ex_dependent_input Supplied ex_commit_db)") auto
  have "i_initial_state ex_dependent_input = Active" "i_depends_on ex_dependent_input = [3]"
    "is_unsatisfied_dependency ex_commit_db 3"
    by code_simp+
  with create_auto_block [OF ex_commit_reached run] run show ?thesis by auto
qed


section \<open>Atomicity\<close>

text \<open>
  A write operation that is given no connection is all or nothing: when it raises,
  whatever the exception and however often the database aborted an attempt, the database is
  what it was before the call.
\<close>

theorem own_transaction_atomic:
  "(goal_create t de p al sc td ev te (Own k) d = (Inl e, d') \<longrightarrow> d' = d) \<and>
   (goal_transition gi gs gev (Own k) d = (Inl e, d') \<longrightarrow> d' = d) \<and>
   (decision_create dt dx ra ds dsc rt dev dte (Own k) d = (Inl e, d') \<longrightarrow> d' = d) \<and>
   (decision_transition di dst dtev (Own k) d = (Inl e, d') \<longrightarrow> d' = d) \<and>
   (commitment_create m a (Own k) d = (Inl e, d') \<longrightarrow> d' = d) \<and>
   (commitment_transition ci st res b cev (Own k) d = (Inl e, d') \<longrightarrow> d' = d) \<and>
   (add_contributor cc ac role (Own k) d = (Inl e, d') \<longrightarrow> d' = d) \<and>
   (add_edge kind args (Own k) d = (Inl e, d') \<longrightarrow> d' = d)"
  unfolding goal_create_def goal_transition_def decision_create_def decision_transition_def
    commitment_create_def commitment_transition_def add_contributor_def add_edge_def
  by (auto split: if_splits sum.splits dest: run_op_Own_Inl)

definition ex_proposed_db :: db where
  "ex_proposed_db = snd (commitment_create None
     (ex_input\<lparr>i_initial_state := Proposed, i_goals := []\<rparr>) Supplied ex_goal_db)"

lemma ex_rejected_own:
  "fst (commitment_transition 3 Active [] None (Some 0) (Own (\<lambda>k. if k = 0 then Some SerializationError else None))
      ex_proposed_db) = Inl (InvariantViolation ''C10''
        ''commitment has no contributes_to edges and is not maintenance'')"
  by code_simp

theorem own_transaction_atomic_witness:
  "snd (commitment_transition 3 Active [] None (Some 0)
      (Own (\<lambda>k. if k = 0 then Some SerializationError else None)) ex_proposed_db) = ex_proposed_db"
proof -
  let ?r = "commitment_transition 3 Active [] None (Some 0)
      (Own (\<lambda>k. if k = 0 then Some SerializationError else None)) ex_proposed_db"
  have "?r = (Inl (InvariantViolation ''C10''
        ''commitment has no contributes_to edges and is not maintenance''), snd ?r)"
    using ex_rejected_own by (metis prod.collapse)
  from own_transaction_atomic [THEN conjunct2, THEN conjunct2, THEN conjunct2, THEN conjunct2,
      THEN conjunct2, THEN conjunct1, THEN mp, OF this]
  show ?thesis .
qed

text \<open>
  On a caller's connection the rejection by C10 comes after the UPDATE: the call raises,
  no state-change observation is written, and the row nevertheless stays active without any
  goal, which the audit C10 then reports.
\<close>

theorem rejected_transition_keeps_update:
  "act_step\<^sup>*\<^sup>* empty_db ex_proposed_db \<and>
   fst (commitment_transition 3 Active [] None (Some 0) Supplied ex_proposed_db) =
     Inl (InvariantViolation ''C10''
       ''commitment has no contributes_to edges and is not maintenance'') \<and>
   (let d' = snd (commitment_transition 3 Active [] None (Some 0) Supplied ex_proposed_db)
    in map c_state (commitments ex_proposed_db) = [Proposed] \<and>
       map c_state (commitments d') = [Active] \<and>
       length (observations d') = length (observations ex_proposed_db) \<and>
       check_c10_contributes_or_maintenance d' 3 \<noteq> [])"
proof -
  let ?a = "ex_input\<lparr>i_initial_state := Proposed, i_goals := []\<rparr>"
  have "fst (commitment_create None ?a Supplied ex_goal_db) = Inr (new_commitment ?a 3 Proposed 0)"
    by code_simp
  then have "act_step ex_goal_db ex_proposed_db"
    by (intro commitment_create [where conn = Supplied]) (simp add: ex_proposed_db_def prod_eq_iff)
  with ex_goal_reached have "act_step\<^sup>*\<^sup>* empty_db ex_proposed_db"
    by (rule rtranclp.rtrancl_into_rtrancl)
  moreover have "fst (commitment_transition 3 Active [] None (Some 0) Supplied ex_proposed_db) =
     Inl (InvariantViolation ''C10'' ''commitment has no contributes_to edges and is not maintenance'')"
    by code_simp
  moreover have "map c_state (commitments ex_proposed_db) = [Proposed]" by code_simp
  moreover have "map c_state (commitments
      (snd (commitment_transition 3 Active [] None (Some 0) Supplied ex_proposed_db))) = [Active]"
    by code_simp
  moreover have "length (observations
      (snd (commitment_transition 3 Active [] None (Some 0) Supplied ex_proposed_db))) =
      length (observations ex_proposed_db)"
    by code_simp
  moreover have "check_c10_contributes_or_maintenance
      (snd (commitment_transition 3 Active [] None (Some 0) Supplied ex_proposed_db)) 3 \<noteq> []"
    by code_simp
  ultimately show ?thesis by (simp add: Let_def)
qed

section \<open>Creation and the audits\<close>

text \<open>
  A commitment can be created directly in the terminal state doneverified: the call
  returns, the audit C3 then reports the missing resolving event, and \<open>terminal_at\<close> is not
  set.
\<close>

theorem created_doneverified_violates_c3:
  "\<exists>r d'. commitment_create None (ex_input\<lparr>i_initial_state := DoneVerified\<rparr>) Supplied ex_goal_db
       = (Inr r, d') \<and> c_state r = DoneVerified \<and> c_terminal_at r = None \<and>
     act_step\<^sup>*\<^sup>* empty_db d' \<and> check_c3_doneverified_resolved d' (c_id r) \<noteq> []"
proof -
  let ?a = "ex_input\<lparr>i_initial_state := DoneVerified\<rparr>"
  let ?run = "commitment_create None ?a Supplied ex_goal_db"
  have ok: "fst ?run = Inr (new_commitment ?a 3 DoneVerified 0)" by code_simp
  then have run: "?run = (Inr (new_commitment ?a 3 DoneVerified 0), snd ?run)"
    by (simp add: prod_eq_iff)
  have "check_c3_doneverified_resolved (snd ?run) 3 \<noteq> []" by code_simp
  moreover have "act_step\<^sup>*\<^sup>* empty_db (snd ?run)"
    using ex_goal_reached act_step.commitment_create [OF run] by (rule rtranclp.rtrancl_into_rtrancl)
  ultimately show ?thesis using run by (force simp: new_commitment_def)
qed

text \<open>
  The due date of a created commitment lies after the process's clock at the call, and
  the audit C9, which compares with the transaction's \<open>now()\<close>, accepts it whenever the
  transaction began no later than the process's clock.
\<close>

theorem created_due_date:
  assumes "act_step\<^sup>*\<^sup>* empty_db d" and run: "commitment_create m a conn d = (Inr r, d')"
    and "c_due r = Some due"
  shows "py_now d < due \<and> (db_now d \<le> py_now d \<longrightarrow> check_c9_due_date_future d' (c_id r) = [])"
proof -
  have inv: "acts_inv d" using reachable_sys [OF assms(1)] by (simp add: sys_inv_def)
  obtain inp st where prep: "prepare_commitment_create_input m a (py_now d) = Inr inp"
    and r: "r = new_commitment inp (uuid_next d) st (db_now d)"
    and sel: "sel_commitment (uuid_next d) d' = Some r"
    by (rule commitment_create_result [OF inv run])
  have eq: "inp = a\<lparr>i_maintenance := i_maintenance inp\<rparr>" using prepare_fields [OF prep] ..
  have "i_due inp = i_due a" by (subst eq) simp
  with assms(3) r have "i_due a = Some due" by (simp add: new_commitment_def)
  with prepare_fields [OF prep] have "py_now d < due" by blast
  with sel assms(3) show ?thesis
    by (auto simp: check_c9_due_date_future_def r new_commitment_def)
qed

theorem created_due_date_witness:
  "\<exists>r d'. commitment_create None ex_input Supplied ex_goal_db = (Inr r, d') \<and> c_due r = Some 10 \<and>
     py_now ex_goal_db < 10 \<and> check_c9_due_date_future d' (c_id r) = []"
proof -
  obtain d' where run: "commitment_create None ex_input Supplied ex_goal_db
      = (Inr (new_commitment ex_input 3 Active 0), d')"
    using ex_commit_ok by (metis prod.collapse)
  have due: "c_due (new_commitment ex_input 3 Active 0) = Some 10"
    by (simp add: new_commitment_def ex_input_def)
  have "db_now ex_goal_db \<le> py_now ex_goal_db" by code_simp
  with created_due_date [OF ex_goal_reached run due] run due show ?thesis by blast
qed

end
