(* ===== verification/Partitions.thy ===== *)
theory Partitions
  imports Json
begin

text \<open>
  \<open>services/domain/resources/partitions.py\<close>: the monthly partitions of
  \<open>resource_transactions\<close>. A date is a triple of year, month and day, ordered
  lexicographically; the catalogue of existing partitions is the list of their specifications.
\<close>

type_synonym date = "int \<times> int \<times> int"

definition first_of_month :: "date \<Rightarrow> date" where
  "first_of_month d = (case d of (y, m, _) \<Rightarrow> (y, m, 1))"

definition next_month :: "date \<Rightarrow> date" where
  "next_month d = (case d of (y, m, _) \<Rightarrow> if m = 12 then (y + 1, 1, 1) else (y, m + 1, 1))"

record partition_spec =
  part_parent :: string
  month_start :: date
  month_end :: date

definition compute_partitions :: "date \<Rightarrow> string \<Rightarrow> int \<Rightarrow> partition_spec list result" where
  "compute_partitions as_of parent months_ahead =
    (if months_ahead < 0 then Inl (ValueError ''months_ahead must be >= 0'')
     else Inr (map (\<lambda>k. let start = (next_month ^^ k) (first_of_month as_of) in
       \<lparr>part_parent = parent, month_start = start, month_end = next_month start\<rparr>)
       [0..<nat (months_ahead + 1)]))"

definition spec_for :: "string \<Rightarrow> date \<Rightarrow> partition_spec" where
  "spec_for parent d =
    \<lparr>part_parent = parent, month_start = first_of_month d,
     month_end = next_month (first_of_month d)\<rparr>"

text \<open>\<open>CREATE TABLE IF NOT EXISTS\<close>; the flag says whether the table is new.\<close>

definition create_one :: "partition_spec \<Rightarrow> partition_spec list \<Rightarrow> bool \<times> partition_spec list" where
  "create_one spec cat = (if spec \<in> set cat then (False, cat) else (True, cat @ [spec]))"

definition ensure_partition_for :: "date \<Rightarrow> string \<Rightarrow> partition_spec list \<Rightarrow> partition_spec list" where
  "ensure_partition_for occurred_at parent cat = snd (create_one (spec_for parent occurred_at) cat)"

fun ensure_specs :: "partition_spec list \<Rightarrow> partition_spec list \<Rightarrow> partition_spec list \<times> partition_spec list" where
  "ensure_specs [] cat = ([], cat)"
| "ensure_specs (s # ss) cat =
    (let (new, cat) = create_one s cat; (created, cat) = ensure_specs ss cat
     in (if new then s # created else created, cat))"

definition ensure_partitions ::
  "date \<Rightarrow> string \<Rightarrow> int \<Rightarrow> partition_spec list \<Rightarrow> (partition_spec list \<times> partition_spec list) result" where
  "ensure_partitions as_of parent months_ahead cat =
    bind_result (compute_partitions as_of parent months_ahead) (\<lambda>specs. Inr (ensure_specs specs cat))"

section \<open>The partitions tile the calendar\<close>

text \<open>A month counted from year 0; what the lexicographic order on first days is.\<close>

definition month_no :: "date \<Rightarrow> int" where
  "month_no d = (case d of (y, m, _) \<Rightarrow> 12 * y + (m - 1))"

definition valid_month :: "date \<Rightarrow> bool" where
  "valid_month d \<longleftrightarrow> (case d of (y, m, dd) \<Rightarrow> 1 \<le> m \<and> m \<le> 12 \<and> 1 \<le> dd)"

definition date_less :: "date \<Rightarrow> date \<Rightarrow> bool" where
  "date_less a b \<longleftrightarrow> (case a of (y, m, d) \<Rightarrow> case b of (y', m', d') \<Rightarrow>
     y < y' \<or> (y = y' \<and> (m < m' \<or> (m = m' \<and> d < d'))))"

text \<open>The rows a partition holds.\<close>

definition covers :: "partition_spec \<Rightarrow> date \<Rightarrow> bool" where
  "covers s d \<longleftrightarrow> \<not> date_less d (month_start s) \<and> date_less d (month_end s)"

lemma next_month_no: "month_no (next_month d) = month_no d + 1"
  by (auto simp: month_no_def next_month_def split: prod.splits)

lemma next_month_valid: "valid_month d \<Longrightarrow> valid_month (next_month d)"
  by (auto simp: valid_month_def next_month_def split: prod.splits)

lemma next_months:
  "valid_month d \<Longrightarrow> month_no ((next_month ^^ k) d) = month_no d + int k \<and>
    valid_month ((next_month ^^ k) d)"
  by (induction k) (auto simp: next_month_no next_month_valid)

definition starts_month :: "date \<Rightarrow> bool" where
  "starts_month d \<longleftrightarrow> valid_month d \<and> snd (snd d) = 1"

lemma starts_next_month: "starts_month d \<Longrightarrow> starts_month (next_month d)"
  by (auto simp: starts_month_def valid_month_def next_month_def split: prod.splits)

lemma starts_next: "starts_month d \<Longrightarrow> starts_month ((next_month ^^ k) d)"
  by (induction k) (simp_all add: starts_next_month)

lemma covers_month:
  assumes "starts_month s" and "valid_month d"
  shows "covers \<lparr>part_parent = p, month_start = s, month_end = next_month s\<rparr> d \<longleftrightarrow>
    month_no d = month_no s"
  using assms
  by (auto simp: covers_def date_less_def month_no_def next_month_def starts_month_def
      valid_month_def split: prod.splits if_splits)

lemma first_starts: "valid_month d \<Longrightarrow> starts_month (first_of_month d) \<and>
    month_no (first_of_month d) = month_no d"
  by (auto simp: starts_month_def valid_month_def first_of_month_def month_no_def split: prod.splits)

text \<open>
  the partitions computed for a date and a number of months ahead tile the calendar: a
  valid date is covered by exactly one of them if it lies in the month of the date or one of
  the following months, and by none otherwise; and the partition made for a single date covers
  exactly the dates of its month.
\<close>

theorem partitions_tile:
  assumes "compute_partitions as_of parent ahead = Inr specs" and "valid_month as_of"
    and "valid_month d"
  shows "length (filter (\<lambda>s. covers s d) specs) =
      (if month_no as_of \<le> month_no d \<and> month_no d \<le> month_no as_of + ahead then 1 else 0) \<and>
    (covers (spec_for parent as_of) d \<longleftrightarrow> month_no d = month_no as_of)"
proof -
  let ?s = "\<lambda>k. (next_month ^^ k) (first_of_month as_of)"
  note first = first_starts [OF assms(2)]
  have ahead: "0 \<le> ahead" and specs: "specs = map (\<lambda>k. \<lparr>part_parent = parent, month_start = ?s k,
      month_end = next_month (?s k)\<rparr>) [0..<nat (ahead + 1)]"
    using assms(1) by (auto simp: compute_partitions_def Let_def split: if_splits)
  have cov: "covers \<lparr>part_parent = parent, month_start = ?s k, month_end = next_month (?s k)\<rparr> d \<longleftrightarrow>
      month_no d = month_no as_of + int k" for k
    using covers_month [OF starts_next [OF first [THEN conjunct1]] assms(3)] first next_months [of "first_of_month as_of" k]
    by (auto simp: starts_month_def)
  have "filter (\<lambda>s. covers s d) specs = map (\<lambda>k. \<lparr>part_parent = parent, month_start = ?s k,
      month_end = next_month (?s k)\<rparr>) (filter (\<lambda>k. month_no d = month_no as_of + int k) [0..<nat (ahead + 1)])"
    unfolding specs filter_map o_def cov ..
  moreover have "length (filter (\<lambda>k. month_no d = month_no as_of + int k) [0..<n]) =
      (if month_no as_of \<le> month_no d \<and> month_no d < month_no as_of + int n then 1 else 0)" for n
    by (induction n) auto
  ultimately have "length (filter (\<lambda>s. covers s d) specs) =
      (if month_no as_of \<le> month_no d \<and> month_no d \<le> month_no as_of + ahead then 1 else 0)"
    using ahead by auto
  moreover have "covers (spec_for parent as_of) d \<longleftrightarrow> month_no d = month_no as_of"
    using covers_month [OF first [THEN conjunct1] assms(3)] first by (simp add: spec_for_def)
  ultimately show ?thesis by blast
qed

theorem partitions_tile_witness:
  "(case compute_partitions (2024, 11, 30) ''resource_transactions'' 3 of
      Inr specs \<Rightarrow> map month_start specs = [(2024, 11, 1), (2024, 12, 1), (2025, 1, 1), (2025, 2, 1)] \<and>
        length (filter (\<lambda>s. covers s (2025, 1, 31)) specs) = 1
    | Inl e \<Rightarrow> False)"
proof -
  obtain specs where specs: "compute_partitions (2024, 11, 30) ''resource_transactions'' 3 = Inr specs"
    "map month_start specs = [(2024, 11, 1), (2024, 12, 1), (2025, 1, 1), (2025, 2, 1)]"
    by (simp add: compute_partitions_def upt_rec next_month_def first_of_month_def Let_def
        numeral_3_eq_3 numeral_2_eq_2)
  have "valid_month (2024, 11, 30)" "valid_month (2025, 1, 31)" by (simp_all add: valid_month_def)
  from partitions_tile [OF specs(1) this] specs show ?thesis by (simp add: month_no_def)
qed

end
