(* ===== verification/Ledger.thy ===== *)
theory Ledger
  imports Store Partitions
begin

text \<open>
  \<open>services/domain/resources/transactions.py\<close>: the ledger of a resource. \<open>apply_delta\<close> and
  \<open>compute_utilization\<close> are pure; \<open>record_transaction\<close> appends one ledger row and rewrites
  the resource. The partition of the ledger table that covers the row (theory \<open>Partitions\<close>)
  is created by idempotent DDL and holds no data of the model.
\<close>

section \<open>Literals\<close>

primrec resource_kind_text :: "resource_kind \<Rightarrow> string" where
  "resource_kind_text Financial = ''financial''"
| "resource_kind_text Ip = ''ip''"
| "resource_kind_text Relational = ''relational''"
| "resource_kind_text Capacity = ''capacity''"
| "resource_kind_text Infrastructure = ''infrastructure''"
| "resource_kind_text Regulatory = ''regulatory''"
| "resource_kind_text (UnknownResourceKind s) = s"

primrec utilization_text :: "utilization \<Rightarrow> string" where
  "utilization_text Available = ''available''"
| "utilization_text Deployed = ''deployed''"
| "utilization_text Committed = ''committed''"
| "utilization_text Depleted = ''depleted''"
| "utilization_text Expired = ''expired''"
| "utilization_text (UnknownUtil s) = s"

primrec tx_type_text :: "tx_type \<Rightarrow> string" where
  "tx_type_text Acquire = ''acquire''"
| "tx_type_text Deploy = ''deploy''"
| "tx_type_text Release = ''release''"
| "tx_type_text Spend = ''spend''"
| "tx_type_text Strengthen = ''strengthen''"
| "tx_type_text Weaken = ''weaken''"
| "tx_type_text Expire = ''expire''"
| "tx_type_text (UnknownTx s) = s"

definition VALID_TRANSACTION_TYPES :: "tx_type list" where
  "VALID_TRANSACTION_TYPES = [Acquire, Deploy, Release, Spend, Strengthen, Weaken, Expire]"

definition STRENGTH_LADDER :: "string list" where
  "STRENGTH_LADDER = [''at_risk'', ''weakening'', ''moderate'', ''strong'']"

section \<open>apply_delta\<close>

text \<open>\<open>STRENGTH_LADDER.index(v)\<close>.\<close>

fun ladder_index_from :: "nat \<Rightarrow> string list \<Rightarrow> json \<Rightarrow> int result" where
  "ladder_index_from i [] v = Inl (ValueError ''is not in list'')"
| "ladder_index_from i (s # ss) v = (if v = JStr s then Inr (int i) else ladder_index_from (Suc i) ss v)"

definition ladder_index :: "dict \<Rightarrow> int result" where
  "ladder_index cv = ladder_index_from 0 STRENGTH_LADDER (dict_get_or cv ''strength'' (JStr ''moderate''))"

definition ladder_step :: "dict \<Rightarrow> int \<Rightarrow> dict result" where
  "ladder_step cv sd = bind_result (ladder_index cv) (\<lambda>current.
     Inr (dict_set ''strength''
       (JStr (STRENGTH_LADDER ! nat (max 0 (min (int (length STRENGTH_LADDER) - 1) (current + sd))))) cv))"

definition signed_amount :: "tx_type \<Rightarrow> json \<Rightarrow> json result" where
  "signed_amount tx amt =
    (if tx = Spend then
       (if \<not> is_zero amt then bind_result (py_abs amt) py_neg else Inr (JInt 0))
     else if tx = Release \<or> tx = Acquire then
       (if \<not> is_zero amt then py_abs amt else Inr (JInt 0))
     else Inr amt)"

definition apply_financial :: "dict \<Rightarrow> dict \<Rightarrow> tx_type \<Rightarrow> dict result" where
  "apply_financial cv delta tx =
    bind_result (signed_amount tx (dict_get_or delta ''amount_cents'' (JInt 0))) (\<lambda>amt.
      if tx \<in> {Strengthen, Weaken, Expire}
      then Inr (dict_update cv (dict_without [''amount_cents''] delta))
      else bind_result (py_int (dict_get_or cv ''amount_cents'' (JInt 0))) (\<lambda>old.
           bind_result (py_int amt) (\<lambda>a.
             Inr (dict_update (dict_set ''amount_cents'' (JInt (old + a)) cv)
               (dict_without [''amount_cents''] delta)))))"

definition delta_units :: "dict \<Rightarrow> int result" where
  "delta_units delta =
    py_int (py_or (dict_get_or delta ''deployed_units'' (dict_get_or delta ''units'' (JInt 0))) (JInt 0))"

definition apply_capacity :: "dict \<Rightarrow> dict \<Rightarrow> tx_type \<Rightarrow> dict result" where
  "apply_capacity cv delta tx =
    bind_result (delta_units delta) (\<lambda>units.
    bind_result (py_int (dict_get_or cv ''deployed_units'' (JInt 0))) (\<lambda>deployed.
    bind_result (py_int (dict_get_or cv ''available_units'' (JInt 0))) (\<lambda>available.
      case tx of
        Deploy \<Rightarrow> Inr (dict_set ''available_units'' (JInt (available - units))
                   (dict_set ''deployed_units'' (JInt (deployed + units)) cv))
      | Release \<Rightarrow> Inr (dict_set ''available_units'' (JInt (available + units))
                   (dict_set ''deployed_units'' (JInt (max 0 (deployed - units))) cv))
      | Acquire \<Rightarrow> bind_result (py_int (dict_get_or cv ''total_units'' (JInt 0))) (\<lambda>tot.
                   Inr (dict_set ''available_units'' (JInt (available + units))
                     (dict_set ''total_units'' (JInt (tot + units)) cv)))
      | Spend \<Rightarrow> bind_result (py_int (dict_get_or cv ''total_units'' (JInt 0))) (\<lambda>tot.
                   Inr (dict_set ''available_units'' (JInt (max 0 (available - units)))
                     (dict_set ''total_units'' (JInt (max 0 (tot - units))) cv)))
      | Expire \<Rightarrow> Inr (dict_set ''available_units'' (JInt 0) cv)
      | Strengthen \<Rightarrow> Inr (dict_update cv (dict_without [''units'', ''deployed_units''] delta))
      | Weaken \<Rightarrow> Inr (dict_update cv (dict_without [''units'', ''deployed_units''] delta))
      | UnknownTx _ \<Rightarrow> Inr cv)))"

definition not_none :: "json option \<Rightarrow> json option" where
  "not_none v = (case v of Some JNull \<Rightarrow> None | _ \<Rightarrow> v)"

definition apply_relational :: "dict \<Rightarrow> dict \<Rightarrow> tx_type \<Rightarrow> dict result" where
  "apply_relational cv delta tx =
    bind_result
      (case not_none (dict_get delta ''strength_delta'') of
         Some sd \<Rightarrow> bind_result (ladder_index cv) (\<lambda>_. bind_result (py_int sd) (ladder_step cv))
       | None \<Rightarrow> if tx = Strengthen then ladder_step cv 1
                 else if tx = Weaken then ladder_step cv (- 1) else Inr cv) (\<lambda>cv.
    bind_result
      (case not_none (dict_get delta ''arr_delta_cents'') of
         None \<Rightarrow> Inr cv
       | Some arr_d \<Rightarrow> bind_result (py_int (dict_get_or cv ''arr_cents'' (JInt 0))) (\<lambda>old.
           bind_result (py_int arr_d) (\<lambda>a. Inr (dict_set ''arr_cents'' (JInt (old + a)) cv)))) (\<lambda>cv.
    Inr (dict_update cv (dict_without [''strength_delta'', ''arr_delta_cents''] delta))))"

definition apply_delta :: "dict \<Rightarrow> dict \<Rightarrow> resource_kind \<Rightarrow> tx_type \<Rightarrow> dict result" where
  "apply_delta current_value delta kind tx =
    (case kind of
       Financial \<Rightarrow> apply_financial current_value delta tx
     | Capacity \<Rightarrow> apply_capacity current_value delta tx
     | Relational \<Rightarrow> apply_relational current_value delta tx
     | _ \<Rightarrow> Inr (let cv = dict_update current_value delta
                 in if tx = Expire then dict_set ''expired'' (JBool True) cv else cv))"

definition compute_utilization :: "dict \<Rightarrow> resource_kind \<Rightarrow> utilization \<Rightarrow> utilization result" where
  "compute_utilization current_value kind current_state =
    (if kind = Capacity then
       bind_result (py_int (dict_get_or current_value ''deployed_units'' (JInt 0))) (\<lambda>deployed.
       bind_result (py_int (dict_get_or current_value ''total_units'' (JInt 0))) (\<lambda>tot.
         Inr (if tot \<le> 0 then (if deployed > 0 then Depleted else Available)
              else if deployed \<ge> tot then Depleted
              else if deployed > 0 then Deployed else Available)))
     else Inr current_state)"

section \<open>record_transaction\<close>

definition plan_transaction ::
  "resource_row \<Rightarrow> tx_type \<Rightarrow> dict \<Rightarrow> (dict \<times> utilization) result" where
  "plan_transaction row kind delta =
    (if r_archived_at row \<noteq> None
     then Inl (InvariantViolation ''R4'' ''cannot transact against archived resource'')
     else
       bind_result (apply_delta (r_value row) delta (r_kind row) kind) (\<lambda>new_cv.
       bind_result (if r_kind row = Capacity
                    then py_less_0 (dict_get_or new_cv ''available_units'' (JInt 0)) else Inr False)
         (\<lambda>short. if short
           then Inl (InvariantViolation ''R1'' ''insufficient capacity: available_units would go negative'')
           else bind_result (compute_utilization new_cv (r_kind row) (r_util row)) (\<lambda>new_util.
             Inr (new_cv, if kind = Expire then Expired else new_util)))))"

definition new_ledger_row ::
  "uuid \<Rightarrow> uuid \<Rightarrow> uuid \<Rightarrow> tx_type \<Rightarrow> dict \<Rightarrow> time \<Rightarrow> uuid \<Rightarrow> time \<Rightarrow> ledger_row" where
  "new_ledger_row tx_id resource_id tenant_id kind delta occurred_at source_event_id now =
    \<lparr>x_id = tx_id, x_resource = resource_id, x_tenant = tenant_id, x_type = kind, x_delta = delta,
     x_occurred_at = occurred_at, x_source = source_event_id, x_created_at = now\<rparr>"

definition record_transaction_inner ::
  "uuid \<Rightarrow> tx_type \<Rightarrow> dict \<Rightarrow> time \<Rightarrow> uuid \<Rightarrow> (db, ledger_row) tx" where
  "record_transaction_inner resource_id kind delta occurred_at source_event_id d =
    (case sel_resource resource_id d of
       None \<Rightarrow> (Inl (ValidationError ''resource not found''), d)
     | Some row \<Rightarrow>
        (case plan_transaction row kind delta of
           Inl e \<Rightarrow> (Inl e, d)
         | Inr (new_cv, new_util) \<Rightarrow>
            let (tx_id, d) = take_uuid d;
                tx_row = new_ledger_row tx_id resource_id (r_tenant row) kind delta occurred_at
                  source_event_id (db_now d);
                d = d\<lparr>ledger := ledger d @ [tx_row]\<rparr>;
                d = upd_resource resource_id (\<lambda>r. r\<lparr>r_value := new_cv, r_util := new_util,
                      r_updated_at := db_now d, r_updated_by := Some source_event_id\<rparr>) d;
                (obs_id, d) = emit_state_change (''resource_'' @ tx_type_text kind) resource_id
                  (r_tenant row) (Some source_event_id)
                  (Some [(''transaction_id'', JUuid tx_id),
                         (''transaction_type'', JStr (tx_type_text kind)),
                         (''resource_kind'', JStr (resource_kind_text (r_kind row))),
                         (''new_utilization_state'', JStr (utilization_text new_util))])
                  None None (Some ''resource'') d
            in (Inr tx_row, d)))"

text \<open>
  Without a connection the call runs in one transaction, without the retry loop of the acts.
\<close>

definition in_transaction :: "bool \<Rightarrow> ('s, 'a) tx \<Rightarrow> ('s, 'a) tx" where
  "in_transaction supplied body = (if supplied then body else atomically body)"

definition record_transaction ::
  "uuid \<Rightarrow> tx_type \<Rightarrow> dict \<Rightarrow> time \<Rightarrow> uuid \<Rightarrow> bool \<Rightarrow> (db, ledger_row) tx" where
  "record_transaction resource_id kind delta occurred_at source_event_id supplied d =
    (if kind \<notin> set VALID_TRANSACTION_TYPES
     then (Inl (ValidationError (''invalid transaction_type '' @ py_repr (tx_type_text kind))), d)
     else in_transaction supplied
       (record_transaction_inner resource_id kind delta occurred_at source_event_id) d)"

text \<open>\<open>ORDER BY occurred_at DESC LIMIT n\<close>; PostgreSQL leaves the order of ties open.\<close>

definition list_transactions :: "uuid \<Rightarrow> nat \<Rightarrow> db \<Rightarrow> ledger_row list" where
  "list_transactions resource_id limit d =
    take limit (sort_key (\<lambda>r. - x_occurred_at r) (filter (\<lambda>r. x_resource r = resource_id) (ledger d)))"

section \<open>Capacity arithmetic\<close>

text \<open>A capacity value with its three integer counters.\<close>

definition counters :: "dict \<Rightarrow> int \<Rightarrow> int \<Rightarrow> int \<Rightarrow> bool" where
  "counters cv tot deployed available \<longleftrightarrow>
    dict_get cv ''total_units'' = Some (JInt tot) \<and>
    dict_get cv ''deployed_units'' = Some (JInt deployed) \<and>
    dict_get cv ''available_units'' = Some (JInt available)"

lemma counters_get:
  assumes "counters cv t dep av"
  shows "py_int (dict_get_or cv ''total_units'' v) = Inr t"
    "py_int (dict_get_or cv ''deployed_units'' v) = Inr dep"
    "py_int (dict_get_or cv ''available_units'' v) = Inr av"
  using assms by (simp_all add: counters_def dict_get_or_def)

lemma apply_capacity_counters:
  assumes "counters cv t dep av" and "delta_units delta = Inr u"
  shows "apply_delta cv delta Capacity Deploy = Inr cv' \<Longrightarrow> counters cv' t (dep + u) (av - u)"
    and "apply_delta cv delta Capacity Release = Inr cv' \<Longrightarrow> counters cv' t (max 0 (dep - u)) (av + u)"
    and "apply_delta cv delta Capacity Acquire = Inr cv' \<Longrightarrow> counters cv' (t + u) dep (av + u)"
    and "apply_delta cv delta Capacity Spend = Inr cv' \<Longrightarrow>
      counters cv' (max 0 (t - u)) dep (max 0 (av - u))"
    and "apply_delta cv delta Capacity Expire = Inr cv' \<Longrightarrow> counters cv' t dep 0"
  using assms
  by (auto simp: apply_delta_def apply_capacity_def counters_get counters_def dict_simps)

text \<open>
  the capacity counters are conserved: an acquisition, a deployment, a release of no more
  than what is deployed and an expense of no more than what is available keep
  \<open>total = deployed + available\<close> and no negative deployed count; a deployment moves exactly its
  units from available to deployed.
\<close>

theorem capacity_conserved:
  assumes "counters cv t dep av" and "t = dep + av" and "0 \<le> dep" and "0 \<le> av"
    and "delta_units delta = Inr u" and "0 \<le> u"
    and "tx = Acquire \<or> tx = Deploy \<or> (tx = Release \<and> u \<le> dep) \<or> (tx = Spend \<and> u \<le> av)"
    and "apply_delta cv delta Capacity tx = Inr cv'"
  shows "\<exists>t' dep' av'. counters cv' t' dep' av' \<and> t' = dep' + av' \<and> 0 \<le> dep' \<and>
    (tx \<noteq> Deploy \<longrightarrow> 0 \<le> av') \<and> (tx = Deploy \<longrightarrow> t' = t \<and> dep' = dep + u \<and> av' = av - u)"
  using assms(7)
proof (elim disjE conjE)
  assume "tx = Acquire"
  with apply_capacity_counters(3) [OF assms(1,5)] assms show ?thesis by fastforce
next
  assume "tx = Deploy"
  with apply_capacity_counters(1) [OF assms(1,5)] assms show ?thesis by fastforce
next
  assume "tx = Release" "u \<le> dep"
  with apply_capacity_counters(2) [OF assms(1,5)] assms show ?thesis by fastforce
next
  assume tx: "tx = Spend" and u: "u \<le> av"
  have "counters cv' (max 0 (t - u)) dep (max 0 (av - u))"
    using apply_capacity_counters(4) [OF assms(1,5)] assms(8) tx by simp
  moreover have "max 0 (t - u) = dep + max 0 (av - u)" using assms(2,3,4) u by simp
  ultimately show ?thesis using tx assms(3) by fastforce
qed

definition pool_10 :: dict where
  "pool_10 = [(''total_units'', JInt 10), (''deployed_units'', JInt 4), (''available_units'', JInt 6)]"

lemma pool_10_counters: "counters pool_10 10 4 6"
  by (simp add: counters_def pool_10_def dict_get_def)

lemma delta_units_units: "delta_units [(''units'', JInt n)] = Inr n"
  "delta_units [(''deployed_units'', JInt n)] = Inr n"
  by (simp_all add: delta_units_def dict_get_or_def dict_get_def py_or_def)

theorem capacity_conserved_witness:
  "\<exists>cv. apply_delta pool_10 [(''units'', JInt 6)] Capacity Spend = Inr cv \<and> counters cv 4 4 0"
proof -
  let ?delta = "[(''units'', JInt 6)]"
  obtain cv where cv: "apply_delta pool_10 ?delta Capacity Spend = Inr cv"
    by (simp add: apply_delta_def apply_capacity_def delta_units_units
        counters_get [OF pool_10_counters])
  obtain t' dep' av' where c: "counters cv t' dep' av'" "t' = dep' + av'"
    using capacity_conserved [OF pool_10_counters _ _ _ delta_units_units(1) _ _ cv] by auto
  have "counters cv 4 4 0"
    using apply_capacity_counters(4) [OF pool_10_counters delta_units_units(1) cv] by simp
  with cv show ?thesis by blast
qed

text \<open>
  a release undoes a deployment: applied one after the other, with the same number of
  units, they leave every entry of the value as it was.
\<close>

theorem release_undoes_deploy:
  assumes "counters cv t dep av" and "0 \<le> dep" and "delta_units delta = Inr u" and "0 \<le> u"
  shows "bind_result (apply_delta cv delta Capacity Deploy)
      (\<lambda>cv1. bind_result (apply_delta cv1 delta Capacity Release) (\<lambda>cv2. Inr (dict_get cv2)))
    = Inr (dict_get cv)"
proof -
  obtain cv1 where cv1: "apply_delta cv delta Capacity Deploy = Inr cv1"
    "\<And>k. dict_get cv1 k = (if k = ''deployed_units'' then Some (JInt (dep + u))
       else if k = ''available_units'' then Some (JInt (av - u)) else dict_get cv k)"
    using assms(3) by (auto simp: apply_delta_def apply_capacity_def counters_get [OF assms(1)] dict_simps)
  have "counters cv1 t (dep + u) (av - u)"
    by (rule apply_capacity_counters(1) [OF assms(1,3) cv1(1)])
  then obtain cv2 where cv2: "apply_delta cv1 delta Capacity Release = Inr cv2"
    "\<And>k. dict_get cv2 k = (if k = ''deployed_units'' then Some (JInt dep)
       else if k = ''available_units'' then Some (JInt av) else dict_get cv1 k)"
    using assms(2,3) by (auto simp: apply_delta_def apply_capacity_def counters_get dict_simps)
  have "dict_get cv2 = dict_get cv"
    using assms(1) by (auto simp: cv1(2) cv2(2) counters_def)
  then show ?thesis by (simp add: cv1(1) cv2(1))
qed

theorem release_undoes_deploy_witness:
  "bind_result (apply_delta pool_10 [(''units'', JInt 3)] Capacity Deploy)
      (\<lambda>cv1. bind_result (apply_delta cv1 [(''units'', JInt 3)] Capacity Release) (\<lambda>cv2. Inr (dict_get cv2)))
    = Inr (dict_get pool_10)"
  using release_undoes_deploy [OF pool_10_counters _ delta_units_units(1) [of 3]] by simp

section \<open>The ledger determines the value\<close>

lemma upd_resource_other_tables [simp]:
  "ledger (upd_resource i f d) = ledger d" "uuid_next (upd_resource i f d) = uuid_next d"
  "observations (upd_resource i f d) = observations d" "deployments (upd_resource i f d) = deployments d"
  by (simp_all add: upd_resource_def)

lemma sel_resource_frame [simp]:
  "sel_resource i (snd (emit_state_change k e t c m a oc ek d)) = sel_resource i d"
  "sel_resource i (d\<lparr>ledger := l\<rparr>) = sel_resource i d"
  "sel_resource i (d\<lparr>uuid_next := n\<rparr>) = sel_resource i d"
  by (simp_all add: sel_resource_def)

definition post_row :: "dict \<Rightarrow> utilization \<Rightarrow> time \<Rightarrow> uuid \<Rightarrow> resource_row \<Rightarrow> resource_row" where
  "post_row cv util now src r = r\<lparr>r_value := cv, r_util := util, r_updated_at := now, r_updated_by := Some src\<rparr>"

lemma post_row_fields [simp]:
  "r_id (post_row cv util now src r) = r_id r" "r_value (post_row cv util now src r) = cv"
  "r_util (post_row cv util now src r) = util" "r_kind (post_row cv util now src r) = r_kind r"
  "r_tenant (post_row cv util now src r) = r_tenant r"
  "r_archived_at (post_row cv util now src r) = r_archived_at r"
  by (simp_all add: post_row_def)

lemma record_transaction_inner_result:
  assumes "record_transaction_inner i kind delta occ src d = (r, d')"
  shows "(\<exists>e. r = Inl e \<and> d' = d) \<or>
    (\<exists>row cv util x. r = Inr x \<and> sel_resource i d = Some row \<and>
      plan_transaction row kind delta = Inr (cv, util) \<and>
      x = new_ledger_row (uuid_next d) i (r_tenant row) kind delta occ src (db_now d) \<and>
      ledger d' = ledger d @ [x] \<and> deployments d' = deployments d \<and>
      (\<forall>j. sel_resource j d' = (if j = i then Some (post_row cv util (db_now d) src row)
         else sel_resource j d)))"
proof (cases "sel_resource i d")
  case None
  with assms show ?thesis by (auto simp: record_transaction_inner_def)
next
  case (Some row)
  show ?thesis
  proof (cases "plan_transaction row kind delta")
    case (Inl e)
    with assms Some show ?thesis by (auto simp: record_transaction_inner_def)
  next
    case (Inr plan)
    obtain cv util where plan: "plan = (cv, util)" by (cases plan)
    have upd: "sel_resource j (upd_resource i (post_row cv util now src) dd) =
        (if j = i then map_option (post_row cv util now src) (sel_resource i dd) else sel_resource j dd)"
      for j now dd
      by (rule resource_store.sel_upd) simp
    show ?thesis
      using assms Some Inr plan
      by (auto simp: record_transaction_inner_def Let_def case_prod_beta take_uuid_def
          upd [unfolded post_row_def] post_row_def)
  qed
qed

text \<open>
  C16: \<open>record_transaction\<close> changes nothing when it raises. When it returns, it has appended
  exactly one ledger row, for a resource that exists and is not archived, the value of that
  resource is the one \<open>apply_delta\<close> computes, with its utilization, every other resource is
  untouched, and the available units of a capacity resource are not negative.
\<close>

theorem record_transaction_exact:
  assumes "record_transaction i kind delta occ src supplied d = (r, d')"
  shows "case r of Inl e \<Rightarrow> d' = d
    | Inr x \<Rightarrow> \<exists>row row'. sel_resource i d = Some row \<and> r_archived_at row = None \<and>
        sel_resource i d' = Some row' \<and> ledger d' = ledger d @ [x] \<and>
        x_resource x = i \<and> x_type x = kind \<and> x_delta x = delta \<and>
        apply_delta (r_value row) delta (r_kind row) kind = Inr (r_value row') \<and>
        (kind \<noteq> Expire \<longrightarrow> compute_utilization (r_value row') (r_kind row) (r_util row) = Inr (r_util row')) \<and>
        (r_kind row = Capacity \<longrightarrow>
          (\<exists>n. num_of (dict_get_or (r_value row') ''available_units'' (JInt 0)) = Some n \<and> 0 \<le> n)) \<and>
        (\<forall>j. j \<noteq> i \<longrightarrow> sel_resource j d' = sel_resource j d)"
proof -
  have "kind \<notin> set VALID_TRANSACTION_TYPES \<and> (\<exists>e. r = Inl e) \<and> d' = d \<or>
      in_transaction supplied (record_transaction_inner i kind delta occ src) d = (r, d')"
    using assms by (auto simp: record_transaction_def split: if_splits)
  moreover have "(\<exists>e. r = Inl e \<and> d' = d) \<or> record_transaction_inner i kind delta occ src d = (r, d')"
    if "in_transaction supplied (record_transaction_inner i kind delta occ src) d = (r, d')"
    using that by (cases r) (auto simp: in_transaction_def tx_simps split: if_splits)
  ultimately consider e where "r = Inl e" "d' = d"
    | "record_transaction_inner i kind delta occ src d = (r, d')" by blast
  then show ?thesis
  proof cases
    case 2
    from record_transaction_inner_result [OF this] show ?thesis
      by (auto simp: plan_transaction_def bind_result_Inr new_ledger_row_def py_less_0_def
          split: if_splits option.splits)
  qed simp
qed

definition pool_db :: db where
  "pool_db = empty_db\<lparr>resources := [\<lparr>r_id = 1, r_tenant = 7, r_kind = Capacity, r_identity = ''crew'',
     r_description = None, r_value = pool_10, r_confidence = 1, r_util = Deployed,
     r_controllability = ''owned'', r_temporal = ''permanent'', r_metadata = None,
     r_created_at = 0, r_updated_at = 0, r_updated_by = None, r_archived_at = None\<rparr>], uuid_next := 5\<rparr>"

theorem record_transaction_exact_witness:
  "\<exists>x d'. record_transaction 1 Deploy [(''units'', JInt 6)] 3 9 True pool_db = (Inr x, d') \<and>
     ledger d' = [x] \<and> map_option r_util (sel_resource 1 d') = Some Depleted \<and>
     fst (record_transaction 1 Deploy [(''units'', JInt 7)] 3 9 True pool_db) =
       Inl (InvariantViolation ''R1'' ''insufficient capacity: available_units would go negative'')"
proof -
  let ?run = "record_transaction 1 Deploy [(''units'', JInt 6)] 3 9 True pool_db"
  have row: "sel_resource 1 pool_db = Some (hd (resources pool_db))"
    by (simp add: pool_db_def sel_resource_def row_simps)
  have pool: "r_value (hd (resources pool_db)) = pool_10" "r_kind (hd (resources pool_db)) = Capacity"
    "r_archived_at (hd (resources pool_db)) = None"
    by (simp_all add: pool_db_def)
  obtain cv7 where cv7: "apply_delta pool_10 [(''units'', JInt 7)] Capacity Deploy = Inr cv7"
    by (simp add: apply_delta_def apply_capacity_def delta_units_units
        counters_get [OF pool_10_counters])
  have "counters cv7 10 11 (- 1)"
    using apply_capacity_counters(1) [OF pool_10_counters delta_units_units(1) cv7] by simp
  then have "plan_transaction (hd (resources pool_db)) Deploy [(''units'', JInt 7)] =
      Inl (InvariantViolation ''R1'' ''insufficient capacity: available_units would go negative'')"
    using pool cv7
    by (simp add: plan_transaction_def py_less_0_def counters_def dict_get_or_def)
  then have bad: "fst (record_transaction 1 Deploy [(''units'', JInt 7)] 3 9 True pool_db) =
       Inl (InvariantViolation ''R1'' ''insufficient capacity: available_units would go negative'')"
    using row by (simp add: record_transaction_def VALID_TRANSACTION_TYPES_def
        in_transaction_def record_transaction_inner_def)
  obtain cv where cv: "apply_delta pool_10 [(''units'', JInt 6)] Capacity Deploy = Inr cv"
    by (simp add: apply_delta_def apply_capacity_def delta_units_units
        counters_get [OF pool_10_counters])
  have c: "counters cv 10 10 0"
    using apply_capacity_counters(1) [OF pool_10_counters delta_units_units(1) cv] by simp
  have "plan_transaction (hd (resources pool_db)) Deploy [(''units'', JInt 6)] = Inr (cv, Depleted)"
    using pool cv c
    by (simp add: plan_transaction_def py_less_0_def compute_utilization_def counters_def
        dict_get_or_def)
  then have "\<not> isl (fst ?run)"
    using row by (simp add: record_transaction_def VALID_TRANSACTION_TYPES_def
        in_transaction_def record_transaction_inner_def Let_def case_prod_beta)
  then obtain x where run: "?run = (Inr x, snd ?run)"
    by (cases ?run; cases "fst ?run") auto
  from record_transaction_exact [OF run] obtain row' where
    r: "sel_resource 1 (snd ?run) = Some row'" "ledger (snd ?run) = ledger pool_db @ [x]"
      "apply_delta pool_10 [(''units'', JInt 6)] Capacity Deploy = Inr (r_value row')"
      "compute_utilization (r_value row') Capacity (r_util (hd (resources pool_db))) = Inr (r_util row')"
    using row pool by auto
  have "r_util row' = Depleted"
    using r(3,4) cv c by (simp add: compute_utilization_def counters_get)
  moreover have "ledger pool_db = []" by (simp add: pool_db_def empty_db_def)
  ultimately show ?thesis using run r bad by auto
qed

text \<open>A sequence of calls, each committed or rolled back, and the replay of ledger rows.\<close>

type_synonym tx_call = "uuid \<times> tx_type \<times> dict \<times> time \<times> uuid"

fun record_all :: "tx_call list \<Rightarrow> db \<Rightarrow> db" where
  "record_all [] d = d"
| "record_all ((i, kind, delta, occ, src) # calls) d =
    record_all calls (snd (record_transaction i kind delta occ src False d))"

fun replay :: "resource_kind \<Rightarrow> dict \<Rightarrow> ledger_row list \<Rightarrow> dict result" where
  "replay k cv [] = Inr cv"
| "replay k cv (x # xs) = bind_result (apply_delta cv (x_delta x) k (x_type x)) (\<lambda>cv. replay k cv xs)"

lemma record_transaction_replay:
  assumes "sel_resource j d = Some row"
  shows "\<exists>rows row'. ledger (snd (record_transaction i kind delta occ src s d)) = ledger d @ rows \<and>
    sel_resource j (snd (record_transaction i kind delta occ src s d)) = Some row' \<and>
    r_kind row' = r_kind row \<and>
    replay (r_kind row) (r_value row) [x \<leftarrow> rows. x_resource x = j] = Inr (r_value row')"
proof -
  obtain r d' where run: "record_transaction i kind delta occ src s d = (r, d')"
    by (cases "record_transaction i kind delta occ src s d")
  have "d' = d \<or> record_transaction_inner i kind delta occ src d = (r, d')"
    using run by (cases r) (auto simp: record_transaction_def in_transaction_def tx_simps split: if_splits)
  then show ?thesis
  proof
    assume "d' = d"
    with run assms show ?thesis by (intro exI [of _ "[]"]) simp
  next
    assume "record_transaction_inner i kind delta occ src d = (r, d')"
    from record_transaction_inner_result [OF this] show ?thesis
    proof (elim disjE exE conjE)
      fix e assume "d' = d"
      with run assms show ?thesis by (intro exI [of _ "[]"]) simp
    next
      fix row0 cv util x
      assume row0: "sel_resource i d = Some row0" "plan_transaction row0 kind delta = Inr (cv, util)"
        and x: "x = new_ledger_row (uuid_next d) i (r_tenant row0) kind delta occ src (db_now d)"
        and d': "ledger d' = ledger d @ [x]"
          "\<forall>j. sel_resource j d' = (if j = i then Some (post_row cv util (db_now d) src row0)
             else sel_resource j d)"
      have "apply_delta (r_value row0) delta (r_kind row0) kind = Inr cv"
        using row0(2) by (auto simp: plan_transaction_def bind_result_Inr split: if_splits)
      then show ?thesis using run assms row0 x d'
        by (intro exI [of _ "[x]"]) (auto simp: new_ledger_row_def)
    qed
  qed
qed

lemma replay_append:
  "replay k cv (xs @ ys) = bind_result (replay k cv xs) (\<lambda>cv. replay k cv ys)"
  by (induction xs arbitrary: cv) (auto simp: bind_result_def split: sum.splits)

text \<open>
  C17: the ledger is complete: after any sequence of \<open>record_transaction\<close> calls on any
  resources, failed ones included, the value of every resource is what applying its new ledger
  rows in order to its old value gives.
\<close>

theorem ledger_replay:
  assumes "sel_resource j d = Some row"
  shows "\<exists>rows row'. ledger (record_all calls d) = ledger d @ rows \<and>
    sel_resource j (record_all calls d) = Some row' \<and> r_kind row' = r_kind row \<and>
    replay (r_kind row) (r_value row) [x \<leftarrow> rows. x_resource x = j] = Inr (r_value row')"
  using assms
proof (induction calls d arbitrary: row rule: record_all.induct)
  case (1 d)
  then show ?case by (intro exI [of _ "[]"]) simp
next
  case (2 i kind delta occ src calls d)
  let ?d = "snd (record_transaction i kind delta occ src False d)"
  obtain rows1 row1 where one: "ledger ?d = ledger d @ rows1" "sel_resource j ?d = Some row1"
    "r_kind row1 = r_kind row"
    "replay (r_kind row) (r_value row) [x \<leftarrow> rows1. x_resource x = j] = Inr (r_value row1)"
    using record_transaction_replay [OF 2(2)] by blast
  obtain rows2 row2 where two: "ledger (record_all calls ?d) = ledger ?d @ rows2"
    "sel_resource j (record_all calls ?d) = Some row2" "r_kind row2 = r_kind row1"
    "replay (r_kind row1) (r_value row1) [x \<leftarrow> rows2. x_resource x = j] = Inr (r_value row2)"
    using 2(1) [OF one(2)] by blast
  show ?case
    using one two by (intro exI [of _ "rows1 @ rows2"] exI [of _ row2]) (simp add: replay_append)
qed

theorem ledger_replay_witness:
  "\<exists>rows row'. ledger (record_all [(1, Deploy, [(''units'', JInt 2)], 3, 9), (2, Spend, [], 3, 9),
       (1, Acquire, [(''units'', JInt 5)], 4, 9)] pool_db) = rows \<and>
     sel_resource 1 (record_all [(1, Deploy, [(''units'', JInt 2)], 3, 9), (2, Spend, [], 3, 9),
       (1, Acquire, [(''units'', JInt 5)], 4, 9)] pool_db) = Some row' \<and>
     replay Capacity pool_10 [x \<leftarrow> rows. x_resource x = 1] = Inr (r_value row')"
proof -
  have row: "sel_resource 1 pool_db = Some (hd (resources pool_db))"
    "r_value (hd (resources pool_db)) = pool_10" "r_kind (hd (resources pool_db)) = Capacity"
    "ledger pool_db = []"
    by (simp_all add: pool_db_def sel_resource_def row_simps empty_db_def)
  from ledger_replay [OF row(1), of "[(1, Deploy, [(''units'', JInt 2)], 3, 9), (2, Spend, [], 3, 9),
       (1, Acquire, [(''units'', JInt 5)], 4, 9)]"]
  show ?thesis by (auto simp only: row append_Nil)
qed

end
