(* ===== verification/Deployments.thy ===== *)
theory Deployments
  imports Ledger
begin

text \<open>
  \<open>services/domain/resources/deployments.py\<close>: deploying units of a resource to a commitment
  and releasing them. Naive timestamps are UTC already.
\<close>

section \<open>Operations\<close>

definition p_key :: "deployment_row \<Rightarrow> uuid \<times> uuid" where
  "p_key p = (p_resource p, p_commitment p)"

definition sel_deployment :: "uuid \<Rightarrow> uuid \<Rightarrow> db \<Rightarrow> deployment_row option" where
  "sel_deployment resource_id commitment_id d = row_at p_key (resource_id, commitment_id) (deployments d)"

text \<open>\<open>units is not None and (not isinstance(units, (int, float)) or units <= 0)\<close>.\<close>

definition bad_units :: "json option \<Rightarrow> bool" where
  "bad_units units = (case units of None \<Rightarrow> False
     | Some v \<Rightarrow> (case num_of v of None \<Rightarrow> True | Some r \<Rightarrow> r \<le> 0))"

definition deploy_capacity ::
  "uuid \<Rightarrow> json option \<Rightarrow> resource_row \<Rightarrow> time \<Rightarrow> uuid \<Rightarrow> (db, unit) tx" where
  "deploy_capacity resource_id units r started_at source_event_id d =
    (case units of
       None \<Rightarrow> (Inl (InvariantViolation ''R2'' ''capacity deploy requires quantity.units''), d)
     | Some u \<Rightarrow>
        (case bind_result (py_int (dict_get_or (r_value r) ''available_units'' (JInt 0))) (\<lambda>available.
              bind_result (py_int u) (\<lambda>n. Inr (available, n))) of
           Inl e \<Rightarrow> (Inl e, d)
         | Inr (available, n) \<Rightarrow>
            if available < n then (Inl (InvariantViolation ''R1'' ''insufficient capacity''), d)
            else bind_tx (record_transaction resource_id Deploy [(''deployed_units'', JInt n)]
                   started_at source_event_id True) (\<lambda>_. return_tx ()) d))"

definition insert_deployment :: "deployment_row \<Rightarrow> (db, deployment_row) tx" where
  "insert_deployment row d =
    (if p_key row \<in> p_key ` set (deployments d)
     then (Inl (UniqueViolationError ''resource_deployments_pkey''), d)
     else if sel_commitment (p_commitment row) d = None
     then (Inl (ForeignKeyViolationError ''resource_deployments_commitment_id_fkey''), d)
     else (Inr row, d\<lparr>deployments := deployments d @ [row]\<rparr>))"

text \<open>
  The row of the deployment. The query for an existing row fetches \<open>released_at\<close>, which is
  \<open>None\<close> for a missing row and for an active one alike.
\<close>

definition deployment_row_for :: "uuid \<Rightarrow> uuid \<Rightarrow> dict \<Rightarrow> time \<Rightarrow> (db, deployment_row) tx" where
  "deployment_row_for resource_id commitment_id quantity started_at d =
    (case (case sel_deployment resource_id commitment_id d of
             None \<Rightarrow> None | Some p \<Rightarrow> p_released_at p) of
       Some _ \<Rightarrow> (Inl (InvariantViolation ''R5''
                    ''deployment for (resource_id, commitment_id) already exists''), d)
     | None \<Rightarrow> insert_deployment
         \<lparr>p_resource = resource_id, p_commitment = commitment_id, p_quantity = quantity,
          p_at = started_at, p_released_at = None\<rparr> d)"

definition deploy_inner ::
  "uuid \<Rightarrow> uuid \<Rightarrow> dict \<Rightarrow> json option \<Rightarrow> time \<Rightarrow> uuid \<Rightarrow> (db, deployment_row) tx" where
  "deploy_inner resource_id commitment_id quantity units started_at source_event_id d =
    (case sel_resource resource_id d of
       None \<Rightarrow> (Inl (ValidationError ''resource not found''), d)
     | Some r \<Rightarrow>
        bind_tx (if r_kind r = Capacity
                 then deploy_capacity resource_id units r started_at source_event_id
                 else return_tx ())
          (\<lambda>_. deployment_row_for resource_id commitment_id quantity started_at) d)"

definition deploy ::
  "uuid \<Rightarrow> uuid \<Rightarrow> dict \<Rightarrow> time option \<Rightarrow> uuid \<Rightarrow> bool \<Rightarrow> (db, deployment_row) tx" where
  "deploy resource_id commitment_id quantity started_at source_event_id supplied d =
    (let units = not_none (dict_get quantity ''units'') in
     if bad_units units
     then (Inl (InvariantViolation ''R2'' ''deploy quantity.units must be > 0''), d)
     else in_transaction supplied (deploy_inner resource_id commitment_id quantity units
       (case started_at of Some t \<Rightarrow> t | None \<Rightarrow> py_now d) source_event_id) d)"

text \<open>\<open>v > w\<close> on JSON values: numbers, or two strings.\<close>

definition py_greater :: "json \<Rightarrow> json \<Rightarrow> bool result" where
  "py_greater v w =
    (case (v, w) of
       (JStr s, JStr t) \<Rightarrow> Inr (s > t)
     | _ \<Rightarrow> (case (num_of v, num_of w) of (Some a, Some b) \<Rightarrow> Inr (a > b) | _ \<Rightarrow> Inl type_error))"

definition release_quantity ::
  "dict option \<Rightarrow> dict \<Rightarrow> resource_kind \<Rightarrow> dict result" where
  "release_quantity actual_quantity deployed_q kind =
    (case actual_quantity of
       None \<Rightarrow> Inr deployed_q
     | Some release_q \<Rightarrow>
        (case (dict_get release_q ''units'', dict_get deployed_q ''units'') of
           (Some ru, Some du) \<Rightarrow>
             if kind = Capacity then
               bind_result (py_greater ru du) (\<lambda>more. if more
                 then Inl (InvariantViolation ''R3'' ''release cannot exceed deployed quantity'')
                 else Inr release_q)
             else Inr release_q
         | _ \<Rightarrow> Inr release_q))"

definition release_inner ::
  "uuid \<Rightarrow> uuid \<Rightarrow> time \<Rightarrow> dict option \<Rightarrow> uuid \<Rightarrow> (db, deployment_row) tx" where
  "release_inner resource_id commitment_id released_at actual_quantity source_event_id d =
    (case (sel_deployment resource_id commitment_id d, sel_resource resource_id d) of
       (Some row, Some r) \<Rightarrow>
        if p_released_at row \<noteq> None then (Inr row, d)
        else
          (case release_quantity actual_quantity (p_quantity row) (r_kind r) of
             Inl e \<Rightarrow> (Inl e, d)
           | Inr release_q \<Rightarrow>
              bind_tx
                (case dict_get release_q ''units'' of
                   Some u \<Rightarrow>
                     if r_kind r = Capacity then
                       (case py_int u of
                          Inl e \<Rightarrow> raise_tx e
                        | Inr n \<Rightarrow> bind_tx (record_transaction resource_id Release
                              [(''deployed_units'', JInt n)] released_at source_event_id True)
                            (\<lambda>_. return_tx ()))
                     else return_tx ()
                 | None \<Rightarrow> return_tx ())
                (\<lambda>_ d. (Inr (row\<lparr>p_released_at := Some released_at\<rparr>),
                   d\<lparr>deployments := row_update p_key (resource_id, commitment_id)
                       (\<lambda>p. p\<lparr>p_released_at := Some released_at\<rparr>) (deployments d)\<rparr>)) d)
     | _ \<Rightarrow> (Inl (ValidationError ''deployment not found''), d))"

definition release ::
  "uuid \<times> uuid \<Rightarrow> time option \<Rightarrow> dict option \<Rightarrow> uuid \<Rightarrow> bool \<Rightarrow> (db, deployment_row) tx" where
  "release deployment_key released_at actual_quantity source_event_id supplied d =
    in_transaction supplied (release_inner (fst deployment_key) (snd deployment_key)
      (case released_at of Some t \<Rightarrow> t | None \<Rightarrow> py_now d) actual_quantity source_event_id) d"

definition active_deployments_for :: "uuid \<Rightarrow> db \<Rightarrow> deployment_row list" where
  "active_deployments_for resource_id d =
    sort_key (\<lambda>p. - p_at p)
      (filter (\<lambda>p. p_resource p = resource_id \<and> p_released_at p = None) (deployments d))"

definition deployments_for_commitment :: "uuid \<Rightarrow> bool \<Rightarrow> db \<Rightarrow> deployment_row list" where
  "deployments_for_commitment commitment_id include_released d =
    sort_key (\<lambda>p. - p_at p)
      (filter (\<lambda>p. p_commitment p = commitment_id \<and> (include_released \<or> p_released_at p = None))
        (deployments d))"

section \<open>What the parts of a deployment do\<close>

definition pair_error :: "deployment_row \<Rightarrow> err" where
  "pair_error p = (if p_released_at p = None then UniqueViolationError ''resource_deployments_pkey''
     else InvariantViolation ''R5'' ''deployment for (resource_id, commitment_id) already exists'')"

lemma sel_deployment_in:
  "sel_deployment res com d = Some p \<Longrightarrow> p \<in> set (deployments d) \<and> p_key p = (res, com)"
  by (auto simp: sel_deployment_def dest: row_at_Some)

lemma deployment_row_for_existing:
  assumes "sel_deployment res com d = Some p"
  shows "deployment_row_for res com quantity t d = (Inl (pair_error p), d)"
proof -
  have "(res, com) \<in> p_key ` set (deployments d)" using sel_deployment_in [OF assms] by force
  then show ?thesis using assms
    by (auto simp: deployment_row_for_def insert_deployment_def p_key_def pair_error_def split: option.split)
qed

lemma deployment_row_for_new:
  assumes "deployment_row_for res com quantity t d = (Inr row, d')"
  shows "row = \<lparr>p_resource = res, p_commitment = com, p_quantity = quantity, p_at = t, p_released_at = None\<rparr> \<and>
    sel_deployment res com d = None \<and> d' = d\<lparr>deployments := deployments d @ [row]\<rparr> \<and>
    sel_commitment com d \<noteq> None"
proof (cases "sel_deployment res com d")
  case None
  with assms show ?thesis
    by (auto simp: deployment_row_for_def insert_deployment_def split: if_splits)
next
  case (Some p)
  with assms deployment_row_for_existing [OF Some] show ?thesis by simp
qed

lemma record_supplied:
  "record_transaction i kind delta t src True d = (r, d') \<Longrightarrow>
    d' = d \<and> isl r \<or> record_transaction_inner i kind delta t src d = (r, d')"
  by (auto simp: record_transaction_def in_transaction_def split: if_splits)

lemma record_deployments:
  assumes "record_transaction i kind delta t src True d = (r, d')"
  shows "deployments d' = deployments d"
  using record_supplied [OF assms] record_transaction_inner_result by blast

lemma deploy_capacity_deployments:
  assumes "deploy_capacity res units row t src d = (q, d')"
  shows "deployments d' = deployments d"
  using assms
  by (auto simp: deploy_capacity_def bind_tx_def return_tx_def
      split: option.splits sum.splits prod.splits if_splits dest: record_deployments)

section \<open>Who may deploy\<close>

text \<open>
  a pair of a resource and a commitment is deployed at most once: once a deployment row for
  the pair exists, \<open>deploy\<close> never returns. A released row is answered with R5, an active one
  with the primary key's exception, unless an earlier check already raised.
\<close>

theorem deploy_pair_once:
  assumes "sel_deployment res com d = Some p"
  shows "isl (fst (deploy res com quantity started_at src supplied d)) \<and>
    (\<forall>row. sel_resource res d = Some row \<and> r_kind row \<noteq> Capacity \<and>
       \<not> bad_units (not_none (dict_get quantity ''units'')) \<longrightarrow>
       fst (deploy res com quantity started_at src supplied d) = Inl (pair_error p))"
proof -
  have inner: "isl (fst (deploy_inner res com quantity units t src d)) \<and>
      (\<forall>row. sel_resource res d = Some row \<and> r_kind row \<noteq> Capacity \<longrightarrow>
        fst (deploy_inner res com quantity units t src d) = Inl (pair_error p))" for units t
  proof (cases "sel_resource res d")
    case None
    then show ?thesis by (simp add: deploy_inner_def)
  next
    case (Some row)
    show ?thesis
    proof (cases "r_kind row = Capacity")
      case False
      with Some deployment_row_for_existing [OF assms] show ?thesis
        by (simp add: deploy_inner_def bind_tx_def return_tx_def)
    next
      case True
      obtain q dd where q: "deploy_capacity res units row t src d = (q, dd)"
        by (cases "deploy_capacity res units row t src d")
      have "sel_deployment res com dd = Some p"
        using assms deploy_capacity_deployments [OF q] by (simp add: sel_deployment_def)
      with Some True q show ?thesis
        by (auto simp: deploy_inner_def bind_tx_def deployment_row_for_existing split: sum.splits)
    qed
  qed
  have "fst (in_transaction supplied m d) = fst (m d)" for m :: "(db, deployment_row) tx"
    by (simp add: in_transaction_def atomically_def split: prod.split sum.split)
  with inner show ?thesis by (simp add: deploy_def Let_def)
qed

section \<open>The deployed units are the units of the active deployments\<close>

definition units_in :: "dict \<Rightarrow> int" where
  "units_in q = (case dict_get q ''units'' of None \<Rightarrow> 0
     | Some u \<Rightarrow> (case py_int u of Inl _ \<Rightarrow> 0 | Inr n \<Rightarrow> n))"

definition units_of :: "deployment_row \<Rightarrow> int" where
  "units_of p = units_in (p_quantity p)"

definition is_active :: "uuid \<Rightarrow> deployment_row \<Rightarrow> bool" where
  "is_active i p \<longleftrightarrow> p_resource p = i \<and> p_released_at p = None"

definition active_units :: "uuid \<Rightarrow> deployment_row list \<Rightarrow> int" where
  "active_units i ps = sum_list (map units_of (filter (is_active i) ps))"

text \<open>
  The deployed counter of the resource \<open>i\<close> is the sum of the units of its active deployments and
  \<open>k\<close> more, the units that earlier releases did not return.
\<close>

definition tracked :: "int \<Rightarrow> uuid \<Rightarrow> db \<Rightarrow> bool" where
  "tracked k i d \<longleftrightarrow> 0 \<le> k \<and> distinct (map p_key (deployments d)) \<and>
    (\<forall>p \<in> set (deployments d). is_active i p \<longrightarrow> 0 \<le> units_of p) \<and>
    (\<exists>row t av. sel_resource i d = Some row \<and> r_kind row = Capacity \<and>
       counters (r_value row) t (active_units i (deployments d) + k) av)"

lemma p_key_released [simp]: "p_key (p\<lparr>p_released_at := t\<rparr>) = p_key p"
  by (simp add: p_key_def)

lemma active_units_release:
  assumes "distinct (map p_key ps)" and "row \<in> set ps" and "p_key row = (res, com)"
    and "p_released_at row = None"
  shows "active_units i (row_update p_key (res, com) (\<lambda>p. p\<lparr>p_released_at := Some t\<rparr>) ps) =
    active_units i ps - (if res = i then units_of row else 0)"
  using assms(1,2)
proof (induction ps)
  case (Cons p ps)
  let ?f = "\<lambda>p. p\<lparr>p_released_at := Some t\<rparr>"
  have other: "row_update p_key (res, com) ?f ps = ps" if "(res, com) \<notin> p_key ` set ps"
    using that by (induction ps) (auto simp: row_update_def)
  show ?case
  proof (cases "p_key p = (res, com)")
    case True
    with Cons.prems have "p = row"
      using assms(3) by (metis distinct.simps(2) image_eqI list.set_map list.simps(9) set_ConsD)
    moreover from True Cons.prems(1) have "(res, com) \<notin> p_key ` set ps" by auto
    moreover have "p_resource row = res" using assms(3) by (simp add: p_key_def)
    ultimately show ?thesis
      using other True assms(4) by (simp add: row_update_def active_units_def is_active_def)
  next
    case False
    with Cons.prems assms(3) have "row \<in> set ps" by auto
    with Cons.IH Cons.prems False show ?thesis
      by (cases "res = i") (simp_all add: row_update_def active_units_def)
  qed
qed simp

lemma active_units_nonneg: "\<forall>p \<in> set ps. is_active i p \<longrightarrow> 0 \<le> units_of p \<Longrightarrow> 0 \<le> active_units i ps"
  unfolding active_units_def by (rule sum_list_nonneg) auto

lemma active_units_ge:
  assumes "\<forall>p \<in> set ps. is_active i p \<longrightarrow> 0 \<le> units_of p" and "row \<in> set ps" and "is_active i row"
  shows "units_of row \<le> active_units i ps"
  using assms
proof (induction ps)
  case (Cons p ps)
  then show ?case
    using active_units_nonneg [of ps i] by (auto simp: active_units_def)
qed simp

lemma positive_units:
  assumes "\<not> bad_units (Some u)" and "py_int u = Inr n"
  shows "0 \<le> n"
  using assms by (cases u) (auto simp: bad_units_def trunc_real_def split: if_splits)

lemma not_none_Some: "not_none v = Some u \<longleftrightarrow> v = Some u \<and> u \<noteq> JNull"
  by (auto simp: not_none_def split: option.splits json.splits)

text \<open>What a transaction on one resource does to a resource that is tracked.\<close>

lemma record_counters:
  assumes "record_transaction j kind [(''deployed_units'', JInt n)] t src True d = (Inr x, d')"
    and "sel_resource i d = Some row" and "r_kind row = Capacity"
    and "counters (r_value row) tot dep av"
  shows "deployments d' = deployments d \<and> (\<exists>row'. sel_resource i d' = Some row' \<and> r_kind row' = Capacity \<and>
    (j \<noteq> i \<longrightarrow> row' = row) \<and>
    (j = i \<longrightarrow> kind = Deploy \<longrightarrow> counters (r_value row') tot (dep + n) (av - n)) \<and>
    (j = i \<longrightarrow> kind = Release \<longrightarrow> counters (r_value row') tot (max 0 (dep - n)) (av + n)))"
proof -
  from record_supplied [OF assms(1)]
  have "record_transaction_inner j kind [(''deployed_units'', JInt n)] t src d = (Inr x, d')" by simp
  from record_transaction_inner_result [OF this] obtain row0 cv util where
    row0: "sel_resource j d = Some row0"
    and plan: "plan_transaction row0 kind [(''deployed_units'', JInt n)] = Inr (cv, util)"
    and dep: "deployments d' = deployments d"
    and sel: "\<forall>k. sel_resource k d' = (if k = j then Some (post_row cv util (db_now d) src row0)
         else sel_resource k d)"
    by auto
  have "apply_delta (r_value row0) [(''deployed_units'', JInt n)] (r_kind row0) kind = Inr cv"
    using plan by (auto simp: plan_transaction_def bind_result_Inr split: if_splits)
  then show ?thesis
    using dep sel assms(2,3) row0 apply_capacity_counters(1,2) [OF assms(4) delta_units_units(2)]
    by (cases "j = i") auto
qed

lemma deploy_tracked:
  assumes tr: "tracked k i d" and run: "deploy j com quantity st src s d = (Inr p, d')"
  shows "tracked k i d'"
proof -
  obtain row tot av where row: "sel_resource i d = Some row" "r_kind row = Capacity"
    "counters (r_value row) tot (active_units i (deployments d) + k) av"
    using tr by (auto simp: tracked_def)
  let ?units = "not_none (dict_get quantity ''units'')"
  from run obtain t where good: "\<not> bad_units ?units"
    and inner: "deploy_inner j com quantity ?units t src d = (Inr p, d')"
    by (cases s) (auto simp: deploy_def Let_def in_transaction_def tx_simps split: if_splits)
  obtain r where r: "sel_resource j d = Some r"
    using inner by (auto simp: deploy_inner_def split: option.splits)
  obtain dd where step: "(if r_kind r = Capacity then deploy_capacity j ?units r t src else return_tx ()) d
      = (Inr (), dd)" and tail: "deployment_row_for j com quantity t dd = (Inr p, d')"
    using inner r by (auto simp: deploy_inner_def tx_simps)
  have dd: "deployments dd = deployments d \<and> (\<exists>row'. sel_resource i dd = Some row' \<and> r_kind row' = Capacity \<and>
      counters (r_value row') tot (active_units i (deployments d) + k + (if j = i then units_of p else 0))
        (if j = i then av - units_of p else av)) \<and> (j = i \<longrightarrow> 0 \<le> units_of p)"
  proof (cases "r_kind r = Capacity")
    case False
    with step r row show ?thesis by (auto simp: tx_simps)
  next
    case True
    with step obtain u n x where u: "?units = Some u" "py_int u = Inr n"
      and rec: "record_transaction j Deploy [(''deployed_units'', JInt n)] t src True d = (Inr x, dd)"
      by (auto simp: deploy_capacity_def tx_simps bind_result_Inr split: option.splits sum.splits if_splits)
    have "units_of p = n"
      using deployment_row_for_new [OF tail] u by (simp add: units_of_def units_in_def not_none_Some)
    with record_counters [OF rec row] positive_units [OF good [unfolded u] u(2)] row show ?thesis
      by auto
  qed
  have new: "p_resource p = j" "p_released_at p = None" "p_key p = (j, com)"
    "d' = dd\<lparr>deployments := deployments dd @ [p]\<rparr>" "sel_deployment j com dd = None"
    using deployment_row_for_new [OF tail] by (simp_all add: p_key_def)
  have fresh: "(j, com) \<notin> p_key ` set (deployments d)"
    using new(5) dd by (simp add: sel_deployment_def row_at_None)
  have sel': "sel_resource i d' = sel_resource i dd" by (simp add: new(4) sel_resource_def)
  have "active_units i (deployments d') = active_units i (deployments d) + (if j = i then units_of p else 0)"
    using new dd by (simp add: active_units_def is_active_def)
  then show ?thesis
    using tr dd new(1,2,3) fresh sel' new(4) by (auto simp: tracked_def is_active_def algebra_simps)
qed

text \<open>
  A release closes the deployment; what it returns to the resource are the units the caller names,
  all of them by default.
\<close>

definition returned :: "dict option \<Rightarrow> deployment_row \<Rightarrow> int" where
  "returned actual q = (case actual of None \<Rightarrow> units_of q | Some a \<Rightarrow> units_in a)"

lemma release_tracked:
  assumes tr: "tracked k i d" and run: "release (j, com) rt actual src s d = (Inr p, d')"
    and q: "sel_deployment j com d = Some q" and le: "returned actual q \<le> units_of q"
  shows "tracked (k + (if j = i \<and> p_released_at q = None then units_of q - returned actual q else 0)) i d'"
proof -
  obtain row tot av where row: "sel_resource i d = Some row" "r_kind row = Capacity"
    "counters (r_value row) tot (active_units i (deployments d) + k) av"
    using tr by (auto simp: tracked_def)
  from run obtain t where inner: "release_inner j com t actual src d = (Inr p, d')"
    by (cases s) (auto simp: release_def in_transaction_def tx_simps)
  obtain r where r: "sel_resource j d = Some r"
    using inner q by (auto simp: release_inner_def split: option.splits)
  show ?thesis
  proof (cases "p_released_at q")
    case (Some t')
    with inner q r tr show ?thesis by (simp add: release_inner_def)
  next
    case None
    define rq where "rq = (case actual of None \<Rightarrow> p_quantity q | Some a \<Rightarrow> a)"
    have ret: "returned actual q = units_in rq" by (simp add: returned_def rq_def units_of_def split: option.split)
    let ?step = "case dict_get rq ''units'' of
        Some u \<Rightarrow> if r_kind r = Capacity then (case py_int u of Inl e \<Rightarrow> raise_tx e
            | Inr n \<Rightarrow> bind_tx (record_transaction j Release [(''deployed_units'', JInt n)] t src True)
                (\<lambda>_. return_tx ()))
          else return_tx ()
      | None \<Rightarrow> return_tx ()"
    let ?upd = "row_update p_key (j, com) (\<lambda>p. p\<lparr>p_released_at := Some t\<rparr>)"
    have quantity: "release_quantity actual (p_quantity q) (r_kind r) = Inr x \<Longrightarrow> x = rq" for x
      by (auto simp: release_quantity_def rq_def bind_result_Inr split: option.splits if_splits)
    obtain dd where step: "?step d = (Inr (), dd)"
      and d': "d' = dd\<lparr>deployments := ?upd (deployments dd)\<rparr>"
    proof -
      obtain x where x: "release_quantity actual (p_quantity q) (r_kind r) = Inr x"
        using inner q r None by (auto simp: release_inner_def split: sum.splits)
      show ?thesis
        using inner q r None quantity [OF x] x that by (auto simp: release_inner_def tx_simps)
    qed
    note qin = sel_deployment_in [OF q]
    have units: "j = i \<Longrightarrow> 0 \<le> units_of q \<and> units_of q \<le> active_units i (deployments d)"
      using tr qin None active_units_ge [of "deployments d" i q]
      by (auto simp: tracked_def is_active_def p_key_def)
    have k: "0 \<le> k" using tr by (simp add: tracked_def)
    have dd: "deployments dd = deployments d \<and> (\<exists>row' av'. sel_resource i dd = Some row' \<and>
        r_kind row' = Capacity \<and> counters (r_value row') tot
          (active_units i (deployments d) + k - (if j = i then units_in rq else 0)) av')"
    proof (cases "r_kind r = Capacity \<and> dict_get rq ''units'' \<noteq> None")
      case False
      with step r row have "dd = d" by (auto simp: tx_simps split: option.splits if_splits)
      moreover have "units_in rq = 0" if "j = i" using False that r row
        by (simp add: units_in_def)
      ultimately show ?thesis using row by auto
    next
      case True
      with step obtain u n x where u: "dict_get rq ''units'' = Some u" "py_int u = Inr n"
        and rec: "record_transaction j Release [(''deployed_units'', JInt n)] t src True d = (Inr x, dd)"
        by (auto simp: tx_simps split: option.splits sum.splits if_splits)
      have n: "units_in rq = n" using u by (simp add: units_in_def)
      have "max 0 (active_units i (deployments d) + k - n) = active_units i (deployments d) + k - n" if "j = i"
        using units [OF that] le k unfolding ret n by simp
      with record_counters [OF rec row] row n show ?thesis by fastforce
    qed
    then obtain row' av' where row': "deployments dd = deployments d" "sel_resource i dd = Some row'"
      "r_kind row' = Capacity" "counters (r_value row') tot
          (active_units i (deployments d) + k - (if j = i then units_in rq else 0)) av'"
      by blast
    let ?k = "k + (if j = i \<and> p_released_at q = None then units_of q - returned actual q else 0)"
    have act: "active_units i (deployments d') = active_units i (deployments d) - (if j = i then units_of q else 0)"
      using active_units_release [of "deployments d" q j com i t] tr qin None dd
      by (simp add: d' tracked_def)
    have "map p_key (deployments d') = map p_key (deployments d)"
      using dd by (simp add: d' row_update_keys)
    then have "distinct (map p_key (deployments d'))" using tr by (simp add: tracked_def)
    moreover have "\<forall>p \<in> set (deployments d'). is_active i p \<longrightarrow> 0 \<le> units_of p"
      using tr dd by (auto simp: d' tracked_def in_row_update is_active_def split: if_splits)
    moreover have "sel_resource i d' = Some row'" using row'(2) by (simp add: d' sel_resource_def)
    moreover have "active_units i (deployments d') + ?k =
        active_units i (deployments d) + k - (if j = i then units_in rq else 0)"
      unfolding act ret using None by simp
    then have "counters (r_value row') tot (active_units i (deployments d') + ?k) av'"
      using row'(4) by (simp only:)
    moreover have "0 \<le> ?k" using k le by simp
    ultimately show ?thesis using row'(3) unfolding tracked_def by blast
  qed
qed

text \<open>
  C18: the deployed counter of a capacity resource, compared with the sum of the units of its active
  deployments: deployments and full releases keep the difference, whatever resource they are on;
  a release that returns fewer units than were deployed closes the deployment and adds the units
  it did not return to the difference, where they stay. So the counter is that sum exactly as long
  as units are only deployed and fully released.
\<close>

theorem deployed_units_tracked:
  assumes "tracked k i d"
  shows "(deploy j com quantity st src s d = (Inr p, d') \<longrightarrow> tracked k i d') \<and>
    (release (j, com) rt None src s d = (Inr p, d') \<longrightarrow> tracked k i d') \<and>
    (\<forall>q. release (j, com) rt (Some actual) src s d = (Inr p, d') \<longrightarrow> sel_deployment j com d = Some q \<longrightarrow>
      units_in actual \<le> units_of q \<longrightarrow>
      tracked (k + (if j = i \<and> p_released_at q = None then units_of q - units_in actual else 0)) i d')"
proof (intro conjI allI impI)
  assume "deploy j com quantity st src s d = (Inr p, d')"
  then show "tracked k i d'" by (rule deploy_tracked [OF assms])
next
  assume run: "release (j, com) rt None src s d = (Inr p, d')"
  then obtain q where "sel_deployment j com d = Some q"
    by (cases s) (auto simp: release_def in_transaction_def tx_simps release_inner_def split: option.splits)
  note q = this
  have "returned None q \<le> units_of q" by (simp add: returned_def)
  from release_tracked [OF assms run q this] show "tracked k i d'" by (simp add: returned_def cong: if_cong)
next
  fix q
  assume "release (j, com) rt (Some actual) src s d = (Inr p, d')" "sel_deployment j com d = Some q"
    "units_in actual \<le> units_of q"
  then show "tracked (k + (if j = i \<and> p_released_at q = None then units_of q - units_in actual else 0)) i d'"
    using release_tracked [OF assms, of j com rt "Some actual" src s p d' q] by (simp add: returned_def cong: if_cong)
qed

definition ex_commitment :: "uuid \<Rightarrow> commitment_row" where
  "ex_commitment i = \<lparr>c_id = i, c_tenant = 7, c_title = ''t'', c_description = None, c_state = Active,
     c_owner = Some 0, c_due = None, c_ambition = ''base'', c_priority = 5, c_success_criteria = None,
     c_resolved = [], c_counterparty = None, c_capacity = None, c_maintenance = True, c_created_at = 0,
     c_changed_at = 0, c_terminal_at = None, c_created_by = 0, c_basis = None\<rparr>"

definition crew_db :: db where
  "crew_db = pool_db\<lparr>commitments := [ex_commitment 2, ex_commitment 3],
     deployments := [\<lparr>p_resource = 1, p_commitment = 2, p_quantity = [(''units'', JInt 4)], p_at = 0,
       p_released_at = None\<rparr>]\<rparr>"

lemma crew_db_tracked: "tracked 0 1 crew_db"
proof -
  have "active_units 1 (deployments crew_db) = 4"
    by (simp add: crew_db_def active_units_def is_active_def units_of_def units_in_def dict_get_def)
  moreover have "\<forall>p \<in> set (deployments crew_db). 0 \<le> units_of p"
    by (simp add: crew_db_def units_of_def units_in_def dict_get_def)
  moreover have "sel_resource 1 crew_db = Some (hd (resources pool_db))"
    by (simp add: crew_db_def pool_db_def sel_resource_def row_simps)
  moreover have "r_kind (hd (resources pool_db)) = Capacity" "r_value (hd (resources pool_db)) = pool_10"
    by (simp_all add: pool_db_def)
  ultimately show ?thesis
    using pool_10_counters unfolding tracked_def by (auto simp: crew_db_def)
qed

definition crew_db' :: db where
  "crew_db' = snd (deploy 1 3 [(''units'', JInt 6)] None 9 True crew_db)"

lemma crew_deploy:
  "deploy 1 3 [(''units'', JInt 6)] None 9 True crew_db =
    (Inr \<lparr>p_resource = 1, p_commitment = 3, p_quantity = [(''units'', JInt 6)], p_at = 0,
       p_released_at = None\<rparr>, crew_db')"
  unfolding crew_db'_def by code_simp

lemma crew_release:
  "isl (fst (release (1, 2) None None 9 True crew_db)) = False"
  by code_simp

lemma crew_active: "sel_deployment 1 2 crew_db = Some \<lparr>p_resource = 1, p_commitment = 2,
    p_quantity = [(''units'', JInt 4)], p_at = 0, p_released_at = None\<rparr>"
  by code_simp

definition crew_db_partial :: db where
  "crew_db_partial = snd (release (1, 2) None (Some [(''units'', JInt 3)]) 9 True crew_db)"

theorem deployed_units_tracked_witness: "tracked 0 1 crew_db' \<and> tracked 1 1 crew_db_partial"
proof
  show "tracked 0 1 crew_db'"
    using deployed_units_tracked [OF crew_db_tracked, of 1 3 "[(''units'', JInt 6)]" None 9 True
        "\<lparr>p_resource = 1, p_commitment = 3, p_quantity = [(''units'', JInt 6)], p_at = 0,
          p_released_at = None\<rparr>" crew_db']
      crew_deploy by blast
  have "\<not> isl (fst (release (1, 2) None (Some [(''units'', JInt 3)]) 9 True crew_db))" by code_simp
  then obtain p where "release (1, 2) None (Some [(''units'', JInt 3)]) 9 True crew_db = (Inr p, crew_db_partial)"
    unfolding crew_db_partial_def
    by (cases "release (1, 2) None (Some [(''units'', JInt 3)]) 9 True crew_db";
        cases "fst (release (1, 2) None (Some [(''units'', JInt 3)]) 9 True crew_db)") auto
  from deployed_units_tracked [OF crew_db_tracked, THEN conjunct2, THEN conjunct2, rule_format, OF this crew_active]
  show "tracked 1 1 crew_db_partial" by (simp add: units_of_def units_in_def dict_get_def)
qed

theorem deploy_pair_once_witness:
  "isl (fst (deploy 1 2 [(''units'', JInt 1)] None 9 True crew_db))"
  using deploy_pair_once [OF crew_active] by blast

text \<open>
  A partial release loses units. The row is closed by any release, but only the units the
  caller names go back to the resource: after \<open>release\<close> with two of the four deployed units
  no deployment of the resource is active, and its deployed counter is still two. R3 only
  bounds the released units from above.
\<close>

theorem partial_release_strands_units:
  "(let d' = snd (release (1, 2) None (Some [(''units'', JInt 2)]) 9 True crew_db)
    in active_deployments_for 1 crew_db \<noteq> [] \<and> active_deployments_for 1 d' = [] \<and>
       map_option (\<lambda>r. dict_get (r_value r) ''deployed_units'') (sel_resource 1 d') = Some (Some (JInt 2)))"
  by code_simp

end
