(* ===== verification/Resources.thy ===== *)
theory Resources
  imports Deployments
begin

text \<open>
  \<open>services/domain/resources/repo.py\<close>: creating, editing, archiving and reading resources.
  The last section says what no operation on resources, of this theory, of \<open>Ledger\<close> and of
  \<open>Deployments\<close>, ever undoes. The trigram search is a query PostgreSQL answers and is not
  modelled.
\<close>

section \<open>Literals\<close>

definition VALID_KINDS :: "resource_kind list" where
  "VALID_KINDS = [Financial, Ip, Relational, Capacity, Infrastructure, Regulatory]"

definition VALID_UTILIZATION :: "utilization list" where
  "VALID_UTILIZATION = [Available, Deployed, Committed, Depleted, Expired]"

definition VALID_CONTROLLABILITY :: "string list" where
  "VALID_CONTROLLABILITY = [''owned'', ''joint'', ''borrowed'', ''leased'', ''limited'']"

definition VALID_TEMPORAL :: "string list" where
  "VALID_TEMPORAL = [''permanent'', ''time_limited'', ''renewable'', ''consumable'']"

text \<open>\<open>ResourceRow.model_validate\<close>: the literals; the columns have the other types already.\<close>

definition resource_row_from_record :: "resource_row \<Rightarrow> resource_row result" where
  "resource_row_from_record row =
    (if r_kind row \<in> set VALID_KINDS \<and> r_util row \<in> set VALID_UTILIZATION \<and>
        r_controllability row \<in> set VALID_CONTROLLABILITY \<and> r_temporal row \<in> set VALID_TEMPORAL
     then Inr row else Inl pydantic_error)"

section \<open>Operations\<close>

record resource_input =
  ri_kind :: resource_kind
  ri_identity :: string
  ri_description :: "string option"
  ri_value :: json
  ri_util :: utilization
  ri_controllability :: string
  ri_temporal :: string
  ri_confidence :: real
  ri_metadata :: "dict option"
  ri_created_by :: uuid
  ri_tenant :: uuid

definition resource_input_check :: "resource_input \<Rightarrow> err option" where
  "resource_input_check inp =
    then_check (fails (ri_kind inp \<notin> set VALID_KINDS)
      (ValidationError (''invalid resource kind '' @ py_repr (resource_kind_text (ri_kind inp)))))
    (then_check (fails (ri_util inp \<notin> set VALID_UTILIZATION)
      (ValidationError (''invalid utilization_state '' @ py_repr (utilization_text (ri_util inp)))))
    (then_check (fails (ri_controllability inp \<notin> set VALID_CONTROLLABILITY)
      (ValidationError (''invalid controllability '' @ py_repr (ri_controllability inp))))
    (then_check (fails (ri_temporal inp \<notin> set VALID_TEMPORAL)
      (ValidationError (''invalid temporal_character '' @ py_repr (ri_temporal inp))))
    (then_check (fails (blank (ri_identity inp)) (ValidationError ''identity is required''))
      (case ri_value inp of JObj _ \<Rightarrow> None
       | _ \<Rightarrow> Some (ValidationError ''current_value must be a dict''))))))"

definition new_resource :: "resource_input \<Rightarrow> uuid \<Rightarrow> time \<Rightarrow> resource_row" where
  "new_resource inp resource_id now =
    \<lparr>r_id = resource_id, r_tenant = ri_tenant inp, r_kind = ri_kind inp, r_identity = ri_identity inp,
     r_description = ri_description inp,
     r_value = (case ri_value inp of JObj cv \<Rightarrow> cv | _ \<Rightarrow> []),
     r_confidence = ri_confidence inp, r_util = ri_util inp,
     r_controllability = ri_controllability inp, r_temporal = ri_temporal inp,
     r_metadata = ri_metadata inp, r_created_at = now, r_updated_at = now,
     r_updated_by = Some (ri_created_by inp), r_archived_at = None\<rparr>"

definition resource_create_inner :: "resource_input \<Rightarrow> (db, resource_row) tx" where
  "resource_create_inner inp d =
    (let (resource_id, d) = take_uuid d;
         row = new_resource inp resource_id (db_now d);
         d = ins_resource row d;
         (obs_id, d) = emit_state_change ''resource_created'' resource_id (ri_tenant inp)
           (Some (ri_created_by inp))
           (Some [(''resource_kind'', JStr (resource_kind_text (ri_kind inp))),
                  (''identity'', JStr (ri_identity inp)),
                  (''utilization_state'', JStr (utilization_text (ri_util inp)))])
           None None (Some ''resource'') d
     in (resource_row_from_record row, d))"

definition resource_create :: "resource_input \<Rightarrow> bool \<Rightarrow> (db, resource_row) tx" where
  "resource_create inp supplied =
    bind_tx (check_tx (\<lambda>_. resource_input_check inp))
      (\<lambda>_. in_transaction supplied (resource_create_inner inp))"

definition update_resource_row ::
  "dict option \<Rightarrow> dict option \<Rightarrow> string option \<Rightarrow> uuid \<Rightarrow> time \<Rightarrow> resource_row \<Rightarrow> resource_row" where
  "update_resource_row patch metadata_patch description event now row =
    (let new_cv = (case patch of None \<Rightarrow> r_value row | Some p \<Rightarrow> dict_update (r_value row) p);
         old_meta = (case r_metadata row of None \<Rightarrow> [] | Some m \<Rightarrow> m);
         new_meta = (case metadata_patch of None \<Rightarrow> old_meta | Some p \<Rightarrow> dict_update old_meta p)
     in row\<lparr>r_value := new_cv, r_metadata := (if new_meta = [] then None else Some new_meta),
          r_description := (case description of Some s \<Rightarrow> Some s | None \<Rightarrow> r_description row),
          r_updated_at := now, r_updated_by := Some event\<rparr>)"

definition update_attributes_inner ::
  "uuid \<Rightarrow> dict option \<Rightarrow> dict option \<Rightarrow> string option \<Rightarrow> uuid \<Rightarrow> (db, resource_row) tx" where
  "update_attributes_inner resource_id patch metadata_patch description event d =
    (case sel_resource resource_id d of
       None \<Rightarrow> (Inl (ValidationError ''resource not found''), d)
     | Some row \<Rightarrow>
        if r_archived_at row \<noteq> None
        then (Inl (InvariantViolation ''R4'' ''cannot update archived resource''), d)
        else
          let updated = update_resource_row patch metadata_patch description event (db_now d) row;
              d = upd_resource resource_id
                (update_resource_row patch metadata_patch description event (db_now d)) d;
              (obs_id, d) = emit_state_change ''resource_updated'' resource_id (r_tenant row)
                (Some event)
                (Some [(''resource_kind'', JStr (resource_kind_text (r_kind row))),
                       (''patch_keys'', JList (map JStr (case patch of None \<Rightarrow> [] | Some p \<Rightarrow> sort (map fst p))))])
                None None (Some ''resource'') d
          in (resource_row_from_record updated, d))"

definition update_attributes ::
  "uuid \<Rightarrow> dict option \<Rightarrow> dict option \<Rightarrow> string option \<Rightarrow> uuid \<Rightarrow> bool \<Rightarrow> (db, resource_row) tx" where
  "update_attributes resource_id patch metadata_patch description event supplied d =
    (if patch = None \<and> metadata_patch = None \<and> description = None
     then (Inl (ValidationError ''update_attributes requires at least one of patch, metadata_patch, or description''), d)
     else in_transaction supplied
       (update_attributes_inner resource_id patch metadata_patch description event) d)"

definition archive_row :: "time \<Rightarrow> resource_row \<Rightarrow> resource_row" where
  "archive_row now row = row\<lparr>r_archived_at := Some now, r_updated_at := now\<rparr>"

definition archive_inner :: "uuid \<Rightarrow> string \<Rightarrow> uuid option \<Rightarrow> (db, resource_row) tx" where
  "archive_inner resource_id reason cause_event_id d =
    (case sel_resource resource_id d of
       None \<Rightarrow> (Inl (ValidationError ''resource not found''), d)
     | Some row \<Rightarrow>
        if r_archived_at row \<noteq> None then (resource_row_from_record row, d)
        else
          let updated = archive_row (db_now d) row;
              d = upd_resource resource_id (archive_row (db_now d)) d;
              (obs_id, d) = emit_state_change ''resource_archived'' resource_id (r_tenant row)
                cause_event_id
                (Some [(''reason'', JStr reason),
                       (''resource_kind'', JStr (resource_kind_text (r_kind row)))])
                None None (Some ''resource'') d
          in (resource_row_from_record updated, d))"

definition archive :: "uuid \<Rightarrow> string \<Rightarrow> uuid option \<Rightarrow> bool \<Rightarrow> (db, resource_row) tx" where
  "archive resource_id reason cause_event_id supplied =
    in_transaction supplied (archive_inner resource_id reason cause_event_id)"

definition resource_get :: "uuid \<Rightarrow> bool \<Rightarrow> db \<Rightarrow> resource_row option result" where
  "resource_get resource_id include_archived d =
    (case sel_resource resource_id d of
       Some row \<Rightarrow>
         if include_archived \<or> r_archived_at row = None
         then bind_result (resource_row_from_record row) (\<lambda>r. Inr (Some r)) else Inr None
     | None \<Rightarrow> Inr None)"

primrec all_results :: "'a result list \<Rightarrow> 'a list result" where
  "all_results [] = Inr []"
| "all_results (r # rs) = bind_result r (\<lambda>x. bind_result (all_results rs) (\<lambda>xs. Inr (x # xs)))"

definition search_by_kind ::
  "resource_kind \<Rightarrow> uuid \<Rightarrow> bool \<Rightarrow> nat option \<Rightarrow> db \<Rightarrow> resource_row list result" where
  "search_by_kind kind tenant_id include_archived limit d =
    (if kind \<notin> set VALID_KINDS
     then Inl (ValidationError (''invalid resource kind '' @ py_repr (resource_kind_text kind)))
     else
       let rows = sort_key (\<lambda>r. - r_created_at r)
             (filter (\<lambda>r. r_tenant r = tenant_id \<and> r_kind r = kind \<and>
                (include_archived \<or> r_archived_at r = None)) (resources d))
       in all_results (map resource_row_from_record
            (case limit of None \<Rightarrow> rows | Some n \<Rightarrow> take n rows)))"

section \<open>What no operation on resources undoes\<close>

definition same_resource :: "resource_row \<Rightarrow> resource_row \<Rightarrow> bool" where
  "same_resource r r' \<longleftrightarrow> r_id r' = r_id r \<and> r_tenant r' = r_tenant r \<and> r_kind r' = r_kind r \<and>
    r_identity r' = r_identity r \<and> r_created_at r' = r_created_at r \<and>
    (r_archived_at r \<noteq> None \<longrightarrow> r' = r)"

definition history_kept :: "db \<Rightarrow> db \<Rightarrow> bool" where
  "history_kept d d' \<longleftrightarrow>
    (\<exists>xs. ledger d' = ledger d @ xs) \<and> (\<exists>os. observations d' = observations d @ os) \<and>
    commitments d' = commitments d \<and> links d' = links d \<and>
    (\<forall>i r. sel_resource i d = Some r \<longrightarrow> (\<exists>r'. sel_resource i d' = Some r' \<and> same_resource r r'))"

lemma same_resource_refl [simp]: "same_resource r r"
  by (simp add: same_resource_def)

lemma same_resource_trans: "same_resource r s \<Longrightarrow> same_resource s t \<Longrightarrow> same_resource r t"
  by (auto simp: same_resource_def)

lemma history_refl [simp]: "history_kept d d"
  by (auto simp: history_kept_def)

lemma history_trans:
  assumes "history_kept d e" and "history_kept e f"
  shows "history_kept d f"
proof -
  have "\<exists>r'. sel_resource i f = Some r' \<and> same_resource r r'" if "sel_resource i d = Some r" for i r
    using assms that same_resource_trans unfolding history_kept_def by blast
  moreover have "\<exists>xs. ledger f = ledger d @ xs" "\<exists>os. observations f = observations d @ os"
    using assms by (auto simp: history_kept_def)
  moreover have "commitments f = commitments d" "links f = links d"
    using assms by (simp_all add: history_kept_def)
  ultimately show ?thesis by (simp add: history_kept_def)
qed

definition grows :: "(db, 'a) tx \<Rightarrow> bool" where
  "grows m \<longleftrightarrow> (\<forall>d. history_kept d (snd (m d)))"

lemma growsI: "(\<And>d. history_kept d (snd (m d))) \<Longrightarrow> grows m"
  by (simp add: grows_def)

lemma growsD: "grows m \<Longrightarrow> history_kept d (snd (m d))"
  by (simp add: grows_def)

named_theorems grows_intros \<open>operations that only add to the history\<close>

lemma grows_return [grows_intros]: "grows (return_tx x)"
  by (simp add: grows_def return_tx_def)

lemma grows_raise [grows_intros]: "grows (raise_tx e)"
  by (simp add: grows_def raise_tx_def)

lemma grows_check [grows_intros]: "grows (check_tx c)"
  by (simp add: grows_def check_tx_def split: option.split)

lemma grows_bind [grows_intros]:
  assumes "grows m" and "\<And>x. grows (f x)"
  shows "grows (bind_tx m f)"
proof (rule growsI)
  fix d
  show "history_kept d (snd (bind_tx m f d))"
    using growsD [OF assms(1), of d] growsD [OF assms(2)] history_trans
    by (cases "m d"; cases "fst (m d)") (auto simp: bind_tx_def)
qed

lemma grows_in_transaction [grows_intros]:
  assumes "grows m"
  shows "grows (in_transaction s m)"
proof (rule growsI)
  fix d
  show "history_kept d (snd (in_transaction s m d))"
    using growsD [OF assms, of d]
    by (cases "m d"; cases "fst (m d)") (simp_all add: in_transaction_def atomically_def)
qed

lemma emit_history: "history_kept d d' \<Longrightarrow> history_kept d (snd (emit_state_change k e t c m a oc ek d'))"
  by (erule history_trans)
    (auto simp: history_kept_def emit_state_change_def Let_def case_prod_beta take_uuid_def sel_resource_def)

lemma upd_history:
  assumes "history_kept d d'" and "\<And>r. sel_resource i d' = Some r \<Longrightarrow> same_resource r (f r)"
    and "\<And>r. r_id (f r) = r_id r"
  shows "history_kept d (upd_resource i f d')"
proof -
  have "history_kept d' (upd_resource i f d')"
    using assms(2) resource_store.sel_upd [of f, OF assms(3)]
    by (auto simp: history_kept_def) (auto simp: upd_resource_def)
  with assms(1) show ?thesis by (rule history_trans)
qed

lemma ins_history:
  assumes "history_kept d d'"
  shows "history_kept d (ins_resource r d')"
proof -
  have "history_kept d' (ins_resource r d')"
    using resource_store.sel_ins_mono [of _ d' _ r]
    by (auto simp: history_kept_def) (auto simp: ins_resource_def)
  with assms show ?thesis by (rule history_trans)
qed

lemma uuid_history: "history_kept d d' \<Longrightarrow> history_kept d (d'\<lparr>uuid_next := n\<rparr>)"
  by (simp add: history_kept_def sel_resource_def)

lemma ledger_history: "history_kept d d' \<Longrightarrow> history_kept d (d'\<lparr>ledger := ledger d' @ xs\<rparr>)"
  by (erule history_trans) (auto simp: history_kept_def sel_resource_def)

lemma deployments_history: "history_kept d d' \<Longrightarrow> history_kept d (d'\<lparr>deployments := ps\<rparr>)"
  by (simp add: history_kept_def sel_resource_def)

lemma ledger_uuid_history:
  "history_kept d d' \<Longrightarrow> history_kept d (d'\<lparr>uuid_next := n, ledger := ledger d' @ xs\<rparr>)"
  by (erule history_trans) (auto simp: history_kept_def sel_resource_def)

lemmas history_intros = ledger_uuid_history emit_history upd_history ins_history uuid_history ledger_history
  deployments_history history_refl

lemma grows_record_transaction [grows_intros]:
  "grows (record_transaction i kind delta occ src s)"
proof -
  have "grows (record_transaction_inner i kind delta occ src)"
    by (rule growsI)
      (auto simp: record_transaction_inner_def Let_def case_prod_beta take_uuid_def
        plan_transaction_def sel_resource_def same_resource_def
        split: option.split sum.split if_splits intro!: history_intros)
  then have "grows (in_transaction s (record_transaction_inner i kind delta occ src))"
    by (rule grows_in_transaction)
  then show ?thesis by (auto simp: grows_def record_transaction_def)
qed

lemma grows_resource_create [grows_intros]: "grows (resource_create inp s)"
proof -
  have "grows (resource_create_inner inp)"
    by (rule growsI)
      (auto simp: resource_create_inner_def Let_def case_prod_beta take_uuid_def intro!: history_intros)
  then show ?thesis unfolding resource_create_def by (intro grows_intros)
qed

lemma grows_update_attributes [grows_intros]: "grows (update_attributes i p mp desc ev s)"
proof -
  have "grows (update_attributes_inner i p mp desc ev)"
    by (rule growsI)
      (auto simp: update_attributes_inner_def Let_def case_prod_beta update_resource_row_def
        same_resource_def split: option.split intro!: emit_history upd_history)
  then have "grows (in_transaction s (update_attributes_inner i p mp desc ev))"
    by (rule grows_in_transaction)
  then show ?thesis by (auto simp: grows_def update_attributes_def)
qed

lemma grows_archive [grows_intros]: "grows (archive i reason c s)"
proof -
  have "grows (archive_inner i reason c)"
    by (rule growsI)
      (auto simp: archive_inner_def Let_def case_prod_beta archive_row_def
        same_resource_def split: option.split intro!: emit_history upd_history)
  then show ?thesis unfolding archive_def by (rule grows_in_transaction)
qed

lemma grows_deployment_row_for [grows_intros]: "grows (deployment_row_for i c q t)"
  by (rule growsI)
    (auto simp: deployment_row_for_def insert_deployment_def split: option.split intro!: history_intros)

lemma grows_deploy_capacity [grows_intros]: "grows (deploy_capacity i u r t ev)"
proof (rule growsI)
  fix d
  have "grows (bind_tx (record_transaction i Deploy [(''deployed_units'', JInt n)] t ev True) (\<lambda>_. return_tx ()))"
    for n by (intro grows_intros)
  then show "history_kept d (snd (deploy_capacity i u r t ev d))"
    by (auto simp: deploy_capacity_def grows_def split: option.split sum.split)
qed

lemma grows_deploy [grows_intros]: "grows (deploy i c q t ev s)"
proof -
  have "grows (deploy_inner i c q u t ev)" for u t
  proof (rule growsI)
    fix d
    have "grows (bind_tx (if r_kind r = Capacity then deploy_capacity i u r t ev else return_tx ())
        (\<lambda>_. deployment_row_for i c q t))" for r
      by (cases "r_kind r = Capacity") (simp_all add: grows_intros)
    then show "history_kept d (snd (deploy_inner i c q u t ev d))"
      by (auto simp: deploy_inner_def grows_def split: option.split)
  qed
  then have "grows (in_transaction s (deploy_inner i c q u t ev))" for u t
    by (rule grows_in_transaction)
  then show ?thesis by (auto simp: grows_def deploy_def Let_def)
qed

lemma grows_release [grows_intros]: "grows (release (i, c) t q ev s)"
proof -
  have close: "grows (\<lambda>d. (Inr (p\<lparr>p_released_at := Some t\<rparr>), d\<lparr>deployments :=
      row_update p_key (i, c) (\<lambda>p. p\<lparr>p_released_at := Some t\<rparr>) (deployments d)\<rparr>))"
    for p :: deployment_row and t
    by (auto simp: grows_def intro!: history_intros)
  have "grows (release_inner i c t q ev)" for t
  proof (rule growsI)
    fix d
    have "grows (case dict_get rq ''units'' of
        Some u \<Rightarrow> if r_kind r = Capacity then (case py_int u of Inl e \<Rightarrow> raise_tx e
            | Inr n \<Rightarrow> bind_tx (record_transaction i Release [(''deployed_units'', JInt n)] t ev True)
                (\<lambda>_. return_tx ()))
          else return_tx ()
      | None \<Rightarrow> return_tx ())" for rq and r :: resource_row
      by (auto split: option.split sum.split intro!: grows_intros)
    note step = growsD [OF grows_bind [OF this close]]
    show "history_kept d (snd (release_inner i c t q ev d))"
      by (cases "sel_deployment i c d"; cases "sel_resource i d")
        (simp_all add: release_inner_def step split: sum.split)
  qed
  then have "grows (in_transaction s (release_inner i c t q ev))" for t
    by (rule grows_in_transaction)
  then show ?thesis by (auto simp: grows_def release_def)
qed

text \<open>
  The calls of the package; \<open>True\<close> as the last argument of a call is a connection of the
  caller, who may go on after an exception.
\<close>

inductive resource_step :: "db \<Rightarrow> db \<Rightarrow> bool" where
  rs_create: "resource_step d (snd (resource_create inp s d))"
| rs_update: "resource_step d (snd (update_attributes i p mp desc ev s d))"
| rs_archive: "resource_step d (snd (archive i reason c s d))"
| rs_record: "resource_step d (snd (record_transaction i kind delta occ ev s d))"
| rs_deploy: "resource_step d (snd (deploy i c q t ev s d))"
| rs_release: "resource_step d (snd (release (i, c) t q ev s d))"

inductive_simps resource_step_iff: "resource_step d d'"

lemma resource_step_history: "resource_step d d' \<Longrightarrow> history_kept d d'"
  by (induction rule: resource_step.induct) (rule growsD, rule grows_intros)+

text \<open>
  whatever sequence of calls creates, edits, archives, transacts, deploys and releases,
  including calls that raise, the ledger and the observations only grow at their end, no
  resource disappears or changes its tenant, kind, identity or creation time, and an archived
  resource is never changed at all (R4).
\<close>

theorem resource_history:
  assumes "resource_step\<^sup>*\<^sup>* d d'" and "sel_resource i d = Some r"
  shows "(\<exists>xs. ledger d' = ledger d @ xs) \<and> (\<exists>os. observations d' = observations d @ os) \<and>
    (\<exists>r'. sel_resource i d' = Some r' \<and> r_tenant r' = r_tenant r \<and> r_kind r' = r_kind r \<and>
       r_identity r' = r_identity r \<and> r_created_at r' = r_created_at r \<and>
       (r_archived_at r \<noteq> None \<longrightarrow> r' = r))"
proof -
  have "history_kept d d'"
    using assms(1) by (induction rule: rtranclp_induct) (auto intro: history_trans resource_step_history)
  then have "\<exists>r'. sel_resource i d' = Some r' \<and> same_resource r r'"
    and "\<exists>xs. ledger d' = ledger d @ xs" and "\<exists>os. observations d' = observations d @ os"
    using assms(2) by (simp_all add: history_kept_def)
  then show ?thesis unfolding same_resource_def by blast
qed

definition closed_db :: db where
  "closed_db = snd (archive 1 ''sold'' None True pool_db)"

lemma closed_row: "\<exists>r. sel_resource 1 closed_db = Some r \<and> r_archived_at r = Some 0"
proof -
  have "map_option r_archived_at (sel_resource 1 closed_db) = Some (Some 0)"
    unfolding closed_db_def by code_simp
  then show ?thesis by auto
qed

theorem resource_history_witness:
  "\<exists>r. sel_resource 1 closed_db = Some r \<and>
     sel_resource 1 (snd (update_attributes 1 (Some []) None None 9 True
       (snd (record_transaction 1 Acquire [] 0 9 True closed_db)))) = Some r"
proof -
  obtain r where r: "sel_resource 1 closed_db = Some r" "r_archived_at r = Some 0"
    using closed_row by blast
  let ?d1 = "snd (record_transaction 1 Acquire [] 0 9 True closed_db)"
  have "resource_step\<^sup>*\<^sup>* closed_db (snd (update_attributes 1 (Some []) None None 9 True ?d1))"
    by (intro rtranclp.rtrancl_into_rtrancl [OF rtranclp.rtrancl_into_rtrancl [OF rtranclp.rtrancl_refl]])
      (rule rs_record, rule rs_update)
  from resource_history [OF this r(1)] r show ?thesis by auto
qed

end
