(* ===== verification/Bridge.thy ===== *)
theory Bridge
  imports Resources
begin

text \<open>
  \<open>services/domain/resources/bridge.py\<close>: which commitment states put revenue at risk and the
  feasibility check of a proposed commitment. The sentences of a reason or a warning are
  constructors that carry the values the sentence shows. The readers of ARR values, which parse
  decimal numerals, and the float queries over capacity resources are not modelled.
\<close>

section \<open>Commitments at risk\<close>

definition AT_RISK_COMMITMENT_STATES :: "act_state list" where
  "AT_RISK_COMMITMENT_STATES = [Blocked, Paused, DoneUnverified]"

definition OWNER_COMMITMENT_WARN_THRESHOLD :: int where
  "OWNER_COMMITMENT_WARN_THRESHOLD = 5"

section \<open>The feasibility check\<close>

text \<open>
  The proposal: the owner, \<open>estimated_capacity.deploys\<close> (empty when missing) and the decisions
  that constrain it.
\<close>

record proposal =
  pr_owner :: "uuid option"
  pr_deploys :: "dict list"
  pr_decisions :: "uuid list"

datatype reason =
    MissingResourceId
  | ResourceDoesNotExist uuid
  | ResourceIsArchived uuid
  | ResourceHasUnits uuid int int

datatype warning =
    OwnerAlreadyOwns int
  | DecisionNotFound uuid
  | DecisionIsRevisited uuid

record feasibility =
  feasible :: bool
  reasons :: "reason list"
  warnings :: "warning list"

definition owner_warnings :: "uuid option \<Rightarrow> db \<Rightarrow> warning list" where
  "owner_warnings owner_id d =
    (case owner_id of
       None \<Rightarrow> []
     | Some i \<Rightarrow>
        let n_owned = int (length (filter (\<lambda>c. c_owner c = Some i \<and>
              c_state c \<in> {Proposed, Active, Blocked, Paused, DoneUnverified}) (commitments d)))
        in if n_owned > OWNER_COMMITMENT_WARN_THRESHOLD then [OwnerAlreadyOwns n_owned] else [])"

text \<open>
  One entry of \<open>deploys\<close>. A \<open>resource_id\<close> that is no UUID is rejected by the driver. The
  value of \<open>available_units\<close> is read with \<open>int(v or 0)\<close>.
\<close>

definition deploy_entry_reasons :: "dict \<Rightarrow> db \<Rightarrow> reason list result" where
  "deploy_entry_reasons entry d =
    bind_result (py_int (py_or (dict_get_or entry ''units'' (JInt 0)) (JInt 0))) (\<lambda>units.
      case not_none (dict_get entry ''resource_id'') of
        None \<Rightarrow> Inr [MissingResourceId]
      | Some (JUuid rid) \<Rightarrow>
          (case sel_resource rid d of
             None \<Rightarrow> Inr [ResourceDoesNotExist rid]
           | Some row \<Rightarrow>
              if r_archived_at row \<noteq> None then Inr [ResourceIsArchived rid]
              else if r_kind row \<noteq> Capacity then Inr []
              else bind_result (py_int (py_or (dict_get_or (r_value row) ''available_units'' (JInt 0)) (JInt 0)))
                (\<lambda>available. Inr (if available < units then [ResourceHasUnits rid available units] else [])))
      | Some _ \<Rightarrow> Inl (OtherError ''asyncpg.DataError''))"

fun deploys_reasons :: "dict list \<Rightarrow> db \<Rightarrow> reason list result" where
  "deploys_reasons [] d = Inr []"
| "deploys_reasons (e # es) d = bind_result (deploy_entry_reasons e d) (\<lambda>rs.
     bind_result (deploys_reasons es d) (\<lambda>rss. Inr (rs @ rss)))"

definition decision_warnings :: "uuid \<Rightarrow> db \<Rightarrow> warning list" where
  "decision_warnings dec_id d =
    (case sel_decision dec_id d of
       None \<Rightarrow> [DecisionNotFound dec_id]
     | Some row \<Rightarrow> if d_state row = Revisited then [DecisionIsRevisited dec_id] else [])"

definition feasibility_check :: "proposal \<Rightarrow> db \<Rightarrow> feasibility result" where
  "feasibility_check p d =
    bind_result (deploys_reasons (pr_deploys p) d) (\<lambda>rs.
      Inr \<lparr>feasible = (length rs = 0), reasons = rs,
        warnings = owner_warnings (pr_owner p) d @
          concat (map (\<lambda>i. decision_warnings i d) (pr_decisions p))\<rparr>)"

section \<open>A feasible proposal can be deployed\<close>

text \<open>An entry for a resource and a positive number of units, and the deployment it proposes.\<close>

definition entry_of :: "uuid \<times> int \<Rightarrow> dict" where
  "entry_of e = [(''resource_id'', JUuid (fst e)), (''units'', JInt (snd e))]"

fun deploy_all :: "uuid \<Rightarrow> (uuid \<times> int) list \<Rightarrow> uuid \<Rightarrow> (db, unit) tx" where
  "deploy_all co [] ev = return_tx ()"
| "deploy_all co (e # es) ev = bind_tx (deploy (fst e) co [(''units'', JInt (snd e))] None ev True)
     (\<lambda>_. deploy_all co es ev)"

lemma deploy_entry_reasons_of:
  assumes "deploy_entry_reasons (entry_of (i, n)) d = Inr []"
  shows "\<exists>row. sel_resource i d = Some row \<and> r_archived_at row = None \<and>
    (r_kind row = Capacity \<and> counters (r_value row) t dep av \<longrightarrow> n \<le> av)"
proof -
  have "py_int (py_or (JInt k) (JInt 0)) = Inr k" for k by (simp add: py_or_def)
  with assms show ?thesis
    by (auto simp: deploy_entry_reasons_def entry_of_def dict_get_or_def dict_get_def not_none_def
        counters_def split: option.splits if_splits)
qed

definition deployable :: "uuid \<Rightarrow> db \<Rightarrow> uuid \<times> int \<Rightarrow> bool" where
  "deployable co d e \<longleftrightarrow> (\<exists>row t dep av. sel_resource (fst e) d = Some row \<and> r_archived_at row = None \<and>
     r_kind row = Capacity \<and> counters (r_value row) t dep av \<and> 0 < snd e \<and> snd e \<le> av) \<and>
     sel_deployment (fst e) co d = None"

lemma deploy_deployable:
  assumes "deployable co d (i, n)" and "sel_commitment co d \<noteq> None"
  shows "\<exists>p d'. deploy i co [(''units'', JInt n)] None ev True d = (Inr p, d') \<and>
    sel_commitment co d' \<noteq> None \<and> (\<forall>j m. j \<noteq> i \<longrightarrow> deployable co d (j, m) \<longrightarrow> deployable co d' (j, m))"
proof -
  obtain row t dep av where row: "sel_resource i d = Some row" "r_archived_at row = None"
    "r_kind row = Capacity" "counters (r_value row) t dep av" "0 < n" "n \<le> av"
    and free: "sel_deployment i co d = None"
    using assms(1) by (auto simp: deployable_def)
  obtain cv where cv: "apply_delta (r_value row) [(''deployed_units'', JInt n)] Capacity Deploy = Inr cv"
    by (simp add: apply_delta_def apply_capacity_def delta_units_units counters_get [OF row(4)])
  have c: "counters cv t (dep + n) (av - n)"
    by (rule apply_capacity_counters(1) [OF row(4) delta_units_units(2) cv])
  obtain util where "plan_transaction row Deploy [(''deployed_units'', JInt n)] = Inr (cv, util)"
    using row cv c by (auto simp: plan_transaction_def py_less_0_def compute_utilization_def
        counters_def dict_get_or_def)
  then obtain x d1 where rec: "record_transaction_inner i Deploy [(''deployed_units'', JInt n)] (py_now d) ev d
      = (Inr x, d1)"
    using row(1) by (simp add: record_transaction_inner_def Let_def case_prod_beta)
  then have rec': "record_transaction i Deploy [(''deployed_units'', JInt n)] (py_now d) ev True d = (Inr x, d1)"
    by (simp add: record_transaction_def VALID_TRANSACTION_TYPES_def in_transaction_def)
  from record_transaction_inner_result [OF rec]
  have d1: "deployments d1 = deployments d" "\<And>j. j \<noteq> i \<Longrightarrow> sel_resource j d1 = sel_resource j d"
    by auto
  have "commitments d1 = commitments d"
    using growsD [OF grows_record_transaction, of d i Deploy "[(''deployed_units'', JInt n)]" "py_now d" ev True]
      rec' by (simp add: history_kept_def)
  then have com: "sel_commitment co d1 = sel_commitment co d" by (simp add: sel_commitment_def)
  have cap: "deploy_capacity i (Some (JInt n)) row (py_now d) ev d = (Inr (), d1)"
    using row rec' by (simp add: deploy_capacity_def counters_get [OF row(4)] bind_tx_def return_tx_def)
  let ?p = "\<lparr>p_resource = i, p_commitment = co, p_quantity = [(''units'', JInt n)], p_at = py_now d,
    p_released_at = None\<rparr>"
  have free_key: "(i, co) \<notin> (\<lambda>p. (p_resource p, p_commitment p)) ` set (deployments d)"
    using free by (simp add: sel_deployment_def row_at_None p_key_def [abs_def])
  have "deployment_row_for i co [(''units'', JInt n)] (py_now d) d1 =
      (Inr ?p, d1\<lparr>deployments := deployments d @ [?p]\<rparr>)"
    using free com assms(2) d1(1) free_key
    by (simp add: deployment_row_for_def sel_deployment_def insert_deployment_def p_key_def)
  with cap row(1,3,5) have "deploy i co [(''units'', JInt n)] None ev True d =
      (Inr ?p, d1\<lparr>deployments := deployments d @ [?p]\<rparr>)"
    by (simp add: deploy_def Let_def not_none_def dict_get_def bad_units_def in_transaction_def
        deploy_inner_def bind_tx_def)
  moreover have "deployable co (d1\<lparr>deployments := deployments d @ [?p]\<rparr>) (j, m)"
    if "j \<noteq> i" "deployable co d (j, m)" for j m
    using that d1(2) [OF that(1)]
    by (auto simp: deployable_def sel_resource_def sel_deployment_def row_simps p_key_def)
  ultimately show ?thesis using com assms(2) by (auto simp: sel_commitment_def)
qed

lemma deploy_all_deployable:
  "\<lbrakk>distinct (map fst es); sel_commitment co d \<noteq> None; list_all (deployable co d) es\<rbrakk> \<Longrightarrow>
   \<not> isl (fst (deploy_all co es ev d))"
proof (induction es arbitrary: d)
  case Nil
  then show ?case by (simp add: return_tx_def)
next
  case (Cons e es)
  obtain i n where e: "e = (i, n)" by (cases e)
  obtain p d' where step: "deploy i co [(''units'', JInt n)] None ev True d = (Inr p, d')"
    "sel_commitment co d' \<noteq> None" "\<forall>j m. j \<noteq> i \<longrightarrow> deployable co d (j, m) \<longrightarrow> deployable co d' (j, m)"
    using deploy_deployable [of co d i n ev] Cons.prems by (auto simp: e)
  have "list_all (deployable co d') es"
    using Cons.prems step(3) by (force simp: e list_all_iff)
  with Cons.IH [of d'] Cons.prems step show ?case by (simp add: e bind_tx_def)
qed

text \<open>
  The feasibility check is sound for deployment: when it calls a proposal feasible whose
  entries name different capacity resources and positive units, then deploying all of them to a
  commitment that has no deployment of these resources yet succeeds, one after the other.
\<close>

theorem feasible_deploys:
  assumes "feasibility_check p d = Inr f" and "feasible f"
    and "pr_deploys p = map entry_of es" and "distinct (map fst es)"
    and "\<forall>(i, n) \<in> set es. 0 < n \<and> sel_deployment i co d = None \<and>
      (\<forall>row. sel_resource i d = Some row \<longrightarrow> r_kind row = Capacity \<and>
         (\<exists>t dep av. counters (r_value row) t dep av))"
    and "sel_commitment co d \<noteq> None"
  shows "\<not> isl (fst (deploy_all co es ev d))"
proof -
  have none: "deploys_reasons (map entry_of es) d = Inr []"
    using assms(1,2,3) by (auto simp: feasibility_check_def bind_result_Inr)
  have "list_all (\<lambda>e. deploy_entry_reasons (entry_of e) d = Inr []) es"
    using none by (induction es) (auto simp: bind_result_Inr)
  moreover have "deployable co d (i, n)"
    if e: "(i, n) \<in> set es" "deploy_entry_reasons (entry_of (i, n)) d = Inr []" for i n
  proof -
    obtain row where row: "sel_resource i d = Some row" "r_archived_at row = None"
      "\<And>t dep av. r_kind row = Capacity \<and> counters (r_value row) t dep av \<longrightarrow> n \<le> av"
      using deploy_entry_reasons_of [OF e(2)] by (metis option.inject)
    from assms(5) e(1) have "0 < n" "sel_deployment i co d = None"
      and kind: "sel_resource i d = Some row \<longrightarrow> r_kind row = Capacity \<and>
         (\<exists>t dep av. counters (r_value row) t dep av)"
      by blast+
    with row show ?thesis unfolding deployable_def fst_conv snd_conv by metis
  qed
  ultimately have "list_all (deployable co d) es"
    by (auto simp: list_all_iff)
  with deploy_all_deployable [OF assms(4,6)] show ?thesis by blast
qed

definition twice_four :: proposal where
  "twice_four = \<lparr>pr_owner = None, pr_deploys = [entry_of (1, 4), entry_of (1, 4)], pr_decisions = []\<rparr>"

text \<open>
  The check looks at every entry alone: of a resource with six available units a proposal
  that asks twice for four is called feasible, and no second deployment of four succeeds.
\<close>

theorem feasible_ignores_repetition:
  "feasibility_check twice_four crew_db = Inr \<lparr>feasible = True, reasons = [], warnings = []\<rparr> \<and>
   (let d' = snd (deploy 1 3 [(''units'', JInt 4)] None 9 True crew_db)
    in fst (deploy_capacity 1 (Some (JInt 4)) (hd (resources d')) 0 9 d') =
      Inl (InvariantViolation ''R1'' ''insufficient capacity''))"
  by code_simp

definition once_five :: proposal where
  "once_five = \<lparr>pr_owner = Some 0, pr_deploys = [entry_of (1, 5)], pr_decisions = [8]\<rparr>"

theorem feasible_deploys_witness: "\<not> isl (fst (deploy_all 3 [(1, 5)] 9 crew_db))"
proof -
  have "feasibility_check once_five crew_db =
      Inr \<lparr>feasible = True, reasons = [], warnings = [DecisionNotFound 8]\<rparr>"
    by code_simp
  moreover have "sel_deployment 1 3 crew_db = None" "sel_commitment 3 crew_db \<noteq> None" by code_simp+
  moreover have "sel_resource 1 crew_db = Some (hd (resources pool_db))"
    "r_kind (hd (resources pool_db)) = Capacity" "r_value (hd (resources pool_db)) = pool_10"
    by (simp_all add: crew_db_def pool_db_def sel_resource_def row_simps)
  ultimately show ?thesis
    using pool_10_counters
    by (intro feasible_deploys [of once_five crew_db "\<lparr>feasible = True, reasons = [], warnings = [DecisionNotFound 8]\<rparr>"])
      (auto simp: once_five_def)
qed

end
