(* ===== verification/CustomerLinks.thy ===== *)
theory CustomerLinks
  imports Resources
begin

text \<open>
  \<open>services/domain/resources/customer_commitments.py\<close>: which commitments serve which customer.
  A customer is a relational resource; \<open>revenue_at_risk_usd\<close> is a real number.
\<close>

section \<open>Operations\<close>

definition link_key :: "link_row \<Rightarrow> uuid \<times> uuid" where
  "link_key l = (l_customer l, l_commitment l)"

definition CustomerCommitmentRelationshipKind :: "string list" where
  "CustomerCommitmentRelationshipKind = [''delivers'', ''supports'', ''impacts'']"

definition CustomerCommitmentCriticality :: "string list" where
  "CustomerCommitmentCriticality = [''must_have'', ''high'', ''medium'', ''low'']"

definition link_row_validate :: "link_row \<Rightarrow> link_row result" where
  "link_row_validate l =
    (if l_relationship l \<in> set CustomerCommitmentRelationshipKind \<and>
        l_criticality l \<in> set CustomerCommitmentCriticality
     then Inr l else Inl pydantic_error)"

definition link_check :: "uuid \<Rightarrow> uuid \<Rightarrow> uuid \<Rightarrow> db \<Rightarrow> err option" where
  "link_check customer_resource_id commitment_id tenant_id d =
    (case sel_resource customer_resource_id d of
       None \<Rightarrow> Some (ValidationError ''customer_resource_id does not reference any resource'')
     | Some r \<Rightarrow>
        then_check (fails (r_kind r \<noteq> Relational) (ValidationError
          ''customer_commitments.customer_resource_id must point to a kind='relational' resource''))
        (then_check (fails (r_tenant r \<noteq> tenant_id) (ValidationError ''customer_resource tenant mismatch''))
        (case sel_commitment commitment_id d of
           None \<Rightarrow> Some (ValidationError ''commitment does not exist'')
         | Some c \<Rightarrow> fails (c_tenant c \<noteq> tenant_id) (ValidationError ''commitment tenant mismatch''))))"

text \<open>\<open>INSERT .. ON CONFLICT (customer_resource_id, commitment_id) DO UPDATE\<close>.\<close>

definition overwrite_link :: "link_row \<Rightarrow> link_row \<Rightarrow> link_row" where
  "overwrite_link new old = old\<lparr>l_description := l_description new, l_relationship := l_relationship new,
     l_revenue := l_revenue new, l_criticality := l_criticality new\<rparr>"

definition upsert_link :: "link_row \<Rightarrow> link_row list \<Rightarrow> link_row \<times> link_row list" where
  "upsert_link new t =
    (case row_at link_key (link_key new) t of
       None \<Rightarrow> (new, t @ [new])
     | Some old \<Rightarrow> (overwrite_link new old, row_update link_key (link_key new) (overwrite_link new) t))"

definition link_commitment ::
  "uuid \<Rightarrow> uuid \<Rightarrow> uuid \<Rightarrow> string \<Rightarrow> real option \<Rightarrow> string \<Rightarrow> string option \<Rightarrow> bool \<Rightarrow> (db, link_row) tx"
where
  "link_commitment customer_resource_id commitment_id tenant_id relationship_kind revenue_at_risk_usd
     criticality served_description supplied =
    in_transaction supplied
     (bind_tx (check_tx (link_check customer_resource_id commitment_id tenant_id)) (\<lambda>_ d.
      let (new_id, d) = take_uuid d;
          (row, t) = upsert_link
            \<lparr>l_id = new_id, l_tenant = tenant_id, l_customer = customer_resource_id,
             l_commitment = commitment_id, l_description = served_description,
             l_relationship = relationship_kind, l_revenue = revenue_at_risk_usd,
             l_criticality = criticality, l_created_at = db_now d\<rparr> (links d)
      in (link_row_validate row, d\<lparr>links := t\<rparr>)))"

text \<open>\<open>result.endswith(" 1")\<close>: the status of the \<open>DELETE\<close> counts one row.\<close>

definition unlink :: "uuid \<Rightarrow> uuid \<Rightarrow> uuid \<Rightarrow> db \<Rightarrow> bool \<times> db" where
  "unlink customer_resource_id commitment_id tenant_id d =
    (let hit = (\<lambda>l. l_customer l = customer_resource_id \<and> l_commitment l = commitment_id \<and>
           l_tenant l = tenant_id)
     in (length (filter hit (links d)) = 1, d\<lparr>links := filter (\<lambda>l. \<not> hit l) (links d)\<rparr>))"

text \<open>
  The query does not select \<open>is_maintenance\<close>, so the row class supplies its default.
\<close>

definition commitments_for_customer ::
  "uuid \<Rightarrow> uuid \<Rightarrow> db \<Rightarrow> (commitment_row \<times> link_row) list" where
  "commitments_for_customer customer_resource_id tenant_id d =
    sort_key (\<lambda>(c, l). - c_created_at c)
      (concat (map (\<lambda>l. case sel_commitment (l_commitment l) d of
          None \<Rightarrow> [] | Some c \<Rightarrow> [(c\<lparr>c_maintenance := False\<rparr>, l)])
        (filter (\<lambda>l. l_customer l = customer_resource_id \<and> l_tenant l = tenant_id) (links d))))"

definition customers_for_commitment :: "uuid \<Rightarrow> uuid \<Rightarrow> db \<Rightarrow> uuid list" where
  "customers_for_commitment commitment_id tenant_id d =
    map l_customer (filter (\<lambda>l. l_commitment l = commitment_id \<and> l_tenant l = tenant_id) (links d))"

section \<open>The table keeps to one tenant\<close>

text \<open>
  One row per pair; a row's customer is a relational resource and its commitment exists, both of
  the row's tenant.
\<close>

definition links_ok :: "db \<Rightarrow> bool" where
  "links_ok d \<longleftrightarrow> distinct (map link_key (links d)) \<and>
    (\<forall>l \<in> set (links d).
      (\<exists>r. sel_resource (l_customer l) d = Some r \<and> r_kind r = Relational \<and> r_tenant r = l_tenant l) \<and>
      (\<exists>c. sel_commitment (l_commitment l) d = Some c \<and> c_tenant c = l_tenant l))"

lemma overwrite_key [simp]: "link_key (overwrite_link n l) = link_key l"
  "l_id (overwrite_link n l) = l_id l" "l_tenant (overwrite_link n l) = l_tenant l"
  "l_customer (overwrite_link n l) = l_customer l" "l_commitment (overwrite_link n l) = l_commitment l"
  by (simp_all add: overwrite_link_def link_key_def)

text \<open>Upsert and delete as the operations of a map from pairs to links.\<close>

lemma upsert_lookup:
  assumes "upsert_link new t = (row, t')"
  shows "row_at link_key k t' = (if k = link_key new then Some row else row_at link_key k t)"
    and "row = (case row_at link_key (link_key new) t of None \<Rightarrow> new | Some old \<Rightarrow> overwrite_link new old)"
    and "distinct (map link_key t) \<Longrightarrow> distinct (map link_key t')"
    and "l \<in> set t' \<Longrightarrow> l \<in> set t \<or> l = row \<or> (\<exists>old \<in> set t. l = overwrite_link new old)"
proof -
  have keys: "map link_key (row_update link_key k (overwrite_link n) t) = map link_key t" for k n
    by (rule row_update_keys) simp
  show "row_at link_key k t' = (if k = link_key new then Some row else row_at link_key k t)"
    using assms by (auto simp: upsert_link_def row_simps split: option.splits)
  show "row = (case row_at link_key (link_key new) t of None \<Rightarrow> new | Some old \<Rightarrow> overwrite_link new old)"
    using assms by (auto simp: upsert_link_def split: option.splits)
  show "distinct (map link_key t')" if "distinct (map link_key t)"
    using assms that by (auto simp: upsert_link_def row_at_None keys split: option.splits)
  show "l \<in> set t \<or> l = row \<or> (\<exists>old \<in> set t. l = overwrite_link new old)" if "l \<in> set t'"
  proof (cases "row_at link_key (link_key new) t")
    case None
    with assms that show ?thesis by (auto simp: upsert_link_def)
  next
    case (Some old)
    with assms have "t' = row_update link_key (link_key new) (overwrite_link new) t"
      by (simp add: upsert_link_def)
    with that have "\<exists>r \<in> set t. l = (if link_key r = link_key new then overwrite_link new r else r)"
      by (simp only: in_row_update)
    then show ?thesis by (auto split: if_splits)
  qed
qed

lemma link_commitment_result:
  assumes "link_commitment cu co tn rel usd crit descr s d = (r, d')"
  shows "(\<exists>e. r = Inl e) \<and> d' = d \<or>
    (let new = \<lparr>l_id = uuid_next d, l_tenant = tn, l_customer = cu, l_commitment = co,
        l_description = descr, l_relationship = rel, l_revenue = usd, l_criticality = crit,
        l_created_at = db_now d\<rparr>; (row, t) = upsert_link new (links d)
     in link_check cu co tn d = None \<and> r = link_row_validate row \<and>
        d' = d\<lparr>uuid_next := Suc (uuid_next d), links := t\<rparr> \<and> (s \<or> r = Inr row))"
proof -
  define new where "new = \<lparr>l_id = uuid_next d, l_tenant = tn, l_customer = cu, l_commitment = co,
        l_description = descr, l_relationship = rel, l_revenue = usd, l_criticality = crit,
        l_created_at = db_now d\<rparr>"
  obtain row t where up: "upsert_link new (links d) = (row, t)" by (cases "upsert_link new (links d)")
  show ?thesis
  proof (cases "link_check cu co tn d")
    case (Some e)
    with assms show ?thesis
      by (auto simp: link_commitment_def in_transaction_def atomically_def bind_tx_def check_tx_def
          split: if_splits)
  next
    case None
    with assms up show ?thesis
      by (auto simp: link_commitment_def in_transaction_def atomically_def bind_tx_def check_tx_def
          take_uuid_def new_def Let_def link_row_validate_def split: if_splits)
  qed
qed

text \<open>
  Linking is an upsert on the pair of customer and commitment: afterwards the pair has
  exactly the returned row, with the new description, relationship, revenue and criticality and,
  if the pair was linked before, the old identifier, tenant and creation time; every other pair
  is linked as before. Unlinking a new pair then restores the table.
\<close>

theorem link_upsert:
  assumes "link_commitment cu co tn rel usd crit descr s d = (Inr row, d')"
  shows "(\<forall>k. row_at link_key k (links d') =
      (if k = (cu, co) then Some row else row_at link_key k (links d))) \<and>
    l_description row = descr \<and> l_relationship row = rel \<and> l_revenue row = usd \<and>
    l_criticality row = crit \<and>
    (case row_at link_key (cu, co) (links d) of
       None \<Rightarrow> l_tenant row = tn \<and> l_created_at row = db_now d \<and>
         (links_ok d \<longrightarrow> fst (unlink cu co tn d') \<and> links (snd (unlink cu co tn d')) = links d)
     | Some old \<Rightarrow> l_id row = l_id old \<and> l_tenant row = l_tenant old \<and>
         l_created_at row = l_created_at old \<and> length (links d') = length (links d))"
proof -
  define new where "new = \<lparr>l_id = uuid_next d, l_tenant = tn, l_customer = cu, l_commitment = co,
        l_description = descr, l_relationship = rel, l_revenue = usd, l_criticality = crit,
        l_created_at = db_now d\<rparr>"
  obtain row' t where up: "upsert_link new (links d) = (row', t)" by (cases "upsert_link new (links d)")
  have d': "row' = row" "links d' = t"
    using link_commitment_result [OF assms] up
    by (auto simp: new_def Let_def link_row_validate_def split: if_splits)
  have key: "link_key new = (cu, co)" by (simp add: new_def link_key_def)
  note look = upsert_lookup(1,2) [OF up, unfolded key d'(1)]
  show ?thesis
  proof (cases "row_at link_key (cu, co) (links d)")
    case None
    have fresh: "filter (\<lambda>l. l_customer l = cu \<and> l_commitment l = co \<and> l_tenant l = tn) (links d) = []"
      "filter (\<lambda>l. \<not> (l_customer l = cu \<and> l_commitment l = co \<and> l_tenant l = tn)) (links d) = links d"
      using None by (auto simp: row_at_None link_key_def filter_empty_conv filter_id_conv image_iff)
    have "t = links d @ [new]" using up None key by (auto simp: upsert_link_def)
    with None look d' fresh show ?thesis by (simp add: new_def unlink_def)
  next
    case (Some old)
    have "length t = length (links d)"
      using up Some key by (auto simp: upsert_link_def row_update_def)
    with Some look d' show ?thesis by (simp add: new_def overwrite_link_def)
  qed
qed

lemma links_ok_link:
  assumes ok: "links_ok d" and run: "link_commitment cu co tn rel usd crit descr s d = (r, d')"
  shows "links_ok d'"
proof -
  define new where "new = \<lparr>l_id = uuid_next d, l_tenant = tn, l_customer = cu, l_commitment = co,
        l_description = descr, l_relationship = rel, l_revenue = usd, l_criticality = crit,
        l_created_at = db_now d\<rparr>"
  obtain row t where up: "upsert_link new (links d) = (row, t)" by (cases "upsert_link new (links d)")
  consider "d' = d" | "link_check cu co tn d = None" "d' = d\<lparr>uuid_next := Suc (uuid_next d), links := t\<rparr>"
    using link_commitment_result [OF run] up by (auto simp: new_def Let_def)
  then show ?thesis
  proof cases
    case 2
    have good: "\<exists>r. sel_resource cu d = Some r \<and> r_kind r = Relational \<and> r_tenant r = tn"
      "\<exists>c. sel_commitment co d = Some c \<and> c_tenant c = tn"
      using 2(1) by (auto simp: link_check_def check_simps split: option.splits)
    have sel: "sel_resource i d' = sel_resource i d" "sel_commitment i d' = sel_commitment i d" for i
      by (simp_all add: 2(2) sel_resource_def sel_commitment_def)
    have "row = new \<or> (\<exists>old \<in> set (links d). row = overwrite_link new old)"
      using upsert_lookup(2) [OF up] row_at_Some [of link_key "link_key new" "links d"]
      by (auto split: option.splits)
    then show ?thesis
      using ok good upsert_lookup(3,4) [OF up] unfolding links_ok_def sel
      by (fastforce simp: 2(2) new_def)
  qed (use ok in simp)
qed

lemma links_ok_unlink: "links_ok d \<Longrightarrow> links_ok (snd (unlink cu co tn d))"
  by (auto simp: links_ok_def unlink_def Let_def sel_resource_def sel_commitment_def distinct_map_filter)

lemma links_ok_history:
  "links_ok d \<Longrightarrow> history_kept d d' \<Longrightarrow> links_ok d'"
  unfolding links_ok_def history_kept_def same_resource_def sel_commitment_def by metis

inductive link_step :: "db \<Rightarrow> db \<Rightarrow> bool" where
  ls_link: "link_step d (snd (link_commitment cu co tn rel usd crit descr s d))"
| ls_unlink: "link_step d (snd (unlink cu co tn d))"
| ls_resource: "resource_step d d' \<Longrightarrow> link_step d d'"

inductive_simps link_step_iff: "link_step d d'"

lemma links_ok_step: "link_step d d' \<Longrightarrow> links_ok d \<Longrightarrow> links_ok d'"
proof (induction rule: link_step.induct)
  case (ls_link d cu co tn rel usd crit descr s)
  then show ?case
    using links_ok_link by (cases "link_commitment cu co tn rel usd crit descr s d") simp
qed (auto simp: links_ok_unlink dest: resource_step_history links_ok_history)

text \<open>
  starting from a table of links without duplicate pairs and within one tenant each, no
  sequence of linking, unlinking and resource operations, failing ones included, ever links a
  customer to a commitment of another tenant, links something that is not a relational resource,
  or leaves a link to a resource or commitment that does not exist; the reverse lookup lists a
  customer of a commitment exactly when the pair is linked, and only within the tenant.
\<close>

theorem links_tenant_safe:
  assumes "link_step\<^sup>*\<^sup>* d d'" and "links_ok d"
  shows "links_ok d' \<and>
    (\<forall>co tn. distinct (customers_for_commitment co tn d') \<and>
      (\<forall>cu. cu \<in> set (customers_for_commitment co tn d') \<longleftrightarrow>
        (\<exists>l r c. row_at link_key (cu, co) (links d') = Some l \<and> l_tenant l = tn \<and>
          sel_resource cu d' = Some r \<and> r_kind r = Relational \<and> r_tenant r = tn \<and>
          sel_commitment co d' = Some c \<and> c_tenant c = tn)))"
proof -
  have ok: "links_ok d'"
    using assms by (induction rule: rtranclp_induct) (auto intro: links_ok_step)
  have "distinct (customers_for_commitment co tn d')" for co tn
  proof -
    have "inj_on l_customer (set (filter (\<lambda>l. l_commitment l = co \<and> l_tenant l = tn) (links d')))"
      using ok by (auto simp: links_ok_def distinct_map link_key_def inj_on_def)
    moreover have "distinct (links d')" using ok by (simp add: links_ok_def distinct_map)
    ultimately show ?thesis by (simp add: customers_for_commitment_def distinct_map)
  qed
  moreover have "cu \<in> set (customers_for_commitment co tn d') \<longleftrightarrow>
      (\<exists>l r c. row_at link_key (cu, co) (links d') = Some l \<and> l_tenant l = tn \<and>
        sel_resource cu d' = Some r \<and> r_kind r = Relational \<and> r_tenant r = tn \<and>
        sel_commitment co d' = Some c \<and> c_tenant c = tn)" (is "?L \<longleftrightarrow> ?R") for cu co tn
  proof
    assume ?L
    then obtain l where l: "l \<in> set (links d')" "l_customer l = cu" "l_commitment l = co" "l_tenant l = tn"
      by (auto simp: customers_for_commitment_def)
    have "row_at link_key (link_key l) (links d') = Some l"
      using ok l(1) by (intro row_at_unique) (simp_all add: links_ok_def)
    with ok l show ?R by (auto simp: links_ok_def link_key_def)
  next
    assume ?R
    then show ?L by (auto simp: customers_for_commitment_def link_key_def dest!: row_at_Some)
  qed
  ultimately show ?thesis using ok by blast
qed

definition customer_db :: db where
  "customer_db = crew_db\<lparr>resources := resources pool_db @ [(hd (resources pool_db))\<lparr>r_id := 4,
     r_kind := Relational, r_value := []\<rparr>]\<rparr>"

lemma customer_db_ok: "links_ok customer_db"
  by (simp add: links_ok_def customer_db_def crew_db_def pool_db_def empty_db_def)

definition linked_db :: db where
  "linked_db = snd (link_commitment 4 2 7 ''delivers'' None ''high'' None True customer_db)"

lemma customer_link:
  "link_commitment 4 2 7 ''delivers'' None ''high'' None True customer_db =
    (Inr (hd (links linked_db)), linked_db)"
  unfolding linked_db_def by code_simp

theorem link_upsert_witness: "row_at link_key (4, 2) (links linked_db) = Some (hd (links linked_db))"
  using link_upsert [OF customer_link] by simp

theorem links_tenant_safe_witness:
  "links_ok linked_db \<and> 4 \<in> set (customers_for_commitment 2 7 linked_db) \<and>
   isl (fst (link_commitment 4 2 8 ''delivers'' None ''high'' None True linked_db))"
proof -
  have "link_step\<^sup>*\<^sup>* customer_db linked_db"
    unfolding linked_db_def by (rule r_into_rtranclp) (rule ls_link)
  from links_tenant_safe [OF this customer_db_ok] have "links_ok linked_db" by simp
  moreover have "4 \<in> set (customers_for_commitment 2 7 linked_db)" unfolding linked_db_def by code_simp
  moreover have "isl (fst (link_commitment 4 2 8 ''delivers'' None ''high'' None True linked_db))"
    unfolding linked_db_def by code_simp
  ultimately show ?thesis by blast
qed

text \<open>
  What \<open>commitments_for_customer\<close> returns for a commitment is not its row: a maintenance
  commitment comes back as one that is not, because the query leaves the column out.
\<close>

theorem customer_query_drops_maintenance:
  "map (\<lambda>(c, l). (c_id c, c_maintenance c)) (commitments_for_customer 4 7 linked_db) = [(2, False)] \<and>
   map_option c_maintenance (sel_commitment 2 linked_db) = Some True"
  unfolding linked_db_def by code_simp

end
