(* ===== verification/CircuitBreaker.thy ===== *)
theory CircuitBreaker
  imports Prelude
begin

text \<open>
  \<open>lib/shared/circuit_breaker.py\<close>: the rolling-window circuit breaker. A call is two critical
  sections with the dependency between them, so calls overlap; the clock does not advance inside
  a section. Metrics are not modelled, and neither is the binding of the lock to an event loop.
\<close>

section \<open>The breaker\<close>

datatype circuit_state = CLOSED | OPEN | HALF_OPEN

record breaker_config =
  failure_threshold :: real
  window_seconds :: real
  open_duration :: real
  min_samples :: int

record breaker =
  cb_state :: circuit_state
  cb_events :: "(real \<times> bool) list"
  cb_opened_at :: "real option"

definition breaker_post_init :: "breaker_config \<Rightarrow> err option" where
  "breaker_post_init cfg =
    then_check (fails (\<not> (0 < failure_threshold cfg \<and> failure_threshold cfg \<le> 1))
      (ValueError ''failure_threshold must be between 0 and 1''))
    (then_check (fails (window_seconds cfg \<le> 0) (ValueError ''window_seconds must be positive''))
    (then_check (fails (open_duration cfg < 0) (ValueError ''open_duration must be >= 0''))
    (fails (min_samples cfg < 1) (ValueError ''min_samples must be >= 1''))))"

definition new_breaker :: breaker where
  "new_breaker = \<lparr>cb_state = CLOSED, cb_events = [], cb_opened_at = None\<rparr>"

definition evict_old :: "breaker_config \<Rightarrow> real \<Rightarrow> breaker \<Rightarrow> breaker" where
  "evict_old cfg now b =
    b\<lparr>cb_events := dropWhile (\<lambda>e. fst e < now - window_seconds cfg) (cb_events b)\<rparr>"

definition failure_rate :: "breaker \<Rightarrow> real" where
  "failure_rate b =
    (if cb_events b = [] then 0
     else real (length (filter (\<lambda>e. \<not> snd e) (cb_events b))) / real (length (cb_events b)))"

definition record_success :: "breaker_config \<Rightarrow> real \<Rightarrow> breaker \<Rightarrow> breaker" where
  "record_success cfg now b =
    (if cb_state b = HALF_OPEN
     then b\<lparr>cb_events := [], cb_opened_at := None, cb_state := CLOSED\<rparr>
     else evict_old cfg now (b\<lparr>cb_events := cb_events b @ [(now, True)]\<rparr>))"

definition record_failure :: "breaker_config \<Rightarrow> real \<Rightarrow> breaker \<Rightarrow> breaker" where
  "record_failure cfg now b =
    (let b = evict_old cfg now (b\<lparr>cb_events := cb_events b @ [(now, False)]\<rparr>) in
     if cb_state b = HALF_OPEN then b\<lparr>cb_opened_at := Some now, cb_state := OPEN\<rparr>
     else if min_samples cfg \<le> int (length (cb_events b)) \<and> failure_threshold cfg \<le> failure_rate b
     then b\<lparr>cb_opened_at := Some now, cb_state := OPEN\<rparr>
     else b)"

definition check_half_open_transition :: "breaker_config \<Rightarrow> real \<Rightarrow> breaker \<Rightarrow> breaker" where
  "check_half_open_transition cfg now b =
    (case (cb_state b, cb_opened_at b) of
       (OPEN, Some u) \<Rightarrow> if open_duration cfg \<le> now - u then b\<lparr>cb_state := HALF_OPEN\<rparr> else b
     | _ \<Rightarrow> b)"

text \<open>The first critical section of a call: whether the dependency may be called.\<close>

definition begin_call :: "breaker_config \<Rightarrow> real \<Rightarrow> breaker \<Rightarrow> bool \<times> breaker" where
  "begin_call cfg now b =
    (let b = check_half_open_transition cfg now b in (cb_state b \<noteq> OPEN, b))"

text \<open>
  The second one, given what the dependency did; \<open>recorded\<close> is the \<open>record_exception\<close>
  predicate of the caller.
\<close>

definition finish_call ::
  "breaker_config \<Rightarrow> (err \<Rightarrow> bool) \<Rightarrow> real \<Rightarrow> 'a result \<Rightarrow> breaker \<Rightarrow> breaker" where
  "finish_call cfg recorded now outcome b =
    (case outcome of
       Inl exc \<Rightarrow> if recorded exc then record_failure cfg now b else b
     | Inr _ \<Rightarrow> record_success cfg now b)"

text \<open>
  A whole call that begins at \<open>now\<close>; the dependency answers \<open>outcome\<close> at time \<open>later\<close> and
  \<open>others\<close> is what other calls did to the breaker meanwhile.
\<close>

definition call :: "breaker_config \<Rightarrow> (err \<Rightarrow> bool) \<Rightarrow> real \<Rightarrow> real \<Rightarrow> 'a result \<Rightarrow>
  (breaker \<Rightarrow> breaker) \<Rightarrow> breaker \<Rightarrow> 'a result \<times> breaker" where
  "call cfg recorded now later outcome others b =
    (let (admitted, b) = begin_call cfg now b in
     if \<not> admitted then (Inl CircuitOpenError, b)
     else (outcome, finish_call cfg recorded later outcome (others b)))"

definition reset :: "breaker \<Rightarrow> breaker" where
  "reset b = b\<lparr>cb_state := CLOSED, cb_opened_at := None, cb_events := []\<rparr>"

section \<open>Overlapping calls\<close>

text \<open>The clock, the breaker and the number of admitted calls that have not finished.\<close>

inductive breaker_step ::
  "breaker_config \<Rightarrow> (err \<Rightarrow> bool) \<Rightarrow> real \<times> breaker \<times> nat \<Rightarrow> real \<times> breaker \<times> nat \<Rightarrow> bool"
  for cfg :: breaker_config and recorded :: "err \<Rightarrow> bool" where
  bs_tick: "t \<le> t' \<Longrightarrow> breaker_step cfg recorded (t, b, n) (t', b, n)"
| bs_begin: "begin_call cfg t b = (admitted, b') \<Longrightarrow>
    breaker_step cfg recorded (t, b, n) (t, b', if admitted then Suc n else n)"
| bs_finish: "breaker_step cfg recorded (t, b, Suc n) (t, finish_call cfg recorded t (outcome :: unit result) b, n)"
| bs_status: "breaker_step cfg recorded (t, b, n) (t, evict_old cfg t b, n)"
| bs_reset: "breaker_step cfg recorded (t, b, n) (t, reset b, n)"

inductive_cases breaker_step_cases: "breaker_step cfg recorded s s'"

definition breaker_inv :: "real \<Rightarrow> breaker \<Rightarrow> bool" where
  "breaker_inv t b \<longleftrightarrow> sorted (map fst (cb_events b)) \<and> (\<forall>e \<in> set (cb_events b). fst e \<le> t) \<and>
    (cb_opened_at b = None \<longleftrightarrow> cb_state b = CLOSED) \<and> (\<forall>u. cb_opened_at b = Some u \<longrightarrow> u \<le> t)"

lemma sorted_dropWhile_fst:
  "sorted (map fst xs) \<Longrightarrow> sorted (map fst (dropWhile P xs))"
  by (induction xs) auto

lemma evict_old_inv: "breaker_inv t b \<Longrightarrow> breaker_inv t (evict_old cfg t b)"
  by (auto simp: breaker_inv_def evict_old_def sorted_dropWhile_fst dest: set_dropWhileD)

lemma append_event_inv:
  "breaker_inv t b \<Longrightarrow> breaker_inv t (b\<lparr>cb_events := cb_events b @ [(t, s)]\<rparr>)"
  by (auto simp: breaker_inv_def sorted_append)

lemma begin_call_inv: "breaker_inv t b \<Longrightarrow> begin_call cfg t b = (adm, b') \<Longrightarrow> breaker_inv t b'"
  by (auto simp: begin_call_def check_half_open_transition_def breaker_inv_def Let_def
      split: circuit_state.splits option.splits if_splits)

lemma finish_call_inv: "breaker_inv t b \<Longrightarrow> breaker_inv t (finish_call cfg recorded t outcome b)"
proof -
  assume inv: "breaker_inv t b"
  have ev: "breaker_inv t (evict_old cfg t (b\<lparr>cb_events := cb_events b @ [(t, s)]\<rparr>))" for s
    by (intro evict_old_inv append_event_inv inv)
  have "breaker_inv t (record_success cfg t b)"
    using ev [of True] by (simp add: record_success_def) (simp add: breaker_inv_def)
  moreover have "breaker_inv t (record_failure cfg t b)"
    using ev [of False] by (auto simp: record_failure_def Let_def breaker_inv_def split: option.splits)
  ultimately show ?thesis using inv by (simp add: finish_call_def split: sum.split)
qed

lemma breaker_inv_step:
  "breaker_step cfg recorded (t, b, n) (t', b', n') \<Longrightarrow> breaker_inv t b \<Longrightarrow> breaker_inv t' b' \<and> t \<le> t'"
  by (erule breaker_step_cases)
    (auto simp: evict_old_inv begin_call_inv finish_call_inv,
     auto simp: breaker_inv_def reset_def split: option.splits)

definition reachable_breaker :: "breaker_config \<Rightarrow> (err \<Rightarrow> bool) \<Rightarrow> real \<Rightarrow> breaker \<Rightarrow> nat \<Rightarrow> bool" where
  "reachable_breaker cfg recorded t b n \<longleftrightarrow> breaker_post_init cfg = None \<and>
    (\<exists>t0. (breaker_step cfg recorded)\<^sup>*\<^sup>* (t0, new_breaker, 0) (t, b, n))"

lemma reachable_breaker_inv: "reachable_breaker cfg recorded t b n \<Longrightarrow> breaker_inv t b"
proof -
  assume "reachable_breaker cfg recorded t b n"
  then obtain t0 where "(breaker_step cfg recorded)\<^sup>*\<^sup>* (t0, new_breaker, 0) (t, b, n)"
    by (auto simp: reachable_breaker_def)
  then have "breaker_inv (fst (t, b, n)) (fst (snd (t, b, n)))"
  proof (induction rule: rtranclp_induct)
    case base
    show ?case by (simp add: breaker_inv_def new_breaker_def)
  next
    case (step s s')
    then show ?case by (cases s; cases s') (auto dest: breaker_inv_step)
  qed
  then show ?thesis by simp
qed

lemma dropWhile_sorted_filter:
  assumes "sorted (map fst xs)"
  shows "dropWhile (\<lambda>e. fst e < c) xs = filter (\<lambda>e. c \<le> fst e) xs"
  using assms
proof (induction xs)
  case (Cons x xs)
  show ?case
  proof (cases "fst x < c")
    case True
    with Cons show ?thesis by simp
  next
    case False
    with Cons.prems have "filter (\<lambda>e. c \<le> fst e) xs = xs"
      by (auto intro!: filter_True intro: order_trans)
    with False show ?thesis by simp
  qed
qed simp

text \<open>What the window holds after an event at \<open>t\<close> was added to it.\<close>

definition window :: "breaker_config \<Rightarrow> real \<Rightarrow> breaker \<Rightarrow> (real \<times> bool) list" where
  "window cfg t b = filter (\<lambda>e. t - window_seconds cfg \<le> fst e) (cb_events b)"

lemma evict_append:
  assumes "breaker_inv t b" and "0 < window_seconds cfg"
  shows "evict_old cfg t (b\<lparr>cb_events := cb_events b @ [(t, s)]\<rparr>) =
    b\<lparr>cb_events := window cfg t b @ [(t, s)]\<rparr>"
proof -
  have "sorted (map fst (cb_events b @ [(t, s)]))"
    using append_event_inv [OF assms(1), of s] by (simp add: breaker_inv_def)
  from dropWhile_sorted_filter [OF this] show ?thesis
    using assms(2) by (simp add: evict_old_def window_def)
qed

lemma reachable_config:
  assumes "reachable_breaker cfg recorded t b n"
  shows "0 < window_seconds cfg" "0 < failure_threshold cfg" "0 \<le> open_duration cfg" "1 \<le> min_samples cfg"
  using assms by (auto simp: reachable_breaker_def breaker_post_init_def check_simps)

text \<open>
  in every state that overlapping calls reach, a recorded failure that finishes while the
  breaker is closed opens it exactly when the events of the last \<open>window_seconds\<close> with the new
  failure are at least \<open>min_samples\<close> and the share of failures among them is at least the
  threshold; events outside the window never count, and a success never opens the breaker.
\<close>

theorem breaker_trips:
  assumes "reachable_breaker cfg recorded t b n" and "cb_state b = CLOSED" and "recorded exc"
  shows "(let events = window cfg t b @ [(t, False)];
      b' = finish_call cfg recorded t (Inl exc :: 'a result) b
    in cb_events b' = events \<and>
      (cb_state b' = OPEN \<longleftrightarrow> min_samples cfg \<le> int (length events) \<and>
        failure_threshold cfg * real (length events) \<le> real (length (filter (\<lambda>e. \<not> snd e) events))) \<and>
      cb_state b' \<noteq> HALF_OPEN \<and> cb_opened_at b' = (if cb_state b' = OPEN then Some t else None)) \<and>
    cb_state (finish_call cfg recorded t (Inr x :: 'a result) b) = CLOSED"
proof -
  note ev = evict_append [OF reachable_breaker_inv [OF assms(1)] reachable_config(1) [OF assms(1)]]
  have none: "cb_opened_at b = None" using reachable_breaker_inv [OF assms(1)] assms(2) by (simp add: breaker_inv_def)
  let ?events = "window cfg t b @ [(t, False)]"
  have rate: "failure_threshold cfg \<le> failure_rate (b\<lparr>cb_events := ?events\<rparr>) \<longleftrightarrow>
      failure_threshold cfg * real (length ?events) \<le> real (length (filter (\<lambda>e. \<not> snd e) ?events))"
    by (simp add: failure_rate_def pos_le_divide_eq)
  have "record_failure cfg t b =
      (if min_samples cfg \<le> int (length ?events) \<and> failure_threshold cfg \<le> failure_rate (b\<lparr>cb_events := ?events\<rparr>)
       then b\<lparr>cb_events := ?events, cb_opened_at := Some t, cb_state := OPEN\<rparr>
       else b\<lparr>cb_events := ?events\<rparr>)"
    using assms(2) by (simp add: record_failure_def Let_def ev)
  then show ?thesis
    unfolding rate using assms(2,3) none
    by (simp add: finish_call_def record_success_def evict_old_def Let_def)
qed

text \<open>
  In every reachable state an open breaker knows when it opened. Until \<open>open_duration\<close> has
  passed, a call raises \<open>CircuitOpenError\<close>, whatever the dependency would answer, and leaves
  the breaker alone. Afterwards the next call goes through: with no other call in between its
  success closes the breaker and empties the window, its recorded failure opens it anew.
\<close>

theorem breaker_open_recovers:
  assumes "reachable_breaker cfg recorded t b n" and "cb_state b = OPEN" and "t \<le> later"
  shows "\<exists>u. cb_opened_at b = Some u \<and> u \<le> t \<and>
    (t - u < open_duration cfg \<longrightarrow>
       call cfg recorded t later (outcome :: 'a result) others b = (Inl CircuitOpenError, b)) \<and>
    (open_duration cfg \<le> t - u \<longrightarrow>
       fst (call cfg recorded t later outcome others b) = outcome \<and>
       (\<forall>x. outcome = Inr x \<longrightarrow> snd (call cfg recorded t later outcome id b) = new_breaker) \<and>
       (\<forall>e. outcome = Inl e \<and> recorded e \<longrightarrow>
          cb_state (snd (call cfg recorded t later outcome id b)) = OPEN \<and>
          cb_opened_at (snd (call cfg recorded t later outcome id b)) = Some later))"
proof -
  obtain u where "cb_opened_at b = Some u" "u \<le> t"
    using reachable_breaker_inv [OF assms(1)] assms(2) by (auto simp: breaker_inv_def)
  then show ?thesis
    using assms(2)
    by (cases outcome)
      (auto simp: call_def begin_call_def check_half_open_transition_def finish_call_def Let_def
        record_success_def record_failure_def evict_old_def new_breaker_def)
qed

section \<open>Concrete runs\<close>

definition quick :: breaker_config where
  "quick = \<lparr>failure_threshold = 1 / 2, window_seconds = 60, open_duration = 30, min_samples = 2\<rparr>"

definition one_failure :: breaker where
  "one_failure = \<lparr>cb_state = CLOSED, cb_events = [(0, False)], cb_opened_at = None\<rparr>"

definition tripped :: breaker where
  "tripped = \<lparr>cb_state = OPEN, cb_events = [(0, False), (0, False)], cb_opened_at = Some 0\<rparr>"

abbreviation all_recorded :: "err \<Rightarrow> bool" where "all_recorded \<equiv> \<lambda>_. True"

lemma quick_config: "breaker_post_init quick = None"
  by (simp add: breaker_post_init_def quick_def then_check_def fails_def)

lemma begin_closed: "cb_state b = CLOSED \<Longrightarrow> begin_call cfg t b = (True, b)"
  by (simp add: begin_call_def check_half_open_transition_def)

lemma quick_failure:
  "finish_call quick all_recorded 0 (Inl DeadlockDetectedError) new_breaker = one_failure"
  "finish_call quick all_recorded 0 (Inl DeadlockDetectedError) one_failure = tripped"
  by (simp_all add: finish_call_def record_failure_def evict_old_def new_breaker_def quick_def
      one_failure_def tripped_def failure_rate_def Let_def)

lemma breaker_runs:
  "(breaker_step cfg recorded)\<^sup>*\<^sup>* s (t, b, n) \<Longrightarrow> begin_call cfg t b = (True, b') \<Longrightarrow>
    (breaker_step cfg recorded)\<^sup>*\<^sup>* s (t, b', Suc n)"
  "(breaker_step cfg recorded)\<^sup>*\<^sup>* s (t, b, Suc n) \<Longrightarrow>
    (breaker_step cfg recorded)\<^sup>*\<^sup>* s (t, finish_call cfg recorded t (outcome :: unit result) b, n)"
  "(breaker_step cfg recorded)\<^sup>*\<^sup>* s (t, b, n) \<Longrightarrow> t \<le> t' \<Longrightarrow>
    (breaker_step cfg recorded)\<^sup>*\<^sup>* s (t', b, n)"
proof -
  assume "(breaker_step cfg recorded)\<^sup>*\<^sup>* s (t, b, n)" "begin_call cfg t b = (True, b')"
  with bs_begin [of cfg t b True b' recorded n]
  show "(breaker_step cfg recorded)\<^sup>*\<^sup>* s (t, b', Suc n)" by (simp add: rtranclp.rtrancl_into_rtrancl)
qed (blast intro: rtranclp.rtrancl_into_rtrancl bs_finish bs_tick)+

lemma one_failure_reachable: "reachable_breaker quick all_recorded 0 one_failure 0"
proof -
  have "(breaker_step quick all_recorded)\<^sup>*\<^sup>* (0, new_breaker, 0) (0, one_failure, 0)"
    using breaker_runs(2) [OF breaker_runs(1) [OF rtranclp.rtrancl_refl begin_closed], of new_breaker quick all_recorded 0 0
        "Inl DeadlockDetectedError"]
    by (simp add: quick_failure new_breaker_def [THEN arg_cong, of cb_state])
  with quick_config show ?thesis unfolding reachable_breaker_def by blast
qed

lemma tripped_run: "(breaker_step quick all_recorded)\<^sup>*\<^sup>* (0, new_breaker, 0) (0, tripped, 0)"
proof -
  have "(breaker_step quick all_recorded)\<^sup>*\<^sup>* (0, new_breaker, 0) (0, one_failure, 0)"
    using breaker_runs(2) [OF breaker_runs(1) [OF rtranclp.rtrancl_refl begin_closed], of new_breaker quick all_recorded 0 0
        "Inl DeadlockDetectedError"]
    by (simp add: quick_failure new_breaker_def [THEN arg_cong, of cb_state])
  then show ?thesis
    using breaker_runs(2) [OF breaker_runs(1) [OF _ begin_closed], of quick all_recorded "(0, new_breaker, 0)" 0 one_failure 0
        "Inl DeadlockDetectedError"]
    by (simp add: quick_failure) (simp add: one_failure_def)
qed

theorem breaker_trips_witness:
  "cb_state (finish_call quick all_recorded 0 (Inl DeadlockDetectedError :: unit result) one_failure) = OPEN"
  using breaker_trips [OF one_failure_reachable, of DeadlockDetectedError "()"]
  by (simp add: Let_def window_def one_failure_def quick_def)

theorem breaker_open_recovers_witness:
  "fst (call quick all_recorded 29 31 (Inr ()) id tripped) = Inl CircuitOpenError \<and>
   call quick all_recorded 30 31 (Inr ()) id tripped = (Inr (), new_breaker)"
proof -
  have r: "reachable_breaker quick all_recorded t tripped 0" if "0 \<le> t" for t
    using breaker_runs(3) [OF tripped_run that] quick_config unfolding reachable_breaker_def by blast
  have "cb_state tripped = OPEN" "cb_opened_at tripped = Some 0" "open_duration quick = 30"
    by (simp_all add: tripped_def quick_def)
  then show ?thesis
    using breaker_open_recovers [OF r, of 29 31 "Inr ()" id] breaker_open_recovers [OF r, of 30 31 "Inr ()" id]
    by (auto simp: prod_eq_iff)
qed

text \<open>
  Half open, the breaker admits every call, not one probe: after the open period any number
  of calls reach the dependency at once while its state is still unknown.
\<close>

theorem half_open_admits_all:
  "reachable_breaker quick all_recorded 30 (tripped\<lparr>cb_state := HALF_OPEN\<rparr>) (Suc n)"
proof -
  let ?half = "tripped\<lparr>cb_state := HALF_OPEN\<rparr>"
  have first: "begin_call quick 30 tripped = (True, ?half)"
    by (simp add: begin_call_def check_half_open_transition_def quick_def tripped_def)
  have again: "begin_call quick 30 ?half = (True, ?half)"
    by (simp add: begin_call_def check_half_open_transition_def)
  have "(breaker_step quick all_recorded)\<^sup>*\<^sup>* (0, new_breaker, 0) (30, ?half, Suc n)"
  proof (induction n)
    case 0
    from breaker_runs(1) [OF breaker_runs(3) [OF tripped_run, of 30] first] show ?case by simp
  next
    case (Suc n)
    from breaker_runs(1) [OF Suc again] show ?case .
  qed
  with quick_config show ?thesis unfolding reachable_breaker_def by blast
qed

end
