(* ===== verification/LlmBreaker.thy ===== *)
theory LlmBreaker
  imports CircuitBreaker
begin

text \<open>
  \<open>services/reasoning/think/circuit_breaker.py\<close>: the breaker of the language-model providers,
  which is older than the shared one of theory \<open>CircuitBreaker\<close>, and the registry of breakers by
  provider. The data are those of the shared breaker; the transitions are the file's own. A
  breaker in the registry is a pair of its parameters and its state.
\<close>

section \<open>The breaker\<close>

definition LLM_DEFAULTS :: breaker_config where
  "LLM_DEFAULTS = \<lparr>failure_threshold = 1 / 2, window_seconds = 60, open_duration = 30, min_samples = 10\<rparr>"

definition llm_evict_old :: "breaker_config \<Rightarrow> real \<Rightarrow> breaker \<Rightarrow> breaker" where
  "llm_evict_old cfg now b =
    (let cutoff = now - window_seconds cfg
     in b\<lparr>cb_events := dropWhile (\<lambda>e. fst e < cutoff) (cb_events b)\<rparr>)"

definition llm_failure_rate :: "breaker \<Rightarrow> real" where
  "llm_failure_rate b =
    (if cb_events b = [] then 0
     else real (length (filter (\<lambda>e. \<not> snd e) (cb_events b))) / real (length (cb_events b)))"

definition llm_record_success :: "breaker_config \<Rightarrow> real \<Rightarrow> breaker \<Rightarrow> breaker" where
  "llm_record_success cfg now b =
    (let b = llm_evict_old cfg now (b\<lparr>cb_events := cb_events b @ [(now, True)]\<rparr>) in
     if cb_state b = HALF_OPEN then b\<lparr>cb_state := CLOSED, cb_opened_at := None, cb_events := []\<rparr>
     else b)"

definition llm_record_failure :: "breaker_config \<Rightarrow> real \<Rightarrow> breaker \<Rightarrow> breaker" where
  "llm_record_failure cfg now b =
    (let b = llm_evict_old cfg now (b\<lparr>cb_events := cb_events b @ [(now, False)]\<rparr>) in
     if cb_state b = HALF_OPEN then b\<lparr>cb_state := OPEN, cb_opened_at := Some now\<rparr>
     else if min_samples cfg \<le> int (length (cb_events b)) then
       (let rate = llm_failure_rate b in
        if failure_threshold cfg \<le> rate then b\<lparr>cb_state := OPEN, cb_opened_at := Some now\<rparr> else b)
     else b)"

definition llm_check_half_open_transition :: "breaker_config \<Rightarrow> real \<Rightarrow> breaker \<Rightarrow> breaker" where
  "llm_check_half_open_transition cfg now b =
    (if cb_state b = OPEN then
       (case cb_opened_at b of
          Some opened_at \<Rightarrow> if open_duration cfg \<le> now - opened_at then b\<lparr>cb_state := HALF_OPEN\<rparr> else b
        | None \<Rightarrow> b)
     else b)"

text \<open>As \<open>call\<close> of theory \<open>CircuitBreaker\<close>: two critical sections around the awaited call.\<close>

definition llm_call :: "breaker_config \<Rightarrow> real \<Rightarrow> real \<Rightarrow> 'a result \<Rightarrow> (breaker \<Rightarrow> breaker) \<Rightarrow> breaker \<Rightarrow>
  'a result \<times> breaker" where
  "llm_call cfg now later outcome others b =
    (let b = llm_check_half_open_transition cfg now b in
     if cb_state b = OPEN then (Inl CircuitOpenError, b)
     else case outcome of
       Inl exc \<Rightarrow> (Inl exc, llm_record_failure cfg later (others b))
     | Inr x \<Rightarrow> (Inr x, llm_record_success cfg later (others b)))"

definition llm_reset :: "breaker \<Rightarrow> breaker" where
  "llm_reset b = b\<lparr>cb_state := CLOSED, cb_opened_at := None, cb_events := []\<rparr>"

section \<open>The registry\<close>

type_synonym breakers = "string \<rightharpoonup> breaker_config \<times> breaker"

definition get_breaker :: "string \<Rightarrow> breakers \<Rightarrow> (breaker_config \<times> breaker) \<times> breakers" where
  "get_breaker name bs =
    (let bs = (if bs name = None then bs(name \<mapsto> (LLM_DEFAULTS, new_breaker)) else bs)
     in (case bs name of Some b \<Rightarrow> b | None \<Rightarrow> (LLM_DEFAULTS, new_breaker), bs))"

definition register_breaker :: "string \<Rightarrow> breaker_config \<times> breaker \<Rightarrow> breakers \<Rightarrow> breakers" where
  "register_breaker name breaker bs = bs(name \<mapsto> breaker)"

definition reset_breakers :: "breakers \<Rightarrow> breakers" where
  "reset_breakers bs = (\<lambda>name. map_option (\<lambda>(cfg, b). (cfg, llm_reset b)) (bs name))"

definition all_breaker_states :: "real \<Rightarrow> breakers \<Rightarrow> (string \<rightharpoonup> circuit_state \<times> real \<times> nat \<times> real option) \<times> breakers" where
  "all_breaker_states now bs =
    (let bs = (\<lambda>name. map_option (\<lambda>(cfg, b). (cfg, llm_evict_old cfg now b)) (bs name))
     in (\<lambda>name. map_option (\<lambda>(cfg, b). (cb_state b, llm_failure_rate b, length (cb_events b), cb_opened_at b))
           (bs name), bs))"

section \<open>Properties\<close>

lemma llm_evict: "llm_evict_old = evict_old"
  by (simp add: llm_evict_old_def evict_old_def fun_eq_iff)

lemma llm_rate: "llm_failure_rate = failure_rate"
  by (simp add: llm_failure_rate_def failure_rate_def fun_eq_iff)

lemma llm_success: "llm_record_success = record_success"
  by (simp add: llm_record_success_def record_success_def llm_evict evict_old_def fun_eq_iff Let_def)

lemma llm_failure: "llm_record_failure = record_failure"
  by (simp add: llm_record_failure_def record_failure_def llm_evict llm_rate evict_old_def fun_eq_iff
      Let_def)

lemma llm_half_open: "llm_check_half_open_transition = check_half_open_transition"
  by (simp add: llm_check_half_open_transition_def check_half_open_transition_def fun_eq_iff
      split: circuit_state.splits option.splits)

text \<open>
  the breaker of the language-model providers is the shared breaker with every exception
  recorded: whatever the parameters, the clock, the outcome and the calls that overlap, a call
  through either returns the same and leaves the same state.
\<close>

theorem llm_breaker_is_shared:
  "llm_call cfg now later outcome others b = call cfg (\<lambda>_. True) now later outcome others b \<and>
   llm_reset b = reset b"
  by (simp add: llm_call_def call_def begin_call_def finish_call_def llm_success llm_failure
      llm_half_open llm_reset_def reset_def Let_def split: sum.splits)

text \<open>
  The documentation of \<open>call\<close> announces a single probe in the half-open state. Nothing counts
  the probes: while one awaits its answer (\<open>others\<close> is then a second, overlapping call), the
  half-open breaker admits the next.
\<close>

theorem llm_half_open_admits_more:
  assumes "cb_state b = HALF_OPEN"
  shows "fst (llm_call cfg now later outcome
    (\<lambda>b. snd (llm_call cfg t1 t2 (Inl e) id b)) b) = outcome \<and>
    fst (llm_call cfg t1 t2 (Inl e :: unit result) id b) = Inl e"
  using assms by (simp add: llm_call_def llm_check_half_open_transition_def split: sum.splits)

end
