(* ===== verification/Leases.thy ===== *)
theory Leases
  imports Json
begin

text \<open>
  \<open>lib/shared/db_leases.py\<close>: leases of singleton workers, kept in the table
  \<open>scheduler_leases\<close>. Each operation is one SQL statement, so it is one step at one time of
  the database clock; times are seconds, their rounding to microseconds is not modelled. An
  abstract lock that frees itself is the specification of a row.
\<close>

section \<open>The table and its operations\<close>

record lease_row =
  lr_holder :: string
  lr_expires :: real
  lr_acquired :: real
  lr_refreshed :: real
  lr_metadata :: dict

type_synonym lease_table = "string \<rightharpoonup> lease_row"

record lease_client =
  lc_name :: string
  lc_holder :: string
  lc_ttl :: real
  lc_metadata :: dict
  lc_held :: bool

definition new_lease :: "string \<Rightarrow> string \<Rightarrow> real \<Rightarrow> dict option \<Rightarrow> lease_client result" where
  "new_lease lease_name holder_id ttl_seconds metadata =
    (if ttl_seconds \<le> 0 then Inl (ValueError ''ttl_seconds must be greater than zero'')
     else Inr \<lparr>lc_name = lease_name, lc_holder = holder_id, lc_ttl = ttl_seconds,
       lc_metadata = (case metadata of None \<Rightarrow> [] | Some m \<Rightarrow> m), lc_held = False\<rparr>)"

definition is_held :: "lease_client \<Rightarrow> bool" where
  "is_held c = lc_held c"

text \<open>\<open>INSERT .. ON CONFLICT (lease_name) DO UPDATE .. WHERE .. RETURNING\<close>.\<close>

definition acquire :: "real \<Rightarrow> lease_client \<Rightarrow> lease_table \<Rightarrow> bool \<times> lease_client \<times> lease_table" where
  "acquire now c tab =
    (let excluded = \<lparr>lr_holder = lc_holder c, lr_expires = now + lc_ttl c, lr_acquired = now,
           lr_refreshed = now, lr_metadata = lc_metadata c\<rparr>
     in case tab (lc_name c) of
          None \<Rightarrow> (True, c\<lparr>lc_held := True\<rparr>, tab(lc_name c \<mapsto> excluded))
        | Some row \<Rightarrow>
            if lr_holder row = lr_holder excluded \<or> lr_expires row \<le> now
            then (True, c\<lparr>lc_held := True\<rparr>, tab(lc_name c \<mapsto> excluded\<lparr>lr_acquired :=
                   if lr_holder row = lr_holder excluded then lr_acquired row else now\<rparr>))
            else (False, c\<lparr>lc_held := False\<rparr>, tab))"

definition refresh :: "real \<Rightarrow> lease_client \<Rightarrow> lease_table \<Rightarrow> bool \<times> lease_client \<times> lease_table" where
  "refresh now c tab =
    (case tab (lc_name c) of
       Some row \<Rightarrow>
         if lr_holder row = lc_holder c \<and> now < lr_expires row
         then (True, c\<lparr>lc_held := True\<rparr>, tab(lc_name c \<mapsto> row\<lparr>lr_expires := now + lc_ttl c,
                lr_refreshed := now, lr_metadata := lc_metadata c\<rparr>))
         else (False, c\<lparr>lc_held := False\<rparr>, tab)
     | None \<Rightarrow> (False, c\<lparr>lc_held := False\<rparr>, tab))"

definition release_lease :: "lease_client \<Rightarrow> lease_table \<Rightarrow> bool \<times> lease_client \<times> lease_table" where
  "release_lease c tab =
    (case tab (lc_name c) of
       Some row \<Rightarrow>
         if lr_holder row = lc_holder c
         then (True, c\<lparr>lc_held := False\<rparr>, tab(lc_name c := None))
         else (False, c\<lparr>lc_held := False\<rparr>, tab)
     | None \<Rightarrow> (False, c\<lparr>lc_held := False\<rparr>, tab))"

section \<open>The abstract lock\<close>

text \<open>
  What a row promises at a time: nobody, or a holder until its deadline. The lock frees itself
  at the deadline.
\<close>

type_synonym lock = "(string \<times> real) option"

definition owner_at :: "real \<Rightarrow> string \<Rightarrow> lease_table \<Rightarrow> lock" where
  "owner_at now name tab = (case tab name of
     Some row \<Rightarrow> if now < lr_expires row then Some (lr_holder row, lr_expires row) else None
   | None \<Rightarrow> None)"

definition lock_acquire :: "string \<Rightarrow> real \<Rightarrow> lock \<Rightarrow> bool \<times> lock" where
  "lock_acquire h deadline l = (case l of
     None \<Rightarrow> (True, Some (h, deadline))
   | Some (h', u) \<Rightarrow> if h' = h then (True, Some (h, deadline)) else (False, l))"

definition lock_refresh :: "string \<Rightarrow> real \<Rightarrow> lock \<Rightarrow> bool \<times> lock" where
  "lock_refresh h deadline l = (case l of
     None \<Rightarrow> (False, None)
   | Some (h', u) \<Rightarrow> if h' = h then (True, Some (h, deadline)) else (False, l))"

definition lock_release :: "string \<Rightarrow> lock \<Rightarrow> lock" where
  "lock_release h l = (case l of None \<Rightarrow> None | Some (h', u) \<Rightarrow> if h' = h then None else l)"

text \<open>
  C19: the three statements implement the abstract lock: read through \<open>owner_at\<close>, they answer
  and change the lease of their name as the lock's operations do, the flag of the client is the
  answer (cleared by a release), and no other lease is touched.
\<close>

theorem lease_refines_lock:
  assumes "0 < lc_ttl c"
  shows "(case acquire now c tab of (ok, c', tab') \<Rightarrow>
      (ok, owner_at now (lc_name c) tab') = lock_acquire (lc_holder c) (now + lc_ttl c) (owner_at now (lc_name c) tab) \<and>
      is_held c' = ok \<and> (\<forall>n. n \<noteq> lc_name c \<longrightarrow> tab' n = tab n)) \<and>
    (case refresh now c tab of (ok, c', tab') \<Rightarrow>
      (ok, owner_at now (lc_name c) tab') = lock_refresh (lc_holder c) (now + lc_ttl c) (owner_at now (lc_name c) tab) \<and>
      is_held c' = ok \<and> (\<forall>n. n \<noteq> lc_name c \<longrightarrow> tab' n = tab n)) \<and>
    (case release_lease c tab of (ok, c', tab') \<Rightarrow>
      owner_at now (lc_name c) tab' = lock_release (lc_holder c) (owner_at now (lc_name c) tab) \<and>
      \<not> is_held c' \<and> (\<forall>n. n \<noteq> lc_name c \<longrightarrow> tab' n = tab n))"
proof (cases "tab (lc_name c)")
  case None
  with assms show ?thesis
    by (simp add: acquire_def refresh_def release_lease_def owner_at_def lock_acquire_def
        lock_refresh_def lock_release_def is_held_def Let_def)
next
  case (Some row)
  with assms show ?thesis
    by (auto simp: acquire_def refresh_def release_lease_def owner_at_def lock_acquire_def
        lock_refresh_def lock_release_def is_held_def Let_def)
qed

section \<open>Workers\<close>

text \<open>
  Any number of workers, each with its lease object; \<open>until\<close> is what a worker can compute for
  itself: the time of its last successful statement plus its \<open>ttl_seconds\<close>.
\<close>

record lease_system =
  sys_now :: real
  sys_table :: lease_table
  sys_client :: "nat \<Rightarrow> lease_client"
  sys_until :: "nat \<Rightarrow> real"

definition put_client :: "nat \<Rightarrow> bool \<times> lease_client \<times> lease_table \<Rightarrow> lease_system \<Rightarrow> lease_system" where
  "put_client i r s = (case r of (ok, c, tab) \<Rightarrow>
     s\<lparr>sys_table := tab, sys_client := (sys_client s)(i := c),
       sys_until := (if ok then (sys_until s)(i := sys_now s + lc_ttl c) else sys_until s)\<rparr>)"

inductive lease_step :: "lease_system \<Rightarrow> lease_system \<Rightarrow> bool" where
  l_tick: "sys_now s \<le> t \<Longrightarrow> lease_step s (s\<lparr>sys_now := t\<rparr>)"
| l_acquire: "lease_step s (put_client i (acquire (sys_now s) (sys_client s i) (sys_table s)) s)"
| l_refresh: "lease_step s (put_client i (refresh (sys_now s) (sys_client s i) (sys_table s)) s)"
| l_release: "lease_step s (put_client i (release_lease (sys_client s i) (sys_table s)) s)"

inductive_cases lease_step_cases: "lease_step s s'"

text \<open>
  At the start no worker holds anything; lifetimes are positive and two workers of one lease
  have different holder identifiers (the default ends in a random UUID).
\<close>

definition lease_config :: "(nat \<Rightarrow> lease_client) \<Rightarrow> bool" where
  "lease_config cs \<longleftrightarrow> (\<forall>i. 0 < lc_ttl (cs i)) \<and>
    (\<forall>i j. i \<noteq> j \<and> lc_name (cs i) = lc_name (cs j) \<longrightarrow> lc_holder (cs i) \<noteq> lc_holder (cs j))"

definition lease_start :: "lease_system \<Rightarrow> bool" where
  "lease_start s \<longleftrightarrow> lease_config (sys_client s) \<and> (\<forall>i. \<not> is_held (sys_client s i))"

definition trusts :: "lease_system \<Rightarrow> nat \<Rightarrow> bool" where
  "trusts s i \<longleftrightarrow> is_held (sys_client s i) \<and> sys_now s < sys_until s i"

definition lease_inv :: "lease_system \<Rightarrow> bool" where
  "lease_inv s \<longleftrightarrow> lease_config (sys_client s) \<and> (\<forall>i. trusts s i \<longrightarrow>
     (\<exists>row. sys_table s (lc_name (sys_client s i)) = Some row \<and>
        lr_holder row = lc_holder (sys_client s i) \<and> lr_expires row = sys_until s i))"

definition same_identity :: "lease_client \<Rightarrow> lease_client \<Rightarrow> bool" where
  "same_identity c c' \<longleftrightarrow> lc_name c' = lc_name c \<and> lc_holder c' = lc_holder c \<and> lc_ttl c' = lc_ttl c"

lemma lease_ops_identity:
  "acquire now c tab = (ok, c', tab') \<Longrightarrow> same_identity c c'"
  "refresh now c tab = (ok, c', tab') \<Longrightarrow> same_identity c c'"
  "release_lease c tab = (ok, c', tab') \<Longrightarrow> same_identity c c'"
  by (auto simp: acquire_def refresh_def release_lease_def Let_def same_identity_def
      split: option.splits if_splits)

text \<open>
  Each statement either writes its own row or leaves the table; it never takes a live row from
  another holder.
\<close>

lemma lease_ops_row:
  assumes "acquire now c tab = (ok, c', tab') \<or> refresh now c tab = (ok, c', tab')"
  shows "(ok \<longrightarrow> (\<exists>row. tab' (lc_name c) = Some row \<and> lr_holder row = lc_holder c \<and> lr_expires row = now + lc_ttl c)) \<and>
    (\<not> ok \<longrightarrow> tab' = tab \<and> \<not> is_held c') \<and> (\<forall>n. n \<noteq> lc_name c \<longrightarrow> tab' n = tab n) \<and>
    (\<forall>row. tab (lc_name c) = Some row \<and> lr_holder row \<noteq> lc_holder c \<and> now < lr_expires row \<longrightarrow> \<not> ok)"
  using assms
  by (auto simp: acquire_def refresh_def Let_def is_held_def split: option.splits if_splits)

lemma release_row:
  assumes "release_lease c tab = (ok, c', tab')"
  shows "\<not> is_held c' \<and> (\<forall>n row. tab n = Some row \<and> (n \<noteq> lc_name c \<or> lr_holder row \<noteq> lc_holder c) \<longrightarrow>
    tab' n = Some row)"
  using assms by (auto simp: release_lease_def is_held_def split: option.splits if_splits)

lemma put_client_simps:
  "sys_now (put_client i (ok, c, tab) s) = sys_now s"
  "sys_table (put_client i (ok, c, tab) s) = tab"
  "sys_client (put_client i (ok, c, tab) s) = (sys_client s)(i := c)"
  "sys_until (put_client i (ok, c, tab) s) j =
    (if ok \<and> j = i then sys_now s + lc_ttl c else sys_until s j)"
  by (simp_all add: put_client_def)

lemma identity_config:
  "lease_config cs \<Longrightarrow> same_identity (cs i) c' \<Longrightarrow> lease_config (cs(i := c'))"
  by (simp add: lease_config_def same_identity_def)

lemma lease_invD:
  assumes "lease_inv s" and "trusts s j"
  obtains row where "sys_table s (lc_name (sys_client s j)) = Some row"
    "lr_holder row = lc_holder (sys_client s j)" "lr_expires row = sys_until s j" "sys_now s < lr_expires row"
  using assms unfolding lease_inv_def trusts_def by metis

lemma take_keeps_inv:
  assumes inv: "lease_inv s"
    and run: "acquire (sys_now s) (sys_client s i) (sys_table s) = (ok, c', tab') \<or>
      refresh (sys_now s) (sys_client s i) (sys_table s) = (ok, c', tab')"
    and id: "same_identity (sys_client s i) c'"
  shows "lease_inv (put_client i (ok, c', tab') s)"
proof -
  note row = lease_ops_row [OF run]
  have cfg: "lease_config (sys_client s)" using inv by (simp add: lease_inv_def)
  have "\<exists>row. tab' (lc_name (((sys_client s)(i := c')) j)) = Some row \<and>
      lr_holder row = lc_holder (((sys_client s)(i := c')) j) \<and>
      lr_expires row = sys_until (put_client i (ok, c', tab') s) j"
    if t: "trusts (put_client i (ok, c', tab') s) j" for j
  proof (cases "j = i")
    case True
    with t row have ok by (auto simp: trusts_def put_client_simps)
    with True row id show ?thesis by (auto simp: put_client_simps same_identity_def)
  next
    case False
    with t have "trusts s j" by (simp add: trusts_def put_client_simps)
    then obtain r where r: "sys_table s (lc_name (sys_client s j)) = Some r"
      "lr_holder r = lc_holder (sys_client s j)" "lr_expires r = sys_until s j" "sys_now s < lr_expires r"
      by (rule lease_invD [OF inv])
    have "tab' (lc_name (sys_client s j)) = Some r"
    proof (cases "lc_name (sys_client s j) = lc_name (sys_client s i)")
      case True
      with cfg False have "lr_holder r \<noteq> lc_holder (sys_client s i)"
        unfolding lease_config_def r(2) by blast
      with row r True have "\<not> ok" by simp
      with row r(1) show ?thesis by simp
    next
      case False
      with row r(1) show ?thesis by simp
    qed
    with False r show ?thesis by (simp add: put_client_simps)
  qed
  with identity_config [OF cfg id] show ?thesis by (simp add: lease_inv_def put_client_simps)
qed

lemma release_keeps_inv:
  assumes inv: "lease_inv s" and run: "release_lease (sys_client s i) (sys_table s) = (ok, c', tab')"
    and id: "same_identity (sys_client s i) c'"
  shows "lease_inv (put_client i (ok, c', tab') s)"
proof -
  note row = release_row [OF run]
  have cfg: "lease_config (sys_client s)" using inv by (simp add: lease_inv_def)
  have "\<exists>row. tab' (lc_name (((sys_client s)(i := c')) j)) = Some row \<and>
      lr_holder row = lc_holder (((sys_client s)(i := c')) j) \<and>
      lr_expires row = sys_until (put_client i (ok, c', tab') s) j"
    if t: "trusts (put_client i (ok, c', tab') s) j" for j
  proof -
    have ji: "j \<noteq> i" using t row by (auto simp: trusts_def put_client_simps)
    with t have "trusts s j" by (simp add: trusts_def put_client_simps)
    then obtain r where r: "sys_table s (lc_name (sys_client s j)) = Some r"
      "lr_holder r = lc_holder (sys_client s j)" "lr_expires r = sys_until s j" "sys_now s < lr_expires r"
      by (rule lease_invD [OF inv])
    have "lc_name (sys_client s j) \<noteq> lc_name (sys_client s i) \<or> lr_holder r \<noteq> lc_holder (sys_client s i)"
      using cfg ji unfolding lease_config_def r(2) by blast
    with row r(1) have "tab' (lc_name (sys_client s j)) = Some r" by blast
    with ji r show ?thesis by (simp add: put_client_simps)
  qed
  with identity_config [OF cfg id] show ?thesis by (simp add: lease_inv_def put_client_simps)
qed

lemma lease_inv_step: "lease_step s s' \<Longrightarrow> lease_inv s \<Longrightarrow> lease_inv s'"
proof (induction rule: lease_step.induct)
  case (l_tick s t)
  then show ?case by (auto simp: lease_inv_def trusts_def)
next
  case (l_acquire s i)
  obtain ok c' tab' where run: "acquire (sys_now s) (sys_client s i) (sys_table s) = (ok, c', tab')"
    by (metis prod_cases3)
  then show ?case
    using take_keeps_inv [OF l_acquire disjI1 [OF run] lease_ops_identity(1) [OF run]] by simp
next
  case (l_refresh s i)
  obtain ok c' tab' where run: "refresh (sys_now s) (sys_client s i) (sys_table s) = (ok, c', tab')"
    by (metis prod_cases3)
  then show ?case
    using take_keeps_inv [OF l_refresh disjI2 [OF run] lease_ops_identity(2) [OF run]] by simp
next
  case (l_release s i)
  obtain ok c' tab' where run: "release_lease (sys_client s i) (sys_table s) = (ok, c', tab')"
    by (metis prod_cases3)
  then show ?case using release_keeps_inv [OF l_release run lease_ops_identity(3) [OF run]] by simp
qed

text \<open>
  C20: two workers never both rely on the same lease: in every state that acquiring, refreshing,
  releasing and the passing of time reach, at most one of the workers whose flag is set is still
  within the lifetime it asked for, and the table names that worker as the holder.
\<close>

theorem lease_exclusive:
  assumes "lease_start s0" and "lease_step\<^sup>*\<^sup>* s0 s" and "trusts s i" and "trusts s j"
    and "lc_name (sys_client s i) = lc_name (sys_client s j)"
  shows "i = j \<and> owner_at (sys_now s) (lc_name (sys_client s i)) (sys_table s) =
    Some (lc_holder (sys_client s i), sys_until s i)"
proof -
  have "lease_inv s" using assms(2)
  proof (induction rule: rtranclp_induct)
    case base
    with assms(1) show ?case by (simp add: lease_inv_def lease_start_def trusts_def)
  qed (rule lease_inv_step)
  obtain r where r: "sys_table s (lc_name (sys_client s i)) = Some r"
    "lr_holder r = lc_holder (sys_client s i)" "lr_expires r = sys_until s i" "sys_now s < lr_expires r"
    by (rule lease_invD [OF \<open>lease_inv s\<close> assms(3)])
  obtain r' where "sys_table s (lc_name (sys_client s j)) = Some r'" "lr_holder r' = lc_holder (sys_client s j)"
    by (rule lease_invD [OF \<open>lease_inv s\<close> assms(4)])
  with r(1,2) assms(5) have "lc_holder (sys_client s i) = lc_holder (sys_client s j)" by simp
  with \<open>lease_inv s\<close> assms(5) have "i = j" unfolding lease_inv_def lease_config_def by blast
  with r show ?thesis by (simp add: owner_at_def)
qed

text \<open>
  A lease whose holder stays away can be taken over, and then the old holder knows: when no
  unexpired row of the name exists, acquiring succeeds, and until the new lifetime ends neither
  \<open>refresh\<close> nor \<open>acquire\<close> of a worker with another holder identifier succeeds or changes the
  table; both clear its flag.
\<close>

theorem lease_takeover:
  assumes "owner_at now (lc_name c) tab = None" and "acquire now c tab = (ok, c', tab')"
    and "lc_name old = lc_name c" and "lc_holder old \<noteq> lc_holder c" and "t < now + lc_ttl c"
  shows "ok \<and> refresh t old tab' = (False, old\<lparr>lc_held := False\<rparr>, tab') \<and>
    acquire t old tab' = (False, old\<lparr>lc_held := False\<rparr>, tab')"
proof -
  have "ok" using assms(1,2)
    by (auto simp: owner_at_def acquire_def Let_def split: option.splits if_splits)
  with lease_ops_row [of now c tab ok c' tab'] assms(2) obtain row where
    "tab' (lc_name c) = Some row" "lr_holder row = lc_holder c" "lr_expires row = now + lc_ttl c"
    by blast
  with \<open>ok\<close> assms(3-5) show ?thesis by (auto simp: refresh_def acquire_def Let_def)
qed

definition worker :: "nat \<Rightarrow> lease_client" where
  "worker i = \<lparr>lc_name = ''scheduler'', lc_holder = replicate i (CHR ''w''), lc_ttl = 30,
     lc_metadata = [], lc_held = False\<rparr>"

definition workers :: lease_system where
  "workers = \<lparr>sys_now = 0, sys_table = Map.empty, sys_client = worker, sys_until = (\<lambda>_. 0)\<rparr>"

definition workers_1 :: lease_system where
  "workers_1 = put_client 1 (acquire 0 (worker 1) Map.empty) workers"

lemma workers_start: "lease_start workers"
proof -
  have "replicate i (CHR ''w'') \<noteq> replicate j (CHR ''w'')" if "i \<noteq> j" for i j
    using that by (metis length_replicate)
  then show ?thesis by (simp add: lease_start_def lease_config_def workers_def worker_def is_held_def)
qed

theorem lease_refines_lock_witness:
  "(case acquire 5 (worker 1) Map.empty of (ok, c', tab') \<Rightarrow>
     (ok, owner_at 5 ''scheduler'' tab') = (True, Some (''w'', 35)))"
  using lease_refines_lock [of "worker 1" 5 Map.empty]
  by (simp add: worker_def owner_at_def lock_acquire_def case_prod_beta)

theorem lease_exclusive_witness:
  "owner_at 0 ''scheduler'' (sys_table workers_1) = Some (''w'', 30)"
proof -
  have run: "lease_step\<^sup>*\<^sup>* workers workers_1"
    using l_acquire [of workers 1] by (simp add: workers_1_def workers_def r_into_rtranclp)
  have st: "sys_now workers_1 = 0" "sys_client workers_1 1 = (worker 1)\<lparr>lc_held := True\<rparr>"
    "sys_until workers_1 1 = 30"
    by (simp_all add: workers_1_def acquire_def put_client_def workers_def worker_def)
  then have t: "trusts workers_1 1" by (simp add: trusts_def is_held_def)
  from lease_exclusive [OF workers_start run t t refl] st show ?thesis by (simp add: worker_def)
qed

theorem lease_takeover_witness:
  "refresh 50 (worker 1) (snd (snd (acquire 31 (worker 2) (sys_table workers_1)))) =
    (False, (worker 1)\<lparr>lc_held := False\<rparr>, snd (snd (acquire 31 (worker 2) (sys_table workers_1))))"
proof -
  have "owner_at 31 (lc_name (worker 2)) (sys_table workers_1) = None"
    by (simp add: workers_1_def acquire_def put_client_def worker_def owner_at_def)
  moreover have "lc_holder (worker 1) \<noteq> lc_holder (worker 2)" by (simp add: worker_def numeral_2_eq_2)
  ultimately show ?thesis
    using lease_takeover [of 31 "worker 2" "sys_table workers_1"
        "fst (acquire 31 (worker 2) (sys_table workers_1))"
        "fst (snd (acquire 31 (worker 2) (sys_table workers_1)))"
        "snd (snd (acquire 31 (worker 2) (sys_table workers_1)))" "worker 1" 50]
    by (simp add: worker_def)
qed

end
