(* ===== verification/Revenue.thy ===== *)
theory Revenue
  imports Bridge
begin

text \<open>
  \<open>services/domain/resources/bridge.py\<close>: the annual revenue of a customer and the revenue at
  risk, one customer at a time and in bulk. A \<open>Decimal\<close> is a real number, a NaN or an
  infinity; the precision of the decimal context only shows in the bound of \<open>quantize\<close>, and an
  amount rounded to 0.01 is its number of cents.
\<close>

section \<open>Decimal\<close>

datatype decimal = Fin real | Inf | QNaN | SNaN

definition is_digit :: "char \<Rightarrow> bool" where
  "is_digit c \<longleftrightarrow> digit_of c \<noteq> None"

definition digits_value :: "string \<Rightarrow> nat" where
  "digits_value s = foldl (\<lambda>a c. 10 * a + (case digit_of c of Some n \<Rightarrow> n | None \<Rightarrow> 0)) 0 s"

definition parse_sign :: "string \<Rightarrow> bool \<times> string" where
  "parse_sign s = (case s of [] \<Rightarrow> (False, [])
     | c # cs \<Rightarrow> if c = CHR ''-'' then (True, cs) else if c = CHR ''+'' then (False, cs) else (False, s))"

text \<open>The exponent part: nothing, or an \<open>e\<close>, a sign and digits.\<close>

definition parse_exponent :: "string \<Rightarrow> int option" where
  "parse_exponent s = (case s of [] \<Rightarrow> Some 0
     | c # cs \<Rightarrow>
        let (neg, ds) = parse_sign cs in
        if (c = CHR ''e'' \<or> c = CHR ''E'') \<and> ds \<noteq> [] \<and> list_all is_digit ds
        then Some (if neg then - int (digits_value ds) else int (digits_value ds)) else None)"

definition ten_to :: "int \<Rightarrow> real" where
  "ten_to e = (if 0 \<le> e then 10 ^ nat e else 1 / 10 ^ nat (- e))"

definition parse_finite :: "string \<Rightarrow> real option" where
  "parse_finite u =
    (let ip = takeWhile is_digit u; r = dropWhile is_digit u;
         fp = (case r of c # cs \<Rightarrow> if c = CHR ''.'' then takeWhile is_digit cs else [] | [] \<Rightarrow> []);
         r = (case r of c # cs \<Rightarrow> if c = CHR ''.'' then dropWhile is_digit cs else r | [] \<Rightarrow> [])
     in if ip = [] \<and> fp = [] then None
        else case parse_exponent r of None \<Rightarrow> None
          | Some e \<Rightarrow> Some (real (digits_value (ip @ fp)) * ten_to (e - int (length fp))))"

text \<open>\<open>Decimal(s)\<close>; \<open>None\<close> is \<open>InvalidOperation\<close>.\<close>

definition decimal_of_string :: "string \<Rightarrow> decimal option" where
  "decimal_of_string s =
    (let (neg, u) = parse_sign (filter (\<lambda>c. c \<noteq> CHR ''_'') (py_strip s)); l = to_lower u in
     if l = ''inf'' \<or> l = ''infinity'' then Some Inf
     else if take 3 l = ''nan'' \<and> list_all is_digit (drop 3 l) then Some QNaN
     else if take 4 l = ''snan'' \<and> list_all is_digit (drop 4 l) then Some SNaN
     else map_option (\<lambda>r. Fin (if neg then - r else r)) (parse_finite u))"

text \<open>\<open>Decimal(str(v))\<close>: the text of anything but a number or a string is no numeral.\<close>

fun decimal_of :: "json \<Rightarrow> decimal option" where
  "decimal_of (JInt n) = Some (Fin (of_int n))"
| "decimal_of (JFloat r) = Some (Fin r)"
| "decimal_of (JStr s) = decimal_of_string s"
| "decimal_of _ = None"

definition round_half_even :: "real \<Rightarrow> int" where
  "round_half_even x =
    (let f = \<lfloor>x\<rfloor>; rest = x - of_int f in
     if rest < 1 / 2 then f else if rest > 1 / 2 then f + 1 else if even f then f else f + 1)"

datatype amount = Cents int | AmountNaN

definition invalid_operation :: err where
  "invalid_operation = OtherError ''decimal.InvalidOperation''"

text \<open>\<open>quantize(Decimal("0.01"))\<close>: at most 28 digits.\<close>

definition quantize :: "decimal \<Rightarrow> amount result" where
  "quantize v = (case v of
     Fin r \<Rightarrow> (let c = round_half_even (100 * r) in
       if \<bar>c\<bar> < 10 ^ 28 then Inr (Cents c) else Inl invalid_operation)
   | QNaN \<Rightarrow> Inr AmountNaN
   | _ \<Rightarrow> Inl invalid_operation)"

definition decimal_div_100 :: "decimal \<Rightarrow> decimal result" where
  "decimal_div_100 v = (case v of Fin r \<Rightarrow> Inr (Fin (r / 100)) | SNaN \<Rightarrow> Inl invalid_operation | _ \<Rightarrow> Inr v)"

section \<open>The revenue of a customer\<close>

definition decimal_or_0 :: "json \<Rightarrow> decimal" where
  "decimal_or_0 v = (case decimal_of (py_or v (JInt 0)) of Some x \<Rightarrow> x | None \<Rightarrow> Fin 0)"

definition arr_usd_from_current_value :: "dict \<Rightarrow> amount result" where
  "arr_usd_from_current_value cv =
    (case not_none (dict_get cv ''arr_cents'') of
       Some v \<Rightarrow> bind_result (decimal_div_100 (decimal_or_0 v)) quantize
     | None \<Rightarrow>
        (case not_none (dict_get cv ''arr_usd'') of
           Some v \<Rightarrow> quantize (decimal_or_0 v)
         | None \<Rightarrow> Inr (Cents 0)))"

definition has_at_risk :: "uuid \<Rightarrow> db \<Rightarrow> bool" where
  "has_at_risk customer_resource_id d \<longleftrightarrow>
    list_ex (\<lambda>l. l_customer l = customer_resource_id \<and>
      list_ex (\<lambda>c. c_id c = l_commitment l \<and> c_state c \<in> set AT_RISK_COMMITMENT_STATES) (commitments d)) (links d)"

definition revenue_at_risk_for_customer :: "uuid \<Rightarrow> db \<Rightarrow> amount result" where
  "revenue_at_risk_for_customer customer_resource_id d =
    (case sel_resource customer_resource_id d of
       None \<Rightarrow> Inr (Cents 0)
     | Some r \<Rightarrow>
        if r_archived_at r \<noteq> None then Inr (Cents 0)
        else if r_kind r \<noteq> Relational then Inr (Cents 0)
        else bind_result (arr_usd_from_current_value (r_value r)) (\<lambda>arr_usd.
          if arr_usd = Cents 0 then Inr (Cents 0)
          else if \<not> has_at_risk customer_resource_id d then Inr (Cents 0)
          else Inr arr_usd))"

text \<open>\<open>str\<close> of an amount: zero is \<open>Decimal("0")\<close>, everything else has two decimals.\<close>

fun nat_text :: "nat \<Rightarrow> string" where
  "nat_text n = (if n < 10 then [char_of (48 + n)] else nat_text (n div 10) @ [char_of (48 + n mod 10)])"

declare nat_text.simps [simp del]

definition amount_text :: "amount \<Rightarrow> string" where
  "amount_text a = (case a of AmountNaN \<Rightarrow> ''NaN''
     | Cents c \<Rightarrow> if c = 0 then ''0'' else
        (if c < 0 then ''-'' else []) @ nat_text (nat \<bar>c\<bar> div 100) @ ''.'' @
        [char_of (48 + nat \<bar>c\<bar> div 10 mod 10), char_of (48 + nat \<bar>c\<bar> mod 10)])"

section \<open>In bulk\<close>

text \<open>
  \<open>(current_value ->> k)::numeric\<close>: SQL's NULL for a JSON null, an error for text that is no
  number. How PostgreSQL reads the text of a string is the argument \<open>numeric\<close>.
\<close>

definition sql_numeric :: "(string \<Rightarrow> real option) \<Rightarrow> json \<Rightarrow> real option result" where
  "sql_numeric numeric v = (case v of
     JNull \<Rightarrow> Inr None
   | JInt n \<Rightarrow> Inr (Some (of_int n))
   | JFloat r \<Rightarrow> Inr (Some r)
   | JStr s \<Rightarrow> (case numeric s of Some r \<Rightarrow> Inr (Some r) | None \<Rightarrow> Inl (OtherError ''asyncpg.DataError''))
   | _ \<Rightarrow> Inl (OtherError ''asyncpg.DataError''))"

definition sql_arr :: "(string \<Rightarrow> real option) \<Rightarrow> dict \<Rightarrow> real option result" where
  "sql_arr numeric cv =
    (case dict_get cv ''arr_cents'' of
       Some v \<Rightarrow> bind_result (sql_numeric numeric v) (\<lambda>n. Inr (map_option (\<lambda>r. r / 100) n))
     | None \<Rightarrow> (case dict_get cv ''arr_usd'' of Some v \<Rightarrow> sql_numeric numeric v | None \<Rightarrow> Inr (Some 0)))"

fun sum_results :: "real option result list \<Rightarrow> real result" where
  "sum_results [] = Inr 0"
| "sum_results (r # rs) = bind_result r (\<lambda>v. bind_result (sum_results rs) (\<lambda>s.
     Inr ((case v of None \<Rightarrow> 0 | Some x \<Rightarrow> x) + s)))"

definition counts_at_risk :: "uuid \<Rightarrow> db \<Rightarrow> resource_row \<Rightarrow> bool" where
  "counts_at_risk tenant_id d r \<longleftrightarrow> r_tenant r = tenant_id \<and> r_kind r = Relational \<and> r_archived_at r = None \<and>
    (dict_has (r_value r) ''arr_cents'' \<or> dict_has (r_value r) ''arr_usd'') \<and> has_at_risk (r_id r) d"

definition revenue_at_risk_all :: "(string \<Rightarrow> real option) \<Rightarrow> uuid \<Rightarrow> db \<Rightarrow> amount result" where
  "revenue_at_risk_all numeric tenant_id d =
    bind_result (sum_results (map (\<lambda>r. sql_arr numeric (r_value r)) (filter (counts_at_risk tenant_id d) (resources d))))
      (\<lambda>total_cents. quantize (Fin total_cents))"

section \<open>The two agree\<close>

lemma round_of_int [simp]: "round_half_even (of_int n) = n"
  by (simp add: round_half_even_def)

text \<open>The value keeps its revenue in one of the two canonical shapes: whole cents, or whole USD.\<close>

definition whole_arr :: "dict \<Rightarrow> int option" where
  "whole_arr cv = (case dict_get cv ''arr_cents'' of
     Some (JInt n) \<Rightarrow> if \<bar>n\<bar> < 10 ^ 28 then Some n else None
   | None \<Rightarrow> (case dict_get cv ''arr_usd'' of
       Some (JInt n) \<Rightarrow> if \<bar>n\<bar> < 10 ^ 26 then Some (100 * n) else None
     | None \<Rightarrow> Some 0 | _ \<Rightarrow> None)
   | _ \<Rightarrow> None)"

lemma whole_arr_python:
  assumes "whole_arr cv = Some n"
  shows "arr_usd_from_current_value cv = Inr (Cents n)"
proof -
  have or0: "py_or (JInt k) (JInt 0) = JInt k" for k by (simp add: py_or_def)
  have q: "quantize (Fin (of_int k)) = Inr (Cents (100 * k))" if "\<bar>k\<bar> < 10 ^ 26" for k
  proof -
    have "100 * (of_int k :: real) = of_int (100 * k)" by simp
    then have "round_half_even (100 * of_int k) = 100 * k" by (simp only: round_of_int)
    then show ?thesis using that by (simp add: quantize_def Let_def)
  qed
  have c: "quantize (Fin (of_int k / 100)) = Inr (Cents k)" if "\<bar>k\<bar> < 10 ^ 28" for k
    using that by (simp add: quantize_def Let_def)
  show ?thesis
    using assms
    by (auto simp: whole_arr_def arr_usd_from_current_value_def decimal_or_0_def or0 decimal_div_100_def
        not_none_def q c split: option.splits json.splits if_splits)
qed

lemma whole_arr_sql:
  assumes "whole_arr cv = Some n"
  shows "sql_arr numeric cv = Inr (Some (of_int n / 100))"
  using assms
  by (auto simp: whole_arr_def sql_arr_def sql_numeric_def split: option.splits json.splits if_splits)

lemma sum_whole:
  "(\<And>r. r \<in> set rs \<Longrightarrow> whole_arr (r_value r) \<noteq> None) \<Longrightarrow>
   sum_results (map (\<lambda>r. sql_arr numeric (r_value r)) rs) =
     Inr (of_int (\<Sum>r\<leftarrow>rs. the (whole_arr (r_value r))) / 100)"
proof (induction rs)
  case (Cons r rs)
  then obtain n where n: "whole_arr (r_value r) = Some n" by (metis list.set_intros(1) option.exhaust)
  with Cons show ?case by (simp add: whole_arr_sql add_divide_distrib)
qed simp

definition cents :: "amount result \<Rightarrow> int" where
  "cents a = (case a of Inr (Cents c) \<Rightarrow> c | _ \<Rightarrow> 0)"

lemma revenue_of_row:
  assumes "distinct (map r_id (resources d))" and "r \<in> set (resources d)" and "whole_arr (r_value r) = Some n"
    and "r_kind r = Relational" and "r_archived_at r = None"
  shows "revenue_at_risk_for_customer (r_id r) d = Inr (Cents (if has_at_risk (r_id r) d then n else 0))"
proof -
  have "sel_resource (r_id r) d = Some r"
    using row_at_unique [OF assms(1,2)] by (simp add: sel_resource_def)
  then show ?thesis
    using assms(4,5) whole_arr_python [OF assms(3)] by (auto simp: revenue_at_risk_for_customer_def)
qed

text \<open>
  the bulk query and the per-customer function agree: when the open customers of a tenant
  keep their revenue in whole cents or whole dollars, the revenue at risk of the tenant is the
  sum over its customers of the revenue at risk of each.
\<close>

theorem revenue_all_is_sum:
  assumes "distinct (map r_id (resources d))"
    and "\<forall>r \<in> set (resources d). r_tenant r = tenant_id \<and> r_kind r = Relational \<and> r_archived_at r = None \<longrightarrow>
      whole_arr (r_value r) \<noteq> None"
    and "total_at_risk = (\<Sum>r \<leftarrow> filter (\<lambda>r. r_tenant r = tenant_id) (resources d).
      cents (revenue_at_risk_for_customer (r_id r) d))"
    and "\<bar>total_at_risk\<bar> < 10 ^ 28"
  shows "revenue_at_risk_all numeric tenant_id d = Inr (Cents total_at_risk)"
proof -
  let ?rs = "filter (counts_at_risk tenant_id d) (resources d)"
  have "sum_results (map (\<lambda>r. sql_arr numeric (r_value r)) ?rs) =
      Inr (of_int (\<Sum>r\<leftarrow>?rs. the (whole_arr (r_value r))) / 100)"
    by (rule sum_whole) (use assms(2) in \<open>auto simp: counts_at_risk_def\<close>)
  moreover have "(\<Sum>r\<leftarrow>?rs. the (whole_arr (r_value r))) = total_at_risk"
  proof -
    have row: "cents (revenue_at_risk_for_customer (r_id r) d) =
        (if counts_at_risk tenant_id d r then the (whole_arr (r_value r)) else 0)"
      if r: "r \<in> set (resources d)" "r_tenant r = tenant_id" for r
    proof (cases "r_kind r = Relational \<and> r_archived_at r = None")
      case True
      with assms(2) r obtain n where n: "whole_arr (r_value r) = Some n" by auto
      have "n = 0" if "\<not> (dict_has (r_value r) ''arr_cents'' \<or> dict_has (r_value r) ''arr_usd'')"
        using n that by (simp add: whole_arr_def dict_has_def)
      with revenue_of_row [OF assms(1) r(1) n] True n r(2) show ?thesis
        by (auto simp: counts_at_risk_def cents_def)
    next
      case False
      have "sel_resource (r_id r) d = Some r"
        using row_at_unique [OF assms(1) r(1)] by (simp add: sel_resource_def)
      with False show ?thesis
        by (auto simp: counts_at_risk_def cents_def revenue_at_risk_for_customer_def)
    qed
    have "(\<Sum>r \<leftarrow> filter (\<lambda>r. r_tenant r = tenant_id) rs. cents (revenue_at_risk_for_customer (r_id r) d)) =
        (\<Sum>r \<leftarrow> filter (counts_at_risk tenant_id d) rs. the (whole_arr (r_value r)))"
      if "set rs \<subseteq> set (resources d)" for rs
      using that
    proof (induction rs)
      case (Cons r rs)
      then show ?case using row [of r] by (auto simp: counts_at_risk_def)
    qed simp
    then show ?thesis using assms(3) by simp
  qed
  ultimately show ?thesis using assms(4) by (simp add: revenue_at_risk_all_def quantize_def Let_def)
qed

definition ex_customer :: "uuid \<Rightarrow> dict \<Rightarrow> resource_row" where
  "ex_customer i cv = (hd (resources pool_db))\<lparr>r_id := i, r_kind := Relational, r_value := cv\<rparr>"

definition ex_link :: "uuid \<Rightarrow> uuid \<Rightarrow> link_row" where
  "ex_link cu co = \<lparr>l_id = 0, l_tenant = 7, l_customer = cu, l_commitment = co, l_description = None,
     l_relationship = ''delivers'', l_revenue = None, l_criticality = ''high'', l_created_at = 0\<rparr>"

definition revenue_db :: "dict \<Rightarrow> db" where
  "revenue_db cv = empty_db\<lparr>resources := [ex_customer 1 [(''arr_cents'', JInt 120050)], ex_customer 2 cv,
       ex_customer 3 [(''arr_usd'', JInt 9)]],
     commitments := [(ex_commitment 5)\<lparr>c_state := Blocked\<rparr>, ex_commitment 6],
     links := [ex_link 1 5, ex_link 2 5, ex_link 3 6]\<rparr>"

theorem revenue_all_is_sum_witness:
  "revenue_at_risk_all Map.empty 7 (revenue_db [(''arr_usd'', JInt 300)]) = Inr (Cents 150050)"
proof (rule revenue_all_is_sum)
  let ?d = "revenue_db [(''arr_usd'', JInt 300)]"
  have ids: "distinct (map r_id (resources ?d))" by (simp add: revenue_db_def ex_customer_def)
  then show "distinct (map r_id (resources ?d))" .
  have whole: "whole_arr [(''arr_cents'', JInt 120050)] = Some 120050" "whole_arr [(''arr_usd'', JInt 300)] = Some 30000"
    "whole_arr [(''arr_usd'', JInt 9)] = Some 900"
    by (simp_all add: whole_arr_def dict_get_def)
  then show "\<forall>r \<in> set (resources ?d). r_tenant r = 7 \<and> r_kind r = Relational \<and> r_archived_at r = None \<longrightarrow>
      whole_arr (r_value r) \<noteq> None"
    by (simp add: revenue_db_def ex_customer_def)
  have risk: "has_at_risk 1 ?d" "has_at_risk 2 ?d" "\<not> has_at_risk 3 ?d"
    by (simp_all add: has_at_risk_def revenue_db_def ex_link_def ex_commitment_def AT_RISK_COMMITMENT_STATES_def)
  have row: "r_tenant (ex_customer i cv) = 7" "r_kind (ex_customer i cv) = Relational" "r_id (ex_customer i cv) = i"
    "r_archived_at (ex_customer i cv) = None" "r_value (ex_customer i cv) = cv" for i cv
    by (simp_all add: ex_customer_def pool_db_def)
  have rs: "resources ?d = [ex_customer 1 [(''arr_cents'', JInt 120050)], ex_customer 2 [(''arr_usd'', JInt 300)],
      ex_customer 3 [(''arr_usd'', JInt 9)]]"
    by (simp add: revenue_db_def)
  have each: "cents (revenue_at_risk_for_customer (r_id r) ?d) = (if has_at_risk (r_id r) ?d then n else 0)"
    if "r \<in> set (resources ?d)" "whole_arr (r_value r) = Some n" for r n
  proof -
    have "r_kind r = Relational" "r_archived_at r = None" using that(1) by (auto simp: rs row)
    from revenue_of_row [OF ids that this] show ?thesis by (simp add: cents_def)
  qed
  have one: "cents (revenue_at_risk_for_customer 1 ?d) = 120050"
    using each [of "ex_customer 1 [(''arr_cents'', JInt 120050)]" 120050] whole risk by (simp add: rs row)
  have two: "cents (revenue_at_risk_for_customer 2 ?d) = 30000"
    using each [of "ex_customer 2 [(''arr_usd'', JInt 300)]" 30000] whole risk by (simp add: rs row)
  have three: "cents (revenue_at_risk_for_customer 3 ?d) = 0"
    using each [of "ex_customer 3 [(''arr_usd'', JInt 9)]" 900] whole risk by (simp add: rs row)
  show "150050 = (\<Sum>r \<leftarrow> filter (\<lambda>r. r_tenant r = 7) (resources ?d).
      cents (revenue_at_risk_for_customer (r_id r) ?d))"
    unfolding rs using one two three by (simp add: row)
qed simp

text \<open>
  A value whose \<open>arr_cents\<close> is a JSON null is read differently: the function falls back to
  \<open>arr_usd\<close>, the query sees the key and adds nothing.
\<close>

theorem null_cents_read_differently:
  "revenue_at_risk_for_customer 2 (revenue_db [(''arr_cents'', JNull), (''arr_usd'', JInt 300)]) = Inr (Cents 30000) \<and>
   sql_arr numeric [(''arr_cents'', JNull), (''arr_usd'', JInt 300)] = Inr None"
proof -
  let ?cv = "[(''arr_cents'', JNull), (''arr_usd'', JInt 300)]"
  let ?d = "revenue_db ?cv"
  have "(100 * 300 :: real) = of_int 30000" by simp
  then have "round_half_even (100 * 300) = 30000" by (simp only: round_of_int)
  then have "arr_usd_from_current_value ?cv = Inr (Cents 30000)"
    by (simp add: arr_usd_from_current_value_def dict_get_def not_none_def decimal_or_0_def py_or_def
        quantize_def Let_def)
  moreover have "sel_resource 2 ?d = Some (ex_customer 2 ?cv)"
    by (simp add: sel_resource_def row_simps revenue_db_def ex_customer_def)
  moreover have "has_at_risk 2 ?d"
    by (simp add: has_at_risk_def revenue_db_def ex_link_def ex_commitment_def AT_RISK_COMMITMENT_STATES_def)
  ultimately show ?thesis
    by (simp add: revenue_at_risk_for_customer_def ex_customer_def pool_db_def sql_arr_def sql_numeric_def dict_get_def)
qed

end
