(* ===== verification/Cascade.thy ===== *)
theory Cascade
  imports ActsReach Revenue "HOL-Library.Multiset"
begin

text \<open>
  \<open>services/reasoning/think/cascade.py\<close>: what a state change of a commitment, a decision or a
  resource brings about downstream, followed breadth first. The logging and the metrics are not
  modelled. The loop needs no fuel: the events that a step produces weigh less than the event it
  handles.
\<close>

section \<open>Events\<close>

record cascade_event =
  ev_id :: uuid
  ev_kind :: string
  ev_entity_kind :: string
  ev_entity :: uuid
  ev_tenant :: uuid
  ev_metadata :: dict
  ev_observation :: "uuid option"

record violation_event =
  ve_branch :: string
  ve_entity_kind :: string
  ve_entity :: uuid
  ve_reason :: string
  ve_code :: string

record cascade_result =
  events_visited :: nat
  depth_reached :: int
  bound_violated :: bool
  cascade_steps :: "cascade_event list"
  invariant_violations :: "violation_event list"

primrec health_text :: "health \<Rightarrow> string" where
  "health_text Healthy = ''healthy''"
| "health_text Warning = ''warning''"
| "health_text Degraded = ''degraded''"
| "health_text Critical = ''critical''"

text \<open>
  A loop of a branch: every round returns the events it adds and the list of violations so far.
\<close>

type_synonym branch = "(db, cascade_event list \<times> violation_event list) tx"

primrec each_tx :: "('a \<Rightarrow> violation_event list \<Rightarrow> branch) \<Rightarrow> 'a list \<Rightarrow> violation_event list \<Rightarrow> branch" where
  "each_tx f [] v = return_tx ([], v)"
| "each_tx f (x # xs) v = bind_tx (f x v) (\<lambda>(out, v). bind_tx (each_tx f xs v) (\<lambda>(outs, v). return_tx (out @ outs, v)))"

section \<open>Branch A: the state of a commitment\<close>

definition new_state_is :: "cascade_event \<Rightarrow> string \<Rightarrow> bool" where
  "new_state_is event s \<longleftrightarrow> dict_get (ev_metadata event) ''new_state'' = Some (JStr s)"

definition blocked_dependents :: "uuid \<Rightarrow> uuid \<Rightarrow> db \<Rightarrow> uuid list" where
  "blocked_dependents commitment_id tenant_id d =
    [c_id c. e \<leftarrow> depends_on d, snd e = commitment_id, c \<leftarrow> commitments d, c_id c = fst e,
      c_state c = Blocked, c_tenant c = tenant_id]"

definition any_unsatisfied :: "db \<Rightarrow> uuid \<Rightarrow> bool" where
  "any_unsatisfied d dep_id \<longleftrightarrow>
    list_ex (\<lambda>e. fst e = dep_id \<and> is_unsatisfied_dependency d (snd e)) (depends_on d)"

definition unblock_dependent :: "cascade_event \<Rightarrow> uuid \<Rightarrow> uuid \<Rightarrow> violation_event list \<Rightarrow> branch" where
  "unblock_dependent event tenant_id dep_id v d =
    (if any_unsatisfied d dep_id then (Inr ([], v), d)
     else case commitment_transition dep_id Active [] None (ev_observation event) Supplied d of
       (Inr _, d) \<Rightarrow>
         let (new_id, d) = take_uuid d;
             (obs_id, d) = emit_state_change ''commitment_auto_unblocked'' dep_id tenant_id
               (ev_observation event) (Some [(''unblocked_by'', JUuid (ev_entity event))]) None None
               (Some ''commitment'') d
         in (Inr ([\<lparr>ev_id = new_id, ev_kind = ''commitment_state_change'', ev_entity_kind = ''commitment'',
                ev_entity = dep_id, ev_tenant = tenant_id,
                ev_metadata = [(''new_state'', JStr ''active''), (''from_cascade'', JBool True)],
                ev_observation = Some obs_id\<rparr>], v), d)
     | (Inl (InvariantViolation code message), d) \<Rightarrow>
         (Inr ([], v @ [\<lparr>ve_branch = ''commitment_unblock'', ve_entity_kind = ''commitment'',
            ve_entity = dep_id, ve_reason = message, ve_code = code\<rparr>]), d)
     | (Inl e, d) \<Rightarrow> (Inl e, d))"

definition critical_goals :: "uuid \<Rightarrow> uuid \<Rightarrow> db \<Rightarrow> (uuid \<times> health) list" where
  "critical_goals commitment_id tenant_id d =
    [(g_id g, g_health g). ct \<leftarrow> contributes_to d, ct_commitment ct = commitment_id, ct_critical ct,
      g \<leftarrow> goals d, g_id g = ct_goal ct, g_tenant g = tenant_id]"

definition refresh_goal :: "cascade_event \<Rightarrow> uuid \<Rightarrow> uuid \<times> health \<Rightarrow> violation_event list \<Rightarrow> branch" where
  "refresh_goal event tenant_id row v d =
    (let (gid, prior) = row; (new_health, d) = recompute_cached_health gid d in
     if new_health = prior then (Inr ([], v), d)
     else
       let metadata = [(''prior'', JStr (health_text prior)), (''new'', JStr (health_text new_health))];
           (obs_id, d) = emit_state_change ''goal_health_recomputed'' gid tenant_id (ev_observation event)
             (Some metadata) None None (Some ''goal'') d;
           (new_id, d) = take_uuid d
       in (Inr ([\<lparr>ev_id = new_id, ev_kind = ''goal_health_recomputed'', ev_entity_kind = ''goal'',
              ev_entity = gid, ev_tenant = tenant_id, ev_metadata = metadata,
              ev_observation = Some obs_id\<rparr>], v), d))"

definition served_customers :: "uuid \<Rightarrow> uuid \<Rightarrow> db \<Rightarrow> uuid list" where
  "served_customers commitment_id tenant_id d =
    [r_id r. l \<leftarrow> links d, l_commitment l = commitment_id, r \<leftarrow> resources d, r_id r = l_customer l,
      r_tenant r = tenant_id, r_archived_at r = None]"

definition refresh_customer ::
  "cascade_event \<Rightarrow> uuid \<Rightarrow> json \<Rightarrow> uuid \<Rightarrow> violation_event list \<Rightarrow> branch" where
  "refresh_customer event tenant_id new_state cid v d =
    (let rar = (case revenue_at_risk_for_customer cid d of Inl e \<Rightarrow> None | Inr a \<Rightarrow> Some a);
         (obs_id, d) = emit_state_change ''customer_health_recomputed'' cid tenant_id (ev_observation event)
           (Some [(''trigger_commitment_id'', JUuid (ev_entity event)), (''trigger_new_state'', new_state),
              (''revenue_at_risk'', case rar of Some a \<Rightarrow> JStr (amount_text a) | None \<Rightarrow> JNull)])
           None None (Some ''customer_resource'') d;
         (new_id, d) = take_uuid d
     in (Inr ([\<lparr>ev_id = new_id, ev_kind = ''customer_health_recomputed'',
           ev_entity_kind = ''customer_resource'', ev_entity = cid, ev_tenant = tenant_id,
           ev_metadata = [(''revenue_at_risk'', case rar of
              Some a \<Rightarrow> if a = Cents 0 then JNull else JStr (amount_text a) | None \<Rightarrow> JNull)],
           ev_observation = Some obs_id\<rparr>], v), d))"

definition branch_commitment_state :: "cascade_event \<Rightarrow> uuid \<Rightarrow> violation_event list \<Rightarrow> branch" where
  "branch_commitment_state event tenant_id v =
    bind_tx (\<lambda>d. if new_state_is event ''doneverified''
        then each_tx (unblock_dependent event tenant_id) (blocked_dependents (ev_entity event) tenant_id d) v d
        else (Inr ([], v), d)) (\<lambda>(out_a, v).
    bind_tx (\<lambda>d. each_tx (refresh_goal event tenant_id) (critical_goals (ev_entity event) tenant_id d) v d) (\<lambda>(out_b, v).
    bind_tx (\<lambda>d. if new_state_is event ''doneverified'' \<or> new_state_is event ''closed''
        then each_tx (refresh_customer event tenant_id (dict_get_or (ev_metadata event) ''new_state'' JNull))
          (served_customers (ev_entity event) tenant_id d) v d
        else (Inr ([], v), d)) (\<lambda>(out_c, v).
    return_tx (out_a @ out_b @ out_c, v))))"

section \<open>Branches B and C: flags for review\<close>

definition flag_commitment ::
  "cascade_event \<Rightarrow> uuid \<Rightarrow> dict \<Rightarrow> uuid \<Rightarrow> violation_event list \<Rightarrow> branch" where
  "flag_commitment event tenant_id metadata cid v d =
    (let (obs_id, d) = emit_state_change ''commitment_flagged_for_review'' cid tenant_id
           (ev_observation event) (Some metadata) None None (Some ''commitment'') d;
         (new_id, d) = take_uuid d
     in (Inr ([\<lparr>ev_id = new_id, ev_kind = ''commitment_flagged_for_review'', ev_entity_kind = ''commitment'',
           ev_entity = cid, ev_tenant = tenant_id, ev_metadata = metadata,
           ev_observation = Some obs_id\<rparr>], v), d))"

definition branch_decision_revisited :: "cascade_event \<Rightarrow> uuid \<Rightarrow> violation_event list \<Rightarrow> branch" where
  "branch_decision_revisited event tenant_id v d =
    each_tx (flag_commitment event tenant_id
        [(''reason'', JStr ''decision_revisited''), (''decision_id'', JUuid (ev_entity event))])
      [c_id c. e \<leftarrow> constrained_by d, snd e = ev_entity event, c \<leftarrow> commitments d, c_id c = fst e,
        c_tenant c = tenant_id, c_state c \<notin> {DoneVerified, Closed}] v d"

definition branch_resource_terminal :: "cascade_event \<Rightarrow> uuid \<Rightarrow> violation_event list \<Rightarrow> branch" where
  "branch_resource_terminal event tenant_id v d =
    each_tx (flag_commitment event tenant_id
        [(''reason'', JStr ''resource_terminal''), (''resource_id'', JUuid (ev_entity event))])
      [p_commitment p. p \<leftarrow> deployments d, p_resource p = ev_entity event, p_released_at p = None] v d"

definition compute_downstream :: "cascade_event \<Rightarrow> uuid \<Rightarrow> violation_event list \<Rightarrow> branch" where
  "compute_downstream event tenant_id v =
    (if ev_kind event = ''commitment_state_change'' then branch_commitment_state event tenant_id v
     else if ev_kind event = ''decision_revisited'' then branch_decision_revisited event tenant_id v
     else if ev_kind event = ''resource_terminal'' then branch_resource_terminal event tenant_id v
     else return_tx ([], v))"

section \<open>What a branch produces\<close>

definition weight :: "cascade_event \<Rightarrow> nat" where
  "weight event =
    (if ev_kind event = ''commitment_state_change''
     then (if new_state_is event ''doneverified'' then 3 else 2)
     else if ev_kind event = ''decision_revisited'' \<or> ev_kind event = ''resource_terminal'' then 2 else 1)"

lemma each_tx_out:
  assumes "each_tx f xs v d = (Inr (out, v'), d')"
    and "\<And>x v d out v' d'. f x v d = (Inr (out, v'), d') \<Longrightarrow> \<forall>e \<in> set out. P e"
  shows "\<forall>e \<in> set out. P e"
  using assms(1)
proof (induction xs arbitrary: v d out)
  case Nil
  then show ?case by (simp add: tx_simps)
next
  case (Cons x xs)
  from Cons.prems obtain o1 v1 d1 o2 where "f x v d = (Inr (o1, v1), d1)"
    "each_tx f xs v1 d1 = (Inr (o2, v'), d')" "out = o1 @ o2"
    by (auto simp: tx_simps)
  with assms(2) Cons.IH show ?case by fastforce
qed

lemma unblock_out:
  "unblock_dependent event tn i v d = (Inr (out, v'), d') \<Longrightarrow> \<forall>e \<in> set out. weight e = 2"
  by (auto simp: unblock_dependent_def Let_def case_prod_beta weight_def new_state_is_def dict_get_def
      split: if_splits prod.splits sum.splits err.splits)

lemma refresh_goal_out:
  "refresh_goal event tn row v d = (Inr (out, v'), d') \<Longrightarrow> \<forall>e \<in> set out. weight e = 1"
  by (auto simp: refresh_goal_def Let_def case_prod_beta weight_def split: if_splits prod.splits)

lemma refresh_customer_out:
  "refresh_customer event tn s c v d = (Inr (out, v'), d') \<Longrightarrow> \<forall>e \<in> set out. weight e = 1"
  by (auto simp: refresh_customer_def Let_def case_prod_beta weight_def split: prod.splits)

lemma flag_out: "flag_commitment event tn m c v d = (Inr (out, v'), d') \<Longrightarrow> \<forall>e \<in> set out. weight e = 1"
  by (auto simp: flag_commitment_def Let_def case_prod_beta weight_def split: prod.splits)

lemma downstream_lighter:
  assumes "compute_downstream event tn v d = (Inr (out, v'), d')"
  shows "\<forall>e \<in> set out. weight e < weight event"
proof -
  have w: "weight event \<ge> 2" if "ev_kind event \<in> {''commitment_state_change'', ''decision_revisited'', ''resource_terminal''}"
    using that by (auto simp: weight_def)
  consider (a) "ev_kind event = ''commitment_state_change''" "branch_commitment_state event tn v d = (Inr (out, v'), d')"
    | (b) "ev_kind event \<in> {''decision_revisited'', ''resource_terminal''}"
      "\<exists>m xs. each_tx (flag_commitment event tn m) xs v d = (Inr (out, v'), d')"
    | (c) "out = []"
    using assms
    by (auto simp: compute_downstream_def branch_decision_revisited_def branch_resource_terminal_def
        tx_simps split: if_splits)
  then show ?thesis
  proof cases
    case a
    then obtain oa va da ob vb db oc where
      oa: "new_state_is event ''doneverified'' \<and>
          (\<exists>xs. each_tx (unblock_dependent event tn) xs v d = (Inr (oa, va), da)) \<or> oa = []"
      and ob: "\<exists>xs. each_tx (refresh_goal event tn) xs va da = (Inr (ob, vb), db)"
      and oc: "(\<exists>s xs. each_tx (refresh_customer event tn s) xs vb db = (Inr (oc, v'), d')) \<or> oc = []"
      and out: "out = oa @ ob @ oc"
      by (auto simp: branch_commitment_state_def tx_simps split: if_splits) blast+
    have "\<forall>e \<in> set oa. weight e < weight event"
      using oa each_tx_out [of "unblock_dependent event tn" _ v d oa va da "\<lambda>e. weight e = 2"] unblock_out a(1)
      by (fastforce simp: weight_def)
    moreover have "\<forall>e \<in> set ob. weight e = 1"
      using ob each_tx_out [of "refresh_goal event tn" _ va da ob vb db "\<lambda>e. weight e = 1"] refresh_goal_out
      by blast
    moreover have "\<forall>e \<in> set oc. weight e = 1"
      using oc each_tx_out [of "refresh_customer event tn _" _ vb db oc v' d' "\<lambda>e. weight e = 1"] refresh_customer_out
      by (metis empty_iff empty_set)
    ultimately show ?thesis using w a(1) by (auto simp: out)
  next
    case b
    then have "\<forall>e \<in> set out. weight e = 1"
      using each_tx_out [of "flag_commitment event tn _" _ v d out v' d' "\<lambda>e. weight e = 1"] flag_out by blast
    with w b(1) show ?thesis by force
  qed simp
qed

section \<open>The loop\<close>

text \<open>Which events of a step are new, and the visited identifiers with them.\<close>

fun admit :: "cascade_event list \<Rightarrow> uuid list \<Rightarrow> cascade_event list \<times> uuid list" where
  "admit [] visited = ([], visited)"
| "admit (e # es) visited =
    (if ev_id e \<in> set visited then admit es visited
     else let (new, visited) = admit es (ev_id e # visited) in (e # new, visited))"

lemma admit_subset: "set (fst (admit es visited)) \<subseteq> set es"
  by (induction es visited rule: admit.induct) (auto simp: Let_def case_prod_beta)

definition report_bound :: "int \<Rightarrow> int \<Rightarrow> cascade_event \<Rightarrow> uuid \<Rightarrow> uuid \<Rightarrow> db \<Rightarrow> db" where
  "report_bound max_depth depth event tenant_id initial_id d =
    snd (emit_state_change ''cascade_bound_violation'' (ev_entity event) tenant_id (ev_observation event)
      (Some [(''max_depth'', JInt max_depth), (''depth_at_abort'', JInt depth),
         (''initial_event_id'', JUuid initial_id)]) None None (Some (ev_entity_kind event)) d)"

lemma queue_decreases:
  assumes "\<forall>e \<in> set out. weight e < weight event"
  shows "(mset (map (\<lambda>q. weight (fst q)) (queue @ map (\<lambda>e. (e, depth')) (fst (admit out visited)))),
      mset (map (\<lambda>q. weight (fst q)) ((event, depth) # queue))) \<in> mult less_than"
proof -
  have "(mset (map (\<lambda>q. weight (fst q)) queue) + mset (map weight (fst (admit out visited))),
      mset (map (\<lambda>q. weight (fst q)) queue) + {#weight event#}) \<in> mult less_than"
    by (rule one_step_implies_mult) (use assms admit_subset [of out visited] in auto)
  then show ?thesis by (simp add: o_def)
qed

function cascade_loop ::
  "int \<Rightarrow> uuid \<Rightarrow> uuid \<Rightarrow> (cascade_event \<times> int) list \<Rightarrow> uuid list \<Rightarrow> cascade_event list \<Rightarrow> int \<Rightarrow>
   violation_event list \<Rightarrow> (db, cascade_result) tx" where
  "cascade_loop max_depth tenant_id initial_id [] visited steps depth_max v d =
    (Inr \<lparr>events_visited = length visited, depth_reached = depth_max, bound_violated = False,
       cascade_steps = steps, invariant_violations = v\<rparr>, d)"
| "cascade_loop max_depth tenant_id initial_id ((event, depth) # queue) visited steps depth_max v d =
    (if max_depth \<le> depth then
       (Inr \<lparr>events_visited = length visited, depth_reached = depth_max, bound_violated = True,
          cascade_steps = steps, invariant_violations = v\<rparr>,
        report_bound max_depth depth event tenant_id initial_id d)
     else case compute_downstream event tenant_id v d of
       (Inl e, d) \<Rightarrow> (Inl e, d)
     | (Inr (downstream, v'), d) \<Rightarrow>
         cascade_loop max_depth tenant_id initial_id
           (queue @ map (\<lambda>e. (e, depth + 1)) (fst (admit downstream visited)))
           (snd (admit downstream visited)) (steps @ fst (admit downstream visited))
           (max depth_max depth) v' d)"
  by pat_completeness auto
termination
proof (relation "inv_image (mult less_than)
    (\<lambda>(m, t, i, queue, vis, st, k, v, d). mset (map (\<lambda>q. weight (fst q)) queue))")
  show "wf (inv_image (mult less_than)
    (\<lambda>(m :: int, t :: uuid, i :: uuid, queue :: (cascade_event \<times> int) list, vis :: uuid list,
       st :: cascade_event list, k :: int, v :: violation_event list, d :: db).
       mset (map (\<lambda>q. weight (fst q)) queue)))"
    by (intro wf_inv_image wf_mult wf_less_than)
qed (simp only: in_inv_image prod.case, rule queue_decreases, metis downstream_lighter)

definition cascade :: "cascade_event \<Rightarrow> int \<Rightarrow> uuid option \<Rightarrow> (db, cascade_result) tx" where
  "cascade trigger_event max_depth tenant_id =
    cascade_loop max_depth (case tenant_id of Some t \<Rightarrow> t | None \<Rightarrow> ev_tenant trigger_event)
      (ev_id trigger_event) [(trigger_event, 0)] [ev_id trigger_event] [trigger_event] 0 []"

lemma cascade_loop_depth:
  assumes "cascade_loop max_depth tn i queue vis st k v d = (Inr r, d')"
    and "3 \<le> max_depth" and "k \<le> 2" and "\<forall>q \<in> set queue. snd q + int (weight (fst q)) \<le> 3"
  shows "\<not> bound_violated r \<and> depth_reached r \<le> 2"
  using assms
proof (induction max_depth tn i queue vis st k v d rule: cascade_loop.induct)
  case (1 max_depth tn i vis st k v d)
  then show ?case by auto
next
  case (2 max_depth tn i event n queue vis st k v d)
  have "1 \<le> weight event" by (simp add: weight_def)
  then have n: "n \<le> 2" using "2.prems"(4) by simp
  then have small: "\<not> max_depth \<le> n" using "2.prems"(2) by simp
  then obtain out v' d1 where down: "compute_downstream event tn v d = (Inr (out, v'), d1)"
    and loop: "cascade_loop max_depth tn i (queue @ map (\<lambda>e. (e, n + 1)) (fst (admit out vis)))
        (snd (admit out vis)) (st @ fst (admit out vis)) (max k n) v' d1 = (Inr r, d')"
    using "2.prems"(1) by (auto split: prod.splits sum.splits)
  have "\<forall>e \<in> set (fst (admit out vis)). n + 1 + int (weight e) \<le> 3"
    using downstream_lighter [OF down] admit_subset [of out vis] "2.prems"(4) by fastforce
  then have "\<forall>q \<in> set (queue @ map (\<lambda>e. (e, n + 1)) (fst (admit out vis))). snd q + int (weight (fst q)) \<le> 3"
    using "2.prems"(4) by auto
  with 2(1) [OF small down [symmetric] refl refl loop] "2.prems"(2,3) n show ?case by simp
qed

end
