(* ===== verification/CascadeSystem.thy ===== *)
theory CascadeSystem
  imports Cascade
begin

text \<open>
  The cascade of theory \<open>Cascade\<close> in the databases that the acts reach: it returns, it is a
  sequence of steps of \<open>act_step\<close>, and the only commitments it moves are the dependents that
  the trigger unblocks.
\<close>

section \<open>Ambition levels of the stored commitments\<close>

definition ambition_inv :: "db \<Rightarrow> bool" where
  "ambition_inv d \<longleftrightarrow> (\<forall>c \<in> set (commitments d). c_ambition c \<in> set AmbitionLevel)"

lemma ambition_same: "ambition_inv d \<Longrightarrow> commitments d' = commitments d \<Longrightarrow> ambition_inv d'"
  by (simp add: ambition_inv_def)

lemma act_step_ambition:
  assumes "act_step d d'" and sys: "sys_inv d" and amb: "ambition_inv d"
  shows "ambition_inv d'"
  using assms(1)
proof cases
  case (goal_create t de p al sc td ev te conn g)
  then have "commitments d' = commitments d"
    by (auto simp: goal_create_def split: if_splits dest!: run_op_Inr goal_create_inner_db)
  with amb show ?thesis by (rule ambition_same)
next
  case (goal_transition i st ev conn g)
  then have "commitments d' = commitments d"
    by (auto simp: goal_transition_def dest!: run_op_Inr goal_transition_inner_db)
  with amb show ?thesis by (rule ambition_same)
next
  case (goal_health i h)
  then have "commitments d' = commitments d"
    by (auto simp: recompute_cached_health_def upd_goal_def Let_def)
  with amb show ?thesis by (rule ambition_same)
next
  case (decision_create t tx ra st sc rt ev te conn q)
  then have "commitments d' = commitments d"
    by (auto simp: decision_create_def split: if_splits dest!: run_op_Inr decision_create_inner_db)
  with amb show ?thesis by (rule ambition_same)
next
  case (decision_transition i st ev conn q)
  then have "commitments d' = commitments d"
    by (auto simp: decision_transition_def dest!: run_op_Inr decision_transition_inner_db)
  with amb show ?thesis by (rule ambition_same)
next
  case (commitment_create m a conn c)
  then show ?thesis using amb commitment_create_step [OF sys] by (auto simp: ambition_inv_def)
next
  case (commitment_transition i st res b ev conn c)
  then show ?thesis
    using amb by (auto simp: commitment_transition_def ambition_inv_def acts_tables_def upd_commitment_def
        set_row_update set_commitment_state_def dest!: run_op_Inr commitment_transition_inner_db)
next
  case (add_contributor i a role conn cc)
  then have "edges_only d d'"
    by (auto simp: add_contributor_def dest!: run_op_Inr add_contributor_edges_only)
  with amb show ?thesis by (auto simp: edges_only_def intro: ambition_same)
next
  case (remove_contributor i a n)
  then have "edges_only d d'" by (rule remove_contributor_edges_only)
  with amb show ?thesis by (auto simp: edges_only_def intro: ambition_same)
next
  case (add_edge kind args conn e)
  then have "edges_only d d'" by (auto simp: add_edge_def dest!: run_op_Inr add_edge_edges_only)
  with amb show ?thesis by (auto simp: edges_only_def intro: ambition_same)
next
  case elsewhere
  then show ?thesis by (auto simp: acts_tables_def intro: ambition_same [OF amb])
qed

definition reached :: "db \<Rightarrow> bool" where
  "reached d \<longleftrightarrow> act_step\<^sup>*\<^sup>* empty_db d"

lemma reached_step: "reached d \<Longrightarrow> act_step d d' \<Longrightarrow> reached d'"
  unfolding reached_def by (rule rtranclp.rtrancl_into_rtrancl)

lemma reached_inv: "reached d \<Longrightarrow> sys_inv d \<and> ambition_inv d"
  unfolding reached_def
proof (induction rule: rtranclp_induct)
  case base
  have "ambition_inv empty_db" by (simp add: ambition_inv_def empty_db_def)
  with empty_db_inv show ?case ..
next
  case (step d d')
  then show ?case using act_step_inv [OF step(2)] act_step_ambition [OF step(2)] by blast
qed

section \<open>The pieces of a step\<close>

lemma reached_emit: "reached d \<Longrightarrow> reached (snd (emit_state_change k e t c m a oc ek d))"
  by (erule reached_step, rule elsewhere) (simp_all add: acts_tables_def emit_state_change_def Let_def take_uuid_def)

lemma reached_take: "reached d \<Longrightarrow> reached (snd (take_uuid d))"
  by (erule reached_step, rule elsewhere) simp_all

lemma reached_health: "reached d \<Longrightarrow> reached (snd (recompute_cached_health g d))"
  by (erule reached_step, rule goal_health) (rule prod.collapse [symmetric])

text \<open>Steps that leave the commitments, their dependencies and the actors as they are.\<close>

definition still :: "db \<Rightarrow> db \<Rightarrow> bool" where
  "still d d' \<longleftrightarrow> commitments d' = commitments d \<and> depends_on d' = depends_on d \<and> actors d' = actors d"

lemma still_refl [simp]: "still d d"
  by (simp add: still_def)

lemma still_trans: "still d d' \<Longrightarrow> still d' d'' \<Longrightarrow> still d d''"
  by (simp add: still_def)

lemma still_emit [simp]: "still d (snd (emit_state_change k e t c m a oc ek d))"
  by (simp add: still_def)

lemma still_take [simp]: "still d (snd (take_uuid d))"
  by (simp add: still_def take_uuid_def)

lemma still_health [simp]: "still d (snd (recompute_cached_health g d))"
  by (simp add: still_def recompute_cached_health_def Let_def upd_goal_def)

lemmas reached_intros = reached_emit reached_take reached_health
lemmas still_intros = still_trans [OF still_emit still_take] still_trans [OF still_health]
  still_trans [OF still_take still_emit]

text \<open>A branch that always returns, keeps \<open>reached\<close> and is still.\<close>

definition calm :: "branch \<Rightarrow> bool" where
  "calm b \<longleftrightarrow> (\<forall>d. reached d \<longrightarrow> (\<exists>out v d'. b d = (Inr (out, v), d') \<and> reached d' \<and> still d d'))"

lemma calmD:
  assumes "calm b" and "reached d"
  obtains out v d' where "b d = (Inr (out, v), d')" "reached d'" "still d d'"
  using assms unfolding calm_def by blast

lemma calm_return: "calm (return_tx (out, v))" "calm (\<lambda>d. (Inr (out, v), d))"
  by (simp_all add: calm_def return_tx_def)

lemma calm_bind:
  assumes "calm b" and "\<And>x. calm (f x)"
  shows "calm (bind_tx b f)"
  unfolding calm_def
proof (intro allI impI)
  fix d
  assume "reached d"
  with assms(1) obtain o1 v1 d1 where 1: "b d = (Inr (o1, v1), d1)" "reached d1" "still d d1"
    by (rule calmD)
  obtain o2 v2 d2 where 2: "f (o1, v1) d1 = (Inr (o2, v2), d2)" "reached d2" "still d1 d2"
    by (rule calmD [OF assms(2) 1(2)])
  from 1 2 show "\<exists>out v d'. bind_tx b f d = (Inr (out, v), d') \<and> reached d' \<and> still d d'"
    by (auto simp: bind_tx_def intro: still_trans)
qed

lemma calm_each: "(\<And>x v. calm (f x v)) \<Longrightarrow> calm (each_tx f xs v)"
  by (induction xs arbitrary: v) (auto intro!: calm_bind calm_return split: prod.splits)

lemma calm_each_row: "(\<And>x v. calm (f x v)) \<Longrightarrow> calm (\<lambda>d. each_tx f (rows d) v d)"
  using calm_each [of f] unfolding calm_def by blast

lemma calm_refresh_goal: "calm (refresh_goal event tn row v)"
  unfolding calm_def
  by (auto simp: refresh_goal_def Let_def case_prod_beta
      intro!: reached_intros still_trans [OF still_health still_trans [OF still_emit still_take]])

lemma calm_refresh_customer: "calm (refresh_customer event tn s c v)"
  unfolding calm_def
  by (auto simp: refresh_customer_def Let_def case_prod_beta intro!: reached_intros still_intros)

lemma calm_flag: "calm (flag_commitment event tn m c v)"
  unfolding calm_def
  by (auto simp: flag_commitment_def Let_def case_prod_beta intro!: reached_intros still_intros)

lemma calm_revisited: "calm (branch_decision_revisited event tn v)"
  unfolding branch_decision_revisited_def [abs_def] by (rule calm_each_row, rule calm_flag)

lemma calm_terminal: "calm (branch_resource_terminal event tn v)"
  unfolding branch_resource_terminal_def [abs_def] by (rule calm_each_row, rule calm_flag)

section \<open>Unblocking a dependent\<close>

lemma transition_check_error:
  "commitment_transition_check st res ev row d = Some e \<Longrightarrow> \<exists>c m. e = InvariantViolation c m"
  by (auto simp: commitment_transition_check_def then_check_def fails_def require_active_actor_def
      Let_def case_prod_beta split: option.splits if_splits)

text \<open>
  In a reachable database an attempt to activate a blocked or active commitment fails only before
  it writes.
\<close>

lemma activate_effect:
  assumes "reached d" and row: "sel_commitment i d = Some row" and "c_state row \<in> {Blocked, Active}"
  shows "(case commitment_transition_check Active [] cause row d of
      Some e \<Rightarrow> \<exists>c m. commitment_transition i Active [] None cause Supplied d =
        (Inl (InvariantViolation c m), d)
    | None \<Rightarrow> \<exists>r d'. commitment_transition i Active [] None cause Supplied d = (Inr r, d') \<and>
        reached d' \<and> commitments d' = row_update c_id i
          (set_commitment_state Active (c_resolved row) (c_basis row) (db_now d)) (commitments d) \<and>
        depends_on d' = depends_on d \<and> actors d' = actors d)"
proof (cases "commitment_transition_check Active [] cause row d")
  case (Some e)
  then show ?thesis
    using row transition_check_error [OF Some]
    by (auto simp: commitment_transition_def run_op_def commitment_transition_inner_def)
next
  case None
  let ?f = "set_commitment_state Active (c_resolved row) (c_basis row) (db_now d)"
  let ?d = "upd_commitment i ?f d"
  note inv = reached_inv [OF assms(1), unfolded sys_inv_def ambition_inv_def c10_inv_def]
  note row_in = sel_commitment_in [OF row]
  have sel: "sel_commitment i ?d = Some (?f row)"
    using commitment_store.sel_upd [of ?f i i d] row by (simp add: row_in)
  have "c10_ok d row" using inv row_in by blast
  then have c10: "check_c10_contributes_or_maintenance ?d i = []"
    using assms(3) row_in unfolding check_c10_row [OF sel] c10_ok_def
    by (auto simp: upd_commitment_frame)
  have "commitment_row_validate (?f row) = Inr (?f row)"
    using inv row_in by (auto simp: commitment_row_validate_def CommitmentState_def)
  with None c10 have run: "commitment_transition i Active [] None cause Supplied d =
      (Inr (?f row), snd (emit_act_state_change (c_tenant row) ''commitment'' i (Some (c_state row)) Active cause ?d))"
    by (simp add: commitment_transition_def run_op_def commitment_transition_inner_def row
        Let_def case_prod_beta merge_resolved_def)
  have "reached (snd (commitment_transition i Active [] None cause Supplied d))"
    by (rule reached_step [OF assms(1)], rule commitment_transition [where conn = Supplied])
      (use run in simp)
  with None run show ?thesis
    by (simp add: upd_commitment_def emit_act_state_change_def Let_def take_uuid_def)
qed

definition state_of :: "db \<Rightarrow> uuid \<Rightarrow> act_state option" where
  "state_of d i = map_option c_state (sel_commitment i d)"

text \<open>Whether the commitment \<open>i\<close>, when it is blocked, may be activated because of \<open>event\<close>.\<close>

definition can_unblock :: "cascade_event \<Rightarrow> db \<Rightarrow> uuid \<Rightarrow> bool" where
  "can_unblock event d i \<longleftrightarrow> ev_observation event \<noteq> None \<and>
    (\<forall>e \<in> set (depends_on d). fst e = i \<longrightarrow> state_of d (snd e) = Some DoneVerified) \<and>
    (\<exists>c a. sel_commitment i d = Some c \<and> c_owner c = Some a \<and> actor_status d a = Some actor_active)"

text \<open>How the commitments change when those in \<open>S\<close> become active.\<close>

definition owner_of :: "db \<Rightarrow> uuid \<Rightarrow> uuid option option" where
  "owner_of d i = map_option c_owner (sel_commitment i d)"

definition activates :: "uuid set \<Rightarrow> db \<Rightarrow> db \<Rightarrow> bool" where
  "activates S d d' \<longleftrightarrow> depends_on d' = depends_on d \<and> actors d' = actors d \<and> owner_of d' = owner_of d \<and>
    (\<forall>i. state_of d' i = (if i \<in> S then Some Active else state_of d i))"

lemma still_activates: "still d d' \<Longrightarrow> activates {} d d'"
  by (simp add: still_def activates_def state_of_def owner_of_def sel_commitment_def fun_eq_iff)

lemma activates_trans:
  "activates S d d' \<Longrightarrow> activates T d' d'' \<Longrightarrow> activates (S \<union> T) d d''"
  by (auto simp: activates_def)

lemma actor_status_same: "actors d' = actors d \<Longrightarrow> actor_status d' a = actor_status d a"
  by (simp add: actor_status_def sel_actor_def)

lemma can_unblock_owner: "can_unblock event d i \<longleftrightarrow> ev_observation event \<noteq> None \<and>
    (\<forall>e \<in> set (depends_on d). fst e = i \<longrightarrow> state_of d (snd e) = Some DoneVerified) \<and>
    (\<exists>a. owner_of d i = Some (Some a) \<and> actor_status d a = Some actor_active)"
  by (auto simp: can_unblock_def owner_of_def)

lemma can_unblock_stable:
  assumes "activates S d d'" and "\<forall>i \<in> S. state_of d i = Some Blocked"
  shows "can_unblock event d' i = can_unblock event d i"
proof -
  have "state_of d' j = Some DoneVerified \<longleftrightarrow> state_of d j = Some DoneVerified" for j
    using assms by (auto simp: activates_def)
  moreover have "depends_on d' = depends_on d" "owner_of d' = owner_of d" "actor_status d' = actor_status d"
    using assms(1) by (auto simp: activates_def fun_eq_iff intro: actor_status_same)
  ultimately show ?thesis unfolding can_unblock_owner by simp
qed

lemma any_unsatisfied_iff: "any_unsatisfied d i \<longleftrightarrow>
    \<not> (\<forall>e \<in> set (depends_on d). fst e = i \<longrightarrow> state_of d (snd e) = Some DoneVerified)"
proof -
  have "is_unsatisfied_dependency d j \<longleftrightarrow> state_of d j \<noteq> Some DoneVerified" for j
    by (simp add: is_unsatisfied_dependency_def state_of_def split: option.splits)
  then show ?thesis unfolding any_unsatisfied_def list_ex_iff by blast
qed

lemma can_activate: "can_move Commitment Blocked Active" "\<not> can_move Commitment Active Active"
  by code_simp+

lemma check_active_None:
  "c_state row \<in> {Blocked, Active} \<Longrightarrow> commitment_transition_check Active [] cause row d = None \<longleftrightarrow>
    c_state row = Blocked \<and> cause \<noteq> None \<and>
    (\<exists>a. c_owner row = Some a \<and> actor_status d a = Some actor_active)"
  unfolding commitment_transition_check_None
  using can_activate
  by (auto simp: require_active_actor_def check_simps split: option.splits)

lemma activated_row:
  assumes "sel_commitment i d = Some row"
    and "commitments d' = row_update c_id i (set_commitment_state Active rs b t) (commitments d)"
    and "depends_on d' = depends_on d" "actors d' = actors d"
  shows "activates {i} d d'"
proof -
  have "sel_commitment j d' = (if j = i then map_option (set_commitment_state Active rs b t) (sel_commitment i d)
      else sel_commitment j d)" for j
    by (simp add: sel_commitment_def assms(2) row_at_update)
  then show ?thesis using assms
    by (auto simp: activates_def state_of_def owner_of_def fun_eq_iff)
qed

lemma unblock_effect:
  assumes "reached d" and st: "state_of d i \<in> {Some Blocked, Some Active}"
  shows "\<exists>out v' d'. unblock_dependent event tn i v d = (Inr (out, v'), d') \<and> reached d' \<and>
    activates {j. j = i \<and> state_of d i = Some Blocked \<and> can_unblock event d i} d d'"
proof -
  from st obtain row where row: "sel_commitment i d = Some row" and rs: "c_state row \<in> {Blocked, Active}"
    by (auto simp: state_of_def)
  note eff = activate_effect [OF assms(1) row rs, of "ev_observation event"]
  show ?thesis
  proof (cases "any_unsatisfied d i")
    case True
    then have "\<not> can_unblock event d i" unfolding any_unsatisfied_iff can_unblock_def by blast
    then show ?thesis using True assms(1) still_activates [of d d] by (simp add: unblock_dependent_def)
  next
    case ready: False
    show ?thesis
    proof (cases "commitment_transition_check Active [] (ev_observation event) row d")
      case (Some e)
      then have "\<not> (state_of d i = Some Blocked \<and> can_unblock event d i)"
        using check_active_None [OF rs, of "ev_observation event" d] row
        by (auto simp: can_unblock_def state_of_def)
      moreover from eff Some obtain c m where
        "commitment_transition i Active [] None (ev_observation event) Supplied d =
          (Inl (InvariantViolation c m), d)" by auto
      ultimately show ?thesis
        using ready assms(1) still_activates [of d d] by (auto simp: unblock_dependent_def)
    next
      case None
      then have can: "state_of d i = Some Blocked" "can_unblock event d i"
        using check_active_None [OF rs, of "ev_observation event" d] row ready
        by (auto simp: can_unblock_def state_of_def any_unsatisfied_iff)
      from eff None obtain r d1 where tr: "commitment_transition i Active [] None (ev_observation event) Supplied d = (Inr r, d1)"
        and d1: "reached d1" "commitments d1 = row_update c_id i
          (set_commitment_state Active (c_resolved row) (c_basis row) (db_now d)) (commitments d)"
          "depends_on d1 = depends_on d" "actors d1 = actors d" by auto
      let ?d2 = "snd (emit_state_change ''commitment_auto_unblocked'' i tn (ev_observation event)
        (Some [(''unblocked_by'', JUuid (ev_entity event))]) None None (Some ''commitment'') (snd (take_uuid d1)))"
      have "reached ?d2" using d1(1) by (intro reached_intros)
      moreover have "activates {i} d ?d2"
        using activates_trans [OF activated_row [OF row d1(2-4)] still_activates]
          still_trans [OF still_take still_emit] by simp
      moreover have "\<exists>out v'. unblock_dependent event tn i v d = (Inr (out, v'), ?d2)"
        using ready tr by (simp add: unblock_dependent_def Let_def case_prod_beta)
      ultimately show ?thesis using can by auto
    qed
  qed
qed

lemma unblock_all_effect:
  assumes "reached d" and "\<forall>i \<in> set xs. state_of d i \<in> {Some Blocked, Some Active}"
  shows "\<exists>out v' d'. each_tx (unblock_dependent event tn) xs v d = (Inr (out, v'), d') \<and> reached d' \<and>
    activates {i \<in> set xs. state_of d i = Some Blocked \<and> can_unblock event d i} d d'"
  using assms
proof (induction xs arbitrary: d v)
  case Nil
  then show ?case using still_activates [of d d] by (simp add: return_tx_def)
next
  case (Cons x xs)
  let ?S = "{j. j = x \<and> state_of d x = Some Blocked \<and> can_unblock event d x}"
  obtain o1 v1 d1 where 1: "unblock_dependent event tn x v d = (Inr (o1, v1), d1)" "reached d1"
    "activates ?S d d1"
    using unblock_effect [OF Cons.prems(1), of x event tn v] Cons.prems(2) by force
  have st1: "state_of d1 i = (if i \<in> ?S then Some Active else state_of d i)" for i
    using 1(3) by (simp add: activates_def)
  then have "\<forall>i \<in> set xs. state_of d1 i \<in> {Some Blocked, Some Active}" using Cons.prems(2) by auto
  with Cons.IH [OF 1(2)] obtain o2 v2 d2 where 2:
    "each_tx (unblock_dependent event tn) xs v1 d1 = (Inr (o2, v2), d2)" "reached d2"
    "activates {i \<in> set xs. state_of d1 i = Some Blocked \<and> can_unblock event d1 i} d1 d2" by blast
  have "can_unblock event d1 i = can_unblock event d i" for i
    by (rule can_unblock_stable [OF 1(3)]) auto
  then have "?S \<union> {i \<in> set xs. state_of d1 i = Some Blocked \<and> can_unblock event d1 i} =
      {i \<in> set (x # xs). state_of d i = Some Blocked \<and> can_unblock event d i}"
    unfolding st1 by (auto split: if_splits)
  with activates_trans [OF 1(3) 2(3)] 1 2 show ?case
    by (auto simp: bind_tx_def return_tx_def)
qed

section \<open>A step of the loop\<close>

text \<open>The commitments of the tenant that \<open>event\<close> makes active.\<close>

definition unblocked_by :: "cascade_event \<Rightarrow> uuid \<Rightarrow> db \<Rightarrow> uuid set" where
  "unblocked_by event tenant_id d =
    {i. ev_kind event = ''commitment_state_change'' \<and> new_state_is event ''doneverified'' \<and>
        (i, ev_entity event) \<in> set (depends_on d) \<and>
        (\<exists>c. sel_commitment i d = Some c \<and> c_state c = Blocked \<and> c_tenant c = tenant_id) \<and>
        can_unblock event d i}"

lemma set_blocked_dependents:
  assumes "reached d"
  shows "set (blocked_dependents k tn d) = {i. (i, k) \<in> set (depends_on d) \<and>
    (\<exists>c. sel_commitment i d = Some c \<and> c_state c = Blocked \<and> c_tenant c = tn)}" (is "?l = ?r")
proof -
  have ids: "ids_inv d" using reached_inv [OF assms] by (simp add: sys_inv_def acts_invD)
  have "c \<in> set (commitments d) \<and> c_id c = i \<longleftrightarrow> sel_commitment i d = Some c" for c i
    using sel_commitment_row [OF ids, of c] sel_commitment_in [of i d c] by blast
  then show ?thesis unfolding blocked_dependents_def by auto force
qed

lemma branch_effect:
  assumes "reached d"
  shows "\<exists>out v' d'. branch_commitment_state event tn v d = (Inr (out, v'), d') \<and> reached d' \<and>
    activates (if new_state_is event ''doneverified''
      then {i \<in> set (blocked_dependents (ev_entity event) tn d). can_unblock event d i} else {}) d d'"
    (is "\<exists>out v' d'. _ \<and> _ \<and> activates ?S d d'")
proof -
  have blocked: "state_of d i = Some Blocked" if "i \<in> set (blocked_dependents (ev_entity event) tn d)" for i
    using that unfolding set_blocked_dependents [OF assms] by (auto simp: state_of_def)
  have "\<exists>o1 v1 d1. (if new_state_is event ''doneverified''
        then each_tx (unblock_dependent event tn) (blocked_dependents (ev_entity event) tn d) v d
        else (Inr ([], v), d)) = (Inr (o1, v1), d1) \<and> reached d1 \<and> activates ?S d d1"
  proof (cases "new_state_is event ''doneverified''")
    case True
    have "{i \<in> set (blocked_dependents (ev_entity event) tn d). state_of d i = Some Blocked \<and>
        can_unblock event d i} = ?S" using True blocked by auto
    with unblock_all_effect [OF assms, of "blocked_dependents (ev_entity event) tn d" event tn v]
      blocked True show ?thesis by simp
  qed (use assms still_activates [of d d] in simp)
  then obtain o1 v1 d1 where 1: "(if new_state_is event ''doneverified''
        then each_tx (unblock_dependent event tn) (blocked_dependents (ev_entity event) tn d) v d
        else (Inr ([], v), d)) = (Inr (o1, v1), d1)" "reached d1" "activates ?S d d1" by blast
  obtain o2 v2 d2 where 2: "each_tx (refresh_goal event tn) (critical_goals (ev_entity event) tn d1) v1 d1
      = (Inr (o2, v2), d2)" "reached d2" "still d1 d2"
    by (rule calmD [OF calm_each [OF calm_refresh_goal] 1(2)])
  obtain o3 v3 d3 where 3: "(if new_state_is event ''doneverified'' \<or> new_state_is event ''closed''
        then each_tx (refresh_customer event tn (dict_get_or (ev_metadata event) ''new_state'' JNull))
          (served_customers (ev_entity event) tn d2) v2 d2
        else (Inr ([], v2), d2)) = (Inr (o3, v3), d3)" "reached d3" "still d2 d3"
    by (rule calmD [OF _ 2(2), of "if new_state_is event ''doneverified'' \<or> new_state_is event ''closed''
        then each_tx (refresh_customer event tn (dict_get_or (ev_metadata event) ''new_state'' JNull))
          (served_customers (ev_entity event) tn d2) v2
        else (\<lambda>d. (Inr ([], v2), d))"])
      (simp_all add: calm_each calm_refresh_customer calm_return split: if_splits)
  have "activates ?S d d3"
    using activates_trans [OF 1(3) still_activates [OF still_trans [OF 2(3) 3(3)]]] by simp
  moreover have "branch_commitment_state event tn v d = (Inr (o1 @ o2 @ o3, v3), d3)"
    using 1(1) 2(1) 3(1) by (simp add: branch_commitment_state_def bind_tx_def return_tx_def)
  ultimately show ?thesis using 3(2) by blast
qed

lemma compute_effect:
  assumes "reached d"
  shows "\<exists>out v' d'. compute_downstream event tn v d = (Inr (out, v'), d') \<and> reached d' \<and>
    activates (unblocked_by event tn d) d d'"
proof (cases "ev_kind event = ''commitment_state_change''")
  case True
  have "(if new_state_is event ''doneverified''
      then {i \<in> set (blocked_dependents (ev_entity event) tn d). can_unblock event d i} else {})
    = unblocked_by event tn d"
    unfolding unblocked_by_def set_blocked_dependents [OF assms] using True by auto
  with branch_effect [OF assms, of event tn v] True show ?thesis by (simp add: compute_downstream_def)
next
  case False
  have calm: "calm (compute_downstream event tn v)"
    using False calm_revisited calm_terminal calm_return by (simp add: compute_downstream_def)
  obtain out v' d' where "compute_downstream event tn v d = (Inr (out, v'), d')" "reached d'" "still d d'"
    by (rule calmD [OF calm assms])
  moreover have "unblocked_by event tn d = {}" using False by (simp add: unblocked_by_def)
  ultimately show ?thesis using still_activates by metis
qed

lemma light_unblocks_nothing: "weight event < 3 \<Longrightarrow> unblocked_by event tn d = {}"
  by (auto simp: weight_def unblocked_by_def split: if_splits)

lemma report_bound_effect: "reached d \<Longrightarrow> reached (report_bound m k event tn i d) \<and>
    activates {} d (report_bound m k event tn i d)"
  unfolding report_bound_def by (intro conjI reached_emit still_activates still_emit)

lemma cascade_loop_effect:
  assumes "reached d" and "\<forall>q \<in> set queue. weight (fst q) < 3"
  shows "\<exists>r d'. cascade_loop m tn i queue vis st k v d = (Inr r, d') \<and> reached d' \<and> activates {} d d'"
  using assms
proof (induction m tn i queue vis st k v d rule: cascade_loop.induct)
  case (1 m tn i vis st k v d)
  then show ?case using still_activates [of d d] by simp
next
  case (2 m tn i event n queue vis st k v d)
  show ?case
  proof (cases "m \<le> n")
    case True
    then show ?thesis using report_bound_effect [OF "2.prems"(1)] by simp
  next
    case False
    obtain out v' d1 where down: "compute_downstream event tn v d = (Inr (out, v'), d1)"
      and d1: "reached d1" "activates {} d d1"
      using compute_effect [OF "2.prems"(1), of event tn v] "2.prems"(2)
      by (auto simp: light_unblocks_nothing)
    have "\<forall>q \<in> set (queue @ map (\<lambda>e. (e, n + 1)) (fst (admit out vis))). weight (fst q) < 3"
      using downstream_lighter [OF down] admit_subset [of out vis] "2.prems"(2) by fastforce
    from 2(1) [OF False down [symmetric] refl refl d1(1) this] obtain r d' where
      loop: "cascade_loop m tn i (queue @ map (\<lambda>e. (e, n + 1)) (fst (admit out vis)))
        (snd (admit out vis)) (st @ fst (admit out vis)) (max k n) v' d1 = (Inr r, d')"
      and d': "reached d'" "activates {} d1 d'" by blast
    have "cascade_loop m tn i ((event, n) # queue) vis st k v d = (Inr r, d')"
      by (simp only: cascade_loop.simps False if_False down prod.case sum.case loop)
    with d'(1) activates_trans [OF d1(2) d'(2)] show ?thesis by (metis Un_empty)
  qed
qed

lemma weight_le: "weight event \<le> 3"
  by (simp add: weight_def)

lemma cascade_effect:
  assumes "reached d" and tn: "tn = (case tenant_id of Some t \<Rightarrow> t | None \<Rightarrow> ev_tenant event)"
  shows "\<exists>r d'. cascade event m tenant_id d = (Inr r, d') \<and> reached d' \<and>
    activates (if 0 < m then unblocked_by event tn d else {}) d d'"
proof (cases "0 < m")
  case False
  then show ?thesis
    using report_bound_effect [OF assms(1)] by (simp add: cascade_def tn)
next
  case True
  obtain out v' d1 where down: "compute_downstream event tn [] d = (Inr (out, v'), d1)"
    and d1: "reached d1" "activates (unblocked_by event tn d) d d1"
    using compute_effect [OF assms(1)] by blast
  have "\<forall>q \<in> set (map (\<lambda>e. (e, 1 :: int)) (fst (admit out [ev_id event]))). weight (fst q) < 3"
    using downstream_lighter [OF down] admit_subset [of out "[ev_id event]"] weight_le [of event]
    by fastforce
  from cascade_loop_effect [OF d1(1) this] obtain r d' where
    loop: "cascade_loop m tn (ev_id event) (map (\<lambda>e. (e, 1)) (fst (admit out [ev_id event])))
      (snd (admit out [ev_id event])) ([event] @ fst (admit out [ev_id event])) (max 0 0) v' d1 = (Inr r, d')"
    and d': "reached d'" "activates {} d1 d'" by blast
  have "cascade event m tenant_id d = (Inr r, d')"
    unfolding cascade_def cascade_loop.simps tn [symmetric]
    using True by (simp only: not_le [symmetric] if_False down prod.case sum.case append_Nil add_0 loop)
  with True d'(1) activates_trans [OF d1(2) d'(2)] show ?thesis by (metis Un_empty_right)
qed

section \<open>Properties\<close>

text \<open>
  C5: in every database the acts reach, a cascade returns for every trigger and every bound,
  whatever the rejected unblocks, and all it does to the acts is a sequence of the acts' own
  steps: the database it leaves is again one the acts reach.
\<close>

theorem cascade_total:
  assumes "act_step\<^sup>*\<^sup>* empty_db d"
  shows "\<exists>r d'. cascade event max_depth tenant_id d = (Inr r, d') \<and> act_step\<^sup>*\<^sup>* empty_db d'"
  using cascade_effect [OF assms [folded reached_def] refl] unfolding reached_def by blast

text \<open>
  C4: the cascade of a trigger makes active exactly the blocked commitments of the tenant that
  depend on the trigger's commitment, if the trigger reports doneverified with an observation,
  all their dependencies are doneverified and their owner is an active actor; every other
  commitment keeps its state, and no dependency edge changes.
\<close>

theorem cascade_unblocks_exactly:
  assumes "act_step\<^sup>*\<^sup>* empty_db d" and "0 < max_depth"
    and "cascade event max_depth (Some tn) d = (Inr r, d')"
  shows "depends_on d' = depends_on d \<and> map_option c_state (sel_commitment i d') =
    (if ev_kind event = ''commitment_state_change'' \<and> new_state_is event ''doneverified'' \<and>
        ev_observation event \<noteq> None \<and> (i, ev_entity event) \<in> set (depends_on d) \<and>
        (\<forall>e \<in> set (depends_on d). fst e = i \<longrightarrow>
           map_option c_state (sel_commitment (snd e) d) = Some DoneVerified) \<and>
        (\<exists>c a. sel_commitment i d = Some c \<and> c_state c = Blocked \<and> c_tenant c = tn \<and>
           c_owner c = Some a \<and> actor_status d a = Some actor_active)
     then Some Active else map_option c_state (sel_commitment i d))"
proof -
  have "activates (unblocked_by event tn d) d d'"
    using cascade_effect [OF assms(1) [folded reached_def],
      where tn = tn and tenant_id = "Some tn" and event = event and m = max_depth] assms(2,3) by simp
  moreover have "i \<in> unblocked_by event tn d \<longleftrightarrow>
      ev_kind event = ''commitment_state_change'' \<and> new_state_is event ''doneverified'' \<and>
        ev_observation event \<noteq> None \<and> (i, ev_entity event) \<in> set (depends_on d) \<and>
        (\<forall>e \<in> set (depends_on d). fst e = i \<longrightarrow>
           map_option c_state (sel_commitment (snd e) d) = Some DoneVerified) \<and>
        (\<exists>c a. sel_commitment i d = Some c \<and> c_state c = Blocked \<and> c_tenant c = tn \<and>
           c_owner c = Some a \<and> actor_status d a = Some actor_active)"
    by (auto simp: unblocked_by_def can_unblock_def state_of_def)
  ultimately show ?thesis unfolding activates_def state_of_def by metis
qed

text \<open>
  a cascade never uses its depth bound: whatever the database, with a bound of 3 or more a
  cascade that returns has gone no deeper than 2 and reports no bound violation, since the events
  of a step never trigger as much as the event they come from.
\<close>

theorem cascade_bounded:
  assumes "cascade event max_depth tenant_id d = (Inr r, d')" and "3 \<le> max_depth"
  shows "\<not> bound_violated r \<and> depth_reached r \<le> 2"
  using cascade_loop_depth [OF assms(1) [unfolded cascade_def] assms(2)] weight_le [of event] by simp

subsection \<open>A chain of two commitments\<close>

definition ex_chain_blocked :: db where
  "ex_chain_blocked = snd (commitment_create None (ex_input\<lparr>i_depends_on := [3]\<rparr>) Supplied ex_commit_db)"

definition ex_chain_unverified :: db where
  "ex_chain_unverified = snd (commitment_transition 3 DoneUnverified [] None (Some 0) Supplied ex_chain_blocked)"

definition ex_chain_done :: db where
  "ex_chain_done = snd (commitment_transition 3 DoneVerified [0] None (Some 0) Supplied ex_chain_unverified)"

definition ex_trigger :: cascade_event where
  "ex_trigger = \<lparr>ev_id = 100, ev_kind = ''commitment_state_change'', ev_entity_kind = ''commitment'',
     ev_entity = 3, ev_tenant = 7, ev_metadata = [(''new_state'', JStr ''doneverified'')],
     ev_observation = Some 0\<rparr>"

lemma ex_run: "\<not> isl (fst m) \<Longrightarrow> \<exists>r. m = (Inr r, snd m)"
  by (cases "fst m") (auto simp: prod_eq_iff)

lemma ex_chain_reached: "act_step\<^sup>*\<^sup>* empty_db ex_chain_done"
proof -
  have "\<not> isl (fst (commitment_create None (ex_input\<lparr>i_depends_on := [3]\<rparr>) Supplied ex_commit_db))"
    by code_simp
  then have 1: "act_step ex_commit_db ex_chain_blocked"
    unfolding ex_chain_blocked_def by (metis ex_run act_step.commitment_create)
  have "\<not> isl (fst (commitment_transition 3 DoneUnverified [] None (Some 0) Supplied ex_chain_blocked))"
    by code_simp
  then have 2: "act_step ex_chain_blocked ex_chain_unverified"
    unfolding ex_chain_unverified_def by (metis ex_run act_step.commitment_transition)
  have "\<not> isl (fst (commitment_transition 3 DoneVerified [0] None (Some 0) Supplied ex_chain_unverified))"
    by code_simp
  then have 3: "act_step ex_chain_unverified ex_chain_done"
    unfolding ex_chain_done_def by (metis ex_run act_step.commitment_transition)
  from ex_commit_reached 1 2 3 show ?thesis by (meson rtranclp.rtrancl_into_rtrancl)
qed

theorem cascade_total_witness:
  "\<exists>r d'. cascade ex_trigger 50 None ex_chain_done = (Inr r, d') \<and> act_step\<^sup>*\<^sup>* empty_db d'"
  by (rule cascade_total [OF ex_chain_reached])

theorem cascade_unblocks_exactly_witness:
  "\<exists>r d'. cascade ex_trigger 50 (Some 7) ex_chain_done = (Inr r, d') \<and>
     map_option c_state (sel_commitment 5 ex_chain_done) = Some Blocked \<and>
     map_option c_state (sel_commitment 5 d') = Some Active"
proof -
  obtain r d' where run: "cascade ex_trigger 50 (Some 7) ex_chain_done = (Inr r, d')"
    using cascade_effect [OF ex_chain_reached [folded reached_def] refl] by blast
  have facts: "map_option (\<lambda>c. (c_state c, c_tenant c, c_owner c)) (sel_commitment 5 ex_chain_done)
      = Some (Blocked, 7, Some 0)" "depends_on ex_chain_done = [(5, 3)]"
    "map_option c_state (sel_commitment 3 ex_chain_done) = Some DoneVerified"
    "actor_status ex_chain_done 0 = Some actor_active"
    "ex_trigger = \<lparr>ev_id = 100, ev_kind = ''commitment_state_change'', ev_entity_kind = ''commitment'',
     ev_entity = 3, ev_tenant = 7, ev_metadata = [(''new_state'', JStr ''doneverified'')],
     ev_observation = Some 0\<rparr>" "new_state_is ex_trigger ''doneverified''"
    by code_simp+
  from facts(1) obtain c where c: "sel_commitment 5 ex_chain_done = Some c" "c_state c = Blocked"
    "c_tenant c = 7" "c_owner c = Some 0" by auto
  have "map_option c_state (sel_commitment 5 d') = Some Active"
    using cascade_unblocks_exactly [OF ex_chain_reached _ run, of 5] facts(2-4,6) c
    by (simp add: facts(5))
  with run c show ?thesis by simp
qed

theorem cascade_bounded_witness:
  "\<exists>r d'. cascade ex_trigger 50 None ex_chain_done = (Inr r, d') \<and> \<not> bound_violated r \<and> depth_reached r \<le> 2"
proof -
  obtain r d' where run: "cascade ex_trigger 50 None ex_chain_done = (Inr r, d')"
    using cascade_effect [OF ex_chain_reached [folded reached_def] refl] by blast
  then show ?thesis using cascade_bounded [OF run] by simp
qed

subsection \<open>A rejected unblock\<close>

text \<open>
  Outside the databases the acts reach, here one whose blocked commitment has lost its goal
  edge, the transition is rejected by C10 after its UPDATE; the cascade catches the error with no
  savepoint around the call, so that the row it reports as rejected stays active.
\<close>

definition ex_orphan_db :: db where
  "ex_orphan_db = ex_chain_done\<lparr>contributes_to := []\<rparr>"

theorem rejected_unblock_stays_active:
  "map_option c_state (sel_commitment 5 ex_orphan_db) = Some Blocked \<and>
   (case cascade ex_trigger 50 None ex_orphan_db of
      (Inr r, d') \<Rightarrow> map ve_code (invariant_violations r) = [''C10''] \<and>
        map_option c_state (sel_commitment 5 d') = Some Active \<and>
        check_c10_contributes_or_maintenance d' 5 \<noteq> []
    | (Inl e, d') \<Rightarrow> False)"
  by code_simp

end
