(* ===== verification/Triggers.thy ===== *)
theory Triggers
  imports Store
begin

text \<open>
  \<open>services/domain/triggers.py\<close> and the trigger part of \<open>services/reasoning/think/cascade.py\<close>:
  rows of \<open>think_trigger_queue\<close> and the depth that a chain of triggers carries in its payloads.
  The wrapper around the legacy reevaluation queue is not modelled.
\<close>

section \<open>The queue\<close>

definition enqueue_trigger ::
  "uuid \<Rightarrow> string \<Rightarrow> string option \<Rightarrow> uuid option \<Rightarrow> uuid option \<Rightarrow> dict option \<Rightarrow> time option \<Rightarrow>
   string option \<Rightarrow> uuid option \<Rightarrow> ('a db_scheme, uuid) tx" where
  "enqueue_trigger tenant_id trigger_kind trigger_subkind observation_id model_id payload
     scheduled_for locked_by trigger_id d =
    (let (new_id, d) = (case trigger_id of Some i \<Rightarrow> (i, d) | None \<Rightarrow> take_uuid d);
         row = \<lparr>q_id = new_id, q_tenant = tenant_id, q_kind = trigger_kind, q_subkind = trigger_subkind,
           q_observation = observation_id, q_model = model_id,
           q_payload = (case payload of Some p \<Rightarrow> p | None \<Rightarrow> []),
           q_scheduled_for = Some (case scheduled_for of Some t \<Rightarrow> t | None \<Rightarrow> db_now d),
           q_locked_by = locked_by,
           q_locked_at = (if locked_by = None then None else Some (db_now d)),
           q_enqueued_at = db_now d, q_attempts = 0, q_completed_at = None, q_batch_parent = None,
           q_last_error = None, q_quarantined = None\<rparr>
     in if new_id \<in> q_id ` set (trigger_queue d)
        then (Inl (UniqueViolationError ''think_trigger_queue_pkey''), d)
        else (Inr new_id, d\<lparr>trigger_queue := trigger_queue d @ [row]\<rparr>))"

section \<open>Cascade depth\<close>

definition MAX_CASCADE_DEPTH :: int where
  "MAX_CASCADE_DEPTH = 50"

text \<open>\<open>isinstance(raw, int)\<close> holds of a bool too.\<close>

definition parent_depth :: "dict option \<Rightarrow> int" where
  "parent_depth parent_payload =
    (case parent_payload of None \<Rightarrow> 0
     | Some p \<Rightarrow> (case dict_get p ''cascade_depth'' of
         Some (JInt n) \<Rightarrow> n | Some (JBool b) \<Rightarrow> (if b then 1 else 0) | _ \<Rightarrow> 0))"

definition propagate_cascade_depth :: "dict option \<Rightarrow> dict option \<Rightarrow> dict" where
  "propagate_cascade_depth parent_payload extra =
    (let out = [(''cascade_depth'', JInt (parent_depth parent_payload + 1))]
     in case extra of None \<Rightarrow> out | Some e \<Rightarrow> dict_update out e)"

definition enqueue_cascade_t1 ::
  "uuid \<Rightarrow> uuid \<Rightarrow> dict option \<Rightarrow> string \<Rightarrow> dict option \<Rightarrow> (db, uuid option) tx" where
  "enqueue_cascade_t1 tenant_id observation_id parent_payload subkind extra_payload d =
    (let payload = propagate_cascade_depth parent_payload extra_payload in
     case py_int (dict_get_or payload ''cascade_depth'' JNull) of
       Inl e \<Rightarrow> (Inl e, d)
     | Inr depth \<Rightarrow>
        if MAX_CASCADE_DEPTH \<le> depth then (Inr None, d)
        else bind_tx (enqueue_trigger tenant_id ''T1'' (Some subkind) (Some observation_id) None
               (Some payload) None None None) (\<lambda>new_id. return_tx (Some new_id)) d)"

text \<open>
  The row of the model, the natural text and the actors of its scope, comes from the table
  \<open>models\<close> and is an argument.
\<close>

definition enqueue_t2_belief_updated ::
  "uuid \<Rightarrow> uuid \<Rightarrow> (string option \<times> uuid list) option \<Rightarrow> uuid option \<Rightarrow> dict option \<Rightarrow> (db, uuid) tx" where
  "enqueue_t2_belief_updated tenant_id model_id model source_observation_id parent_payload =
    (let natural_text = (case model of Some (Some s, _) \<Rightarrow> JStr s | _ \<Rightarrow> JNull);
         scope_actors = (case model of Some (_, as) \<Rightarrow> as | None \<Rightarrow> []);
         payload = [(''source_model_id'', JUuid model_id),
           (''source_observation_id'', case source_observation_id of Some i \<Rightarrow> JUuid i | None \<Rightarrow> JNull),
           (''seed_natural_text'', natural_text), (''scope_actors'', JList (map JUuid scope_actors))]
     in enqueue_trigger tenant_id ''T2'' (Some ''belief_updated'') source_observation_id (Some model_id)
          (Some (dict_update payload (propagate_cascade_depth parent_payload None))) None None None)"

section \<open>Chains of triggers end\<close>

text \<open>
  A chain: each trigger is enqueued by the handling of the one before it, with that one's payload
  as parent. \<open>None\<close> marks the enqueueing that the bound suppresses.
\<close>

definition chain_payload :: "dict option \<Rightarrow> dict option \<Rightarrow> dict option" where
  "chain_payload parent extra =
    (case py_int (dict_get_or (propagate_cascade_depth parent extra) ''cascade_depth'' JNull) of
       Inr depth \<Rightarrow> if MAX_CASCADE_DEPTH \<le> depth then None else Some (propagate_cascade_depth parent extra)
     | Inl e \<Rightarrow> None)"

fun chain_length :: "dict option \<Rightarrow> dict option list \<Rightarrow> nat" where
  "chain_length parent [] = 0"
| "chain_length parent (extra # extras) =
    (case chain_payload parent extra of None \<Rightarrow> 0 | Some p \<Rightarrow> Suc (chain_length (Some p) extras))"

lemma enqueue_cascade_payload:
  assumes "enqueue_cascade_t1 tn obs parent sk extra d = (Inr (Some i), d')"
  shows "\<exists>row. trigger_queue d' = trigger_queue d @ [row] \<and> q_id row = i \<and>
    chain_payload parent extra = Some (q_payload row)"
  using assms
  by (auto simp: enqueue_cascade_t1_def enqueue_trigger_def chain_payload_def take_uuid_def Let_def
      tx_simps split: sum.splits if_splits)

lemma propagated_depth:
  assumes "\<forall>e. extra = Some e \<longrightarrow> \<not> dict_has e ''cascade_depth''"
  shows "dict_get (propagate_cascade_depth parent extra) ''cascade_depth'' = Some (JInt (parent_depth parent + 1))"
proof (cases extra)
  case None
  then show ?thesis by (simp add: propagate_cascade_depth_def dict_get_def)
next
  case (Some e)
  with assms have "map_of e ''cascade_depth'' = None" by (simp add: dict_has_def dict_get_def)
  then have "dict_get (rev e) ''cascade_depth'' = None" by (simp add: dict_get_def map_of_eq_None_iff)
  then show ?thesis by (simp add: Some propagate_cascade_depth_def dict_simps) (simp add: dict_get_def)
qed

lemma depth_of_chain:
  assumes "chain_payload parent extra = Some p"
    and "\<forall>e. extra = Some e \<longrightarrow> \<not> dict_has e ''cascade_depth''"
  shows "parent_depth (Some p) = parent_depth parent + 1 \<and> parent_depth (Some p) < MAX_CASCADE_DEPTH"
  using assms(1) propagated_depth [OF assms(2), of parent]
  by (auto simp: chain_payload_def dict_get_or_def parent_depth_def split: if_splits)

text \<open>
  cascades across triggers end: whatever observations, subkinds and other payload fields are
  used, a chain of triggers that each inherit the payload of the one before has at most 49
  members (49 minus the depth the first one starts from); the next enqueueing inserts nothing and
  returns \<open>None\<close>. The fields added by the emitters must not be named \<open>cascade_depth\<close>.
\<close>

theorem trigger_chain_bounded:
  assumes "\<forall>extra \<in> set extras. \<forall>e. extra = Some e \<longrightarrow> \<not> dict_has e ''cascade_depth''"
    and "0 \<le> parent_depth parent"
  shows "int (chain_length parent extras) \<le> max 0 (MAX_CASCADE_DEPTH - 1 - parent_depth parent) \<and>
    (MAX_CASCADE_DEPTH - 1 \<le> parent_depth parent \<and> extras \<noteq> [] \<longrightarrow>
      enqueue_cascade_t1 tn obs parent sk (hd extras) d = (Inr None, d))"
proof
  show "int (chain_length parent extras) \<le> max 0 (MAX_CASCADE_DEPTH - 1 - parent_depth parent)"
    using assms
  proof (induction extras arbitrary: parent)
    case (Cons extra extras)
    show ?case
    proof (cases "chain_payload parent extra")
      case (Some p)
      have d: "parent_depth (Some p) = parent_depth parent + 1" "parent_depth (Some p) < MAX_CASCADE_DEPTH"
        using depth_of_chain [OF Some] Cons.prems(1) by simp_all
      then have "int (chain_length (Some p) extras) \<le> max 0 (MAX_CASCADE_DEPTH - 1 - parent_depth (Some p))"
        using Cons.IH [of "Some p"] Cons.prems by simp
      with Some d show ?thesis by simp
    qed simp
  qed simp
next
  show "MAX_CASCADE_DEPTH - 1 \<le> parent_depth parent \<and> extras \<noteq> [] \<longrightarrow>
      enqueue_cascade_t1 tn obs parent sk (hd extras) d = (Inr None, d)"
  proof (intro impI, elim conjE)
    assume deep: "MAX_CASCADE_DEPTH - 1 \<le> parent_depth parent" and "extras \<noteq> []"
    then obtain extra rest where ex: "extras = extra # rest" by (cases extras) auto
    have "dict_get (propagate_cascade_depth parent extra) ''cascade_depth'' = Some (JInt (parent_depth parent + 1))"
      by (rule propagated_depth) (use assms(1) ex in simp)
    with deep ex show "enqueue_cascade_t1 tn obs parent sk (hd extras) d = (Inr None, d)"
      by (simp add: enqueue_cascade_t1_def dict_get_or_def)
  qed
qed

theorem trigger_chain_bounded_witness:
  "chain_length None (replicate 60 None) \<le> 49 \<and>
   enqueue_cascade_t1 7 1 (Some [(''cascade_depth'', JInt 49)]) ''state_change'' (hd [None]) empty_db = (Inr None, empty_db)"
proof -
  have "int (chain_length None (replicate 60 None)) \<le> 49"
    using trigger_chain_bounded [of "replicate 60 None" None] by (simp add: parent_depth_def MAX_CASCADE_DEPTH_def)
  moreover have "enqueue_cascade_t1 7 1 (Some [(''cascade_depth'', JInt 49)]) ''state_change'' (hd [None]) empty_db
      = (Inr None, empty_db)"
    using trigger_chain_bounded [of "[None]" "Some [(''cascade_depth'', JInt 49)]" 7 1 "''state_change''" empty_db]
    by (simp add: parent_depth_def MAX_CASCADE_DEPTH_def dict_get_def)
  ultimately show ?thesis by linarith
qed

text \<open>
  The depth is written before the extra fields, so an emitter's \<open>cascade_depth\<close> replaces the
  counter and the bound no longer holds for its chain.
\<close>

theorem extra_resets_depth:
  "chain_payload (Some [(''cascade_depth'', JInt 49)]) (Some [(''cascade_depth'', JInt 0)]) =
    Some [(''cascade_depth'', JInt 0)]"
  by (simp add: chain_payload_def propagate_cascade_depth_def parent_depth_def dict_get_def dict_update_def
      dict_set_def dict_get_or_def MAX_CASCADE_DEPTH_def Let_def)

end
