(* ===== verification/Ids.thy ===== *)
theory Ids
  imports Json
begin

text \<open>
  \<open>lib/shared/ids.py\<close>: UUID version 7. Python integers are unbounded, so the 128-bit value is an
  \<open>int\<close>, assembled with shifts and OR as the code does; \<open>secrets.randbits(62)\<close> is an argument.
  The two module globals are the state. The tenant context, a \<open>ContextVar\<close>, is not modelled.
\<close>

unbundle bit_operations_syntax

section \<open>Generation\<close>

record id_state =
  last_ms :: int
  last_counter :: int

definition uuid7_value :: "int \<Rightarrow> int \<Rightarrow> int \<Rightarrow> int" where
  "uuid7_value ms counter rand =
    (((push_bit 80 ms OR push_bit 76 7) OR push_bit 64 counter) OR push_bit 62 2) OR rand"

text \<open>The time and the counter of the next identifier.\<close>

definition next_slot :: "int \<Rightarrow> id_state \<Rightarrow> int \<times> id_state" where
  "next_slot ms st =
    (if ms = last_ms st then
       (let counter = last_counter st + 1 in
        if push_bit 12 1 \<le> counter
        then (ms + 1, \<lparr>last_ms = ms + 1, last_counter = 0\<rparr>)
        else (ms, st\<lparr>last_counter := counter\<rparr>))
     else (ms, \<lparr>last_ms = ms, last_counter = 0\<rparr>))"

text \<open>\<open>uuid.UUID(int=value)\<close>.\<close>

definition uuid_of_int :: "int \<Rightarrow> int result" where
  "uuid_of_int v = (if 0 \<le> v \<and> v < push_bit 128 1 then Inr v
     else Inl (ValueError ''int is out of range (need a 128-bit value)''))"

definition uuid7 :: "int \<Rightarrow> int \<Rightarrow> id_state \<Rightarrow> int result \<times> id_state" where
  "uuid7 ms rand st =
    (if ms < 0 \<or> push_bit 48 1 \<le> ms
     then (Inl (ValueError ''timestamp_ms out of range for 48-bit field''), st)
     else let (ms, st) = next_slot ms st
       in (uuid_of_int (uuid7_value ms (last_counter st) rand), st))"

section \<open>Reading an identifier\<close>

text \<open>\<open>UUID.version\<close>: only defined for the RFC 4122 variant.\<close>

definition uuid_version :: "int \<Rightarrow> int option" where
  "uuid_version v =
    (if v AND push_bit 48 0x8000 = 0 then None
     else if v AND push_bit 48 0x4000 = 0 then Some (drop_bit 76 v AND 15)
     else None)"

definition extract_timestamp_ms :: "int \<Rightarrow> int result" where
  "extract_timestamp_ms u =
    (if uuid_version u \<noteq> Some 7 then Inl (ValueError ''not a UUID v7'') else Inr (drop_bit 80 u))"

definition is_uuid7 :: "int \<Rightarrow> bool" where
  "is_uuid7 u \<longleftrightarrow> uuid_version u = Some 7"

section \<open>The layout\<close>

lemma or_plus:
  fixes a b :: int
  assumes "0 \<le> b" and "b < 2 ^ n"
  shows "push_bit n a OR b = a * 2 ^ n + b"
proof -
  have "take_bit n b = b" using assms by (simp add: take_bit_int_eq_self)
  then have "\<not> bit b k" if "n \<le> k" for k using that by (metis bit_take_bit_iff leD)
  then have "push_bit n a + b = push_bit n a OR b"
    by (intro disjunctive_add) (auto simp: bit_push_bit_iff)
  then show ?thesis by (simp add: push_bit_eq_mult)
qed

lemma uuid7_value_sum:
  assumes "0 \<le> counter" "counter < 4096" "0 \<le> rand" "rand < 2 ^ 62"
  shows "uuid7_value ms counter rand = ((ms * 2 ^ 4 + 7) * 2 ^ 12 + counter) * 2 ^ 64 + (2 * 2 ^ 62 + rand)"
proof -
  have 1: "push_bit 80 ms OR push_bit 76 7 = push_bit 76 (ms * 2 ^ 4 + 7)"
    using or_plus [of "push_bit 76 7" 80 ms] by (simp add: push_bit_eq_mult)
  have 2: "push_bit 76 (ms * 2 ^ 4 + 7) OR push_bit 64 counter = push_bit 64 ((ms * 2 ^ 4 + 7) * 2 ^ 12 + counter)"
    using or_plus [of "push_bit 64 counter" 76 "ms * 2 ^ 4 + 7"] assms by (simp add: push_bit_eq_mult algebra_simps)
  have 3: "push_bit 64 k OR push_bit 62 2 = push_bit 62 (k * 2 ^ 2 + 2)" for k :: int
    using or_plus [of "push_bit 62 2" 64 k] by (simp add: push_bit_eq_mult)
  show ?thesis
    unfolding uuid7_value_def 1 2 3
    using or_plus [of rand 62] assms by (simp add: algebra_simps)
qed

lemma field_of: "0 \<le> b \<Longrightarrow> b < 2 ^ n \<Longrightarrow> drop_bit n (a * 2 ^ n + b) = a" for a b :: int
  by (simp add: drop_bit_eq_div)

lemma rest_of: "0 \<le> b \<Longrightarrow> b < 2 ^ n \<Longrightarrow> (a * 2 ^ n + b) mod 2 ^ n = b" for a b :: int
  by simp

lemma value_fields:
  assumes "0 \<le> counter" "counter < 4096" "0 \<le> rand" "rand < 2 ^ 62"
  shows "drop_bit 80 (uuid7_value ms counter rand) = ms"
    "drop_bit 76 (uuid7_value ms counter rand) = ms * 2 ^ 4 + 7"
    "drop_bit 64 (uuid7_value ms counter rand) = (ms * 2 ^ 4 + 7) * 2 ^ 12 + counter"
    "uuid7_value ms counter rand mod 2 ^ 64 = 2 * 2 ^ 62 + rand"
proof -
  have rest: "0 \<le> 2 * 2 ^ 62 + rand" "2 * 2 ^ 62 + rand < 2 ^ 64" using assms by auto
  show 64: "drop_bit 64 (uuid7_value ms counter rand) = (ms * 2 ^ 4 + 7) * 2 ^ 12 + counter"
    unfolding uuid7_value_sum [OF assms] by (rule field_of) (rule rest)+
  show "uuid7_value ms counter rand mod 2 ^ 64 = 2 * 2 ^ 62 + rand"
    unfolding uuid7_value_sum [OF assms] by (rule rest_of) (rule rest)+
  have "drop_bit 76 (uuid7_value ms counter rand) = drop_bit 12 (drop_bit 64 (uuid7_value ms counter rand))"
    by simp
  then show 76: "drop_bit 76 (uuid7_value ms counter rand) = ms * 2 ^ 4 + 7"
    unfolding 64 using field_of [of counter 12 "ms * 2 ^ 4 + 7"] assms by simp
  have "drop_bit 80 (uuid7_value ms counter rand) = drop_bit 4 (drop_bit 76 (uuid7_value ms counter rand))"
    by simp
  then show "drop_bit 80 (uuid7_value ms counter rand) = ms"
    unfolding 76 using field_of [of 7 4 ms] by simp
qed

lemma value_version:
  assumes "0 \<le> counter" "counter < 4096" "0 \<le> rand" "rand < 2 ^ 62"
  shows "uuid_version (uuid7_value ms counter rand) = Some 7"
proof -
  let ?v = "uuid7_value ms counter rand"
  have "take_bit 62 rand = rand" using assms by (simp add: take_bit_int_eq_self)
  then have r: "\<not> bit rand k" if "62 \<le> k" for k using that by (metis bit_take_bit_iff leD)
  have "bit ?v 63" "\<not> bit ?v 62"
    using r by (simp_all add: uuid7_value_def bit_or_iff bit_push_bit_iff_int bit_numeral_rec)
  then have "?v AND 2 ^ 63 \<noteq> 0" "?v AND 2 ^ 62 = 0"
    using and_exp_eq_0_iff_not_bit [of ?v 63] and_exp_eq_0_iff_not_bit [of ?v 62] by blast+
  moreover have "push_bit 48 0x8000 = (2 ^ 63 :: int)" "push_bit 48 0x4000 = (2 ^ 62 :: int)"
    by (simp_all add: push_bit_eq_mult)
  moreover have "drop_bit 76 ?v AND 15 = 7"
  proof -
    have "drop_bit 76 ?v AND 15 = take_bit 4 (drop_bit 76 ?v)"
      by (simp add: take_bit_eq_mask mask_eq_exp_minus_1)
    then show ?thesis unfolding value_fields(2) [OF assms] by (simp add: take_bit_eq_mod)
  qed
  ultimately show ?thesis by (simp only: uuid_version_def if_False if_True simp_thms)
qed

text \<open>The slot of a time and a counter orders the identifiers made for it.\<close>

lemma value_less:
  assumes "0 \<le> c" "c < 4096" "0 \<le> r" "r < 2 ^ 62" "0 \<le> c'" "c' < 4096" "0 \<le> r'" "r' < 2 ^ 62"
    and "ms < ms' \<or> ms = ms' \<and> c < c'"
  shows "uuid7_value ms c r < uuid7_value ms' c' r'"
proof -
  have "(ms * 2 ^ 4 + 7) * 2 ^ 12 + c < (ms' * 2 ^ 4 + 7) * 2 ^ 12 + c'" using assms by auto
  then show ?thesis
    using assms by (simp add: uuid7_value_sum)
qed

lemma value_range:
  assumes "0 \<le> c" "c < 4096" "0 \<le> r" "r < 2 ^ 62"
  shows "0 \<le> uuid7_value ms c r \<and> uuid7_value ms c r < push_bit 128 1 \<longleftrightarrow> 0 \<le> ms \<and> ms < 2 ^ 48"
proof -
  have "push_bit 128 1 = (2 ^ 128 :: int)" by (simp add: push_bit_eq_mult)
  then show ?thesis using assms by (auto simp: uuid7_value_sum)
qed

text \<open>
  \<open>uuid7\<close> is a version 7 UUID from which the timestamp, the counter and the random bits can
  be read back. The embedded time is the one asked for, except after 4096 identifiers of one
  millisecond, when it is the next one; only at the last representable millisecond does that
  raise, with the state already advanced.
\<close>

theorem uuid7_roundtrip:
  assumes "0 \<le> ms" and "ms < 2 ^ 48" and "0 \<le> rand" and "rand < 2 ^ 62"
    and "0 \<le> last_counter st" and "last_counter st < 4096"
  shows "(let wrap = (ms = last_ms st \<and> last_counter st = 4095);
      ms' = (if wrap then ms + 1 else ms)
    in case uuid7 ms rand st of
        (Inr u, st') \<Rightarrow> is_uuid7 u \<and> extract_timestamp_ms u = Inr ms' \<and> last_ms st' = ms' \<and>
          drop_bit 64 u AND 0xFFF = last_counter st' \<and> take_bit 62 u = rand \<and>
          0 \<le> last_counter st' \<and> last_counter st' < 4096 \<and> ms' < 2 ^ 48
      | (Inl e, st') \<Rightarrow> wrap \<and> ms = 2 ^ 48 - 1 \<and> st' = \<lparr>last_ms = 2 ^ 48, last_counter = 0\<rparr>)"
proof -
  define ms' where "ms' = (if ms = last_ms st \<and> last_counter st = 4095 then ms + 1 else ms)"
  define c' where "c' = (if ms = last_ms st \<and> last_counter st < 4095 then last_counter st + 1 else 0)"
  have slot: "next_slot ms st = (ms', \<lparr>last_ms = ms', last_counter = c'\<rparr>)" "0 \<le> c'" "c' < 4096"
    using assms(5,6) by (cases st; auto simp: next_slot_def Let_def push_bit_eq_mult ms'_def c'_def)+
  let ?v = "uuid7_value ms' c' rand"
  note fields = value_fields [OF slot(2,3) assms(3,4)]
  have "drop_bit 64 ?v AND 0xFFF = c'"
  proof -
    have "drop_bit 64 ?v AND 0xFFF = take_bit 12 (drop_bit 64 ?v)"
      by (simp add: take_bit_eq_mask mask_eq_exp_minus_1)
    also have "\<dots> = c'"
      unfolding fields(3) take_bit_eq_mod using slot(2,3) by (intro rest_of) simp_all
    finally show ?thesis .
  qed
  moreover have "take_bit 62 ?v = rand"
  proof -
    have "take_bit 62 ?v = take_bit 62 (take_bit 64 ?v)" by simp
    also have "take_bit 64 ?v = 2 * 2 ^ 62 + rand" using fields(4) by (simp only: take_bit_eq_mod)
    also have "take_bit 62 (2 * 2 ^ 62 + rand) = rand"
      unfolding take_bit_eq_mod by (rule rest_of [OF assms(3,4)])
    finally show ?thesis .
  qed
  moreover have "uuid7 ms rand st = (uuid_of_int ?v, \<lparr>last_ms = ms', last_counter = c'\<rparr>)"
    using assms(1,2) slot(1) by (simp add: uuid7_def push_bit_eq_mult)
  moreover have "0 \<le> ms'" using assms(1) by (simp add: ms'_def)
  moreover have "ms' < 2 ^ 48 \<or> ms = last_ms st \<and> last_counter st = 4095 \<and> ms = 2 ^ 48 - 1 \<and> ms' = 2 ^ 48 \<and> c' = 0"
    using assms(2) by (auto simp: ms'_def c'_def)
  ultimately show ?thesis
    using value_range [OF slot(2,3) assms(3,4), of ms'] value_version [OF slot(2,3) assms(3,4), of ms']
      fields(1) slot(2,3)
    unfolding ms'_def [symmetric] Let_def
    by (auto simp: uuid_of_int_def is_uuid7_def extract_timestamp_ms_def)
qed

section \<open>Monotonicity\<close>

text \<open>A sequence of calls with their timestamps and random bits.\<close>

fun uuid7_run :: "(int \<times> int) list \<Rightarrow> id_state \<Rightarrow> int result list" where
  "uuid7_run [] st = []"
| "uuid7_run ((ms, rand) # calls) st = (let (u, st) = uuid7 ms rand st in u # uuid7_run calls st)"

lemma uuid7_step:
  assumes "0 \<le> ms" and "ms < 2 ^ 48" and "0 \<le> rand" and "rand < 2 ^ 62" and "0 \<le> last_counter st"
    and "ms = last_ms st \<Longrightarrow> last_counter st + 1 < 4096"
  shows "uuid7 ms rand st = (let c = if ms = last_ms st then last_counter st + 1 else 0
    in (Inr (uuid7_value ms c rand), \<lparr>last_ms = ms, last_counter = c\<rparr>))"
proof -
  let ?c = "if ms = last_ms st then last_counter st + 1 else 0"
  have "next_slot ms st = (ms, \<lparr>last_ms = ms, last_counter = ?c\<rparr>)"
    using assms(6) by (cases st) (auto simp: next_slot_def push_bit_eq_mult)
  moreover have "uuid_of_int (uuid7_value ms ?c rand) = Inr (uuid7_value ms ?c rand)"
    using value_range [of ?c rand ms] assms by (simp add: uuid_of_int_def)
  ultimately show ?thesis using assms(1,2) by (simp add: uuid7_def push_bit_eq_mult Let_def)
qed

lemma uuid7_run_sorted:
  assumes "sorted (map fst calls)" and "\<forall>(ms, rand) \<in> set calls. last_ms st \<le> ms \<and> 0 \<le> ms \<and> ms < 2 ^ 48 \<and>
      0 \<le> rand \<and> rand < 2 ^ 62"
    and "0 \<le> last_counter st"
    and "int (count_list (map fst calls) (last_ms st)) + last_counter st < 4096"
    and "\<forall>ms. count_list (map fst calls) ms \<le> 4096"
  shows "\<exists>us. uuid7_run calls st = map Inr us \<and> sorted_wrt (<) us \<and>
    (\<forall>u \<in> set us. \<forall>rand. 0 \<le> rand \<and> rand < 2 ^ 62 \<longrightarrow> uuid7_value (last_ms st) (last_counter st) rand < u)"
  using assms
proof (induction calls arbitrary: st)
  case Nil
  then show ?case by simp
next
  case (Cons call calls)
  obtain ms rand where call: "call = (ms, rand)" by (cases call)
  define c where "c = (if ms = last_ms st then last_counter st + 1 else 0)"
  define st' where "st' = \<lparr>last_ms = ms, last_counter = c\<rparr>"
  have le: "last_ms st \<le> ms" "0 \<le> ms" "ms < 2 ^ 48" "0 \<le> rand" "rand < 2 ^ 62"
    using Cons.prems(2) by (auto simp: call)
  have c: "0 \<le> c" "c < 4096" using Cons.prems(3,4) by (auto simp: c_def call)
  have step: "uuid7 ms rand st = (Inr (uuid7_value ms c rand), st')"
    using uuid7_step [of ms rand st] le Cons.prems(3,4) by (auto simp: c_def st'_def call Let_def)
  have "\<exists>us. uuid7_run calls st' = map Inr us \<and> sorted_wrt (<) us \<and>
      (\<forall>u \<in> set us. \<forall>r. 0 \<le> r \<and> r < 2 ^ 62 \<longrightarrow> uuid7_value ms c r < u)"
  proof -
    have "int (count_list (map fst calls) ms) + c < 4096"
    proof (cases "ms = last_ms st")
      case True
      with Cons.prems(4) show ?thesis by (simp add: call c_def)
    next
      case False
      with Cons.prems(5) [rule_format, of ms] show ?thesis by (simp add: call c_def)
    qed
    moreover have "\<forall>k. count_list (map fst calls) k \<le> 4096"
    proof
      fix k
      show "count_list (map fst calls) k \<le> 4096"
        using Cons.prems(5) [rule_format, of k] by (simp split: if_splits)
    qed
    moreover have "\<forall>(m, r) \<in> set calls. ms \<le> m \<and> 0 \<le> m \<and> m < 2 ^ 48 \<and> 0 \<le> r \<and> r < 2 ^ 62"
      using Cons.prems(1,2) by (fastforce simp: call)
    ultimately show ?thesis
      using Cons.IH [of st'] Cons.prems(1) c by (simp add: st'_def call)
  qed
  then obtain us where us: "uuid7_run calls st' = map Inr us" "sorted_wrt (<) us"
    "\<forall>u \<in> set us. \<forall>r. 0 \<le> r \<and> r < 2 ^ 62 \<longrightarrow> uuid7_value ms c r < u"
    by blast
  have first: "uuid7_value (last_ms st) (last_counter st) r < uuid7_value ms c rand"
    if "0 \<le> r" "r < 2 ^ 62" for r
    by (rule value_less) (use that le c Cons.prems(3,4) in \<open>auto simp: c_def call\<close>)
  have "uuid7_run (call # calls) st = map Inr (uuid7_value ms c rand # us)"
    using step us(1) by (simp add: call)
  moreover have "sorted_wrt (<) (uuid7_value ms c rand # us)" using us(2,3) le by simp
  moreover have "\<forall>u \<in> set (uuid7_value ms c rand # us). \<forall>r. 0 \<le> r \<and> r < 2 ^ 62 \<longrightarrow>
      uuid7_value (last_ms st) (last_counter st) r < u"
  proof (intro ballI allI impI)
    fix u r assume u: "u \<in> set (uuid7_value ms c rand # us)" and r: "0 \<le> r \<and> (r :: int) < 2 ^ 62"
    have "uuid7_value ms c rand \<le> u" using u us(3) le by (auto intro: less_imp_le)
    with first [of r] r show "uuid7_value (last_ms st) (last_counter st) r < u" by linarith
  qed
  ultimately show ?case by blast
qed

text \<open>
  C21: identifiers sort by their creation within a process: for a clock that does not run
  backwards, with at most 4096 calls per millisecond and starting later than the last call, every
  call of a sequence succeeds and the identifiers are strictly increasing, whatever the random
  bits are.
\<close>

theorem uuid7_monotone:
  assumes "sorted (map fst calls)" and "\<forall>(ms, rand) \<in> set calls. last_ms st < ms \<and> 0 \<le> ms \<and> ms < 2 ^ 48 \<and>
      0 \<le> rand \<and> rand < 2 ^ 62"
    and "0 \<le> last_counter st" and "last_counter st < 4096"
    and "\<forall>ms. count_list (map fst calls) ms \<le> 4096"
  shows "\<exists>us. uuid7_run calls st = map Inr us \<and> sorted_wrt (<) us"
proof -
  have "last_ms st \<notin> set (map fst calls)" using assms(2) by force
  then have "count_list (map fst calls) (last_ms st) = 0" by (simp only: count_list_0_iff) simp
  moreover have "\<forall>(ms, rand) \<in> set calls. last_ms st \<le> ms \<and> 0 \<le> ms \<and> ms < 2 ^ 48 \<and> 0 \<le> rand \<and> rand < 2 ^ 62"
    using assms(2) by force
  ultimately show ?thesis using uuid7_run_sorted [of calls st] assms by auto
qed

definition id_start :: id_state where
  "id_start = \<lparr>last_ms = 0, last_counter = 0\<rparr>"

theorem uuid7_roundtrip_witness:
  "extract_timestamp_ms (uuid7_value 1700000000000 0 5) = Inr 1700000000000"
proof -
  have "uuid7 1700000000000 5 id_start = (Inr (uuid7_value 1700000000000 0 5), \<lparr>last_ms = 1700000000000, last_counter = 0\<rparr>)"
    using uuid7_step [of 1700000000000 5 id_start] by (simp add: id_start_def)
  then show ?thesis
    using uuid7_roundtrip [of 1700000000000 5 id_start] by (simp add: id_start_def Let_def)
qed

theorem uuid7_monotone_witness:
  "\<exists>us. uuid7_run [(7, 9), (7, 3), (8, 1)] id_start = map Inr us \<and> sorted_wrt (<) us"
  using uuid7_monotone [of "[(7, 9), (7, 3), (8, 1)]" id_start] by (simp add: id_start_def)

text \<open>
  Beyond 4096 identifiers in a millisecond the order is lost: the call that wraps the
  counter moves on to the next millisecond, and the following call, still in the old one, resets
  the state to it and returns a smaller identifier, in the slot of the first one.
\<close>

theorem uuid7_wrap_breaks_order:
  "(let st = \<lparr>last_ms = 5, last_counter = 4095\<rparr>
    in uuid7_run [(5, 0), (5, 0)] st = [Inr (uuid7_value 6 0 0), Inr (uuid7_value 5 0 0)]) \<and>
   uuid7_value 5 0 0 < uuid7_value 6 0 0"
proof -
  have "uuid7 5 0 \<lparr>last_ms = 5, last_counter = 4095\<rparr> =
      (Inr (uuid7_value 6 0 0), \<lparr>last_ms = 6, last_counter = 0\<rparr>)"
    using value_range [of 0 0 6] by (simp add: uuid7_def next_slot_def uuid_of_int_def push_bit_eq_mult)
  moreover have "uuid7 5 0 \<lparr>last_ms = 6, last_counter = 0\<rparr> =
      (Inr (uuid7_value 5 0 0), \<lparr>last_ms = 5, last_counter = 0\<rparr>)"
    using uuid7_step [of 5 0 "\<lparr>last_ms = 6, last_counter = 0\<rparr>"] by simp
  moreover have "uuid7_value 5 0 0 < uuid7_value 6 0 0" by (rule value_less) simp_all
  ultimately show ?thesis by simp
qed

end
