(* ===== verification/EdgeRegistry.thy ===== *)
theory EdgeRegistry
  imports Json StateMachines
begin

text \<open>
  The semantics of the kinds of edges between models: \<open>lib/shared/edge_registry.py\<close> (the static
  registry) and \<open>services/reasoning/relationships/ontology_runtime.py\<close> (kinds that come from
  accepted ontology proposals of a tenant). A \<open>frozenset\<close> of kinds is a list, a weight is a
  real number; the conversions of other types to \<open>float\<close> are left out. The archive callbacks are
  named by the constructors of \<open>archive_callback\<close> and run in theory \<open>EdgeStore\<close>.
\<close>

section \<open>The specification of a kind\<close>

datatype archive_callback =
    SupportsSourceArchive
  | ContributesSourceArchive
  | InstanceOfSourceArchive
  | InstanceOfTargetArchive
  | CounterevidenceArchive

record edge_spec =
  es_name :: string
  es_directed :: bool
  es_scope :: "string list option"
  es_weight_required :: bool
  es_weight_allowed :: bool
  es_on_source :: "archive_callback option"
  es_on_target :: "archive_callback option"
  es_exclusive :: "string list"
  es_enabled :: bool

definition SUPPORTS_REASON_TO_CAUSE_KIND :: "(string \<times> string) list" where
  "SUPPORTS_REASON_TO_CAUSE_KIND =
    [(''deprecated'', ''supporting_deprecated''),
     (''superseded'', ''supporting_superseded''),
     (''falsifier_triggered'', ''falsifier_triggered_upstream''),
     (''contested_incorrect'', ''contested_cluster''),
     (''contested_reading_incorrect'', ''contested_cluster'')]"

definition legacy_supports_cause_kind :: "string \<Rightarrow> string" where
  "legacy_supports_cause_kind archive_reason =
    (case map_of SUPPORTS_REASON_TO_CAUSE_KIND archive_reason of
       Some k \<Rightarrow> k | None \<Rightarrow> ''supporting_archived'')"

text \<open>Two shorthands for the entries of the registry that only differ in the name.\<close>

definition plain_kind :: "string \<Rightarrow> bool \<Rightarrow> string list \<Rightarrow> edge_spec" where
  "plain_kind name directed exclusive =
    \<lparr>es_name = name, es_directed = directed, es_scope = None, es_weight_required = False,
     es_weight_allowed = True, es_on_source = None, es_on_target = None, es_exclusive = exclusive,
     es_enabled = True\<rparr>"

definition scoped_kind ::
  "string \<Rightarrow> string list \<Rightarrow> bool \<Rightarrow> archive_callback option \<Rightarrow> archive_callback option \<Rightarrow>
   string list \<Rightarrow> edge_spec" where
  "scoped_kind name scope allowed on_source on_target exclusive =
    \<lparr>es_name = name, es_directed = True, es_scope = Some scope, es_weight_required = False,
     es_weight_allowed = allowed, es_on_source = on_source, es_on_target = on_target,
     es_exclusive = exclusive, es_enabled = True\<rparr>"

definition EDGE_REGISTRY :: "(string \<times> edge_spec) list" where
  "EDGE_REGISTRY =
    [(''supports'', scoped_kind ''supports'' [''supports'', ''instance_of''] True
        (Some SupportsSourceArchive) None [''contradicts'', ''weakens'']),
     (''contributes_to_resolution'', scoped_kind ''contributes_to_resolution''
        [''contributes_to_resolution''] False (Some ContributesSourceArchive) None []),
     (''instance_of'', scoped_kind ''instance_of'' [''supports'', ''instance_of''] False
        (Some InstanceOfSourceArchive) (Some InstanceOfTargetArchive) []),
     (''superseded_by'', scoped_kind ''superseded_by'' [''superseded_by''] False None None []),
     (''contradicts'', \<lparr>es_name = ''contradicts'', es_directed = False, es_scope = None,
        es_weight_required = True, es_weight_allowed = True,
        es_on_source = Some CounterevidenceArchive, es_on_target = Some CounterevidenceArchive,
        es_exclusive = [''supports'', ''enables''], es_enabled = True\<rparr>),
     (''weakens'', \<lparr>es_name = ''weakens'', es_directed = True, es_scope = None,
        es_weight_required = True, es_weight_allowed = True,
        es_on_source = Some CounterevidenceArchive, es_on_target = None,
        es_exclusive = [''supports'', ''enables''], es_enabled = True\<rparr>),
     (''causes'', plain_kind ''causes'' True []),
     (''explains'', plain_kind ''explains'' True []),
     (''predicts'', plain_kind ''predicts'' True []),
     (''blocks'', plain_kind ''blocks'' True [''enables'', ''supports'']),
     (''enables'', plain_kind ''enables'' True [''blocks'', ''contradicts'', ''weakens'']),
     (''same_issue_as'', plain_kind ''same_issue_as'' False []),
     (''co_occurs_with'', plain_kind ''co_occurs_with'' False []),
     (''analogous_to'', plain_kind ''analogous_to'' False []),
     (''alternative_to'', plain_kind ''alternative_to'' False []),
     (''early_warning_for'', plain_kind ''early_warning_for'' True [])]"

section \<open>The helpers\<close>

definition get_spec :: "string \<Rightarrow> edge_spec result" where
  "get_spec kind =
    (case map_of EDGE_REGISTRY kind of
       None \<Rightarrow> Inl (EdgeRegistryError (''unknown edge_kind '' @ py_repr kind @ ''; legal: '' @
         py_list_repr (sort (map fst EDGE_REGISTRY))))
     | Some spec \<Rightarrow> Inr spec)"

definition assert_writable :: "string \<Rightarrow> edge_spec result" where
  "assert_writable kind =
    bind_result (get_spec kind) (\<lambda>spec.
      if \<not> es_enabled spec then Inl (EdgeRegistryError
        (''edge_kind '' @ py_repr kind @ '' is registered but not enabled for writes''))
      else Inr spec)"

definition validate_weight_for_spec :: "edge_spec \<Rightarrow> real option \<Rightarrow> err option" where
  "validate_weight_for_spec spec weight =
    (case weight of
       None \<Rightarrow> fails (es_weight_required spec)
         (EdgeRegistryError (''edge_kind '' @ py_repr (es_name spec) @ '' requires a weight; got None''))
     | Some w \<Rightarrow>
         then_check (fails (\<not> es_weight_allowed spec)
           (EdgeRegistryError (''edge_kind '' @ py_repr (es_name spec) @ '' forbids weight'')))
         (fails (\<not> (0 \<le> w \<and> w \<le> 1))
           (EdgeRegistryError (''edge_kind '' @ py_repr (es_name spec) @ '' weight out of range [0, 1]''))))"

definition validate_weight :: "string \<Rightarrow> real option \<Rightarrow> err option" where
  "validate_weight kind weight =
    (case get_spec kind of Inl e \<Rightarrow> Some e | Inr spec \<Rightarrow> validate_weight_for_spec spec weight)"

definition cycle_scope_for :: "string \<Rightarrow> string list option result" where
  "cycle_scope_for kind = bind_result (get_spec kind) (\<lambda>spec. Inr (es_scope spec))"

definition is_symmetric :: "string \<Rightarrow> bool result" where
  "is_symmetric kind = bind_result (get_spec kind) (\<lambda>spec. Inr (\<not> es_directed spec))"

definition writable_kinds :: "string list" where
  "writable_kinds = map fst (filter (\<lambda>(name, spec). es_enabled spec) EDGE_REGISTRY)"

section \<open>Kinds from accepted proposals\<close>

record ontology_proposal =
  op_tenant :: uuid
  op_kind :: string
  op_status :: string
  op_parent :: "string option"
  op_nearest :: "string option"
  op_fallback :: "string option"
  op_directionality :: string

text \<open>\<open>None\<close> is a database without the table of proposals.\<close>

type_synonym ontology = "ontology_proposal list option"

definition load_accepted_proposal :: "ontology \<Rightarrow> uuid \<Rightarrow> string \<Rightarrow> ontology_proposal option" where
  "load_accepted_proposal ontology tenant_id kind =
    (case ontology of
       None \<Rightarrow> None
     | Some rows \<Rightarrow> List.find (\<lambda>p. op_tenant p = tenant_id \<and> op_kind p = kind \<and>
         op_status p = ''accepted'') rows)"

text \<open>\<open>a or b\<close> on optional strings: an empty string counts as absent.\<close>

definition or_text :: "string option \<Rightarrow> string option \<Rightarrow> string option" where
  "or_text a b = (case a of Some (c # cs) \<Rightarrow> a | _ \<Rightarrow> b)"

definition spec_from_proposal :: "string \<Rightarrow> ontology_proposal \<Rightarrow> edge_spec result" where
  "spec_from_proposal kind proposal =
    (let fallback = (case or_text (op_fallback proposal) (or_text (op_nearest proposal)
           (or_text (op_parent proposal) (Some ''supports''))) of Some f \<Rightarrow> f | None \<Rightarrow> ''supports'')
     in bind_result (case get_spec fallback of Inr base \<Rightarrow> Inr base | Inl _ \<Rightarrow> get_spec ''supports'')
       (\<lambda>base. Inr \<lparr>es_name = kind,
          es_directed = (if op_directionality proposal = ''directed'' then True
            else if op_directionality proposal = ''symmetric'' then False else es_directed base),
          es_scope = (case es_scope base of Some scope \<Rightarrow> Some (kind # scope) | None \<Rightarrow> None),
          es_weight_required = es_weight_required base, es_weight_allowed = es_weight_allowed base,
          es_on_source = None, es_on_target = None, es_exclusive = es_exclusive base,
          es_enabled = True\<rparr>))"

definition resolve_edge_kind_spec :: "ontology \<Rightarrow> uuid \<Rightarrow> string \<Rightarrow> edge_spec result" where
  "resolve_edge_kind_spec ontology tenant_id kind =
    (case assert_writable kind of
       Inr spec \<Rightarrow> Inr spec
     | Inl original_error \<Rightarrow>
         (case load_accepted_proposal ontology tenant_id kind of
            None \<Rightarrow> Inl original_error
          | Some proposal \<Rightarrow> spec_from_proposal kind proposal))"

definition is_edge_kind_writable :: "ontology \<Rightarrow> uuid \<Rightarrow> string \<Rightarrow> bool" where
  "is_edge_kind_writable ontology tenant_id kind \<longleftrightarrow>
    (case resolve_edge_kind_spec ontology tenant_id kind of Inr _ \<Rightarrow> True | Inl _ \<Rightarrow> False)"

section \<open>What the registry holds\<close>

lemma registry_names: "list_all (\<lambda>(k, s). es_name s = k) EDGE_REGISTRY"
  by code_simp

lemma registry_distinct: "distinct (map fst EDGE_REGISTRY)"
  by code_simp

lemma registry_enabled: "list_all (\<lambda>(k, s). es_enabled s) EDGE_REGISTRY"
  by code_simp

text \<open>Every kind of the registry resolves to its own entry, whatever the tenant has accepted.\<close>

lemma map_of_registry: "map_of EDGE_REGISTRY kind = Some spec \<Longrightarrow> (kind, spec) \<in> set EDGE_REGISTRY"
  by (rule map_of_SomeD)

lemma resolve_static:
  assumes "map_of EDGE_REGISTRY kind = Some spec"
  shows "resolve_edge_kind_spec ontology tenant_id kind = Inr spec"
  using map_of_registry [OF assms] registry_enabled assms
  by (auto simp: resolve_edge_kind_spec_def assert_writable_def get_spec_def list_all_iff)

lemma resolve_name:
  assumes "resolve_edge_kind_spec ontology tenant_id kind = Inr spec"
  shows "es_name spec = kind"
proof (cases "map_of EDGE_REGISTRY kind")
  case (Some s)
  from map_of_registry [OF Some] resolve_static [OF Some] registry_names assms show ?thesis
    by (auto simp: list_all_iff)
next
  case None
  with assms show ?thesis
    by (auto simp: resolve_edge_kind_spec_def assert_writable_def get_spec_def spec_from_proposal_def
        bind_result_Inr Let_def split: option.splits sum.splits)
qed

text \<open>A kind of a proposal is not a static kind; its cycle scope, if any, contains it.\<close>

lemma resolve_scope_self:
  assumes "resolve_edge_kind_spec ontology tenant_id kind = Inr spec" and "es_scope spec = Some scope"
  shows "kind \<in> set scope"
proof (cases "map_of EDGE_REGISTRY kind")
  case (Some s)
  have "list_all (\<lambda>(k, s). case es_scope s of Some sc \<Rightarrow> k \<in> set sc | None \<Rightarrow> True) EDGE_REGISTRY"
    by code_simp
  with map_of_registry [OF Some] resolve_static [OF Some] assms show ?thesis
    by (auto simp: list_all_iff)
next
  case None
  with assms show ?thesis
    by (auto simp: resolve_edge_kind_spec_def assert_writable_def get_spec_def spec_from_proposal_def
        bind_result_Inr Let_def split: option.splits sum.splits)
qed

end
