(* ===== verification/EdgeStore.thy ===== *)
theory EdgeStore
  imports EdgeRegistry Closure
begin

text \<open>
  The graph of beliefs: the writer of \<open>model_edges\<close> in \<open>services/domain/models/edges_repo.py\<close>,
  and its callers in \<open>services/domain/models/repo.py\<close> that keep the edges and the older array
  columns of \<open>models\<close> together and that run the archive callbacks of the registry. An array of
  evidence ids is a set, since \<open>SELECT DISTINCT\<close> promises no order; weights and confidences are
  real numbers. UUIDs and numbers are left out of the error messages.
\<close>

section \<open>The tables\<close>

record edge_row =
  me_id :: uuid
  me_tenant :: uuid
  me_source :: uuid
  me_target :: uuid
  me_kind :: string
  me_weight :: "real option"
  me_metadata :: dict
  me_status :: string
  me_detected_by :: string
  me_created_at :: time
  me_created_by :: "uuid option"
  me_status_changed_at :: "time option"
  me_status_reason :: "string option"
  me_confidence :: real
  me_event_evidence :: "uuid set"
  me_model_evidence :: "uuid set"
  me_explanation :: "string option"
  me_review :: string
  me_confirmed_at :: "time option"
  me_confirmed_count :: int
  me_contested_count :: int
  me_decay_after :: "time option"
  me_expires_at :: "time option"

record reeval_row =
  rq_id :: uuid
  rq_tenant :: uuid
  rq_model :: uuid
  rq_cause :: "uuid option"
  rq_kind :: string
  rq_processed_at :: "time option"
  rq_enqueued_at :: time
  rq_attempts :: int
  rq_last_error :: "string option"

record model_row =
  m_id :: uuid
  m_tenant :: uuid
  m_status :: string
  m_archived_at :: "time option"
  m_archive_reason :: "string option"
  m_supporting :: "uuid list"
  m_contributing :: "uuid list"

record edge_db =
  model_edges :: "edge_row list"
  models_tab :: "model_row list"
  ontology_tab :: ontology
  reeval_queue :: "reeval_row list"
  edge_uuid :: uuid
  edge_now :: time

definition draw_uuid :: "edge_db \<Rightarrow> uuid \<times> edge_db" where
  "draw_uuid d = (edge_uuid d, d\<lparr>edge_uuid := Suc (edge_uuid d)\<rparr>)"

text \<open>The columns of \<open>model_edges_unique\<close>.\<close>

definition edge_key :: "edge_row \<Rightarrow> uuid \<times> uuid \<times> uuid \<times> string" where
  "edge_key e = (me_tenant e, me_source e, me_target e, me_kind e)"

section \<open>Linking\<close>

record link_args =
  la_source :: uuid
  la_target :: uuid
  la_kind :: string
  la_tenant :: uuid
  la_detected_by :: string
  la_weight :: "real option"
  la_metadata :: "dict option"
  la_created_by :: "uuid option"
  la_confidence :: real
  la_event_evidence :: "uuid list option"
  la_model_evidence :: "uuid list option"
  la_explanation :: "string option"
  la_review :: string
  la_decay_after :: "time option"
  la_expires_at :: "time option"

text \<open>The keyword arguments of \<open>link\<close> that have defaults.\<close>

definition link_defaults :: "uuid \<Rightarrow> uuid \<Rightarrow> string \<Rightarrow> uuid \<Rightarrow> string \<Rightarrow> uuid option \<Rightarrow> link_args" where
  "link_defaults source target kind tenant_id detected_by created_by =
    \<lparr>la_source = source, la_target = target, la_kind = kind, la_tenant = tenant_id,
     la_detected_by = detected_by, la_weight = None, la_metadata = None, la_created_by = created_by,
     la_confidence = 1, la_event_evidence = None, la_model_evidence = None, la_explanation = None,
     la_review = ''accepted'', la_decay_after = None, la_expires_at = None\<rparr>"

definition ALLOWED_DETECTED_BY :: "string list" where
  "ALLOWED_DETECTED_BY = [''llm_explicit'', ''think_edge_op'', ''link_miner'', ''tension_miner'',
     ''retrieval_critic'', ''precipitation'', ''manual'', ''backfill'', ''reconciler'',
     ''falsifier_overlap'', ''cascade'']"

definition REVIEW_STATUSES :: "string list" where
  "REVIEW_STATUSES = [''accepted'', ''candidate'', ''needs_review'', ''disputed'', ''rejected'', ''retired'']"

definition validate_confidence :: "real \<Rightarrow> err option" where
  "validate_confidence c = fails (\<not> (0 \<le> c \<and> c \<le> 1)) (ValidationError ''edge confidence out of range [0, 1]'')"

definition unique_uuid_list :: "uuid list option \<Rightarrow> uuid list" where
  "unique_uuid_list values = (case values of None \<Rightarrow> [] | Some us \<Rightarrow> rev (remdups (rev us)))"

definition check_mutual_exclusion ::
  "edge_spec \<Rightarrow> string \<Rightarrow> uuid \<Rightarrow> uuid \<Rightarrow> uuid \<Rightarrow> edge_db \<Rightarrow> err option" where
  "check_mutual_exclusion spec kind source target tenant_id d =
    (if es_exclusive spec = [] then None
     else case List.find (\<lambda>e. me_tenant e = tenant_id \<and> me_source e = source \<and> me_target e = target \<and>
         me_status e = ''active'' \<and> me_review e \<noteq> ''rejected'' \<and> me_kind e \<in> set (es_exclusive spec))
         (model_edges d) of
       None \<Rightarrow> None
     | Some e \<Rightarrow> Some (EdgeRegistryError (''edge_kind '' @ py_repr kind @ '' mutually exclusive with '' @
         py_repr (me_kind e))))"

definition scope_edges :: "edge_db \<Rightarrow> uuid \<Rightarrow> string list \<Rightarrow> (uuid \<times> uuid) list" where
  "scope_edges d tenant_id scope =
    [(me_source e, me_target e). e \<leftarrow> model_edges d, me_tenant e = tenant_id, me_kind e \<in> set scope,
      me_status e = ''active'']"

text \<open>\<open>cycle_scope\<close> is \<open>None\<close> when the argument is missing.\<close>

definition check_no_cycle ::
  "string \<Rightarrow> uuid \<Rightarrow> uuid list \<Rightarrow> uuid \<Rightarrow> string list option option \<Rightarrow> edge_db \<Rightarrow> err option" where
  "check_no_cycle kind source targets tenant_id cycle_scope d =
    (case (case cycle_scope of
             Some scope \<Rightarrow> Inr scope
           | None \<Rightarrow>
               (case cycle_scope_for kind of
                  Inr scope \<Rightarrow> Inr scope
                | Inl _ \<Rightarrow> bind_result (resolve_edge_kind_spec (ontology_tab d) tenant_id kind)
                             (\<lambda>spec. Inr (es_scope spec)))) of
       Inl e \<Rightarrow> Some e
     | Inr None \<Rightarrow> None
     | Inr (Some scope) \<Rightarrow>
         let target_list = filter (\<lambda>t. t \<noteq> source) targets in
         fails (target_list \<noteq> [] \<and> source \<in> set (cte_reach (scope_edges d tenant_id scope) target_list))
           (ValidationError (''edge '' @ py_repr kind @ '' would create a cycle in scope '' @
             py_list_repr (sort (remdups scope)))))"

definition merge_review :: "string \<Rightarrow> string \<Rightarrow> string" where
  "merge_review old new =
    (if old \<in> {''rejected'', ''retired''} then old
     else if old = ''disputed'' \<or> new = ''disputed'' then ''disputed''
     else if old = ''accepted'' \<or> new = ''accepted'' then ''accepted''
     else if old = ''needs_review'' \<or> new = ''needs_review'' then ''needs_review''
     else ''candidate'')"

definition coalesce :: "'a option \<Rightarrow> 'a option \<Rightarrow> 'a option" where
  "coalesce a b = (case a of Some x \<Rightarrow> Some x | None \<Rightarrow> b)"

text \<open>The row of the \<open>INSERT\<close>, and \<open>ON CONFLICT .. DO UPDATE\<close> of the row that is there.\<close>

definition new_edge :: "uuid \<Rightarrow> time \<Rightarrow> link_args \<Rightarrow> edge_row" where
  "new_edge new_id now a =
    \<lparr>me_id = new_id, me_tenant = la_tenant a, me_source = la_source a, me_target = la_target a,
     me_kind = la_kind a, me_weight = la_weight a,
     me_metadata = (case la_metadata a of Some m \<Rightarrow> m | None \<Rightarrow> []), me_status = ''active'',
     me_detected_by = la_detected_by a, me_created_at = now, me_created_by = la_created_by a,
     me_status_changed_at = None, me_status_reason = None, me_confidence = la_confidence a,
     me_event_evidence = set (unique_uuid_list (la_event_evidence a)),
     me_model_evidence = set (unique_uuid_list (la_model_evidence a)),
     me_explanation = la_explanation a, me_review = la_review a, me_confirmed_at = Some now,
     me_confirmed_count = 1, me_contested_count = 0, me_decay_after = la_decay_after a,
     me_expires_at = la_expires_at a\<rparr>"

definition merge_edge :: "edge_row \<Rightarrow> time \<Rightarrow> edge_row \<Rightarrow> edge_row" where
  "merge_edge excluded now e =
    e\<lparr>me_weight := coalesce (me_weight excluded) (me_weight e),
      me_metadata := dict_update (me_metadata e) (me_metadata excluded),
      me_confidence := max (me_confidence e) (me_confidence excluded),
      me_event_evidence := me_event_evidence e \<union> me_event_evidence excluded,
      me_model_evidence := me_model_evidence e \<union> me_model_evidence excluded,
      me_explanation := coalesce (me_explanation excluded) (me_explanation e),
      me_review := merge_review (me_review e) (me_review excluded),
      me_decay_after := coalesce (me_decay_after excluded) (me_decay_after e),
      me_expires_at := coalesce (me_expires_at excluded) (me_expires_at e),
      me_confirmed_at := Some now,
      me_confirmed_count := me_confirmed_count e + 1\<rparr>"

definition insert_one :: "link_args \<Rightarrow> edge_db \<Rightarrow> uuid \<times> edge_db" where
  "insert_one a d =
    (let (new_id, d) = draw_uuid d; row = new_edge new_id (edge_now d) a
     in case row_at edge_key (edge_key row) (model_edges d) of
          None \<Rightarrow> (new_id, d\<lparr>model_edges := model_edges d @ [row]\<rparr>)
        | Some old \<Rightarrow> (me_id old, d\<lparr>model_edges :=
            row_update edge_key (edge_key row) (merge_edge row (edge_now d)) (model_edges d)\<rparr>))"

definition swap_ends :: "link_args \<Rightarrow> link_args" where
  "swap_ends a = a\<lparr>la_source := la_target a, la_target := la_source a\<rparr>"

definition edge_link_check :: "edge_spec \<Rightarrow> link_args \<Rightarrow> edge_db \<Rightarrow> err option" where
  "edge_link_check spec a d =
    then_check (validate_weight_for_spec spec (la_weight a))
    (then_check (validate_confidence (la_confidence a))
    (then_check (fails (la_review a \<notin> set REVIEW_STATUSES)
      (ValidationError (''invalid edge review_status '' @ py_repr (la_review a))))
    (then_check (fails (la_detected_by a \<notin> set ALLOWED_DETECTED_BY)
      (ValidationError (''invalid edge detected_by '' @ py_repr (la_detected_by a))))
    (then_check (fails (la_source a = la_target a) (ValidationError ''self-edge not allowed: source == target''))
    (then_check (check_mutual_exclusion spec (la_kind a) (la_source a) (la_target a) (la_tenant a) d)
    (then_check (if es_directed spec then None
      else check_mutual_exclusion spec (la_kind a) (la_target a) (la_source a) (la_tenant a) d)
    (case es_scope spec of
       None \<Rightarrow> None
     | Some scope \<Rightarrow> check_no_cycle (la_kind a) (la_source a) [la_target a] (la_tenant a) (Some (Some scope)) d)))))))"

definition link :: "link_args \<Rightarrow> (edge_db, uuid list) tx" where
  "link a d =
    (case resolve_edge_kind_spec (ontology_tab d) (la_tenant a) (la_kind a) of
       Inl e \<Rightarrow> (Inl e, d)
     | Inr spec \<Rightarrow>
         (case edge_link_check spec a d of
            Some e \<Rightarrow> (Inl e, d)
          | None \<Rightarrow>
              let (i, d) = insert_one a d in
              if es_directed spec then (Inr [i], d)
              else let (j, d) = insert_one (swap_ends a) d in (Inr [i, j], d)))"

section \<open>Removing, retiring, reading\<close>

text \<open>The rows of one edge: both directions when the kind is symmetric.\<close>

definition edge_rows :: "edge_spec \<Rightarrow> uuid \<Rightarrow> uuid \<Rightarrow> string \<Rightarrow> uuid \<Rightarrow> edge_row \<Rightarrow> bool" where
  "edge_rows spec source target kind tenant_id e \<longleftrightarrow> me_tenant e = tenant_id \<and> me_kind e = kind \<and>
    (if \<not> es_directed spec
     then (me_source e = source \<and> me_target e = target) \<or> (me_source e = target \<and> me_target e = source)
     else me_source e = source \<and> me_target e = target)"

definition unlink_edge :: "uuid \<Rightarrow> uuid \<Rightarrow> string \<Rightarrow> uuid \<Rightarrow> (edge_db, nat) tx" where
  "unlink_edge source target kind tenant_id d =
    (case resolve_edge_kind_spec (ontology_tab d) tenant_id kind of
       Inl e \<Rightarrow> (Inl e, d)
     | Inr spec \<Rightarrow>
         (Inr (length (filter (edge_rows spec source target kind tenant_id) (model_edges d))),
          d\<lparr>model_edges := filter (\<lambda>e. \<not> edge_rows spec source target kind tenant_id e) (model_edges d)\<rparr>))"

definition retire_row :: "time \<Rightarrow> string \<Rightarrow> edge_row \<Rightarrow> edge_row" where
  "retire_row now reason e = e\<lparr>me_status := ''inert'', me_review := ''retired'',
     me_status_changed_at := Some now, me_status_reason := Some reason\<rparr>"

definition retire :: "uuid \<Rightarrow> uuid \<Rightarrow> string \<Rightarrow> uuid \<Rightarrow> string \<Rightarrow> (edge_db, nat) tx" where
  "retire source target kind tenant_id reason d =
    (case resolve_edge_kind_spec (ontology_tab d) tenant_id kind of
       Inl e \<Rightarrow> (Inl e, d)
     | Inr spec \<Rightarrow>
         let hit = (\<lambda>e. edge_rows spec source target kind tenant_id e \<and> me_status e = ''active'')
         in (Inr (length (filter hit (model_edges d))),
             d\<lparr>model_edges := map (\<lambda>e. if hit e then retire_row (edge_now d) reason e else e) (model_edges d)\<rparr>))"

definition traverse_forward :: "uuid \<Rightarrow> string list \<Rightarrow> uuid \<Rightarrow> string \<Rightarrow> edge_db \<Rightarrow> edge_row list" where
  "traverse_forward source kinds tenant_id status d =
    filter (\<lambda>e. me_tenant e = tenant_id \<and> me_source e = source \<and> me_kind e \<in> set kinds \<and> me_status e = status)
      (model_edges d)"

definition traverse_backward :: "uuid \<Rightarrow> string list \<Rightarrow> uuid \<Rightarrow> string \<Rightarrow> edge_db \<Rightarrow> edge_row list" where
  "traverse_backward target kinds tenant_id status d =
    filter (\<lambda>e. me_tenant e = tenant_id \<and> me_target e = target \<and> me_kind e \<in> set kinds \<and> me_status e = status)
      (model_edges d)"

definition inert_row :: "time \<Rightarrow> string \<Rightarrow> edge_row \<Rightarrow> edge_row" where
  "inert_row now reason e = e\<lparr>me_status := ''inert'', me_status_changed_at := Some now,
     me_status_reason := Some reason\<rparr>"

definition touches :: "uuid \<Rightarrow> uuid \<Rightarrow> edge_row \<Rightarrow> bool" where
  "touches model_id tenant_id e \<longleftrightarrow> me_tenant e = tenant_id \<and> me_status e = ''active'' \<and>
    (me_source e = model_id \<or> me_target e = model_id)"

definition mark_inert :: "uuid \<Rightarrow> uuid \<Rightarrow> string \<Rightarrow> edge_db \<Rightarrow> edge_row list \<times> edge_db" where
  "mark_inert model_id tenant_id reason d =
    (map (inert_row (edge_now d) reason) (filter (touches model_id tenant_id) (model_edges d)),
     d\<lparr>model_edges := map (\<lambda>e. if touches model_id tenant_id e then inert_row (edge_now d) reason e else e)
         (model_edges d)\<rparr>)"

section \<open>The archive callbacks\<close>

text \<open>
  The insertion is skipped when a row with the dedup key is there; otherwise both model columns
  are foreign keys into \<open>models\<close> (migration 0007).
\<close>

definition reeval_dedup_key :: "reeval_row \<Rightarrow> uuid \<times> uuid \<times> uuid option \<times> time option" where
  "reeval_dedup_key r = (rq_tenant r, rq_model r, rq_cause r, rq_processed_at r)"

definition enqueue_reeval :: "uuid \<Rightarrow> uuid \<Rightarrow> uuid \<Rightarrow> string \<Rightarrow> (edge_db, unit) tx" where
  "enqueue_reeval tenant_id dependent_id cause_model_id cause_kind d =
    (let (new_id, d) = draw_uuid d;
         row = \<lparr>rq_id = new_id, rq_tenant = tenant_id, rq_model = dependent_id,
           rq_cause = Some cause_model_id, rq_kind = cause_kind, rq_processed_at = None,
           rq_enqueued_at = edge_now d, rq_attempts = 0, rq_last_error = None\<rparr>
     in if reeval_dedup_key row \<in> reeval_dedup_key ` set (reeval_queue d) then (Inr (), d)
        else if dependent_id \<notin> m_id ` set (models_tab d)
        then (Inl (ForeignKeyViolationError ''model_reeval_queue_model_id_fkey''), d)
        else if cause_model_id \<notin> m_id ` set (models_tab d)
        then (Inl (ForeignKeyViolationError ''model_reeval_queue_cause_model_id_fkey''), d)
        else (Inr (), d\<lparr>reeval_queue := reeval_queue d @ [row]\<rparr>))"

definition callback_cause :: "archive_callback \<Rightarrow> string \<Rightarrow> string" where
  "callback_cause cb archive_reason =
    (case cb of
       SupportsSourceArchive \<Rightarrow> (case map_of SUPPORTS_REASON_TO_CAUSE_KIND archive_reason of
         Some k \<Rightarrow> k | None \<Rightarrow> ''supporting_archived'')
     | ContributesSourceArchive \<Rightarrow> ''contributor_archived''
     | InstanceOfSourceArchive \<Rightarrow> ''instance_archived''
     | InstanceOfTargetArchive \<Rightarrow> ''pattern_archived''
     | CounterevidenceArchive \<Rightarrow> ''counterevidence_archived'')"

definition run_callback :: "archive_callback \<Rightarrow> uuid \<Rightarrow> uuid \<Rightarrow> edge_row \<Rightarrow> string \<Rightarrow> (edge_db, unit) tx" where
  "run_callback cb archived_model_id other_endpoint_id edge archive_reason =
    enqueue_reeval (me_tenant edge) other_endpoint_id archived_model_id
      (callback_cause cb archive_reason)"

text \<open>One direction of the dispatch in \<open>ModelsRepo.archive\<close>; returns the number of callbacks.\<close>

fun dispatch_archive ::
  "(edge_spec \<Rightarrow> archive_callback option) \<Rightarrow> (edge_row \<Rightarrow> uuid) \<Rightarrow> uuid \<Rightarrow> string \<Rightarrow> edge_row list \<Rightarrow>
   (edge_db, nat) tx" where
  "dispatch_archive callback other model_id reason [] = return_tx 0"
| "dispatch_archive callback other model_id reason (edge # edges) = (\<lambda>d.
    case get_spec (me_kind edge) of
      Inl e \<Rightarrow> (Inl e, d)
    | Inr spec \<Rightarrow>
        (case callback spec of
           None \<Rightarrow> dispatch_archive callback other model_id reason edges d
         | Some cb \<Rightarrow>
             bind_tx (run_callback cb model_id (other edge) edge reason) (\<lambda>_.
               bind_tx (dispatch_archive callback other model_id reason edges) (\<lambda>n. return_tx (Suc n))) d))"

text \<open>
  \<open>ModelsRepo.archive\<close>: the model's row, the callbacks of its forward edges, then those of its
  backward edges, then the re-evaluations of the models whose array still names it, and
  \<open>mark_inert\<close>. The result is what the state change reports: the number of dependents, of
  callbacks and of edges marked inert. The obligations that mirror the queue, the state-change
  observation and the audit event are left out.
\<close>

definition array_dependents :: "uuid \<Rightarrow> edge_db \<Rightarrow> uuid list" where
  "array_dependents model_id d =
    [m_id m. m \<leftarrow> models_tab d, model_id \<in> set (m_supporting m), m_status m = ''active'']"

definition finish_archive :: "uuid \<Rightarrow> uuid \<Rightarrow> string \<Rightarrow> (edge_db, nat \<times> nat) tx" where
  "finish_archive model_id tenant_id reason d =
    (let dep_ids = array_dependents model_id d
     in bind_tx (for_tx dep_ids (\<lambda>dep_id.
          enqueue_reeval tenant_id dep_id model_id (legacy_supports_cause_kind reason)))
        (\<lambda>_ d. let (inerted, d) = mark_inert model_id tenant_id ''endpoint_archived'' d
                in (Inr (length dep_ids, length inerted), d)) d)"

text \<open>The reasons that the check on \<open>archive_reason\<close> allows (migration 0163).\<close>

definition ARCHIVE_REASONS :: "string list" where
  "ARCHIVE_REASONS = [''decay'', ''falsifier_triggered'', ''contested_incorrect'',
     ''contested_reading_incorrect'', ''superseded'', ''manual'', ''resolved_confirmed'',
     ''resolved_violated'', ''severe_drift'', ''deprecated'', ''acted_upon'', ''dismissed_by_user'',
     ''situation_resolved'', ''hypothesis_dismissed_by_user'', ''hypothesis_user_approved'',
     ''hypothesis_user_corrected'', ''hypothesis_user_other'']"

definition archive_model_row :: "time \<Rightarrow> string \<Rightarrow> model_row \<Rightarrow> model_row" where
  "archive_model_row now reason r =
    r\<lparr>m_status := ''archived'', m_archived_at := Some now, m_archive_reason := Some reason\<rparr>"

definition archive_model :: "uuid \<Rightarrow> string \<Rightarrow> (edge_db, nat \<times> nat \<times> nat) tx" where
  "archive_model model_id reason d =
    (case row_at m_id model_id (models_tab d) of
       None \<Rightarrow> (Inl (ValidationError ''model not found''), d)
     | Some row \<Rightarrow>
         if reason \<notin> set ARCHIVE_REASONS
         then (Inl (CheckViolationError ''models_archive_reason_check''), d)
         else (let tenant_id = m_tenant row;
              d = d\<lparr>models_tab := row_update m_id model_id (archive_model_row (edge_now d) reason) (models_tab d)\<rparr>
          in bind_tx (\<lambda>d. dispatch_archive es_on_source me_target model_id reason
               (traverse_forward model_id (map fst EDGE_REGISTRY) tenant_id ''active'' d) d) (\<lambda>n.
             bind_tx (\<lambda>d. dispatch_archive es_on_target me_source model_id reason
               (traverse_backward model_id (map fst EDGE_REGISTRY) tenant_id ''active'' d) d) (\<lambda>k.
             bind_tx (finish_archive model_id tenant_id reason) (\<lambda>(dependents, inerted).
             return_tx (dependents, n + k, inerted)))) d))"

section \<open>Relations of one model\<close>

text \<open>
  \<open>_set_model_relations\<close>. Python iterates over sets of ids; \<open>order\<close> is the order of iteration.
\<close>

definition link_all :: "link_args list \<Rightarrow> (edge_db, unit) tx" where
  "link_all as = for_tx as (\<lambda>a. bind_tx (link a) (\<lambda>_. return_tx ()))"

definition unlink_all :: "(uuid \<times> uuid) list \<Rightarrow> string \<Rightarrow> uuid \<Rightarrow> (edge_db, unit) tx" where
  "unlink_all ends kind tenant_id =
    for_tx ends (\<lambda>(source, target). bind_tx (unlink_edge source target kind tenant_id) (\<lambda>_. return_tx ()))"

definition sync_incoming_kind ::
  "(uuid set \<Rightarrow> uuid list) \<Rightarrow> string \<Rightarrow> uuid \<Rightarrow> uuid \<Rightarrow> uuid list \<Rightarrow> string \<Rightarrow> uuid option \<Rightarrow>
   (edge_db, unit) tx" where
  "sync_incoming_kind order kind model_id tenant_id new_sources detected_by created_by d =
    (let existing_sources = me_source ` set (traverse_backward model_id [kind] tenant_id ''active'' d);
         desired_sources = set new_sources;
         to_add = order (desired_sources - existing_sources);
         to_remove = order (existing_sources - desired_sources)
     in bind_tx (link_all (map (\<lambda>source. link_defaults source model_id kind tenant_id detected_by created_by) to_add))
          (\<lambda>_. unlink_all (map (\<lambda>source. (source, model_id)) to_remove) kind tenant_id) d)"

definition sync_outgoing_kind ::
  "(uuid set \<Rightarrow> uuid list) \<Rightarrow> string \<Rightarrow> uuid \<Rightarrow> uuid \<Rightarrow> uuid list \<Rightarrow> string \<Rightarrow> uuid option \<Rightarrow>
   (edge_db, unit) tx" where
  "sync_outgoing_kind order kind model_id tenant_id new_targets detected_by created_by d =
    (let existing_targets = me_target ` set (traverse_forward model_id [kind] tenant_id ''active'' d);
         desired_targets = set new_targets;
         to_add = order (desired_targets - existing_targets);
         to_remove = order (existing_targets - desired_targets)
     in bind_tx (link_all (map (\<lambda>target. link_defaults model_id target kind tenant_id detected_by created_by) to_add))
          (\<lambda>_. unlink_all (map (\<lambda>target. (model_id, target)) to_remove) kind tenant_id) d)"

definition read_array_part :: "uuid \<Rightarrow> string \<Rightarrow> edge_db \<Rightarrow> uuid list" where
  "read_array_part model_id kind d =
    (if kind = ''supports''
     then [me_source e. e \<leftarrow> model_edges d, me_target e = model_id, me_kind e = kind, me_status e = ''active'']
     else [me_target e. e \<leftarrow> model_edges d, me_source e = model_id, me_kind e = kind, me_status e = ''active''])"

definition sync_array_columns ::
  "uuid \<Rightarrow> uuid list option \<Rightarrow> uuid list option \<Rightarrow> uuid list option \<Rightarrow> edge_db \<Rightarrow> edge_db" where
  "sync_array_columns model_id supports contributes_to instance_of d =
    (let present = row_at m_id model_id (models_tab d) \<noteq> None;
         merged = rev (remdups (rev
           ((case supports of Some us \<Rightarrow> us | None \<Rightarrow> read_array_part model_id ''supports'' d) @
            (case instance_of of Some us \<Rightarrow> us | None \<Rightarrow> read_array_part model_id ''instance_of'' d))));
         upd = (\<lambda>f. d\<lparr>models_tab := row_update m_id model_id f (models_tab d)\<rparr>);
         set_supporting = (if supports \<noteq> None \<or> instance_of \<noteq> None
           then (\<lambda>r. r\<lparr>m_supporting := merged\<rparr>) else id);
         set_contributing = (case contributes_to of Some us \<Rightarrow> (\<lambda>r. r\<lparr>m_contributing := us\<rparr>) | None \<Rightarrow> id)
     in if (supports \<noteq> None \<or> instance_of \<noteq> None) \<and> \<not> present then d
        else upd (set_contributing \<circ> set_supporting))"

definition when_given :: "'a option \<Rightarrow> ('a \<Rightarrow> ('s, unit) tx) \<Rightarrow> ('s, unit) tx" where
  "when_given v f = (case v of None \<Rightarrow> return_tx () | Some x \<Rightarrow> f x)"

definition set_model_relations ::
  "(uuid set \<Rightarrow> uuid list) \<Rightarrow> uuid \<Rightarrow> uuid \<Rightarrow> string \<Rightarrow> uuid list option \<Rightarrow> uuid list option \<Rightarrow>
   uuid list option \<Rightarrow> uuid option \<Rightarrow> uuid option \<Rightarrow> bool \<Rightarrow> (edge_db, unit) tx" where
  "set_model_relations order model_id tenant_id detected_by supports contributes_to instance_of
     superseded_by created_by update_arrays =
    bind_tx (when_given supports (\<lambda>us. sync_incoming_kind order ''supports'' model_id tenant_id us detected_by created_by)) (\<lambda>_.
    bind_tx (when_given contributes_to (\<lambda>us. sync_incoming_kind order ''contributes_to_resolution'' model_id tenant_id us detected_by created_by)) (\<lambda>_.
    bind_tx (when_given instance_of (\<lambda>us. sync_outgoing_kind order ''instance_of'' model_id tenant_id us detected_by created_by)) (\<lambda>_.
    bind_tx (when_given superseded_by (\<lambda>u. bind_tx (link (link_defaults model_id u ''superseded_by'' tenant_id detected_by created_by))
      (\<lambda>_. return_tx ()))) (\<lambda>_.
    modify_tx (\<lambda>d. if update_arrays then sync_array_columns model_id supports contributes_to instance_of d else d)))))"

end
