(* ===== verification/EdgeGraph.thy ===== *)
theory EdgeGraph
  imports EdgeStore
begin

text \<open>
  What holds of \<open>model_edges\<close> in every state its writer reaches: the graphs of the cycle scopes
  have no cycle, symmetric edges have their mirror, exclusive kinds never meet on a pair; and
  the exact effect of synchronising the relations of a model and of archiving it.
\<close>

section \<open>Looking an edge up\<close>

definition edge_at :: "edge_db \<Rightarrow> uuid \<Rightarrow> uuid \<Rightarrow> uuid \<Rightarrow> string \<Rightarrow> edge_row option" where
  "edge_at d tn a b k = row_at edge_key (tn, a, b, k) (model_edges d)"

definition keys_inv :: "edge_db \<Rightarrow> bool" where
  "keys_inv d \<longleftrightarrow> distinct (map edge_key (model_edges d))"

lemma edge_at_row: "edge_at d tn a b k = Some e \<Longrightarrow> e \<in> set (model_edges d) \<and> me_tenant e = tn \<and>
    me_source e = a \<and> me_target e = b \<and> me_kind e = k"
  unfolding edge_at_def by (drule row_at_Some) (simp add: edge_key_def)

lemma row_edge_at: "keys_inv d \<Longrightarrow> e \<in> set (model_edges d) \<Longrightarrow>
    edge_at d (me_tenant e) (me_source e) (me_target e) (me_kind e) = Some e"
  unfolding edge_at_def keys_inv_def using row_at_unique [of edge_key "model_edges d" e]
  by (simp add: edge_key_def)

lemma merge_edge_fields [simp]:
  "edge_key (merge_edge x t e) = edge_key e" "me_status (merge_edge x t e) = me_status e"
  "me_id (merge_edge x t e) = me_id e" "me_source (merge_edge x t e) = me_source e"
  "me_target (merge_edge x t e) = me_target e" "me_kind (merge_edge x t e) = me_kind e"
  "me_tenant (merge_edge x t e) = me_tenant e"
  "me_review (merge_edge x t e) = merge_review (me_review e) (me_review x)"
  by (simp_all add: merge_edge_def edge_key_def)

lemma new_edge_fields [simp]:
  "edge_key (new_edge i t a) = (la_tenant a, la_source a, la_target a, la_kind a)"
  "me_status (new_edge i t a) = ''active''" "me_id (new_edge i t a) = i"
  "me_source (new_edge i t a) = la_source a" "me_target (new_edge i t a) = la_target a"
  "me_kind (new_edge i t a) = la_kind a" "me_tenant (new_edge i t a) = la_tenant a"
  "me_review (new_edge i t a) = la_review a"
  by (simp_all add: new_edge_def edge_key_def)

lemma insert_one_rows: "model_edges (snd (insert_one a d)) =
    (let row = new_edge (edge_uuid d) (edge_now d) a in
     if row_at edge_key (edge_key row) (model_edges d) = None then model_edges d @ [row]
     else row_update edge_key (edge_key row) (merge_edge row (edge_now d)) (model_edges d))"
  by (auto simp: insert_one_def draw_uuid_def Let_def split: option.splits)

lemma insert_one_frame [simp]:
  "edge_now (snd (insert_one a d)) = edge_now d" "ontology_tab (snd (insert_one a d)) = ontology_tab d"
  "models_tab (snd (insert_one a d)) = models_tab d" "reeval_queue (snd (insert_one a d)) = reeval_queue d"
  by (auto simp: insert_one_def draw_uuid_def Let_def split: option.splits)

lemma insert_one_at: "edge_at (snd (insert_one x d)) tn a b k =
    (if (tn, a, b, k) = (la_tenant x, la_source x, la_target x, la_kind x)
     then Some (case edge_at d tn a b k of None \<Rightarrow> new_edge (edge_uuid d) (edge_now d) x
       | Some e \<Rightarrow> merge_edge (new_edge (edge_uuid d) (edge_now d) x) (edge_now d) e)
     else edge_at d tn a b k)"
  unfolding edge_at_def insert_one_rows Let_def
  by (auto simp: row_at_append row_at_Cons row_at_Nil row_at_update split: option.splits)

lemma insert_one_other: "(tn, k) \<noteq> (la_tenant x, la_kind x) \<Longrightarrow>
    edge_at (snd (insert_one x d)) tn a b k = edge_at d tn a b k"
  by (auto simp: insert_one_at)

lemma insert_one_keys: "keys_inv d \<Longrightarrow> keys_inv (snd (insert_one x d))"
  unfolding keys_inv_def insert_one_rows Let_def
  by (simp add: row_update_keys row_at_None)

section \<open>The graph of a cycle scope\<close>

lemma set_scope_edges: "set (scope_edges d tn S) =
    {(me_source e, me_target e) | e. e \<in> set (model_edges d) \<and> me_tenant e = tn \<and> me_kind e \<in> set S \<and>
      me_status e = ''active''}"
  by (auto simp: scope_edges_def)

lemma in_scope_edges: "keys_inv d \<Longrightarrow> (a, b) \<in> set (scope_edges d tn S) \<longleftrightarrow>
    (\<exists>k e. k \<in> set S \<and> edge_at d tn a b k = Some e \<and> me_status e = ''active'')"
  unfolding set_scope_edges using row_edge_at edge_at_row by fast

text \<open>\<open>check_no_cycle\<close> is exact: it fails just when the new edge would close a cycle.\<close>

lemma check_no_cycle_exact:
  assumes "a \<noteq> b"
  shows "check_no_cycle k a [b] tn (Some (Some scope)) d = None \<longleftrightarrow>
    (b, a) \<notin> (set (scope_edges d tn scope))\<^sup>*"
  using assms by (auto simp: check_no_cycle_def Let_def fails_def set_cte_reach)

lemma insert_one_scope: "set (scope_edges (snd (insert_one x d)) tn S) \<subseteq>
    (if la_tenant x = tn \<and> la_kind x \<in> set S then insert (la_source x, la_target x) (set (scope_edges d tn S))
     else set (scope_edges d tn S))"
  unfolding set_scope_edges insert_one_rows Let_def by (auto simp: set_row_update)

text \<open>
  The edges of one tenant and one scope, with the check that precedes an insertion, are a
  \<open>guarded_graph\<close>, whatever the other arguments \<open>x\<close> of the insertion are.
\<close>

interpretation scope_graph: guarded_graph "\<lambda>d. set (scope_edges d tn scope)"
  "\<lambda>d a b. a \<noteq> b \<and> check_no_cycle k a [b] tn (Some (Some scope)) d = None"
  "\<lambda>a b d. snd (insert_one (x\<lparr>la_source := a, la_target := b\<rparr>) d)" for tn scope k x
proof unfold_locales
  show "(b, a) \<notin> (set (scope_edges d tn scope))\<^sup>*"
    if "a \<noteq> b \<and> check_no_cycle k a [b] tn (Some (Some scope)) d = None" for d a b
    using that check_no_cycle_exact by blast
  show "set (scope_edges (snd (insert_one (x\<lparr>la_source := a, la_target := b\<rparr>) d)) tn scope)
      \<subseteq> insert (a, b) (set (scope_edges d tn scope))" for a b d
    using insert_one_scope [of "x\<lparr>la_source := a, la_target := b\<rparr>" d tn scope] by (auto split: if_splits)
qed

section \<open>Steps\<close>

inductive edge_step :: "edge_db \<Rightarrow> edge_db \<Rightarrow> bool" where
  es_link: "link a d = (Inr ids, d') \<Longrightarrow> edge_step d d'"
| es_unlink: "unlink_edge a b k tn d = (Inr n, d') \<Longrightarrow> edge_step d d'"
| es_retire: "retire a b k tn reason d = (Inr n, d') \<Longrightarrow> edge_step d d'"
| es_inert: "mark_inert m tn reason d = (rows, d') \<Longrightarrow> edge_step d d'"
| es_elsewhere: "model_edges d' = model_edges d \<Longrightarrow> edge_step d d'"

inductive_cases edge_step_cases: "edge_step d d'"

definition reached_edges :: "edge_db \<Rightarrow> bool" where
  "reached_edges d \<longleftrightarrow> (\<exists>d0. model_edges d0 = [] \<and> edge_step\<^sup>*\<^sup>* d0 d)"

text \<open>What a successful \<open>link\<close> does and what its checks have excluded.\<close>

lemma link_Inr:
  assumes "link a d = (Inr ids, d')"
  obtains spec where "resolve_edge_kind_spec (ontology_tab d) (la_tenant a) (la_kind a) = Inr spec"
    "la_source a \<noteq> la_target a"
    "check_mutual_exclusion spec (la_kind a) (la_source a) (la_target a) (la_tenant a) d = None"
    "\<not> es_directed spec \<Longrightarrow>
      check_mutual_exclusion spec (la_kind a) (la_target a) (la_source a) (la_tenant a) d = None"
    "\<And>scope. es_scope spec = Some scope \<Longrightarrow>
      check_no_cycle (la_kind a) (la_source a) [la_target a] (la_tenant a) (Some (Some scope)) d = None"
    "d' = (if es_directed spec then snd (insert_one a d)
      else snd (insert_one (swap_ends a) (snd (insert_one a d))))"
proof -
  from assms obtain spec where spec: "resolve_edge_kind_spec (ontology_tab d) (la_tenant a) (la_kind a) = Inr spec"
    and check: "edge_link_check spec a d = None"
    and d': "d' = (if es_directed spec then snd (insert_one a d)
      else snd (insert_one (swap_ends a) (snd (insert_one a d))))"
    by (auto simp: link_def Let_def case_prod_beta split: sum.splits option.splits if_splits)
  show ?thesis
    using check by (intro that [OF spec _ _ _ _ d']) (auto simp: edge_link_check_def check_simps)
qed

lemma swap_fields [simp]:
  "la_source (swap_ends a) = la_target a" "la_target (swap_ends a) = la_source a"
  "la_kind (swap_ends a) = la_kind a" "la_tenant (swap_ends a) = la_tenant a"
  by (simp_all add: swap_ends_def)

text \<open>Rewriting the rows in place, and deleting some.\<close>

lemma edge_at_map:
  assumes "\<And>e. edge_key (f e) = edge_key e"
  shows "edge_at (d\<lparr>model_edges := map f (model_edges d)\<rparr>) tn a b k = map_option f (edge_at d tn a b k)"
proof -
  have "row_at edge_key i (map f t) = map_option f (row_at edge_key i t)" for i t
    by (induction t) (auto simp: row_simps assms)
  then show ?thesis by (simp add: edge_at_def)
qed

lemma edge_at_filter:
  assumes "keys_inv d"
  shows "edge_at (d\<lparr>model_edges := filter P (model_edges d)\<rparr>) tn a b k =
    (case edge_at d tn a b k of Some e \<Rightarrow> if P e then Some e else None | None \<Rightarrow> None)"
proof -
  have "distinct (map edge_key t) \<Longrightarrow> row_at edge_key i (filter P t) =
      (case row_at edge_key i t of Some e \<Rightarrow> if P e then Some e else None | None \<Rightarrow> None)" for i t
    by (induction t) (auto simp: row_simps row_at_None [THEN iffD2])
  with assms show ?thesis by (simp add: edge_at_def keys_inv_def)
qed

lemma retire_row_fields [simp]:
  "edge_key (retire_row t r e) = edge_key e" "me_status (retire_row t r e) = ''inert''"
  by (simp_all add: retire_row_def edge_key_def)

lemma inert_row_fields [simp]:
  "edge_key (inert_row t r e) = edge_key e" "me_status (inert_row t r e) = ''inert''"
  "me_review (inert_row t r e) = me_review e"
  by (simp_all add: inert_row_def edge_key_def)

lemma unlink_Inr:
  assumes "unlink_edge a b k tn d = (Inr n, d')"
  obtains spec where "resolve_edge_kind_spec (ontology_tab d) tn k = Inr spec"
    "d' = d\<lparr>model_edges := filter (\<lambda>e. \<not> edge_rows spec a b k tn e) (model_edges d)\<rparr>"
  using assms by (auto simp: unlink_edge_def split: sum.splits)

lemma retire_Inr:
  assumes "retire a b k tn reason d = (Inr n, d')"
  obtains spec where "resolve_edge_kind_spec (ontology_tab d) tn k = Inr spec"
    "d' = d\<lparr>model_edges := map (\<lambda>e. if edge_rows spec a b k tn e \<and> me_status e = ''active''
      then retire_row (edge_now d) reason e else e) (model_edges d)\<rparr>"
  using assms by (auto simp: retire_def Let_def split: sum.splits)

lemma mark_inert_db: "mark_inert m tn reason d = (rows, d') \<Longrightarrow>
    d' = d\<lparr>model_edges := map (\<lambda>e. if touches m tn e then inert_row (edge_now d) reason e else e) (model_edges d)\<rparr>"
  by (auto simp: mark_inert_def)

lemma keys_map: "(\<And>e. edge_key (f e) = edge_key e) \<Longrightarrow>
    keys_inv (d\<lparr>model_edges := map f (model_edges d)\<rparr>) \<longleftrightarrow> keys_inv d"
  by (simp add: keys_inv_def o_def)

lemma edge_step_keys: "edge_step d d' \<Longrightarrow> keys_inv d \<Longrightarrow> keys_inv d'"
proof (erule edge_step_cases)
  fix a ids
  assume "keys_inv d" "link a d = (Inr ids, d')"
  then show "keys_inv d'" by (elim link_Inr) (simp add: insert_one_keys)
next
  fix a b k tn n
  assume "keys_inv d" "unlink_edge a b k tn d = (Inr n, d')"
  then show "keys_inv d'" by (elim unlink_Inr) (simp add: keys_inv_def distinct_map_filter)
next
  fix a b k tn reason n
  assume "keys_inv d" "retire a b k tn reason d = (Inr n, d')"
  then show "keys_inv d'" by (elim retire_Inr) (simp add: keys_map)
next
  fix m tn reason rows
  assume "keys_inv d" "mark_inert m tn reason d = (rows, d')"
  then show "keys_inv d'" by (auto dest!: mark_inert_db simp: keys_map)
qed (simp add: keys_inv_def)

section \<open>No cycles\<close>

definition DAG_SCOPES :: "string list list" where
  "DAG_SCOPES = [[''supports'', ''instance_of''], [''contributes_to_resolution''], [''superseded_by'']]"

definition dag_inv :: "edge_db \<Rightarrow> bool" where
  "dag_inv d \<longleftrightarrow> (\<forall>S \<in> set DAG_SCOPES. \<forall>tn. acyclic (set (scope_edges d tn S)))"

text \<open>A kind of a scope is a directed kind of the registry with this scope.\<close>

lemma scope_kind:
  assumes "S \<in> set DAG_SCOPES" and "k \<in> set S"
  shows "\<exists>spec. map_of EDGE_REGISTRY k = Some spec \<and> es_directed spec \<and> es_scope spec = Some S"
proof -
  have "list_all (\<lambda>S. list_all (\<lambda>k. case map_of EDGE_REGISTRY k of
      Some spec \<Rightarrow> es_directed spec \<and> es_scope spec = Some S | None \<Rightarrow> False) S) DAG_SCOPES"
    by code_simp
  with assms show ?thesis by (force simp: list_all_iff split: option.splits)
qed

lemma scope_edges_filter: "set (scope_edges (d\<lparr>model_edges := filter P (model_edges d)\<rparr>) tn S)
    \<subseteq> set (scope_edges d tn S)"
  by (auto simp: set_scope_edges)

lemma scope_edges_map:
  assumes "\<And>e. edge_key (f e) = edge_key e" and "\<And>e. me_status (f e) = ''active'' \<Longrightarrow> me_status e = ''active''"
  shows "set (scope_edges (d\<lparr>model_edges := map f (model_edges d)\<rparr>) tn S) \<subseteq> set (scope_edges d tn S)"
  using assms by (fastforce simp: set_scope_edges edge_key_def)

lemma acyclic_mono: "acyclic R \<Longrightarrow> R' \<subseteq> R \<Longrightarrow> acyclic R'"
  by (rule acyclic_subset)

lemma link_acyclic:
  assumes "link a d = (Inr ids, d')" and "S \<in> set DAG_SCOPES" and "acyclic (set (scope_edges d tn S))"
  shows "acyclic (set (scope_edges d' tn S))"
  using assms(1)
proof (rule link_Inr)
  fix spec
  assume spec: "resolve_edge_kind_spec (ontology_tab d) (la_tenant a) (la_kind a) = Inr spec"
    and ne: "la_source a \<noteq> la_target a"
    and ok: "\<And>scope. es_scope spec = Some scope \<Longrightarrow>
      check_no_cycle (la_kind a) (la_source a) [la_target a] (la_tenant a) (Some (Some scope)) d = None"
    and d': "d' = (if es_directed spec then snd (insert_one a d)
      else snd (insert_one (swap_ends a) (snd (insert_one a d))))"
  show ?thesis
  proof (cases "la_tenant a = tn \<and> la_kind a \<in> set S")
    case True
    obtain spec' where "map_of EDGE_REGISTRY (la_kind a) = Some spec'" "es_directed spec'" "es_scope spec' = Some S"
      using scope_kind [OF assms(2)] True by blast
    with resolve_static spec have "es_directed spec" "es_scope spec = Some S" by force+
    with ok True ne have "la_source a \<noteq> la_target a \<and>
        check_no_cycle (la_kind a) (la_source a) [la_target a] tn (Some (Some S)) d = None" by auto
    from scope_graph.add_acyclic [OF assms(3) this, of a] \<open>es_directed spec\<close> show ?thesis by (simp add: d')
  next
    case False
    then have "set (scope_edges (snd (insert_one a d)) tn S) \<subseteq> set (scope_edges d tn S)"
      "set (scope_edges (snd (insert_one (swap_ends a) (snd (insert_one a d)))) tn S)
        \<subseteq> set (scope_edges (snd (insert_one a d)) tn S)"
      using insert_one_scope [of a d tn S] insert_one_scope [of "swap_ends a" "snd (insert_one a d)" tn S]
      by (auto simp del: scope_edges_def)
    then have "set (scope_edges d' tn S) \<subseteq> set (scope_edges d tn S)" by (simp add: d') blast
    with assms(3) show ?thesis by (rule acyclic_mono)
  qed
qed

lemma edge_step_dag:
  assumes "edge_step d d'" and "dag_inv d"
  shows "dag_inv d'"
  unfolding dag_inv_def
proof (intro ballI allI)
  fix S tn
  assume S: "S \<in> set DAG_SCOPES"
  with assms(2) have old: "acyclic (set (scope_edges d tn S))" by (simp add: dag_inv_def)
  from assms(1) show "acyclic (set (scope_edges d' tn S))"
  proof cases
    case (es_link a ids)
    from link_acyclic [OF this S old] show ?thesis .
  next
    case (es_unlink a b k tn n)
    then show ?thesis by (elim unlink_Inr) (simp add: acyclic_mono [OF old scope_edges_filter])
  next
    case (es_retire a b k t reason n)
    then show ?thesis
      by (elim retire_Inr) (simp, rule acyclic_mono [OF old scope_edges_map], auto split: if_splits)
  next
    case (es_inert m t reason rows)
    from mark_inert_db [OF this] show ?thesis
      by (simp, intro acyclic_mono [OF old scope_edges_map]) (auto split: if_splits)
  next
    case es_elsewhere
    then have "scope_edges d' tn S = scope_edges d tn S" by (simp add: scope_edges_def)
    with old show ?thesis by simp
  qed
qed

section \<open>Mirrors\<close>

definition symmetric_kind :: "string \<Rightarrow> bool" where
  "symmetric_kind k \<longleftrightarrow> (case map_of EDGE_REGISTRY k of Some spec \<Rightarrow> \<not> es_directed spec | None \<Rightarrow> False)"

definition mirrored :: "edge_row \<Rightarrow> edge_row \<Rightarrow> bool" where
  "mirrored e e' \<longleftrightarrow> e' = e\<lparr>me_id := me_id e', me_source := me_target e, me_target := me_source e\<rparr>"

definition mirror_inv :: "edge_db \<Rightarrow> bool" where
  "mirror_inv d \<longleftrightarrow> (\<forall>tn a b k. symmetric_kind k \<longrightarrow> rel_option mirrored (edge_at d tn a b k) (edge_at d tn b a k))"

lemma mirrored_new: "mirrored (new_edge i t x) (new_edge j t (swap_ends x))"
  by (cases x) (simp add: mirrored_def new_edge_def swap_ends_def)

lemma mirrored_merge: "mirrored e e' \<Longrightarrow>
    mirrored (merge_edge (new_edge i t x) t e) (merge_edge (new_edge j t (swap_ends x)) t e')"
  by (cases e; cases e') (simp add: mirrored_def new_edge_def merge_edge_def swap_ends_def)

lemma mirrored_sym: "mirrored e e' \<Longrightarrow> mirrored e' e"
  by (cases e; cases e') (simp add: mirrored_def)

lemma mirrored_fields: "mirrored e e' \<Longrightarrow> me_status e' = me_status e \<and> me_review e' = me_review e \<and>
    me_tenant e' = me_tenant e \<and> me_kind e' = me_kind e \<and> me_source e' = me_target e \<and> me_target e' = me_source e"
  by (cases e; cases e') (simp add: mirrored_def)

lemma mirrored_retire: "mirrored e e' \<Longrightarrow> mirrored (retire_row t r e) (retire_row t r e')"
  by (cases e; cases e') (simp add: mirrored_def retire_row_def)

lemma mirrored_inert: "mirrored e e' \<Longrightarrow> mirrored (inert_row t r e) (inert_row t r e')"
  by (cases e; cases e') (simp add: mirrored_def inert_row_def)

lemma rel_mirrored_sym: "rel_option mirrored x y \<Longrightarrow> rel_option mirrored y x"
  by (cases x; cases y) (auto intro: mirrored_sym)

lemma mirror_invI:
  assumes "\<And>tn a b k. symmetric_kind k \<Longrightarrow> rel_option mirrored (edge_at d tn a b k) (edge_at d tn b a k)"
  shows "mirror_inv d"
  using assms by (simp add: mirror_inv_def)

lemma mirror_invD: "mirror_inv d \<Longrightarrow> symmetric_kind k \<Longrightarrow>
    rel_option mirrored (edge_at d tn a b k) (edge_at d tn b a k)"
  by (simp add: mirror_inv_def)

lemma symmetric_resolve: "symmetric_kind k \<Longrightarrow>
    resolve_edge_kind_spec ontology tn k = Inr spec \<Longrightarrow> \<not> es_directed spec"
  using resolve_static by (force simp: symmetric_kind_def split: option.splits)

lemma link_mirror:
  assumes "link a d = (Inr ids, d')" and inv: "mirror_inv d"
  shows "mirror_inv d'"
  using assms(1)
proof (rule link_Inr, intro mirror_invI)
  fix spec tn x y k
  assume spec: "resolve_edge_kind_spec (ontology_tab d) (la_tenant a) (la_kind a) = Inr spec"
    and ne: "la_source a \<noteq> la_target a"
    and d': "d' = (if es_directed spec then snd (insert_one a d)
      else snd (insert_one (swap_ends a) (snd (insert_one a d))))"
    and k: "symmetric_kind k"
  note old = mirror_invD [OF inv k]
  show "rel_option mirrored (edge_at d' tn x y k) (edge_at d' tn y x k)"
  proof (cases "tn = la_tenant a \<and> k = la_kind a")
    case False
    then have "(tn, k) \<noteq> (la_tenant a, la_kind a)" by simp
    then have "edge_at d' tn u v k = edge_at d tn u v k" for u v
      unfolding d' by (cases "es_directed spec") (simp_all only: if_True if_False swap_fields insert_one_other not_False_eq_True)
    with old show ?thesis by simp
  next
    case True
    with symmetric_resolve k spec have "\<not> es_directed spec" by blast
    then have at: "edge_at d' tn u v k =
        (if u = la_target a \<and> v = la_source a then Some (case edge_at d tn u v k of
           None \<Rightarrow> new_edge (edge_uuid (snd (insert_one a d))) (edge_now d) (swap_ends a)
         | Some e \<Rightarrow> merge_edge (new_edge (edge_uuid (snd (insert_one a d))) (edge_now d) (swap_ends a)) (edge_now d) e)
         else if u = la_source a \<and> v = la_target a then Some (case edge_at d tn u v k of
           None \<Rightarrow> new_edge (edge_uuid d) (edge_now d) a
         | Some e \<Rightarrow> merge_edge (new_edge (edge_uuid d) (edge_now d) a) (edge_now d) e)
         else edge_at d tn u v k)" for u v
      using True ne by (auto simp: d' insert_one_at cong: option.case_cong)
    have fwd: "rel_option mirrored (edge_at d' tn (la_source a) (la_target a) k)
        (edge_at d' tn (la_target a) (la_source a) k)"
    proof (cases "edge_at d tn (la_source a) (la_target a) k")
      case None
      with old [of tn "la_source a" "la_target a"] have "edge_at d tn (la_target a) (la_source a) k = None" by simp
      with None ne show ?thesis by (simp add: at mirrored_new)
    next
      case (Some e)
      with old [of tn "la_source a" "la_target a"] obtain e' where
        "edge_at d tn (la_target a) (la_source a) k = Some e'" "mirrored e e'"
        by (auto simp: option_rel_Some1)
      with Some ne show ?thesis by (simp add: at mirrored_merge)
    qed
    have other: "edge_at d' tn u v k = edge_at d tn u v k"
      if "\<not> (u = la_source a \<and> v = la_target a)" "\<not> (u = la_target a \<and> v = la_source a)" for u v
      unfolding at using that by (simp only: if_False)
    have "edge_at d' tn x y k = edge_at d tn x y k \<and> edge_at d' tn y x k = edge_at d tn y x k"
      if "\<not> (x = la_source a \<and> y = la_target a)" "\<not> (x = la_target a \<and> y = la_source a)"
      using other [of x y] other [of y x] that by blast
    then consider "x = la_source a \<and> y = la_target a" | "x = la_target a \<and> y = la_source a"
      | "edge_at d' tn x y k = edge_at d tn x y k" "edge_at d' tn y x k = edge_at d tn y x k" by blast
    then show ?thesis
    proof cases
      case 2
      with rel_mirrored_sym [OF fwd] show ?thesis by simp
    qed (use fwd old in simp_all)
  qed
qed

text \<open>The rows that \<open>unlink\<close> and \<open>retire\<close> select come with their mirrors.\<close>

lemma edge_rows_mirrored:
  assumes "resolve_edge_kind_spec ontology tn k = Inr spec" and "symmetric_kind (me_kind e)" and "mirrored e e'"
  shows "edge_rows spec a b k tn e = edge_rows spec a b k tn e'"
  using symmetric_resolve [of k ontology tn spec] assms mirrored_fields [OF assms(3)]
  by (auto simp: edge_rows_def)

lemma rel_kind_cong:
  assumes "rel_option mirrored (edge_at d tn a b k) (edge_at d tn b a k)"
  shows "rel_option (\<lambda>e e'. mirrored e e' \<and> me_kind e = k) (edge_at d tn a b k) (edge_at d tn b a k)"
  using assms edge_at_row [of d tn a b k] by (cases "edge_at d tn a b k"; cases "edge_at d tn b a k") auto

lemma rel_mirrored_at:
  assumes "rel_option mirrored (edge_at d tn a b k) (edge_at d tn b a k)"
    and "\<And>e e'. mirrored e e' \<Longrightarrow> me_kind e = k \<Longrightarrow> mirrored (f e) (f e')"
  shows "rel_option mirrored (map_option f (edge_at d tn a b k)) (map_option f (edge_at d tn b a k))"
  using rel_kind_cong [OF assms(1)] assms(2)
  by (cases "edge_at d tn a b k"; cases "edge_at d tn b a k") auto

lemma edge_step_mirror:
  assumes "edge_step d d'" and keys: "keys_inv d" and inv: "mirror_inv d"
  shows "mirror_inv d'"
  using assms(1)
proof cases
  case (es_link a ids)
  from link_mirror [OF this inv] show ?thesis .
next
  case (es_unlink a b k0 tn n)
  then show ?thesis
  proof (elim unlink_Inr, intro mirror_invI)
    fix spec t x y k
    assume spec: "resolve_edge_kind_spec (ontology_tab d) tn k0 = Inr spec"
      and d': "d' = d\<lparr>model_edges := filter (\<lambda>e. \<not> edge_rows spec a b k0 tn e) (model_edges d)\<rparr>"
      and k: "symmetric_kind k"
    have "rel_option (\<lambda>e e'. mirrored e e' \<and> me_kind e = k) (edge_at d t x y k) (edge_at d t y x k)"
      by (rule rel_kind_cong [OF mirror_invD [OF inv k]])
    then show "rel_option mirrored (edge_at d' t x y k) (edge_at d' t y x k)"
      unfolding d' edge_at_filter [OF keys] using edge_rows_mirrored [OF spec, where a = a and b = b] k
      by (cases "edge_at d t x y k"; cases "edge_at d t y x k"; simp) metis
  qed
next
  case (es_retire a b k0 tn reason n)
  then show ?thesis
  proof (elim retire_Inr, intro mirror_invI)
    fix spec t x y k
    assume spec: "resolve_edge_kind_spec (ontology_tab d) tn k0 = Inr spec"
      and d': "d' = d\<lparr>model_edges := map (\<lambda>e. if edge_rows spec a b k0 tn e \<and> me_status e = ''active''
        then retire_row (edge_now d) reason e else e) (model_edges d)\<rparr>"
      and k: "symmetric_kind k"
    have at: "edge_at d' t u v k = map_option (\<lambda>e. if edge_rows spec a b k0 tn e \<and> me_status e = ''active''
        then retire_row (edge_now d) reason e else e) (edge_at d t u v k)" for u v
      unfolding d' by (rule edge_at_map) simp
    show "rel_option mirrored (edge_at d' t x y k) (edge_at d' t y x k)"
      unfolding at
    proof (rule rel_mirrored_at [OF mirror_invD [OF inv k]])
      fix e e'
      assume m: "mirrored e e'" "me_kind e = k"
      have "edge_rows spec a b k0 tn e = edge_rows spec a b k0 tn e'" "me_status e' = me_status e"
        using edge_rows_mirrored [OF spec _ m(1)] m(2) k mirrored_fields [OF m(1)] by simp_all
      with m(1) mirrored_retire [OF m(1)] show
        "mirrored (if edge_rows spec a b k0 tn e \<and> me_status e = ''active'' then retire_row (edge_now d) reason e else e)
          (if edge_rows spec a b k0 tn e' \<and> me_status e' = ''active'' then retire_row (edge_now d) reason e' else e')"
        by simp
    qed
  qed
next
  case (es_inert m tn reason rows)
  show ?thesis
  proof (rule mirror_invI)
    fix t x y k
    assume k: "symmetric_kind k"
    have at: "edge_at d' t u v k = map_option (\<lambda>e. if touches m tn e
        then inert_row (edge_now d) reason e else e) (edge_at d t u v k)" for u v
      unfolding mark_inert_db [OF es_inert] by (rule edge_at_map) simp
    have "touches m tn e = touches m tn e'" if "mirrored e e'" for e e'
      using mirrored_fields [OF that] by (auto simp: touches_def)
    then show "rel_option mirrored (edge_at d' t x y k) (edge_at d' t y x k)"
      unfolding at by (intro rel_mirrored_at [OF mirror_invD [OF inv k]]) (auto simp: mirrored_inert)
  qed
next
  case es_elsewhere
  with inv show ?thesis by (simp add: mirror_inv_def edge_at_def)
qed

section \<open>Exclusive kinds\<close>

definition exclude_each_other :: "string \<Rightarrow> string \<Rightarrow> bool" where
  "exclude_each_other k l \<longleftrightarrow> (case (map_of EDGE_REGISTRY k, map_of EDGE_REGISTRY l) of
     (Some s, Some t) \<Rightarrow> l \<in> set (es_exclusive s) \<and> k \<in> set (es_exclusive t) | _ \<Rightarrow> False)"

text \<open>An edge that counts: active and not rejected.\<close>

definition visible :: "edge_db \<Rightarrow> uuid \<Rightarrow> uuid \<Rightarrow> uuid \<Rightarrow> string \<Rightarrow> bool" where
  "visible d tn a b k \<longleftrightarrow> (case edge_at d tn a b k of
     Some e \<Rightarrow> me_status e = ''active'' \<and> me_review e \<noteq> ''rejected'' | None \<Rightarrow> False)"

definition exclusive_inv :: "edge_db \<Rightarrow> bool" where
  "exclusive_inv d \<longleftrightarrow> (\<forall>tn a b k l. exclude_each_other k l \<longrightarrow> \<not> (visible d tn a b k \<and> visible d tn a b l))"

lemma check_mutual_None:
  assumes "check_mutual_exclusion spec k a b tn d = None" and "l \<in> set (es_exclusive spec)"
  shows "\<not> visible d tn a b l"
proof
  assume "visible d tn a b l"
  then obtain e where "edge_at d tn a b l = Some e" "me_status e = ''active''" "me_review e \<noteq> ''rejected''"
    by (auto simp: visible_def split: option.splits)
  with assms edge_at_row [of d tn a b l e] show False
    by (auto simp: check_mutual_exclusion_def find_None_iff split: if_splits option.splits)
qed

lemma visible_insert: "visible (snd (insert_one x d)) tn a b k \<Longrightarrow>
    visible d tn a b k \<or> (tn, a, b, k) = (la_tenant x, la_source x, la_target x, la_kind x)"
  by (auto simp: visible_def insert_one_at split: if_splits)

lemma irreflexive_exclusion: "\<not> exclude_each_other k k"
proof
  assume "exclude_each_other k k"
  then obtain s where s: "map_of EDGE_REGISTRY k = Some s" "k \<in> set (es_exclusive s)"
    by (auto simp: exclude_each_other_def split: option.splits)
  have "list_all (\<lambda>(k, s). k \<notin> set (es_exclusive s)) EDGE_REGISTRY" by code_simp
  with map_of_registry [OF s(1)] s(2) show False by (auto simp: list_all_iff)
qed

lemma link_exclusive:
  assumes "link a d = (Inr ids, d')" and inv: "exclusive_inv d"
  shows "exclusive_inv d'"
  using assms(1)
proof (rule link_Inr)
  fix spec
  assume spec: "resolve_edge_kind_spec (ontology_tab d) (la_tenant a) (la_kind a) = Inr spec"
    and fwd: "check_mutual_exclusion spec (la_kind a) (la_source a) (la_target a) (la_tenant a) d = None"
    and bwd: "\<not> es_directed spec \<Longrightarrow>
      check_mutual_exclusion spec (la_kind a) (la_target a) (la_source a) (la_tenant a) d = None"
    and d': "d' = (if es_directed spec then snd (insert_one a d)
      else snd (insert_one (swap_ends a) (snd (insert_one a d))))"
  have seen: "visible d tn x y k \<or> (tn = la_tenant a \<and> k = la_kind a \<and>
      (x = la_source a \<and> y = la_target a \<or> \<not> es_directed spec \<and> x = la_target a \<and> y = la_source a))"
    if "visible d' tn x y k" for tn x y k
    using that visible_insert [of a d tn x y k] visible_insert [of "swap_ends a" "snd (insert_one a d)" tn x y k]
    unfolding d' by (auto split: if_splits)
  have new: "\<not> visible d' tn x y l"
    if e: "exclude_each_other (la_kind a) l" "tn = la_tenant a"
      "x = la_source a \<and> y = la_target a \<or> \<not> es_directed spec \<and> x = la_target a \<and> y = la_source a" for tn x y l
  proof
    assume vis: "visible d' tn x y l"
    obtain s where s: "map_of EDGE_REGISTRY (la_kind a) = Some s" "l \<in> set (es_exclusive s)"
      using e(1) by (auto simp: exclude_each_other_def split: option.splits)
    with resolve_static spec have l: "l \<in> set (es_exclusive spec)" by force
    with e(2,3) fwd bwd have "\<not> visible d tn x y l" by (auto dest: check_mutual_None)
    with seen [OF vis] have "l = la_kind a" by blast
    with e(1) irreflexive_exclusion show False by blast
  qed
  show ?thesis
    unfolding exclusive_inv_def
  proof (intro allI impI notI, elim conjE)
    fix tn x y k l
    assume ex: "exclude_each_other k l" and vis: "visible d' tn x y k" "visible d' tn x y l"
    from ex have ex': "exclude_each_other l k" by (auto simp: exclude_each_other_def split: option.splits)
    from inv ex have "\<not> (visible d tn x y k \<and> visible d tn x y l)" by (auto simp: exclusive_inv_def)
    with seen [OF vis(1)] seen [OF vis(2)] new [of l tn x y] new [of k tn x y] ex ex' vis show False by blast
  qed
qed

lemma exclusive_less:
  assumes "exclusive_inv d" and "\<And>tn a b k. visible d' tn a b k \<Longrightarrow> visible d tn a b k"
  shows "exclusive_inv d'"
  using assms unfolding exclusive_inv_def by blast

lemma edge_step_exclusive:
  assumes "edge_step d d'" and keys: "keys_inv d" and inv: "exclusive_inv d"
  shows "exclusive_inv d'"
  using assms(1)
proof cases
  case (es_link a ids)
  from link_exclusive [OF this inv] show ?thesis .
next
  case (es_unlink a b k tn n)
  then show ?thesis
    by (elim unlink_Inr, intro exclusive_less [OF inv])
      (auto simp: visible_def edge_at_filter [OF keys] split: option.splits if_splits)
next
  case (es_retire a b k tn reason n)
  then obtain spec where d': "d' = d\<lparr>model_edges := map (\<lambda>e. if edge_rows spec a b k tn e \<and> me_status e = ''active''
      then retire_row (edge_now d) reason e else e) (model_edges d)\<rparr>" by (elim retire_Inr)
  have at: "edge_at d' t u v l = map_option (\<lambda>e. if edge_rows spec a b k tn e \<and> me_status e = ''active''
      then retire_row (edge_now d) reason e else e) (edge_at d t u v l)" for t u v l
    unfolding d' by (rule edge_at_map) simp
  show ?thesis
    by (rule exclusive_less [OF inv]) (auto simp: visible_def at split: option.splits if_splits)
next
  case (es_inert m tn reason rows)
  have at: "edge_at d' t u v l = map_option (\<lambda>e. if touches m tn e
      then inert_row (edge_now d) reason e else e) (edge_at d t u v l)" for t u v l
    unfolding mark_inert_db [OF es_inert] by (rule edge_at_map) simp
  show ?thesis
    by (rule exclusive_less [OF inv]) (auto simp: visible_def at split: option.splits if_splits)
next
  case es_elsewhere
  then show ?thesis by (intro exclusive_less [OF inv]) (simp add: visible_def edge_at_def)
qed

lemma reached_edges_inv:
  assumes "edge_step\<^sup>*\<^sup>* d0 d" and "model_edges d0 = []"
  shows "keys_inv d \<and> dag_inv d \<and> mirror_inv d \<and> exclusive_inv d"
  using assms
proof (induction rule: rtranclp_induct)
  case base
  then have "edge_at d0 tn a b k = None" "scope_edges d0 tn S = []" for tn a b k S
    by (simp_all add: edge_at_def row_at_Nil scope_edges_def)
  with base show ?case
    by (simp add: keys_inv_def dag_inv_def mirror_inv_def exclusive_inv_def visible_def acyclic_def)
next
  case (step d d')
  then show ?case
    using edge_step_keys edge_step_dag edge_step_mirror edge_step_exclusive by blast
qed

section \<open>Compositions of steps\<close>

lemma link_all_steps: "link_all as d = (Inr u, d') \<Longrightarrow> edge_step\<^sup>*\<^sup>* d d'"
  unfolding link_all_def
  by (erule for_tx_keeps, simp) (auto simp: tx_simps intro: es_link rtranclp.rtrancl_into_rtrancl)

lemma unlink_all_steps: "unlink_all ps k tn d = (Inr u, d') \<Longrightarrow> edge_step\<^sup>*\<^sup>* d d'"
  unfolding unlink_all_def
  by (erule for_tx_keeps, simp)
    (auto simp: tx_simps dest!: es_unlink intro: rtranclp.rtrancl_into_rtrancl)

lemma sync_steps:
  "sync_incoming_kind order k m tn us by ev d = (Inr u, d') \<Longrightarrow> edge_step\<^sup>*\<^sup>* d d'"
  "sync_outgoing_kind order k m tn us by ev d = (Inr u, d') \<Longrightarrow> edge_step\<^sup>*\<^sup>* d d'"
  by (auto simp: sync_incoming_kind_def sync_outgoing_kind_def Let_def tx_simps
      dest!: link_all_steps unlink_all_steps)

lemma set_model_relations_steps:
  assumes "set_model_relations order m tn by sups cons insts repl ev arrays d = (Inr u, d')"
  shows "edge_step\<^sup>*\<^sup>* d d'"
proof -
  obtain d1 d2 d3 d4 where
    "when_given sups (\<lambda>us. sync_incoming_kind order ''supports'' m tn us by ev) d = (Inr (), d1)"
    "when_given cons (\<lambda>us. sync_incoming_kind order ''contributes_to_resolution'' m tn us by ev) d1 = (Inr (), d2)"
    "when_given insts (\<lambda>us. sync_outgoing_kind order ''instance_of'' m tn us by ev) d2 = (Inr (), d3)"
    "when_given repl (\<lambda>u. bind_tx (link (link_defaults m u ''superseded_by'' tn by ev)) (\<lambda>_. return_tx ())) d3
      = (Inr (), d4)"
    and d': "d' = (if arrays then sync_array_columns m sups cons insts d4 else d4)"
    using assms by (auto simp: set_model_relations_def tx_simps)
  then have "edge_step\<^sup>*\<^sup>* d d1" "edge_step\<^sup>*\<^sup>* d1 d2" "edge_step\<^sup>*\<^sup>* d2 d3" "edge_step\<^sup>*\<^sup>* d3 d4"
    by (auto simp: when_given_def tx_simps sync_steps intro: es_link split: option.splits)
  moreover have "edge_step d4 d'"
    by (rule es_elsewhere) (simp add: d' sync_array_columns_def Let_def)
  ultimately show ?thesis by (meson rtranclp.rtrancl_into_rtrancl rtranclp_trans)
qed

text \<open>A pending re-evaluation of the model \<open>i\<close> because of \<open>c\<close>.\<close>

definition pending :: "uuid \<Rightarrow> uuid \<Rightarrow> uuid \<Rightarrow> edge_db \<Rightarrow> bool" where
  "pending tn i c d \<longleftrightarrow> (\<exists>r \<in> set (reeval_queue d). rq_tenant r = tn \<and> rq_model r = i \<and>
     rq_cause r = Some c \<and> rq_processed_at r = None)"

text \<open>
  A re-evaluation of \<open>i\<close> can be queued: the model is stored, or the dedup key finds one that is
  pending already, so that nothing is inserted.
\<close>

definition queueable :: "uuid \<Rightarrow> uuid \<Rightarrow> uuid \<Rightarrow> edge_db \<Rightarrow> bool" where
  "queueable tn i c d \<longleftrightarrow> i \<in> m_id ` set (models_tab d) \<or> pending tn i c d"

text \<open>All that queueing changes is the queue, which grows by stored models.\<close>

definition only_queued :: "edge_db \<Rightarrow> edge_db \<Rightarrow> bool" where
  "only_queued d d' \<longleftrightarrow> model_edges d' = model_edges d \<and> models_tab d' = models_tab d \<and>
     edge_now d' = edge_now d \<and> (\<forall>tn i c. pending tn i c d \<longrightarrow> pending tn i c d') \<and>
     (\<forall>tn i c. queueable tn i c d' = queueable tn i c d)"

lemma only_queued_refl [simp]: "only_queued d d"
  by (simp add: only_queued_def)

lemma only_queued_trans: "only_queued d d1 \<Longrightarrow> only_queued d1 d2 \<Longrightarrow> only_queued d d2"
  by (simp add: only_queued_def)

lemma enqueue_reeval_run:
  assumes "c \<in> m_id ` set (models_tab d)"
  shows "(queueable tn i c d \<longrightarrow> (\<exists>d'. enqueue_reeval tn i c k d = (Inr (), d') \<and> only_queued d d' \<and> pending tn i c d')) \<and>
    (\<not> queueable tn i c d \<longrightarrow>
      fst (enqueue_reeval tn i c k d) = Inl (ForeignKeyViolationError ''model_reeval_queue_model_id_fkey''))"
proof -
  have key: "(tn, i, Some c, None) \<in> reeval_dedup_key ` set (reeval_queue d) \<longleftrightarrow> pending tn i c d"
    by (force simp: pending_def reeval_dedup_key_def image_iff)
  show ?thesis
  proof (cases "pending tn i c d")
    case True
    then have "enqueue_reeval tn i c k d = (Inr (), snd (draw_uuid d))"
      using key by (simp add: enqueue_reeval_def draw_uuid_def reeval_dedup_key_def Let_def)
    with True show ?thesis
      by (auto simp: queueable_def only_queued_def draw_uuid_def pending_def)
  next
    case False
    with key assms show ?thesis
      by (auto simp: enqueue_reeval_def draw_uuid_def reeval_dedup_key_def Let_def queueable_def only_queued_def
          pending_def)
  qed
qed

lemma enqueue_Inr:
  assumes "c \<in> m_id ` set (models_tab d)" and "enqueue_reeval tn i c k d = (Inr u, d')"
  shows "queueable tn i c d" and "only_queued d d'" and "pending tn i c d'"
  using enqueue_reeval_run [OF assms(1), of tn i k] assms(2) by (cases "queueable tn i c d"; auto)+

lemma only_queuedD:
  assumes "only_queued d d'"
  shows "model_edges d' = model_edges d" "models_tab d' = models_tab d" "edge_now d' = edge_now d"
    "pending tn i c d \<Longrightarrow> pending tn i c d'" "queueable tn i c d' = queueable tn i c d"
  using assms by (simp_all add: only_queued_def)

text \<open>The edges of one direction whose archiving queues the model at the other end.\<close>

definition notifies :: "(edge_spec \<Rightarrow> archive_callback option) \<Rightarrow> edge_row \<Rightarrow> bool" where
  "notifies cb e \<longleftrightarrow> (\<exists>spec. map_of EDGE_REGISTRY (me_kind e) = Some spec \<and> cb spec \<noteq> None)"

lemma dispatch_runs:
  assumes "\<forall>e \<in> set es. map_of EDGE_REGISTRY (me_kind e) \<noteq> None" and "m \<in> m_id ` set (models_tab d)"
  shows "((\<forall>e \<in> set es. notifies cb e \<longrightarrow> queueable (me_tenant e) (other e) m d) \<longrightarrow>
      (\<exists>n d'. dispatch_archive cb other m reason es d = (Inr n, d') \<and> only_queued d d' \<and>
        (\<forall>e \<in> set es. notifies cb e \<longrightarrow> pending (me_tenant e) (other e) m d'))) \<and>
    (\<not> (\<forall>e \<in> set es. notifies cb e \<longrightarrow> queueable (me_tenant e) (other e) m d) \<longrightarrow>
      fst (dispatch_archive cb other m reason es d) =
        Inl (ForeignKeyViolationError ''model_reeval_queue_model_id_fkey''))"
  using assms
proof (induction es arbitrary: d)
  case Nil
  then show ?case by (simp add: return_tx_def)
next
  case (Cons e es)
  from Cons.prems obtain spec where spec: "map_of EDGE_REGISTRY (me_kind e) = Some spec" by auto
  have notifies: "notifies cb e \<longleftrightarrow> cb spec \<noteq> None" by (simp add: notifies_def spec)
  have kinds: "\<forall>e \<in> set es. map_of EDGE_REGISTRY (me_kind e) \<noteq> None" using Cons.prems(1) by simp
  show ?case
  proof (cases "cb spec")
    case None
    then have "dispatch_archive cb other m reason (e # es) d = dispatch_archive cb other m reason es d"
      by (simp add: get_spec_def spec)
    with Cons.IH [OF kinds Cons.prems(2)] None show ?thesis by (simp add: notifies)
  next
    case (Some c)
    let ?run = "run_callback c m (other e) e reason d"
    have unfold: "dispatch_archive cb other m reason (e # es) d = (case ?run of
        (Inl x, d1) \<Rightarrow> (Inl x, d1)
      | (Inr u, d1) \<Rightarrow> (case dispatch_archive cb other m reason es d1 of
           (Inl x, d2) \<Rightarrow> (Inl x, d2) | (Inr n, d2) \<Rightarrow> (Inr (Suc n), d2)))"
      by (simp add: get_spec_def spec Some bind_tx_def return_tx_def split: prod.splits sum.splits)
    note enq = enqueue_reeval_run [OF Cons.prems(2), of "me_tenant e" "other e" "callback_cause c reason",
        folded run_callback_def]
    show ?thesis
    proof (cases "queueable (me_tenant e) (other e) m d")
      case False
      then have "fst ?run = Inl (ForeignKeyViolationError ''model_reeval_queue_model_id_fkey'')"
        using enq by simp
      then have "fst (dispatch_archive cb other m reason (e # es) d) =
          Inl (ForeignKeyViolationError ''model_reeval_queue_model_id_fkey'')"
        unfolding unfold by (cases ?run) simp
      with False Some show ?thesis by (simp add: notifies)
    next
      case True
      then obtain d1 where d1: "?run = (Inr (), d1)" "only_queued d d1" "pending (me_tenant e) (other e) m d1"
        using enq by auto
      note q = only_queuedD [OF d1(2)]
      have "m \<in> m_id ` set (models_tab d1)" using Cons.prems(2) by (simp add: q)
      note IH = Cons.IH [OF kinds this, unfolded q(5)]
      have tail: "(\<forall>x \<in> set (e # es). notifies cb x \<longrightarrow> queueable (me_tenant x) (other x) m d) \<longleftrightarrow>
          (\<forall>x \<in> set es. notifies cb x \<longrightarrow> queueable (me_tenant x) (other x) m d)"
        using True by simp
      show ?thesis
      proof (cases "\<forall>x \<in> set es. notifies cb x \<longrightarrow> queueable (me_tenant x) (other x) m d")
        case ok: True
        then obtain n d2 where d2: "dispatch_archive cb other m reason es d1 = (Inr n, d2)" "only_queued d1 d2"
          "\<forall>x \<in> set es. notifies cb x \<longrightarrow> pending (me_tenant x) (other x) m d2"
          using IH by blast
        have "dispatch_archive cb other m reason (e # es) d = (Inr (Suc n), d2)"
          unfolding unfold by (simp add: d1(1) d2(1))
        moreover have "\<forall>x \<in> set (e # es). notifies cb x \<longrightarrow> pending (me_tenant x) (other x) m d2"
          using d2(3) only_queuedD(4) [OF d2(2) d1(3)] by simp
        ultimately show ?thesis
          unfolding tail using ok only_queued_trans [OF d1(2) d2(2)] by blast
      next
        case bad: False
        with IH have "fst (dispatch_archive cb other m reason es d1) =
            Inl (ForeignKeyViolationError ''model_reeval_queue_model_id_fkey'')" by blast
        then have "fst (dispatch_archive cb other m reason (e # es) d) =
            Inl (ForeignKeyViolationError ''model_reeval_queue_model_id_fkey'')"
          unfolding unfold by (cases "dispatch_archive cb other m reason es d1") (simp add: d1(1))
        with bad show ?thesis unfolding tail by blast
      qed
    qed
  qed
qed

lemma for_enqueue_runs:
  assumes "m \<in> m_id ` set (models_tab d)" and "set is \<subseteq> m_id ` set (models_tab d)"
  shows "\<exists>d'. for_tx is (\<lambda>i. enqueue_reeval tn i m k) d = (Inr (), d') \<and> only_queued d d' \<and>
    (\<forall>i \<in> set is. pending tn i m d')"
  using assms
proof (induction "is" arbitrary: d)
  case Nil
  then show ?case by (simp add: return_tx_def)
next
  case (Cons i "is")
  then have "queueable tn i m d" by (simp add: queueable_def)
  then obtain d1 where d1: "enqueue_reeval tn i m k d = (Inr (), d1)" "only_queued d d1" "pending tn i m d1"
    using enqueue_reeval_run [OF Cons.prems(1)] by blast
  obtain d2 where d2: "for_tx is (\<lambda>i. enqueue_reeval tn i m k) d1 = (Inr (), d2)" "only_queued d1 d2"
    "\<forall>i \<in> set is. pending tn i m d2"
    using Cons.IH [of d1] Cons.prems by (auto simp: only_queuedD [OF d1(2)])
  have "for_tx (i # is) (\<lambda>i. enqueue_reeval tn i m k) d = (Inr (), d2)"
    by (simp add: bind_tx_def d1(1) d2(1))
  moreover have "\<forall>j \<in> set (i # is). pending tn j m d2"
    using d2(3) only_queuedD(4) [OF d2(2) d1(3)] by simp
  ultimately show ?case using only_queued_trans [OF d1(2) d2(2)] by blast
qed

lemma finish_archive_runs:
  assumes "m \<in> m_id ` set (models_tab d)"
  shows "\<exists>r d'. finish_archive m tn reason d = (Inr r, d') \<and> models_tab d' = models_tab d \<and>
    model_edges d' = map (\<lambda>e. if touches m tn e then inert_row (edge_now d) ''endpoint_archived'' e else e)
      (model_edges d) \<and>
    (\<forall>t i c. pending t i c d \<longrightarrow> pending t i c d') \<and>
    (\<forall>i \<in> set (array_dependents m d). pending tn i m d')"
proof -
  have "set (array_dependents m d) \<subseteq> m_id ` set (models_tab d)" by (auto simp: array_dependents_def)
  then obtain d1 where d1: "for_tx (array_dependents m d) (\<lambda>i. enqueue_reeval tn i m
        (legacy_supports_cause_kind reason)) d = (Inr (), d1)" "only_queued d d1"
    "\<forall>i \<in> set (array_dependents m d). pending tn i m d1"
    using for_enqueue_runs [OF assms] by blast
  note q = only_queuedD [OF d1(2)]
  let ?d = "snd (mark_inert m tn ''endpoint_archived'' d1)"
  have "\<exists>r. finish_archive m tn reason d = (Inr r, ?d)"
    by (simp add: finish_archive_def Let_def bind_tx_def d1(1) case_prod_beta)
  moreover have "models_tab ?d = models_tab d" "model_edges ?d =
      map (\<lambda>e. if touches m tn e then inert_row (edge_now d) ''endpoint_archived'' e else e) (model_edges d)"
    "pending t i c ?d = pending t i c d1" for t i c
    by (simp_all add: mark_inert_def pending_def q)
  ultimately show ?thesis using d1(3) q(4) by blast
qed

lemma finish_archive_Inr:
  assumes "finish_archive m tn reason d = (Inr r, d')"
  shows "\<exists>d1. d' = snd (mark_inert m tn ''endpoint_archived'' d1) \<and> model_edges d1 = model_edges d"
proof -
  have keep: "model_edges d2 = model_edges d1" if "enqueue_reeval t i c k d1 = (u, d2)" for t i c k d1 u d2
    using that by (auto simp: enqueue_reeval_def draw_uuid_def Let_def split: if_splits)
  from assms obtain d1 u where run: "for_tx (array_dependents m d) (\<lambda>i. enqueue_reeval tn i m
      (legacy_supports_cause_kind reason)) d = (Inr u, d1)"
    and d': "d' = snd (mark_inert m tn ''endpoint_archived'' d1)"
    by (auto simp: finish_archive_def Let_def case_prod_beta tx_simps)
  have "model_edges d1 = model_edges d"
    by (rule for_tx_preserved [OF run]) (rule keep)
  with d' show ?thesis by blast
qed

lemma traversed_kinds:
  "\<forall>e \<in> set (traverse_forward m (map fst EDGE_REGISTRY) tn s d). map_of EDGE_REGISTRY (me_kind e) \<noteq> None"
  "\<forall>e \<in> set (traverse_backward m (map fst EDGE_REGISTRY) tn s d). map_of EDGE_REGISTRY (me_kind e) \<noteq> None"
  by (auto simp: traverse_forward_def traverse_backward_def map_of_eq_None_iff)

lemma notifies_kind: "notifies cb e \<Longrightarrow> me_kind e \<in> set (map fst EDGE_REGISTRY)"
  using map_of_registry by (force simp: notifies_def)

text \<open>
  The models that an archiving has to queue: the other end of every active edge of the tenant
  whose kind has a callback in that direction.
\<close>

definition notified :: "uuid \<Rightarrow> uuid \<Rightarrow> edge_db \<Rightarrow> uuid set" where
  "notified m tn d =
    {me_target e | e. e \<in> set (model_edges d) \<and> me_tenant e = tn \<and> me_status e = ''active'' \<and> me_source e = m \<and>
       notifies es_on_source e} \<union>
    {me_source e | e. e \<in> set (model_edges d) \<and> me_tenant e = tn \<and> me_status e = ''active'' \<and> me_target e = m \<and>
       notifies es_on_target e}"

lemma forward_notified:
  "(\<forall>e \<in> set (traverse_forward m (map fst EDGE_REGISTRY) tn ''active'' d).
      notifies es_on_source e \<longrightarrow> P (me_tenant e) (me_target e)) \<longleftrightarrow>
   (\<forall>e \<in> set (model_edges d). me_tenant e = tn \<and> me_status e = ''active'' \<and> me_source e = m \<and>
      notifies es_on_source e \<longrightarrow> P tn (me_target e))" (is "?trav \<longleftrightarrow> ?all")
proof (intro iffI ballI impI; (elim conjE)?)
  fix e
  assume H: ?trav and e: "e \<in> set (model_edges d)" "me_tenant e = tn" "me_status e = ''active''" "me_source e = m"
    and n: "notifies es_on_source e"
  from e notifies_kind [OF n] have "e \<in> set (traverse_forward m (map fst EDGE_REGISTRY) tn ''active'' d)"
    by (simp add: traverse_forward_def)
  from bspec [OF H this] n have "P (me_tenant e) (me_target e)" by simp
  with e(2) show "P tn (me_target e)" by simp
next
  fix e
  assume H: ?all and e: "e \<in> set (traverse_forward m (map fst EDGE_REGISTRY) tn ''active'' d)"
    and n: "notifies es_on_source e"
  from e have e: "e \<in> set (model_edges d)" "me_tenant e = tn" "me_status e = ''active''" "me_source e = m"
    by (simp_all add: traverse_forward_def)
  with H n have "P tn (me_target e)" by simp
  with e(2) show "P (me_tenant e) (me_target e)" by simp
qed

lemma backward_notified:
  "(\<forall>e \<in> set (traverse_backward m (map fst EDGE_REGISTRY) tn ''active'' d).
      notifies es_on_target e \<longrightarrow> P (me_tenant e) (me_source e)) \<longleftrightarrow>
   (\<forall>e \<in> set (model_edges d). me_tenant e = tn \<and> me_status e = ''active'' \<and> me_target e = m \<and>
      notifies es_on_target e \<longrightarrow> P tn (me_source e))" (is "?trav \<longleftrightarrow> ?all")
proof (intro iffI ballI impI; (elim conjE)?)
  fix e
  assume H: ?trav and e: "e \<in> set (model_edges d)" "me_tenant e = tn" "me_status e = ''active''" "me_target e = m"
    and n: "notifies es_on_target e"
  from e notifies_kind [OF n] have "e \<in> set (traverse_backward m (map fst EDGE_REGISTRY) tn ''active'' d)"
    by (simp add: traverse_backward_def)
  from bspec [OF H this] n have "P (me_tenant e) (me_source e)" by simp
  with e(2) show "P tn (me_source e)" by simp
next
  fix e
  assume H: ?all and e: "e \<in> set (traverse_backward m (map fst EDGE_REGISTRY) tn ''active'' d)"
    and n: "notifies es_on_target e"
  from e have e: "e \<in> set (model_edges d)" "me_tenant e = tn" "me_status e = ''active''" "me_target e = m"
    by (simp_all add: traverse_backward_def)
  with H n have "P tn (me_source e)" by simp
  with e(2) show "P (me_tenant e) (me_source e)" by simp
qed

lemma all_notified:
  "(\<forall>i \<in> notified m tn d. P tn i) \<longleftrightarrow>
    (\<forall>e \<in> set (model_edges d). me_tenant e = tn \<and> me_status e = ''active'' \<and> me_source e = m \<and>
      notifies es_on_source e \<longrightarrow> P tn (me_target e)) \<and>
    (\<forall>e \<in> set (model_edges d). me_tenant e = tn \<and> me_status e = ''active'' \<and> me_target e = m \<and>
      notifies es_on_target e \<longrightarrow> P tn (me_source e))"
  unfolding notified_def by blast

lemma notified_iff:
  "(\<forall>i \<in> notified m tn d. P i) \<longleftrightarrow>
    (\<forall>e \<in> set (model_edges d). \<forall>spec. me_tenant e = tn \<and> me_status e = ''active'' \<and>
      map_of EDGE_REGISTRY (me_kind e) = Some spec \<longrightarrow>
      (me_source e = m \<and> es_on_source spec \<noteq> None \<longrightarrow> P (me_target e)) \<and>
      (me_target e = m \<and> es_on_target spec \<noteq> None \<longrightarrow> P (me_source e)))"
  unfolding all_notified [where P = "\<lambda>t. P"] notifies_def by blast

text \<open>Both dispatches of an archiving, on the database with the updated row.\<close>

lemma dispatches_run:
  fixes m tn d and reason :: string
  defines "fwd \<equiv> traverse_forward m (map fst EDGE_REGISTRY) tn ''active''"
    and "bwd \<equiv> traverse_backward m (map fst EDGE_REGISTRY) tn ''active''"
  defines "run \<equiv> \<lambda>f. bind_tx (\<lambda>d. dispatch_archive es_on_source me_target m reason (fwd d) d)
    (\<lambda>n. bind_tx (\<lambda>d. dispatch_archive es_on_target me_source m reason (bwd d) d) (f n))"
  assumes m: "m \<in> m_id ` set (models_tab d)"
  shows "((\<forall>i \<in> notified m tn d. queueable tn i m d) \<longrightarrow>
      (\<exists>n k d'. run f d = f n k d' \<and> only_queued d d' \<and> (\<forall>i \<in> notified m tn d. pending tn i m d'))) \<and>
    (\<not> (\<forall>i \<in> notified m tn d. queueable tn i m d) \<longrightarrow>
      fst (run f d) = Inl (ForeignKeyViolationError ''model_reeval_queue_model_id_fkey''))"
proof -
  let ?ok1 = "\<forall>e \<in> set (model_edges d). me_tenant e = tn \<and> me_status e = ''active'' \<and> me_source e = m \<and>
      notifies es_on_source e \<longrightarrow> queueable tn (me_target e) m d"
  let ?ok2 = "\<forall>e \<in> set (model_edges d). me_tenant e = tn \<and> me_status e = ''active'' \<and> me_target e = m \<and>
      notifies es_on_target e \<longrightarrow> queueable tn (me_source e) m d"
  let ?err = "Inl (ForeignKeyViolationError ''model_reeval_queue_model_id_fkey'')"
  note ok = all_notified [where m = m and tn = tn and d = d and P = "\<lambda>t i. queueable t i m d"]
  note first = dispatch_runs [OF traversed_kinds(1) [of m tn "''active''" d] m,
      of es_on_source me_target reason, unfolded
      forward_notified [where P = "\<lambda>t i. queueable t i m d"], folded fwd_def]
  show ?thesis
  proof (cases ?ok1)
    case False
    with first have "fst (dispatch_archive es_on_source me_target m reason (fwd d) d) = ?err" by blast
    then have "fst (run f d) = ?err"
      by (cases "dispatch_archive es_on_source me_target m reason (fwd d) d") (simp add: run_def bind_tx_def)
    with False show ?thesis unfolding ok by blast
  next
    case ok1: True
    then obtain n d1 where d1: "dispatch_archive es_on_source me_target m reason (fwd d) d = (Inr n, d1)"
      "only_queued d d1" "\<forall>e \<in> set (fwd d). notifies es_on_source e \<longrightarrow> pending (me_tenant e) (me_target e) m d1"
      using first by blast
    note q = only_queuedD [OF d1(2)]
    have run1: "run f d = bind_tx (\<lambda>d. dispatch_archive es_on_target me_source m reason (bwd d) d) (f n) d1"
      by (simp add: run_def bind_tx_def d1(1))
    have m1: "m \<in> m_id ` set (models_tab d1)" using m by (simp add: q)
    note second = dispatch_runs [OF traversed_kinds(2) [of m tn "''active''" d1] m1,
        of es_on_target me_source reason, unfolded
        backward_notified [where P = "\<lambda>t i. queueable t i m d1"], unfolded q, folded bwd_def]
    show ?thesis
    proof (cases ?ok2)
      case False
      with second have "fst (dispatch_archive es_on_target me_source m reason (bwd d1) d1) = ?err" by blast
      then have "fst (run f d) = ?err" unfolding run1
        by (cases "dispatch_archive es_on_target me_source m reason (bwd d1) d1") (simp add: bind_tx_def)
      with False show ?thesis unfolding ok by blast
    next
      case ok2: True
      then obtain k d2 where d2: "dispatch_archive es_on_target me_source m reason (bwd d1) d1 = (Inr k, d2)"
        "only_queued d1 d2" "\<forall>e \<in> set (bwd d1). notifies es_on_target e \<longrightarrow> pending (me_tenant e) (me_source e) m d2"
        using second by blast
      have "run f d = f n k d2" unfolding run1 by (simp add: bind_tx_def d2(1))
      moreover have "\<forall>i \<in> notified m tn d. pending tn i m d2"
        unfolding all_notified [where P = "\<lambda>t i. pending t i m d2"]
        using d1(3) [unfolded fwd_def forward_notified [where P = "\<lambda>t i. pending t i m d1"]]
          d2(3) [unfolded bwd_def backward_notified [where P = "\<lambda>t i. pending t i m d2"] q(1)]
          only_queuedD(4) [OF d2(2)] by blast
      ultimately show ?thesis using ok1 ok2 only_queued_trans [OF d1(2) d2(2)] unfolding ok by blast
    qed
  qed
qed

lemma archive_unfold:
  "row_at m_id m (models_tab d) = Some row \<Longrightarrow> reason \<in> set ARCHIVE_REASONS \<Longrightarrow>
   archive_model m reason d =
    bind_tx (\<lambda>d. dispatch_archive es_on_source me_target m reason
        (traverse_forward m (map fst EDGE_REGISTRY) (m_tenant row) ''active'' d) d)
    (\<lambda>n. bind_tx (\<lambda>d. dispatch_archive es_on_target me_source m reason
        (traverse_backward m (map fst EDGE_REGISTRY) (m_tenant row) ''active'' d) d)
    (\<lambda>k. bind_tx (finish_archive m (m_tenant row) reason)
        (\<lambda>(dependents, inerted). return_tx (dependents, n + k, inerted))))
    (d\<lparr>models_tab := row_update m_id m (archive_model_row (edge_now d) reason) (models_tab d)\<rparr>)"
  by (simp add: archive_model_def Let_def)

lemma archived_tab_ids: "m_id ` set (row_update m_id m (archive_model_row now reason) ms) = m_id ` set ms"
proof -
  have "map m_id (row_update m_id m (archive_model_row now reason) ms) = map m_id ms"
    by (rule row_update_keys) (simp add: archive_model_row_def)
  then show ?thesis by (metis list.set_map)
qed

lemma archive_run:
  fixes d
  assumes row: "row_at m_id m (models_tab d) = Some row" and reason: "reason \<in> set ARCHIVE_REASONS"
  defines "tn \<equiv> m_tenant row"
  shows "((\<forall>i \<in> notified m tn d. queueable tn i m d) \<longrightarrow> (\<exists>r d'. archive_model m reason d = (Inr r, d') \<and>
      models_tab d' = row_update m_id m (archive_model_row (edge_now d) reason) (models_tab d) \<and>
      model_edges d' = map (\<lambda>e. if touches m tn e then inert_row (edge_now d) ''endpoint_archived'' e else e)
        (model_edges d) \<and>
      (\<forall>i \<in> notified m tn d. pending tn i m d') \<and>
      (\<forall>i \<in> set (array_dependents m (d\<lparr>models_tab := models_tab d'\<rparr>)). pending tn i m d'))) \<and>
    (\<not> (\<forall>i \<in> notified m tn d. queueable tn i m d) \<longrightarrow>
      fst (archive_model m reason d) = Inl (ForeignKeyViolationError ''model_reeval_queue_model_id_fkey''))"
proof -
  let ?d1 = "d\<lparr>models_tab := row_update m_id m (archive_model_row (edge_now d) reason) (models_tab d)\<rparr>"
  let ?f = "\<lambda>n k. bind_tx (finish_archive m tn reason)
    (\<lambda>(dependents, inerted). return_tx (dependents, n + k, inerted))"
  have m: "m \<in> m_id ` set (models_tab ?d1)"
    using row_at_Some [OF row] by (auto simp: archived_tab_ids)
  have same: "notified m tn ?d1 = notified m tn d" "queueable tn i m ?d1 = queueable tn i m d" for i
    by (simp_all add: notified_def queueable_def pending_def archived_tab_ids)
  note both = dispatches_run [OF m, where tn = tn and reason = reason and f = ?f,
      unfolded same archive_unfold [OF row reason, folded tn_def, symmetric]]
  show ?thesis
  proof (cases "\<forall>i \<in> notified m tn d. queueable tn i m d")
    case False
    with both show ?thesis by blast
  next
    case True
    then obtain n k d3 where run: "archive_model m reason d = ?f n k d3" and q: "only_queued ?d1 d3"
      and pend: "\<forall>i \<in> notified m tn d. pending tn i m d3"
      using both by blast
    have "m \<in> m_id ` set (models_tab d3)" using m by (simp only: only_queuedD [OF q])
    from finish_archive_runs [OF this, of tn reason] obtain r d' where
      fin: "finish_archive m tn reason d3 = (Inr r, d')" and eff: "models_tab d' = models_tab d3"
        "model_edges d' = map (\<lambda>e. if touches m tn e then inert_row (edge_now d3) ''endpoint_archived'' e else e)
          (model_edges d3)"
        "\<forall>t i c. pending t i c d3 \<longrightarrow> pending t i c d'" "\<forall>i \<in> set (array_dependents m d3). pending tn i m d'"
      by blast
    have "\<exists>r. archive_model m reason d = (Inr r, d')"
      unfolding run by (simp add: bind_tx_def fin return_tx_def case_prod_beta)
    moreover have "models_tab d' = row_update m_id m (archive_model_row (edge_now d) reason) (models_tab d)"
      by (simp add: eff(1) only_queuedD [OF q])
    moreover have "model_edges d' = map (\<lambda>e. if touches m tn e then inert_row (edge_now d) ''endpoint_archived'' e else e)
        (model_edges d)"
    proof -
      have "model_edges d3 = model_edges d" "edge_now d3 = edge_now d" using only_queuedD [OF q] by simp_all
      then show ?thesis unfolding eff(2) by (simp only:)
    qed
    moreover have "\<forall>i \<in> notified m tn d. pending tn i m d'" using pend eff(3) by blast
    moreover have "array_dependents m (d\<lparr>models_tab := models_tab d'\<rparr>) = array_dependents m d3"
      by (simp add: array_dependents_def eff(1))
    then have "\<forall>i \<in> set (array_dependents m (d\<lparr>models_tab := models_tab d'\<rparr>)). pending tn i m d'"
      using eff(4) by simp
    ultimately show ?thesis using True by blast
  qed
qed

lemma archive_steps:
  assumes "archive_model m reason d = (Inr r, d')"
  shows "edge_step\<^sup>*\<^sup>* d d'"
proof -
  have keep: "model_edges d2 = model_edges d1" if "dispatch_archive cb other m reason es d1 = (Inr n, d2)"
    for cb other es d1 n d2
    using that
  proof (induction es arbitrary: d1 n)
    case Nil
    then show ?case by (simp add: return_tx_def)
  next
    case (Cons e es)
    have "model_edges y = model_edges x" if "run_callback c m i e reason x = (u, y)" for c i x u y
      using that by (auto simp: run_callback_def enqueue_reeval_def draw_uuid_def Let_def split: if_splits)
    with Cons show ?case by (fastforce simp: tx_simps split: sum.splits option.splits)
  qed
  from assms obtain row where row: "row_at m_id m (models_tab d) = Some row" and reason: "reason \<in> set ARCHIVE_REASONS"
    by (auto simp: archive_model_def split: option.splits if_splits)
  from assms obtain d3 s where d3: "model_edges d3 = model_edges d"
    and fin: "finish_archive m (m_tenant row) reason d3 = (Inr s, d')"
    unfolding archive_unfold [OF row reason] by (auto simp: tx_simps dest!: keep split: prod.splits)
  from finish_archive_Inr [OF fin] obtain d4 where d4: "model_edges d4 = model_edges d3"
    "d' = snd (mark_inert m (m_tenant row) ''endpoint_archived'' d4)" by blast
  have "edge_step d d4" by (rule es_elsewhere) (simp add: d4 d3)
  moreover have "edge_step d4 d'" unfolding d4(2) by (rule es_inert) (rule prod.collapse [symmetric])
  ultimately show ?thesis by (meson r_into_rtranclp rtranclp.rtrancl_into_rtrancl)
qed

end
