(* ===== verification/EdgeProperties.thy ===== *)
theory EdgeProperties
  imports EdgeGraph
begin

text \<open>
  The properties of the belief graph of theories \<open>EdgeStore\<close> and \<open>EdgeGraph\<close>. The steps include
  \<open>_set_model_relations\<close> and \<open>archive\<close>, which are sequences of them (\<open>set_model_relations_steps\<close>,
  \<open>archive_steps\<close>).
\<close>

section \<open>Invariants of the graph\<close>

text \<open>
  C12: the three cycle scopes that are built in, namely \<open>supports\<close> with \<open>instance_of\<close>,
  \<open>contributes_to_resolution\<close>, and \<open>superseded_by\<close>: whatever edges are linked, unlinked, retired
  or made inert, and whatever kinds are accepted meanwhile, the active edges of a tenant whose kind
  is in one of these scopes never form a cycle. Edges of kinds that were accepted from proposals
  are not counted, even if their base is in the scope: with them a cycle can arise
  (\<open>proposed_kinds_close_cycles\<close>).
\<close>

theorem belief_graph_acyclic:
  assumes "edge_step\<^sup>*\<^sup>* d0 d" and "model_edges d0 = []"
    and "S \<in> {{''supports'', ''instance_of''}, {''contributes_to_resolution''}, {''superseded_by''}}"
  shows "acyclic {(me_source e, me_target e) | e. e \<in> set (model_edges d) \<and> me_tenant e = tn \<and>
    me_kind e \<in> S \<and> me_status e = ''active''}"
proof -
  have "{{''supports'', ''instance_of''}, {''contributes_to_resolution''}, {''superseded_by''}} = set ` set DAG_SCOPES"
    by (simp add: DAG_SCOPES_def)
  with assms(3) obtain T where T: "T \<in> set DAG_SCOPES" "S = set T" by (simp only: image_iff) blast
  have "dag_inv d" using reached_edges_inv [OF assms(1,2)] by blast
  with T(1) have "acyclic (set (scope_edges d tn T))" by (simp add: dag_inv_def)
  then show ?thesis unfolding set_scope_edges T(2) .
qed

text \<open>
  C13: an edge whose kind is one of the symmetric kinds of the registry always has its mirror: a row
  with the ends exchanged that agrees with it in every other column, status, weight, evidence and
  review included. This is about the built-in kinds; the directionality of an accepted kind can
  still change when candidates are aggregated again, which leaves older edges without a mirror.
\<close>

theorem symmetric_edges_mirrored:
  assumes "edge_step\<^sup>*\<^sup>* d0 d" and "model_edges d0 = []" and "e \<in> set (model_edges d)"
    and "map_of EDGE_REGISTRY (me_kind e) = Some spec" and "\<not> es_directed spec"
  shows "\<exists>e' \<in> set (model_edges d). e' = e\<lparr>me_id := me_id e', me_source := me_target e, me_target := me_source e\<rparr>"
proof -
  have inv: "keys_inv d" "mirror_inv d" using reached_edges_inv [OF assms(1,2)] by blast+
  have "symmetric_kind (me_kind e)" using assms(4,5) by (simp add: symmetric_kind_def)
  from mirror_invD [OF inv(2) this] row_edge_at [OF inv(1) assms(3)]
  obtain e' where "edge_at d (me_tenant e) (me_target e) (me_source e) (me_kind e) = Some e'" "mirrored e e'"
    by (metis option_rel_Some1)
  then show ?thesis using edge_at_row unfolding mirrored_def by blast
qed

text \<open>
  C14: no pair of models ever has two active, unrejected edges in the same direction of kinds that
  exclude each other.
\<close>

theorem exclusive_edges_apart:
  assumes "edge_step\<^sup>*\<^sup>* d0 d" and "model_edges d0 = []"
    and "e \<in> set (model_edges d)" "me_status e = ''active''" "me_review e \<noteq> ''rejected''"
    and "e' \<in> set (model_edges d)" "me_status e' = ''active''" "me_review e' \<noteq> ''rejected''"
    and "(me_tenant e', me_source e', me_target e') = (me_tenant e, me_source e, me_target e)"
  shows "(me_kind e, me_kind e') \<notin> {(''supports'', ''contradicts''), (''supports'', ''weakens''),
    (''enables'', ''contradicts''), (''enables'', ''weakens''), (''enables'', ''blocks'')}"
proof
  assume k: "(me_kind e, me_kind e') \<in> {(''supports'', ''contradicts''), (''supports'', ''weakens''),
    (''enables'', ''contradicts''), (''enables'', ''weakens''), (''enables'', ''blocks'')}"
  have "list_all (\<lambda>(k, l). exclude_each_other k l) [(''supports'', ''contradicts''), (''supports'', ''weakens''),
    (''enables'', ''contradicts''), (''enables'', ''weakens''), (''enables'', ''blocks'')]" by code_simp
  with k have "exclude_each_other (me_kind e) (me_kind e')" by auto
  moreover have "keys_inv d" "exclusive_inv d" using reached_edges_inv [OF assms(1,2)] by blast+
  moreover from row_edge_at [OF this(1) assms(3)] row_edge_at [OF this(1) assms(6)] assms(4,5,7-9)
  have "visible d (me_tenant e) (me_source e) (me_target e) (me_kind e)"
    "visible d (me_tenant e) (me_source e) (me_target e) (me_kind e')"
    by (simp_all add: visible_def)
  ultimately show False unfolding exclusive_inv_def by blast
qed

section \<open>Synchronising the relations of a model\<close>

definition status_at :: "edge_db \<Rightarrow> uuid \<Rightarrow> uuid \<Rightarrow> uuid \<Rightarrow> string \<Rightarrow> string option" where
  "status_at d tn a b k = map_option me_status (edge_at d tn a b k)"

lemma link_status:
  assumes "link (link_defaults a b k tn by ev) d = (Inr ids, d')"
    and "map_of EDGE_REGISTRY k = Some spec" and "es_directed spec"
  shows "status_at d' tn x y l = (if (x, y, l) = (a, b, k) \<and> status_at d tn a b k = None
    then Some ''active'' else status_at d tn x y l)"
  using assms(1)
proof (rule link_Inr)
  fix spec'
  assume r: "resolve_edge_kind_spec (ontology_tab d) (la_tenant (link_defaults a b k tn by ev))
      (la_kind (link_defaults a b k tn by ev)) = Inr spec'"
    and d': "d' = (if es_directed spec' then snd (insert_one (link_defaults a b k tn by ev) d)
      else snd (insert_one (swap_ends (link_defaults a b k tn by ev)) (snd (insert_one (link_defaults a b k tn by ev) d))))"
  from r have "spec' = spec" by (simp add: link_defaults_def resolve_static [OF assms(2)])
  then have "d' = snd (insert_one (link_defaults a b k tn by ev) d)" using d' assms(3) by simp
  then show ?thesis
    by (auto simp: status_at_def insert_one_at link_defaults_def split: option.splits)
qed

lemma unlink_status:
  assumes "unlink_edge a b k tn d = (Inr n, d')" and keys: "keys_inv d"
    and "map_of EDGE_REGISTRY k = Some spec" and "es_directed spec"
  shows "status_at d' tn x y l = (if (x, y, l) = (a, b, k) then None else status_at d tn x y l)"
  using assms(1)
proof (rule unlink_Inr)
  fix spec'
  assume r: "resolve_edge_kind_spec (ontology_tab d) tn k = Inr spec'"
    and d': "d' = d\<lparr>model_edges := filter (\<lambda>e. \<not> edge_rows spec' a b k tn e) (model_edges d)\<rparr>"
  from r have "spec' = spec" by (simp add: resolve_static [OF assms(3)])
  then show ?thesis
    using edge_at_row [of d tn x y l] assms(4) unfolding d' status_at_def edge_at_filter [OF keys]
    by (auto simp: edge_rows_def split: option.splits)
qed

lemma link_all_status:
  assumes "link_all (map (\<lambda>a. link_defaults (f a) (g a) k tn by ev) xs) d = (Inr u, d')"
    and "map_of EDGE_REGISTRY k = Some spec" and "es_directed spec"
  shows "status_at d' tn x y k = (if (x, y) \<in> (\<lambda>a. (f a, g a)) ` set xs \<and> status_at d tn x y k = None
    then Some ''active'' else status_at d tn x y k)"
  using assms(1)
proof (induction xs arbitrary: d)
  case Nil
  then show ?case by (simp add: link_all_def tx_simps)
next
  case (Cons a xs)
  then obtain ids d1 where 1: "link (link_defaults (f a) (g a) k tn by ev) d = (Inr ids, d1)"
    and 2: "link_all (map (\<lambda>a. link_defaults (f a) (g a) k tn by ev) xs) d1 = (Inr u, d')"
    by (auto simp: link_all_def tx_simps)
  from Cons.IH [OF 2] link_status [OF 1 assms(2,3)] show ?case by auto
qed

lemma unlink_all_status:
  assumes "unlink_all ps k tn d = (Inr u, d')" and "keys_inv d"
    and "map_of EDGE_REGISTRY k = Some spec" and "es_directed spec"
  shows "status_at d' tn x y k = (if (x, y) \<in> set ps then None else status_at d tn x y k)"
  using assms(1,2)
proof (induction ps arbitrary: d)
  case Nil
  then show ?case by (simp add: unlink_all_def tx_simps)
next
  case (Cons p ps)
  obtain a b where p: "p = (a, b)" by (cases p)
  from Cons.prems obtain n d1 where 1: "unlink_edge a b k tn d = (Inr n, d1)"
    and 2: "unlink_all ps k tn d1 = (Inr u, d')"
    by (auto simp: unlink_all_def tx_simps p)
  have "keys_inv d1" using edge_step_keys [OF es_unlink [OF 1]] Cons.prems(2) .
  from Cons.IH [OF 2 this] unlink_status [OF 1 Cons.prems(2) assms(3,4)] show ?case by (auto simp: p)
qed

lemma traverse_status:
  assumes "keys_inv d"
  shows "me_source ` set (traverse_backward m [k] tn s d) = {x. status_at d tn x m k = Some s}"
    and "me_target ` set (traverse_forward m [k] tn s d) = {x. status_at d tn m x k = Some s}"
proof -
  have row: "edge_at d tn a b k = Some e \<longleftrightarrow>
      e \<in> set (model_edges d) \<and> me_tenant e = tn \<and> me_source e = a \<and> me_target e = b \<and> me_kind e = k" for a b e
    using row_edge_at [OF assms, of e] edge_at_row [of d tn a b k e] by blast
  have "e \<in> set (traverse_backward m [k] tn s d) \<and> me_source e = x \<longleftrightarrow>
      edge_at d tn x m k = Some e \<and> me_status e = s" for e x
    unfolding row traverse_backward_def by auto
  then show "me_source ` set (traverse_backward m [k] tn s d) = {x. status_at d tn x m k = Some s}"
    unfolding status_at_def by (simp add: set_eq_iff image_iff) metis
  have "e \<in> set (traverse_forward m [k] tn s d) \<and> me_target e = x \<longleftrightarrow>
      edge_at d tn m x k = Some e \<and> me_status e = s" for e x
    unfolding row traverse_forward_def by auto
  then show "me_target ` set (traverse_forward m [k] tn s d) = {x. status_at d tn m x k = Some s}"
    unfolding status_at_def by (simp add: set_eq_iff image_iff) metis
qed

text \<open>
  synchronising the incoming edges of a directed kind converges: if it returns and no desired
  edge is stored as inert, the active sources are exactly the desired ones, whatever the order in
  which Python iterates over the sets.
\<close>

theorem sync_incoming_converges:
  assumes "edge_step\<^sup>*\<^sup>* d0 d" and "model_edges d0 = []"
    and "\<And>S. finite S \<Longrightarrow> set (order S) = S"
    and "map_of EDGE_REGISTRY k = Some spec" and "es_directed spec"
    and "\<forall>e \<in> set (model_edges d). me_tenant e = tn \<and> me_target e = m \<and> me_kind e = k \<and>
      me_source e \<in> set new_sources \<longrightarrow> me_status e = ''active''"
    and "sync_incoming_kind order k m tn new_sources by ev d = (Inr u, d')"
  shows "me_source ` set (traverse_backward m [k] tn ''active'' d') = set new_sources"
proof -
  have keys: "keys_inv d" using reached_edges_inv [OF assms(1,2)] by blast
  let ?old = "{x. status_at d tn x m k = Some ''active''}"
  have old: "me_source ` set (traverse_backward m [k] tn ''active'' d) = ?old"
    by (rule traverse_status(1) [OF keys])
  then have fin: "finite ?old" by (metis finite_imageI finite_set)
  from assms(7) obtain d1 where
    1: "link_all (map (\<lambda>s. link_defaults s m k tn by ev) (order (set new_sources - ?old))) d = (Inr (), d1)"
    and 2: "unlink_all (map (\<lambda>s. (s, m)) (order (?old - set new_sources))) k tn d1 = (Inr u, d')"
    by (auto simp: sync_incoming_kind_def Let_def tx_simps old)
  have keys1: "keys_inv d1"
    using reached_edges_inv [of d0 d1] link_all_steps [OF 1] assms(1,2) by (meson rtranclp_trans)
  have "edge_step\<^sup>*\<^sup>* d0 d'"
    using assms(1) link_all_steps [OF 1] unlink_all_steps [OF 2] by (meson rtranclp_trans)
  with assms(2) have keys': "keys_inv d'" using reached_edges_inv by blast
  have add: "set (order (set new_sources - ?old)) = set new_sources - ?old" by (rule assms(3)) simp
  have rem: "set (order (?old - set new_sources)) = ?old - set new_sources" by (rule assms(3)) (simp add: fin)
  have st: "status_at d x' y z w \<noteq> Some s" if "x' = tn" "z = m" "w = k" "y \<in> set new_sources" "s \<noteq> ''active''"
    for x' y z w s
    using assms(6) edge_at_row [of d tn y m k] that by (auto simp: status_at_def)
  have s1: "status_at d1 tn x m k = (if x \<in> set new_sources - ?old \<and> status_at d tn x m k = None
      then Some ''active'' else status_at d tn x m k)" for x
    using link_all_status [where f = "\<lambda>s. s" and g = "\<lambda>_. m", OF 1 assms(4,5), of x m] add by auto
  have s2: "status_at d' tn x m k = (if x \<in> ?old - set new_sources then None else status_at d1 tn x m k)" for x
    using unlink_all_status [OF 2 keys1 assms(4,5), of x m] rem by auto
  have "status_at d' tn x m k = Some ''active'' \<longleftrightarrow> x \<in> set new_sources" for x
    unfolding s2 s1 using st [of tn m k x] by (cases "status_at d tn x m k") auto
  then show ?thesis unfolding traverse_status(1) [OF keys'] by blast
qed

text \<open>
  Without the hypothesis on inert edges it does not converge: linking a stored inert edge returns
  its id and confirms it, but \<open>ON CONFLICT DO UPDATE\<close> leaves its status alone, so the edge stays
  invisible to every reader of active edges.
\<close>

theorem relink_keeps_inert:
  assumes "link (link_defaults a b k tn by ev) d = (Inr ids, d')"
    and "map_of EDGE_REGISTRY k = Some spec" and "es_directed spec"
    and "status_at d tn a b k = Some ''inert''"
  shows "status_at d' tn a b k = Some ''inert''"
  using link_status [OF assms(1-3)] assms(4) by simp

section \<open>Archiving a model\<close>

text \<open>
  C15: \<open>archive\<close> of a stored model returns exactly when the reason is one the table allows and
  every model it has to queue (the other end of each active edge of the tenant whose kind has a
  callback in that direction) is stored or has its re-evaluation pending already; otherwise it
  raises. When it returns, the row is archived, no active edge of the tenant touches the model and
  no edge has been deleted, and a re-evaluation is pending for each of those models and for every
  active model whose array still names the archived one.
\<close>

theorem archive_model_effect:
  assumes "row_at m_id m (models_tab d) = Some row"
  shows "((\<exists>r d'. archive_model m reason d = (Inr r, d')) \<longleftrightarrow> reason \<in> set ARCHIVE_REASONS \<and>
      (\<forall>e \<in> set (model_edges d). \<forall>spec. me_tenant e = m_tenant row \<and> me_status e = ''active'' \<and>
        map_of EDGE_REGISTRY (me_kind e) = Some spec \<longrightarrow>
        (me_source e = m \<and> es_on_source spec \<noteq> None \<longrightarrow> me_target e \<in> m_id ` set (models_tab d) \<or>
           pending (m_tenant row) (me_target e) m d) \<and>
        (me_target e = m \<and> es_on_target spec \<noteq> None \<longrightarrow> me_source e \<in> m_id ` set (models_tab d) \<or>
           pending (m_tenant row) (me_source e) m d))) \<and>
    (\<forall>r d'. archive_model m reason d = (Inr r, d') \<longrightarrow>
      map_option m_status (row_at m_id m (models_tab d')) = Some ''archived'' \<and>
      map edge_key (model_edges d') = map edge_key (model_edges d) \<and>
      (\<forall>e \<in> set (model_edges d'). me_tenant e = m_tenant row \<and> me_status e = ''active'' \<longrightarrow>
        me_source e \<noteq> m \<and> me_target e \<noteq> m) \<and>
      (\<forall>e \<in> set (model_edges d). \<forall>spec. me_tenant e = m_tenant row \<and> me_status e = ''active'' \<and>
        map_of EDGE_REGISTRY (me_kind e) = Some spec \<longrightarrow>
        (me_source e = m \<and> es_on_source spec \<noteq> None \<longrightarrow> pending (m_tenant row) (me_target e) m d') \<and>
        (me_target e = m \<and> es_on_target spec \<noteq> None \<longrightarrow> pending (m_tenant row) (me_source e) m d')) \<and>
      (\<forall>x \<in> set (models_tab d). m_id x \<noteq> m \<and> m \<in> set (m_supporting x) \<and> m_status x = ''active'' \<longrightarrow>
        pending (m_tenant row) (m_id x) m d'))"
    (is "?returns = (?legal \<and> ?stored) \<and> ?effect")
proof (cases ?legal)
  case False
  then have "archive_model m reason d = (Inl (CheckViolationError ''models_archive_reason_check''), d)"
    using assms by (simp add: archive_model_def)
  with False show ?thesis by simp
next
  case legal: True
  note run = archive_run [OF assms legal]
  have stored: "(\<forall>i \<in> notified m (m_tenant row) d. queueable (m_tenant row) i m d) \<longleftrightarrow> ?stored"
    unfolding queueable_def
    by (rule notified_iff [where P = "\<lambda>i. i \<in> m_id ` set (models_tab d) \<or> pending (m_tenant row) i m d"])
  have returns: "?returns \<longleftrightarrow> ?legal \<and> ?stored"
  proof (cases "\<forall>i \<in> notified m (m_tenant row) d. queueable (m_tenant row) i m d")
    case True
    with run have ?returns by blast
    with True legal show ?thesis unfolding stored by blast
  next
    case False
    with run have "fst (archive_model m reason d) = Inl (ForeignKeyViolationError ''model_reeval_queue_model_id_fkey'')"
      by blast
    then have "\<not> ?returns" by auto
    with False show ?thesis unfolding stored by blast
  qed
  have ?effect
  proof (intro allI impI)
    fix r d'
    assume returned: "archive_model m reason d = (Inr r, d')"
    then have "\<forall>i \<in> notified m (m_tenant row) d. queueable (m_tenant row) i m d"
      using returns stored by blast
    with run returned have tab: "models_tab d' = row_update m_id m (archive_model_row (edge_now d) reason) (models_tab d)"
      and edges: "model_edges d' = map (\<lambda>e. if touches m (m_tenant row) e
        then inert_row (edge_now d) ''endpoint_archived'' e else e) (model_edges d)"
      and pend: "\<forall>i \<in> notified m (m_tenant row) d. pending (m_tenant row) i m d'"
      and deps: "\<forall>i \<in> set (array_dependents m (d\<lparr>models_tab := models_tab d'\<rparr>)). pending (m_tenant row) i m d'"
      by auto
    have "row_at m_id m (models_tab d') = Some (archive_model_row (edge_now d) reason row)"
      using row_at_update [of m_id m "archive_model_row (edge_now d) reason" m "models_tab d"] assms
      by (simp add: tab archive_model_row_def)
    then have "map_option m_status (row_at m_id m (models_tab d')) = Some ''archived''"
      by (simp add: archive_model_row_def)
    moreover have "map edge_key (model_edges d') = map edge_key (model_edges d)"
      by (simp add: edges o_def)
    moreover have "\<forall>e \<in> set (model_edges d'). me_tenant e = m_tenant row \<and> me_status e = ''active'' \<longrightarrow>
        me_source e \<noteq> m \<and> me_target e \<noteq> m"
      by (auto simp: edges touches_def split: if_splits)
    moreover have "pending (m_tenant row) (m_id x) m d'"
      if x: "x \<in> set (models_tab d)" "m_id x \<noteq> m" "m \<in> set (m_supporting x)" "m_status x = ''active''" for x
    proof -
      have "x \<in> set (models_tab d')" using x(1,2) by (auto simp: tab in_row_update)
      with x(3,4) have "m_id x \<in> set (array_dependents m (d\<lparr>models_tab := models_tab d'\<rparr>))"
        by (auto simp: array_dependents_def)
      with deps show ?thesis by blast
    qed
    moreover note pend [unfolded notified_iff [where P = "\<lambda>i. pending (m_tenant row) i m d'"]]
    ultimately show "map_option m_status (row_at m_id m (models_tab d')) = Some ''archived'' \<and>
      map edge_key (model_edges d') = map edge_key (model_edges d) \<and>
      (\<forall>e \<in> set (model_edges d'). me_tenant e = m_tenant row \<and> me_status e = ''active'' \<longrightarrow>
        me_source e \<noteq> m \<and> me_target e \<noteq> m) \<and>
      (\<forall>e \<in> set (model_edges d). \<forall>spec. me_tenant e = m_tenant row \<and> me_status e = ''active'' \<and>
        map_of EDGE_REGISTRY (me_kind e) = Some spec \<longrightarrow>
        (me_source e = m \<and> es_on_source spec \<noteq> None \<longrightarrow> pending (m_tenant row) (me_target e) m d') \<and>
        (me_target e = m \<and> es_on_target spec \<noteq> None \<longrightarrow> pending (m_tenant row) (me_source e) m d')) \<and>
      (\<forall>x \<in> set (models_tab d). m_id x \<noteq> m \<and> m \<in> set (m_supporting x) \<and> m_status x = ''active'' \<longrightarrow>
        pending (m_tenant row) (m_id x) m d')" by (intro conjI) blast+
  qed
  with returns show ?thesis by blast
qed

section \<open>A small graph\<close>

definition ex_model :: "uuid \<Rightarrow> uuid list \<Rightarrow> model_row" where
  "ex_model i supporters = \<lparr>m_id = i, m_tenant = 7, m_status = ''active'', m_archived_at = None,
     m_archive_reason = None, m_supporting = supporters, m_contributing = []\<rparr>"

definition ex_edge_start :: edge_db where
  "ex_edge_start = \<lparr>model_edges = [], models_tab = [ex_model 1 [], ex_model 2 [1], ex_model 3 []],
     ontology_tab = None, reeval_queue = [], edge_uuid = 100, edge_now = 5\<rparr>"

definition ex_edge_1 :: edge_db where
  "ex_edge_1 = snd (link (link_defaults 1 2 ''supports'' 7 ''manual'' None) ex_edge_start)"

definition ex_edge_2 :: edge_db where
  "ex_edge_2 = snd (link ((link_defaults 2 3 ''contradicts'' 7 ''tension_miner'' None)\<lparr>la_weight := Some (1 / 2)\<rparr>) ex_edge_1)"

lemma ex_step: "\<not> isl (fst (link a d)) \<Longrightarrow> edge_step d (snd (link a d))"
  by (cases "link a d"; cases "fst (link a d)") (auto intro: es_link)

lemma ex_edge_reached: "edge_step\<^sup>*\<^sup>* ex_edge_start ex_edge_2" "model_edges ex_edge_start = []"
proof -
  have "\<not> isl (fst (link (link_defaults 1 2 ''supports'' 7 ''manual'' None) ex_edge_start))" by code_simp
  then have 1: "edge_step ex_edge_start ex_edge_1" unfolding ex_edge_1_def by (rule ex_step)
  have "\<not> isl (fst (link ((link_defaults 2 3 ''contradicts'' 7 ''tension_miner'' None)\<lparr>la_weight := Some (1 / 2)\<rparr>) ex_edge_1))"
    by code_simp
  then have 2: "edge_step ex_edge_1 ex_edge_2" unfolding ex_edge_2_def by (rule ex_step)
  from 1 2 show "edge_step\<^sup>*\<^sup>* ex_edge_start ex_edge_2" by (meson r_into_rtranclp rtranclp.rtrancl_into_rtrancl)
  show "model_edges ex_edge_start = []" by (simp add: ex_edge_start_def)
qed

lemma ex_edge_ends: "map (\<lambda>e. (me_source e, me_target e, me_kind e, me_status e, me_review e)) (model_edges ex_edge_2) =
    [(1, 2, ''supports'', ''active'', ''accepted''), (2, 3, ''contradicts'', ''active'', ''accepted''),
     (3, 2, ''contradicts'', ''active'', ''accepted'')]"
  by code_simp

theorem belief_graph_acyclic_witness:
  "acyclic {(me_source e, me_target e) | e. e \<in> set (model_edges ex_edge_2) \<and> me_tenant e = 7 \<and>
     me_kind e \<in> {''supports'', ''instance_of''} \<and> me_status e = ''active''} \<and>
   isl (fst (link (link_defaults 2 1 ''instance_of'' 7 ''manual'' None) ex_edge_2))"
proof
  show "acyclic {(me_source e, me_target e) | e. e \<in> set (model_edges ex_edge_2) \<and> me_tenant e = 7 \<and>
     me_kind e \<in> {''supports'', ''instance_of''} \<and> me_status e = ''active''}"
    by (rule belief_graph_acyclic [OF ex_edge_reached]) simp
  show "isl (fst (link (link_defaults 2 1 ''instance_of'' 7 ''manual'' None) ex_edge_2))" by code_simp
qed

theorem symmetric_edges_mirrored_witness:
  "\<exists>e \<in> set (model_edges ex_edge_2). me_kind e = ''contradicts'' \<and>
     (\<exists>e' \<in> set (model_edges ex_edge_2). e' = e\<lparr>me_id := me_id e', me_source := me_target e, me_target := me_source e\<rparr>)"
proof -
  have "(2, 3, ''contradicts'', ''active'', ''accepted'') \<in> set (map (\<lambda>e. (me_source e, me_target e, me_kind e,
      me_status e, me_review e)) (model_edges ex_edge_2))" unfolding ex_edge_ends by simp
  then obtain e where e: "e \<in> set (model_edges ex_edge_2)" "me_kind e = ''contradicts''" by auto
  have "map_option es_directed (map_of EDGE_REGISTRY ''contradicts'') = Some False" by code_simp
  then obtain spec where "map_of EDGE_REGISTRY (me_kind e) = Some spec" "\<not> es_directed spec"
    using e(2) by auto
  from symmetric_edges_mirrored [OF ex_edge_reached e(1) this] e show ?thesis by blast
qed

theorem exclusive_edges_apart_witness:
  "\<exists>e \<in> set (model_edges ex_edge_2). (me_kind e, me_kind e) \<notin> {(''supports'', ''contradicts''),
     (''supports'', ''weakens''), (''enables'', ''contradicts''), (''enables'', ''weakens''), (''enables'', ''blocks'')}"
proof -
  have "(2, 3, ''contradicts'', ''active'', ''accepted'') \<in> set (map (\<lambda>e. (me_source e, me_target e, me_kind e,
      me_status e, me_review e)) (model_edges ex_edge_2))" unfolding ex_edge_ends by simp
  then obtain e where e: "e \<in> set (model_edges ex_edge_2)" "me_status e = ''active''" "me_review e = ''accepted''"
    by auto
  then have "me_review e \<noteq> ''rejected''" by simp
  from exclusive_edges_apart [OF ex_edge_reached e(1,2) this e(1,2) this refl] e(1) show ?thesis by blast
qed

definition ex_order :: "uuid set \<Rightarrow> uuid list" where
  "ex_order = sorted_list_of_set"

theorem sync_incoming_converges_witness:
  "\<exists>u d'. sync_incoming_kind ex_order ''supports'' 2 7 [3] ''manual'' None ex_edge_1 = (Inr u, d') \<and>
     me_source ` set (traverse_backward 2 [''supports''] 7 ''active'' d') = {3}"
proof -
  have order: "\<And>S. finite S \<Longrightarrow> set (ex_order S) = S" by (simp add: ex_order_def)
  have reached: "edge_step\<^sup>*\<^sup>* ex_edge_start ex_edge_1"
  proof -
    have "\<not> isl (fst (link (link_defaults 1 2 ''supports'' 7 ''manual'' None) ex_edge_start))" by code_simp
    then show ?thesis unfolding ex_edge_1_def by (intro r_into_rtranclp ex_step)
  qed
  have "map_option es_directed (map_of EDGE_REGISTRY ''supports'') = Some True" by code_simp
  then obtain spec where spec: "map_of EDGE_REGISTRY ''supports'' = Some spec" "es_directed spec" by auto
  have "map (\<lambda>e. (me_source e, me_status e)) (model_edges ex_edge_1) = [(1, ''active'')]" by code_simp
  then have active: "\<forall>e \<in> set (model_edges ex_edge_1). me_tenant e = 7 \<and> me_target e = 2 \<and> me_kind e = ''supports'' \<and>
      me_source e \<in> set [3] \<longrightarrow> me_status e = ''active''" by (auto simp: map_eq_Cons_conv)
  have "\<not> isl (fst (sync_incoming_kind ex_order ''supports'' 2 7 [3] ''manual'' None ex_edge_1))"
    unfolding ex_order_def by code_simp
  then obtain u d' where run: "sync_incoming_kind ex_order ''supports'' 2 7 [3] ''manual'' None ex_edge_1 = (Inr u, d')"
    by (cases "sync_incoming_kind ex_order ''supports'' 2 7 [3] ''manual'' None ex_edge_1";
        cases "fst (sync_incoming_kind ex_order ''supports'' 2 7 [3] ''manual'' None ex_edge_1)") auto
  from sync_incoming_converges [OF reached ex_edge_reached(2) order spec active run] run show ?thesis by auto
qed

theorem archive_model_effect_witness:
  "\<exists>r d'. archive_model 1 ''superseded'' ex_edge_2 = (Inr r, d') \<and> pending 7 2 1 d' \<and>
     map_option m_status (row_at m_id 1 (models_tab d')) = Some ''archived''"
proof -
  have "map_option m_tenant (row_at m_id 1 (models_tab ex_edge_2)) = Some 7" by code_simp
  then obtain row where row: "row_at m_id 1 (models_tab ex_edge_2) = Some row" "m_tenant row = 7" by auto
  note effect = archive_model_effect [OF row(1), of "''superseded''", unfolded row(2)]
  have "list_all (\<lambda>e. me_source e \<in> set (map m_id (models_tab ex_edge_2)) \<and>
    me_target e \<in> set (map m_id (models_tab ex_edge_2))) (model_edges ex_edge_2)" by code_simp
  then have ends: "\<forall>e \<in> set (model_edges ex_edge_2). me_source e \<in> m_id ` set (models_tab ex_edge_2) \<and>
    me_target e \<in> m_id ` set (models_tab ex_edge_2)" by (simp only: list_all_iff set_map)
  have "''superseded'' \<in> set ARCHIVE_REASONS" by code_simp
  with ends have "\<exists>r d'. archive_model 1 ''superseded'' ex_edge_2 = (Inr r, d')"
    unfolding effect [THEN conjunct1] by blast
  then obtain r d' where run: "archive_model 1 ''superseded'' ex_edge_2 = (Inr r, d')" by blast
  note post = effect [THEN conjunct2, rule_format, OF run]
  have "map (\<lambda>m. (m_id m, m_supporting m, m_status m)) (models_tab ex_edge_2) =
    [(1, [], ''active''), (2, [1], ''active''), (3, [], ''active'')]" by code_simp
  then have "(2, [1], ''active'') \<in> set (map (\<lambda>m. (m_id m, m_supporting m, m_status m)) (models_tab ex_edge_2))"
    by simp
  then obtain x where x: "x \<in> set (models_tab ex_edge_2)" "m_id x = 2" "m_supporting x = [1]" "m_status x = ''active''"
    by auto
  have "pending 7 (m_id x) 1 d'"
    by (rule post [THEN conjunct2, THEN conjunct2, THEN conjunct2, THEN conjunct2, rule_format, OF x(1)])
      (use x in simp)
  then have "pending 7 2 1 d'" by (simp only: x(2))
  with run post [THEN conjunct1] show ?thesis by blast
qed

text \<open>
  A link does not check its ends, so a model that was never stored can be the target of an edge;
  the re-evaluation of that target violates the foreign key of the queue, and the model at the
  source cannot be archived.
\<close>

lemma dangling_edge_blocks_archive:
  "(let d = snd (link (link_defaults 1 9 ''supports'' 7 ''manual'' None) ex_edge_start)
    in \<not> isl (fst (link (link_defaults 1 9 ''supports'' 7 ''manual'' None) ex_edge_start)) \<and>
       fst (archive_model 1 ''superseded'' d) =
         Inl (ForeignKeyViolationError ''model_reeval_queue_model_id_fkey''))"
  by code_simp

section \<open>What the graph does not promise\<close>

text \<open>
  The exclusion of \<open>blocks\<close> and \<open>supports\<close> is declared on one side only: linked in this order both
  are stored on the same pair, in the other order the second is refused.
\<close>

theorem blocks_then_supports:
  "\<not> isl (fst (link (link_defaults 1 3 ''supports'' 7 ''manual'' None)
     (snd (link (link_defaults 1 3 ''blocks'' 7 ''manual'' None) ex_edge_start)))) \<and>
   isl (fst (link (link_defaults 1 3 ''blocks'' 7 ''manual'' None)
     (snd (link (link_defaults 1 3 ''supports'' 7 ''manual'' None) ex_edge_start))))"
  by code_simp

text \<open>
  A kind from an accepted proposal joins the cycle scope of its base only in its own checks: after
  the kind ''backs'' (base supports) from 1 to 2, a supports edge from 2 to 1 is accepted, and the
  scope of ''backs'' has a cycle. A symmetric proposal with such a base stores both directions, a
  cycle by itself.
\<close>

definition ex_ontology :: "string \<Rightarrow> edge_db" where
  "ex_ontology directionality = ex_edge_start\<lparr>ontology_tab := Some [\<lparr>op_tenant = 7, op_kind = ''backs'',
     op_status = ''accepted'', op_parent = None, op_nearest = None, op_fallback = Some ''supports'',
     op_directionality = directionality\<rparr>]\<rparr>"

theorem proposed_kinds_close_cycles:
  "map (\<lambda>e. (me_source e, me_target e, me_kind e))
     (model_edges (snd (link (link_defaults 2 1 ''supports'' 7 ''manual'' None)
       (snd (link (link_defaults 1 2 ''backs'' 7 ''manual'' None) (ex_ontology ''directed'')))))) =
     [(1, 2, ''backs''), (2, 1, ''supports'')] \<and>
   map (\<lambda>e. (me_source e, me_target e, me_kind e))
     (model_edges (snd (link (link_defaults 1 2 ''backs'' 7 ''manual'' None) (ex_ontology ''symmetric'')))) =
     [(1, 2, ''backs''), (2, 1, ''backs'')] \<and>
   (case resolve_edge_kind_spec (ontology_tab (ex_ontology ''directed'')) 7 ''backs'' of
      Inr spec \<Rightarrow> es_scope spec = Some [''backs'', ''supports'', ''instance_of''] | Inl _ \<Rightarrow> False)"
  by code_simp

end
