(* ===== verification/Access.thy ===== *)
theory Access
  imports Store Ledger
begin

text \<open>
  \<open>services/platform/access_control\<close>: role grants (\<open>roles.py\<close>), the chain of managers and the
  channels (\<open>hierarchy.py\<close>), the materialized views of who sees what (\<open>materialized.py\<close> with
  their queries in \<open>db/migrations/0014_access_control.sql\<close>), the check \<open>can_read\<close> with its five
  layers (\<open>checks.py\<close>), and the audited entry points (\<open>audit.py\<close>, \<open>middleware.py\<close>). The JSON
  columns hold decoded values; a value that \<open>UUID()\<close> accepts is a \<open>JUuid\<close>.
\<close>

section \<open>The tables\<close>

record role_row =
  ro_tenant :: uuid
  ro_actor :: uuid
  ro_entity_type :: string
  ro_entity :: "uuid option"
  ro_role :: string
  ro_granted_by :: "uuid option"
  ro_granted_at :: time
  ro_revoked_at :: "time option"

record identity_row =
  im_actor :: uuid
  im_channel :: string
  im_ref :: string

record model_scope_row =
  ms_id :: uuid
  ms_tenant :: uuid
  ms_status :: string
  ms_visible :: bool
  ms_scope_actors :: "uuid list"
  ms_scope_entities :: json

record override_row =
  ov_id :: uuid
  ov_tenant :: uuid
  ov_actor :: uuid
  ov_entity_type :: string
  ov_entity :: "uuid option"
  ov_kind :: string
  ov_reason :: "string option"
  ov_occurred_at :: time

text \<open>
  The database of theory \<open>Store\<close> with the tables of this service. \<open>actor_metadata\<close> is the JSONB
  column \<open>actors.metadata\<close>, \<open>source_refs\<close> the column \<open>observations.source_actor_ref\<close>. A
  materialized view is \<open>None\<close> until its first refresh; a row of it is an actor, the entity it
  sees and the tenant. \<open>dirty_set\<close> is the set of the process.
\<close>

record access_db = db +
  actor_metadata :: "uuid \<Rightarrow> dict"
  source_refs :: "uuid \<Rightarrow> string option"
  actor_roles :: "role_row list"
  shared_channels :: "(uuid \<times> string \<times> string) list"
  identity_mappings :: "identity_row list"
  model_scopes :: "model_scope_row list"
  visible_commitments :: "(uuid \<times> uuid \<times> uuid) list option"
  visible_goals :: "(uuid \<times> uuid \<times> uuid) list option"
  visible_models :: "(uuid \<times> uuid \<times> uuid) list option"
  dirty_set :: "string set"
  override_log :: "override_row list"

definition actor_tenant :: "uuid \<Rightarrow> access_db \<Rightarrow> uuid option" where
  "actor_tenant actor_id d = map_option a_tenant (row_at a_id actor_id (actors d))"

section \<open>Role grants\<close>

definition LEGAL_ENTITY_TYPES :: "string list" where
  "LEGAL_ENTITY_TYPES = [''goal'', ''commitment'', ''decision'', ''resource'', ''tenant'']"

definition LEGAL_ROLES :: "string list" where
  "LEGAL_ROLES = [''owner'', ''contributor'', ''viewer'', ''admin'', ''finance'', ''legal'', ''leadership'']"

definition validate_role :: "string \<Rightarrow> string \<Rightarrow> uuid option \<Rightarrow> err option" where
  "validate_role entity_type role entity_id =
    then_check (fails (entity_type \<notin> set LEGAL_ENTITY_TYPES)
      (ValidationError (''invalid entity_type '' @ py_repr entity_type)))
    (then_check (fails (role \<notin> set LEGAL_ROLES) (ValidationError (''invalid role '' @ py_repr role)))
    (then_check (fails (entity_type = ''tenant'' \<and> entity_id \<noteq> None)
      (ValidationError ''tenant-scoped role must have entity_id=None''))
    (fails (entity_type \<noteq> ''tenant'' \<and> entity_id = None)
      (ValidationError ''entity-scoped role must have a non-null entity_id''))))"

text \<open>The columns of the constraint \<open>actor_roles_dedup\<close>, in which NULLs are not distinct.\<close>

definition role_key :: "role_row \<Rightarrow> uuid \<times> uuid \<times> string \<times> uuid option \<times> string \<times> time option" where
  "role_key r = (ro_tenant r, ro_actor r, ro_entity_type r, ro_entity r, ro_role r, ro_revoked_at r)"

definition grant_role ::
  "uuid \<Rightarrow> string \<Rightarrow> uuid option \<Rightarrow> string \<Rightarrow> uuid option \<Rightarrow> uuid \<Rightarrow> (access_db, unit) tx" where
  "grant_role actor_id entity_type entity_id role granted_by tenant_id =
    bind_tx (check_tx (\<lambda>_. validate_role entity_type role entity_id)) (\<lambda>_ d.
      let r = \<lparr>ro_tenant = tenant_id, ro_actor = actor_id, ro_entity_type = entity_type, ro_entity = entity_id,
            ro_role = role, ro_granted_by = granted_by, ro_granted_at = db_now d, ro_revoked_at = None\<rparr>
      in if role_key r \<in> role_key ` set (actor_roles d) then (Inr (), d)
         else if row_at a_id actor_id (actors d) = None \<or>
             (case granted_by of None \<Rightarrow> False | Some g \<Rightarrow> row_at a_id g (actors d) = None)
         then (Inl (ForeignKeyViolationError ''actor_roles''), d)
         else (Inr (), d\<lparr>actor_roles := actor_roles d @ [r]\<rparr>))"

text \<open>The rows the \<open>UPDATE\<close> selects; both spellings of it compare \<open>entity_id\<close> the same way.\<close>

definition active_grant :: "uuid \<Rightarrow> string \<Rightarrow> uuid option \<Rightarrow> string \<Rightarrow> uuid \<Rightarrow> role_row \<Rightarrow> bool" where
  "active_grant actor_id entity_type entity_id role tenant_id r \<longleftrightarrow>
    role_key r = (tenant_id, actor_id, entity_type, entity_id, role, None)"

definition revoke_role :: "uuid \<Rightarrow> string \<Rightarrow> uuid option \<Rightarrow> string \<Rightarrow> uuid \<Rightarrow> (access_db, bool) tx" where
  "revoke_role actor_id entity_type entity_id role tenant_id =
    bind_tx (check_tx (\<lambda>_. validate_role entity_type role entity_id)) (\<lambda>_ d.
      let hit = active_grant actor_id entity_type entity_id role tenant_id;
          rows = map (\<lambda>r. if hit r then r\<lparr>ro_revoked_at := Some (db_now d)\<rparr> else r) (actor_roles d)
      in if list_ex hit (actor_roles d) then
           if (tenant_id, actor_id, entity_type, entity_id, role, Some (db_now d)) \<in> role_key ` set (actor_roles d)
           then (Inl (UniqueViolationError ''actor_roles_dedup''), d)
           else (Inr True, d\<lparr>actor_roles := rows\<rparr>)
         else (Inr False, d))"

definition roles_for_actor :: "uuid \<Rightarrow> uuid \<Rightarrow> access_db \<Rightarrow> role_row list" where
  "roles_for_actor actor_id tenant_id d =
    sort_key ro_granted_at (filter (\<lambda>r. ro_tenant r = tenant_id \<and> ro_actor r = actor_id \<and> ro_revoked_at r = None)
      (actor_roles d))"

text \<open>\<open>has_role\<close> without and with an entity.\<close>

definition has_role :: "uuid \<Rightarrow> string \<Rightarrow> uuid \<Rightarrow> access_db \<Rightarrow> bool" where
  "has_role actor_id role tenant_id d =
    list_ex (\<lambda>r. ro_tenant r = tenant_id \<and> ro_actor r = actor_id \<and> ro_entity_type r = ''tenant'' \<and>
      ro_role r = role \<and> ro_revoked_at r = None) (actor_roles d)"

definition has_entity_role :: "uuid \<Rightarrow> string \<Rightarrow> uuid \<Rightarrow> uuid \<Rightarrow> string option \<Rightarrow> access_db \<Rightarrow> bool result" where
  "has_entity_role actor_id role tenant_id entity_id entity_type d =
    (case entity_type of
       None \<Rightarrow> Inl (ValidationError ''has_role with entity_id requires entity_type'')
     | Some et \<Rightarrow> Inr (list_ex (\<lambda>r. ro_tenant r = tenant_id \<and> ro_actor r = actor_id \<and> ro_revoked_at r = None \<and>
         (ro_entity_type r = et \<and> ro_entity r = Some entity_id \<and> ro_role r = role
          \<or> ro_entity_type r = ''tenant'' \<and> ro_role r \<in> {''admin'', ''leadership''})) (actor_roles d)))"

text \<open>The query for \<open>viewer\<close>, \<open>contributor\<close> and \<open>owner\<close> grants that the checks share.\<close>

definition has_grant :: "uuid \<Rightarrow> uuid \<Rightarrow> string \<Rightarrow> uuid \<Rightarrow> access_db \<Rightarrow> bool" where
  "has_grant tenant_id actor_id entity_type entity_id d =
    list_ex (\<lambda>r. ro_tenant r = tenant_id \<and> ro_actor r = actor_id \<and> ro_entity_type r = entity_type \<and>
      ro_entity r = Some entity_id \<and> ro_role r \<in> {''viewer'', ''contributor'', ''owner''} \<and>
      ro_revoked_at r = None) (actor_roles d)"

section \<open>Channels and managers\<close>

definition HR_CHANNEL_PREFIXES :: "string list" where
  "HR_CHANNEL_PREFIXES = [''hr:'', ''legal:'', ''incident:'']"

definition IMPLICIT_SHARED_PREFIXES :: "string list" where
  "IMPLICIT_SHARED_PREFIXES = [''internal:'', ''system:'']"

definition starts_with :: "string \<Rightarrow> string \<Rightarrow> bool" where
  "starts_with p s \<longleftrightarrow> take (length p) s = p"

definition is_implicit_shared :: "string \<Rightarrow> bool" where
  "is_implicit_shared source_channel = list_ex (\<lambda>p. starts_with p source_channel) IMPLICIT_SHARED_PREFIXES"

definition is_hr_channel :: "string option \<Rightarrow> bool" where
  "is_hr_channel source_channel =
    (case source_channel of None \<Rightarrow> False
     | Some c \<Rightarrow> c \<noteq> [] \<and> list_ex (\<lambda>p. starts_with p c) HR_CHANNEL_PREFIXES)"

text \<open>\<open>(metadata->>'manager_id')::UUID\<close>, a cast that fails on text that is not a UUID.\<close>

definition manager_of :: "uuid \<Rightarrow> access_db \<Rightarrow> uuid option result" where
  "manager_of actor_id d =
    (case dict_get_or (actor_metadata d actor_id) ''manager_id'' JNull of
       JNull \<Rightarrow> Inr None
     | JUuid m \<Rightarrow> Inr (Some m)
     | _ \<Rightarrow> Inl (OtherError ''InvalidTextRepresentationError''))"

definition manager_row :: "uuid \<Rightarrow> uuid \<Rightarrow> access_db \<Rightarrow> uuid option result" where
  "manager_row current tenant_id d =
    (if actor_tenant current d = Some tenant_id then manager_of current d else Inr None)"

fun chain_loop :: "nat \<Rightarrow> uuid \<Rightarrow> uuid \<Rightarrow> uuid list \<Rightarrow> uuid list \<Rightarrow> access_db \<Rightarrow> uuid list result" where
  "chain_loop 0 tenant_id current seen out d = Inr out"
| "chain_loop (Suc n) tenant_id current seen out d =
    bind_result (manager_row current tenant_id d) (\<lambda>next_mgr.
      case next_mgr of
        None \<Rightarrow> Inr out
      | Some m \<Rightarrow> if m \<in> set seen then Inr out
                 else chain_loop n tenant_id m (m # seen) (out @ [m]) d)"

definition manager_chain_of :: "uuid \<Rightarrow> uuid \<Rightarrow> nat \<Rightarrow> access_db \<Rightarrow> uuid list result" where
  "manager_chain_of actor_id tenant_id max_depth d = chain_loop max_depth tenant_id actor_id [actor_id] [] d"

definition is_in_manager_chain :: "uuid \<Rightarrow> uuid \<Rightarrow> uuid \<Rightarrow> access_db \<Rightarrow> bool result" where
  "is_in_manager_chain actor_id candidate_manager tenant_id d =
    (if actor_id = candidate_manager then Inr False
     else bind_result (manager_chain_of actor_id tenant_id 32 d) (\<lambda>chain. Inr (candidate_manager \<in> set chain)))"

definition is_shared_channel :: "string \<Rightarrow> uuid \<Rightarrow> string \<Rightarrow> access_db \<Rightarrow> bool" where
  "is_shared_channel source_channel tenant_id audience_role d =
    (if is_hr_channel (Some source_channel) then False
     else if audience_role = ''all'' \<and> is_implicit_shared source_channel then True
     else (tenant_id, source_channel, audience_role) \<in> set (shared_channels d))"

definition register_shared_channel :: "string \<Rightarrow> uuid \<Rightarrow> string \<Rightarrow> (access_db, unit) tx" where
  "register_shared_channel source_channel tenant_id audience_role =
    modify_tx (\<lambda>d. d\<lparr>shared_channels := insert_new id (tenant_id, source_channel, audience_role) (shared_channels d)\<rparr>)"

section \<open>The materialized views\<close>

primrec map_result :: "('a \<Rightarrow> 'b result) \<Rightarrow> 'a list \<Rightarrow> 'b list result" where
  "map_result f [] = Inr []"
| "map_result f (x # xs) = bind_result (f x) (\<lambda>y. bind_result (map_result f xs) (\<lambda>ys. Inr (y # ys)))"

text \<open>
  The recursive part of \<open>manager_chain\<close> for one start actor: a row climbs to its
  \<open>next_manager\<close> when that is an actor of the tenant and \<open>depth < 32\<close>; \<open>n\<close> is 32 less the depth.
  The result is \<open>current_actor\<close> of the rows with \<open>depth > 0\<close>.
\<close>

fun climb :: "nat \<Rightarrow> uuid \<Rightarrow> uuid option \<Rightarrow> access_db \<Rightarrow> uuid list result" where
  "climb 0 tenant_id next_manager d = Inr []"
| "climb (Suc n) tenant_id next_manager d =
    (case next_manager of
       None \<Rightarrow> Inr []
     | Some m \<Rightarrow> if actor_tenant m d = Some tenant_id
         then bind_result (manager_of m d) (\<lambda>next_manager.
                bind_result (climb n tenant_id next_manager d) (\<lambda>above. Inr (m # above)))
         else Inr [])"

definition active_actors :: "access_db \<Rightarrow> actor_row list" where
  "active_actors d = filter (\<lambda>a. a_status a = ''active'') (actors d)"

definition chains :: "access_db \<Rightarrow> (uuid \<times> uuid list) list result" where
  "chains d = map_result (\<lambda>a. bind_result (manager_of (a_id a) d) (\<lambda>next_manager.
      bind_result (climb 32 (a_tenant a) next_manager d) (\<lambda>above. Inr (a_id a, above)))) (active_actors d)"

definition is_contributor :: "uuid \<Rightarrow> uuid \<Rightarrow> access_db \<Rightarrow> bool" where
  "is_contributor commitment_id actor_id d =
    list_ex (\<lambda>cc. cc_commitment cc = commitment_id \<and> cc_actor cc = actor_id) (contributors d)"

definition sees_all :: "actor_row \<Rightarrow> access_db \<Rightarrow> bool" where
  "sees_all a d = (has_role (a_id a) ''admin'' (a_tenant a) d \<or> has_role (a_id a) ''leadership'' (a_tenant a) d)"

definition visible_commitments_query :: "access_db \<Rightarrow> (uuid \<times> uuid \<times> uuid) list result" where
  "visible_commitments_query d = bind_result (chains d) (\<lambda>chs. Inr (remdups
    [(a_id a, c_id c, c_tenant c). a \<leftarrow> active_actors d, c \<leftarrow> commitments d, c_tenant c = a_tenant a \<and>
      (c_owner c = Some (a_id a) \<or> is_contributor (c_id c) (a_id a) d
       \<or> list_ex (\<lambda>(start, above). c_owner c = Some start \<and> a_id a \<in> set above) chs
       \<or> sees_all a d \<or> has_grant (a_tenant a) (a_id a) ''commitment'' (c_id c) d)]))"

definition not_populated :: err where
  "not_populated = OtherError ''ObjectNotInPrerequisiteStateError''"

definition read_view :: "(uuid \<times> uuid \<times> uuid) list option \<Rightarrow> (uuid \<times> uuid \<times> uuid) list result" where
  "read_view v = (case v of None \<Rightarrow> Inl not_populated | Some rows \<Rightarrow> Inr rows)"

definition visible_goals_query :: "access_db \<Rightarrow> (uuid \<times> uuid \<times> uuid) list result" where
  "visible_goals_query d = bind_result (read_view (visible_commitments d)) (\<lambda>avc. Inr (remdups (
    [(a, g_id g, g_tenant g). (a, c, t) \<leftarrow> avc, ct \<leftarrow> contributes_to d, ct_commitment ct = c,
        g \<leftarrow> goals d, g_id g = ct_goal ct \<and> g_tenant g = t]
    @ [(a_id a, g_id g, g_tenant g). a \<leftarrow> active_actors d, g \<leftarrow> goals d, g_tenant g = a_tenant a \<and> sees_all a d]
    @ [(ro_actor r, g_id g, g_tenant g). r \<leftarrow> actor_roles d, g \<leftarrow> goals d, ro_entity r = Some (g_id g) \<and>
        g_tenant g = ro_tenant r \<and> ro_entity_type r = ''goal'' \<and>
        ro_role r \<in> {''viewer'', ''contributor'', ''owner''} \<and> ro_revoked_at r = None])))"

definition visible_models_query :: "access_db \<Rightarrow> (uuid \<times> uuid \<times> uuid) list" where
  "visible_models_query d = remdups
    [(a_id a, ms_id m, ms_tenant m). a \<leftarrow> active_actors d, m \<leftarrow> model_scopes d, ms_tenant m = a_tenant a \<and>
      ms_status m = ''active'' \<and> (ms_visible m \<or> a_id a \<in> set (ms_scope_actors m) \<or> sees_all a d)]"

definition MATERIALIZED_VIEWS :: "string list" where
  "MATERIALIZED_VIEWS = [''actor_visible_commitments'', ''actor_visible_goals'', ''actor_visible_models'']"

definition enqueue_refresh :: "string option \<Rightarrow> (access_db, unit) tx" where
  "enqueue_refresh view d =
    (case view of
       None \<Rightarrow> (Inr (), d\<lparr>dirty_set := dirty_set d \<union> set MATERIALIZED_VIEWS\<rparr>)
     | Some v \<Rightarrow> if v \<notin> set MATERIALIZED_VIEWS then (Inl (ValueError (''unknown matview '' @ py_repr v)), d)
                else (Inr (), d\<lparr>dirty_set := insert v (dirty_set d)\<rparr>))"

text \<open>
  \<open>CONCURRENTLY\<close> is about locks and does not change the contents. A statement that fails leaves
  the view as it was.
\<close>

definition refresh_one :: "string \<Rightarrow> (access_db, unit) tx" where
  "refresh_one view d =
    (let cleared = d\<lparr>dirty_set := dirty_set d - {view}\<rparr> in
     if view = ''actor_visible_commitments'' then
       (case visible_commitments_query d of
          Inl e \<Rightarrow> (Inl e, d) | Inr rows \<Rightarrow> (Inr (), cleared\<lparr>visible_commitments := Some rows\<rparr>))
     else if view = ''actor_visible_goals'' then
       (case visible_goals_query d of
          Inl e \<Rightarrow> (Inl e, d) | Inr rows \<Rightarrow> (Inr (), cleared\<lparr>visible_goals := Some rows\<rparr>))
     else if view = ''actor_visible_models'' then
       (Inr (), cleared\<lparr>visible_models := Some (visible_models_query d)\<rparr>)
     else (Inl (ValueError (''unknown matview '' @ py_repr view)), d))"

fun refresh_views :: "string list \<Rightarrow> access_db \<Rightarrow> (string \<times> bool) list \<times> access_db" where
  "refresh_views [] d = ([], d)"
| "refresh_views (v # vs) d =
    (case refresh_one v d of (r, d) \<Rightarrow>
       let (results, d) = refresh_views vs d
       in ((v, case r of Inl _ \<Rightarrow> False | Inr _ \<Rightarrow> True) # results, d))"

definition refresh_all :: "access_db \<Rightarrow> (string \<times> bool) list \<times> access_db" where
  "refresh_all d = refresh_views MATERIALIZED_VIEWS d"

definition sees_row :: "uuid \<Rightarrow> uuid \<Rightarrow> uuid \<Rightarrow> (uuid \<times> uuid \<times> uuid) list option \<Rightarrow> bool result" where
  "sees_row actor_id entity_id tenant_id view =
    bind_result (read_view view) (\<lambda>rows. Inr ((actor_id, entity_id, tenant_id) \<in> set rows))"

definition is_commitment_visible_to :: "uuid \<Rightarrow> uuid \<Rightarrow> uuid \<Rightarrow> access_db \<Rightarrow> bool result" where
  "is_commitment_visible_to actor_id commitment_id tenant_id d = sees_row actor_id commitment_id tenant_id (visible_commitments d)"

definition is_goal_visible_to :: "uuid \<Rightarrow> uuid \<Rightarrow> uuid \<Rightarrow> access_db \<Rightarrow> bool result" where
  "is_goal_visible_to actor_id goal_id tenant_id d = sees_row actor_id goal_id tenant_id (visible_goals d)"

definition is_model_visible_to :: "uuid \<Rightarrow> uuid \<Rightarrow> uuid \<Rightarrow> access_db \<Rightarrow> bool result" where
  "is_model_visible_to actor_id model_id tenant_id d = sees_row actor_id model_id tenant_id (visible_models d)"

end
