(* ===== verification/AccessChecks.thy ===== *)
theory AccessChecks
  imports Access
begin

text \<open>
  The decision part of \<open>services/platform/access_control\<close>: \<open>checks.py\<close>, the audit of overrides
  in \<open>audit.py\<close> and the decorator of \<open>middleware.py\<close>.
\<close>

section \<open>Decisions\<close>

record access_decision =
  allowed :: bool
  reason :: string
  override_applied :: bool

definition decide :: "bool \<Rightarrow> string \<Rightarrow> access_decision" where
  "decide ok r = \<lparr>allowed = ok, reason = r, override_applied = False\<rparr>"

text \<open>
  The dictionary \<open>entity\<close>, by the keys the checks read; \<open>None\<close> is a missing key or \<open>None\<close>, and
  a JSON column that is missing is \<open>JNull\<close>.
\<close>

record entity =
  en_kind :: "string option"
  en_id :: "uuid option"
  en_tenant :: "uuid option"
  en_actor :: "uuid option"
  en_channel :: "string option"
  en_mentioned :: json
  en_source_ref :: "string option"
  en_owner :: "uuid option"
  en_resource_kind :: "string option"
  en_metadata :: json
  en_visible :: bool
  en_scope_actors :: "uuid list"
  en_scope_entities :: json

definition blank_entity :: "string \<Rightarrow> uuid \<Rightarrow> uuid \<Rightarrow> entity" where
  "blank_entity kind entity_id tenant_id =
    \<lparr>en_kind = Some kind, en_id = Some entity_id, en_tenant = Some tenant_id, en_actor = None, en_channel = None,
     en_mentioned = JNull, en_source_ref = None, en_owner = None, en_resource_kind = None, en_metadata = JNull,
     en_visible = False, en_scope_actors = [], en_scope_entities = JNull\<rparr>"

definition entity_type_of :: "dict \<Rightarrow> json" where
  "entity_type_of ent = py_or (dict_get_or ent ''type'' JNull) (dict_get_or ent ''kind'' JNull)"

definition mentions :: "uuid \<Rightarrow> json \<Rightarrow> bool" where
  "mentions actor_id mentioned = list_ex (\<lambda>ent. case json_fields ent of None \<Rightarrow> False
    | Some f \<Rightarrow> entity_type_of f = JStr ''actor'' \<and> as_uuid (dict_get_or f ''id'' JNull) = Some actor_id)
    (json_items mentioned)"

text \<open>One rule of a check: the first that applies decides.\<close>

definition rule :: "bool result \<Rightarrow> string \<Rightarrow> access_decision result \<Rightarrow> access_decision result" where
  "rule c r otherwise = bind_result c (\<lambda>b. if b then Inr (decide True r) else otherwise)"

definition deny :: "string \<Rightarrow> access_decision result" where
  "deny r = Inr (decide False r)"

section \<open>The layers\<close>

text \<open>The query has no \<open>ORDER BY\<close>: the first row stands for the one PostgreSQL returns.\<close>

definition mapped_actor :: "string \<Rightarrow> uuid \<Rightarrow> access_db \<Rightarrow> uuid option" where
  "mapped_actor source_actor_ref tenant_id d =
    map_option im_actor (List.find (\<lambda>m. im_ref m = source_actor_ref \<and> actor_tenant (im_actor m) d = Some tenant_id)
      (identity_mappings d))"

definition by_source_ref :: "uuid \<Rightarrow> entity \<Rightarrow> uuid \<Rightarrow> access_db \<Rightarrow> bool" where
  "by_source_ref actor_id e tenant_id d =
    (case en_source_ref e of None \<Rightarrow> False
     | Some ref \<Rightarrow> ref \<noteq> [] \<and> mapped_actor ref tenant_id d = Some actor_id)"

definition check_observation :: "uuid \<Rightarrow> entity \<Rightarrow> uuid \<Rightarrow> access_db \<Rightarrow> access_decision result" where
  "check_observation actor_id e tenant_id d =
    (let source_channel = (case en_channel e of None \<Rightarrow> [] | Some c \<Rightarrow> c) in
     rule (Inr (en_actor e = Some actor_id)) ''observation_author''
    (rule (Inr (mentions actor_id (en_mentioned e))) ''observation_mentioned''
    (rule (Inr (by_source_ref actor_id e tenant_id d)) ''observation_source_actor_ref''
    (rule (Inr (is_shared_channel source_channel tenant_id ''all'' d)) ''observation_shared_channel''
    (rule (case en_actor e of
         None \<Rightarrow> Inr False
       | Some author \<Rightarrow> if is_hr_channel (Some source_channel) then Inr False
                        else is_in_manager_chain author actor_id tenant_id d) ''observation_manager_chain''
    (deny ''observation_out_of_scope''))))))"

definition missing_id :: "string \<Rightarrow> access_decision result" where
  "missing_id kind = Inl (ValidationError (kind @ '' entity missing id''))"

definition shares_goal :: "uuid \<Rightarrow> uuid \<Rightarrow> access_db \<Rightarrow> bool" where
  "shares_goal actor_id commitment_id d =
    list_ex (\<lambda>my_ct. is_contributor (ct_commitment my_ct) actor_id d \<and>
      list_ex (\<lambda>their_ct. ct_goal their_ct = ct_goal my_ct \<and> ct_commitment their_ct = commitment_id) (contributes_to d))
      (contributes_to d)"

definition check_commitment :: "uuid \<Rightarrow> entity \<Rightarrow> uuid \<Rightarrow> access_db \<Rightarrow> access_decision result" where
  "check_commitment actor_id e tenant_id d =
    (case en_id e of
       None \<Rightarrow> missing_id ''commitment''
     | Some commitment_id \<Rightarrow>
         rule (Inr (en_owner e = Some actor_id)) ''commitment_owner''
        (rule (Inr (is_contributor commitment_id actor_id d)) ''commitment_contributor''
        (rule (case en_owner e of None \<Rightarrow> Inr False
              | Some owner_id \<Rightarrow> is_in_manager_chain owner_id actor_id tenant_id d) ''commitment_manager_chain''
        (rule (Inr (shares_goal actor_id commitment_id d)) ''commitment_shared_goal''
        (rule (Inr (has_grant tenant_id actor_id ''commitment'' commitment_id d)) ''commitment_role_grant''
        (deny ''commitment_out_of_scope''))))))"

definition takes_part :: "uuid \<Rightarrow> commitment_row \<Rightarrow> access_db \<Rightarrow> bool" where
  "takes_part actor_id c d \<longleftrightarrow> c_owner c = Some actor_id \<or> is_contributor (c_id c) actor_id d"

text \<open>The commitments that contribute to a goal.\<close>

definition goal_commitments :: "uuid \<Rightarrow> access_db \<Rightarrow> commitment_row list" where
  "goal_commitments goal_id d =
    [c. ct \<leftarrow> contributes_to d, ct_goal ct = goal_id, c \<leftarrow> commitments d, c_id c = ct_commitment ct]"

fun any_result :: "('a \<Rightarrow> bool result) \<Rightarrow> 'a list \<Rightarrow> bool result" where
  "any_result f [] = Inr False"
| "any_result f (x # xs) = bind_result (f x) (\<lambda>b. if b then Inr True else any_result f xs)"

definition check_goal :: "uuid \<Rightarrow> entity \<Rightarrow> uuid \<Rightarrow> access_db \<Rightarrow> access_decision result" where
  "check_goal actor_id e tenant_id d =
    (case en_id e of
       None \<Rightarrow> missing_id ''goal''
     | Some goal_id \<Rightarrow>
         rule (Inr (list_ex (\<lambda>c. takes_part actor_id c d) (goal_commitments goal_id d))) ''goal_contributing_commitment''
        (rule (any_result (\<lambda>owner. is_in_manager_chain owner actor_id tenant_id d)
              (remdups (List.map_filter c_owner (goal_commitments goal_id d)))) ''goal_manager_chain''
        (rule (Inr (has_grant tenant_id actor_id ''goal'' goal_id d)) ''goal_role_grant''
        (deny ''goal_out_of_scope''))))"

definition check_decision :: "uuid \<Rightarrow> entity \<Rightarrow> uuid \<Rightarrow> access_db \<Rightarrow> access_decision result" where
  "check_decision actor_id e tenant_id d =
    (case en_id e of
       None \<Rightarrow> missing_id ''decision''
     | Some decision_id \<Rightarrow>
         rule (Inr (has_grant tenant_id actor_id ''decision'' decision_id d)) ''decision_role_grant''
        (rule (Inr (list_ex (\<lambda>(commitment, decision). decision = decision_id \<and>
              list_ex (\<lambda>c. c_id c = commitment \<and> takes_part actor_id c d) (commitments d)) (constrained_by d)))
            ''decision_via_commitment''
        (deny ''decision_out_of_scope'')))"

definition RESOURCE_KIND_ROLES :: "(string \<times> string list) list" where
  "RESOURCE_KIND_ROLES =
    [(''financial'', [''finance'', ''leadership'']), (''ip'', [''legal'', ''leadership'']),
     (''relational'', [''leadership'']), (''capacity'', [''leadership'']),
     (''infrastructure'', [''leadership'']), (''regulatory'', [''leadership'', ''legal''])]"

definition kind_roles :: "string option \<Rightarrow> string list" where
  "kind_roles kind = (case kind of None \<Rightarrow> [] | Some k \<Rightarrow>
    (case map_of RESOURCE_KIND_ROLES k of None \<Rightarrow> [] | Some rs \<Rightarrow> rs))"

definition listed :: "uuid \<Rightarrow> string \<Rightarrow> dict \<Rightarrow> bool" where
  "listed actor_id key metadata =
    list_ex (\<lambda>raw. as_uuid raw = Some actor_id) (json_items (dict_get_or metadata key JNull))"

definition deploys_to_own :: "uuid \<Rightarrow> uuid \<Rightarrow> access_db \<Rightarrow> bool" where
  "deploys_to_own actor_id resource_id d =
    list_ex (\<lambda>rd. p_resource rd = resource_id \<and> p_released_at rd = None \<and>
      list_ex (\<lambda>c. c_id c = p_commitment rd \<and> takes_part actor_id c d) (commitments d)) (deployments d)"

primrec role_rules :: "string list \<Rightarrow> uuid \<Rightarrow> uuid \<Rightarrow> access_db \<Rightarrow> access_decision result \<Rightarrow> access_decision result" where
  "role_rules [] actor_id tenant_id d otherwise = otherwise"
| "role_rules (r # rs) actor_id tenant_id d otherwise =
    rule (Inr (has_role actor_id r tenant_id d)) (''resource_role_'' @ r) (role_rules rs actor_id tenant_id d otherwise)"

definition check_resource :: "uuid \<Rightarrow> entity \<Rightarrow> uuid \<Rightarrow> access_db \<Rightarrow> access_decision result" where
  "check_resource actor_id e tenant_id d =
    (case en_id e of
       None \<Rightarrow> missing_id ''resource''
     | Some resource_id \<Rightarrow>
         let kind = en_resource_kind e;
             metadata = (case json_fields (en_metadata e) of None \<Rightarrow> [] | Some f \<Rightarrow> f)
         in role_rules (kind_roles kind) actor_id tenant_id d
        (rule (Inr (has_grant tenant_id actor_id ''resource'' resource_id d)) ''resource_role_grant''
        (rule (Inr (kind = Some ''relational'' \<and>
              (as_uuid (dict_get_or metadata ''account_owner_id'' JNull) = Some actor_id
               \<or> listed actor_id ''account_owners'' metadata))) ''resource_customer_account_owner''
        (rule (Inr (kind = Some ''capacity'' \<and> listed actor_id ''team_ids'' metadata)) ''resource_capacity_team''
        (rule (Inr (kind = Some ''capacity'' \<and> deploys_to_own actor_id resource_id d)) ''resource_capacity_deployment''
        (deny (''resource_out_of_scope:'' @ (case kind of None \<Rightarrow> ''None'' | Some k \<Rightarrow> k))))))))"

text \<open>The loop over \<open>scope_entities\<close>.\<close>

fun scope_rules :: "uuid \<Rightarrow> uuid \<Rightarrow> access_db \<Rightarrow> json list \<Rightarrow> access_decision result" where
  "scope_rules actor_id tenant_id d [] = deny ''model_out_of_scope''"
| "scope_rules actor_id tenant_id d (ent # ents) =
    (case json_fields ent of
       None \<Rightarrow> scope_rules actor_id tenant_id d ents
     | Some f \<Rightarrow>
         (case as_uuid (dict_get_or f ''id'' JNull) of
            None \<Rightarrow> scope_rules actor_id tenant_id d ents
          | Some eid \<Rightarrow>
              if entity_type_of f = JStr ''commitment''
              then rule (is_commitment_visible_to actor_id eid tenant_id d) ''model_via_commitment_scope''
                     (scope_rules actor_id tenant_id d ents)
              else if entity_type_of f = JStr ''goal''
              then rule (is_goal_visible_to actor_id eid tenant_id d) ''model_via_goal_scope''
                     (scope_rules actor_id tenant_id d ents)
              else scope_rules actor_id tenant_id d ents))"

definition check_model :: "uuid \<Rightarrow> entity \<Rightarrow> uuid \<Rightarrow> access_db \<Rightarrow> access_decision result" where
  "check_model actor_id e tenant_id d =
    rule (Inr (en_visible e)) ''model_public''
   (rule (Inr (actor_id \<in> set (en_scope_actors e))) ''model_self_scope''
   (scope_rules actor_id tenant_id d (json_items (en_scope_entities e))))"

section \<open>The check\<close>

definition override :: "string \<Rightarrow> access_decision" where
  "override r = \<lparr>allowed = True, reason = r, override_applied = True\<rparr>"

lemma decide_simps [simp]:
  "allowed (decide b r) = b" "override_applied (decide b r) = False" "reason (decide b r) = r"
  "allowed (override r) = True" "override_applied (override r) = True" "reason (override r) = r"
  by (simp_all add: decide_def override_def)

definition dispatch_kind :: "string \<Rightarrow> uuid \<Rightarrow> entity \<Rightarrow> uuid \<Rightarrow> access_db \<Rightarrow> access_decision result" where
  "dispatch_kind kind actor_id e tenant_id d =
    (if kind = ''observation'' then check_observation actor_id e tenant_id d
     else if kind = ''commitment'' then check_commitment actor_id e tenant_id d
     else if kind = ''goal'' then check_goal actor_id e tenant_id d
     else if kind = ''decision'' then check_decision actor_id e tenant_id d
     else if kind = ''resource'' then check_resource actor_id e tenant_id d
     else if kind = ''model'' then check_model actor_id e tenant_id d
     else Inl (ValidationError (''unknown entity kind '' @ py_repr kind)))"

definition can_read :: "uuid \<Rightarrow> entity \<Rightarrow> uuid \<Rightarrow> access_db \<Rightarrow> access_decision result" where
  "can_read actor_id e tenant_id d =
    (case (en_kind e, en_tenant e) of
       (Some kind, Some entity_tenant) \<Rightarrow>
         if entity_tenant \<noteq> tenant_id then deny ''tenant_mismatch''
         else (case actor_tenant actor_id d of
             None \<Rightarrow> deny ''actor_not_found''
           | Some actor_t \<Rightarrow>
               if actor_t \<noteq> tenant_id then deny ''actor_tenant_mismatch''
               else let is_hr = (kind = ''observation'' \<and> is_hr_channel (en_channel e)) in
                 if \<not> is_hr \<and> has_role actor_id ''admin'' tenant_id d then Inr (override ''admin_override'')
                 else if \<not> is_hr \<and> has_role actor_id ''leadership'' tenant_id d
                 then Inr (override ''leadership_override'')
                 else dispatch_kind kind actor_id e tenant_id d)
     | _ \<Rightarrow> Inl (ValidationError ''entity must carry kind + tenant_id''))"

definition of_tenant :: "('r \<Rightarrow> uuid) \<Rightarrow> uuid \<Rightarrow> 'r option \<Rightarrow> 'r option" where
  "of_tenant tenant t r = (case r of Some x \<Rightarrow> if tenant x = t then Some x else None | None \<Rightarrow> None)"

definition load_entity :: "string \<Rightarrow> uuid \<Rightarrow> uuid \<Rightarrow> access_db \<Rightarrow> entity option result" where
  "load_entity kind entity_id tenant_id d =
    (let base = blank_entity kind entity_id tenant_id in
     if kind = ''observation'' then Inr (map_option (\<lambda>r. base\<lparr>en_actor := o_actor r, en_channel := Some (o_channel r),
           en_mentioned := JList (o_entities r), en_source_ref := source_refs d entity_id\<rparr>)
         (of_tenant o_tenant tenant_id (row_at o_id entity_id (observations d))))
     else if kind = ''commitment'' then Inr (map_option (\<lambda>r. base\<lparr>en_owner := c_owner r\<rparr>)
         (of_tenant c_tenant tenant_id (row_at c_id entity_id (commitments d))))
     else if kind = ''goal'' then Inr (map_option (\<lambda>r. base)
         (of_tenant g_tenant tenant_id (row_at g_id entity_id (goals d))))
     else if kind = ''decision'' then Inr (map_option (\<lambda>r. base)
         (of_tenant d_tenant tenant_id (row_at d_id entity_id (decisions d))))
     else if kind = ''resource'' then Inr (map_option (\<lambda>r. base\<lparr>
           en_resource_kind := Some (resource_kind_text (r_kind r)),
           en_metadata := (case r_metadata r of None \<Rightarrow> JNull | Some m \<Rightarrow> JObj m)\<rparr>)
         (of_tenant r_tenant tenant_id (row_at r_id entity_id (resources d))))
     else if kind = ''model'' then Inr (map_option (\<lambda>r. base\<lparr>en_visible := ms_visible r,
           en_scope_actors := ms_scope_actors r, en_scope_entities := ms_scope_entities r\<rparr>)
         (of_tenant ms_tenant tenant_id (row_at ms_id entity_id (model_scopes d))))
     else Inl (ValidationError (''unknown entity kind '' @ py_repr kind)))"

definition can_read_by_id :: "uuid \<Rightarrow> string \<Rightarrow> uuid \<Rightarrow> uuid \<Rightarrow> access_db \<Rightarrow> access_decision result" where
  "can_read_by_id actor_id kind entity_id tenant_id d =
    bind_result (load_entity kind entity_id tenant_id d) (\<lambda>e. case e of
      None \<Rightarrow> deny ''entity_not_found''
    | Some e \<Rightarrow> can_read actor_id e tenant_id d)"

section \<open>Audit and the route decorator\<close>

definition OVERRIDE_KINDS :: "string list" where
  "OVERRIDE_KINDS = [''admin'', ''first_person'', ''leadership'', ''system'']"

text \<open>
  The insertion fails on a foreign key, on the check of the kind, or for any other reason (a lost
  connection, a statement timeout, a missing table), which is the argument \<open>insert_fails\<close>; every
  exception is caught and only logged.
\<close>

definition record_override ::
  "bool \<Rightarrow> uuid \<Rightarrow> string \<Rightarrow> uuid option \<Rightarrow> string \<Rightarrow> uuid \<Rightarrow> string option \<Rightarrow> access_db \<Rightarrow> uuid option \<times> access_db" where
  "record_override insert_fails actor_id entity_type entity_id override_kind tenant_id why d =
    (let new_id = uuid_next d; d = d\<lparr>uuid_next := Suc (uuid_next d)\<rparr>
     in if insert_fails \<or> row_at a_id actor_id (actors d) = None \<or> override_kind \<notin> set OVERRIDE_KINDS then (None, d)
        else (Some new_id, d\<lparr>override_log := override_log d @
          [\<lparr>ov_id = new_id, ov_tenant = tenant_id, ov_actor = actor_id, ov_entity_type = entity_type,
            ov_entity = entity_id, ov_kind = override_kind, ov_reason = why, ov_occurred_at = db_now d\<rparr>]\<rparr>))"

definition override_kind_for_reason :: "string option \<Rightarrow> string" where
  "override_kind_for_reason why =
    (let text = (case why of None \<Rightarrow> [] | Some r \<Rightarrow> r) in
     if why = Some ''admin_override'' \<or> starts_with ''admin'' text then ''admin''
     else if why = Some ''leadership_override'' \<or> starts_with ''leadership'' text then ''leadership''
     else if why = Some ''model_self_scope'' then ''first_person''
     else ''system'')"

definition record_override_if_needed ::
  "bool \<Rightarrow> access_decision \<Rightarrow> uuid \<Rightarrow> string \<Rightarrow> uuid option \<Rightarrow> uuid \<Rightarrow> access_db \<Rightarrow> uuid option \<times> access_db" where
  "record_override_if_needed insert_fails dec actor_id entity_type entity_id tenant_id d =
    (if override_applied dec
     then record_override insert_fails actor_id entity_type entity_id (override_kind_for_reason (Some (reason dec))) tenant_id
            (Some (reason dec)) d
     else (None, d))"

definition map_reason_to_override_kind :: "string \<Rightarrow> string" where
  "map_reason_to_override_kind r =
    (if r = ''admin_override'' then ''admin''
     else if r = ''leadership_override'' then ''leadership''
     else if r = ''model_self_scope'' then ''first_person''
     else ''system'')"

record auth =
  au_actor :: uuid
  au_tenant :: uuid

text \<open>What the client gets: the handler's answer, or a status with a reason.\<close>

datatype response = Served | Refused nat string

text \<open>
  The request is \<open>None\<close> when the decorator finds none, otherwise \<open>request.state.auth\<close>; \<open>raw_id\<close>
  is what the resolver returned, \<open>audit_fails\<close> whether the insertion of the audit row fails.
\<close>

definition requires_access ::
  "string \<Rightarrow> auth option option \<Rightarrow> json \<Rightarrow> bool \<Rightarrow> bool \<Rightarrow> (access_db, response) tx" where
  "requires_access entity_type request raw_id deps audit_fails d =
    (case request of
       None \<Rightarrow> (Inr (Refused 403 ''request_missing''), d)
     | Some None \<Rightarrow> (Inr (Refused 401 ''unauthenticated''), d)
     | Some (Some auth) \<Rightarrow>
         if raw_id = JNull \<or> raw_id = JStr [] then (Inr Served, d)
         else (case as_uuid raw_id of
             None \<Rightarrow> (Inr (Refused 400 ''invalid_entity_id''), d)
           | Some entity_id \<Rightarrow>
               if \<not> deps then (Inr (Refused 500 ''deps_missing''), d)
               else (case can_read_by_id (au_actor auth) entity_type entity_id (au_tenant auth) d of
                   Inl e \<Rightarrow> (Inl e, d)
                 | Inr dec \<Rightarrow>
                     let d = (if allowed dec \<and> override_applied dec
                       then snd (record_override audit_fails (au_actor auth) entity_type (Some entity_id)
                         (map_reason_to_override_kind (reason dec)) (au_tenant auth) (Some (reason dec)) d)
                       else d)
                     in if \<not> allowed dec then (Inr (Refused 403 (reason dec)), d) else (Inr Served, d))))"

end
