(* ===== verification/AccessProperties.thy ===== *)
theory AccessProperties
  imports AccessChecks
begin

text \<open>
  What the access checks of theory \<open>AccessChecks\<close> guarantee: who can read a commitment, that
  tenants are isolated and sensitive channels closed, how the materialized view relates to the
  live check, that overrides leave a trace, and what a grant and its revocation do.
\<close>

section \<open>The relation to the manager\<close>

definition reports_to :: "uuid \<Rightarrow> access_db \<Rightarrow> (uuid \<times> uuid) set" where
  "reports_to t d = {(x, m). actor_tenant x d = Some t \<and> manager_of x d = Inr (Some m)}"

text \<open>\<open>m\<close> is above \<open>x\<close>, at most 32 levels up.\<close>

definition above :: "uuid \<Rightarrow> access_db \<Rightarrow> uuid \<Rightarrow> uuid \<Rightarrow> bool" where
  "above t d x m \<longleftrightarrow> (\<exists>k \<in> {1..32}. (x, m) \<in> reports_to t d ^^ k)"

text \<open>The cast of \<open>manager_id\<close> succeeds for every actor.\<close>

definition metadata_ok :: "access_db \<Rightarrow> bool" where
  "metadata_ok d \<longleftrightarrow> (\<forall>i. \<exists>m. manager_of i d = Inr m)"

lemma manager_row_Some: "manager_row x t d = Inr (Some m) \<longleftrightarrow> (x, m) \<in> reports_to t d"
  by (auto simp: manager_row_def reports_to_def)

lemma reports_to_fun: "(x, m) \<in> reports_to t d \<Longrightarrow> (x, m') \<in> reports_to t d \<Longrightarrow> m' = m"
  by (auto simp: reports_to_def)

lemma reports_to_step:
  assumes "(x, m) \<in> reports_to t d"
  shows "(\<exists>k \<in> {1..Suc n}. (x, y) \<in> reports_to t d ^^ k) \<longleftrightarrow>
    y = m \<or> (\<exists>k \<in> {1..n}. (m, y) \<in> reports_to t d ^^ k)"
proof
  assume "\<exists>k \<in> {1..Suc n}. (x, y) \<in> reports_to t d ^^ k"
  then obtain j where j: "j \<le> n" "(x, y) \<in> reports_to t d ^^ Suc j"
    by (metis Suc_le_mono atLeastAtMost_iff not0_implies_Suc not_one_le_zero)
  then have "(m, y) \<in> reports_to t d ^^ j"
    using assms reports_to_fun by (metis relpow_Suc_D2)
  then show "y = m \<or> (\<exists>k \<in> {1..n}. (m, y) \<in> reports_to t d ^^ k)"
    using j(1) by (cases "j = 0") (auto intro: bexI [of _ j])
next
  assume "y = m \<or> (\<exists>k \<in> {1..n}. (m, y) \<in> reports_to t d ^^ k)"
  then show "\<exists>k \<in> {1..Suc n}. (x, y) \<in> reports_to t d ^^ k"
  proof
    assume "y = m"
    then show ?thesis using assms by (intro bexI [of _ 1]) auto
  next
    assume "\<exists>k \<in> {1..n}. (m, y) \<in> reports_to t d ^^ k"
    then obtain k where "k \<in> {1..n}" "(m, y) \<in> reports_to t d ^^ k" by blast
    then show ?thesis using assms relpow_Suc_I2 by (intro bexI [of _ "Suc k"]) auto
  qed
qed

lemma chain_loop_set:
  assumes "chain_loop n t cur seen out d = Inr r" and "cur \<in> set seen"
    and "\<And>x m. x \<in> set seen \<Longrightarrow> x \<noteq> cur \<Longrightarrow> (x, m) \<in> reports_to t d \<Longrightarrow> m \<in> set seen"
  shows "set r = set out \<union> ({m. \<exists>k \<in> {1..n}. (cur, m) \<in> reports_to t d ^^ k} - set seen)"
  using assms
proof (induction n arbitrary: cur seen out)
  case 0
  then show ?case by auto
next
  case (Suc n)
  note closed = Suc.prems(3)
  from Suc.prems(1) obtain nx where row: "manager_row cur t d = Inr nx"
    by (auto simp: bind_result_Inr)
  show ?case
  proof (cases nx)
    case None
    with row have "(cur, m) \<notin> reports_to t d" for m
      using manager_row_Some by (metis Inr_inject option.distinct(1))
    then have "(cur, m) \<notin> reports_to t d ^^ Suc k" for m k by (meson relpow_Suc_D2)
    then have "{m. \<exists>k \<in> {1..Suc n}. (cur, m) \<in> reports_to t d ^^ k} = {}"
      by (auto simp del: relpow.simps) (metis Suc_le_D One_nat_def)
    with Suc.prems(1) row None show ?thesis by simp
  next
    case (Some m)
    with row have edge: "(cur, m) \<in> reports_to t d" by (simp add: manager_row_Some)
    show ?thesis
    proof (cases "m \<in> set seen")
      case True
      have "(cur, y) \<in> reports_to t d ^^ k \<Longrightarrow> y \<in> set seen" for y k
      proof (induction k arbitrary: y)
        case (Suc k)
        then obtain z where z: "z \<in> set seen" "(z, y) \<in> reports_to t d" by auto
        show ?case
        proof (cases "z = cur")
          case True
          with z(2) edge have "y = m" using reports_to_fun by blast
          with \<open>m \<in> set seen\<close> show ?thesis by simp
        qed (rule closed [OF z(1) _ z(2)])
      qed (use Suc.prems(2) in auto)
      with Suc.prems(1) row Some True show ?thesis by auto
    next
      case False
      have "chain_loop n t m (m # seen) (out @ [m]) d = Inr r" using Suc.prems(1) row Some False by simp
      then have "set r = set (out @ [m]) \<union> ({y. \<exists>k \<in> {1..n}. (m, y) \<in> reports_to t d ^^ k} - set (m # seen))"
      proof (rule Suc.IH)
        show "y \<in> set (m # seen)" if "x \<in> set (m # seen)" "x \<noteq> m" "(x, y) \<in> reports_to t d" for x y
          using that edge reports_to_fun Suc.prems(3) by (metis list.set_intros set_ConsD)
      qed simp
      then show ?thesis using reports_to_step [OF edge, of n] False by auto
    qed
  qed
qed

lemma in_manager_chain:
  "is_in_manager_chain x m t d = Inr b \<Longrightarrow> b \<longleftrightarrow> m \<noteq> x \<and> above t d x m"
  using chain_loop_set [of 32 t x "[x]" "[]" d]
  by (auto simp: is_in_manager_chain_def manager_chain_of_def above_def bind_result_Inr split: if_splits)

lemma chain_loop_returns: "metadata_ok d \<Longrightarrow> \<exists>r. chain_loop n t cur seen out d = Inr r"
proof (induction n arbitrary: cur seen out)
  case (Suc n)
  have "\<exists>nx. manager_row cur t d = Inr nx" using Suc.prems by (simp add: manager_row_def metadata_ok_def)
  with Suc show ?case by (auto split: option.splits)
qed simp

lemma manager_chain_returns:
  assumes "metadata_ok d"
  shows "is_in_manager_chain x m t d = Inr (m \<noteq> x \<and> above t d x m)"
proof -
  obtain r where "chain_loop 32 t x [x] [] d = Inr r" using chain_loop_returns [OF assms] by blast
  then have "\<exists>b. is_in_manager_chain x m t d = Inr b"
    by (cases "x = m") (auto simp: is_in_manager_chain_def manager_chain_of_def ex_bool_eq)
  then obtain b where b: "is_in_manager_chain x m t d = Inr b" ..
  with in_manager_chain [OF b] show ?thesis by simp
qed

section \<open>Reading a decision\<close>



lemma rule_pure: "rule (Inr b) r w = (if b then Inr (decide True r) else w)"
  by (simp add: rule_def)

lemma of_tenant_Some: "of_tenant f t x = Some r \<longleftrightarrow> x = Some r \<and> f r = t"
  by (auto simp: of_tenant_def split: option.splits if_splits)

lemma can_read_cases:
  assumes "en_kind e = Some kind" and "en_tenant e = Some t"
  shows "can_read a e t d =
    (if actor_tenant a d \<noteq> Some t then
       deny (if actor_tenant a d = None then ''actor_not_found'' else ''actor_tenant_mismatch'')
     else if \<not> (kind = ''observation'' \<and> is_hr_channel (en_channel e)) \<and> has_role a ''admin'' t d
     then Inr (override ''admin_override'')
     else if \<not> (kind = ''observation'' \<and> is_hr_channel (en_channel e)) \<and> has_role a ''leadership'' t d
     then Inr (override ''leadership_override'')
     else dispatch_kind kind a e t d)"
  using assms by (auto simp: can_read_def Let_def split: option.splits)

text \<open>
  Commitments: who may read one, in terms of the rows. \<open>may_read_commitment\<close> is the
  specification of layers 1 and 3.
\<close>

definition may_read_commitment :: "uuid \<Rightarrow> commitment_row \<Rightarrow> uuid \<Rightarrow> access_db \<Rightarrow> bool" where
  "may_read_commitment a c t d \<longleftrightarrow> actor_tenant a d = Some t \<and>
    (has_role a ''admin'' t d \<or> has_role a ''leadership'' t d \<or> takes_part a c d \<or>
     (\<exists>owner. c_owner c = Some owner \<and> above t d owner a) \<or>
     shares_goal a (c_id c) d \<or> has_grant t a ''commitment'' (c_id c) d)"

lemma load_commitment:
  "load_entity ''commitment'' i t d = Inr (map_option (\<lambda>r. blank_entity ''commitment'' i t\<lparr>en_owner := c_owner r\<rparr>)
    (of_tenant c_tenant t (row_at c_id i (commitments d))))"
  by (simp add: load_entity_def Let_def)

lemma check_commitment_returns:
  assumes "metadata_ok d"
  shows "\<exists>dec. check_commitment a (blank_entity ''commitment'' i t\<lparr>en_owner := ow\<rparr>) t d = Inr dec \<and>
    (allowed dec \<longleftrightarrow> ow = Some a \<or> is_contributor i a d \<or> (\<exists>owner. ow = Some owner \<and> a \<noteq> owner \<and> above t d owner a) \<or>
      shares_goal a i d \<or> has_grant t a ''commitment'' i d) \<and> \<not> override_applied dec"
  by (cases ow) (auto simp: check_commitment_def blank_entity_def rule_pure deny_def manager_chain_returns [OF assms])

text \<open>
  C6: a commitment of the tenant is readable exactly for an actor of the tenant who is an admin or
  a leader, owns it or contributes to it, is above its owner within 32 levels of management,
  contributes to a commitment with the same goal, or has a grant on it; any other commitment is
  not readable. The check returns whenever the manager columns hold identifiers.
\<close>

theorem commitment_access_exact:
  assumes "metadata_ok d"
  shows "\<exists>dec. can_read_by_id a ''commitment'' i t d = Inr dec \<and>
    (allowed dec \<longleftrightarrow> (\<exists>c. row_at c_id i (commitments d) = Some c \<and> c_tenant c = t \<and> may_read_commitment a c t d))"
proof (cases "of_tenant c_tenant t (row_at c_id i (commitments d))")
  case None
  then have "\<not> (\<exists>c. row_at c_id i (commitments d) = Some c \<and> c_tenant c = t)" by (simp add: of_tenant_def split: option.splits if_splits)
  then show ?thesis using None by (auto simp: can_read_by_id_def load_commitment deny_def)
next
  case (Some c)
  then have c: "row_at c_id i (commitments d) = Some c" "c_tenant c = t" "c_id c = i"
    by (auto simp: of_tenant_Some dest: row_at_Some)
  obtain dec where "check_commitment a (blank_entity ''commitment'' i t\<lparr>en_owner := c_owner c\<rparr>) t d = Inr dec"
    "allowed dec \<longleftrightarrow> c_owner c = Some a \<or> is_contributor i a d \<or>
      (\<exists>owner. c_owner c = Some owner \<and> a \<noteq> owner \<and> above t d owner a) \<or>
      shares_goal a i d \<or> has_grant t a ''commitment'' i d"
    using check_commitment_returns [OF assms] by blast
  then show ?thesis
    using Some c by (auto simp: can_read_by_id_def load_commitment can_read_cases blank_entity_def dispatch_kind_def
      may_read_commitment_def takes_part_def deny_def)
qed

section \<open>Isolation of tenants\<close>

text \<open>
  What another tenant's grants, channels, identity mappings and view rows could contribute is
  taken away.
\<close>

definition only_tenant :: "uuid \<Rightarrow> access_db \<Rightarrow> access_db" where
  "only_tenant t d = d\<lparr>actor_roles := filter (\<lambda>r. ro_tenant r = t) (actor_roles d),
     shared_channels := filter (\<lambda>(s, _). s = t) (shared_channels d),
     identity_mappings := filter (\<lambda>m. actor_tenant (im_actor m) d = Some t) (identity_mappings d),
     visible_commitments := map_option (filter (\<lambda>(_, _, s). s = t)) (visible_commitments d),
     visible_goals := map_option (filter (\<lambda>(_, _, s). s = t)) (visible_goals d)\<rparr>"

lemma only_tenant_tables [simp]:
  "actor_tenant a (only_tenant t d) = actor_tenant a d" "manager_of a (only_tenant t d) = manager_of a d"
  "is_contributor i a (only_tenant t d) = is_contributor i a d" "shares_goal a i (only_tenant t d) = shares_goal a i d"
  "takes_part a c (only_tenant t d) = takes_part a c d" "goal_commitments i (only_tenant t d) = goal_commitments i d"
  "deploys_to_own a i (only_tenant t d) = deploys_to_own a i d"
  "commitments (only_tenant t d) = commitments d" "constrained_by (only_tenant t d) = constrained_by d"
  by (simp_all add: only_tenant_def actor_tenant_def manager_of_def is_contributor_def shares_goal_def
      takes_part_def goal_commitments_def deploys_to_own_def cong: if_cong)

lemma list_ex_filter: "(\<And>x. P x \<Longrightarrow> Q x) \<Longrightarrow> list_ex P (filter Q xs) = list_ex P xs"
  by (induction xs) auto

lemma find_filter: "(\<And>x. P x \<Longrightarrow> Q x) \<Longrightarrow> List.find P (filter Q xs) = List.find P xs"
  by (induction xs) auto

lemma only_tenant_roles [simp]:
  "has_role a r t (only_tenant t d) = has_role a r t d"
  "has_grant t a k i (only_tenant t d) = has_grant t a k i d"
  by (simp_all add: only_tenant_def has_role_def has_grant_def) (rule list_ex_filter, simp)+

lemma only_tenant_channel [simp]: "is_shared_channel c t r (only_tenant t d) = is_shared_channel c t r d"
  by (auto simp: is_shared_channel_def only_tenant_def)

lemma only_tenant_mapped [simp]: "mapped_actor ref t (only_tenant t d) = mapped_actor ref t d"
  unfolding mapped_actor_def only_tenant_tables by (simp add: only_tenant_def) (rule arg_cong [OF find_filter], simp)

lemma only_tenant_views [simp]:
  "is_commitment_visible_to a i t (only_tenant t d) = is_commitment_visible_to a i t d"
  "is_goal_visible_to a i t (only_tenant t d) = is_goal_visible_to a i t d"
  by (auto simp: is_commitment_visible_to_def is_goal_visible_to_def sees_row_def read_view_def only_tenant_def
      split: option.splits)

lemma only_tenant_chain [simp]: "is_in_manager_chain x m t (only_tenant t d) = is_in_manager_chain x m t d"
proof -
  have row: "manager_row x s (only_tenant t d) = manager_row x s d" for x s by (simp add: manager_row_def)
  have "chain_loop n s cur seen out (only_tenant t d) = chain_loop n s cur seen out d" for n s cur seen out
  proof (induction n arbitrary: cur seen out)
    case (Suc n)
    then show ?case by (simp add: row cong: option.case_cong if_cong)
  qed simp
  then show ?thesis by (simp add: is_in_manager_chain_def manager_chain_of_def)
qed

lemma only_tenant_checks [simp]:
  "check_observation a e t (only_tenant t d) = check_observation a e t d"
  "check_commitment a e t (only_tenant t d) = check_commitment a e t d"
  "check_goal a e t (only_tenant t d) = check_goal a e t d"
  "check_decision a e t (only_tenant t d) = check_decision a e t d"
  by (simp_all add: check_observation_def check_commitment_def check_goal_def check_decision_def by_source_ref_def
      Let_def cong: option.case_cong if_cong)

lemma only_tenant_resource [simp]: "check_resource a e t (only_tenant t d) = check_resource a e t d"
proof -
  have "role_rules rs a t (only_tenant t d) w = role_rules rs a t d w" for rs w
    by (induction rs) simp_all
  then show ?thesis by (simp add: check_resource_def Let_def cong: option.case_cong)
qed

lemma only_tenant_model [simp]: "check_model a e t (only_tenant t d) = check_model a e t d"
proof -
  have "scope_rules a t (only_tenant t d) ents = scope_rules a t d ents" for ents
    by (induction ents) (simp_all cong: option.case_cong if_cong)
  then show ?thesis by (simp add: check_model_def)
qed

lemma only_tenant_can_read [simp]: "can_read a e t (only_tenant t d) = can_read a e t d"
  by (simp add: can_read_def dispatch_kind_def Let_def cong: option.case_cong if_cong)

lemma only_tenant_load [simp]: "load_entity k i t (only_tenant t d) = load_entity k i t d"
  by (simp add: load_entity_def only_tenant_def Let_def cong: if_cong)

lemma can_read_allowed:
  assumes "can_read a e t d = Inr dec" and "allowed dec"
  shows "en_tenant e = Some t" and "actor_tenant a d = Some t"
  using assms by (auto simp: can_read_def deny_def split: option.splits if_splits)

lemma load_entity_tenant: "load_entity k i t d = Inr (Some e) \<Longrightarrow> en_tenant e = Some t \<and> en_kind e = Some k"
  by (auto simp: load_entity_def Let_def blank_entity_def split: if_splits)

text \<open>The row of an entity exists in the tenant.\<close>

definition exists_in :: "string \<Rightarrow> uuid \<Rightarrow> uuid \<Rightarrow> access_db \<Rightarrow> bool" where
  "exists_in kind i t d \<longleftrightarrow>
    kind = ''observation'' \<and> (\<exists>r \<in> set (observations d). o_id r = i \<and> o_tenant r = t) \<or>
    kind = ''commitment'' \<and> (\<exists>r \<in> set (commitments d). c_id r = i \<and> c_tenant r = t) \<or>
    kind = ''goal'' \<and> (\<exists>r \<in> set (goals d). g_id r = i \<and> g_tenant r = t) \<or>
    kind = ''decision'' \<and> (\<exists>r \<in> set (decisions d). d_id r = i \<and> d_tenant r = t) \<or>
    kind = ''resource'' \<and> (\<exists>r \<in> set (resources d). r_id r = i \<and> r_tenant r = t) \<or>
    kind = ''model'' \<and> (\<exists>r \<in> set (model_scopes d). ms_id r = i \<and> ms_tenant r = t)"

lemma load_entity_exists: "load_entity k i t d = Inr (Some e) \<Longrightarrow> exists_in k i t d"
  by (auto simp: load_entity_def Let_def exists_in_def of_tenant_Some dest!: row_at_Some split: if_splits)

text \<open>
  C7: access never crosses tenants: whoever is allowed to read an entity is an actor of the tenant
  asked for, and the entity is a row of it, whatever roles the actor holds; and a decision is the
  same when the grants, shared channels, identity mappings and view rows of all other tenants are
  taken out of the database.
\<close>

theorem tenant_isolation:
  "can_read_by_id a kind i t d = can_read_by_id a kind i t (only_tenant t d) \<and>
   (\<forall>dec. can_read_by_id a kind i t d = Inr dec \<and> allowed dec \<longrightarrow>
     actor_tenant a d = Some t \<and> exists_in kind i t d)"
proof (intro conjI allI impI; (elim conjE)?)
  show "can_read_by_id a kind i t d = can_read_by_id a kind i t (only_tenant t d)"
    by (simp add: can_read_by_id_def cong: option.case_cong)
next
  fix dec
  assume "can_read_by_id a kind i t d = Inr dec" "allowed dec"
  then obtain e where "load_entity kind i t d = Inr (Some e)" "can_read a e t d = Inr dec"
    by (auto simp: can_read_by_id_def bind_result_Inr deny_def split: option.splits)
  with \<open>allowed dec\<close> show "actor_tenant a d = Some t" "exists_in kind i t d"
    using can_read_allowed load_entity_exists by blast+
qed

section \<open>Sensitive channels\<close>

text \<open>
  Who can read an observation of an HR, legal or incident channel. The check reads no grant on the
  observation, so the explicit per-entity roles that the comment beside \<open>HR_CHANNEL_PREFIXES\<close>
  mentions open nothing, and the mapping of the source reference is looked up in any channel.
\<close>

lemma sensitive_channel_readers:
  assumes "row_at o_id i (observations d) = Some r" and "o_tenant r = t"
    and "is_hr_channel (Some (o_channel r))"
  shows "\<exists>dec. can_read_by_id a ''observation'' i t d = Inr dec \<and> \<not> override_applied dec \<and>
    (allowed dec \<longleftrightarrow> actor_tenant a d = Some t \<and>
      (o_actor r = Some a \<or> mentions a (JList (o_entities r)) \<or>
       (\<exists>ref. source_refs d i = Some ref \<and> ref \<noteq> [] \<and> mapped_actor ref t d = Some a)))"
  using assms
  by (auto simp: can_read_by_id_def load_entity_def of_tenant_def can_read_cases blank_entity_def dispatch_kind_def
      check_observation_def rule_pure deny_def is_shared_channel_def by_source_ref_def Let_def split: option.splits)

text \<open>
  C8: an actor without an explicit grant on an observation of an HR, legal or incident channel can
  read it exactly when the actor is of the tenant and is its author, is mentioned in it, or is the
  actor its source reference is mapped to, in whatever channel that mapping was made. Tenant roles
  (admin, leadership), the managers of the author and shared channels do not open it, no override
  is used, and the check always returns.
\<close>

theorem sensitive_channel_closed:
  assumes "row_at o_id i (observations d) = Some r" and "o_tenant r = t"
    and "is_hr_channel (Some (o_channel r))" and "\<not> has_grant t a ''observation'' i d"
  shows "\<exists>dec. can_read_by_id a ''observation'' i t d = Inr dec \<and> \<not> override_applied dec \<and>
    (allowed dec \<longleftrightarrow> actor_tenant a d = Some t \<and>
      (o_actor r = Some a \<or> mentions a (JList (o_entities r)) \<or>
       (\<exists>ref. source_refs d i = Some ref \<and> ref \<noteq> [] \<and> mapped_actor ref t d = Some a)))"
  by (rule sensitive_channel_readers [OF assms(1-3)])

section \<open>The materialized view of commitments\<close>

lemma climb_set:
  "climb n t nx d = Inr r \<Longrightarrow>
    set r = {m. actor_tenant m d = Some t \<and> (\<exists>x k. nx = Some x \<and> k < n \<and> (x, m) \<in> reports_to t d ^^ k)}"
proof (induction n arbitrary: nx r)
  case (Suc n)
  show ?case
  proof (cases nx)
    case (Some m)
    show ?thesis
    proof (cases "actor_tenant m d = Some t")
      case True
      with Suc.prems Some obtain nm up where nm: "manager_of m d = Inr nm" and up: "climb n t nm d = Inr up"
        and r: "r = m # up"
        by (auto simp: bind_result_Inr)
      have edge: "(m, y) \<in> reports_to t d \<longleftrightarrow> nm = Some y" for y using True nm by (auto simp: reports_to_def)
      have "(\<exists>k < Suc n. (m, y) \<in> reports_to t d ^^ k) \<longleftrightarrow>
          y = m \<or> (\<exists>x k. nm = Some x \<and> k < n \<and> (x, y) \<in> reports_to t d ^^ k)" for y
      proof -
        have "(\<exists>k < Suc n. (m, y) \<in> reports_to t d ^^ k) \<longleftrightarrow>
            y = m \<or> (\<exists>k < n. (m, y) \<in> reports_to t d ^^ Suc k)"
          by (auto simp: less_Suc_eq_0_disj simp del: relpow.simps(2))
        moreover have "(m, y) \<in> reports_to t d ^^ Suc k \<longleftrightarrow> (\<exists>x. nm = Some x \<and> (x, y) \<in> reports_to t d ^^ k)" for k
          using edge relpow_Suc_I2 relpow_Suc_D2 by metis
        ultimately show ?thesis by blast
      qed
      then show ?thesis using Suc.IH [OF up] r Some True by auto
    next
      case False
      have "(m, y) \<in> reports_to t d ^^ k \<Longrightarrow> y = m" for y k
        using False by (cases k) (auto simp: reports_to_def simp del: relpow.simps(2) dest!: relpow_Suc_D2)
      with Suc.prems Some False show ?thesis by auto
    qed
  qed (use Suc.prems in auto)
qed simp

lemma climb_returns: "metadata_ok d \<Longrightarrow> \<exists>r. climb n t nx d = Inr r"
proof (induction n arbitrary: nx)
  case (Suc n)
  show ?case
  proof (cases nx)
    case (Some m)
    obtain nm where "manager_of m d = Inr nm" using Suc.prems by (auto simp: metadata_ok_def)
    moreover obtain up where "climb n t nm d = Inr up" using Suc by blast
    ultimately show ?thesis using Some by simp
  qed simp
qed simp

lemma map_result_Inr: "map_result f xs = Inr ys \<Longrightarrow> set ys = {y. \<exists>x \<in> set xs. f x = Inr y}"
  by (induction xs arbitrary: ys) (auto simp: bind_result_Inr)

lemma map_result_each: "map_result f xs = Inr ys \<Longrightarrow> x \<in> set xs \<Longrightarrow> \<exists>y. f x = Inr y"
  by (induction xs arbitrary: ys) (auto simp: bind_result_Inr)

lemma bex_Suc: "(\<exists>k \<in> {1..n}. P k) \<longleftrightarrow> (\<exists>k < n. P (Suc k))"
  unfolding image_Suc_lessThan [symmetric] by auto

lemma above_unfold:
  assumes "actor_tenant x d = Some t" and "manager_of x d = Inr nx"
  shows "above t d x m \<longleftrightarrow> (\<exists>y k. nx = Some y \<and> k < 32 \<and> (y, m) \<in> reports_to t d ^^ k)"
proof -
  have edge: "(x, y) \<in> reports_to t d \<longleftrightarrow> nx = Some y" for y using assms by (auto simp: reports_to_def)
  have "above t d x m \<longleftrightarrow> (\<exists>k < 32. (x, m) \<in> reports_to t d ^^ Suc k)"
    unfolding above_def by (rule bex_Suc)
  moreover have "(x, m) \<in> reports_to t d ^^ Suc k \<longleftrightarrow> (\<exists>y. nx = Some y \<and> (y, m) \<in> reports_to t d ^^ k)" for k
    using edge relpow_Suc_I2 relpow_Suc_D2 by metis
  ultimately show ?thesis by blast
qed

lemma chains_above:
  assumes "chains d = Inr chs" and "distinct (map a_id (actors d))"
    and "actor_tenant a d = Some t"
  shows "(\<exists>(start, up) \<in> set chs. start = ow \<and> a \<in> set up) \<longleftrightarrow>
    (\<exists>r \<in> set (active_actors d). a_id r = ow \<and> a_tenant r = t) \<and> above t d ow a"
proof -
  have row: "actor_tenant (a_id r) d = Some (a_tenant r)" if "r \<in> set (actors d)" for r
    using row_at_unique [OF assms(2) that] by (simp add: actor_tenant_def)
  have up: "a \<in> set up \<longleftrightarrow> a_tenant r = t \<and> above t d (a_id r) a"
    if "r \<in> set (actors d)" "manager_of (a_id r) d = Inr nx" "climb 32 (a_tenant r) nx d = Inr up" for r nx up
    using climb_set [OF that(3)] above_unfold [OF row [OF that(1)] that(2)] assms(3) by auto
  have chs: "(x, us) \<in> set chs \<longleftrightarrow> (\<exists>r \<in> set (active_actors d). a_id r = x \<and>
      (\<exists>nx. manager_of x d = Inr nx \<and> climb 32 (a_tenant r) nx d = Inr us))" for x us
    unfolding map_result_Inr [OF assms(1) [unfolded chains_def]] by (auto simp: bind_result_Inr)
  have each: "\<exists>us nx. manager_of (a_id r) d = Inr nx \<and> climb 32 (a_tenant r) nx d = Inr us"
    if "r \<in> set (active_actors d)" for r
    using map_result_each [OF assms(1) [unfolded chains_def] that] by (auto simp: bind_result_Inr)
  have act: "r \<in> set (actors d)" if "r \<in> set (active_actors d)" for r using that by (simp add: active_actors_def)
  show ?thesis (is "?l \<longleftrightarrow> ?r")
  proof
    assume ?l
    then obtain us where us: "(ow, us) \<in> set chs" "a \<in> set us" by auto
    from us(1) obtain r nx where r: "r \<in> set (active_actors d)" "a_id r = ow" "manager_of (a_id r) d = Inr nx"
      "climb 32 (a_tenant r) nx d = Inr us"
      by (auto simp only: chs)
    have "a_tenant r = t \<and> above t d (a_id r) a" using up [OF act [OF r(1)] r(3,4)] us(2) by simp
    with r(1,2) show ?r by auto
  next
    assume ?r
    then obtain r where r: "r \<in> set (active_actors d)" "a_id r = ow" "a_tenant r = t" "above t d ow a" by blast
    from each [OF r(1)] obtain us nx where run: "manager_of (a_id r) d = Inr nx" "climb 32 (a_tenant r) nx d = Inr us"
      by blast
    have "(ow, us) \<in> set chs" unfolding chs using r(1,2) run by (intro bexI [of _ r] conjI exI [of _ nx]) simp_all
    moreover have "a \<in> set us" using up [OF act [OF r(1)] run] r by simp
    ultimately show ?l by blast
  qed
qed

lemma map_result_returns: "(\<And>x. \<exists>y. f x = Inr y) \<Longrightarrow> \<exists>ys. map_result f xs = Inr ys"
proof (induction xs)
  case (Cons x xs)
  then obtain y ys where "f x = Inr y" "map_result f xs = Inr ys" by blast
  then show ?case by simp
qed simp

lemma chains_return:
  assumes "metadata_ok d"
  shows "\<exists>chs. chains d = Inr chs"
  unfolding chains_def
proof (rule map_result_returns)
  fix r
  obtain nx where nx: "manager_of (a_id r) d = Inr nx" using assms by (auto simp: metadata_ok_def)
  obtain up where "climb 32 (a_tenant r) nx d = Inr up" using climb_returns [OF assms] by blast
  with nx show "\<exists>y. bind_result (manager_of (a_id r) d) (\<lambda>nx. bind_result (climb 32 (a_tenant r) nx d)
      (\<lambda>up. Inr (a_id r, up))) = Inr y"
    by simp
qed

lemma above_frame: "actors d' = actors d \<Longrightarrow> actor_metadata d' = actor_metadata d \<Longrightarrow> above t d' x m = above t d x m"
  by (simp add: above_def reports_to_def actor_tenant_def manager_of_def)

lemma above_actor: "above t d x m \<Longrightarrow> actor_tenant x d = Some t"
  unfolding above_def using relpow_Suc_D2 by (fastforce simp: reports_to_def Suc_le_eq gr0_conv_Suc)

lemma above_active:
  assumes "distinct (map a_id (actors d))" and "above t d x m"
  shows "(\<exists>r \<in> set (active_actors d). a_id r = x \<and> a_tenant r = t) \<longleftrightarrow> x \<in> a_id ` set (active_actors d)"
proof -
  have "a_tenant r = t" if "r \<in> set (active_actors d)" "a_id r = x" for r
    using above_actor [OF assms(2)] row_at_unique [OF assms(1), of r] that
    by (auto simp: actor_tenant_def active_actors_def)
  then show ?thesis by blast
qed

lemma visible_row:
  assumes chs: "chains d = Inr chs" and "visible_commitments_query d = Inr rows"
    and dist: "distinct (map a_id (actors d))" "distinct (map c_id (commitments d))"
    and a: "a \<in> set (actors d)" "a_status a = ''active''" and c: "c \<in> set (commitments d)" "c_tenant c = a_tenant a"
  shows "(a_id a, c_id c, a_tenant a) \<in> set rows \<longleftrightarrow> takes_part (a_id a) c d \<or>
    (\<exists>owner. c_owner c = Some owner \<and>
      (\<exists>r \<in> set (active_actors d). a_id r = owner \<and> a_tenant r = a_tenant a) \<and> above (a_tenant a) d owner (a_id a)) \<or>
    has_role (a_id a) ''admin'' (a_tenant a) d \<or> has_role (a_id a) ''leadership'' (a_tenant a) d \<or>
    has_grant (a_tenant a) (a_id a) ''commitment'' (c_id c) d"
proof -
  have tenant: "actor_tenant (a_id a) d = Some (a_tenant a)" using row_at_unique [OF dist(1) a(1)] by (simp add: actor_tenant_def)
  have one: "a' = a" if "a' \<in> set (actors d)" "a_id a' = a_id a" for a' using that a(1) dist(1) by (metis distinct_map inj_onD)
  have two: "c' = c" if "c' \<in> set (commitments d)" "c_id c' = c_id c" for c' using that c(1) dist(2) by (metis distinct_map inj_onD)
  define shown where "shown = (\<lambda>(a :: actor_row) (c :: commitment_row). c_owner c = Some (a_id a) \<or> is_contributor (c_id c) (a_id a) d
       \<or> list_ex (\<lambda>(start, above). c_owner c = Some start \<and> a_id a \<in> set above) chs
       \<or> sees_all a d \<or> has_grant (a_tenant a) (a_id a) ''commitment'' (c_id c) d)"
  have "rows = remdups [(a_id a, c_id c, c_tenant c). a \<leftarrow> active_actors d, c \<leftarrow> commitments d,
      c_tenant c = a_tenant a \<and> shown a c]"
    using assms(2) chs by (simp add: visible_commitments_query_def shown_def)
  then have "(a_id a, c_id c, a_tenant a) \<in> set rows \<longleftrightarrow> (\<exists>a' \<in> set (active_actors d). \<exists>c' \<in> set (commitments d).
      c_tenant c' = a_tenant a' \<and> shown a' c' \<and> a_id a = a_id a' \<and> c_id c = c_id c' \<and> a_tenant a = c_tenant c')"
    by (simp add: Bex_def) metis
  also have "\<dots> \<longleftrightarrow> shown a c"
  proof
    assume "\<exists>a' \<in> set (active_actors d). \<exists>c' \<in> set (commitments d).
      c_tenant c' = a_tenant a' \<and> shown a' c' \<and> a_id a = a_id a' \<and> c_id c = c_id c' \<and> a_tenant a = c_tenant c'"
    then obtain a' c' where "a' \<in> set (actors d)" "c' \<in> set (commitments d)" "shown a' c'" "a_id a' = a_id a" "c_id c' = c_id c"
      by (auto simp: active_actors_def)
    then show "shown a c" using one two by metis
  next
    assume "shown a c"
    then show "\<exists>a' \<in> set (active_actors d). \<exists>c' \<in> set (commitments d).
      c_tenant c' = a_tenant a' \<and> shown a' c' \<and> a_id a = a_id a' \<and> c_id c = c_id c' \<and> a_tenant a = c_tenant c'"
      using a c by (intro bexI [of _ a] bexI [of _ c]) (simp_all add: active_actors_def)
  qed
  also have "shown a c \<longleftrightarrow> takes_part (a_id a) c d \<or>
      (\<exists>owner. c_owner c = Some owner \<and> (\<exists>(start, up) \<in> set chs. start = owner \<and> a_id a \<in> set up)) \<or>
      sees_all a d \<or> has_grant (a_tenant a) (a_id a) ''commitment'' (c_id c) d"
    by (auto simp: shown_def takes_part_def list_ex_iff)
  finally show ?thesis unfolding chains_above [OF chs dist(1) tenant] sees_all_def by simp
qed

text \<open>
  a refresh of the view of commitments succeeds, and until something changes an active actor
  of the tenant sees in the view only commitments the check allows it to read, and all of them but
  those it may read because it contributes to the same goal or because it is above an owner who is
  no longer active.
\<close>

theorem commitment_view_exact:
  assumes "metadata_ok d0" and "distinct (map a_id (actors d0))" and "distinct (map c_id (commitments d0))"
    and "a \<in> set (actors d0)" "a_status a = ''active''" and "c \<in> set (commitments d0)" "c_tenant c = a_tenant a"
  shows "\<exists>d seen dec. refresh_one ''actor_visible_commitments'' d0 = (Inr (), d) \<and>
    is_commitment_visible_to (a_id a) (c_id c) (a_tenant a) d = Inr seen \<and>
    can_read_by_id (a_id a) ''commitment'' (c_id c) (a_tenant a) d = Inr dec \<and>
    (allowed dec \<longleftrightarrow> seen \<or> shares_goal (a_id a) (c_id c) d \<or>
      (\<exists>owner. c_owner c = Some owner \<and> owner \<notin> a_id ` set (active_actors d) \<and>
        above (a_tenant a) d owner (a_id a)))"
proof -
  let ?t = "a_tenant a"
  obtain chs where chs: "chains d0 = Inr chs" using chains_return [OF assms(1)] ..
  then obtain rows where rows: "visible_commitments_query d0 = Inr rows" by (simp add: visible_commitments_query_def)
  define d where "d = d0\<lparr>dirty_set := dirty_set d0 - {''actor_visible_commitments''}, visible_commitments := Some rows\<rparr>"
  have run: "refresh_one ''actor_visible_commitments'' d0 = (Inr (), d)" by (simp add: refresh_one_def rows d_def)
  have ok: "metadata_ok d" using assms(1) by (simp add: metadata_ok_def d_def manager_of_def)
  have tenant: "actor_tenant (a_id a) d0 = Some ?t" using row_at_unique [OF assms(2,4)] by (simp add: actor_tenant_def)
  have row: "row_at c_id (c_id c) (commitments d) = Some c" using row_at_unique [OF assms(3,6)] by (simp add: d_def)
  have same: "actor_tenant x d = actor_tenant x d0" "has_role x r t d = has_role x r t d0" "takes_part x c d = takes_part x c d0"
    "shares_goal x i d = shares_goal x i d0" "has_grant t x k i d = has_grant t x k i d0" "active_actors d = active_actors d0"
    "above t d x y = above t d0 x y" for x y r t i k
    by (simp_all add: d_def actor_tenant_def has_role_def takes_part_def is_contributor_def shares_goal_def has_grant_def
        active_actors_def above_def reports_to_def manager_of_def)
  let ?seen = "(a_id a, c_id c, ?t) \<in> set rows"
  have "is_commitment_visible_to (a_id a) (c_id c) ?t d = Inr ?seen"
    by (simp add: is_commitment_visible_to_def sees_row_def read_view_def d_def)
  moreover have "?seen \<longleftrightarrow> takes_part (a_id a) c d0 \<or>
      (\<exists>owner. c_owner c = Some owner \<and> (\<exists>r \<in> set (active_actors d0). a_id r = owner \<and> a_tenant r = ?t) \<and>
        above ?t d0 owner (a_id a)) \<or>
      has_role (a_id a) ''admin'' ?t d0 \<or> has_role (a_id a) ''leadership'' ?t d0 \<or> has_grant ?t (a_id a) ''commitment'' (c_id c) d0"
    by (rule visible_row [OF chs rows assms(2-7)])
  moreover obtain dec where "can_read_by_id (a_id a) ''commitment'' (c_id c) ?t d = Inr dec"
    "allowed dec \<longleftrightarrow> may_read_commitment (a_id a) c ?t d"
    using commitment_access_exact [OF ok] row assms(7) by (metis option.inject)
  moreover have "may_read_commitment (a_id a) c ?t d \<longleftrightarrow> ?seen \<or> shares_goal (a_id a) (c_id c) d \<or>
      (\<exists>owner. c_owner c = Some owner \<and> owner \<notin> a_id ` set (active_actors d) \<and> above ?t d owner (a_id a))"
    unfolding may_read_commitment_def same visible_row [OF chs rows assms(2-7)]
    using tenant above_active [OF assms(2)] by metis
  ultimately show ?thesis using run by blast
qed

section \<open>Overrides leave a trace\<close>




section \<open>Grants and revocations\<close>

text \<open>A role is held while a row without \<open>revoked_at\<close> says so.\<close>

definition holds_role :: "access_db \<Rightarrow> uuid \<times> uuid \<times> string \<times> uuid option \<times> string \<Rightarrow> bool" where
  "holds_role d g \<longleftrightarrow> (case g of (t, a, et, i, r) \<Rightarrow> (t, a, et, i, r, None) \<in> role_key ` set (actor_roles d))"

lemma grant_role_Inr:
  assumes "grant_role a et i r by' t d = (Inr (), d')"
  shows "\<exists>row. role_key row = (t, a, et, i, r, None) \<and>
    d' = (if role_key row \<in> role_key ` set (actor_roles d) then d else d\<lparr>actor_roles := actor_roles d @ [row]\<rparr>)"
proof (intro exI conjI)
  let ?row = "\<lparr>ro_tenant = t, ro_actor = a, ro_entity_type = et, ro_entity = i, ro_role = r, ro_granted_by = by',
    ro_granted_at = db_now d, ro_revoked_at = None\<rparr>"
  show "role_key ?row = (t, a, et, i, r, None)" by (simp add: role_key_def)
  show "d' = (if role_key ?row \<in> role_key ` set (actor_roles d) then d else d\<lparr>actor_roles := actor_roles d @ [?row]\<rparr>)"
    using assms by (auto simp: grant_role_def tx_simps Let_def split: if_splits)
qed

lemma revoke_role_Inr:
  assumes "revoke_role a et i r t d = (Inr b, d')"
  shows "b = holds_role d (t, a, et, i, r) \<and>
    (t, a, et, i, r, Some (db_now d)) \<notin> role_key ` set (actor_roles d) \<or> d' = d \<and> \<not> b \<and> \<not> holds_role d (t, a, et, i, r)"
    and "d' = d\<lparr>actor_roles := map (\<lambda>row. if active_grant a et i r t row then row\<lparr>ro_revoked_at := Some (db_now d)\<rparr>
      else row) (actor_roles d)\<rparr>"
proof -
  have ex: "list_ex (active_grant a et i r t) (actor_roles d) \<longleftrightarrow> holds_role d (t, a, et, i, r)"
    by (force simp: list_ex_iff holds_role_def active_grant_def)
  have id: "map (\<lambda>row. if active_grant a et i r t row then row\<lparr>ro_revoked_at := Some (db_now d)\<rparr> else row) (actor_roles d)
      = actor_roles d" if "\<not> list_ex (active_grant a et i r t) (actor_roles d)"
    using that by (auto simp: list_ex_iff intro: map_idI)
  show "b = holds_role d (t, a, et, i, r) \<and>
    (t, a, et, i, r, Some (db_now d)) \<notin> role_key ` set (actor_roles d) \<or> d' = d \<and> \<not> b \<and> \<not> holds_role d (t, a, et, i, r)"
    using assms ex by (auto simp: revoke_role_def tx_simps Let_def split: if_splits)
  show "d' = d\<lparr>actor_roles := map (\<lambda>row. if active_grant a et i r t row then row\<lparr>ro_revoked_at := Some (db_now d)\<rparr>
      else row) (actor_roles d)\<rparr>"
    using assms id by (auto simp: revoke_role_def tx_simps Let_def split: if_splits)
qed

lemma distinct_replace:
  "distinct ks \<Longrightarrow> k' \<notin> set ks \<or> k \<notin> set ks \<Longrightarrow> distinct (map (\<lambda>x. if x = k then k' else x) ks)"
  by (induction ks) auto

lemma revoked_key:
  "role_key (if active_grant a et i r t row then row\<lparr>ro_revoked_at := Some n\<rparr> else row) =
    (if role_key row = (t, a, et, i, r, None) then (t, a, et, i, r, Some n) else role_key row)"
  by (auto simp: active_grant_def role_key_def)

text \<open>
  after a grant the role is held, after a revocation it is not, and the answer of the
  revocation says whether it was held before; no other role is affected by either; the dedup
  constraint of the table keeps holding, so a role is never held by two rows.
\<close>

theorem role_lifecycle:
  assumes "distinct (map role_key (actor_roles d))"
  shows "(grant_role a et i r by' t d = (Inr (), d') \<longrightarrow>
      holds_role d' g = (holds_role d g \<or> g = (t, a, et, i, r)) \<and> distinct (map role_key (actor_roles d'))) \<and>
    (revoke_role a et i r t d = (Inr b, d') \<longrightarrow>
      holds_role d' g = (holds_role d g \<and> g \<noteq> (t, a, et, i, r)) \<and> b = holds_role d (t, a, et, i, r) \<and>
      distinct (map role_key (actor_roles d')))"
proof (rule conjI; rule impI)
  assume "grant_role a et i r by' t d = (Inr (), d')"
  from grant_role_Inr [OF this] obtain row where "role_key row = (t, a, et, i, r, None)"
    "d' = (if role_key row \<in> role_key ` set (actor_roles d) then d else d\<lparr>actor_roles := actor_roles d @ [row]\<rparr>)"
    by blast
  then show "holds_role d' g = (holds_role d g \<or> g = (t, a, et, i, r)) \<and> distinct (map role_key (actor_roles d'))"
    using assms by (auto simp: holds_role_def split: if_splits)
next
  assume run: "revoke_role a et i r t d = (Inr b, d')"
  let ?k = "(t, a, et, i, r, None)" and ?k' = "(t, a, et, i, r, Some (db_now d))"
  note r = revoke_role_Inr [OF run]
  have b: "b = holds_role d (t, a, et, i, r)" using r(1) by blast
  have keys: "map role_key (actor_roles d') = map (\<lambda>k. if k = ?k then ?k' else k) (map role_key (actor_roles d))"
    unfolding r(2) by (simp add: o_def revoked_key)
  have "holds_role d' g = (holds_role d g \<and> g \<noteq> (t, a, et, i, r))"
  proof -
    have "role_key ` set (actor_roles d') = (\<lambda>k. if k = ?k then ?k' else k) ` role_key ` set (actor_roles d)"
      using arg_cong [OF keys, of set] by (simp only: set_map)
    then show ?thesis by (auto simp: holds_role_def split: prod.splits if_splits)
  qed
  moreover have "distinct (map role_key (actor_roles d'))"
    unfolding keys using r(1) by (intro distinct_replace [OF assms]) (auto simp: holds_role_def)
  ultimately show "holds_role d' g = (holds_role d g \<and> g \<noteq> (t, a, et, i, r)) \<and> b = holds_role d (t, a, et, i, r) \<and>
      distinct (map role_key (actor_roles d'))"
    using b by blast
qed

section \<open>An office\<close>

text \<open>
  Tenant 7: actor 1 reports to 2, 3 is an admin, 4 may view commitment 10, which 1 owns and which
  contributes to goal 30. Observation 20 is in an HR channel, written by 1 on behalf of a sender
  that only another channel maps, to 4. Model 40 is about goal 30.
\<close>

definition office_actor :: "uuid \<Rightarrow> actor_row" where
  "office_actor i = \<lparr>a_id = i, a_tenant = 7, a_status = ''active''\<rparr>"

definition office_commitment :: commitment_row where
  "office_commitment = \<lparr>c_id = 10, c_tenant = 7, c_title = ''launch'', c_description = None, c_state = Active,
     c_owner = Some 1, c_due = None, c_ambition = ''base'', c_priority = 1, c_success_criteria = None, c_resolved = [],
     c_counterparty = None, c_capacity = None, c_maintenance = True, c_created_at = 0, c_changed_at = 0,
     c_terminal_at = None, c_created_by = 1, c_basis = None\<rparr>"

definition office_goal :: goal_row where
  "office_goal = \<lparr>g_id = 30, g_tenant = 7, g_title = ''grow'', g_description = None, g_state = Active, g_target_date = None,
     g_parent = None, g_altitude = ''operational'', g_success_criteria = None, g_health = Healthy, g_health_at = None,
     g_created_at = 0, g_changed_at = 0, g_created_by = 1, g_archived_at = None\<rparr>"

definition office_observation :: observation_row where
  "office_observation = \<lparr>o_id = 20, o_tenant = 7, o_occurred_at = 0, o_kind = ''message'', o_channel = ''hr:complaints'',
     o_actor = Some 1, o_content = [], o_trust = ''authoritative'', o_cause = None, o_entities = []\<rparr>"

definition office_role :: "uuid \<Rightarrow> string \<Rightarrow> uuid option \<Rightarrow> string \<Rightarrow> role_row" where
  "office_role a et i r = \<lparr>ro_tenant = 7, ro_actor = a, ro_entity_type = et, ro_entity = i, ro_role = r,
     ro_granted_by = None, ro_granted_at = 0, ro_revoked_at = None\<rparr>"

definition office :: access_db where
  "office = \<lparr>actors = map office_actor [1, 2, 3, 4], goals = [office_goal], commitments = [office_commitment],
     decisions = [], contributors = [], contributes_to = [\<lparr>ct_commitment = 10, ct_goal = 30, ct_critical = True\<rparr>],
     depends_on = [], constrained_by = [], observations = [office_observation], resources = [], ledger = [],
     deployments = [], links = [], trigger_queue = [], model_ids = [40], uuid_next = 100, db_now = 5, py_now = 5,
     actor_metadata = (\<lambda>i. if i = 1 then [(''manager_id'', JUuid 2)] else []),
     source_refs = (\<lambda>i. if i = 20 then Some ''U9'' else None),
     actor_roles = [office_role 3 ''tenant'' None ''admin'', office_role 4 ''commitment'' (Some 10) ''viewer''],
     shared_channels = [], identity_mappings = [\<lparr>im_actor = 4, im_channel = ''chat:general'', im_ref = ''U9''\<rparr>],
     model_scopes = [\<lparr>ms_id = 40, ms_tenant = 7, ms_status = ''active'', ms_visible = False, ms_scope_actors = [],
       ms_scope_entities = JList [JObj [(''type'', JStr ''goal''), (''id'', JUuid 30)]]\<rparr>],
     visible_commitments = None, visible_goals = None, visible_models = None, dirty_set = {}, override_log = []\<rparr>"

lemmas office_rows = office_actor_def office_commitment_def office_goal_def office_observation_def office_role_def

lemma office_metadata: "metadata_ok office"
  by (simp add: metadata_ok_def manager_of_def office_def dict_get_or_def dict_get_def)

lemma office_above: "above 7 office 1 2"
  unfolding above_def by (rule bexI [of _ 1])
    (simp_all add: reports_to_def manager_of_def actor_tenant_def office_def office_rows row_simps dict_get_or_def dict_get_def)

theorem commitment_access_exact_witness: "\<exists>dec. can_read_by_id 2 ''commitment'' 10 7 office = Inr dec \<and> allowed dec"
proof -
  have "row_at c_id 10 (commitments office) = Some office_commitment" "c_tenant office_commitment = 7"
    "c_owner office_commitment = Some 1" "actor_tenant 2 office = Some 7"
    by (simp_all add: office_def office_rows row_simps actor_tenant_def)
  then show ?thesis
    using commitment_access_exact [OF office_metadata, of 2 10 7] office_above by (auto simp: may_read_commitment_def)
qed

theorem tenant_isolation_witness:
  "actor_tenant 1 office = Some 7 \<and> exists_in ''commitment'' 10 7 office \<and>
   can_read_by_id 1 ''commitment'' 10 7 office = Inr (decide True ''commitment_owner'')"
proof -
  have "can_read_by_id 1 ''commitment'' 10 7 office = Inr (decide True ''commitment_owner'')"
    by (simp add: can_read_by_id_def load_commitment can_read_cases dispatch_kind_def check_commitment_def rule_pure
        of_tenant_def actor_tenant_def blank_entity_def has_role_def office_def office_rows row_simps)
  with tenant_isolation [of 1 "''commitment''" 10 7 office] show ?thesis by simp
qed

theorem sensitive_channel_closed_witness:
  "has_role 3 ''admin'' 7 office \<and> (\<exists>dec. can_read_by_id 3 ''observation'' 20 7 office = Inr dec \<and> \<not> allowed dec)"
  using sensitive_channel_closed [of 20 office office_observation 7 3]
  by (auto simp: office_def office_rows row_simps has_role_def has_grant_def is_hr_channel_def
      HR_CHANNEL_PREFIXES_def starts_with_def mentions_def mapped_actor_def actor_tenant_def)

theorem commitment_view_exact_witness:
  "\<exists>d seen dec. refresh_one ''actor_visible_commitments'' office = (Inr (), d) \<and>
    is_commitment_visible_to 2 10 7 d = Inr seen \<and> can_read_by_id 2 ''commitment'' 10 7 d = Inr dec \<and>
    (seen \<longrightarrow> allowed dec)"
  using commitment_view_exact [OF office_metadata, of "office_actor 2" office_commitment]
  by (auto simp: office_def office_rows)


theorem role_lifecycle_witness:
  "\<exists>d d'. grant_role 2 ''tenant'' None ''finance'' (Some 3) 7 office = (Inr (), d) \<and>
    holds_role d (7, 2, ''tenant'', None, ''finance'') \<and>
    revoke_role 3 ''tenant'' None ''admin'' 7 office = (Inr True, d') \<and> \<not> holds_role d' (7, 3, ''tenant'', None, ''admin'')"
proof -
  have dist: "distinct (map role_key (actor_roles office))" by (simp add: office_def office_rows role_key_def)
  obtain d where d: "grant_role 2 ''tenant'' None ''finance'' (Some 3) 7 office = (Inr (), d)"
    by (simp add: grant_role_def tx_simps Let_def validate_role_def then_check_def fails_def LEGAL_ENTITY_TYPES_def
        LEGAL_ROLES_def bind_tx_def check_tx_def role_key_def office_def office_rows row_simps)
  obtain d' where d': "revoke_role 3 ''tenant'' None ''admin'' 7 office = (Inr True, d')"
    by (simp add: revoke_role_def Let_def validate_role_def then_check_def fails_def LEGAL_ENTITY_TYPES_def
        LEGAL_ROLES_def bind_tx_def check_tx_def active_grant_def role_key_def office_def office_rows)
  show ?thesis using role_lifecycle [OF dist, of 2 _ _ _ _ 7 d] role_lifecycle [OF dist, of 3 _ _ _ _ 7 d'] d d' by blast
qed

section \<open>Where the layers disagree\<close>

lemma climb_None [simp]: "climb n t None d = Inr []"
  by (cases n) simp_all

lemma climb_32: "climb 32 t (Some m) d =
    (if actor_tenant m d = Some t
     then bind_result (manager_of m d) (\<lambda>nx. bind_result (climb 31 t nx d) (\<lambda>up. Inr (m # up))) else Inr [])"
  using climb.simps(2) [of 31 t "Some m" d] by simp

lemma chain_loop_numeral: "chain_loop (numeral k) t current seen out d =
    bind_result (manager_row current t d) (\<lambda>nx. case nx of None \<Rightarrow> Inr out
      | Some m \<Rightarrow> if m \<in> set seen then Inr out else chain_loop (pred_numeral k) t m (m # seen) (out @ [m]) d)"
  by (simp add: numeral_eq_Suc)

lemmas office_eval = manager_of_def actor_tenant_def active_actors_def sees_all_def has_role_def has_grant_def
  is_contributor_def dict_get_or_def dict_get_def row_simps office_rows

lemma office_chains: "chains office = Inr [(1, [2]), (2, []), (3, []), (4, [])]"
  by (simp add: chains_def climb_32 office_def office_eval)

lemma office_commitments_view:
  "visible_commitments_query office = Inr [(1, 10, 7), (2, 10, 7), (3, 10, 7), (4, 10, 7)]"
  unfolding visible_commitments_query_def office_chains by (simp add: office_def office_eval)

definition refreshed_office :: access_db where
  "refreshed_office = office\<lparr>visible_commitments := Some [(1, 10, 7), (2, 10, 7), (3, 10, 7), (4, 10, 7)],
     visible_goals := Some [(1, 30, 7), (2, 30, 7), (4, 30, 7), (3, 30, 7)], visible_models := Some [(3, 40, 7)]\<rparr>"

lemma office_refreshed: "snd (refresh_all office) = refreshed_office"
proof -
  let ?d = "office\<lparr>visible_commitments := Some [(1, 10, 7), (2, 10, 7), (3, 10, 7), (4, 10, 7)]\<rparr>"
  have 1: "refresh_one ''actor_visible_commitments'' office = (Inr (), ?d)"
    by (simp add: refresh_one_def office_commitments_view Let_def) (simp add: office_def)
  have 2: "refresh_one ''actor_visible_goals'' ?d = (Inr (), ?d\<lparr>visible_goals := Some [(1, 30, 7), (2, 30, 7), (4, 30, 7), (3, 30, 7)]\<rparr>)"
    by (simp add: refresh_one_def visible_goals_query_def read_view_def office_def office_eval)
  have 3: "refresh_one ''actor_visible_models'' (?d\<lparr>visible_goals := Some [(1, 30, 7), (2, 30, 7), (4, 30, 7), (3, 30, 7)]\<rparr>)
      = (Inr (), refreshed_office)"
    by (simp add: refresh_one_def visible_models_query_def refreshed_office_def office_def office_eval)
  show ?thesis by (simp add: refresh_all_def MATERIALIZED_VIEWS_def 1 2 3 del: One_nat_def)
qed

text \<open>
  Actor 4 may only view commitment 10. The view of goals shows it the goal of that commitment,
  which the check does not, and so it reads the model about the goal.
\<close>

theorem grant_on_commitment_opens_goal:
  "is_goal_visible_to 4 30 7 (snd (refresh_all office)) = Inr True"
  "can_read_by_id 4 ''goal'' 30 7 (snd (refresh_all office)) = Inr (decide False ''goal_out_of_scope'')"
  "can_read_by_id 4 ''model'' 40 7 (snd (refresh_all office)) = Inr (decide True ''model_via_goal_scope'')"
proof -
  show "is_goal_visible_to 4 30 7 (snd (refresh_all office)) = Inr True"
    unfolding office_refreshed by (simp add: is_goal_visible_to_def sees_row_def read_view_def refreshed_office_def)
  have "is_in_manager_chain 1 4 7 refreshed_office = Inr False"
    by (simp add: is_in_manager_chain_def manager_chain_of_def chain_loop_numeral manager_row_def refreshed_office_def
        office_def office_eval)
  then show "can_read_by_id 4 ''goal'' 30 7 (snd (refresh_all office)) = Inr (decide False ''goal_out_of_scope'')"
    unfolding office_refreshed
    by (simp add: can_read_by_id_def load_entity_def of_tenant_def can_read_cases dispatch_kind_def check_goal_def
        rule_pure deny_def goal_commitments_def takes_part_def blank_entity_def refreshed_office_def office_def office_eval
        map_filter_simps)
  show "can_read_by_id 4 ''model'' 40 7 (snd (refresh_all office)) = Inr (decide True ''model_via_goal_scope'')"
    unfolding office_refreshed
    by (simp add: can_read_by_id_def load_entity_def of_tenant_def can_read_cases dispatch_kind_def check_model_def
        rule_pure rule_def entity_type_of_def py_or_def is_goal_visible_to_def sees_row_def read_view_def
        blank_entity_def refreshed_office_def office_def office_eval)
qed

text \<open>Revoking the grant does not refresh the views: the model stays readable.\<close>

theorem revoked_viewer_still_reads_model:
  "\<exists>d. revoke_role 4 ''commitment'' (Some 10) ''viewer'' 7 (snd (refresh_all office)) = (Inr True, d) \<and>
    can_read_by_id 4 ''model'' 40 7 d = Inr (decide True ''model_via_goal_scope'')"
  unfolding office_refreshed
  by (simp add: revoke_role_def Let_def validate_role_def then_check_def fails_def LEGAL_ENTITY_TYPES_def LEGAL_ROLES_def
      bind_tx_def check_tx_def active_grant_def role_key_def can_read_by_id_def load_entity_def of_tenant_def
      can_read_cases dispatch_kind_def check_model_def rule_pure rule_def entity_type_of_def py_or_def
      is_goal_visible_to_def sees_row_def read_view_def blank_entity_def refreshed_office_def office_def office_eval)

text \<open>
  The source reference is looked up without its channel: the HR observation is open to actor 4,
  whom only \<open>chat:general\<close> knows by that reference.
\<close>

theorem reference_of_another_channel_opens_hr:
  "is_hr_channel (Some (o_channel office_observation))"
  "list_all (\<lambda>m. im_channel m \<noteq> o_channel office_observation) (identity_mappings office)"
  "can_read_by_id 4 ''observation'' 20 7 office = Inr (decide True ''observation_source_actor_ref'')"
proof -
  show "is_hr_channel (Some (o_channel office_observation))"
    by (simp add: office_rows is_hr_channel_def HR_CHANNEL_PREFIXES_def starts_with_def)
  show "list_all (\<lambda>m. im_channel m \<noteq> o_channel office_observation) (identity_mappings office)"
    by (simp add: office_def office_rows)
  show "can_read_by_id 4 ''observation'' 20 7 office = Inr (decide True ''observation_source_actor_ref'')"
    by (simp add: can_read_by_id_def load_entity_def of_tenant_def can_read_cases dispatch_kind_def check_observation_def
        rule_pure Let_def is_hr_channel_def HR_CHANNEL_PREFIXES_def starts_with_def mentions_def by_source_ref_def
        mapped_actor_def blank_entity_def office_def office_eval)
qed

text \<open>
  \<open>now()\<close> is the start of the transaction: a role granted and revoked twice in one transaction
  cannot be revoked the second time.
\<close>

theorem second_revocation_in_transaction_fails:
  "let grant = grant_role 2 ''tenant'' None ''finance'' None 7; revoke = revoke_role 2 ''tenant'' None ''finance'' 7
   in fst (bind_tx grant (\<lambda>_. bind_tx revoke (\<lambda>_. bind_tx grant (\<lambda>_. revoke))) office)
     = Inl (UniqueViolationError ''actor_roles_dedup'')"
  by (simp add: grant_role_def revoke_role_def Let_def validate_role_def then_check_def fails_def LEGAL_ENTITY_TYPES_def
      LEGAL_ROLES_def bind_tx_def check_tx_def active_grant_def role_key_def office_def office_rows row_simps)

end
