(* ===== verification/Capabilities.thy ===== *)
theory Capabilities
  imports AccessChecks
begin

text \<open>
  What an extension may do: the capability vocabulary of
  \<open>lib/extensions/host_api/v1/capabilities.py\<close>, parsed from a manifest, intersected with what an
  operator approved, and the check \<open>extension_can_read\<close> of
  \<open>services/platform/access_control/extension_caps.py\<close>. A frozenset is a set; \<open>str\<close> of a JSON
  value that is not a string is the argument \<open>str_of\<close>.
\<close>

section \<open>The vocabulary\<close>

definition SUBSTRATE_KINDS :: "string set" where
  "SUBSTRATE_KINDS = {''observation'', ''commitment'', ''goal'', ''decision'', ''resource'', ''model''}"

definition RESOURCE_KINDS :: "string set" where
  "RESOURCE_KINDS = {''financial'', ''ip'', ''relational'', ''capacity'', ''infrastructure'', ''regulatory''}"

definition MUTATE_REASONING_VALUES :: "string list" where
  "MUTATE_REASONING_VALUES = [''none'', ''augment_only'', ''contribute_diff'']"

text \<open>\<open>read_channels\<close>: the sentinel \<open>ALL_CHANNELS\<close> or a tuple.\<close>

datatype channel_grant = AllChannels | Channels "string list"

record capabilities =
  ca_read_channels :: channel_grant
  ca_substrate_read :: "string set"
  ca_substrate_write :: "string set"
  ca_write_observations :: bool
  ca_mutate_reasoning :: string
  ca_resource_kinds :: "string set"

definition capability_error :: "string \<Rightarrow> err" where
  "capability_error message = OtherError (''CapabilityError: '' @ message)"

definition allows_channel :: "capabilities \<Rightarrow> string \<Rightarrow> bool" where
  "allows_channel c channel = (case ca_read_channels c of AllChannels \<Rightarrow> True | Channels cs \<Rightarrow> channel \<in> set cs)"

definition allows_read_kind :: "capabilities \<Rightarrow> string \<Rightarrow> bool" where
  "allows_read_kind c kind = (kind \<in> ca_substrate_read c)"

definition allows_resource_kind :: "capabilities \<Rightarrow> string \<Rightarrow> bool" where
  "allows_resource_kind c kind = (kind \<in> ca_resource_kinds c)"

definition may_write_reasoning :: "capabilities \<Rightarrow> bool" where
  "may_write_reasoning c = (ca_mutate_reasoning c = ''contribute_diff'')"

section \<open>Serialisation\<close>

definition sorted_json :: "string set \<Rightarrow> json" where
  "sorted_json S = JList (map JStr (sorted_list_of_set S))"

definition capabilities_to_dict :: "capabilities \<Rightarrow> dict" where
  "capabilities_to_dict c =
    [(''read_channels'', case ca_read_channels c of AllChannels \<Rightarrow> JStr ''all'' | Channels cs \<Rightarrow> JList (map JStr cs)),
     (''substrate_read'', sorted_json (ca_substrate_read c)),
     (''substrate_write'', sorted_json (ca_substrate_write c)),
     (''write_observations'', JBool (ca_write_observations c)),
     (''mutate_reasoning'', JStr (ca_mutate_reasoning c)),
     (''resource_kinds'', sorted_json (ca_resource_kinds c))]"

text \<open>\<open>frozenset(str(k) for k in (raw.get(key) or []))\<close>.\<close>

definition string_set :: "(json \<Rightarrow> string) \<Rightarrow> dict \<Rightarrow> string \<Rightarrow> string set result" where
  "string_set str_of raw key =
    bind_result (py_iter (py_or (dict_get_or raw key JNull) (JList []))) (\<lambda>xs. Inr (str_of ` set xs))"

definition channels_of :: "(json \<Rightarrow> string) \<Rightarrow> json option \<Rightarrow> channel_grant result" where
  "channels_of str_of rc =
    (case rc of
       None \<Rightarrow> Inr (Channels [])
     | Some (JStr s) \<Rightarrow> if s = ''all'' then Inr AllChannels else if s = [] then Inr (Channels [])
         else Inl (capability_error (''read_channels must be a list or '' @ py_repr ''all''))
     | Some (JList xs) \<Rightarrow> Inr (Channels (map str_of xs))
     | Some JNull \<Rightarrow> Inr (Channels [])
     | Some _ \<Rightarrow> Inl (capability_error (''read_channels must be a list or '' @ py_repr ''all'')))"

definition capabilities_from_dict :: "(json \<Rightarrow> string) \<Rightarrow> dict option \<Rightarrow> capabilities result" where
  "capabilities_from_dict str_of raw =
    (let raw = (case raw of None \<Rightarrow> [] | Some r \<Rightarrow> r) in
     bind_result (channels_of str_of (dict_get raw ''read_channels'')) (\<lambda>read_channels.
     bind_result (string_set str_of raw ''substrate_read'') (\<lambda>sr.
     bind_result (string_set str_of raw ''substrate_write'') (\<lambda>sw.
     if (sr \<union> sw) - SUBSTRATE_KINDS \<noteq> {} then Inl (capability_error ''unknown substrate kind(s)'')
     else bind_result (string_set str_of raw ''resource_kinds'') (\<lambda>rk.
       if rk - RESOURCE_KINDS \<noteq> {} then Inl (capability_error ''unknown resource_kind(s)'')
       else let mr = str_of (dict_get_or raw ''mutate_reasoning'' (JStr ''none'')) in
         if mr \<notin> set MUTATE_REASONING_VALUES then Inl (capability_error ''mutate_reasoning'')
         else Inr \<lparr>ca_read_channels = read_channels, ca_substrate_read = sr, ca_substrate_write = sw,
                ca_write_observations = truthy (dict_get_or raw ''write_observations'' (JBool False)),
                ca_mutate_reasoning = mr, ca_resource_kinds = rk\<rparr>)))))"

section \<open>Intersection\<close>

text \<open>The position of a value on the ladder, \<open>order[v]\<close>; \<open>None\<close> is a \<open>KeyError\<close>.\<close>

definition ladder :: "string \<Rightarrow> nat option" where
  "ladder v = map_of (zip MUTATE_REASONING_VALUES [0..<length MUTATE_REASONING_VALUES]) v"

definition intersect :: "capabilities \<Rightarrow> capabilities \<Rightarrow> capabilities result" where
  "intersect c approved =
    (let rc = (case (ca_read_channels c, ca_read_channels approved) of
           (AllChannels, r) \<Rightarrow> r
         | (r, AllChannels) \<Rightarrow> r
         | (Channels cs, Channels as) \<Rightarrow> Channels (filter (\<lambda>ch. ch \<in> set as) cs))
     in case (ladder (ca_mutate_reasoning c), ladder (ca_mutate_reasoning approved)) of
          (Some i, Some j) \<Rightarrow> Inr \<lparr>ca_read_channels = rc,
            ca_substrate_read = ca_substrate_read c \<inter> ca_substrate_read approved,
            ca_substrate_write = ca_substrate_write c \<inter> ca_substrate_write approved,
            ca_write_observations = (ca_write_observations c \<and> ca_write_observations approved),
            ca_mutate_reasoning = (if j < i then ca_mutate_reasoning approved else ca_mutate_reasoning c),
            ca_resource_kinds = ca_resource_kinds c \<inter> ca_resource_kinds approved\<rparr>
        | _ \<Rightarrow> Inl (OtherError ''KeyError''))"

section \<open>The check\<close>

definition extension_can_read :: "capabilities \<Rightarrow> entity \<Rightarrow> uuid \<Rightarrow> access_decision" where
  "extension_can_read c e tenant_id =
    (case en_kind e of
       None \<Rightarrow> decide False ''ext_entity_missing_kind''
     | Some kind \<Rightarrow>
         if (case en_tenant e of None \<Rightarrow> False | Some ent_tenant \<Rightarrow> ent_tenant \<noteq> tenant_id)
         then decide False ''ext_tenant_mismatch''
         else if \<not> allows_read_kind c kind then decide False (''ext_kind_not_granted:'' @ kind)
         else let channel = (case en_channel e of None \<Rightarrow> [] | Some ch \<Rightarrow> ch) in
           if kind = ''observation'' \<and> \<not> allows_channel c channel
           then decide False (''ext_channel_not_granted:'' @ channel)
           else if kind = ''resource'' \<and>
               (case en_resource_kind e of None \<Rightarrow> True | Some rk \<Rightarrow> \<not> allows_resource_kind c rk)
           then decide False (''ext_resource_kind_not_granted:'' @
             (case en_resource_kind e of None \<Rightarrow> ''None'' | Some rk \<Rightarrow> rk))
           else decide True ''ext_capability_grant'')"

section \<open>Properties\<close>

definition valid_capabilities :: "capabilities \<Rightarrow> bool" where
  "valid_capabilities c \<longleftrightarrow> ca_substrate_read c \<subseteq> SUBSTRATE_KINDS \<and> ca_substrate_write c \<subseteq> SUBSTRATE_KINDS \<and>
    ca_resource_kinds c \<subseteq> RESOURCE_KINDS \<and> ca_mutate_reasoning c \<in> set MUTATE_REASONING_VALUES"

lemma from_dict_valid:
  "capabilities_from_dict str_of raw = Inr c \<Longrightarrow> valid_capabilities c"
  by (auto simp: capabilities_from_dict_def Let_def bind_result_Inr valid_capabilities_def split: if_splits)

lemma ladder_valid: "v \<in> set MUTATE_REASONING_VALUES \<longleftrightarrow> (\<exists>i. ladder v = Some i)"
  by (auto simp: ladder_def MUTATE_REASONING_VALUES_def)

lemma string_set_sorted:
  assumes "\<And>s. str_of (JStr s) = s" and "finite S"
    and "dict_get raw key = Some (sorted_json S)"
  shows "string_set str_of raw key = Inr S"
proof -
  have "py_iter (py_or (sorted_json S) (JList [])) = Inr (map JStr (sorted_list_of_set S))"
    by (simp add: sorted_json_def py_or_def)
  moreover have "str_of ` JStr ` S = S" using assms(1) by (simp add: image_image)
  ultimately show ?thesis using assms by (simp add: string_set_def dict_get_or_def)
qed

text \<open>
  C11: writing a valid grant as a dictionary and parsing it back yields the same grant; whatever
  parses is valid.
\<close>

theorem capabilities_roundtrip:
  assumes "\<And>s. str_of (JStr s) = s"
  shows "(valid_capabilities c \<longrightarrow> capabilities_from_dict str_of (Some (capabilities_to_dict c)) = Inr c) \<and>
    (\<forall>raw c'. capabilities_from_dict str_of raw = Inr c' \<longrightarrow> valid_capabilities c')"
proof (rule conjI; (intro allI)?; rule impI)
  show "valid_capabilities c'" if "capabilities_from_dict str_of raw = Inr c'" for raw c'
    using that by (rule from_dict_valid)
next
  assume valid: "valid_capabilities c"
  have fin: "finite (ca_substrate_read c)" "finite (ca_substrate_write c)" "finite (ca_resource_kinds c)"
    using valid finite_subset by (auto simp: valid_capabilities_def SUBSTRATE_KINDS_def RESOURCE_KINDS_def)
  let ?d = "capabilities_to_dict c"
  have sets: "string_set str_of ?d ''substrate_read'' = Inr (ca_substrate_read c)"
    "string_set str_of ?d ''substrate_write'' = Inr (ca_substrate_write c)"
    "string_set str_of ?d ''resource_kinds'' = Inr (ca_resource_kinds c)"
    by (rule string_set_sorted [OF assms]; simp add: fin capabilities_to_dict_def dict_get_def)+
  have "channels_of str_of (dict_get ?d ''read_channels'') = Inr (ca_read_channels c)"
    using assms by (cases "ca_read_channels c") (simp_all add: channels_of_def capabilities_to_dict_def dict_get_def o_def)
  moreover have "str_of (dict_get_or ?d ''mutate_reasoning'' (JStr ''none'')) = ca_mutate_reasoning c"
    "truthy (dict_get_or ?d ''write_observations'' (JBool False)) = ca_write_observations c"
    using assms by (simp_all add: capabilities_to_dict_def dict_get_or_def dict_get_def)
  moreover have "ca_substrate_read c \<union> ca_substrate_write c - SUBSTRATE_KINDS = {}" "ca_resource_kinds c - RESOURCE_KINDS = {}"
    using valid by (auto simp: valid_capabilities_def)
  ultimately show "capabilities_from_dict str_of (Some ?d) = Inr c"
    using valid sets by (simp add: capabilities_from_dict_def valid_capabilities_def)
qed

text \<open>
  C10: intersecting two valid grants returns a valid grant that allows exactly what both allow: an
  extension reads an entity under it if and only if it reads it under what it declared and under
  what was approved, and the same holds of writing observations, of every kind of substrate it
  writes and of contributing to reasoning.
\<close>

theorem intersection_exact:
  assumes "valid_capabilities c" and "valid_capabilities approved"
  shows "\<exists>g. intersect c approved = Inr g \<and> valid_capabilities g \<and>
    (\<forall>e t. allowed (extension_can_read g e t) \<longleftrightarrow>
      allowed (extension_can_read c e t) \<and> allowed (extension_can_read approved e t)) \<and>
    (ca_write_observations g \<longleftrightarrow> ca_write_observations c \<and> ca_write_observations approved) \<and>
    ca_substrate_write g = ca_substrate_write c \<inter> ca_substrate_write approved \<and>
    (may_write_reasoning g \<longleftrightarrow> may_write_reasoning c \<and> may_write_reasoning approved)"
proof -
  obtain i j where lad: "ladder (ca_mutate_reasoning c) = Some i" "ladder (ca_mutate_reasoning approved) = Some j"
    using assms by (auto simp: valid_capabilities_def ladder_valid)
  then obtain g where g: "intersect c approved = Inr g" by (simp add: intersect_def Let_def)
  have top: "ladder v = Some k \<Longrightarrow> v = ''contribute_diff'' \<longleftrightarrow> k = 2"
    and low: "ladder v = Some k \<Longrightarrow> k \<le> 2" for v k
    by (auto simp: ladder_def MUTATE_REASONING_VALUES_def upt_rec split: if_splits)
  have "valid_capabilities g"
    using assms g lad by (auto simp: intersect_def Let_def valid_capabilities_def split: if_splits)
  moreover have chan: "allows_channel g ch \<longleftrightarrow> allows_channel c ch \<and> allows_channel approved ch"
    and kind: "allows_read_kind g k \<longleftrightarrow> allows_read_kind c k \<and> allows_read_kind approved k"
    and res: "allows_resource_kind g k \<longleftrightarrow> allows_resource_kind c k \<and> allows_resource_kind approved k" for ch k
    using g lad by (auto simp: intersect_def Let_def allows_channel_def allows_read_kind_def allows_resource_kind_def
        split: channel_grant.splits)
  moreover have "allowed (extension_can_read g e t) \<longleftrightarrow>
      allowed (extension_can_read c e t) \<and> allowed (extension_can_read approved e t)" for e t
    by (auto simp: extension_can_read_def Let_def chan kind res split: option.splits)
  moreover have "may_write_reasoning g \<longleftrightarrow> may_write_reasoning c \<and> may_write_reasoning approved"
    using g lad top [OF lad(1)] top [OF lad(2)] low [OF lad(1)] low [OF lad(2)]
    by (auto simp: intersect_def Let_def may_write_reasoning_def split: if_split_asm)
  moreover have "ca_write_observations g \<longleftrightarrow> ca_write_observations c \<and> ca_write_observations approved"
    "ca_substrate_write g = ca_substrate_write c \<inter> ca_substrate_write approved"
    using g lad by (auto simp: intersect_def Let_def)
  ultimately show ?thesis using g by blast
qed

definition crm_extension :: capabilities where
  "crm_extension = \<lparr>ca_read_channels = Channels [''chat:sales'', ''hr:hiring''],
     ca_substrate_read = {''observation'', ''resource''}, ca_substrate_write = {''resource''}, ca_write_observations = True,
     ca_mutate_reasoning = ''contribute_diff'', ca_resource_kinds = {''relational''}\<rparr>"

definition operator_approval :: capabilities where
  "operator_approval = \<lparr>ca_read_channels = Channels [''chat:sales''], ca_substrate_read = SUBSTRATE_KINDS,
     ca_substrate_write = {}, ca_write_observations = False, ca_mutate_reasoning = ''augment_only'',
     ca_resource_kinds = RESOURCE_KINDS\<rparr>"

lemma examples_valid: "valid_capabilities crm_extension" "valid_capabilities operator_approval"
  by (auto simp: valid_capabilities_def crm_extension_def operator_approval_def SUBSTRATE_KINDS_def RESOURCE_KINDS_def
      MUTATE_REASONING_VALUES_def)

theorem capabilities_roundtrip_witness:
  "\<exists>str_of. (\<forall>s. str_of (JStr s) = s) \<and>
    capabilities_from_dict str_of (Some (capabilities_to_dict crm_extension)) = Inr crm_extension"
proof -
  let ?str = "case_json ''None'' (\<lambda>_. []) (\<lambda>_. []) (\<lambda>_. []) (\<lambda>s. s) (\<lambda>_. []) (\<lambda>_. []) (\<lambda>_. [])"
  have "?str (JStr s) = s" for s by simp
  from capabilities_roundtrip [of ?str crm_extension, OF this] examples_valid(1) this show ?thesis by blast
qed

theorem intersection_exact_witness:
  "\<exists>g. intersect crm_extension operator_approval = Inr g \<and>
    \<not> allowed (extension_can_read g (blank_entity ''observation'' 1 7\<lparr>en_channel := Some ''hr:hiring''\<rparr>) 7) \<and>
    allowed (extension_can_read g (blank_entity ''observation'' 1 7\<lparr>en_channel := Some ''chat:sales''\<rparr>) 7) \<and>
    \<not> may_write_reasoning g"
proof -
  let ?o = "\<lambda>ch. blank_entity ''observation'' 1 7\<lparr>en_channel := Some ch\<rparr>"
  have read: "allowed (extension_can_read c (?o ch) 7) \<longleftrightarrow> allows_read_kind c ''observation'' \<and> allows_channel c ch" for c ch
    by (simp add: extension_can_read_def blank_entity_def)
  have "\<not> allows_channel operator_approval ''hr:hiring''" "allows_channel operator_approval ''chat:sales''"
    "allows_channel crm_extension ''chat:sales''" "allows_read_kind operator_approval ''observation''"
    "allows_read_kind crm_extension ''observation''" "\<not> may_write_reasoning operator_approval"
    by (simp_all add: allows_channel_def allows_read_kind_def may_write_reasoning_def crm_extension_def
        operator_approval_def SUBSTRATE_KINDS_def)
  then show ?thesis using intersection_exact [OF examples_valid] read by metis
qed

text \<open>The tenant is compared only when the entity carries one.\<close>

theorem entity_without_tenant_is_readable:
  "allowed (extension_can_read crm_extension
    (blank_entity ''resource'' 1 8\<lparr>en_tenant := None, en_resource_kind := Some ''relational''\<rparr>) 7)"
  by (simp add: extension_can_read_def blank_entity_def crm_extension_def allows_read_kind_def allows_resource_kind_def
      Let_def)

end
