(* ===== verification/WorkerStore.thy ===== *)
theory WorkerStore
  imports Triggers Access EdgeStore Revenue
begin

text \<open>
  What the trigger worker \<open>services/reasoning/think/worker.py\<close>, the post-commit worker and the
  operators' dead-letter routes share: the configuration, the tables of the durable queues, the
  readers of payloads, and \<open>enqueue_model_reeval\<close> of \<open>services/domain/triggers.py\<close>. A payload
  is its decoded dictionary; a text that \<open>UUID()\<close> accepts is a \<open>JUuid\<close>. Seconds are real numbers,
  a time is in microseconds.
\<close>

section \<open>Configuration\<close>

record worker_config =
  wc_poll_batch :: int
  wc_max_concurrency :: int
  wc_trigger_max_attempts :: int
  wc_reeval_max_attempts :: int
  wc_lock_timeout_s :: real
  wc_heartbeat_interval_s :: real
  wc_run_timeout_s :: real
  wc_t1_window_s :: real
  wc_t1_max_size :: int
  wc_t1_min_size :: int
  wc_down_window_s :: real
  wc_down_min_size :: int
  wc_t2_max_size :: int
  wc_t4_max_size :: int
  wc_prune :: bool
  wc_min_leverage :: real
  wc_min_impact :: real
  wc_min_actionability :: real
  wc_min_confidence :: real
  wc_worker_id :: string
  wc_tenant :: "uuid option"

definition default_config :: worker_config where
  "default_config = \<lparr>wc_poll_batch = 10, wc_max_concurrency = 1, wc_trigger_max_attempts = 5,
     wc_reeval_max_attempts = 5, wc_lock_timeout_s = 600, wc_heartbeat_interval_s = 30,
     wc_run_timeout_s = 600, wc_t1_window_s = 30, wc_t1_max_size = 30, wc_t1_min_size = 20,
     wc_down_window_s = 60, wc_down_min_size = 2, wc_t2_max_size = 8, wc_t4_max_size = 4,
     wc_prune = True, wc_min_leverage = 7 / 10, wc_min_impact = 1 / 2, wc_min_actionability = 2 / 5,
     wc_min_confidence = 1 / 2, wc_worker_id = ''worker'', wc_tenant = None\<rparr>"

text \<open>
  The environment variables read at run time. A variable that is not set is \<open>None\<close>; one that is
  blank or does not parse counts as not set.
\<close>

type_synonym environ = "string \<rightharpoonup> string"

definition env_text :: "environ \<Rightarrow> string \<Rightarrow> string option" where
  "env_text env name = (case env name of None \<Rightarrow> None | Some raw \<Rightarrow> if py_strip raw = [] then None else Some raw)"

definition env_int :: "environ \<Rightarrow> string \<Rightarrow> int option" where
  "env_int env name = (case env_text env name of None \<Rightarrow> None | Some raw \<Rightarrow>
     (case py_int_of_string raw of Inr n \<Rightarrow> Some n | Inl e \<Rightarrow> None))"

definition validation_max_attempts_env :: "environ \<Rightarrow> int option" where
  "validation_max_attempts_env env = map_option (max 1) (env_int env ''THINK_VALIDATION_MAX_ATTEMPTS'')"

definition positive_int_env :: "environ \<Rightarrow> string \<Rightarrow> int \<Rightarrow> int" where
  "positive_int_env env name dflt = (case env_int env name of None \<Rightarrow> dflt | Some n \<Rightarrow> max 1 n)"

definition daily_budget_enforcement_enabled :: "environ \<Rightarrow> bool" where
  "daily_budget_enforcement_enabled env \<longleftrightarrow>
    to_lower (py_strip (case env ''THINK_DAILY_BUDGET_ENFORCEMENT'' of None \<Rightarrow> ''0'' | Some s \<Rightarrow> s))
      \<in> {''1'', ''on'', ''true'', ''yes''}"

definition max_inferential_lineage_depth :: "environ \<Rightarrow> int \<Rightarrow> int" where
  "max_inferential_lineage_depth env hard_max =
    (case env_int env ''THINK_MAX_INFERENTIAL_LINEAGE_DEPTH'' of None \<Rightarrow> hard_max | Some n \<Rightarrow> min hard_max (max 1 n))"

definition positive_budget :: "environ \<Rightarrow> string \<Rightarrow> int option" where
  "positive_budget env name = (case env_int env name of None \<Rightarrow> None | Some n \<Rightarrow> if 0 < n then Some n else None)"

definition daily_token_budget_per_tenant :: "environ \<Rightarrow> int option" where
  "daily_token_budget_per_tenant env = positive_budget env ''LLM_DAILY_TOKEN_BUDGET_PER_TENANT''"

definition daily_request_budget_per_tenant :: "environ \<Rightarrow> int option" where
  "daily_request_budget_per_tenant env = positive_budget env ''LLM_DAILY_REQUEST_BUDGET_PER_TENANT''"

text \<open>\<open>parse_float\<close> is \<open>float()\<close> on a text; \<open>None\<close> where it raises.\<close>

definition daily_budget_usd_per_tenant :: "(string \<Rightarrow> real option) \<Rightarrow> environ \<Rightarrow> real option" where
  "daily_budget_usd_per_tenant parse_float env =
    (case env_text env ''LLM_DAILY_BUDGET_USD_PER_TENANT'' of None \<Rightarrow> None | Some raw \<Rightarrow>
       (case parse_float raw of None \<Rightarrow> None | Some v \<Rightarrow> if 0 < v then Some v else None))"

section \<open>The tables\<close>

record dead_reeval =
  dl_id :: uuid
  dl_tenant :: uuid
  dl_original :: uuid
  dl_model :: uuid
  dl_cause :: "uuid option"
  dl_kind :: string
  dl_attempts :: int
  dl_error :: string
  dl_enqueued_at :: time
  dl_at :: time
  dl_quarantined :: "(time \<times> uuid \<times> string) option"
  dl_retried :: "(time \<times> uuid \<times> uuid) option"

record action_row =
  pc_id :: uuid
  pc_tenant :: uuid
  pc_trigger :: uuid
  pc_kind :: string
  pc_payload :: dict
  pc_attempts :: int
  pc_scheduled_at :: time
  pc_created_at :: time
  pc_processed_at :: "time option"
  pc_dead_at :: "time option"
  pc_last_error :: "string option"
  pc_quarantined :: "(time \<times> uuid \<times> string) option"

text \<open>
  The columns of \<open>models\<close> and \<open>relationship_candidates\<close> that pruning and batching read.
  \<open>mc_falsifiable\<close>: the falsifier is neither NULL nor the empty object.
\<close>

record model_cols =
  mc_id :: uuid
  mc_tenant :: uuid
  mc_kind :: "string option"
  mc_falsifiable :: bool
  mc_evaluate_at :: "time option"
  mc_resolution :: "json option"

record candidate_row =
  cd_id :: uuid
  cd_tenant :: uuid
  cd_kind :: string
  cd_review :: string
  cd_source :: "string option"
  cd_basis :: "string option"
  cd_metadata :: dict
  cd_leverage :: real
  cd_impact :: real
  cd_actionability :: real
  cd_confidence :: real
  cd_members :: "uuid list"
  cd_source_model :: "uuid option"
  cd_target_model :: "uuid option"

record operator_row =
  op_id :: uuid
  op_tenant :: uuid
  op_actor :: uuid
  op_action :: string
  op_resource_type :: string
  op_resource :: "uuid option"
  op_metadata :: dict
  op_at :: time

text \<open>\<open>think_run_costs\<close>, summed per run: tenant, time, cost, tokens in and out, calls.\<close>

record cost_row =
  rc_tenant :: uuid
  rc_computed_at :: time
  rc_usd :: real
  rc_tokens :: int
  rc_calls :: int

record queue_db = access_db +
  reeval_rows :: "reeval_row list"
  reeval_dead :: "dead_reeval list"
  pending_actions :: "action_row list"
  model_columns :: "model_cols list"
  candidates :: "candidate_row list"
  run_costs :: "cost_row list"
  operator_log :: "operator_row list"

definition empty_queue_db :: queue_db where
  "empty_queue_db = \<lparr>actors = [], goals = [], commitments = [], decisions = [], contributors = [],
     contributes_to = [], depends_on = [], constrained_by = [], observations = [], resources = [], ledger = [],
     deployments = [], links = [], trigger_queue = [], model_ids = [], uuid_next = 0, db_now = 0, py_now = 0,
     actor_metadata = (\<lambda>i. []), source_refs = (\<lambda>i. None), actor_roles = [], shared_channels = [],
     identity_mappings = [], model_scopes = [], visible_commitments = None, visible_goals = None,
     visible_models = None, dirty_set = {}, override_log = [],
     reeval_rows = [], reeval_dead = [], pending_actions = [], model_columns = [], candidates = [],
     run_costs = [], operator_log = []\<rparr>"

section \<open>Reevaluations\<close>

text \<open>
  \<open>enqueue_model_reeval\<close>: \<open>ON CONFLICT DO NOTHING\<close> on tenant, model, cause and \<open>processed_at\<close>
  with NULLs not distinct; the model and the cause are foreign keys. The obligation it mirrors into another table is not modelled.
\<close>

definition reeval_key :: "reeval_row \<Rightarrow> uuid \<times> uuid \<times> uuid option \<times> time option" where
  "reeval_key r = (rq_tenant r, rq_model r, rq_cause r, rq_processed_at r)"

definition enqueue_model_reeval ::
  "uuid \<Rightarrow> uuid \<Rightarrow> string \<Rightarrow> uuid option \<Rightarrow> uuid option \<Rightarrow> (queue_db, uuid) tx" where
  "enqueue_model_reeval tenant_id model_id cause_kind cause_model_id row_id d =
    (let (new_id, d) = (case row_id of Some i \<Rightarrow> (i, d) | None \<Rightarrow> take_uuid d);
         row = \<lparr>rq_id = new_id, rq_tenant = tenant_id, rq_model = model_id, rq_cause = cause_model_id,
           rq_kind = cause_kind, rq_processed_at = None, rq_enqueued_at = db_now d, rq_attempts = 0,
           rq_last_error = None\<rparr>
     in case List.find (\<lambda>r. reeval_key r = reeval_key row) (sort_key rq_enqueued_at (reeval_rows d)) of
          Some existing \<Rightarrow> (Inr (rq_id existing), d)
        | None \<Rightarrow>
            if new_id \<in> rq_id ` set (reeval_rows d)
            then (Inl (UniqueViolationError ''model_reeval_queue_pkey''), d)
            else if model_id \<notin> mc_id ` set (model_columns d)
            then (Inl (ForeignKeyViolationError ''model_reeval_queue_model_id_fkey''), d)
            else if cause_model_id \<noteq> None \<and> the cause_model_id \<notin> mc_id ` set (model_columns d)
            then (Inl (ForeignKeyViolationError ''model_reeval_queue_cause_model_id_fkey''), d)
            else (Inr new_id, d\<lparr>reeval_rows := reeval_rows d @ [row]\<rparr>))"

end
