(* ===== verification/Worker.thy ===== *)
theory Worker
  imports WorkerStore Retry
begin

text \<open>
  \<open>ThinkWorker\<close> of \<open>services/reasoning/think/worker.py\<close>: leasing triggers, renewing and
  recovering locks, completing, failing and deferring a trigger, promoting reevaluations and
  processing a leased row. Every method is one database transaction, except \<open>process_trigger\<close>,
  which runs \<open>think\<close> (an argument) between two. Row locks that other transactions hold when a
  \<open>FOR UPDATE SKIP LOCKED\<close> query runs are the argument \<open>busy\<close>. The session's time zone is UTC;
  metrics and logging are left out, and a slice \<open>[:n]\<close> counts the characters of the model.
\<close>

section \<open>Rows\<close>

definition seconds_us :: "real \<Rightarrow> time" where
  "seconds_us s = round (s * 1000000)"

definition in_filter :: "worker_config \<Rightarrow> uuid \<Rightarrow> bool" where
  "in_filter cfg tenant_id \<longleftrightarrow> (case wc_tenant cfg of None \<Rightarrow> True | Some t \<Rightarrow> tenant_id = t)"

definition lock_stale :: "worker_config \<Rightarrow> time \<Rightarrow> trigger_row \<Rightarrow> bool" where
  "lock_stale cfg now r \<longleftrightarrow> (case q_locked_at r of None \<Rightarrow> False
     | Some t \<Rightarrow> t < now - seconds_us (wc_lock_timeout_s cfg))"

text \<open>\<open>locked_by IS NULL OR locked_at < now() - timeout\<close>.\<close>

definition lock_free :: "worker_config \<Rightarrow> time \<Rightarrow> trigger_row \<Rightarrow> bool" where
  "lock_free cfg now r \<longleftrightarrow> q_locked_by r = None \<or> lock_stale cfg now r"

definition due :: "time \<Rightarrow> trigger_row \<Rightarrow> bool" where
  "due now r \<longleftrightarrow> (case q_scheduled_for r of None \<Rightarrow> False | Some t \<Rightarrow> t \<le> now)"

text \<open>What the three queries that lease rows share.\<close>

definition leasable :: "worker_config \<Rightarrow> time \<Rightarrow> trigger_row \<Rightarrow> bool" where
  "leasable cfg now r \<longleftrightarrow> q_completed_at r = None \<and> q_batch_parent r = None \<and> lock_free cfg now r \<and>
     due now r \<and> q_attempts r < wc_trigger_max_attempts cfg \<and> in_filter cfg (q_tenant r)"

definition unlock_row :: "trigger_row \<Rightarrow> trigger_row" where
  "unlock_row r = r\<lparr>q_locked_by := None, q_locked_at := None\<rparr>"

definition lock_row :: "string \<Rightarrow> time \<Rightarrow> trigger_row \<Rightarrow> trigger_row" where
  "lock_row w now r = r\<lparr>q_locked_by := Some w, q_locked_at := Some now\<rparr>"

definition complete_row :: "time \<Rightarrow> trigger_row \<Rightarrow> trigger_row" where
  "complete_row now r = (unlock_row r)\<lparr>q_completed_at := Some now, q_last_error := None\<rparr>"

text \<open>\<open>UPDATE think_trigger_queue SET .. WHERE ..\<close>.\<close>

definition upd_triggers :: "(trigger_row \<Rightarrow> bool) \<Rightarrow> (trigger_row \<Rightarrow> trigger_row) \<Rightarrow> queue_db \<Rightarrow> queue_db" where
  "upd_triggers P f d = d\<lparr>trigger_queue := map (\<lambda>r. if P r then f r else r) (trigger_queue d)\<rparr>"

definition trigger :: "uuid \<Rightarrow> queue_db \<Rightarrow> trigger_row option" where
  "trigger i d = row_at q_id i (trigger_queue d)"

section \<open>Locks\<close>

definition orphaned :: "worker_config \<Rightarrow> time \<Rightarrow> trigger_row \<Rightarrow> bool" where
  "orphaned cfg now r \<longleftrightarrow> q_completed_at r = None \<and> q_locked_by r \<noteq> None \<and> in_filter cfg (q_tenant r) \<and>
     (q_locked_by r = Some (wc_worker_id cfg) \<or> q_locked_at r = None \<or> lock_stale cfg now r)"

definition recover_orphaned_trigger_locks :: "worker_config \<Rightarrow> queue_db \<Rightarrow> nat \<times> queue_db" where
  "recover_orphaned_trigger_locks cfg d =
    (length (filter (orphaned cfg (db_now d)) (trigger_queue d)),
     upd_triggers (orphaned cfg (db_now d)) unlock_row d)"

definition heartbeat_trigger :: "worker_config \<Rightarrow> uuid \<Rightarrow> queue_db \<Rightarrow> queue_db" where
  "heartbeat_trigger cfg trigger_id d =
    upd_triggers (\<lambda>r. q_id r = trigger_id \<and> q_completed_at r = None \<and> q_locked_by r = Some (wc_worker_id cfg))
      (\<lambda>r. r\<lparr>q_locked_at := Some (db_now d)\<rparr>) d"

section \<open>Promotion of reevaluations\<close>

definition promotable :: "worker_config \<Rightarrow> (uuid \<Rightarrow> bool) \<Rightarrow> reeval_row \<Rightarrow> bool" where
  "promotable cfg busy r \<longleftrightarrow> rq_processed_at r = None \<and> rq_attempts r < wc_reeval_max_attempts cfg \<and>
     in_filter cfg (rq_tenant r) \<and> \<not> busy (rq_id r)"

definition open_reeval_trigger :: "uuid \<Rightarrow> trigger_row \<Rightarrow> bool" where
  "open_reeval_trigger i q \<longleftrightarrow> q_kind q = ''T4'' \<and> jget (q_payload q) ''reeval_row_id'' = JUuid i \<and>
     q_completed_at q = None"

definition promote_one :: "reeval_row \<Rightarrow> (queue_db, unit) tx" where
  "promote_one r d =
    (if list_ex (open_reeval_trigger (rq_id r)) (trigger_queue d) then (Inr (), d)
     else bind_tx (enqueue_trigger (rq_tenant r) ''T4'' (Some ''model_reeval'') None (Some (rq_model r))
        (Some [(''reeval_row_id'', JUuid (rq_id r)),
           (''cause_model_id'', case rq_cause r of Some c \<Rightarrow> JUuid c | None \<Rightarrow> JNull),
           (''cause_kind'', JStr (rq_kind r))]) None None None) (\<lambda>_. return_tx ()) d)"

definition promote_reeval_rows :: "worker_config \<Rightarrow> (uuid \<Rightarrow> bool) \<Rightarrow> (queue_db, unit) tx" where
  "promote_reeval_rows cfg busy = atomically (\<lambda>d.
     for_tx (take (nat (wc_poll_batch cfg)) (sort_key rq_enqueued_at (filter (promotable cfg busy) (reeval_rows d))))
       promote_one d)"

section \<open>Polling\<close>

definition is_latent :: "trigger_row \<Rightarrow> bool" where
  "is_latent r \<longleftrightarrow> q_kind r = ''T4'' \<and> q_subkind r = Some ''latent_relationship_candidate''"

definition is_belief_update :: "trigger_row \<Rightarrow> bool" where
  "is_belief_update r \<longleftrightarrow> q_kind r = ''T2'' \<and> q_subkind r = Some ''belief_updated''"

definition is_event_arrival :: "trigger_row \<Rightarrow> bool" where
  "is_event_arrival r \<longleftrightarrow> q_kind r = ''T1'' \<and> q_subkind r = Some ''event_arrival''"

definition t1_batching_enabled :: "worker_config \<Rightarrow> bool" where
  "t1_batching_enabled cfg \<longleftrightarrow> 0 < wc_t1_window_s cfg \<and> 2 \<le> wc_t1_max_size cfg \<and> 2 \<le> wc_t1_min_size cfg"

definition downstream_batching_enabled :: "worker_config \<Rightarrow> bool" where
  "downstream_batching_enabled cfg \<longleftrightarrow> 0 < wc_down_window_s cfg \<and> 2 \<le> wc_down_min_size cfg \<and>
     (2 \<le> wc_t2_max_size cfg \<or> 2 \<le> wc_t4_max_size cfg)"

text \<open>The window after which a row that could still be batched is leased alone; 0 is no wait.\<close>

definition t1_batch_window_arg :: "worker_config \<Rightarrow> real" where
  "t1_batch_window_arg cfg = (if t1_batching_enabled cfg then max 0 (wc_t1_window_s cfg) else 0)"

definition downstream_batch_window_arg :: "worker_config \<Rightarrow> real" where
  "downstream_batch_window_arg cfg = (if downstream_batching_enabled cfg then max 0 (wc_down_window_s cfg) else 0)"

definition waited :: "real \<Rightarrow> time \<Rightarrow> trigger_row \<Rightarrow> bool" where
  "waited window now r \<longleftrightarrow> window = 0 \<or> q_enqueued_at r \<le> now - seconds_us window"

text \<open>
  The rows the second window holds back. The SQL condition \<open>NOT (kind = .. AND subkind = ..)\<close> is
  NULL, so not true, for a T2 or T4 without a subkind: they wait too.
\<close>

definition downstream_held :: "trigger_row \<Rightarrow> bool" where
  "downstream_held r \<longleftrightarrow> (q_kind r = ''T2'' \<and> q_subkind r \<in> {None, Some ''belief_updated''}) \<or>
     (q_kind r = ''T4'' \<and> q_subkind r \<in> {None, Some ''latent_relationship_candidate''})"

definition pollable :: "worker_config \<Rightarrow> time \<Rightarrow> trigger_row \<Rightarrow> bool" where
  "pollable cfg now r \<longleftrightarrow> leasable cfg now r \<and>
     (is_event_arrival r \<longrightarrow> waited (t1_batch_window_arg cfg) now r) \<and>
     (downstream_held r \<longrightarrow> waited (downstream_batch_window_arg cfg) now r)"

definition poll_priority :: "trigger_row \<Rightarrow> nat" where
  "poll_priority r =
    (if is_latent r then 0
     else if q_kind r = ''T2'' then 1
     else if q_kind r = ''T4'' then 2
     else if q_kind r = ''T3'' then 3
     else if q_kind r = ''T1'' \<and> q_subkind r = Some ''event_batch'' then 4
     else 5)"

text \<open>\<open>ORDER BY CASE .. END, enqueued_at\<close>.\<close>

definition poll_order :: "trigger_row list \<Rightarrow> trigger_row list" where
  "poll_order rs = sort_key poll_priority (sort_key q_enqueued_at rs)"

definition poll_rows :: "worker_config \<Rightarrow> (uuid \<Rightarrow> bool) \<Rightarrow> nat \<Rightarrow> queue_db \<Rightarrow> trigger_row list" where
  "poll_rows cfg busy slots d =
    take slots (poll_order (filter (\<lambda>r. pollable cfg (db_now d) r \<and> \<not> busy (q_id r)) (trigger_queue d)))"

text \<open>What a poll hands to a task: the columns of the SELECT, or the dictionary of a new batch.\<close>

record leased =
  ls_id :: uuid
  ls_tenant :: uuid
  ls_kind :: string
  ls_subkind :: "string option"
  ls_observation :: "uuid option"
  ls_model :: "uuid option"
  ls_payload :: dict
  ls_attempts :: int

definition leased_of :: "trigger_row \<Rightarrow> leased" where
  "leased_of r = \<lparr>ls_id = q_id r, ls_tenant = q_tenant r, ls_kind = q_kind r, ls_subkind = q_subkind r,
     ls_observation = q_observation r, ls_model = q_model r, ls_payload = q_payload r, ls_attempts = q_attempts r\<rparr>"

definition lease_rows :: "worker_config \<Rightarrow> uuid list \<Rightarrow> queue_db \<Rightarrow> queue_db" where
  "lease_rows cfg ids d = upd_triggers (\<lambda>r. q_id r \<in> set ids) (lock_row (wc_worker_id cfg) (db_now d)) d"

section \<open>The end of a run\<close>

definition complete_members :: "uuid list \<Rightarrow> uuid \<Rightarrow> queue_db \<Rightarrow> queue_db" where
  "complete_members members parent d =
    upd_triggers (\<lambda>r. q_id r \<in> set members \<and> q_batch_parent r = Some parent \<and> q_completed_at r = None)
      (complete_row (db_now d)) d"

definition stamp_reeval :: "dict \<Rightarrow> queue_db \<Rightarrow> queue_db" where
  "stamp_reeval p d = (case as_uuid (jget p ''reeval_row_id'') of None \<Rightarrow> d
     | Some rrid \<Rightarrow> d\<lparr>reeval_rows := map (\<lambda>r. if rq_id r = rrid \<and> rq_processed_at r = None
         then r\<lparr>rq_processed_at := Some (db_now d)\<rparr> else r) (reeval_rows d)\<rparr>)"

text \<open>
  Only the first statement asks for the lock. The unique constraint of the stamped row is not
  modelled: it would need two rows of one key processed at the same microsecond.
\<close>

definition mark_trigger_complete :: "worker_config \<Rightarrow> uuid \<Rightarrow> dict \<Rightarrow> queue_db \<Rightarrow> queue_db" where
  "mark_trigger_complete cfg trigger_id payload d =
    (let d = upd_triggers (\<lambda>r. q_id r = trigger_id \<and> q_locked_by r = Some (wc_worker_id cfg))
               (complete_row (db_now d)) d;
         d = complete_members (payload_uuid_list payload ''batch_member_trigger_ids'') trigger_id d
     in stamp_reeval payload d)"

text \<open>\<open>any(marker in text for marker in ..)\<close>.\<close>

fun occurs :: "string \<Rightarrow> string \<Rightarrow> bool" where
  "occurs marker [] = (marker = [])"
| "occurs marker (c # cs) = (starts_with marker (c # cs) \<or> occurs marker cs)"

definition QUOTA_MARKERS :: "string list" where
  "QUOTA_MARKERS = [''usage limit'', ''insufficient balance'', ''payment required'', ''quota'', ''billing'', ''credits'']"

definition RATE_MARKERS :: "string list" where
  "RATE_MARKERS = [''rate limit'', ''rate_limit'', '' 429'', ''429 '']"

definition provider_failure_backoff_seconds :: "environ \<Rightarrow> string option \<Rightarrow> int option" where
  "provider_failure_backoff_seconds env error = (case error of None \<Rightarrow> None | Some e \<Rightarrow>
     if py_strip e = [] then None
     else if list_ex (\<lambda>m. occurs m (to_lower e)) QUOTA_MARKERS
       then Some (positive_int_env env ''THINK_PROVIDER_QUOTA_BACKOFF_S'' 10800)
     else if list_ex (\<lambda>m. occurs m (to_lower e)) RATE_MARKERS
       then Some (positive_int_env env ''THINK_PROVIDER_RATE_LIMIT_BACKOFF_S'' 900)
     else if occurs ''circuit breaker'' (to_lower e) \<and> occurs ''open'' (to_lower e)
       then Some (positive_int_env env ''THINK_PROVIDER_CIRCUIT_OPEN_BACKOFF_S'' 900)
     else None)"

definition failure_backoff_seconds :: "environ \<Rightarrow> string \<Rightarrow> int \<Rightarrow> real result" where
  "failure_backoff_seconds env error attempts = (case provider_failure_backoff_seconds env (Some error) of
     Some s \<Rightarrow> Inr (of_int s) | None \<Rightarrow> queue_retry_backoff_seconds attempts)"

definition effective_max_attempts :: "environ \<Rightarrow> worker_config \<Rightarrow> string option \<Rightarrow> int" where
  "effective_max_attempts env cfg failure_class =
    (case validation_max_attempts_env env of
       Some cap \<Rightarrow> if failure_class = Some ''validation'' then min (wc_trigger_max_attempts cfg) cap
                   else wc_trigger_max_attempts cfg
     | None \<Rightarrow> wc_trigger_max_attempts cfg)"

definition dead_letter_reeval :: "uuid \<Rightarrow> int \<Rightarrow> string \<Rightarrow> queue_db \<Rightarrow> queue_db" where
  "dead_letter_reeval reeval_row_id attempts last_error d =
    (case row_at rq_id reeval_row_id (reeval_rows d) of
       None \<Rightarrow> d
     | Some row \<Rightarrow>
        let (new_id, d) = take_uuid d in
        d\<lparr>reeval_dead := reeval_dead d @ [\<lparr>dl_id = new_id, dl_tenant = rq_tenant row, dl_original = rq_id row,
             dl_model = rq_model row, dl_cause = rq_cause row, dl_kind = rq_kind row, dl_attempts = attempts,
             dl_error = last_error, dl_enqueued_at = rq_enqueued_at row, dl_at = db_now d,
             dl_quarantined = None, dl_retried = None\<rparr>],
          reeval_rows := row_update rq_id reeval_row_id
             (\<lambda>r. r\<lparr>rq_processed_at := Some (db_now d), rq_attempts := attempts, rq_last_error := Some last_error\<rparr>)
             (reeval_rows d)\<rparr>)"

definition fail_row :: "time \<Rightarrow> int \<Rightarrow> string \<Rightarrow> trigger_row \<Rightarrow> trigger_row" where
  "fail_row now attempts error r =
    (unlock_row r)\<lparr>q_attempts := attempts, q_completed_at := Some now, q_last_error := Some (take 2000 error)\<rparr>"

definition release_members :: "uuid list \<Rightarrow> uuid \<Rightarrow> queue_db \<Rightarrow> queue_db" where
  "release_members members parent d =
    upd_triggers (\<lambda>r. q_id r \<in> set members \<and> q_batch_parent r = Some parent \<and> q_completed_at r = None)
      (\<lambda>r. (unlock_row r)\<lparr>q_batch_parent := None, q_scheduled_for := Some (db_now d),
         q_payload := dict_set ''unbatched_from'' (JUuid parent) (q_payload r)\<rparr>) d"

definition retry_row :: "time \<Rightarrow> int \<Rightarrow> real \<Rightarrow> string \<Rightarrow> trigger_row \<Rightarrow> trigger_row" where
  "retry_row now attempts backoff error r =
    (unlock_row r)\<lparr>q_attempts := attempts, q_scheduled_for := Some (now + seconds_us backoff),
       q_last_error := Some (take 2000 error)\<rparr>"

definition feedback_row :: "string option \<Rightarrow> trigger_row \<Rightarrow> trigger_row" where
  "feedback_row feedback r = (case feedback of None \<Rightarrow> r
     | Some t \<Rightarrow> r\<lparr>q_payload := dict_set ''validation_feedback'' (JStr (take 2000 t)) (q_payload r)\<rparr>)"

text \<open>The feedback is stored when it is not empty, the class is validation and the cap is set.\<close>

definition stored_feedback :: "environ \<Rightarrow> string option \<Rightarrow> string option \<Rightarrow> string option" where
  "stored_feedback env failure_class feedback =
    (if feedback \<notin> {None, Some []} \<and> failure_class = Some ''validation'' \<and> validation_max_attempts_env env \<noteq> None
     then feedback else None)"

definition mark_trigger_failed ::
  "environ \<Rightarrow> worker_config \<Rightarrow> uuid \<Rightarrow> string \<Rightarrow> bool \<Rightarrow> string option \<Rightarrow> string option \<Rightarrow> (queue_db, unit) tx" where
  "mark_trigger_failed env cfg trigger_id error force_terminal failure_class feedback = atomically (\<lambda>d.
    (case List.find (\<lambda>r. q_id r = trigger_id \<and> q_completed_at r = None \<and>
         q_locked_by r = Some (wc_worker_id cfg)) (trigger_queue d) of
       None \<Rightarrow> (Inr (), d)
     | Some row \<Rightarrow>
        let attempts = q_attempts row + 1; p = q_payload row in
        case failure_backoff_seconds env error attempts of
          Inl e \<Rightarrow> (Inl e, d)
        | Inr backoff \<Rightarrow>
            if force_terminal \<or> effective_max_attempts env cfg failure_class \<le> attempts
            then
              let d = upd_triggers (\<lambda>r. q_id r = trigger_id) (fail_row (db_now d) attempts error) d;
                  d = release_members (payload_uuid_list p ''batch_member_trigger_ids'') trigger_id d
              in (Inr (), case as_uuid (jget p ''reeval_row_id'') of None \<Rightarrow> d
                   | Some rrid \<Rightarrow> dead_letter_reeval rrid attempts error d)
            else (Inr (), upd_triggers (\<lambda>r. q_id r = trigger_id)
              (\<lambda>r. feedback_row (stored_feedback env failure_class feedback)
                 (retry_row (db_now d) attempts backoff error r)) d)))"

section \<open>Budgets\<close>

definition utc_day :: "time \<Rightarrow> time" where
  "utc_day t = t - t mod (86400 * 1000000)"

definition tenant_over_daily_budget :: "(string \<Rightarrow> real option) \<Rightarrow> environ \<Rightarrow> uuid \<Rightarrow> queue_db \<Rightarrow> bool" where
  "tenant_over_daily_budget parse_float env tenant_id d \<longleftrightarrow> daily_budget_enforcement_enabled env \<and>
    (let rows = filter (\<lambda>r. rc_tenant r = tenant_id \<and> utc_day (db_now d) \<le> rc_computed_at r) (run_costs d);
         reached = \<lambda>used limit. (case limit of None \<Rightarrow> False | Some b \<Rightarrow> b \<le> used)
     in (case daily_budget_usd_per_tenant parse_float env of None \<Rightarrow> False | Some b \<Rightarrow> b \<le> sum_list (map rc_usd rows)) \<or>
        reached (sum_list (map rc_tokens rows)) (daily_token_budget_per_tenant env) \<or>
        reached (sum_list (map rc_calls rows)) (daily_request_budget_per_tenant env))"

definition defer_trigger_for_budget :: "worker_config \<Rightarrow> uuid \<Rightarrow> queue_db \<Rightarrow> queue_db" where
  "defer_trigger_for_budget cfg trigger_id d =
    upd_triggers (\<lambda>r. q_id r = trigger_id \<and> q_locked_by r = Some (wc_worker_id cfg))
      (\<lambda>r. (unlock_row r)\<lparr>q_scheduled_for := Some (utc_day (db_now d) + 86400 * 1000000)\<rparr>) d"

section \<open>The context of a run\<close>

record trigger_context =
  tc_kind :: string
  tc_tenant :: uuid
  tc_subkind :: "string option"
  tc_observation :: "uuid option"
  tc_observation_ids :: "uuid list"
  tc_member_triggers :: "uuid list"
  tc_seed_entities :: "dict list"
  tc_text :: "string option"
  tc_occurred_at :: "time option"
  tc_scope_actors :: "uuid list"
  tc_model :: "uuid option"
  tc_region :: "dict option"
  tc_signature :: dict
  tc_topology_event :: "uuid option"
  tc_topology_kind :: "string option"
  tc_neighborhood :: "uuid option"
  tc_members :: "uuid list"

text \<open>\<open>x = payload.get(a); if not isinstance(x, list): x = payload.get(b)\<close>.\<close>

definition list_at :: "dict \<Rightarrow> string \<Rightarrow> string \<Rightarrow> json list option" where
  "list_at p a b = (case json_list (jget p a) of Some vs \<Rightarrow> Some vs | None \<Rightarrow> json_list (jget p b))"

definition set_if :: "'v option \<Rightarrow> ('v \<Rightarrow> 'c \<Rightarrow> 'c) \<Rightarrow> 'c \<Rightarrow> 'c" where
  "set_if v f c = (case v of None \<Rightarrow> c | Some x \<Rightarrow> f x c)"

definition utc_suffix :: "string \<Rightarrow> string" where
  "utc_suffix s = concat (map (\<lambda>c. if c = CHR ''Z'' then ''+00:00'' else [c]) s)"

text \<open>The last block: the other models of a batch, without the trigger's own model.\<close>

fun merge_models :: "uuid option \<Rightarrow> uuid list \<Rightarrow> uuid list \<Rightarrow> uuid list" where
  "merge_models own merged [] = merged"
| "merge_models own merged (m # ms) =
    (if own = Some m \<or> m \<in> set merged then merge_models own merged ms else merge_models own (merged @ [m]) ms)"

text \<open>\<open>fromisoformat\<close> is \<open>datetime.fromisoformat\<close>; \<open>None\<close> where it raises.\<close>

definition populate_seed_fields ::
  "(string \<Rightarrow> time option) \<Rightarrow> trigger_context \<Rightarrow> dict \<Rightarrow> trigger_context" where
  "populate_seed_fields fromisoformat c p =
    (let c = set_if (json_text (jget p ''seed_natural_text'')) (\<lambda>s c. c\<lparr>tc_text := Some s\<rparr>) c;
         c = set_if (json_list (jget p ''seed_entity_ids'')) (\<lambda>es c. c\<lparr>tc_seed_entities := List.map_filter json_fields es\<rparr>) c;
         c = set_if (list_at p ''observation_ids'' ''batch_observation_ids'') (\<lambda>vs c. c\<lparr>tc_observation_ids := coerce_uuid_list vs\<rparr>) c;
         c = set_if (list_at p ''member_trigger_ids'' ''batch_member_trigger_ids'') (\<lambda>vs c. c\<lparr>tc_member_triggers := coerce_uuid_list vs\<rparr>) c;
         c = (case json_text (jget p ''seed_occurred_at'') of None \<Rightarrow> c | Some s \<Rightarrow>
                set_if (fromisoformat (utc_suffix s)) (\<lambda>t c. c\<lparr>tc_occurred_at := Some t\<rparr>) c);
         c = set_if (json_list (jget p ''scope_actors'')) (\<lambda>vs c. c\<lparr>tc_scope_actors := List.map_filter as_uuid vs\<rparr>) c;
         c = set_if (json_fields (jget p ''region_spec'')) (\<lambda>r c. c\<lparr>tc_region := Some r\<rparr>) c;
         c = set_if (as_uuid (jget p ''topology_event_id'')) (\<lambda>i c. c\<lparr>tc_topology_event := Some i\<rparr>) c;
         c = set_if (json_text (jget p ''topology_event_kind'')) (\<lambda>s c. c\<lparr>tc_topology_kind := Some s\<rparr>) c;
         c = set_if (as_uuid (jget p ''neighborhood_id'')) (\<lambda>i c. c\<lparr>tc_neighborhood := Some i\<rparr>) c;
         c = set_if (json_list (jget p ''member_model_ids'')) (\<lambda>vs c. c\<lparr>tc_members := List.map_filter as_uuid vs\<rparr>) c
     in set_if (list_at p ''model_ids'' ''batch_model_ids'')
          (\<lambda>vs c. c\<lparr>tc_members := merge_models (tc_model c) (tc_members c) (coerce_uuid_list vs)\<rparr>) c)"

definition context_of :: "(string \<Rightarrow> time option) \<Rightarrow> leased \<Rightarrow> trigger_context" where
  "context_of fromisoformat row = populate_seed_fields fromisoformat
    \<lparr>tc_kind = ls_kind row, tc_tenant = ls_tenant row, tc_subkind = ls_subkind row, tc_observation = ls_observation row,
     tc_observation_ids = [], tc_member_triggers = [], tc_seed_entities = [], tc_text = None, tc_occurred_at = None,
     tc_scope_actors = [], tc_model = ls_model row, tc_region = None,
     tc_signature = dict_set ''trigger_id'' (JUuid (ls_id row)) (ls_payload row),
     tc_topology_event = None, tc_topology_kind = None, tc_neighborhood = None, tc_members = []\<rparr> (ls_payload row)"

section \<open>Processing a leased row\<close>

text \<open>
  How \<open>think\<close> ends: an outcome with its status, error and the class of its exception, the
  timeout of \<open>wait_for\<close>, or another exception with its text.
\<close>

datatype run_end = Outcome string "string option" "string option" | RunTimeout | RunRaised string

definition classify_failure :: "string option \<Rightarrow> string option" where
  "classify_failure exception_class = (case exception_class of None \<Rightarrow> None | Some name \<Rightarrow>
     if occurs ''Validation'' name then Some ''validation''
     else if occurs ''Reasoning'' name then Some ''reasoning'' else None)"

text \<open>What happens to a row before \<open>think\<close> runs.\<close>

datatype admission = Rejected string | Deferred | Admitted

definition cascade_depth :: "dict \<Rightarrow> int" where
  "cascade_depth p = (case py_int (dict_get_or p ''cascade_depth'' (JInt 0)) of Inr n \<Rightarrow> n | Inl e \<Rightarrow> 0)"

definition int_text :: "int \<Rightarrow> string" where
  "int_text n = (if n < 0 then CHR ''-'' # nat_text (nat (- n)) else nat_text (nat n))"

definition admission_of :: "(string \<Rightarrow> real option) \<Rightarrow> environ \<Rightarrow> leased \<Rightarrow> queue_db \<Rightarrow> admission" where
  "admission_of parse_float env row d =
    (let depth = cascade_depth (ls_payload row); bound = max_inferential_lineage_depth env MAX_CASCADE_DEPTH
     in if bound \<le> depth
        then Rejected (''cascade_bound_violation: depth='' @ int_text depth @ '' >= '' @ int_text bound)
        else if tenant_over_daily_budget parse_float env (ls_tenant row) d then Deferred else Admitted)"

definition finish_run :: "environ \<Rightarrow> worker_config \<Rightarrow> leased \<Rightarrow> run_end \<Rightarrow> (queue_db, unit) tx" where
  "finish_run env cfg row outcome =
    (case outcome of
       RunTimeout \<Rightarrow> mark_trigger_failed env cfg (ls_id row)
         (''think_run_timeout after '' @ int_text (round (wc_run_timeout_s cfg)) @ ''s'') False None None
     | RunRaised e \<Rightarrow> mark_trigger_failed env cfg (ls_id row) e False None None
     | Outcome status error exc \<Rightarrow>
         if status = ''success'' \<or> status = ''skipped_idempotent''
         then (\<lambda>d. (Inr (), mark_trigger_complete cfg (ls_id row) (ls_payload row) d))
         else let cls = classify_failure exc in
           mark_trigger_failed env cfg (ls_id row) (case error of None \<Rightarrow> ''unknown'' | Some e \<Rightarrow> if e = [] then ''unknown'' else e)
             False cls (if cls = Some ''validation'' then error else None))"

definition process_trigger ::
  "(string \<Rightarrow> real option) \<Rightarrow> (string \<Rightarrow> time option) \<Rightarrow> (trigger_context \<Rightarrow> queue_db \<Rightarrow> run_end \<times> queue_db) \<Rightarrow>
   environ \<Rightarrow> worker_config \<Rightarrow> leased \<Rightarrow> (queue_db, unit) tx" where
  "process_trigger parse_float fromisoformat think env cfg row d =
    (case admission_of parse_float env row d of
       Rejected e \<Rightarrow> mark_trigger_failed env cfg (ls_id row) e True None None d
     | Deferred \<Rightarrow> (Inr (), defer_trigger_for_budget cfg (ls_id row) d)
     | Admitted \<Rightarrow> (case think (context_of fromisoformat row) d of
         (outcome, d) \<Rightarrow> finish_run env cfg row outcome d))"

definition queue_depth :: "worker_config \<Rightarrow> queue_db \<Rightarrow> nat" where
  "queue_depth cfg d = length (filter (\<lambda>r. q_completed_at r = None \<and> q_batch_parent r = None \<and>
     in_filter cfg (q_tenant r)) (trigger_queue d))"

end
