(* ===== verification/WorkerBatches.thy ===== *)
theory WorkerBatches
  imports Worker
begin

text \<open>
  Batching in \<open>services/reasoning/think/worker.py\<close>: the lanes of triggers, the choice of members,
  the payload of a batch, and the loops that create T1 and downstream batches. What the code
  gets from \<open>str()\<close>, \<open>UUID()\<close>, \<open>isoformat()\<close> and from text columns of no other use here is the
  record \<open>texts\<close>; the lists in a payload are lists when they are present.
\<close>

record texts =
  tx_str :: "json \<Rightarrow> string"
  tx_uuid :: "string \<Rightarrow> uuid option"
  tx_iso :: "time \<Rightarrow> string"
  tx_content :: "uuid \<Rightarrow> string"
  tx_natural :: "uuid \<Rightarrow> string"
  tx_explanation :: "uuid \<Rightarrow> string"

definition uuid_text :: "texts \<Rightarrow> uuid \<Rightarrow> string" where
  "uuid_text tx u = tx_str tx (JUuid u)"

section \<open>Lanes\<close>

definition ENTITY_BATCH_TYPE_PRIORITY :: "string list" where
  "ENTITY_BATCH_TYPE_PRIORITY = [''customer'', ''commitment'', ''goal'', ''decision'', ''resource'', ''project'',
     ''repository'', ''issue'', ''ticket'', ''account'', ''invoice'', ''transaction'', ''employee'', ''team'']"

fun entity_refs_loop :: "texts \<Rightarrow> (string \<times> string) list \<Rightarrow> json list \<Rightarrow> (string \<times> string) list" where
  "entity_refs_loop tx seen [] = []"
| "entity_refs_loop tx seen (entity # rest) =
    (case json_fields entity of None \<Rightarrow> entity_refs_loop tx seen rest
     | Some e \<Rightarrow>
        if \<not> truthy (jget e ''type'') \<or> jget e ''id'' = JNull then entity_refs_loop tx seen rest
        else let key = (to_lower (py_strip (tx_str tx (jget e ''type''))), py_strip (tx_str tx (jget e ''id'')))
          in if fst key = [] \<or> snd key = [] \<or> key \<in> set seen then entity_refs_loop tx seen rest
             else key # entity_refs_loop tx (key # seen) rest)"

definition entity_refs :: "texts \<Rightarrow> json list \<Rightarrow> (string \<times> string) list" where
  "entity_refs tx raw = entity_refs_loop tx [] raw"

definition entity_lane_text :: "string \<times> string \<Rightarrow> string" where
  "entity_lane_text ref = ''entity:'' @ fst ref @ '':'' @ snd ref"

definition entity_lane :: "texts \<Rightarrow> json list \<Rightarrow> string option" where
  "entity_lane tx raw =
    (let refs = filter (\<lambda>r. fst r \<noteq> ''actor'') (entity_refs tx raw)
     in case concat (map (\<lambda>wanted. filter (\<lambda>r. fst r = wanted) refs) ENTITY_BATCH_TYPE_PRIORITY) of
          r # _ \<Rightarrow> Some (entity_lane_text r)
        | [] \<Rightarrow> (case refs of r # _ \<Rightarrow> Some (entity_lane_text r) | [] \<Rightarrow> None))"

definition actor_lane :: "texts \<Rightarrow> uuid list \<Rightarrow> string option" where
  "actor_lane tx ids = (case ids of [] \<Rightarrow> None | u # _ \<Rightarrow> Some (''actor:'' @ uuid_text tx u))"

definition actor_entity_lane :: "texts \<Rightarrow> json list \<Rightarrow> string option" where
  "actor_entity_lane tx raw =
    actor_lane tx (List.map_filter (\<lambda>r. if fst r = ''actor'' then tx_uuid tx (snd r) else None) (entity_refs tx raw))"

definition or_else :: "'a option \<Rightarrow> 'a option \<Rightarrow> 'a option" where
  "or_else v w = (case v of None \<Rightarrow> w | Some x \<Rightarrow> Some x)"

text \<open>\<open>actor_ids\<close>: the actor of an observation, or the scope actors of models.\<close>

definition scope_batch_lane :: "texts \<Rightarrow> json list \<Rightarrow> uuid list \<Rightarrow> string option" where
  "scope_batch_lane tx entities actor_ids =
    or_else (entity_lane tx entities) (or_else (actor_lane tx actor_ids) (actor_entity_lane tx entities))"

definition t1_event_lane :: "texts \<Rightarrow> queue_db \<Rightarrow> trigger_row \<Rightarrow> string option" where
  "t1_event_lane tx d r = (case q_observation r of None \<Rightarrow> None | Some i \<Rightarrow>
     (case row_at o_id i (observations d) of None \<Rightarrow> None
      | Some obs \<Rightarrow> scope_batch_lane tx (o_entities obs) (case o_actor obs of None \<Rightarrow> [] | Some a \<Rightarrow> [a])))"

definition t2_belief_lane :: "texts \<Rightarrow> queue_db \<Rightarrow> trigger_row \<Rightarrow> string option" where
  "t2_belief_lane tx d r = (case q_model r of None \<Rightarrow> None | Some i \<Rightarrow>
     (case row_at ms_id i (model_scopes d) of None \<Rightarrow> None
      | Some m \<Rightarrow> scope_batch_lane tx (json_items (ms_scope_entities m)) (ms_scope_actors m)))"

definition candidate_ids_of :: "dict \<Rightarrow> uuid list" where
  "candidate_ids_of p = coerce_uuid_list (case json_list (jget p ''relationship_candidate_ids'') of
     Some vs \<Rightarrow> vs | None \<Rightarrow> [jget p ''relationship_candidate_id''])"

definition candidate_kind_of :: "queue_db \<Rightarrow> uuid \<Rightarrow> string" where
  "candidate_kind_of d i = (case row_at cd_id i (candidates d) of None \<Rightarrow> ''unknown''
     | Some c \<Rightarrow> if cd_kind c = [] then ''unknown'' else cd_kind c)"

definition candidate_models :: "candidate_row \<Rightarrow> uuid list" where
  "candidate_models c = cd_members c @ (case cd_source_model c of None \<Rightarrow> [] | Some i \<Rightarrow> [i])
     @ (case cd_target_model c of None \<Rightarrow> [] | Some i \<Rightarrow> [i])"

definition t4_models :: "queue_db \<Rightarrow> dict \<Rightarrow> uuid list" where
  "t4_models d p = dedup (coerce_uuid_list (json_items (jget p ''member_model_ids'')) @
     concat (map (\<lambda>i. case row_at cd_id i (candidates d) of None \<Rightarrow> [] | Some c \<Rightarrow> candidate_models c) (candidate_ids_of p)))"

definition t4_candidate_lane :: "texts \<Rightarrow> queue_db \<Rightarrow> trigger_row \<Rightarrow> string option" where
  "t4_candidate_lane tx d r =
    (let ids = candidate_ids_of (q_payload r) in
     if ids = [] then None
     else
       let kinds = sort (remdups (map (candidate_kind_of d) ids));
           kind_lane = (if length kinds = 1 then ''candidate_kind:'' @ hd kinds
             else ''candidate_kind:mixed:'' @ py_join '','' kinds);
           scopes = List.map_filter (\<lambda>i. row_at ms_id i (model_scopes d)) (t4_models d (q_payload r))
       in (case scope_batch_lane tx (concat (map (\<lambda>m. json_items (ms_scope_entities m)) scopes))
                 (concat (map ms_scope_actors scopes)) of
             None \<Rightarrow> Some kind_lane
           | Some scope_lane \<Rightarrow> Some (kind_lane @ ''|'' @ scope_lane)))"

definition downstream_lane :: "texts \<Rightarrow> queue_db \<Rightarrow> trigger_row \<Rightarrow> string option" where
  "downstream_lane tx d r = (if q_kind r = ''T2'' then t2_belief_lane tx d r
     else if q_kind r = ''T4'' then t4_candidate_lane tx d r else None)"

section \<open>Members\<close>

definition seconds_between :: "time \<Rightarrow> time \<Rightarrow> real" where
  "seconds_between later earlier = of_int (later - earlier) / 1000000"

definition ready_batch_members ::
  "trigger_row list \<Rightarrow> int \<Rightarrow> int \<Rightarrow> real \<Rightarrow> time \<Rightarrow> bool \<Rightarrow> bool \<Rightarrow> trigger_row list option" where
  "ready_batch_members rows max_size min_size window_s now allow_max_size fallback_by_arrival =
    (case sort_key q_enqueued_at rows of
       [] \<Rightarrow> None
     | oldest # younger \<Rightarrow>
        let rows = oldest # younger;
            window_elapsed = window_s \<le> seconds_between now (q_enqueued_at oldest);
            in_window = filter (\<lambda>r. seconds_between (q_enqueued_at r) (q_enqueued_at oldest) \<le> window_s) rows;
            members = take (nat max_size) (if fallback_by_arrival then rows else in_window)
        in if fallback_by_arrival \<and> \<not> window_elapsed then None
           else if \<not> fallback_by_arrival \<and> \<not> window_elapsed \<and>
                   \<not> (allow_max_size \<and> max_size \<le> int (length in_window)) then None
           else if int (length members) < min_size then None
           else Some members)"

section \<open>Texts of a payload\<close>

fun split_words :: "string \<Rightarrow> string \<Rightarrow> string list" where
  "split_words word [] = (if word = [] then [] else [rev word])"
| "split_words word (c # cs) =
    (if py_isspace c then (if word = [] then split_words [] cs else rev word # split_words [] cs)
     else split_words (c # word) cs)"

text \<open>\<open>" ".join(text.split())\<close>, and cutting a text that is too long.\<close>

definition compact_text :: "string \<Rightarrow> string" where
  "compact_text s = py_join '' '' (split_words [] s)"

definition py_rstrip :: "string \<Rightarrow> string" where
  "py_rstrip s = rev (dropWhile py_isspace (rev s))"

definition cut_text :: "nat \<Rightarrow> string \<Rightarrow> string" where
  "cut_text n s = (if n < length s then py_rstrip (take (n - 3) s) @ ''...'' else s)"

definition newline :: string where
  "newline = [CHR 0x0A]"

definition with_lines :: "string \<Rightarrow> string list \<Rightarrow> string" where
  "with_lines summary lines =
    cut_text 2000 (if lines = [] then summary else summary @ '':'' @ newline @ py_join newline lines)"

text \<open>The seed entities: \<open>type\<close> and \<open>id\<close> as texts, without repetitions.\<close>

definition str_json :: "texts \<Rightarrow> json \<Rightarrow> json" where
  "str_json tx v = (case v of JUuid u \<Rightarrow> JUuid u | _ \<Rightarrow> JStr (tx_str tx v))"

fun seed_entities_loop :: "texts \<Rightarrow> (string \<times> string) list \<Rightarrow> json list \<Rightarrow> json list" where
  "seed_entities_loop tx seen [] = []"
| "seed_entities_loop tx seen (entity # rest) =
    (case json_fields entity of None \<Rightarrow> seed_entities_loop tx seen rest
     | Some e \<Rightarrow>
        let key = (tx_str tx (jget e ''type''), tx_str tx (jget e ''id'')) in
        if \<not> truthy (jget e ''type'') \<or> jget e ''id'' = JNull \<or> key \<in> set seen then seed_entities_loop tx seen rest
        else JObj [(''type'', str_json tx (jget e ''type'')), (''id'', str_json tx (jget e ''id''))]
               # seed_entities_loop tx (key # seen) rest)"

definition seed_entities :: "texts \<Rightarrow> json list \<Rightarrow> json" where
  "seed_entities tx raw = JList (seed_entities_loop tx [] raw)"

definition uuid_items :: "uuid list \<Rightarrow> json" where
  "uuid_items us = JList (map JUuid us)"

definition text_items :: "string list \<Rightarrow> json" where
  "text_items ss = JList (map JStr ss)"

definition member_fields :: "uuid \<Rightarrow> trigger_row list \<Rightarrow> dict" where
  "member_fields batch_id members =
    [(''trigger_id'', JUuid batch_id), (''batch'', JBool True),
     (''batch_member_trigger_ids'', uuid_items (map q_id members)),
     (''member_trigger_ids'', uuid_items (map q_id members))]"

section \<open>The payload of a batch\<close>

definition opt_list :: "'a option \<Rightarrow> 'a list" where
  "opt_list v = (case v of None \<Rightarrow> [] | Some x \<Rightarrow> [x])"

definition signal_fragment :: "texts \<Rightarrow> observation_row \<Rightarrow> json" where
  "signal_fragment tx o' = JObj [(''observation_id'', JUuid (o_id o')), (''occurred_at'', JStr (tx_iso tx (o_occurred_at o'))),
     (''source_channel'', JStr (o_channel o')), (''kind'', JStr (o_kind o')),
     (''text'', JStr (take 900 (compact_text (py_strip (tx_content tx (o_id o'))))))]"

definition build_t1_batch_payload ::
  "texts \<Rightarrow> worker_config \<Rightarrow> uuid \<Rightarrow> trigger_row list \<Rightarrow> uuid list \<Rightarrow> queue_db \<Rightarrow> dict" where
  "build_t1_batch_payload tx cfg batch_id members observation_ids d =
    (let rows = sort_key o_occurred_at (filter (\<lambda>o'. o_id o' \<in> set observation_ids) (observations d));
         spoken = filter (\<lambda>o'. py_strip (tx_content tx (o_id o')) \<noteq> []) rows;
         lines = map (\<lambda>o'. ''- '' @ uuid_text tx (o_id o') @ '': '' @
                   cut_text 280 (compact_text (py_strip (tx_content tx (o_id o'))))) spoken;
         tiers = sort (remdups (map o_trust rows));
         summary = ''Evidence window containing '' @ nat_text (length observation_ids) @ '' source signals. '' @
           ''The window wrapper is not itself a business fact; derive durable '' @
           ''claims only from the individual signals below.''
     in member_fields batch_id members @
       [(''batch_window_s'', JFloat (wc_t1_window_s cfg)),
        (''batch_observation_ids'', uuid_items observation_ids), (''observation_ids'', uuid_items observation_ids),
        (''batch_signal_fragments'', JList (map (signal_fragment tx) spoken)),
        (''source_channel'', JStr ''batch''), (''kind'', JStr ''signal_batch''), (''observation_kind'', JStr ''signal_batch''),
        (''signal_type'', JStr ''event_batch''),
        (''trust_tier'', JStr (if length tiers \<noteq> 1 then ''mixed'' else hd tiers)),
        (''source_channels'', text_items (sort (remdups (map o_channel rows)))),
        (''observation_kinds'', text_items (sort (remdups (map o_kind rows)))),
        (''trust_tiers'', text_items tiers),
        (''seed_occurred_at'', case rows of [] \<Rightarrow> JNull | o' # _ \<Rightarrow> JStr (tx_iso tx (o_occurred_at o'))),
        (''seed_natural_text'', JStr (with_lines summary lines)),
        (''seed_entity_ids'', seed_entities tx (concat (map o_entities rows))),
        (''scope_actors'', uuid_items (dedup (concat (map (opt_list \<circ> o_actor) rows))))])"

definition build_t2_batch_payload :: "texts \<Rightarrow> worker_config \<Rightarrow> uuid \<Rightarrow> trigger_row list \<Rightarrow> queue_db \<Rightarrow> dict" where
  "build_t2_batch_payload tx cfg batch_id members d =
    (let model_ids = dedup (concat (map (opt_list \<circ> q_model) members));
         rows = List.map_filter (\<lambda>i. row_at ms_id i (model_scopes d)) model_ids;
         lines = List.map_filter (\<lambda>m. let natural = py_strip (tx_natural tx (ms_id m)) in
                   if natural = [] then None
                   else Some (''- '' @ uuid_text tx (ms_id m) @ '': '' @ cut_text 220 (compact_text natural))) rows
     in member_fields batch_id members @
       [(''batch_kind'', JStr ''downstream''), (''batch_trigger_kind'', JStr ''T2''),
        (''batch_trigger_subkind'', JStr ''belief_updated''), (''batch_window_s'', JFloat (wc_down_window_s cfg)),
        (''batch_model_ids'', uuid_items model_ids), (''model_ids'', uuid_items model_ids),
        (''member_model_ids'', uuid_items model_ids),
        (''source_observation_ids'', uuid_items (concat (map (opt_list \<circ> q_observation) members))),
        (''seed_natural_text'', JStr (with_lines (''Batch of '' @ nat_text (length model_ids) @ '' updated beliefs'') lines)),
        (''seed_entity_ids'', seed_entities tx (concat (map (json_items \<circ> ms_scope_entities) rows))),
        (''scope_actors'', uuid_items (dedup (concat (map ms_scope_actors rows))))])"

text \<open>\<open>candidate_kind_counts\<close>, in the order of first occurrence.\<close>

definition kind_counts :: "string list \<Rightarrow> dict" where
  "kind_counts kinds = map (\<lambda>k. (k, JInt (int (count_list kinds k)))) (dedup kinds)"

definition build_t4_latent_batch_payload ::
  "texts \<Rightarrow> worker_config \<Rightarrow> uuid \<Rightarrow> trigger_row list \<Rightarrow> queue_db \<Rightarrow> dict" where
  "build_t4_latent_batch_payload tx cfg batch_id members d =
    (let candidate_ids = dedup (concat (map (candidate_ids_of \<circ> q_payload) members));
         rows = List.map_filter (\<lambda>i. row_at cd_id i (candidates d)) candidate_ids;
         model_ids = dedup (concat (map (\<lambda>m. coerce_uuid_list (json_items (jget (q_payload m) ''member_model_ids''))) members)
           @ concat (map candidate_models rows));
         seed_lines = List.map_filter (\<lambda>m. case json_text (jget (q_payload m) ''seed_natural_text'') of None \<Rightarrow> None
             | Some t \<Rightarrow> if py_strip t = [] then None
                 else Some (''- '' @ uuid_text tx (q_id m) @ '': '' @ cut_text 220 (compact_text t))) members
           @ List.map_filter (\<lambda>c. let t = py_strip (tx_explanation tx (cd_id c)) in if t = [] then None
                 else Some (''- candidate '' @ uuid_text tx (cd_id c) @ '': '' @ cut_text 220 (compact_text t))) rows;
         kinds = map (candidate_kind_of d \<circ> cd_id) rows
     in member_fields batch_id members @
       [(''batch_kind'', JStr ''downstream''), (''batch_trigger_kind'', JStr ''T4''),
        (''batch_trigger_subkind'', JStr ''latent_relationship_candidate''),
        (''batch_window_s'', JFloat (wc_down_window_s cfg)),
        (''relationship_candidate_id'', case candidate_ids of [] \<Rightarrow> JNull | i # _ \<Rightarrow> JUuid i),
        (''relationship_candidate_ids'', uuid_items candidate_ids),
        (''batch_relationship_candidate_ids'', uuid_items candidate_ids),
        (''member_model_ids'', uuid_items model_ids),
        (''seed_natural_text'', JStr (with_lines
           (''Batch of '' @ nat_text (length candidate_ids) @ '' latent relationship candidates'') (take 8 seed_lines))),
        (''seed_signature'', JObj [(''kind'', JStr ''latent_relationship_candidate_batch''),
           (''candidate_count'', JInt (int (length candidate_ids))),
           (''candidate_kind'', if length (dedup kinds) = 1 then JStr (hd (dedup kinds)) else JNull),
           (''candidate_kind_counts'', JObj (kind_counts kinds))])])"

definition build_downstream_batch_payload ::
  "texts \<Rightarrow> worker_config \<Rightarrow> uuid \<Rightarrow> string \<Rightarrow> string option \<Rightarrow> trigger_row list \<Rightarrow> queue_db \<Rightarrow> dict" where
  "build_downstream_batch_payload tx cfg batch_id trigger_kind trigger_subkind members d =
    (if trigger_kind = ''T2'' \<and> trigger_subkind = Some ''belief_updated''
     then build_t2_batch_payload tx cfg batch_id members d
     else if trigger_kind = ''T4'' \<and> trigger_subkind = Some ''latent_relationship_candidate''
     then build_t4_latent_batch_payload tx cfg batch_id members d
     else member_fields batch_id members @ [(''batch_kind'', JStr ''downstream'')])"

section \<open>Creating a batch\<close>

text \<open>\<open>UPDATE .. SET batch_parent_id = $1 WHERE id = ANY(..) AND completed_at IS NULL AND batch_parent_id IS NULL\<close>.\<close>

definition adopt_members :: "uuid \<Rightarrow> trigger_row list \<Rightarrow> queue_db \<Rightarrow> queue_db" where
  "adopt_members batch_id members d =
    upd_triggers (\<lambda>r. q_id r \<in> q_id ` set members \<and> q_completed_at r = None \<and> q_batch_parent r = None)
      (\<lambda>r. r\<lparr>q_batch_parent := Some batch_id\<rparr>) d"

definition insert_t1_batch_row ::
  "texts \<Rightarrow> worker_config \<Rightarrow> uuid \<Rightarrow> trigger_row list \<Rightarrow> (queue_db, leased) tx" where
  "insert_t1_batch_row tx cfg tenant_id members d =
    (let (batch_id, d) = take_uuid d;
         observation_ids = concat (map (opt_list \<circ> q_observation) members);
         payload = build_t1_batch_payload tx cfg batch_id members observation_ids d;
         primary = (case observation_ids of [] \<Rightarrow> None | i # _ \<Rightarrow> Some i)
     in bind_tx (enqueue_trigger tenant_id ''T1'' (Some ''event_batch'') primary None (Some payload) None
          (Some (wc_worker_id cfg)) (Some batch_id)) (\<lambda>_. bind_tx (modify_tx (adopt_members batch_id members)) (\<lambda>_.
        return_tx \<lparr>ls_id = batch_id, ls_tenant = tenant_id, ls_kind = ''T1'', ls_subkind = Some ''event_batch'',
          ls_observation = primary, ls_model = None, ls_payload = payload, ls_attempts = 0\<rparr>)) d)"

definition insert_downstream_batch_row ::
  "texts \<Rightarrow> worker_config \<Rightarrow> uuid \<Rightarrow> string \<Rightarrow> string option \<Rightarrow> trigger_row list \<Rightarrow> (queue_db, leased) tx" where
  "insert_downstream_batch_row tx cfg tenant_id trigger_kind trigger_subkind members d =
    (let (batch_id, d) = take_uuid d;
         payload = build_downstream_batch_payload tx cfg batch_id trigger_kind trigger_subkind members d;
         model = (case payload_uuid_list payload ''model_ids'' of [] \<Rightarrow> None | i # _ \<Rightarrow> Some i);
         primary = (case concat (map (opt_list \<circ> q_observation) members) of [] \<Rightarrow> None | i # _ \<Rightarrow> Some i)
     in bind_tx (enqueue_trigger tenant_id trigger_kind trigger_subkind primary model (Some payload) None
          (Some (wc_worker_id cfg)) (Some batch_id)) (\<lambda>_. bind_tx (modify_tx (adopt_members batch_id members)) (\<lambda>_.
        return_tx \<lparr>ls_id = batch_id, ls_tenant = tenant_id, ls_kind = trigger_kind, ls_subkind = trigger_subkind,
          ls_observation = primary, ls_model = model, ls_payload = payload, ls_attempts = 0\<rparr>)) d)"

section \<open>The loops over groups\<close>

text \<open>
  A dictionary of lists filled with \<open>setdefault(key, []).append(row)\<close>, sorted by the oldest row
  of each list.
\<close>

definition group_rows :: "(trigger_row \<Rightarrow> 'k) \<Rightarrow> trigger_row list \<Rightarrow> ('k \<times> trigger_row list) list" where
  "group_rows key rows = sort_key (\<lambda>g. min_list (map q_enqueued_at (snd g)))
    (map (\<lambda>k. (k, filter (\<lambda>r. key r = k) rows)) (dedup (map key rows)))"

text \<open>
  One pass over the groups: \<open>pick\<close> chooses the members of a batch among the rows of a group,
  \<open>create\<close> inserts the batch. The lane passes leave out the rows already \<open>used\<close>.
\<close>

type_synonym 'k batcher = "('k \<Rightarrow> trigger_row list \<Rightarrow> trigger_row list option) \<times>
  ('k \<Rightarrow> trigger_row list \<Rightarrow> (queue_db, leased) tx)"

fun batch_pass :: "'k batcher \<Rightarrow> bool \<Rightarrow> nat \<Rightarrow> ('k \<times> trigger_row list) list \<Rightarrow> leased list \<times> uuid list \<Rightarrow>
  (queue_db, leased list \<times> uuid list) tx" where
  "batch_pass B skip_used slots [] acc = return_tx acc"
| "batch_pass B skip_used slots ((k, rows) # groups) acc =
    (if slots \<le> length (fst acc) then return_tx acc
     else case fst B k (if skip_used then filter (\<lambda>r. q_id r \<notin> set (snd acc)) rows else rows) of
       None \<Rightarrow> batch_pass B skip_used slots groups acc
     | Some members \<Rightarrow> bind_tx (snd B k members) (\<lambda>row.
         batch_pass B skip_used slots groups (fst acc @ [row], snd acc @ map q_id members)))"

text \<open>
  \<open>while len(batch_rows) < available_slots\<close>: a pass that creates nothing ends the loop, and
  every other pass fills a slot, so as many passes as there are slots are enough.
\<close>

fun batch_loop :: "nat \<Rightarrow> 'k batcher \<Rightarrow> nat \<Rightarrow> ('k \<times> trigger_row list) list \<Rightarrow> leased list \<times> uuid list \<Rightarrow>
  (queue_db, leased list \<times> uuid list) tx" where
  "batch_loop 0 B slots groups acc = return_tx acc"
| "batch_loop (Suc n) B slots groups acc =
    (if slots \<le> length (fst acc) then return_tx acc
     else bind_tx (batch_pass B True slots groups acc) (\<lambda>acc'.
       if length (fst acc') = length (fst acc) then return_tx acc' else batch_loop n B slots groups acc'))"

definition create_batches ::
  "'k batcher \<Rightarrow> 'j batcher \<Rightarrow> (trigger_row \<Rightarrow> 'k) \<Rightarrow> (trigger_row \<Rightarrow> 'j) \<Rightarrow> nat \<Rightarrow> trigger_row list \<Rightarrow>
   (queue_db, leased list) tx" where
  "create_batches B F lane_key fallback_key slots rows =
    bind_tx (batch_loop slots B slots (group_rows lane_key rows) ([], [])) (\<lambda>(batches, used).
      if slots \<le> length batches then return_tx batches
      else bind_tx (batch_pass F False slots
          (group_rows fallback_key (filter (\<lambda>r. q_id r \<notin> set used) rows)) (batches, used))
        (\<lambda>(batches, used). return_tx batches))"

section \<open>The two kinds of batches\<close>

definition unbatched :: "trigger_row \<Rightarrow> bool" where
  "unbatched r \<longleftrightarrow> jget (q_payload r) ''unbatched_from'' = JNull"

definition t1_candidate :: "worker_config \<Rightarrow> time \<Rightarrow> trigger_row \<Rightarrow> bool" where
  "t1_candidate cfg now r \<longleftrightarrow> leasable cfg now r \<and> unbatched r \<and> is_event_arrival r \<and> q_observation r \<noteq> None"

definition t1_candidates :: "worker_config \<Rightarrow> (uuid \<Rightarrow> bool) \<Rightarrow> int \<Rightarrow> queue_db \<Rightarrow> trigger_row list" where
  "t1_candidates cfg busy available_slots d =
    take (nat (max (wc_t1_max_size cfg) (wc_t1_max_size cfg * available_slots)))
      (sort_key q_enqueued_at (filter (\<lambda>r. t1_candidate cfg (db_now d) r \<and> \<not> busy (q_id r)) (trigger_queue d)))"

definition t1_lane_batcher :: "texts \<Rightarrow> worker_config \<Rightarrow> time \<Rightarrow> (uuid \<times> string option) batcher" where
  "t1_lane_batcher tx cfg now = ((\<lambda>(tenant_id, lane) rows. if lane = None then None else
       ready_batch_members rows (wc_t1_max_size cfg) (wc_t1_min_size cfg) (wc_t1_window_s cfg) now True False),
     (\<lambda>(tenant_id, lane) members. insert_t1_batch_row tx cfg tenant_id members))"

definition t1_fallback_batcher :: "texts \<Rightarrow> worker_config \<Rightarrow> time \<Rightarrow> uuid batcher" where
  "t1_fallback_batcher tx cfg now = ((\<lambda>tenant_id rows.
       ready_batch_members rows (wc_t1_max_size cfg) (wc_t1_min_size cfg) (wc_t1_window_s cfg) now False True),
     (\<lambda>tenant_id members. insert_t1_batch_row tx cfg tenant_id members))"

definition create_t1_batch_rows ::
  "texts \<Rightarrow> worker_config \<Rightarrow> (uuid \<Rightarrow> bool) \<Rightarrow> int \<Rightarrow> (queue_db, leased list) tx" where
  "create_t1_batch_rows tx cfg busy available_slots d =
    (if \<not> t1_batching_enabled cfg \<or> available_slots \<le> 0 then (Inr [], d)
     else create_batches (t1_lane_batcher tx cfg (py_now d)) (t1_fallback_batcher tx cfg (py_now d))
       (\<lambda>r. (q_tenant r, t1_event_lane tx d r)) q_tenant (nat available_slots)
       (t1_candidates cfg busy available_slots d) d)"

definition downstream_candidate :: "worker_config \<Rightarrow> time \<Rightarrow> trigger_row \<Rightarrow> bool" where
  "downstream_candidate cfg now r \<longleftrightarrow> leasable cfg now r \<and> unbatched r \<and>
     jget (q_payload r) ''batch'' \<notin> {JBool True, JStr ''true''} \<and>
     (is_belief_update r \<and> q_model r \<noteq> None \<or> is_latent r \<and> dict_has (q_payload r) ''relationship_candidate_id'')"

definition largest_batch :: "worker_config \<Rightarrow> int" where
  "largest_batch cfg = max (max (wc_t2_max_size cfg) (wc_t4_max_size cfg)) 0"

definition downstream_candidates :: "worker_config \<Rightarrow> (uuid \<Rightarrow> bool) \<Rightarrow> int \<Rightarrow> queue_db \<Rightarrow> trigger_row list" where
  "downstream_candidates cfg busy available_slots d =
    take (nat (max (largest_batch cfg) (largest_batch cfg * available_slots)))
      (sort_key q_enqueued_at (filter (\<lambda>r. downstream_candidate cfg (db_now d) r \<and> \<not> busy (q_id r)) (trigger_queue d)))"

definition downstream_batch_max_size :: "worker_config \<Rightarrow> string \<Rightarrow> string option \<Rightarrow> int" where
  "downstream_batch_max_size cfg kind subkind =
    (if kind = ''T2'' \<and> subkind = Some ''belief_updated'' then max 0 (wc_t2_max_size cfg)
     else if kind = ''T4'' \<and> subkind = Some ''latent_relationship_candidate'' then max 0 (wc_t4_max_size cfg)
     else 0)"

definition pick_downstream ::
  "worker_config \<Rightarrow> time \<Rightarrow> bool \<Rightarrow> bool \<Rightarrow> string \<Rightarrow> string option \<Rightarrow> trigger_row list \<Rightarrow> trigger_row list option" where
  "pick_downstream cfg now allow fallback kind subkind rows =
    (let max_size = downstream_batch_max_size cfg kind subkind in
     if max_size < wc_down_min_size cfg then None
     else ready_batch_members rows max_size (wc_down_min_size cfg) (wc_down_window_s cfg) now allow fallback)"

definition down_lane_batcher ::
  "texts \<Rightarrow> worker_config \<Rightarrow> time \<Rightarrow> (uuid \<times> string \<times> string option \<times> string option) batcher" where
  "down_lane_batcher tx cfg now =
    ((\<lambda>(tenant_id, kind, subkind, lane) rows. pick_downstream cfg now True False kind subkind rows),
     (\<lambda>(tenant_id, kind, subkind, lane) members. insert_downstream_batch_row tx cfg tenant_id kind subkind members))"

definition down_fallback_batcher ::
  "texts \<Rightarrow> worker_config \<Rightarrow> time \<Rightarrow> (uuid \<times> string \<times> string option) batcher" where
  "down_fallback_batcher tx cfg now =
    ((\<lambda>(tenant_id, kind, subkind) rows. pick_downstream cfg now False True kind subkind rows),
     (\<lambda>(tenant_id, kind, subkind) members. insert_downstream_batch_row tx cfg tenant_id kind subkind members))"

definition create_downstream_batch_rows ::
  "texts \<Rightarrow> worker_config \<Rightarrow> (uuid \<Rightarrow> bool) \<Rightarrow> int \<Rightarrow> (queue_db, leased list) tx" where
  "create_downstream_batch_rows tx cfg busy available_slots d =
    (if \<not> downstream_batching_enabled cfg \<or> available_slots \<le> 0 then (Inr [], d)
     else if largest_batch cfg < wc_down_min_size cfg then (Inr [], d)
     else create_batches (down_lane_batcher tx cfg (py_now d)) (down_fallback_batcher tx cfg (py_now d))
       (\<lambda>r. (q_tenant r, q_kind r, q_subkind r, downstream_lane tx d r)) (\<lambda>r. (q_tenant r, q_kind r, q_subkind r))
       (nat available_slots) (downstream_candidates cfg busy available_slots d) d)"

end
