(* ===== verification/DeadLetters.thy ===== *)
theory DeadLetters
  imports WorkerBatches
begin

text \<open>
  The operators' routes for dead letters, \<open>services/app/gateway/dead_letter_router.py\<close>: listing,
  retrying and quarantining entries of the three durable queues. A request carries the
  authentication the middleware left, if any, and its body; FastAPI has parsed the path.
\<close>

record auth_context =
  au_tenant :: uuid
  au_actor :: uuid

datatype dead_queue = PostCommitQueue | ModelReevalQueue | ThinkTriggerQueue

definition QUEUES :: "dead_queue list" where
  "QUEUES = [PostCommitQueue, ModelReevalQueue, ThinkTriggerQueue]"

fun queue_text :: "dead_queue \<Rightarrow> string" where
  "queue_text PostCommitQueue = ''post_commit''"
| "queue_text ModelReevalQueue = ''model_reeval''"
| "queue_text ThinkTriggerQueue = ''think_trigger''"

definition parse_queue :: "string \<Rightarrow> dead_queue option" where
  "parse_queue value = List.find (\<lambda>q. queue_text q = to_lower (py_strip value)) QUEUES"

definition parse_queues :: "string \<Rightarrow> dead_queue list option" where
  "parse_queues value = (if to_lower (py_strip value) = ''all'' then Some QUEUES
     else map_option (\<lambda>q. [q]) (parse_queue value))"

text \<open>\<open>max(1, min(100, int(limit or 1)))\<close>.\<close>

definition normalize_limit :: "int \<Rightarrow> int" where
  "normalize_limit limit = max 1 (min 100 (if limit = 0 then 1 else limit))"

definition is_admin :: "auth_context \<Rightarrow> queue_db \<Rightarrow> bool" where
  "is_admin auth d = has_role (au_actor auth) ''admin'' (au_tenant auth) (access_db.truncate d)"

datatype body = NoBody | BadJson | Body json

definition optional_json_body :: "body \<Rightarrow> dict option" where
  "optional_json_body b = (case b of NoBody \<Rightarrow> Some [] | BadJson \<Rightarrow> None | Body v \<Rightarrow> json_fields v)"

definition bounded_text :: "texts \<Rightarrow> json \<Rightarrow> string option" where
  "bounded_text tx v = (if v = JNull then None else let t = py_strip (tx_str tx v) in if t = [] then None else Some (take 500 t))"

definition reason_json :: "string option \<Rightarrow> json" where
  "reason_json r = (case r of None \<Rightarrow> JNull | Some s \<Rightarrow> JStr s)"

datatype route_reply =
    Unauthorized
  | BadRequest string
  | Forbidden
  | NotFound
  | Conflict string
  | Reply dict

section \<open>The audit trail\<close>

definition record_operator_action ::
  "auth_context \<Rightarrow> string \<Rightarrow> string \<Rightarrow> uuid option \<Rightarrow> dict \<Rightarrow> queue_db \<Rightarrow> queue_db" where
  "record_operator_action auth action resource_type resource_id metadata d =
    (let (new_id, d) = take_uuid d in
     d\<lparr>operator_log := operator_log d @ [\<lparr>op_id = new_id, op_tenant = au_tenant auth, op_actor = au_actor auth,
        op_action = action, op_resource_type = resource_type, op_resource = resource_id, op_metadata = metadata,
        op_at = db_now d\<rparr>]\<rparr>)"

section \<open>Retries\<close>

datatype outcome = Missing | Refused string | Done dict

definition scheduled_reply :: "dead_queue \<Rightarrow> uuid \<Rightarrow> dict \<Rightarrow> outcome" where
  "scheduled_reply q i extra = Done ([(''status'', JStr ''retry_scheduled''), (''queue'', JStr (queue_text q)), (''id'', JUuid i)] @ extra)"

definition retry_post_commit ::
  "auth_context \<Rightarrow> uuid \<Rightarrow> string option \<Rightarrow> queue_db \<Rightarrow> outcome \<times> queue_db" where
  "retry_post_commit auth item_id reason d =
    (case List.find (\<lambda>r. pc_tenant r = au_tenant auth \<and> pc_id r = item_id) (pending_actions d) of
       None \<Rightarrow> (Missing, d)
     | Some row \<Rightarrow>
        if pc_dead_at row = None then (Refused ''not_dead_lettered'', d)
        else if pc_quarantined row \<noteq> None then (Refused ''dead_letter_quarantined'', d)
        else
          let d = d\<lparr>pending_actions := map (\<lambda>r. if pc_tenant r = au_tenant auth \<and> pc_id r = item_id
                then r\<lparr>pc_dead_at := None, pc_scheduled_at := db_now d, pc_attempts := 0, pc_last_error := None,
                       pc_quarantined := None\<rparr> else r) (pending_actions d)\<rparr>
          in (scheduled_reply PostCommitQueue item_id [],
              record_operator_action auth ''dead_letter.retry'' ''post_commit'' (Some item_id)
                [(''previous_attempts'', JInt (pc_attempts row)), (''action_kind'', JStr (pc_kind row)),
                 (''reason'', reason_json reason)] d))"

definition retry_model_reeval ::
  "auth_context \<Rightarrow> uuid \<Rightarrow> string option \<Rightarrow> (queue_db, outcome) tx" where
  "retry_model_reeval auth item_id reason d =
    (case List.find (\<lambda>r. dl_tenant r = au_tenant auth \<and> dl_id r = item_id) (reeval_dead d) of
       None \<Rightarrow> (Inr Missing, d)
     | Some row \<Rightarrow>
        if dl_quarantined row \<noteq> None then (Inr (Refused ''dead_letter_quarantined''), d)
        else if dl_retried row \<noteq> None then (Inr (Refused ''dead_letter_already_retried''), d)
        else bind_tx (enqueue_model_reeval (au_tenant auth) (dl_model row) (dl_kind row) (dl_cause row) None) (\<lambda>queued_id d.
          let d = d\<lparr>reeval_rows := map (\<lambda>r. if rq_tenant r = au_tenant auth \<and> rq_id r = queued_id \<and> rq_processed_at r = None
                then r\<lparr>rq_enqueued_at := db_now d, rq_attempts := 0, rq_last_error := None\<rparr> else r) (reeval_rows d)\<rparr>;
              d = d\<lparr>reeval_dead := map (\<lambda>r. if dl_tenant r = au_tenant auth \<and> dl_id r = item_id
                then r\<lparr>dl_retried := Some (db_now d, au_actor auth, queued_id)\<rparr> else r) (reeval_dead d)\<rparr>
          in (Inr (scheduled_reply ModelReevalQueue item_id [(''retry_queue_id'', JUuid queued_id)]),
              record_operator_action auth ''dead_letter.retry'' ''model_reeval'' (Some item_id)
                [(''previous_attempts'', JInt (dl_attempts row)), (''retry_queue_id'', JUuid queued_id),
                 (''reason'', reason_json reason)] d)) d)"

definition reopen_row :: "time \<Rightarrow> trigger_row \<Rightarrow> trigger_row" where
  "reopen_row now r = (unlock_row r)\<lparr>q_completed_at := None, q_scheduled_for := Some now, q_attempts := 0,
     q_last_error := None, q_quarantined := None\<rparr>"

definition subkind_json :: "string option \<Rightarrow> json" where
  "subkind_json s = (case s of None \<Rightarrow> JNull | Some t \<Rightarrow> JStr t)"

definition retry_think_trigger ::
  "auth_context \<Rightarrow> uuid \<Rightarrow> string option \<Rightarrow> queue_db \<Rightarrow> outcome \<times> queue_db" where
  "retry_think_trigger auth item_id reason d =
    (case List.find (\<lambda>r. q_tenant r = au_tenant auth \<and> q_id r = item_id) (trigger_queue d) of
       None \<Rightarrow> (Missing, d)
     | Some row \<Rightarrow>
        if q_completed_at row = None \<or> q_last_error row = None then (Refused ''not_dead_lettered'', d)
        else if q_quarantined row \<noteq> None then (Refused ''dead_letter_quarantined'', d)
        else
          let d = upd_triggers (\<lambda>r. q_tenant r = au_tenant auth \<and> q_id r = item_id) (reopen_row (db_now d)) d
          in (scheduled_reply ThinkTriggerQueue item_id [],
              record_operator_action auth ''dead_letter.retry'' ''think_trigger'' (Some item_id)
                [(''previous_attempts'', JInt (q_attempts row)), (''trigger_kind'', JStr (q_kind row)),
                 (''trigger_subkind'', subkind_json (q_subkind row)), (''reason'', reason_json reason)] d))"

definition retry_dead_letter ::
  "auth_context \<Rightarrow> dead_queue \<Rightarrow> uuid \<Rightarrow> string option \<Rightarrow> (queue_db, outcome) tx" where
  "retry_dead_letter auth queue item_id reason d =
    (case queue of
       PostCommitQueue \<Rightarrow> map_prod Inr id (retry_post_commit auth item_id reason d)
     | ModelReevalQueue \<Rightarrow> retry_model_reeval auth item_id reason d
     | ThinkTriggerQueue \<Rightarrow> map_prod Inr id (retry_think_trigger auth item_id reason d))"

section \<open>Quarantine\<close>

text \<open>\<open>COALESCE(quarantined_at, now())\<close>: the first time stays, actor and reason are replaced.\<close>

definition quarantine_mark ::
  "auth_context \<Rightarrow> string \<Rightarrow> time \<Rightarrow> (time \<times> uuid \<times> string) option \<Rightarrow> (time \<times> uuid \<times> string) option" where
  "quarantine_mark auth reason now old =
    Some (case old of None \<Rightarrow> now | Some (t, _) \<Rightarrow> t, au_actor auth, reason)"

definition quarantined_reply :: "dead_queue \<Rightarrow> uuid \<Rightarrow> outcome" where
  "quarantined_reply q i = Done [(''status'', JStr ''quarantined''), (''queue'', JStr (queue_text q)), (''id'', JUuid i)]"

definition quarantine_post_commit :: "auth_context \<Rightarrow> uuid \<Rightarrow> string \<Rightarrow> queue_db \<Rightarrow> outcome \<times> queue_db" where
  "quarantine_post_commit auth item_id reason d =
    (case List.find (\<lambda>r. pc_tenant r = au_tenant auth \<and> pc_id r = item_id) (pending_actions d) of
       None \<Rightarrow> (Missing, d)
     | Some row \<Rightarrow>
        if pc_dead_at row = None then (Refused ''not_dead_lettered'', d)
        else (quarantined_reply PostCommitQueue item_id,
          record_operator_action auth ''dead_letter.quarantine'' ''post_commit'' (Some item_id)
            [(''action_kind'', JStr (pc_kind row)), (''reason'', JStr reason)]
            (d\<lparr>pending_actions := map (\<lambda>r. if pc_tenant r = au_tenant auth \<and> pc_id r = item_id
               then r\<lparr>pc_quarantined := quarantine_mark auth reason (db_now d) (pc_quarantined r)\<rparr> else r) (pending_actions d)\<rparr>)))"

definition quarantine_model_reeval :: "auth_context \<Rightarrow> uuid \<Rightarrow> string \<Rightarrow> queue_db \<Rightarrow> outcome \<times> queue_db" where
  "quarantine_model_reeval auth item_id reason d =
    (case List.find (\<lambda>r. dl_tenant r = au_tenant auth \<and> dl_id r = item_id) (reeval_dead d) of
       None \<Rightarrow> (Missing, d)
     | Some row \<Rightarrow>
        if dl_retried row \<noteq> None then (Refused ''dead_letter_already_retried'', d)
        else (quarantined_reply ModelReevalQueue item_id,
          record_operator_action auth ''dead_letter.quarantine'' ''model_reeval'' (Some item_id)
            [(''cause_kind'', JStr (dl_kind row)), (''reason'', JStr reason)]
            (d\<lparr>reeval_dead := map (\<lambda>r. if dl_tenant r = au_tenant auth \<and> dl_id r = item_id
               then r\<lparr>dl_quarantined := quarantine_mark auth reason (db_now d) (dl_quarantined r)\<rparr> else r) (reeval_dead d)\<rparr>)))"

definition quarantine_think_trigger :: "auth_context \<Rightarrow> uuid \<Rightarrow> string \<Rightarrow> queue_db \<Rightarrow> outcome \<times> queue_db" where
  "quarantine_think_trigger auth item_id reason d =
    (case List.find (\<lambda>r. q_tenant r = au_tenant auth \<and> q_id r = item_id) (trigger_queue d) of
       None \<Rightarrow> (Missing, d)
     | Some row \<Rightarrow>
        if q_completed_at row = None \<or> q_last_error row = None then (Refused ''not_dead_lettered'', d)
        else (quarantined_reply ThinkTriggerQueue item_id,
          record_operator_action auth ''dead_letter.quarantine'' ''think_trigger'' (Some item_id)
            [(''trigger_kind'', JStr (q_kind row)), (''trigger_subkind'', subkind_json (q_subkind row)), (''reason'', JStr reason)]
            (upd_triggers (\<lambda>r. q_tenant r = au_tenant auth \<and> q_id r = item_id)
               (\<lambda>r. r\<lparr>q_quarantined := quarantine_mark auth reason (db_now d) (q_quarantined r)\<rparr>) d)))"

definition quarantine_dead_letter :: "auth_context \<Rightarrow> dead_queue \<Rightarrow> uuid \<Rightarrow> string \<Rightarrow> queue_db \<Rightarrow> outcome \<times> queue_db" where
  "quarantine_dead_letter auth queue item_id reason d =
    (case queue of
       PostCommitQueue \<Rightarrow> quarantine_post_commit auth item_id reason d
     | ModelReevalQueue \<Rightarrow> quarantine_model_reeval auth item_id reason d
     | ThinkTriggerQueue \<Rightarrow> quarantine_think_trigger auth item_id reason d)"

section \<open>Listing\<close>

definition error_preview :: "string option \<Rightarrow> json" where
  "error_preview v = (case v of None \<Rightarrow> JNull | Some s \<Rightarrow>
     let t = py_strip (map (\<lambda>c. if c = CHR 0x0A then CHR '' '' else c) s) in
     if t = [] then JNull else JStr (take 500 t))"

definition uuid_json :: "uuid option \<Rightarrow> json" where
  "uuid_json i = (case i of None \<Rightarrow> JNull | Some u \<Rightarrow> JUuid u)"

definition iso :: "texts \<Rightarrow> time option \<Rightarrow> json" where
  "iso tx t = (case t of None \<Rightarrow> JNull | Some v \<Rightarrow> JStr (tx_iso tx v))"

definition state_json :: "(time \<times> uuid \<times> string) option \<Rightarrow> json" where
  "state_json q = JStr (if q \<noteq> None then ''quarantined'' else ''dead_lettered'')"

definition quarantine_fields :: "texts \<Rightarrow> (time \<times> uuid \<times> string) option \<Rightarrow> dict" where
  "quarantine_fields tx q = [(''quarantined_at'', iso tx (map_option fst q)),
     (''quarantine_reason'', case q of None \<Rightarrow> JNull | Some (_, _, s) \<Rightarrow> JStr s)]"

text \<open>Newest first; an entry of a list comes with its \<open>_sort_at\<close>.\<close>

definition newest_first :: "('r \<Rightarrow> time) \<Rightarrow> 'r list \<Rightarrow> 'r list" where
  "newest_first stamp rows = sort_key (\<lambda>r. - stamp r) rows"

definition time_of :: "time option \<Rightarrow> time" where
  "time_of t = (case t of None \<Rightarrow> 0 | Some v \<Rightarrow> v)"

definition list_post_commit_dead_letters :: "texts \<Rightarrow> uuid \<Rightarrow> nat \<Rightarrow> bool \<Rightarrow> queue_db \<Rightarrow> (time \<times> dict) list" where
  "list_post_commit_dead_letters tx tenant_id limit include_quarantined d =
    map (\<lambda>r. (time_of (pc_dead_at r), [(''queue'', JStr ''post_commit''), (''id'', JUuid (pc_id r)),
        (''state'', state_json (pc_quarantined r)), (''trigger_id'', JUuid (pc_trigger r)), (''action_kind'', JStr (pc_kind r)),
        (''attempts'', JInt (pc_attempts r)), (''created_at'', iso tx (Some (pc_created_at r))),
        (''scheduled_at'', iso tx (Some (pc_scheduled_at r))), (''dead_lettered_at'', iso tx (pc_dead_at r))]
        @ quarantine_fields tx (pc_quarantined r) @ [(''error_preview'', error_preview (pc_last_error r))]))
      (take limit (newest_first (time_of \<circ> pc_dead_at) (newest_first pc_created_at
        (filter (\<lambda>r. pc_tenant r = tenant_id \<and> pc_dead_at r \<noteq> None \<and>
          (include_quarantined \<or> pc_quarantined r = None)) (pending_actions d)))))"

definition list_model_reeval_dead_letters :: "texts \<Rightarrow> uuid \<Rightarrow> nat \<Rightarrow> bool \<Rightarrow> queue_db \<Rightarrow> (time \<times> dict) list" where
  "list_model_reeval_dead_letters tx tenant_id limit include_quarantined d =
    map (\<lambda>r. (dl_at r, [(''queue'', JStr ''model_reeval''), (''id'', JUuid (dl_id r)),
        (''state'', JStr (if dl_quarantined r \<noteq> None then ''quarantined'' else if dl_retried r \<noteq> None then ''retried'' else ''dead_lettered'')),
        (''original_queue_id'', JUuid (dl_original r)), (''model_id'', JUuid (dl_model r)),
        (''cause_model_id'', uuid_json (dl_cause r)), (''cause_kind'', JStr (dl_kind r)), (''attempts'', JInt (dl_attempts r)),
        (''enqueued_at'', iso tx (Some (dl_enqueued_at r))), (''dead_lettered_at'', iso tx (Some (dl_at r)))]
        @ quarantine_fields tx (dl_quarantined r) @
        [(''retried_at'', iso tx (map_option fst (dl_retried r))), (''retry_queue_id'', uuid_json (map_option (snd \<circ> snd) (dl_retried r))),
         (''error_preview'', error_preview (Some (dl_error r)))]))
      (take limit (newest_first dl_at (filter (\<lambda>r. dl_tenant r = tenant_id \<and>
          (include_quarantined \<or> dl_quarantined r = None \<and> dl_retried r = None)) (reeval_dead d))))"

definition list_think_trigger_dead_letters :: "texts \<Rightarrow> uuid \<Rightarrow> nat \<Rightarrow> bool \<Rightarrow> queue_db \<Rightarrow> (time \<times> dict) list" where
  "list_think_trigger_dead_letters tx tenant_id limit include_quarantined d =
    map (\<lambda>r. (time_of (q_completed_at r), [(''queue'', JStr ''think_trigger''), (''id'', JUuid (q_id r)),
        (''state'', state_json (q_quarantined r)), (''trigger_kind'', JStr (q_kind r)), (''trigger_subkind'', subkind_json (q_subkind r)),
        (''observation_id'', uuid_json (q_observation r)), (''model_id'', uuid_json (q_model r)), (''attempts'', JInt (q_attempts r)),
        (''enqueued_at'', iso tx (Some (q_enqueued_at r))), (''scheduled_for'', iso tx (q_scheduled_for r)),
        (''completed_at'', iso tx (q_completed_at r))]
        @ quarantine_fields tx (q_quarantined r) @ [(''error_preview'', error_preview (q_last_error r))]))
      (take limit (newest_first (time_of \<circ> q_completed_at) (newest_first q_enqueued_at
        (filter (\<lambda>r. q_tenant r = tenant_id \<and> q_completed_at r \<noteq> None \<and> q_last_error r \<noteq> None \<and>
          (include_quarantined \<or> q_quarantined r = None)) (trigger_queue d)))))"

definition list_dead_letters ::
  "texts \<Rightarrow> uuid \<Rightarrow> dead_queue list \<Rightarrow> nat \<Rightarrow> bool \<Rightarrow> queue_db \<Rightarrow> dict list" where
  "list_dead_letters tx tenant_id queues limit include_quarantined d =
    take limit (map snd (newest_first fst (
      (if PostCommitQueue \<in> set queues then list_post_commit_dead_letters tx tenant_id limit include_quarantined d else []) @
      (if ModelReevalQueue \<in> set queues then list_model_reeval_dead_letters tx tenant_id limit include_quarantined d else []) @
      (if ThinkTriggerQueue \<in> set queues then list_think_trigger_dead_letters tx tenant_id limit include_quarantined d else []))))"

section \<open>The routes\<close>

definition list_route ::
  "texts \<Rightarrow> auth_context option \<Rightarrow> string \<Rightarrow> int \<Rightarrow> bool \<Rightarrow> (queue_db, route_reply) tx" where
  "list_route tx auth queue limit include_quarantined d =
    (case auth of None \<Rightarrow> (Inr Unauthorized, d) | Some au \<Rightarrow>
     (case parse_queues queue of None \<Rightarrow> (Inr (BadRequest ''invalid_queue''), d) | Some queues \<Rightarrow>
        if \<not> is_admin au d then (Inr Forbidden, d)
        else
          let limit = normalize_limit limit;
              items = list_dead_letters tx (au_tenant au) queues (nat limit) include_quarantined d;
              names = text_items (map queue_text queues)
          in (Inr (Reply [(''items'', JList (map JObj items)), (''queues'', names), (''limit'', JInt limit),
                (''include_quarantined'', JBool include_quarantined)]),
              record_operator_action au ''dead_letter.list'' ''dead_letter_collection'' None
                [(''queues'', names), (''limit'', JInt limit), (''include_quarantined'', JBool include_quarantined),
                 (''item_count'', JInt (int (length items)))] d)))"

definition reply_of :: "outcome \<Rightarrow> route_reply" where
  "reply_of r = (case r of Missing \<Rightarrow> NotFound | Refused e \<Rightarrow> Conflict e | Done reply \<Rightarrow> Reply reply)"

definition retry_route ::
  "texts \<Rightarrow> auth_context option \<Rightarrow> string \<Rightarrow> uuid \<Rightarrow> body \<Rightarrow> (queue_db, route_reply) tx" where
  "retry_route tx auth queue item_id b d =
    (case auth of None \<Rightarrow> (Inr Unauthorized, d) | Some au \<Rightarrow>
     (case parse_queue queue of None \<Rightarrow> (Inr (BadRequest ''invalid_queue''), d) | Some q \<Rightarrow>
     (case optional_json_body b of None \<Rightarrow> (Inr (BadRequest ''invalid_json''), d) | Some form \<Rightarrow>
        if \<not> is_admin au d then (Inr Forbidden, d)
        else atomically (bind_tx (retry_dead_letter au q item_id (bounded_text tx (jget form ''reason'')))
               (\<lambda>r. return_tx (reply_of r))) d)))"

definition quarantine_route ::
  "texts \<Rightarrow> auth_context option \<Rightarrow> string \<Rightarrow> uuid \<Rightarrow> body \<Rightarrow> (queue_db, route_reply) tx" where
  "quarantine_route tx auth queue item_id b d =
    (case auth of None \<Rightarrow> (Inr Unauthorized, d) | Some au \<Rightarrow>
     (case parse_queue queue of None \<Rightarrow> (Inr (BadRequest ''invalid_queue''), d) | Some q \<Rightarrow>
     (case optional_json_body b of None \<Rightarrow> (Inr (BadRequest ''invalid_json''), d) | Some form \<Rightarrow>
     (case bounded_text tx (jget form ''reason'') of None \<Rightarrow> (Inr (BadRequest ''quarantine_reason_required''), d)
      | Some reason \<Rightarrow>
        if \<not> is_admin au d then (Inr Forbidden, d)
        else (case quarantine_dead_letter au q item_id reason d of (r, d) \<Rightarrow> (Inr (reply_of r), d))))))"

end
