(* ===== verification/RegionLocks.thy ===== *)
theory RegionLocks
  imports WorkerBatches "HOL-Library.Product_Lexorder" "HOL-Library.Word"
begin

text \<open>
  The diff a Think run applies (\<open>services/reasoning/think/diff_schema.py\<close>, the fields used here)
  and the locks that serialise applications, \<open>services/reasoning/think/region_locks.py\<close>: the
  primary entity of a trigger, the entities a diff or a retrieval touches, and the pair of
  integers for \<open>pg_advisory_xact_lock\<close>. SHA-256 and the JSON text are arguments; an entity is
  the pair of its type and identifier as texts.
\<close>

type_synonym entity_ref = "string \<times> string"

section \<open>Diffs\<close>

record claim_op =
  cl_op :: string
  cl_entry :: "dict option"
  cl_model :: "uuid option"

record lifecycle_op =
  lo_model :: uuid
  lo_evidence :: "uuid list"
  lo_superseded_by :: "uuid option"

record edge_op =
  eo_source :: uuid
  eo_target :: uuid

record relation_claim_op =
  rc_source :: "uuid option"
  rc_target :: "uuid option"
  rc_evidence :: "uuid list"

record relation_frame_op =
  rf_participants :: "uuid list"
  rf_evidence :: "uuid list"

record gap_op =
  go_source :: uuid
  go_target :: uuid
  go_evidence :: "uuid list"

record act_op =
  ao_op :: string
  ao_entity :: dict

record resource_op =
  ro_resource :: "uuid option"
  ro_commitment :: "uuid option"

record validated_diff =
  vd_trigger :: uuid
  vd_tenant :: uuid
  vd_claims :: "claim_op list"
  vd_lifecycle :: "lifecycle_op list"
  vd_relation_claims :: "relation_claim_op list"
  vd_relation_frames :: "relation_frame_op list"
  vd_edges :: "edge_op list"
  vd_gaps :: "gap_op list"
  vd_acts :: "act_op list"
  vd_resources :: "resource_op list"
  vd_predictions :: "claim_op list"
  vd_dropped :: int

section \<open>The primary entity\<close>

definition ENTITY_TYPE_PRECEDENCE :: "(string \<times> nat) list" where
  "ENTITY_TYPE_PRECEDENCE = [(''commitment'', 0), (''goal'', 1), (''decision'', 2), (''resource'', 3), (''customer'', 3),
     (''customer_resource'', 3), (''actor'', 4)]"

definition type_precedence :: "string \<Rightarrow> nat" where
  "type_precedence t = (case map_of ENTITY_TYPE_PRECEDENCE t of Some n \<Rightarrow> n | None \<Rightarrow> 99)"

text \<open>The entities that have a type and an identifier, as texts.\<close>

definition stated_entity :: "texts \<Rightarrow> json \<Rightarrow> entity_ref option" where
  "stated_entity tx v = (case json_fields v of None \<Rightarrow> None | Some e \<Rightarrow>
     if truthy (jget e ''type'') \<and> jget e ''id'' \<noteq> JNull
     then Some (tx_str tx (jget e ''type''), tx_str tx (jget e ''id'')) else None)"

definition compute_primary_entity :: "texts \<Rightarrow> json list option \<Rightarrow> entity_ref option" where
  "compute_primary_entity tx entities_mentioned = (case entities_mentioned of None \<Rightarrow> None | Some es \<Rightarrow>
     (case sort_key (\<lambda>e. (type_precedence (fst e), snd e)) (List.map_filter (stated_entity tx) es) of
        [] \<Rightarrow> None | e # _ \<Rightarrow> Some e))"

text \<open>\<open>None\<close> as last component is the fallback \<open>'no_entity'\<close>. A trigger context has no \<open>actor_id\<close>.\<close>

definition compute_region_key_t1 ::
  "texts \<Rightarrow> trigger_context \<Rightarrow> uuid \<times> uuid option \<times> entity_ref option" where
  "compute_region_key_t1 tx c = (tc_tenant c, (case tc_scope_actors c of [] \<Rightarrow> None | a # _ \<Rightarrow> Some a),
     compute_primary_entity tx (Some (map JObj (tc_seed_entities c))))"

section \<open>The key of a lock\<close>

text \<open>The first four bytes of the digest as a signed big-endian integer.\<close>

definition hash_int32 :: "(string \<Rightarrow> 8 word list) \<Rightarrow> string \<Rightarrow> int" where
  "hash_int32 sha256 s = sint (word_rcat (take 4 (sha256 s)) :: 32 word)"

definition region_lock_key ::
  "(string \<Rightarrow> 8 word list) \<Rightarrow> (entity_ref list \<Rightarrow> string) \<Rightarrow> texts \<Rightarrow> uuid \<Rightarrow> entity_ref list \<Rightarrow> int \<times> int" where
  "region_lock_key sha256 json_dumps tx tenant_id entity_ids =
    (hash_int32 sha256 (uuid_text tx tenant_id), hash_int32 sha256 (json_dumps (sort entity_ids)))"

section \<open>What a diff touches\<close>

definition model_ref :: "texts \<Rightarrow> uuid \<Rightarrow> entity_ref" where
  "model_ref tx u = (''model'', uuid_text tx u)"

definition model_refs :: "texts \<Rightarrow> uuid list \<Rightarrow> entity_ref list" where
  "model_refs tx us = map (model_ref tx) us"

text \<open>\<open>if et and eid: entities.add((str(et), str(eid)))\<close>.\<close>

definition scope_ref :: "texts \<Rightarrow> json \<Rightarrow> entity_ref option" where
  "scope_ref tx v = (case json_fields v of None \<Rightarrow> None | Some e \<Rightarrow>
     if truthy (jget e ''type'') \<and> truthy (jget e ''id'')
     then Some (tx_str tx (jget e ''type''), tx_str tx (jget e ''id'')) else None)"

definition claim_touches :: "texts \<Rightarrow> claim_op \<Rightarrow> entity_ref list" where
  "claim_touches tx op =
    (if cl_op op = ''insert''
     then let entry = (case cl_entry op of None \<Rightarrow> [] | Some e \<Rightarrow> e) in
       map (\<lambda>a. (''actor'', tx_str tx a)) (json_items (jget entry ''scope_actors'')) @
       List.map_filter (scope_ref tx) (json_items (jget entry ''scope_entities''))
     else model_refs tx (opt_list (cl_model op)))"

definition lifecycle_touches :: "texts \<Rightarrow> lifecycle_op \<Rightarrow> entity_ref list" where
  "lifecycle_touches tx op = model_refs tx (lo_model op # opt_list (lo_superseded_by op) @ lo_evidence op)"

definition edge_touches :: "texts \<Rightarrow> edge_op \<Rightarrow> entity_ref list" where
  "edge_touches tx op = model_refs tx [eo_source op, eo_target op]"

definition relation_claim_touches :: "texts \<Rightarrow> relation_claim_op \<Rightarrow> entity_ref list" where
  "relation_claim_touches tx op = model_refs tx (opt_list (rc_source op) @ opt_list (rc_target op) @ rc_evidence op)"

definition relation_frame_touches :: "texts \<Rightarrow> relation_frame_op \<Rightarrow> entity_ref list" where
  "relation_frame_touches tx op = model_refs tx (rf_participants op @ rf_evidence op)"

definition gap_touches :: "texts \<Rightarrow> gap_op \<Rightarrow> entity_ref list" where
  "gap_touches tx op = model_refs tx (go_source op # go_target op # go_evidence op)"

definition present :: "texts \<Rightarrow> string \<Rightarrow> json \<Rightarrow> entity_ref list" where
  "present tx kind v = (if v = JNull then [] else [(kind, tx_str tx v)])"

definition act_kind_of_op :: "string \<Rightarrow> string" where
  "act_kind_of_op op = (if occurs ''commitment'' op then ''commitment'' else if occurs ''goal'' op then ''goal''
     else if occurs ''decision'' op then ''decision'' else ''act'')"

definition act_touches :: "texts \<Rightarrow> act_op \<Rightarrow> entity_ref list" where
  "act_touches tx op =
    present tx ''commitment'' (jget (ao_entity op) ''commitment_id'') @
    present tx ''goal'' (jget (ao_entity op) ''goal_id'') @
    present tx ''decision'' (jget (ao_entity op) ''decision_id'') @
    present tx (act_kind_of_op (ao_op op)) (jget (ao_entity op) ''id'')"

definition resource_touches :: "texts \<Rightarrow> resource_op \<Rightarrow> entity_ref list" where
  "resource_touches tx op = map (\<lambda>u. (''resource'', uuid_text tx u)) (opt_list (ro_resource op)) @
     map (\<lambda>u. (''commitment'', uuid_text tx u)) (opt_list (ro_commitment op))"

definition touched_entity_ids_from_diff :: "texts \<Rightarrow> validated_diff \<Rightarrow> entity_ref list" where
  "touched_entity_ids_from_diff tx diff = sort (remdups (
     concat (map (claim_touches tx) (vd_claims diff)) @
     concat (map (lifecycle_touches tx) (vd_lifecycle diff)) @
     concat (map (edge_touches tx) (vd_edges diff)) @
     concat (map (relation_claim_touches tx) (vd_relation_claims diff)) @
     concat (map (relation_frame_touches tx) (vd_relation_frames diff)) @
     concat (map (gap_touches tx) (vd_gaps diff)) @
     concat (map (act_touches tx) (vd_acts diff)) @
     concat (map (resource_touches tx) (vd_resources diff))))"

section \<open>What a retrieval touches\<close>

definition MODEL_REF_SCALAR_KEYS :: "string list" where
  "MODEL_REF_SCALAR_KEYS = [''model_id'', ''source_model_id'', ''target_model_id'', ''matched_model_id'',
     ''reconcile_matched_model_id'', ''canonical_model_id'', ''merged_into_model_id'']"

definition MODEL_REF_LIST_KEYS :: "string list" where
  "MODEL_REF_LIST_KEYS = [''model_ids'', ''member_model_ids'', ''supporting_model_ids'', ''contributing_models'',
     ''evidence_model_ids'', ''counterevidence_model_ids'', ''source_model_ids'', ''target_model_ids'',
     ''candidate_model_ids'', ''seed_model_ids'', ''selected_model_ids'', ''dropped_model_ids'',
     ''graph_selected_model_ids'', ''applied_model_ids'', ''subject_model_ids'']"

definition SOURCE_REF_KEYS :: "string list" where
  "SOURCE_REF_KEYS = [''source_ref'', ''raw_content_ref'', ''source_ref_id'']"

definition ends_with :: "string \<Rightarrow> string \<Rightarrow> bool" where
  "ends_with suffix s \<longleftrightarrow> starts_with (rev suffix) (rev s)"

definition entity_ref_of :: "texts \<Rightarrow> json \<Rightarrow> json \<Rightarrow> entity_ref list" where
  "entity_ref_of tx entity_type entity_id =
    (if \<not> truthy entity_type \<or> \<not> truthy entity_id then []
     else let kind = tx_str tx entity_type; ident = tx_str tx entity_id in
       (kind, ident) # (if kind \<in> {''customer'', ''customer_resource''}
         then [(''customer'', ident), (''customer_resource'', ident), (''resource'', ident)] else []))"

definition entity_refs_of :: "texts \<Rightarrow> json \<Rightarrow> entity_ref list" where
  "entity_refs_of tx refs = concat (map (\<lambda>raw. case json_fields raw of None \<Rightarrow> []
     | Some e \<Rightarrow> entity_ref_of tx (jget e ''type'') (jget e ''id'')) (json_items refs))"

text \<open>A reference \<open>kind:ident\<close>, split at the first colon, or the plain identifier of a known type.\<close>

definition source_ref_of :: "texts \<Rightarrow> json \<Rightarrow> json \<Rightarrow> entity_ref list" where
  "source_ref_of tx source_type value =
    (if \<not> truthy value then []
     else let text = tx_str tx value in
       if CHR '':'' \<in> set text
       then let kind = takeWhile (\<lambda>c. c \<noteq> CHR '':'') text; ident = drop (Suc (length kind)) text in
         if kind = [] \<or> ident = [] then []
         else entity_ref_of tx (JStr kind) (JStr ident) @
           (if kind = ''resource'' then entity_ref_of tx (JStr ''customer_resource'') (JStr ident) else [])
       else if truthy source_type
         then entity_ref_of tx source_type (JStr text) @
           (if tx_str tx source_type = ''resource'' then entity_ref_of tx (JStr ''customer_resource'') (JStr text) else [])
         else [])"

definition model_ref_of :: "texts \<Rightarrow> json \<Rightarrow> entity_ref list" where
  "model_ref_of tx value =
    (if value = JNull then []
     else let text = py_strip (tx_str tx value);
              text = (if starts_with ''model:'' text then drop 6 text else text)
          in if tx_uuid tx text = None then [] else [(''model'', text)])"

definition model_refs_of :: "texts \<Rightarrow> json \<Rightarrow> entity_ref list" where
  "model_refs_of tx refs = (case json_list refs of None \<Rightarrow> model_ref_of tx refs
     | Some vs \<Rightarrow> concat (map (model_ref_of tx) vs))"

definition key_refs :: "texts \<Rightarrow> json \<Rightarrow> string \<Rightarrow> json \<Rightarrow> entity_ref list" where
  "key_refs tx source_type key raw =
    (if key \<in> set MODEL_REF_SCALAR_KEYS \<or> ends_with ''_model_id'' key then model_ref_of tx raw
     else if key \<in> set MODEL_REF_LIST_KEYS \<or> ends_with ''_model_ids'' key then model_refs_of tx raw
     else if key \<in> set SOURCE_REF_KEYS
       then (case json_list raw of Some items \<Rightarrow> concat (map (source_ref_of tx source_type) items)
             | None \<Rightarrow> source_ref_of tx source_type raw)
     else [])"

lemma json_field_smaller: "kv \<in> set e \<Longrightarrow> size (snd kv) < size (JObj e)"
  by (induction e) (auto split: prod.splits)

function structured_refs :: "texts \<Rightarrow> json \<Rightarrow> entity_ref list" where
  "structured_refs tx (JObj e) =
    concat (map (\<lambda>kv. key_refs tx (jget e ''source_type'') (fst kv) (snd kv) @ structured_refs tx (snd kv)) e)"
| "structured_refs tx (JList vs) = concat (map (structured_refs tx) vs)"
| "structured_refs tx JNull = []"
| "structured_refs tx (JBool b) = []"
| "structured_refs tx (JInt n) = []"
| "structured_refs tx (JFloat r) = []"
| "structured_refs tx (JStr s) = []"
| "structured_refs tx (JUuid u) = []"
  by pat_completeness auto

termination structured_refs
proof (relation "measure (\<lambda>(tx, v). size v)")
  show "wf (measure (\<lambda>(tx :: texts, v :: json). size v))" by simp
next
  fix tx :: texts and e :: dict and kv
  assume "kv \<in> set e"
  then show "((tx, snd kv), tx, JObj e) \<in> measure (\<lambda>(tx, v). size v)"
    using json_field_smaller [of kv e] by simp
next
  fix tx :: texts and vs :: "json list" and v
  assume "v \<in> set vs"
  then show "((tx, v), tx, JList vs) \<in> measure (\<lambda>(tx, v). size v)"
    using size_list_estimation' [of v vs "size v" size] by (simp add: less_Suc_eq_le)
qed

definition packet_refs :: "texts \<Rightarrow> dict \<Rightarrow> entity_ref list" where
  "packet_refs tx packet =
    entity_refs_of tx (jget packet ''resolved_entities'') @
    (case json_fields (jget packet ''source_metadata'') of None \<Rightarrow> [] | Some m \<Rightarrow>
       source_ref_of tx (JStr ''model'') (jget m ''model_id'') @
       source_ref_of tx (JStr ''observation'') (jget m ''observation_id'')) @
    (case json_fields (jget packet ''tiers'') of None \<Rightarrow> [] | Some tiers \<Rightarrow>
       concat (map (\<lambda>item. case json_fields item of None \<Rightarrow> [] | Some f \<Rightarrow>
           concat (map (\<lambda>key. source_ref_of tx (jget f ''source_type'') (jget f key)) SOURCE_REF_KEYS))
         (json_items (jget tiers ''decisive_evidence''))) @
       concat (map (\<lambda>group. case json_fields group of None \<Rightarrow> [] | Some f \<Rightarrow>
           concat (map (source_ref_of tx JNull) (json_items (jget f ''source_refs''))))
         (json_items (jget tiers ''supporting_evidence_groups''))) @
       concat (map (\<lambda>item. case json_fields item of None \<Rightarrow> [] | Some f \<Rightarrow> source_ref_of tx JNull (jget f ''source_ref''))
         (json_items (jget tiers ''omission_ledger''))))"

definition inquiry_packet_refs :: "texts \<Rightarrow> json \<Rightarrow> entity_ref list" where
  "inquiry_packet_refs tx notes = (case json_fields notes of None \<Rightarrow> [] | Some n \<Rightarrow>
     structured_refs tx notes @
     concat (map (packet_refs tx) (opt_list (json_fields (jget n ''inquiry_context_packet'')) @
       (case json_fields (jget n ''inquiry'') of None \<Rightarrow> [] | Some i \<Rightarrow> opt_list (json_fields (jget i ''context_packet''))))))"

record retrieved_model =
  rm_id :: uuid
  rm_lists :: "json list"
  rm_structured :: "json list"
  rm_scope :: "json list"

text \<open>
  \<open>rm_lists\<close>: supporting, contributing and member models; \<open>rm_structured\<close>: proposition,
  falsifier, signal readings, resolution criteria. A resource comes with its kind.
\<close>

record retrieval =
  rt_models :: "retrieved_model list"
  rt_observations :: "json list"
  rt_goals :: "uuid list"
  rt_commitments :: "uuid list"
  rt_decisions :: "uuid list"
  rt_resources :: "(uuid \<times> string) list"
  rt_trigger :: "trigger_context option"
  rt_notes :: json

definition model_touches :: "texts \<Rightarrow> retrieved_model \<Rightarrow> entity_ref list" where
  "model_touches tx m = model_ref tx (rm_id m) # concat (map (model_refs_of tx) (rm_lists m)) @
     concat (map (structured_refs tx) (rm_structured m)) @ entity_refs_of tx (JList (rm_scope m))"

definition resource_row_touches :: "texts \<Rightarrow> uuid \<times> string \<Rightarrow> entity_ref list" where
  "resource_row_touches tx r = entity_ref_of tx (JStr ''resource'') (JUuid (fst r)) @
     (if snd r = ''relational'' then entity_ref_of tx (JStr ''customer_resource'') (JUuid (fst r)) else [])"

definition trigger_touches :: "texts \<Rightarrow> trigger_context \<Rightarrow> entity_ref list" where
  "trigger_touches tx c = entity_refs_of tx (JList (map JObj (tc_seed_entities c))) @
     model_refs tx (opt_list (tc_model c)) @ map (\<lambda>u. (''observation'', uuid_text tx u)) (opt_list (tc_observation c))"

definition touched_entity_ids :: "texts \<Rightarrow> retrieval \<Rightarrow> entity_ref list" where
  "touched_entity_ids tx rt = sort (remdups (
     concat (map (model_touches tx) (rt_models rt)) @
     concat (map (entity_refs_of tx) (rt_observations rt)) @
     map (\<lambda>u. (''goal'', uuid_text tx u)) (rt_goals rt) @
     map (\<lambda>u. (''commitment'', uuid_text tx u)) (rt_commitments rt) @
     map (\<lambda>u. (''decision'', uuid_text tx u)) (rt_decisions rt) @
     concat (map (resource_row_touches tx) (rt_resources rt)) @
     concat (map (trigger_touches tx) (opt_list (rt_trigger rt))) @
     inquiry_packet_refs tx (rt_notes rt)))"

end
