(* ===== verification/PostCommit.thy ===== *)
theory PostCommit
  imports RegionLocks Retry
begin

text \<open>
  The durable queue of post-commit actions, \<open>services/reasoning/think/post_commit.py\<close>: the actions
  a validated diff gives rise to, their insertion inside the transaction that applies the diff,
  and the worker that drains the queue. A batch is one transaction: a handler that makes
  PostgreSQL fail leaves the transaction aborted, every later statement raises, and the batch is
  rolled back with the notifications it sent. The service behind \<open>discover_model_edges\<close>
  (\<open>services/reasoning/topology\<close>) is an argument.
\<close>

section \<open>Payloads\<close>

definition MAX_ATTEMPTS :: int where
  "MAX_ATTEMPTS = 5"

definition BATCH_SIZE :: nat where
  "BATCH_SIZE = 10"

definition ACTION_KINDS :: "string list" where
  "ACTION_KINDS = [''publish_anomalies'', ''schedule_predictions'', ''broadcast_realtime'', ''invalidate_metrics'',
     ''discover_model_edges'']"

definition summarize_op_count :: "validated_diff \<Rightarrow> dict" where
  "summarize_op_count diff =
    [(''claim_ops'', JInt (int (length (vd_claims diff)))),
     (''memory_lifecycle_ops'', JInt (int (length (vd_lifecycle diff)))),
     (''relation_claim_ops'', JInt (int (length (vd_relation_claims diff)))),
     (''relation_frame_ops'', JInt (int (length (vd_relation_frames diff)))),
     (''edge_ops'', JInt (int (length (vd_edges diff)))),
     (''ontology_gap_ops'', JInt (int (length (vd_gaps diff)))),
     (''act_ops'', JInt (int (length (vd_acts diff)))),
     (''resource_ops'', JInt (int (length (vd_resources diff))))]"

text \<open>\<open>_add(e.get("type"), e.get("id"))\<close>: only a missing identifier is left out.\<close>

definition add_ref :: "texts \<Rightarrow> json \<Rightarrow> entity_ref option" where
  "add_ref tx v = (case json_fields v of None \<Rightarrow> None | Some e \<Rightarrow>
     if jget e ''id'' = JNull then None else Some (tx_str tx (jget e ''type''), tx_str tx (jget e ''id'')))"

definition claim_affects :: "texts \<Rightarrow> claim_op \<Rightarrow> entity_ref list" where
  "claim_affects tx op = model_refs tx (opt_list (cl_model op)) @
    (if cl_op op = ''insert'' then (case cl_entry op of None \<Rightarrow> [] | Some entry \<Rightarrow>
       List.map_filter (add_ref tx) (json_items (jget entry ''scope_entities''))) else [])"

definition act_affects :: "texts \<Rightarrow> act_op \<Rightarrow> entity_ref list" where
  "act_affects tx op =
    (let v = jget (ao_entity op) ''id''; k = ao_op op in
     if starts_with ''create_commitment'' k \<or> k = ''transition_commitment'' then present tx ''commitment'' v
     else if starts_with ''create_goal'' k \<or> k \<in> {''update_goal'', ''transition_goal''} then present tx ''goal'' v
     else if starts_with ''create_decision'' k \<or> k = ''transition_decision'' then present tx ''decision'' v
     else [])"

definition affected_entities :: "texts \<Rightarrow> validated_diff \<Rightarrow> entity_ref list" where
  "affected_entities tx diff = sort (remdups (
     concat (map (claim_affects tx) (vd_claims diff)) @
     concat (map (lifecycle_touches tx) (vd_lifecycle diff)) @
     concat (map (edge_touches tx) (vd_edges diff)) @
     concat (map (relation_claim_touches tx) (vd_relation_claims diff)) @
     concat (map (relation_frame_touches tx) (vd_relation_frames diff)) @
     concat (map (gap_touches tx) (vd_gaps diff)) @
     concat (map (act_affects tx) (vd_acts diff)) @
     concat (map (\<lambda>op. map (\<lambda>u. (''resource'', uuid_text tx u)) (opt_list (ro_resource op))) (vd_resources diff))))"

definition entity_items :: "entity_ref list \<Rightarrow> json" where
  "entity_items es = JList (map (\<lambda>(t, i). JObj [(''type'', JStr t), (''id'', JStr i)]) es)"

definition summarize_diff :: "texts \<Rightarrow> validated_diff \<Rightarrow> dict" where
  "summarize_diff tx diff = [(''tenant_id'', JUuid (vd_tenant diff)), (''trigger_ref'', JUuid (vd_trigger diff)),
     (''op_counts'', JObj (summarize_op_count diff)), (''affected_entities'', entity_items (affected_entities tx diff)),
     (''dropped_op_count'', JInt (vd_dropped diff))]"

definition predictions_payload :: "validated_diff \<Rightarrow> dict" where
  "predictions_payload diff = [(''predictions'', JList (List.map_filter (\<lambda>op.
     if cl_op op \<noteq> ''insert'' then None else map_option (\<lambda>entry. JObj [(''tenant_id'', JUuid (vd_tenant diff)),
       (''trigger_ref'', JUuid (vd_trigger diff)), (''entry'', JObj entry), (''evaluate_at'', jget entry ''evaluate_at'')])
       (cl_entry op)) (vd_predictions diff)))]"

definition edge_discovery_payload :: "uuid list \<Rightarrow> dict" where
  "edge_discovery_payload applied_model_ids = [(''model_ids'', uuid_items (dedup applied_model_ids))]"

definition payload_has_content :: "string \<Rightarrow> dict \<Rightarrow> bool" where
  "payload_has_content kind p =
    (if kind = ''publish_anomalies'' then truthy (jget p ''anomalies'')
     else if kind = ''schedule_predictions'' then truthy (jget p ''predictions'')
     else if kind = ''broadcast_realtime'' then True
     else if kind = ''invalidate_metrics'' then truthy (jget p ''affected_entities'')
     else if kind = ''discover_model_edges'' then truthy (jget p ''model_ids'')
     else False)"

definition actions_of :: "texts \<Rightarrow> validated_diff \<Rightarrow> json list \<Rightarrow> uuid list \<Rightarrow> (string \<times> dict) list" where
  "actions_of tx diff anomalies applied_model_ids =
    [(''publish_anomalies'', [(''anomalies'', JList anomalies)]),
     (''schedule_predictions'', predictions_payload diff),
     (''broadcast_realtime'', [(''diff_summary'', JObj (summarize_diff tx diff))]),
     (''invalidate_metrics'', [(''affected_entities'', entity_items (affected_entities tx diff))]),
     (''discover_model_edges'', edge_discovery_payload applied_model_ids)]"

section \<open>Enqueueing\<close>

definition action_key :: "action_row \<Rightarrow> uuid \<times> uuid \<times> string" where
  "action_key r = (pc_tenant r, pc_trigger r, pc_kind r)"

text \<open>
  The unique constraint also names \<open>processed_at\<close>; the SELECT before the INSERT has already
  excluded every row of the key.
\<close>

definition enqueue_action :: "uuid \<Rightarrow> uuid \<Rightarrow> string \<times> dict \<Rightarrow> uuid list \<times> queue_db \<Rightarrow> uuid list \<times> queue_db" where
  "enqueue_action tenant_id trigger_id a s =
    (case (a, s) of ((kind, p), (inserted, d)) \<Rightarrow>
      if \<not> payload_has_content kind p then (inserted, d)
      else if list_ex (\<lambda>r. action_key r = (tenant_id, trigger_id, kind)) (pending_actions d) then (inserted, d)
      else let (new_id, d) = take_uuid d in
        (inserted @ [new_id], d\<lparr>pending_actions := pending_actions d @ [\<lparr>pc_id = new_id, pc_tenant = tenant_id,
           pc_trigger = trigger_id, pc_kind = kind, pc_payload = p, pc_attempts = 0, pc_scheduled_at = db_now d,
           pc_created_at = db_now d, pc_processed_at = None, pc_dead_at = None, pc_last_error = None,
           pc_quarantined = None\<rparr>]\<rparr>))"

definition enqueue_post_commit_actions ::
  "texts \<Rightarrow> validated_diff \<Rightarrow> json list \<Rightarrow> uuid list \<Rightarrow> queue_db \<Rightarrow> uuid list \<times> queue_db" where
  "enqueue_post_commit_actions tx diff anomalies applied_model_ids d =
    fold (enqueue_action (vd_tenant diff) (vd_trigger diff)) (actions_of tx diff anomalies applied_model_ids) ([], d)"

section \<open>The worker\<close>

definition compute_backoff :: "int \<Rightarrow> int" where
  "compute_backoff next_attempts = (case queue_retry_backoff_seconds next_attempts of Inr s \<Rightarrow> trunc_real s | Inl e \<Rightarrow> 0)"

definition fetchable :: "time \<Rightarrow> uuid option \<Rightarrow> action_row \<Rightarrow> bool" where
  "fetchable now tenant_id r \<longleftrightarrow> (case tenant_id of None \<Rightarrow> True | Some t \<Rightarrow> pc_tenant r = t) \<and>
     pc_processed_at r = None \<and> pc_dead_at r = None \<and> pc_scheduled_at r \<le> now"

definition fetch_pending_actions :: "nat \<Rightarrow> uuid option \<Rightarrow> (uuid \<Rightarrow> bool) \<Rightarrow> queue_db \<Rightarrow> action_row list" where
  "fetch_pending_actions limit tenant_id busy d =
    take limit (sort_key pc_scheduled_at (filter (\<lambda>r. fetchable (db_now d) tenant_id r \<and> \<not> busy (pc_id r)) (pending_actions d)))"

definition upd_action :: "uuid \<Rightarrow> (action_row \<Rightarrow> action_row) \<Rightarrow> queue_db \<Rightarrow> queue_db" where
  "upd_action i f d = d\<lparr>pending_actions := row_update pc_id i f (pending_actions d)\<rparr>"

definition mark_action_processed :: "uuid \<Rightarrow> queue_db \<Rightarrow> queue_db" where
  "mark_action_processed i d = upd_action i (\<lambda>r. r\<lparr>pc_processed_at := Some (db_now d), pc_last_error := None\<rparr>) d"

definition increment_attempts :: "uuid \<Rightarrow> string \<Rightarrow> queue_db \<Rightarrow> int \<times> queue_db" where
  "increment_attempts i error d =
    (case row_at pc_id i (pending_actions d) of
       None \<Rightarrow> (0, d)
     | Some row \<Rightarrow>
        let n = pc_attempts row + 1 in
        (n, upd_action i (\<lambda>r. r\<lparr>pc_attempts := n, pc_scheduled_at := db_now d + compute_backoff n * 1000000,
              pc_last_error := Some (take 2000 error)\<rparr>) d))"

definition move_to_dead_letter :: "uuid \<Rightarrow> string \<Rightarrow> queue_db \<Rightarrow> queue_db" where
  "move_to_dead_letter i error d =
    upd_action i (\<lambda>r. r\<lparr>pc_dead_at := Some (db_now d), pc_last_error := Some (take 2000 error)\<rparr>) d"

text \<open>
  How a handler ends: it returns, having sent the notifications named by their reason; it raises
  in Python; or PostgreSQL fails on the connection of the batch.
\<close>

datatype handler_end = Handled "string list" | HandlerRaised string | DatabaseFailed string

definition missing_schedule :: "dict \<Rightarrow> nat list" where
  "missing_schedule p = map fst (filter (\<lambda>(k, v). case json_fields v of None \<Rightarrow> True | Some f \<Rightarrow> \<not> truthy (jget f ''evaluate_at''))
     (enumerate 0 (json_items (jget p ''predictions''))))"

definition missing_schedule_text :: "nat list \<Rightarrow> string" where
  "missing_schedule_text indexes = ''RuntimeError: schedule_predictions payload missing evaluate_at for prediction indexes ['' @
     py_join '', '' (map nat_text indexes) @ '']''"

definition model_ids_from_payload :: "dict \<Rightarrow> uuid list" where
  "model_ids_from_payload p = coerce_uuid_list (json_items (jget p ''model_ids''))"

text \<open>
  Handlers run on the connection of the batch: what they write, also before they raise, is part of
  its transaction. \<open>discover\<close> is the edge discovery, the one default handler that writes.
\<close>

type_synonym handler = "action_row \<Rightarrow> queue_db \<Rightarrow> handler_end \<times> queue_db"

definition default_handler ::
  "(action_row \<Rightarrow> uuid list \<Rightarrow> queue_db \<Rightarrow> handler_end \<times> queue_db) \<Rightarrow> handler" where
  "default_handler discover a d =
    (if pc_kind a = ''publish_anomalies'' then (Handled [''anomaly_flagged''], d)
     else if pc_kind a = ''schedule_predictions''
       then (case missing_schedule (pc_payload a) of [] \<Rightarrow> (Handled [''prediction_scheduled''], d)
             | indexes \<Rightarrow> (HandlerRaised (missing_schedule_text indexes), d))
     else if pc_kind a = ''broadcast_realtime'' then (Handled [''substrate_changed''], d)
     else if pc_kind a = ''invalidate_metrics'' then (Handled [''metrics_invalidated''], d)
     else if pc_kind a = ''discover_model_edges''
       then (case model_ids_from_payload (pc_payload a) of [] \<Rightarrow> (Handled [], d) | ids \<Rightarrow> discover a ids d)
     else (HandlerRaised (''RuntimeError: no handler registered for action_kind='' @ [CHR 0x27] @ pc_kind a @ [CHR 0x27]), d))"

record worker_stats =
  st_processed :: int
  st_failed :: int
  st_dead :: int
  st_iterations :: int

record batch_state =
  bs_db :: queue_db
  bs_sent :: "(uuid \<times> uuid \<times> string) list"
  bs_stats :: worker_stats

text \<open>
  The bookkeeping after a handler raised. \<open>aborted\<close>: the transaction is, so its first statement
  raises \<open>InFailedSQLTransactionError\<close>, which leaves \<open>process_batch\<close>.
\<close>

definition exceeded_prefix :: string where
  "exceeded_prefix = ''exceeded max attempts (5): ''"

definition in_failed_tx :: err where
  "in_failed_tx = OtherError ''InFailedSQLTransactionError''"

definition count_failure :: "bool \<Rightarrow> uuid \<Rightarrow> string \<Rightarrow> (batch_state, unit) tx" where
  "count_failure aborted i error s =
    (if aborted then (Inl in_failed_tx, s)
     else case increment_attempts i error (bs_db s) of (n, d) \<Rightarrow>
       if MAX_ATTEMPTS \<le> n
       then (Inr (), s\<lparr>bs_db := move_to_dead_letter i (exceeded_prefix @ error) d,
              bs_stats := (bs_stats s)\<lparr>st_dead := st_dead (bs_stats s) + 1\<rparr>\<rparr>)
       else (Inr (), s\<lparr>bs_db := d, bs_stats := (bs_stats s)\<lparr>st_failed := st_failed (bs_stats s) + 1\<rparr>\<rparr>))"

definition process_action :: "handler \<Rightarrow> action_row \<Rightarrow> (batch_state, unit) tx" where
  "process_action handler a s =
    (case handler a (bs_db s) of (outcome, d) \<Rightarrow>
     let s = s\<lparr>bs_db := d\<rparr> in
     case outcome of
       Handled rs \<Rightarrow> (Inr (), s\<lparr>bs_db := mark_action_processed (pc_id a) (bs_db s),
         bs_sent := bs_sent s @ map (\<lambda>r. (pc_tenant a, pc_trigger a, r)) rs,
         bs_stats := (bs_stats s)\<lparr>st_processed := st_processed (bs_stats s) + 1\<rparr>\<rparr>)
     | HandlerRaised e \<Rightarrow> count_failure False (pc_id a) e s
     | DatabaseFailed e \<Rightarrow> count_failure True (pc_id a) e s)"

text \<open>
  One batch: the exception that leaves it, if any, the statistics (an object of the caller, so
  not rolled back), the notifications delivered at commit and the database.
\<close>

definition process_batch ::
  "handler \<Rightarrow> nat \<Rightarrow> uuid option \<Rightarrow> (uuid \<Rightarrow> bool) \<Rightarrow> worker_stats \<Rightarrow> queue_db \<Rightarrow>
   unit result \<times> worker_stats \<times> (uuid \<times> uuid \<times> string) list \<times> queue_db" where
  "process_batch handler limit tenant_id busy stats d =
    (let stats = stats\<lparr>st_iterations := st_iterations stats + 1\<rparr> in
     case for_tx (fetch_pending_actions limit tenant_id busy d) (process_action handler)
            \<lparr>bs_db = d, bs_sent = [], bs_stats = stats\<rparr> of
       (Inr u, s) \<Rightarrow> (Inr u, bs_stats s, bs_sent s, bs_db s)
     | (Inl e, s) \<Rightarrow> (Inl e, bs_stats s, [], d))"

end
