(* ===== verification/RegionProperties.thy ===== *)
theory RegionProperties
  imports PostCommit "HOL-Library.Multiset"
begin

text \<open>
  What the region locks of \<open>services/reasoning/think/region_locks.py\<close> guarantee, and how the
  post-commit actions of a diff relate to the region it locks.
\<close>

section \<open>Keys\<close>

lemma sort_mset_eq: "sort xs = sort ys \<longleftrightarrow> mset xs = mset (ys :: 'a :: linorder list)"
  using properties_for_sort [of "sort ys" xs] by (metis mset_sort sorted_sort)

lemma hash_int32_range: "- (2 ^ 31) \<le> hash_int32 sha256 s \<and> hash_int32 sha256 s < 2 ^ 31"
  unfolding hash_int32_def
  using sint_ge [of "word_rcat (take 4 (sha256 s)) :: 32 word"] sint_lt [of "word_rcat (take 4 (sha256 s)) :: 32 word"]
  by simp

text \<open>
  The lock of a region: both numbers fit the INT4 arguments of \<open>pg_advisory_xact_lock\<close>, and
  two applications take the same lock exactly when they have the same tenant and the same
  entities, in whatever order these are listed, as long as the truncated hash does not collide
  on the texts at hand. In particular two regions that merely overlap do not exclude each other.
\<close>

theorem region_lock_exact:
  assumes "inj_on (hash_int32 sha256 \<circ> json_dumps) {sort es, sort es'}"
    and "inj_on (hash_int32 sha256 \<circ> uuid_text tx) {tenant_id, tenant_id'}"
  shows "(region_lock_key sha256 json_dumps tx tenant_id es = region_lock_key sha256 json_dumps tx tenant_id' es'
      \<longleftrightarrow> tenant_id = tenant_id' \<and> mset es = mset es') \<and>
    (case region_lock_key sha256 json_dumps tx tenant_id es of (th, eh) \<Rightarrow>
      - (2 ^ 31) \<le> th \<and> th < 2 ^ 31 \<and> - (2 ^ 31) \<le> eh \<and> eh < 2 ^ 31)"
proof
  have "hash_int32 sha256 (json_dumps (sort es)) = hash_int32 sha256 (json_dumps (sort es')) \<longleftrightarrow> sort es = sort es'"
    using inj_onD [OF assms(1), of "sort es" "sort es'"] by auto
  moreover have "hash_int32 sha256 (uuid_text tx tenant_id) = hash_int32 sha256 (uuid_text tx tenant_id')
      \<longleftrightarrow> tenant_id = tenant_id'"
    using inj_onD [OF assms(2), of tenant_id tenant_id'] by auto
  ultimately show "region_lock_key sha256 json_dumps tx tenant_id es = region_lock_key sha256 json_dumps tx tenant_id' es'
      \<longleftrightarrow> tenant_id = tenant_id' \<and> mset es = mset es'"
    by (simp add: region_lock_key_def sort_mset_eq)
qed (simp add: region_lock_key_def hash_int32_range [simplified])

definition plain_texts :: texts where
  "plain_texts = \<lparr>tx_str = (\<lambda>v. case v of JStr s \<Rightarrow> s | JUuid u \<Rightarrow> replicate u CHR ''u'' | _ \<Rightarrow> ''?''),
     tx_uuid = (\<lambda>s. if set s \<subseteq> {CHR ''u''} then Some (length s) else None), tx_iso = (\<lambda>t. ''t''),
     tx_content = (\<lambda>u. ''''), tx_natural = (\<lambda>u. ''''), tx_explanation = (\<lambda>u. '''')\<rparr>"

text \<open>A hash for the witnesses: the length of the text.\<close>

definition length_hash :: "string \<Rightarrow> 8 word list" where
  "length_hash s = [0, 0, 0, word_of_nat (length s)]"

lemma length_hash_int32: "length s < 256 \<Longrightarrow> hash_int32 length_hash s = int (length s)"
proof -
  assume n: "length s < 256"
  have "hash_int32 length_hash s = sint (word_of_int (int (length s)) :: 32 word)"
    using n by (simp add: hash_int32_def length_hash_def word_rcat_def unsigned_of_nat take_bit_nat_eq_self)
  also have "\<dots> = int (length s)"
    using n by (subst signed_of_int) (simp add: signed_take_bit_int_eq_self)
  finally show ?thesis .
qed

theorem region_lock_exact_witness:
  "region_lock_key length_hash (concat \<circ> map fst) plain_texts 3 [(''goal'', ''x''), (''actor'', ''y'')] =
     region_lock_key length_hash (concat \<circ> map fst) plain_texts 3 [(''actor'', ''y''), (''goal'', ''x'')] \<and>
   region_lock_key length_hash (concat \<circ> map fst) plain_texts 3 [(''goal'', ''x''), (''actor'', ''y'')] \<noteq>
     region_lock_key length_hash (concat \<circ> map fst) plain_texts 3 [(''goal'', ''x'')]"
proof -
  have s: "sort [(''goal'', ''x''), (''actor'', ''y'')] = [(''actor'', ''y''), (''goal'', ''x'')]"
    "sort [(''actor'', ''y''), (''goal'', ''x'')] = [(''actor'', ''y''), (''goal'', ''x'')]"
    "sort [(''goal'', ''x'')] = [(''goal'', ''x'')]"
    by code_simp+
  show ?thesis
    using region_lock_exact [of length_hash "concat \<circ> map fst" "[(''goal'', ''x''), (''actor'', ''y'')]"
        "[(''actor'', ''y''), (''goal'', ''x'')]" plain_texts 3 3]
      region_lock_exact [of length_hash "concat \<circ> map fst" "[(''goal'', ''x''), (''actor'', ''y'')]"
        "[(''goal'', ''x'')]" plain_texts 3 3]
    unfolding s by (simp add: length_hash_int32 inj_on_def)
qed

section \<open>The primary entity\<close>

definition stated :: "texts \<Rightarrow> json list \<Rightarrow> entity_ref list" where
  "stated tx es = List.map_filter (stated_entity tx) es"

definition rank :: "entity_ref \<Rightarrow> nat \<times> string" where
  "rank e = (type_precedence (fst e), snd e)"

lemma primary_eq:
  "compute_primary_entity tx (Some es) = (case sort_key rank (stated tx es) of [] \<Rightarrow> None | e # _ \<Rightarrow> Some e)"
  by (simp add: compute_primary_entity_def stated_def rank_def [abs_def])

lemma mset_map_filter: "mset (List.map_filter f xs) = image_mset (the \<circ> f) (filter_mset (\<lambda>x. f x \<noteq> None) (mset xs))"
  by (induction xs) (simp_all add: map_filter_simps split: option.splits)

text \<open>
  a trigger's primary entity is one of its stated entities with the least precedence and,
  among those, the least identifier; and two lists of the same entities in different orders
  give the same primary entity, if no two stated entities of equal precedence share an
  identifier under different types.
\<close>

theorem primary_entity_exact:
  assumes "inj_on rank (set (stated tx es))" and "mset es' = mset es"
  shows "compute_primary_entity tx (Some es') = compute_primary_entity tx (Some es) \<and>
    (case compute_primary_entity tx (Some es) of
       None \<Rightarrow> stated tx es = []
     | Some e \<Rightarrow> e \<in> set (stated tx es) \<and> (\<forall>e' \<in> set (stated tx es). rank e \<le> rank e'))"
proof
  have "mset (stated tx es') = mset (stated tx es)"
    by (simp add: stated_def mset_map_filter assms(2))
  moreover have "sort_key rank (stated tx es) = sort_key rank (stated tx es')"
  proof (rule sort_key_inj_key_eq)
    show "mset (stated tx es) = mset (sort_key rank (stated tx es'))" using calculation by simp
    show "inj_on rank (set (stated tx es))" by (rule assms(1))
    show "sorted (map rank (sort_key rank (stated tx es')))" by simp
  qed
  ultimately show "compute_primary_entity tx (Some es') = compute_primary_entity tx (Some es)"
    by (simp add: primary_eq)
  show "case compute_primary_entity tx (Some es) of
       None \<Rightarrow> stated tx es = []
     | Some e \<Rightarrow> e \<in> set (stated tx es) \<and> (\<forall>e' \<in> set (stated tx es). rank e \<le> rank e')"
  proof (cases "sort_key rank (stated tx es)")
    case Nil
    then have "set (stated tx es) = {}" by (metis set_sort set_empty)
    with Nil show ?thesis by (simp add: primary_eq)
  next
    case (Cons e rest)
    then have "set (stated tx es) = insert e (set rest)" by (metis set_sort list.simps(15))
    moreover have "sorted (map rank (e # rest))" using Cons sorted_sort_key [of rank "stated tx es"] by simp
    ultimately show ?thesis using Cons by (auto simp: primary_eq)
  qed
qed

definition sample_entity :: "string \<Rightarrow> string \<Rightarrow> json" where
  "sample_entity t i = JObj [(''type'', JStr t), (''id'', JStr i)]"

lemmas sample_simps = sample_entity_def stated_def stated_entity_def jget_def dict_get_or_def dict_get_def
  plain_texts_def rank_def type_precedence_def ENTITY_TYPE_PRECEDENCE_def map_filter_simps

theorem primary_entity_exact_witness:
  "compute_primary_entity plain_texts (Some [sample_entity ''goal'' ''b'', sample_entity ''commitment'' ''a'']) =
   compute_primary_entity plain_texts (Some [sample_entity ''commitment'' ''a'', sample_entity ''goal'' ''b''])"
  using primary_entity_exact [of plain_texts "[sample_entity ''commitment'' ''a'', sample_entity ''goal'' ''b'']"
      "[sample_entity ''goal'' ''b'', sample_entity ''commitment'' ''a'']"]
  by (simp add: sample_simps add_mset_commute)

text \<open>
  Without the condition the order does matter, against the docstring of \<open>compute_region_key_t1\<close>: the
  types \<open>resource\<close>, \<open>customer\<close> and \<open>customer_resource\<close>, labels of the same row in this code base,
  have the same precedence.
\<close>

theorem primary_entity_order_matters:
  "compute_primary_entity plain_texts (Some [sample_entity ''customer'' ''c'', sample_entity ''resource'' ''c'']) \<noteq>
   compute_primary_entity plain_texts (Some [sample_entity ''resource'' ''c'', sample_entity ''customer'' ''c''])"
  by code_simp

section \<open>The lock covers what the application announces\<close>










definition sample_diff :: validated_diff where
  "sample_diff = \<lparr>vd_trigger = 1, vd_tenant = 2,
     vd_claims = [\<lparr>cl_op = ''insert'', cl_entry = Some [(''scope_entities'', JList [sample_entity ''customer'' ''c''])],
       cl_model = None\<rparr>],
     vd_lifecycle = [], vd_relation_claims = [], vd_relation_frames = [],
     vd_edges = [\<lparr>eo_source = 3, eo_target = 4\<rparr>], vd_gaps = [],
     vd_acts = [\<lparr>ao_op = ''transition_goal'', ao_entity = [(''id'', JUuid 5)]\<rparr>], vd_resources = [],
     vd_predictions = [], vd_dropped = 0\<rparr>"


text \<open>A scope entity without a type is announced, as an entity of type \<open>None\<close>, but not locked.\<close>

lemma untyped_entity_not_locked:
  "\<exists>diff. affected_entities plain_texts diff \<noteq> [] \<and> touched_entity_ids_from_diff plain_texts diff = []"
proof -
  let ?diff = "sample_diff\<lparr>vd_claims := [\<lparr>cl_op = ''insert'',
      cl_entry = Some [(''scope_entities'', JList [JObj [(''id'', JStr ''c'')]])], cl_model = None\<rparr>],
    vd_edges := [], vd_acts := []\<rparr>"
  have "affected_entities plain_texts ?diff \<noteq> []" "touched_entity_ids_from_diff plain_texts ?diff = []"
    by code_simp+
  then show ?thesis by blast
qed

end
