(* ===== verification/QueueProperties.thy ===== *)
theory QueueProperties
  imports DeadLetters RegionProperties
begin

text \<open>
  What the post-commit queue of \<open>services/reasoning/think/post_commit.py\<close> and the operators' routes
  of \<open>services/app/gateway/dead_letter_router.py\<close> guarantee.
\<close>

section \<open>Every action is recorded once\<close>

definition recorded :: "queue_db \<Rightarrow> uuid \<Rightarrow> uuid \<Rightarrow> string \<Rightarrow> bool" where
  "recorded d tenant_id trigger_id kind \<longleftrightarrow> (tenant_id, trigger_id, kind) \<in> action_key ` set (pending_actions d)"

definition fresh_action :: "time \<Rightarrow> action_row \<Rightarrow> bool" where
  "fresh_action now r \<longleftrightarrow> pc_attempts r = 0 \<and> pc_scheduled_at r = now \<and> pc_processed_at r = None \<and> pc_dead_at r = None"

definition wanted_kinds :: "(string \<times> dict) list \<Rightarrow> string list" where
  "wanted_kinds as = map fst (filter (\<lambda>(k, p). payload_has_content k p) as)"

lemma enqueue_action_cases:
  assumes "enqueue_action tn tr (k, p) (ids, d) = (ids', d')"
  shows "(payload_has_content k p \<and> \<not> recorded d tn tr k \<and>
      (\<exists>row. pending_actions d' = pending_actions d @ [row] \<and> ids' = ids @ [pc_id row] \<and>
        action_key row = (tn, tr, k) \<and> fresh_action (db_now d) row) \<and> db_now d' = db_now d) \<or>
    ((\<not> payload_has_content k p \<or> recorded d tn tr k) \<and> ids' = ids \<and> d' = d)"
  using assms
  by (auto simp: enqueue_action_def recorded_def take_uuid_def Let_def list_ex_iff image_iff action_key_def
      fresh_action_def split: if_splits)

lemma enqueue_actions:
  assumes "fold (enqueue_action tn tr) as (ids, d) = (ids', d')" and "distinct (map fst as)"
  shows "\<exists>new. pending_actions d' = pending_actions d @ new \<and> ids' = ids @ map pc_id new \<and>
    map action_key new = map (\<lambda>k. (tn, tr, k)) (filter (\<lambda>k. \<not> recorded d tn tr k) (wanted_kinds as)) \<and>
    (\<forall>r \<in> set new. fresh_action (db_now d) r)"
  using assms
proof (induction as arbitrary: ids d)
  case Nil
  then show ?case by (simp add: wanted_kinds_def)
next
  case (Cons a as)
  obtain k p where a: "a = (k, p)" by (cases a)
  obtain ids1 d1 where one: "enqueue_action tn tr (k, p) (ids, d) = (ids1, d1)" by (cases "enqueue_action tn tr (k, p) (ids, d)")
  with Cons.prems(1) a have rest: "fold (enqueue_action tn tr) as (ids1, d1) = (ids', d')" by simp
  from Cons.prems(2) have dist: "distinct (map fst as)" and k: "k \<notin> set (map fst as)" by (simp_all add: a)
  obtain new where new: "pending_actions d' = pending_actions d1 @ new" "ids' = ids1 @ map pc_id new"
      "map action_key new = map (\<lambda>k. (tn, tr, k)) (filter (\<lambda>k. \<not> recorded d1 tn tr k) (wanted_kinds as))"
      "\<forall>r \<in> set new. fresh_action (db_now d1) r"
    using Cons.IH [OF rest dist] by blast
  from enqueue_action_cases [OF one] show ?case
  proof
    assume "payload_has_content k p \<and> \<not> recorded d tn tr k \<and>
      (\<exists>row. pending_actions d1 = pending_actions d @ [row] \<and> ids1 = ids @ [pc_id row] \<and>
        action_key row = (tn, tr, k) \<and> fresh_action (db_now d) row) \<and> db_now d1 = db_now d"
    then obtain row where row: "payload_has_content k p" "\<not> recorded d tn tr k"
        "pending_actions d1 = pending_actions d @ [row]" "ids1 = ids @ [pc_id row]"
        "action_key row = (tn, tr, k)" "fresh_action (db_now d) row" "db_now d1 = db_now d"
      by blast
    have "j \<noteq> k" if "j \<in> set (wanted_kinds as)" for j
      using that k by (auto simp: wanted_kinds_def)
    then have "filter (\<lambda>k. \<not> recorded d1 tn tr k) (wanted_kinds as) = filter (\<lambda>k. \<not> recorded d tn tr k) (wanted_kinds as)"
      using row(3,5) by (intro filter_cong) (auto simp: recorded_def)
    with new row a show ?thesis
      by (intro exI [of _ "row # new"]) (simp add: wanted_kinds_def)
  next
    assume "(\<not> payload_has_content k p \<or> recorded d tn tr k) \<and> ids1 = ids \<and> d1 = d"
    with new a show ?thesis
      by (intro exI [of _ new]) (auto simp: wanted_kinds_def)
  qed
qed

lemma actions_of_kinds: "map fst (actions_of tx diff an ms) = ACTION_KINDS"
  by (simp add: actions_of_def ACTION_KINDS_def)

lemma actions_of_distinct: "distinct (map fst (actions_of tx diff an ms))"
  by (simp add: actions_of_kinds ACTION_KINDS_def)

text \<open>
  Enqueueing the post-commit actions of a diff appends one fresh row for every action kind
  that has content and was never recorded for this tenant and trigger, in the order of the
  kinds, and returns their identifiers; doing it again, as a retried application does, finds
  every one recorded and changes nothing.
\<close>

theorem post_commit_recorded_once:
  "case enqueue_post_commit_actions tx diff anomalies applied d of (ids, d') \<Rightarrow>
     (\<exists>new. pending_actions d' = pending_actions d @ new \<and> ids = map pc_id new \<and>
        map action_key new = map (\<lambda>k. (vd_tenant diff, vd_trigger diff, k))
          (filter (\<lambda>k. \<not> recorded d (vd_tenant diff) (vd_trigger diff) k) (wanted_kinds (actions_of tx diff anomalies applied))) \<and>
        (\<forall>r \<in> set new. fresh_action (db_now d) r)) \<and>
     fst (enqueue_post_commit_actions tx diff anomalies applied d') = [] \<and>
     pending_actions (snd (enqueue_post_commit_actions tx diff anomalies applied d')) = pending_actions d'"
proof -
  let ?as = "actions_of tx diff anomalies applied"
  let ?tn = "vd_tenant diff" and ?tr = "vd_trigger diff"
  obtain ids d' where run: "enqueue_post_commit_actions tx diff anomalies applied d = (ids, d')"
    by (cases "enqueue_post_commit_actions tx diff anomalies applied d")
  obtain new where new: "pending_actions d' = pending_actions d @ new" "ids = map pc_id new"
      "map action_key new = map (\<lambda>k. (?tn, ?tr, k)) (filter (\<lambda>k. \<not> recorded d ?tn ?tr k) (wanted_kinds ?as))"
      "\<forall>r \<in> set new. fresh_action (db_now d) r"
    using enqueue_actions [OF run [unfolded enqueue_post_commit_actions_def] actions_of_distinct] by auto
  have all: "recorded d' ?tn ?tr k" if "k \<in> set (wanted_kinds ?as)" for k
  proof (cases "recorded d ?tn ?tr k")
    case True
    with new(1) show ?thesis by (auto simp: recorded_def)
  next
    case False
    with that have "(?tn, ?tr, k) \<in> set (map action_key new)" unfolding new(3) by auto
    with new(1) show ?thesis by (auto simp: recorded_def)
  qed
  obtain ids2 d2 where again: "enqueue_post_commit_actions tx diff anomalies applied d' = (ids2, d2)"
    by (cases "enqueue_post_commit_actions tx diff anomalies applied d'")
  obtain more where "pending_actions d2 = pending_actions d' @ more" "ids2 = map pc_id more"
      "map action_key more = map (\<lambda>k. (?tn, ?tr, k)) (filter (\<lambda>k. \<not> recorded d' ?tn ?tr k) (wanted_kinds ?as))"
    using enqueue_actions [OF again [unfolded enqueue_post_commit_actions_def] actions_of_distinct] by auto
  moreover have "filter (\<lambda>k. \<not> recorded d' ?tn ?tr k) (wanted_kinds ?as) = []"
    using all by (simp add: filter_empty_conv)
  ultimately have "ids2 = [] \<and> pending_actions d2 = pending_actions d'" by simp
  with run again new show ?thesis by auto
qed

theorem post_commit_recorded_once_witness:
  "case enqueue_post_commit_actions plain_texts sample_diff [] [] empty_queue_db of (ids, d') \<Rightarrow>
     map pc_id (pending_actions d') = ids \<and> ids \<noteq> [] \<and>
     fst (enqueue_post_commit_actions plain_texts sample_diff [] [] d') = []"
proof -
  have "fst (enqueue_post_commit_actions plain_texts sample_diff [] [] empty_queue_db) \<noteq> []" by code_simp
  moreover have "pending_actions empty_queue_db = []" by (simp add: empty_queue_db_def)
  ultimately show ?thesis
    using post_commit_recorded_once [where tx = plain_texts and diff = sample_diff and anomalies = "[]" and applied = "[]" and d = empty_queue_db] by (auto split: prod.splits)
qed

section \<open>Batches\<close>

text \<open>Handlers leave the queue of actions and the clock alone.\<close>

definition aside :: "handler \<Rightarrow> bool" where
  "aside handler \<longleftrightarrow> (\<forall>a d. pending_actions (snd (handler a d)) = pending_actions d \<and>
     db_now (snd (handler a d)) = db_now d)"

text \<open>The ways a handler can end.\<close>

definition ends_as :: "handler \<Rightarrow> action_row \<Rightarrow> handler_end \<Rightarrow> bool" where
  "ends_as handler a e \<longleftrightarrow> (\<exists>d. fst (handler a d) = e)"

text \<open>What a batch makes of one of its rows, when no handler broke the transaction.\<close>

definition settle :: "handler_end \<Rightarrow> time \<Rightarrow> action_row \<Rightarrow> action_row" where
  "settle outcome now a = (case outcome of
     Handled rs \<Rightarrow> a\<lparr>pc_processed_at := Some now, pc_last_error := None\<rparr>
   | HandlerRaised e \<Rightarrow>
       let n = pc_attempts a + 1; a = a\<lparr>pc_attempts := n, pc_scheduled_at := now + compute_backoff n * 1000000,
             pc_last_error := Some (take 2000 e)\<rparr>
       in if MAX_ATTEMPTS \<le> n
          then a\<lparr>pc_dead_at := Some now, pc_last_error := Some (take 2000 (exceeded_prefix @ e))\<rparr> else a
   | DatabaseFailed e \<Rightarrow> a)"

definition announced :: "handler_end \<Rightarrow> action_row \<Rightarrow> (uuid \<times> uuid \<times> string) list" where
  "announced outcome a = (case outcome of Handled rs \<Rightarrow> map (\<lambda>r. (pc_tenant a, pc_trigger a, r)) rs | _ \<Rightarrow> [])"

lemma settle_id [simp]: "pc_id (settle outcome now a) = pc_id a"
  by (simp add: settle_def Let_def split: handler_end.splits)

lemma row_at_map:
  assumes "\<And>r. key (h r) = key r"
  shows "row_at key k (map h t) = map_option h (row_at key k t)"
  using assms by (induction t) (simp_all add: row_simps)

lemma process_action_settles:
  assumes "aside handler" and "\<nexists>e. ends_as handler a (DatabaseFailed e)"
    and "row_at pc_id (pc_id a) (pending_actions (bs_db s)) = Some a"
    and "distinct (map pc_id (pending_actions (bs_db s)))"
  shows "\<exists>s' outcome. process_action handler a s = (Inr (), s') \<and> ends_as handler a outcome \<and>
    bs_sent s' = bs_sent s @ announced outcome a \<and> db_now (bs_db s') = db_now (bs_db s) \<and>
    pending_actions (bs_db s') = map (\<lambda>r. if pc_id r = pc_id a then settle outcome (db_now (bs_db s)) a else r)
      (pending_actions (bs_db s))"
proof -
  let ?t = "pending_actions (bs_db s)"
  obtain outcome d where run: "handler a (bs_db s) = (outcome, d)" by (cases "handler a (bs_db s)")
  have out: "ends_as handler a outcome" using run by (auto simp: ends_as_def intro: exI [of _ "bs_db s"])
  have d: "pending_actions d = ?t" "db_now d = db_now (bs_db s)"
    using assms(1) [unfolded aside_def, rule_format, of a "bs_db s"] by (simp_all add: run)
  have is_a: "r = a" if "r \<in> set ?t" "pc_id r = pc_id a" for r
    using row_at_unique [OF assms(4) that(1)] that(2) assms(3) by simp
  have upd: "row_update pc_id (pc_id a) f ?t = map (\<lambda>r. if pc_id r = pc_id a then f a else r) ?t" for f
    using is_a by (auto simp: row_update_def)
  have twice: "row_update pc_id (pc_id a) g (map (\<lambda>r. if pc_id r = pc_id a then b else r) ?t) =
      map (\<lambda>r. if pc_id r = pc_id a then g b else r) ?t" if "pc_id b = pc_id a" for g b
    using that by (auto simp: row_update_def)
  have "\<exists>s'. process_action handler a s = (Inr (), s') \<and> bs_sent s' = bs_sent s @ announced outcome a \<and>
    db_now (bs_db s') = db_now (bs_db s) \<and>
    pending_actions (bs_db s') = map (\<lambda>r. if pc_id r = pc_id a then settle outcome (db_now (bs_db s)) a else r) ?t"
  proof (cases outcome)
    case (Handled rs)
    then show ?thesis
      by (simp add: process_action_def run d mark_action_processed_def upd_action_def settle_def announced_def upd)
  next
    case (HandlerRaised e)
    then show ?thesis
      using assms(3) by (simp add: process_action_def run d count_failure_def increment_attempts_def move_to_dead_letter_def
          upd_action_def settle_def announced_def Let_def upd twice)
  next
    case (DatabaseFailed e)
    with out assms(2) show ?thesis by simp
  qed
  with out show ?thesis by blast
qed

lemma process_actions_settle:
  assumes "aside handler" and "\<forall>a \<in> set as. (\<nexists>e. ends_as handler a (DatabaseFailed e)) \<and>
      row_at pc_id (pc_id a) (pending_actions (bs_db s)) = Some a"
    and "distinct (map pc_id (pending_actions (bs_db s)))" and "distinct (map pc_id as)"
  shows "\<exists>s' outcome. for_tx as (process_action handler) s = (Inr (), s') \<and>
    (\<forall>a \<in> set as. ends_as handler a (outcome (pc_id a))) \<and>
    bs_sent s' = bs_sent s @ concat (map (\<lambda>a. announced (outcome (pc_id a)) a) as) \<and>
    pending_actions (bs_db s') = map (\<lambda>r. if r \<in> set as then settle (outcome (pc_id r)) (db_now (bs_db s)) r else r)
      (pending_actions (bs_db s))"
  using assms(2-4)
proof (induction as arbitrary: s)
  case Nil
  then show ?case by (simp add: return_tx_def)
next
  case (Cons a as)
  let ?t = "pending_actions (bs_db s)" and ?now = "db_now (bs_db s)"
  obtain s1 x where one: "process_action handler a s = (Inr (), s1)" "ends_as handler a x"
      "bs_sent s1 = bs_sent s @ announced x a" "db_now (bs_db s1) = ?now"
      and db1: "pending_actions (bs_db s1) = map (\<lambda>r. if pc_id r = pc_id a then settle x ?now a else r) ?t"
    using process_action_settles [OF assms(1), of a s] Cons.prems by auto
  have is_row: "r = b" if "b \<in> set (a # as)" "r \<in> set ?t" "pc_id r = pc_id b" for r b
  proof -
    have "row_at pc_id (pc_id b) ?t = Some b" using Cons.prems(1) that(1) by blast
    with row_at_unique [OF Cons.prems(2) that(2)] that(3) show ?thesis by simp
  qed
  have others: "pc_id b \<noteq> pc_id a" if "b \<in> set as" for b
    using Cons.prems(3) that by (auto simp: image_iff)
  have "map pc_id (pending_actions (bs_db s1)) = map pc_id ?t" by (auto simp: db1)
  moreover have "row_at pc_id (pc_id b) (pending_actions (bs_db s1)) = Some b" if "b \<in> set as" for b
  proof -
    have "row_at pc_id (pc_id b) ?t = Some b" using Cons.prems(1) that by simp
    then show ?thesis using others [OF that] by (simp add: db1 row_at_map)
  qed
  ultimately obtain s2 f where two: "for_tx as (process_action handler) s1 = (Inr (), s2)"
      "\<forall>b \<in> set as. ends_as handler b (f (pc_id b))"
      "bs_sent s2 = bs_sent s1 @ concat (map (\<lambda>b. announced (f (pc_id b)) b) as)"
      and db2: "pending_actions (bs_db s2) = map (\<lambda>r. if r \<in> set as then settle (f (pc_id r)) ?now r else r)
        (pending_actions (bs_db s1))"
    using Cons.IH [of s1] Cons.prems one(4) by auto
  define g where "g = f(pc_id a := x)"
  have g: "g (pc_id a) = x" "b \<in> set as \<Longrightarrow> g (pc_id b) = f (pc_id b)" for b
    using others [of b] by (simp_all add: g_def)
  have "settle x ?now a \<notin> set as" using others by (metis settle_id)
  then have "pending_actions (bs_db s2) = map (\<lambda>r. if r \<in> set (a # as) then settle (g (pc_id r)) ?now r else r) ?t"
    unfolding db2 db1 map_map comp_def using is_row [of a] g others
    by (intro map_cong) auto
  moreover have "map (\<lambda>b. announced (g (pc_id b)) b) as = map (\<lambda>b. announced (f (pc_id b)) b) as"
    using g(2) by simp
  ultimately show ?case
    using one two g by (intro exI [of _ s2] exI [of _ g]) (simp add: bind_tx_def cong: map_cong)
qed

lemma process_actions_break:
  assumes "\<exists>a \<in> set as. \<forall>d. \<exists>e. fst (handler a d) = DatabaseFailed e"
  shows "\<exists>s'. for_tx as (process_action handler) s = (Inl in_failed_tx, s')"
  using assms
proof (induction as arbitrary: s)
  case (Cons a as)
  obtain r s1 where one: "process_action handler a s = (r, s1)" by (cases "process_action handler a s")
  have cases: "r = Inl in_failed_tx \<or> r = Inr ()" using one
    by (auto simp: process_action_def count_failure_def Let_def split: handler_end.splits prod.splits if_splits)
  show ?case
  proof (cases "\<forall>d. \<exists>e. fst (handler a d) = DatabaseFailed e")
    case True
    then obtain e where e: "fst (handler a (bs_db s)) = DatabaseFailed e" by blast
    then obtain d where "handler a (bs_db s) = (DatabaseFailed e, d)" by (cases "handler a (bs_db s)") auto
    then show ?thesis by (simp add: process_action_def count_failure_def bind_tx_def Let_def)
  next
    case False
    with Cons.prems have "\<exists>a \<in> set as. \<forall>d. \<exists>e. fst (handler a d) = DatabaseFailed e" by auto
    from Cons.IH [OF this, of s1] one cases show ?thesis by (auto simp: bind_tx_def)
  qed
qed simp

lemma fetched_rows:
  assumes "a \<in> set (fetch_pending_actions limit tenant_id busy d)"
  shows "a \<in> set (pending_actions d) \<and> fetchable (db_now d) tenant_id a \<and> \<not> busy (pc_id a)"
  using in_set_takeD [OF assms [unfolded fetch_pending_actions_def]] by simp

lemma fetched_distinct:
  assumes "distinct (map pc_id (pending_actions d))"
  shows "distinct (map pc_id (fetch_pending_actions limit tenant_id busy d))"
proof -
  have "inj_on pc_id (set (pending_actions d))" and "distinct (pending_actions d)"
    using assms by (auto simp: distinct_map)
  moreover have "set (fetch_pending_actions limit tenant_id busy d) \<subseteq> set (pending_actions d)"
    using fetched_rows by blast
  moreover have "distinct (fetch_pending_actions limit tenant_id busy d)"
    using calculation(2) by (simp add: fetch_pending_actions_def distinct_take)
  ultimately show ?thesis by (auto simp: distinct_map intro: inj_on_subset)
qed

text \<open>
  C27: when no handler of the batch fails inside PostgreSQL (and handlers, which may write anything
  else in the transaction of the batch, leave the queue of actions alone), a pass over the queue
  returns, and every fetched action is settled by the way its handler ended: processed, or one
  more attempt with its backoff, or dead at the fifth failure; no other row of the queue changes,
  and exactly the notifications of the handled actions are delivered.
\<close>

theorem post_commit_batch_exact:
  assumes "distinct (map pc_id (pending_actions d))" and "aside handler"
    and "\<And>a e. a \<in> set (fetch_pending_actions limit tenant_id busy d) \<Longrightarrow> \<not> ends_as handler a (DatabaseFailed e)"
  shows "let picked = fetch_pending_actions limit tenant_id busy d in
    case process_batch handler limit tenant_id busy stats d of (r, stats', sent, d') \<Rightarrow>
      r = Inr () \<and> (\<exists>outcome. (\<forall>a \<in> set picked. ends_as handler a (outcome (pc_id a))) \<and>
        sent = concat (map (\<lambda>a. announced (outcome (pc_id a)) a) picked) \<and>
        pending_actions d' = map (\<lambda>a. if a \<in> set picked then settle (outcome (pc_id a)) (db_now d) a else a)
          (pending_actions d))"
proof -
  let ?picked = "fetch_pending_actions limit tenant_id busy d"
  let ?s = "\<lparr>bs_db = d, bs_sent = [], bs_stats = stats\<lparr>st_iterations := st_iterations stats + 1\<rparr>\<rparr>"
  have "\<forall>a \<in> set ?picked. (\<nexists>e. ends_as handler a (DatabaseFailed e)) \<and>
      row_at pc_id (pc_id a) (pending_actions (bs_db ?s)) = Some a"
    using assms(3) fetched_rows [of _ limit tenant_id busy d] row_at_unique [OF assms(1)] by auto
  moreover have "distinct (map pc_id (pending_actions (bs_db ?s)))" using assms(1) by simp
  ultimately obtain s' outcome where "for_tx ?picked (process_action handler) ?s = (Inr (), s')"
      "\<forall>a \<in> set ?picked. ends_as handler a (outcome (pc_id a))"
      "bs_sent s' = bs_sent ?s @ concat (map (\<lambda>a. announced (outcome (pc_id a)) a) ?picked)"
      "pending_actions (bs_db s') = map (\<lambda>a. if a \<in> set ?picked then settle (outcome (pc_id a)) (db_now (bs_db ?s)) a else a)
        (pending_actions (bs_db ?s))"
    using process_actions_settle [OF assms(2), of ?picked ?s] fetched_distinct [OF assms(1)] by blast
  then show ?thesis by (auto simp: process_batch_def Let_def)
qed

text \<open>
  A handler that fails inside PostgreSQL ends the batch: it raises, delivers nothing and leaves the
  database as it was; the attempts of that action are not counted either.
\<close>

lemma failing_handler_undoes_batch:
  assumes "a \<in> set (fetch_pending_actions limit tenant_id busy d)" and "\<And>d. \<exists>e. fst (handler a d) = DatabaseFailed e"
  shows "\<exists>stats'. process_batch handler limit tenant_id busy stats d = (Inl in_failed_tx, stats', [], d)"
proof -
  let ?s = "\<lparr>bs_db = d, bs_sent = [], bs_stats = stats\<lparr>st_iterations := st_iterations stats + 1\<rparr>\<rparr>"
  obtain s' where "for_tx (fetch_pending_actions limit tenant_id busy d) (process_action handler) ?s = (Inl in_failed_tx, s')"
    using process_actions_break [of "fetch_pending_actions limit tenant_id busy d" handler ?s] assms by blast
  then show ?thesis by (simp add: process_batch_def Let_def)
qed

definition sample_action :: "uuid \<Rightarrow> string \<Rightarrow> action_row" where
  "sample_action i kind = \<lparr>pc_id = i, pc_tenant = 1, pc_trigger = 2, pc_kind = kind, pc_payload = [], pc_attempts = 0,
     pc_scheduled_at = 0, pc_created_at = 0, pc_processed_at = None, pc_dead_at = None, pc_last_error = None,
     pc_quarantined = None\<rparr>"

definition two_actions :: queue_db where
  "two_actions = empty_queue_db\<lparr>pending_actions := [sample_action 10 ''broadcast_realtime'', sample_action 11 ''discover_model_edges'']\<rparr>"

definition breaking_handler :: handler where
  "breaking_handler a d = (if pc_kind a = ''discover_model_edges'' then (DatabaseFailed ''PostgresError'', d)
     else default_handler (\<lambda>_ _ d. (Handled [], d)) a d)"

definition no_stats :: worker_stats where
  "no_stats = \<lparr>st_processed = 0, st_failed = 0, st_dead = 0, st_iterations = 0\<rparr>"

lemma two_actions_fetched: "fetch_pending_actions BATCH_SIZE None (\<lambda>i. False) two_actions = pending_actions two_actions"
  by (simp add: fetch_pending_actions_def two_actions_def empty_queue_db_def sample_action_def fetchable_def BATCH_SIZE_def)

definition quiet_handler :: handler where
  "quiet_handler = default_handler (\<lambda>_ _ d. (Handled [], d))"

lemma quiet_aside: "aside quiet_handler"
  by (auto simp: aside_def quiet_handler_def default_handler_def split: list.splits)

lemma quiet_never_breaks: "\<not> ends_as quiet_handler a (DatabaseFailed e)"
  by (auto simp: ends_as_def quiet_handler_def default_handler_def split: list.splits if_splits)

theorem post_commit_batch_exact_witness:
  "case process_batch quiet_handler BATCH_SIZE None (\<lambda>i. False) no_stats two_actions of (r, st, sent, d') \<Rightarrow>
     r = Inr () \<and> sent = [(1, 2, ''substrate_changed'')] \<and>
     map pc_processed_at (pending_actions d') = [Some 0, Some 0]"
proof -
  have dist: "distinct (map pc_id (pending_actions two_actions))"
    by (simp add: two_actions_def sample_action_def)
  have ends: "ends_as quiet_handler (sample_action 10 ''broadcast_realtime'') x \<Longrightarrow> x = Handled [''substrate_changed'']"
    "ends_as quiet_handler (sample_action 11 ''discover_model_edges'') x \<Longrightarrow> x = Handled []" for x
    by (auto simp: ends_as_def quiet_handler_def default_handler_def sample_action_def model_ids_from_payload_def
        jget_def dict_get_or_def dict_get_def coerce_uuid_list_def)
  obtain r st sent d' where run: "process_batch quiet_handler BATCH_SIZE None (\<lambda>i. False) no_stats two_actions
      = (r, st, sent, d')"
    using prod_cases4 by blast
  from post_commit_batch_exact [OF dist quiet_aside quiet_never_breaks, of BATCH_SIZE None "\<lambda>i. False" no_stats]
  obtain outcome where out: "r = Inr ()" "\<forall>a \<in> set (pending_actions two_actions). ends_as quiet_handler a (outcome (pc_id a))"
      "sent = concat (map (\<lambda>a. announced (outcome (pc_id a)) a) (pending_actions two_actions))"
      "pending_actions d' = map (\<lambda>a. settle (outcome (pc_id a)) (db_now two_actions) a) (pending_actions two_actions)"
    unfolding Let_def two_actions_fetched run prod.case by auto
  have rows: "pending_actions two_actions = [sample_action 10 ''broadcast_realtime'', sample_action 11 ''discover_model_edges'']"
    "db_now two_actions = 0"
    by (simp_all add: two_actions_def empty_queue_db_def)
  have "outcome 10 = Handled [''substrate_changed'']" "outcome 11 = Handled []"
    using out(2) ends unfolding rows by (simp_all add: sample_action_def)
  with out(1,3,4) show ?thesis
    unfolding run rows by (simp add: sample_action_def settle_def announced_def)
qed

text \<open>
  The docstring of \<open>process_batch\<close> says that each action is dispatched under its own savepoint so that
  a handler crash does not roll back the bookkeeping. There is no savepoint: however often the
  batch is repeated, an action whose handler makes PostgreSQL fail is never counted nor
  dead-lettered, and the action before it is never marked processed.
\<close>

theorem poison_action_blocks_batch:
  "((\<lambda>d. snd (snd (snd (process_batch breaking_handler BATCH_SIZE None (\<lambda>i. False) no_stats d)))) ^^ n) two_actions = two_actions"
proof -
  let ?a = "sample_action 11 ''discover_model_edges''"
  have "?a \<in> set (fetch_pending_actions BATCH_SIZE None (\<lambda>i. False) two_actions)"
    unfolding two_actions_fetched by (simp add: two_actions_def)
  moreover have "\<exists>e. fst (breaking_handler ?a d) = DatabaseFailed e" for d
    by (simp add: breaking_handler_def sample_action_def)
  ultimately have "snd (snd (snd (process_batch breaking_handler BATCH_SIZE None (\<lambda>i. False) no_stats two_actions))) = two_actions"
    using failing_handler_undoes_batch [of ?a BATCH_SIZE None "\<lambda>i. False" two_actions breaking_handler no_stats] by auto
  then show ?thesis by (induction n) simp_all
qed

section \<open>Operators\<close>

definition operated :: "texts \<Rightarrow> auth_context option \<Rightarrow> (queue_db, route_reply) tx \<Rightarrow> bool" where
  "operated tx auth route \<longleftrightarrow> (\<exists>queue item_id b limit quarantined.
     route = list_route tx auth queue limit quarantined \<or> route = retry_route tx auth queue item_id b \<or>
     route = quarantine_route tx auth queue item_id b)"

text \<open>What an operator of a tenant must not touch: the rows of the other tenants.\<close>

definition foreign :: "uuid \<Rightarrow> queue_db \<Rightarrow> trigger_row list \<times> action_row list \<times> dead_reeval list \<times> reeval_row list" where
  "foreign t d = (filter (\<lambda>r. q_tenant r \<noteq> t) (trigger_queue d), filter (\<lambda>r. pc_tenant r \<noteq> t) (pending_actions d),
     filter (\<lambda>r. dl_tenant r \<noteq> t) (reeval_dead d), filter (\<lambda>r. rq_tenant r \<noteq> t) (reeval_rows d))"

definition logged_by :: "auth_context \<Rightarrow> queue_db \<Rightarrow> queue_db \<Rightarrow> bool" where
  "logged_by au d d' \<longleftrightarrow> (\<exists>e. operator_log d' = operator_log d @ [e] \<and> op_tenant e = au_tenant au \<and> op_actor e = au_actor au)"

definition operator_effect :: "auth_context \<Rightarrow> queue_db \<Rightarrow> outcome \<Rightarrow> queue_db \<Rightarrow> bool" where
  "operator_effect au d r d' \<longleftrightarrow> (case r of Done reply \<Rightarrow> foreign (au_tenant au) d' = foreign (au_tenant au) d \<and> logged_by au d d'
     | _ \<Rightarrow> d' = d)"

lemma filter_foreign:
  assumes "\<And>r. tenant r = t \<Longrightarrow> C r \<Longrightarrow> tenant (f r) = t"
  shows "filter (\<lambda>r. tenant r \<noteq> t) (map (\<lambda>r. if tenant r = t \<and> C r then f r else r) xs) = filter (\<lambda>r. tenant r \<noteq> t) xs"
  using assms by (induction xs) auto

lemmas operator_defs = operator_effect_def foreign_def logged_by_def record_operator_action_def take_uuid_def
  scheduled_reply_def quarantined_reply_def upd_triggers_def filter_foreign reopen_row_def unlock_row_def Let_def

lemma retry_post_commit_effect: "retry_post_commit au i reason d = (r, d') \<Longrightarrow> operator_effect au d r d'"
  by (auto simp: retry_post_commit_def operator_defs split: option.splits if_splits)

lemma retry_think_trigger_effect: "retry_think_trigger au i reason d = (r, d') \<Longrightarrow> operator_effect au d r d'"
  by (auto simp: retry_think_trigger_def operator_defs split: option.splits if_splits)

lemma enqueue_model_reeval_foreign:
  assumes "enqueue_model_reeval t m k c i d = (Inr q, d')"
  shows "foreign t d' = foreign t d \<and> operator_log d' = operator_log d"
  using assms
  by (auto simp: enqueue_model_reeval_def foreign_def take_uuid_def Let_def split: option.splits if_splits)

lemma retry_model_reeval_effect:
  assumes "retry_model_reeval au i reason d = (Inr r, d')"
  shows "operator_effect au d r d'"
  using assms
  by (auto simp: retry_model_reeval_def bind_tx_Inr operator_defs dest!: enqueue_model_reeval_foreign
      split: option.splits if_splits)

lemma retry_dead_letter_effect:
  assumes "retry_dead_letter au q i reason d = (Inr r, d')"
  shows "operator_effect au d r d'"
  using assms retry_post_commit_effect retry_think_trigger_effect retry_model_reeval_effect
  by (cases q) (auto simp: retry_dead_letter_def map_prod_def split: prod.splits)

lemma quarantine_effect:
  assumes "quarantine_dead_letter au q i reason d = (r, d')"
  shows "operator_effect au d r d'"
  using assms
  by (cases q)
    (auto simp: quarantine_dead_letter_def quarantine_post_commit_def quarantine_model_reeval_def
      quarantine_think_trigger_def operator_defs split: option.splits if_splits)

definition served :: "auth_context option \<Rightarrow> queue_db \<Rightarrow> route_reply result \<Rightarrow> queue_db \<Rightarrow> bool" where
  "served auth d r d' \<longleftrightarrow> (case r of
      Inr (Reply reply) \<Rightarrow> (\<exists>au. auth = Some au \<and> is_admin au d \<and>
        foreign (au_tenant au) d' = foreign (au_tenant au) d \<and> logged_by au d d')
    | _ \<Rightarrow> d' = d)"

lemma effect_served:
  "operator_effect au d x d' \<Longrightarrow> is_admin au d \<Longrightarrow> served (Some au) d (Inr (reply_of x)) d'"
  by (cases x) (simp_all add: served_def reply_of_def operator_effect_def)

text \<open>
  C28: the routes for dead letters serve administrators of the caller's tenant only. A route that
  does not reply with success changes nothing; one that does was called by an authenticated
  administrator, leaves every row of every other tenant as it was, and writes exactly one entry
  with the caller's tenant and identity into the operators' log.
\<close>

theorem operators_scoped_and_logged:
  assumes "operated tx auth route" and "route d = (r, d')"
  shows "served auth d r d'"
proof (cases auth)
  case None
  with assms show ?thesis by (auto simp: served_def operated_def list_route_def retry_route_def quarantine_route_def)
next
  case (Some au)
  from assms(1) consider
      (list) queue limit qn where "route = list_route tx auth queue limit qn"
    | (retry) queue i b where "route = retry_route tx auth queue i b"
    | (quarantine) queue i b where "route = quarantine_route tx auth queue i b"
    unfolding operated_def by blast
  then show ?thesis
  proof cases
    case list
    with assms(2) Some show ?thesis
      by (auto simp: served_def list_route_def operator_defs split: option.splits if_splits)
  next
    case retry
    show ?thesis
    proof (cases "\<exists>x. r = Inr (reply_of x) \<and> is_admin au d \<and> operator_effect au d x d'")
      case True
      with Some effect_served show ?thesis by auto
    next
      case False
      with assms(2) Some retry show ?thesis
        by (cases r) (auto simp: served_def retry_route_def atomically_Inr atomically_Inl bind_tx_Inr return_tx_eq
          dest!: retry_dead_letter_effect split: option.splits if_splits)
    qed
  next
    case quarantine
    show ?thesis
    proof (cases "\<exists>x. r = Inr (reply_of x) \<and> is_admin au d \<and> operator_effect au d x d'")
      case True
      with Some effect_served show ?thesis by auto
    next
      case False
      with assms(2) Some quarantine show ?thesis
        by (auto simp: served_def quarantine_route_def dest!: quarantine_effect split: option.splits if_splits prod.splits)
    qed
  qed
qed

definition sample_trigger :: "uuid \<Rightarrow> uuid \<Rightarrow> string \<Rightarrow> string \<Rightarrow> dict \<Rightarrow> trigger_row" where
  "sample_trigger i t kind subkind p = \<lparr>q_id = i, q_tenant = t, q_kind = kind, q_subkind = Some subkind, q_observation = None,
     q_model = None, q_payload = p, q_scheduled_for = Some 0, q_locked_by = None, q_locked_at = None, q_enqueued_at = 0,
     q_attempts = 0, q_completed_at = None, q_batch_parent = None, q_last_error = None, q_quarantined = None\<rparr>"

definition operated_db :: queue_db where
  "operated_db = empty_queue_db\<lparr>uuid_next := 100, db_now := 50,
     actor_roles := [\<lparr>ro_tenant = 1, ro_actor = 7, ro_entity_type = ''tenant'', ro_entity = None, ro_role = ''admin'',
       ro_granted_by = None, ro_granted_at = 0, ro_revoked_at = None\<rparr>],
     trigger_queue := [fail_row 20 5 ''boom'' (sample_trigger 10 1 ''T1'' ''event_arrival'' []),
       fail_row 20 5 ''boom'' (sample_trigger 11 2 ''T1'' ''event_arrival'' [])]\<rparr>"

theorem operators_scoped_and_logged_witness:
  "let au = \<lparr>au_tenant = 1, au_actor = 7\<rparr>; d' = snd (retry_route plain_texts (Some au) ''think_trigger'' 10 NoBody operated_db)
   in foreign 1 d' = foreign 1 operated_db \<and> logged_by au operated_db d' \<and>
      map q_completed_at (trigger_queue d') = [None, Some 20]"
proof -
  let ?au = "\<lparr>au_tenant = 1, au_actor = 7\<rparr>"
  let ?route = "retry_route plain_texts (Some ?au) ''think_trigger'' 10 NoBody"
  have reply: "\<exists>reply. fst (?route operated_db) = Inr (Reply reply)"
    and queue: "map q_completed_at (trigger_queue (snd (?route operated_db))) = [None, Some 20]"
    by (simp_all add: retry_route_def parse_queue_def QUEUES_def to_lower_def py_strip_def py_isspace_def optional_json_body_def
        is_admin_def has_role_def access_db.truncate_def operated_db_def empty_queue_db_def retry_dead_letter_def
        retry_think_trigger_def sample_trigger_def fail_row_def unlock_row_def upd_triggers_def reopen_row_def
        record_operator_action_def take_uuid_def atomically_def bind_tx_def return_tx_def reply_of_def scheduled_reply_def)
  have "operated plain_texts (Some ?au) ?route" unfolding operated_def by blast
  from operators_scoped_and_logged [OF this, of operated_db "fst (?route operated_db)" "snd (?route operated_db)"] reply
  have "foreign 1 (snd (?route operated_db)) = foreign 1 operated_db \<and> logged_by ?au operated_db (snd (?route operated_db))"
    by (auto simp: served_def)
  with queue show ?thesis by (simp add: Let_def)
qed

end
