(* ===== verification/WorkerPoll.thy ===== *)
theory WorkerPoll
  imports WorkerBatches
begin

text \<open>
  The polling transaction of \<open>services/reasoning/think/worker.py\<close>: pruning of triggers that are
  not worth a run, creation of batches, the poll itself and the lease. The aggregation of
  edge-type candidates (\<open>services/reasoning/relationships\<close>) is the argument \<open>aggregate\<close>, which
  may raise.
\<close>

section \<open>Pruning\<close>

definition prunable :: "worker_config \<Rightarrow> trigger_row \<Rightarrow> bool" where
  "prunable cfg r \<longleftrightarrow> q_completed_at r = None \<and> q_batch_parent r = None \<and> in_filter cfg (q_tenant r)"

definition auto_complete :: "worker_config \<Rightarrow> time \<Rightarrow> string \<Rightarrow> dict \<Rightarrow> trigger_row \<Rightarrow> trigger_row" where
  "auto_complete cfg now reason extra r = (unlock_row r)\<lparr>q_completed_at := Some now,
     q_payload := dict_update (q_payload r) ([(''auto_completed_reason'', JStr reason),
       (''auto_completed_by'', JStr (wc_worker_id cfg))] @ extra)\<rparr>"

definition model_of_trigger :: "trigger_row \<Rightarrow> queue_db \<Rightarrow> model_cols option" where
  "model_of_trigger r d = List.find (\<lambda>m. q_model r = Some (mc_id m) \<and> mc_tenant m = q_tenant r) (model_columns d)"

definition nothing_to_reconsider :: "model_cols \<Rightarrow> bool" where
  "nothing_to_reconsider m \<longleftrightarrow> (case mc_kind m of None \<Rightarrow> ''belief'' | Some k \<Rightarrow> k) \<noteq> ''prediction'' \<and>
     \<not> mc_falsifiable m \<and> mc_evaluate_at m = None \<and> mc_resolution m = None"

definition candidate_of_trigger :: "trigger_row \<Rightarrow> queue_db \<Rightarrow> candidate_row option" where
  "candidate_of_trigger r d = (case as_uuid (jget (q_payload r) ''relationship_candidate_id'') of None \<Rightarrow> None
     | Some i \<Rightarrow> List.find (\<lambda>c. cd_tenant c = q_tenant r \<and> cd_id c = i) (candidates d))"

definition from_topology :: "candidate_row \<Rightarrow> bool" where
  "from_topology c \<longleftrightarrow> cd_source c = Some ''latent_topology'' \<or> cd_basis c = Some ''topology_suggested'' \<or>
     dict_has (cd_metadata c) ''topology'' \<or>
     (case json_fields (jget (cd_metadata c) ''candidate_lifecycle'') of None \<Rightarrow> False
      | Some l \<Rightarrow> jget l ''origin'' = JStr ''latent_topology'')"

definition low_value :: "worker_config \<Rightarrow> candidate_row \<Rightarrow> bool" where
  "low_value cfg c \<longleftrightarrow> cd_kind c \<in> {''edge'', ''situation''} \<and> cd_review c \<in> {''candidate'', ''needs_review''} \<and>
     from_topology c \<and> (cd_leverage c < wc_min_leverage cfg \<or> cd_impact c < wc_min_impact cfg \<or>
       cd_actionability c < wc_min_actionability cfg \<or> cd_confidence c < wc_min_confidence cfg)"

definition prune_noop_beliefs :: "worker_config \<Rightarrow> queue_db \<Rightarrow> queue_db" where
  "prune_noop_beliefs cfg d = upd_triggers (\<lambda>r. prunable cfg r \<and> is_belief_update r \<and>
      (case model_of_trigger r d of None \<Rightarrow> False | Some m \<Rightarrow> nothing_to_reconsider m))
    (auto_complete cfg (db_now d) ''non_prediction_belief_updated_noop'' []) d"

text \<open>
  The tenants whose edge-type candidates are aggregated before their triggers are pruned. Whatever
  the aggregation raises ends the transaction of the poll: the worker catches undefined tables and
  columns only, and after those PostgreSQL refuses the next statement of the same transaction.
\<close>

definition edge_type_trigger :: "worker_config \<Rightarrow> queue_db \<Rightarrow> trigger_row \<Rightarrow> bool" where
  "edge_type_trigger cfg d r \<longleftrightarrow> prunable cfg r \<and> is_latent r \<and>
     (case candidate_of_trigger r d of None \<Rightarrow> False | Some c \<Rightarrow> cd_kind c = ''edge_type'')"

definition aggregate_for_pruning ::
  "(uuid \<Rightarrow> (queue_db, unit) tx) \<Rightarrow> worker_config \<Rightarrow> (queue_db, unit) tx" where
  "aggregate_for_pruning aggregate cfg d =
    for_tx (remdups (map q_tenant (filter (edge_type_trigger cfg d) (trigger_queue d)))) aggregate d"

definition topology_fields :: "queue_db \<Rightarrow> trigger_row \<Rightarrow> dict" where
  "topology_fields d r = (case candidate_of_trigger r d of None \<Rightarrow> [] | Some c \<Rightarrow>
     [(''candidate_judgment_leverage'', JFloat (cd_leverage c)), (''candidate_impact'', JFloat (cd_impact c)),
      (''candidate_actionability'', JFloat (cd_actionability c)), (''candidate_confidence'', JFloat (cd_confidence c))])"

definition prune_low_value_t4_topology_candidate_rows :: "worker_config \<Rightarrow> queue_db \<Rightarrow> queue_db" where
  "prune_low_value_t4_topology_candidate_rows cfg d = upd_triggers (\<lambda>r. prunable cfg r \<and> is_latent r \<and>
      (case candidate_of_trigger r d of None \<Rightarrow> False | Some c \<Rightarrow> low_value cfg c))
    (\<lambda>r. auto_complete cfg (db_now d) ''low_value_topology_candidate_noop'' (topology_fields d r) r) d"

definition prune_missing_models :: "worker_config \<Rightarrow> queue_db \<Rightarrow> queue_db" where
  "prune_missing_models cfg d =
    upd_triggers (\<lambda>r. prunable cfg r \<and> is_belief_update r \<and> model_of_trigger r d = None)
      (auto_complete cfg (db_now d) ''missing_model_belief_updated_noop'' []) d"

definition prune_edge_types :: "worker_config \<Rightarrow> queue_db \<Rightarrow> queue_db" where
  "prune_edge_types cfg d = upd_triggers (edge_type_trigger cfg d)
      (auto_complete cfg (db_now d) ''edge_type_candidate_aggregation_path'' []) d"

definition prune_low_value_downstream_rows ::
  "(uuid \<Rightarrow> (queue_db, unit) tx) \<Rightarrow> worker_config \<Rightarrow> (queue_db, unit) tx" where
  "prune_low_value_downstream_rows aggregate cfg d =
    (if \<not> wc_prune cfg then (Inr (), d)
     else bind_tx (aggregate_for_pruning aggregate cfg) (\<lambda>_ d.
            let d = prune_low_value_t4_topology_candidate_rows cfg d;
                d = prune_missing_models cfg d
            in (Inr (), prune_edge_types cfg d)) (prune_noop_beliefs cfg d))"

section \<open>Poll and dispatch\<close>

definition poll_and_dispatch ::
  "(uuid \<Rightarrow> (queue_db, unit) tx) \<Rightarrow> texts \<Rightarrow> worker_config \<Rightarrow> nat \<Rightarrow> (uuid \<Rightarrow> bool) \<Rightarrow> (queue_db, leased list) tx" where
  "poll_and_dispatch aggregate tx cfg in_flight busy d =
    (let slots = max 0 (wc_poll_batch cfg - int in_flight) in
     if slots \<le> 0 then (Inr [], d)
     else atomically (
       bind_tx (prune_low_value_downstream_rows aggregate cfg) (\<lambda>_.
       bind_tx (create_t1_batch_rows tx cfg busy slots) (\<lambda>t1.
       let remaining = (if t1 \<noteq> [] then 0 else slots) in
       bind_tx (if 0 < remaining then create_downstream_batch_rows tx cfg busy remaining else return_tx []) (\<lambda>down.
       let rows = t1 @ down;
           remaining = (if 0 < remaining then slots - int (length rows) else remaining)
       in (\<lambda>d. let polled = (if remaining \<le> 0 then [] else map leased_of (poll_rows cfg busy (nat remaining) d));
               rows = rows @ polled
           in (Inr rows, lease_rows cfg (map ls_id rows) d)))))) d)"

end
