(* ===== verification/WorkerFacts.thy ===== *)
theory WorkerFacts
  imports WorkerPoll DeadLetters
begin

text \<open>
  The invariant of the trigger queue and the operations of the worker that keep it: identifiers
  are unique and already drawn, an open trigger has attempts left, and an open T1 trigger that
  waits inside a batch is listed by an open batch of its tenant.
\<close>

named_theorems row_defs \<open>what the worker's statements make of a row\<close>

section \<open>The invariant\<close>

definition batch_members :: "dict \<Rightarrow> uuid list" where
  "batch_members p = payload_uuid_list p ''batch_member_trigger_ids''"

definition members :: "trigger_row \<Rightarrow> uuid list" where
  "members r = batch_members (q_payload r)"

text \<open>What no statement of the worker changes in a row.\<close>

definition core :: "trigger_row \<Rightarrow> uuid \<times> uuid \<times> string \<times> string option \<times> uuid list" where
  "core r = (q_id r, q_tenant r, q_kind r, q_subkind r, members r)"

abbreviation is_open :: "trigger_row \<Rightarrow> bool" where
  "is_open r \<equiv> q_completed_at r = None"

definition is_event_batch :: "trigger_row \<Rightarrow> bool" where
  "is_event_batch r \<longleftrightarrow> q_kind r = ''T1'' \<and> q_subkind r = Some ''event_batch''"

definition row_ok :: "int \<Rightarrow> trigger_row \<Rightarrow> bool" where
  "row_ok M r \<longleftrightarrow> q_scheduled_for r \<noteq> None \<and> (q_locked_by r \<noteq> None \<longrightarrow> q_locked_at r \<noteq> None) \<and>
     (is_open r \<longrightarrow> 0 \<le> q_attempts r \<and> q_attempts r < M) \<and> (is_event_batch r \<longrightarrow> q_batch_parent r = None)"

definition queue_wf :: "queue_db \<Rightarrow> bool" where
  "queue_wf d \<longleftrightarrow> distinct (map q_id (trigger_queue d)) \<and> (\<forall>r \<in> set (trigger_queue d). q_id r < uuid_next d)"

definition batch_of :: "trigger_row \<Rightarrow> trigger_row \<Rightarrow> bool" where
  "batch_of q r \<longleftrightarrow> q_batch_parent r = Some (q_id q) \<and> is_open q \<and> q_batch_parent q = None \<and> is_event_batch q \<and>
     q_id r \<in> set (members q) \<and> q_tenant q = q_tenant r"

definition none_hidden :: "queue_db \<Rightarrow> bool" where
  "none_hidden d \<longleftrightarrow> (\<forall>r \<in> set (trigger_queue d). is_open r \<and> q_kind r = ''T1'' \<and> q_batch_parent r \<noteq> None \<longrightarrow>
     (\<exists>q \<in> set (trigger_queue d). batch_of q r))"

definition queue_inv :: "int \<Rightarrow> queue_db \<Rightarrow> bool" where
  "queue_inv M d \<longleftrightarrow> queue_wf d \<and> (\<forall>r \<in> set (trigger_queue d). row_ok M r) \<and> none_hidden d"

lemma core_eqD:
  "core r = core s \<Longrightarrow> q_id r = q_id s \<and> q_tenant r = q_tenant s \<and> q_kind r = q_kind s \<and> q_subkind r = q_subkind s \<and>
     members r = members s"
  by (simp add: core_def)

lemma core_event_batch: "core r = core s \<Longrightarrow> is_event_batch r = is_event_batch s"
  by (simp add: core_def is_event_batch_def)

section \<open>Statements\<close>

lemma payload_other_key:
  assumes "dict_get p' ''batch_member_trigger_ids'' = dict_get p ''batch_member_trigger_ids''"
  shows "batch_members p' = batch_members p"
  using assms by (simp add: batch_members_def payload_uuid_list_def jget_def dict_get_or_def)

lemma set_upd_triggers: "set (trigger_queue (upd_triggers P f d)) = (\<lambda>r. if P r then f r else r) ` set (trigger_queue d)"
  by (simp add: upd_triggers_def)

lemma upd_triggers_frame [simp]:
  "uuid_next (upd_triggers P f d) = uuid_next d" "db_now (upd_triggers P f d) = db_now d"
  "py_now (upd_triggers P f d) = py_now d" "reeval_rows (upd_triggers P f d) = reeval_rows d"
  "observations (upd_triggers P f d) = observations d" "model_scopes (upd_triggers P f d) = model_scopes d"
  "candidates (upd_triggers P f d) = candidates d" "model_columns (upd_triggers P f d) = model_columns d"
  by (simp_all add: upd_triggers_def)

lemma wf_upd:
  assumes "queue_wf d" and "\<And>r. q_id (f r) = q_id r"
  shows "queue_wf (upd_triggers P f d)"
proof -
  have "map q_id (trigger_queue (upd_triggers P f d)) = map q_id (trigger_queue d)"
    using assms(2) by (auto simp: upd_triggers_def)
  with assms show ?thesis by (auto simp: queue_wf_def set_upd_triggers)
qed

lemma wf_unique: "queue_wf d \<Longrightarrow> r \<in> set (trigger_queue d) \<Longrightarrow> s \<in> set (trigger_queue d) \<Longrightarrow> q_id r = q_id s \<Longrightarrow> r = s"
  by (auto simp: queue_wf_def distinct_map inj_on_def)

text \<open>
  One statement keeps the invariant if it keeps the rows, gives no row a parent, reopens no row
  of a batch, and takes care of the members of the batches it completes.
\<close>

lemma inv_upd:
  assumes inv: "queue_inv M d" and core: "\<And>r. core (f r) = core r"
    and ok: "\<And>r. r \<in> set (trigger_queue d) \<Longrightarrow> P r \<Longrightarrow> row_ok M r \<Longrightarrow> row_ok M (f r)"
    and parent: "\<And>r. r \<in> set (trigger_queue d) \<Longrightarrow> P r \<Longrightarrow>
      (q_batch_parent (f r) = q_batch_parent r \<or> q_batch_parent (f r) = None) \<and>
      (is_open (f r) \<longrightarrow> is_open r \<or> q_batch_parent r = None)"
    and batches: "\<And>q r. \<lbrakk>q \<in> set (trigger_queue d); r \<in> set (trigger_queue d); P q; \<not> is_open (f q); batch_of q r;
      is_open r; q_kind r = ''T1''\<rbrakk> \<Longrightarrow> P r \<and> (\<not> is_open (f r) \<or> q_batch_parent (f r) = None)"
  shows "queue_inv M (upd_triggers P f d)"
proof -
  let ?g = "\<lambda>r. if P r then f r else r"
  have gcore: "core (?g r) = core r" for r by (simp add: core)
  have wf: "queue_wf (upd_triggers P f d)"
    using inv core_eqD [OF core] by (intro wf_upd) (auto simp: queue_inv_def)
  have rows: "\<forall>r \<in> set (trigger_queue (upd_triggers P f d)). row_ok M r"
    using inv ok by (auto simp: set_upd_triggers queue_inv_def)
  have "\<exists>q \<in> set (trigger_queue (upd_triggers P f d)). batch_of q (?g r)"
    if r: "r \<in> set (trigger_queue d)" and h: "is_open (?g r)" "q_kind (?g r) = ''T1''" "q_batch_parent (?g r) \<noteq> None" for r
  proof -
    have same: "q_batch_parent r = q_batch_parent (?g r)" and op: "is_open r" and k: "q_kind r = ''T1''"
      using parent [OF r] h core_eqD [OF core, of r] by (auto split: if_splits)
    with h inv r obtain q where q: "q \<in> set (trigger_queue d)" "batch_of q r"
      by (auto simp: queue_inv_def none_hidden_def)
    have open': "is_open (?g q)"
    proof (rule ccontr)
      assume closed: "\<not> is_open (?g q)"
      with q have "P q" "\<not> is_open (f q)" by (auto simp: batch_of_def split: if_splits)
      from batches [OF q(1) r this q(2) op k] h show False by auto
    qed
    moreover have "q_batch_parent (?g q) = None"
      using q parent [OF q(1)] by (auto simp: batch_of_def)
    ultimately have "batch_of (?g q) (?g r)"
      using q(2) same core_eqD [OF gcore, of q] core_eqD [OF gcore, of r] core_event_batch [OF gcore, of q]
      by (simp add: batch_of_def del: if_split)
    with q(1) show ?thesis unfolding set_upd_triggers by blast
  qed
  note hidden = this
  have "none_hidden (upd_triggers P f d)"
    unfolding none_hidden_def
  proof (intro ballI impI)
    fix r'
    assume "r' \<in> set (trigger_queue (upd_triggers P f d))" and h: "is_open r' \<and> q_kind r' = ''T1'' \<and> q_batch_parent r' \<noteq> None"
    then obtain r where "r \<in> set (trigger_queue d)" "r' = ?g r" unfolding set_upd_triggers by blast
    with h hidden show "\<exists>q \<in> set (trigger_queue (upd_triggers P f d)). batch_of q r'" by simp
  qed
  with wf rows show ?thesis by (simp add: queue_inv_def)
qed

text \<open>The common case: nothing is completed.\<close>

lemma inv_upd_open:
  assumes "queue_inv M d" and "\<And>r. core (f r) = core r"
    and "\<And>r. r \<in> set (trigger_queue d) \<Longrightarrow> P r \<Longrightarrow> row_ok M r \<Longrightarrow> row_ok M (f r)"
    and "\<And>r. q_batch_parent (f r) = q_batch_parent r" and "\<And>r. is_open (f r) = is_open r"
  shows "queue_inv M (upd_triggers P f d)"
  using assms(1-3) by (rule inv_upd) (auto simp: assms(4,5) batch_of_def)

text \<open>A new row that belongs to no batch.\<close>

lemma inv_snoc:
  assumes "queue_inv M d" and "row_ok M r" and "q_batch_parent r = None" and "q_id r = uuid_next d"
    and "trigger_queue d' = trigger_queue d @ [r]" and "uuid_next d' = Suc (uuid_next d)"
  shows "queue_inv M d'"
  using assms by (auto simp: queue_inv_def queue_wf_def none_hidden_def less_Suc_eq)

text \<open>The invariant depends on the queue and the supply of identifiers only.\<close>

lemma inv_frame:
  "queue_inv M d \<Longrightarrow> trigger_queue d' = trigger_queue d \<Longrightarrow> uuid_next d \<le> uuid_next d' \<Longrightarrow> queue_inv M d'"
  by (auto simp: queue_inv_def queue_wf_def none_hidden_def)

lemma upd_upd:
  assumes "\<And>r. P r \<Longrightarrow> \<not> P' (f r)"
  shows "upd_triggers P' f' (upd_triggers P f d) = upd_triggers (\<lambda>r. P r \<or> P' r) (\<lambda>r. if P r then f r else f' r) d"
  using assms by (auto simp: upd_triggers_def)

lemma upd_upd_same:
  assumes "\<And>r. P r \<Longrightarrow> \<not> P' (f r)"
  shows "upd_triggers P' f (upd_triggers P f d) = upd_triggers (\<lambda>r. P r \<or> P' r) f d"
  using upd_upd [of P P' f f d] assms by simp

section \<open>Rows after a statement\<close>

lemmas [row_defs] = unlock_row_def lock_row_def complete_row_def fail_row_def retry_row_def feedback_row_def
  auto_complete_def reopen_row_def

lemma members_set_other [simp]:
  "k \<noteq> ''batch_member_trigger_ids'' \<Longrightarrow> batch_members (dict_set k v p) = batch_members p"
  by (rule payload_other_key) (simp add: dict_simps)

lemma core_statements [simp]:
  "core (unlock_row r) = core r" "core (lock_row w now r) = core r" "core (complete_row now r) = core r"
  "core (fail_row now n e r) = core r" "core (retry_row now n b e r) = core r" "core (reopen_row now r) = core r"
  "core (r\<lparr>q_batch_parent := p\<rparr>) = core r" "core (r\<lparr>q_locked_at := t\<rparr>) = core r"
  "core (r\<lparr>q_scheduled_for := t\<rparr>) = core r"
  by (simp_all add: core_def members_def row_defs)

lemma core_payload: "batch_members p = members r \<Longrightarrow> core (r\<lparr>q_payload := p\<rparr>) = core r"
  by (simp add: core_def members_def)

lemma core_feedback [simp]: "core (feedback_row fb r) = core r"
  by (simp add: feedback_row_def core_def members_def split: option.splits)

lemma core_auto_complete [simp]:
  assumes "dict_get (rev extra) ''batch_member_trigger_ids'' = None"
  shows "core (auto_complete cfg now reason extra r) = core r"
proof -
  have "batch_members (dict_update (q_payload r) ([(''auto_completed_reason'', JStr reason),
      (''auto_completed_by'', JStr (wc_worker_id cfg))] @ extra)) = members r"
    unfolding members_def
    by (rule payload_other_key, subst dict_get_update) (use assms in \<open>simp add: dict_get_def map_add_def\<close>)
  then show ?thesis by (simp add: auto_complete_def core_def members_def unlock_row_def)
qed

section \<open>Operations that complete nothing\<close>

lemma row_ok_event_batch: "row_ok M r \<Longrightarrow> core s = core r \<Longrightarrow> q_batch_parent s = q_batch_parent r \<Longrightarrow>
    q_scheduled_for s \<noteq> None \<Longrightarrow> (q_locked_by s \<noteq> None \<longrightarrow> q_locked_at s \<noteq> None) \<Longrightarrow>
    (is_open s \<longrightarrow> 0 \<le> q_attempts s \<and> q_attempts s < M) \<Longrightarrow> row_ok M s"
  using core_event_batch [of s r] by (simp add: row_ok_def)

lemma inv_recover: "queue_inv M d \<Longrightarrow> queue_inv M (snd (recover_orphaned_trigger_locks cfg d))"
  unfolding recover_orphaned_trigger_locks_def snd_conv
  by (erule inv_upd_open) (auto simp: row_defs row_ok_def is_event_batch_def core_def members_def)

lemma inv_heartbeat: "queue_inv M d \<Longrightarrow> queue_inv M (heartbeat_trigger cfg i d)"
  unfolding heartbeat_trigger_def
  by (erule inv_upd_open) (auto simp: row_ok_def is_event_batch_def)

lemma inv_lease: "queue_inv M d \<Longrightarrow> queue_inv M (lease_rows cfg ids d)"
  unfolding lease_rows_def
  by (erule inv_upd_open) (auto simp: row_defs row_ok_def is_event_batch_def core_def members_def)

lemma inv_defer: "queue_inv M d \<Longrightarrow> queue_inv M (defer_trigger_for_budget cfg i d)"
  unfolding defer_trigger_for_budget_def
  by (erule inv_upd_open) (auto simp: row_defs row_ok_def is_event_batch_def core_def members_def)

lemma inv_enqueue:
  assumes "queue_inv M d" and "1 \<le> M"
  shows "\<exists>r d'. enqueue_trigger t k sk obs m p sched lk None d = (Inr (uuid_next d), d') \<and>
    trigger_queue d' = trigger_queue d @ [r] \<and> q_id r = uuid_next d \<and> q_batch_parent r = None \<and> is_open r \<and>
    q_kind r = k \<and> q_subkind r = sk \<and> q_payload r = (case p of None \<Rightarrow> [] | Some x \<Rightarrow> x) \<and>
    uuid_next d' = Suc (uuid_next d) \<and> db_now d' = db_now d \<and> queue_inv M d'"
proof -
  have new: "uuid_next d \<notin> q_id ` set (trigger_queue d)"
    using assms(1) by (auto simp: queue_inv_def queue_wf_def)
  then obtain r d' where run: "enqueue_trigger t k sk obs m p sched lk None d = (Inr (uuid_next d), d')"
      and r: "trigger_queue d' = trigger_queue d @ [r]" "q_id r = uuid_next d" "q_batch_parent r = None" "is_open r"
        "q_kind r = k" "q_subkind r = sk" "q_payload r = (case p of None \<Rightarrow> [] | Some x \<Rightarrow> x)" "row_ok M r"
        "uuid_next d' = Suc (uuid_next d)" "db_now d' = db_now d"
    using assms(2) by (auto simp: enqueue_trigger_def take_uuid_def Let_def row_ok_def)
  then show ?thesis using inv_snoc [OF assms(1) r(8,3,2,1,9)] by blast
qed

lemma inv_promote_one:
  assumes "queue_inv M d" and "1 \<le> M"
  shows "\<exists>d'. promote_one r d = (Inr (), d') \<and> queue_inv M d'"
proof (cases "list_ex (open_reeval_trigger (rq_id r)) (trigger_queue d)")
  case True
  with assms show ?thesis by (simp add: promote_one_def)
next
  case False
  let ?p = "[(''reeval_row_id'', JUuid (rq_id r)),
     (''cause_model_id'', case rq_cause r of Some c \<Rightarrow> JUuid c | None \<Rightarrow> JNull), (''cause_kind'', JStr (rq_kind r))]"
  obtain d' where "enqueue_trigger (rq_tenant r) ''T4'' (Some ''model_reeval'') None (Some (rq_model r)) (Some ?p) None None None d
      = (Inr (uuid_next d), d')" "queue_inv M d'"
    using inv_enqueue [OF assms, of "rq_tenant r" "''T4''" "Some ''model_reeval''" None "Some (rq_model r)" "Some ?p" None None]
    by blast
  with False show ?thesis by (simp add: promote_one_def bind_tx_def return_tx_def)
qed

lemma for_tx_inv:
  assumes "I s" and "\<And>x s. x \<in> set xs \<Longrightarrow> I s \<Longrightarrow> \<exists>s'. f x s = (Inr (), s') \<and> I s'"
  shows "\<exists>s'. for_tx xs f s = (Inr (), s') \<and> I s'"
  using assms
proof (induction xs arbitrary: s)
  case (Cons x xs)
  then obtain s1 where "f x s = (Inr (), s1)" "I s1" by (metis list.set_intros(1))
  with Cons show ?case by (simp add: bind_tx_def)
qed (simp add: return_tx_def)

lemma inv_promote:
  assumes "queue_inv M d" and "1 \<le> M"
  shows "\<exists>d'. promote_reeval_rows cfg busy d = (Inr (), d') \<and> queue_inv M d'"
proof -
  let ?rows = "take (nat (wc_poll_batch cfg)) (sort_key rq_enqueued_at (filter (promotable cfg busy) (reeval_rows d)))"
  obtain d' where "for_tx ?rows promote_one d = (Inr (), d')" "queue_inv M d'"
    using for_tx_inv [of "queue_inv M" d ?rows promote_one] inv_promote_one assms by blast
  then show ?thesis by (simp add: promote_reeval_rows_def atomically_def)
qed

section \<open>The end of a run\<close>

lemma complete_eq:
  "mark_trigger_complete cfg i p d = stamp_reeval p (upd_triggers (\<lambda>r. q_id r = i \<and> q_locked_by r = Some (wc_worker_id cfg) \<or>
     q_id r \<in> set (batch_members p) \<and> q_batch_parent r = Some i \<and> is_open r) (complete_row (db_now d)) d)"
  unfolding mark_trigger_complete_def Let_def complete_members_def batch_members_def upd_triggers_frame
  by (subst upd_upd_same) (auto simp: row_defs)

lemma inv_complete:
  assumes "queue_inv M d"
    and "\<And>q. q \<in> set (trigger_queue d) \<Longrightarrow> q_id q = i \<Longrightarrow> members q = batch_members p"
  shows "queue_inv M (mark_trigger_complete cfg i p d)"
proof -
  have "queue_inv M (upd_triggers (\<lambda>r. q_id r = i \<and> q_locked_by r = Some (wc_worker_id cfg) \<or>
      q_id r \<in> set (batch_members p) \<and> q_batch_parent r = Some i \<and> is_open r) (complete_row (db_now d)) d)"
    using assms(1)
  proof (rule inv_upd)
    fix q r
    assume "q \<in> set (trigger_queue d)" "batch_of q r" "is_open r"
      "q_id q = i \<and> q_locked_by q = Some (wc_worker_id cfg) \<or>
        q_id q \<in> set (batch_members p) \<and> q_batch_parent q = Some i \<and> is_open q"
    then show "(q_id r = i \<and> q_locked_by r = Some (wc_worker_id cfg) \<or>
        q_id r \<in> set (batch_members p) \<and> q_batch_parent r = Some i \<and> is_open r) \<and>
        (\<not> is_open (complete_row (db_now d) r) \<or> q_batch_parent (complete_row (db_now d) r) = None)"
      using assms(2) [of q] by (auto simp: batch_of_def row_defs)
  qed (auto simp: row_defs row_ok_def is_event_batch_def core_def members_def)
  then show ?thesis
    unfolding complete_eq by (auto simp: stamp_reeval_def intro: inv_frame split: option.splits)
qed

lemma dead_letter_frame [simp]:
  "trigger_queue (dead_letter_reeval i n e d) = trigger_queue d" "uuid_next d \<le> uuid_next (dead_letter_reeval i n e d)"
  "db_now (dead_letter_reeval i n e d) = db_now d"
  by (simp_all add: dead_letter_reeval_def take_uuid_def Let_def split: option.splits)

lemma backoff_defined: "0 \<le> n \<Longrightarrow> \<exists>s. failure_backoff_seconds env e (n + 1) = Inr s"
  by (auto simp: failure_backoff_seconds_def queue_retry_backoff_seconds_def exponential_backoff_seconds_def
      QUEUE_RETRY_BACKOFF_BASE_SECONDS_def QUEUE_RETRY_BACKOFF_CAP_SECONDS_def Let_def split: option.splits)

text \<open>
  The exact effect of a failed run: nothing without the lock; the last failure completes the
  row, releases the members of its batch and dead-letters the reevaluation it carries; an
  earlier one reschedules the row.
\<close>

definition released :: "uuid \<Rightarrow> time \<Rightarrow> trigger_row \<Rightarrow> trigger_row" where
  "released i now r = (unlock_row r)\<lparr>q_batch_parent := None, q_scheduled_for := Some now,
     q_payload := dict_set ''unbatched_from'' (JUuid i) (q_payload r)\<rparr>"

lemma core_released [simp]: "core (released i now r) = core r"
  by (simp add: released_def core_def members_def unlock_row_def)

definition holds_lock :: "worker_config \<Rightarrow> uuid \<Rightarrow> trigger_row \<Rightarrow> bool" where
  "holds_lock cfg i r \<longleftrightarrow> q_id r = i \<and> is_open r \<and> q_locked_by r = Some (wc_worker_id cfg)"

lemma holds_lock_eq:
  "(\<lambda>r. q_id r = i \<and> is_open r \<and> q_locked_by r = Some (wc_worker_id cfg)) = holds_lock cfg i"
  by (rule ext) (simp add: holds_lock_def)

lemma released_eq:
  "(\<lambda>r. (unlock_row r)\<lparr>q_batch_parent := None, q_scheduled_for := Some now,
     q_payload := dict_set ''unbatched_from'' (JUuid i) (q_payload r)\<rparr>) = released i now"
  by (rule ext) (simp add: released_def)

definition failed_db :: "environ \<Rightarrow> worker_config \<Rightarrow> uuid \<Rightarrow> string \<Rightarrow> bool \<Rightarrow> string option \<Rightarrow> string option \<Rightarrow>
    trigger_row \<Rightarrow> real \<Rightarrow> queue_db \<Rightarrow> queue_db" where
  "failed_db env cfg i error force cls feedback row backoff d =
    (let n = q_attempts row + 1 in
     if force \<or> effective_max_attempts env cfg cls \<le> n
     then (case as_uuid (jget (q_payload row) ''reeval_row_id'') of None \<Rightarrow> id | Some rrid \<Rightarrow> dead_letter_reeval rrid n error)
       (upd_triggers (\<lambda>r. q_id r = i \<or> q_id r \<in> set (members row) \<and> q_batch_parent r = Some i \<and> is_open r)
         (\<lambda>r. if q_id r = i then fail_row (db_now d) n error r else released i (db_now d) r) d)
     else upd_triggers (\<lambda>r. q_id r = i)
       (\<lambda>r. feedback_row (stored_feedback env cls feedback) (retry_row (db_now d) n backoff error r)) d)"

lemma failed_row:
  assumes "find (holds_lock cfg i) (trigger_queue d) = Some row" and "0 \<le> q_attempts row"
  shows "\<exists>backoff. failure_backoff_seconds env error (q_attempts row + 1) = Inr backoff \<and>
    mark_trigger_failed env cfg i error force cls feedback d = (Inr (), failed_db env cfg i error force cls feedback row backoff d)"
proof -
  obtain backoff where b: "failure_backoff_seconds env error (q_attempts row + 1) = Inr backoff"
    using backoff_defined [OF assms(2)] by blast
  have release: "release_members ms i (upd_triggers (\<lambda>r. q_id r = i) (fail_row now n error) d) =
      upd_triggers (\<lambda>r. q_id r = i \<or> q_id r \<in> set ms \<and> q_batch_parent r = Some i \<and> is_open r)
        (\<lambda>r. if q_id r = i then fail_row now n error r else released i (db_now d) r) d" for ms now n
    unfolding release_members_def upd_triggers_frame released_eq
    by (subst upd_upd) (auto simp: row_defs)
  from assms(1) b show ?thesis
    unfolding mark_trigger_failed_def holds_lock_eq atomically_def
    by (auto simp: failed_db_def Let_def release members_def batch_members_def split: option.splits)
qed

lemma failed_without_lock:
  "find (holds_lock cfg i) (trigger_queue d) = None \<Longrightarrow> mark_trigger_failed env cfg i error force cls feedback d = (Inr (), d)"
  unfolding mark_trigger_failed_def holds_lock_eq atomically_def by simp

lemma inv_dead_letter: "queue_inv M d \<Longrightarrow> queue_inv M (dead_letter_reeval i n e d)"
  by (erule inv_frame) simp_all

lemma find_holds: "find (holds_lock cfg i) xs = Some row \<Longrightarrow> row \<in> set xs \<and> holds_lock cfg i row"
  by (auto simp: find_Some_iff)

lemma effective_max_le: "effective_max_attempts env cfg cls \<le> wc_trigger_max_attempts cfg"
  by (auto simp: effective_max_attempts_def split: option.splits)

lemma core_cases:
  "core (if c then f r else g r) = core r \<longleftrightarrow> (if c then core (f r) = core r else core (g r) = core r)"
  by simp

lemma inv_failed_db:
  assumes inv: "queue_inv M d" and M: "wc_trigger_max_attempts cfg = M"
    and row: "row \<in> set (trigger_queue d)" "holds_lock cfg i row"
  shows "queue_inv M (failed_db env cfg i error force cls feedback row backoff d)"
proof (cases "force \<or> effective_max_attempts env cfg cls \<le> q_attempts row + 1")
  case True
  let ?P = "\<lambda>r. q_id r = i \<or> q_id r \<in> set (members row) \<and> q_batch_parent r = Some i \<and> is_open r"
  let ?f = "\<lambda>r. if q_id r = i then fail_row (db_now d) (q_attempts row + 1) error r else released i (db_now d) r"
  have is_row: "q = row" if "q \<in> set (trigger_queue d)" "q_id q = i" for q
    using wf_unique [of d q row] that row inv by (simp add: queue_inv_def holds_lock_def)
  have "queue_inv M (upd_triggers ?P ?f d)"
    using inv
  proof (rule inv_upd)
    fix q r
    assume q: "q \<in> set (trigger_queue d)" "\<not> is_open (?f q)" "batch_of q r" "?P q" and r: "is_open r"
    then have "q_id q = i" by (auto simp: released_def unlock_row_def batch_of_def split: if_splits)
    with q r is_row [of q] show "?P r \<and> (\<not> is_open (?f r) \<or> q_batch_parent (?f r) = None)"
      by (auto simp: batch_of_def released_def fail_row_def unlock_row_def)
  next
    fix r
    assume "r \<in> set (trigger_queue d)" "?P r" "row_ok M r"
    then show "row_ok M (?f r)"
      by (auto simp: released_def row_defs row_ok_def is_event_batch_def)
  next
    fix r
    show "core (?f r) = core r" by simp
  next
    fix r
    assume "r \<in> set (trigger_queue d)" "?P r"
    then show "(q_batch_parent (?f r) = q_batch_parent r \<or> q_batch_parent (?f r) = None) \<and>
        (is_open (?f r) \<longrightarrow> is_open r \<or> q_batch_parent r = None)"
      by (auto simp: released_def fail_row_def unlock_row_def)
  qed
  with True show ?thesis
    by (auto simp: failed_db_def Let_def intro: inv_dead_letter split: option.splits)
next
  case False
  then have n: "q_attempts row + 1 < M" using effective_max_le [of env cfg cls] M by linarith
  have a: "0 \<le> q_attempts row" using inv row by (auto simp: queue_inv_def row_ok_def holds_lock_def)
  have "queue_inv M (upd_triggers (\<lambda>r. q_id r = i) (\<lambda>r. feedback_row (stored_feedback env cls feedback)
      (retry_row (db_now d) (q_attempts row + 1) backoff error r)) d)"
    using inv
    by (rule inv_upd_open)
      (use n a in \<open>auto simp: row_ok_def is_event_batch_def feedback_row_def retry_row_def unlock_row_def core_def members_def split: option.splits\<close>)
  with False show ?thesis by (simp add: failed_db_def Let_def)
qed

lemma inv_failed:
  assumes "queue_inv M d" and "wc_trigger_max_attempts cfg = M"
  shows "\<exists>d'. mark_trigger_failed env cfg i error force cls feedback d = (Inr (), d') \<and> queue_inv M d' \<and>
    uuid_next d \<le> uuid_next d' \<and> db_now d' = db_now d"
proof (cases "find (holds_lock cfg i) (trigger_queue d)")
  case None
  with assms show ?thesis by (simp add: failed_without_lock)
next
  case (Some row)
  from find_holds [OF this] have row: "row \<in> set (trigger_queue d)" "holds_lock cfg i row" by auto
  then have "0 \<le> q_attempts row" using assms by (auto simp: queue_inv_def row_ok_def holds_lock_def)
  then obtain b where "mark_trigger_failed env cfg i error force cls feedback d = (Inr (), failed_db env cfg i error force cls feedback row b d)"
    using failed_row [OF Some] by blast
  moreover have "uuid_next d \<le> uuid_next (failed_db env cfg i error force cls feedback row b d)"
    "db_now (failed_db env cfg i error force cls feedback row b d) = db_now d"
    by (auto simp: failed_db_def Let_def intro: order_trans [OF _ dead_letter_frame(2)] split: option.splits)
  ultimately show ?thesis using inv_failed_db [OF assms row] by blast
qed

end
