(* ===== verification/BatchFacts.thy ===== *)
theory BatchFacts
  imports WorkerFacts
begin

text \<open>
  The creation of batches keeps the invariant of the queue: the rows of a batch are adopted, the
  batch is new and locked by the worker. The loops over the groups are proved once, for a batcher
  that chooses its members among the rows it is given.
\<close>

section \<open>Creating batches\<close>

text \<open>The rows a batch is built from are in the queue, up to what the worker may have changed.\<close>

definition known :: "queue_db \<Rightarrow> trigger_row list \<Rightarrow> bool" where
  "known d rows \<longleftrightarrow> (\<forall>m \<in> set rows. \<exists>r \<in> set (trigger_queue d). core r = core m)"

lemma known_subset: "known d rows \<Longrightarrow> set ms \<subseteq> set rows \<Longrightarrow> known d ms"
  by (auto simp: known_def)

text \<open>The row after the statement that gives the rows \<open>I\<close> the parent \<open>p\<close>.\<close>

definition adopt :: "uuid set \<Rightarrow> uuid \<Rightarrow> trigger_row \<Rightarrow> trigger_row" where
  "adopt I p r = (if q_id r \<in> I \<and> is_open r \<and> q_batch_parent r = None then r\<lparr>q_batch_parent := Some p\<rparr> else r)"

lemma adopt_cases:
  obtains "adopt I p r = r" "q_id r \<notin> I \<or> \<not> is_open r \<or> q_batch_parent r \<noteq> None"
  | "q_id r \<in> I" "is_open r" "q_batch_parent r = None" "adopt I p r = r\<lparr>q_batch_parent := Some p\<rparr>"
  by (cases "q_id r \<in> I \<and> is_open r \<and> q_batch_parent r = None") (auto simp: adopt_def)

lemma adopt_core [simp]: "core (adopt I p r) = core r"
  by (simp add: adopt_def)

lemma adopt_open [simp]: "q_completed_at (adopt I p r) = q_completed_at r"
  by (simp add: adopt_def)

lemma adopt_id [simp]: "q_id (adopt I p r) = q_id r" "q_kind (adopt I p r) = q_kind r"
  by (simp_all add: adopt_def)

lemma adopt_members_eq: "trigger_queue (adopt_members p ms d) = map (adopt (q_id ` set ms) p) (trigger_queue d)"
  by (simp add: adopt_members_def upd_triggers_def adopt_def)

lemma adopt_members_frame [simp]:
  "uuid_next (adopt_members p ms d) = uuid_next d" "db_now (adopt_members p ms d) = db_now d"
  by (simp_all add: adopt_members_def)

text \<open>What \<open>create\<close> of both kinds of batches does, when the identifiers are in order.\<close>

definition inserts_batch :: "worker_config \<Rightarrow> trigger_row list \<Rightarrow> queue_db \<Rightarrow> trigger_row \<Rightarrow> queue_db \<Rightarrow> bool" where
  "inserts_batch cfg ms d b d' \<longleftrightarrow>
     trigger_queue d' = map (adopt (q_id ` set ms) (q_id b)) (trigger_queue d) @ [b] \<and>
     uuid_next d' = Suc (uuid_next d) \<and> db_now d' = db_now d \<and> q_id b = uuid_next d \<and> is_open b \<and>
     q_batch_parent b = None \<and> q_attempts b = 0 \<and> q_scheduled_for b = Some (db_now d) \<and>
     q_locked_by b = Some (wc_worker_id cfg) \<and> q_locked_at b = Some (db_now d) \<and> set (members b) = q_id ` set ms"

lemma members_member_fields [simp]:
  "set (batch_members (member_fields i ms @ rest)) = q_id ` set ms"
  by (simp add: batch_members_def payload_uuid_list_def jget_def dict_get_or_def dict_get_def member_fields_def
      uuid_items_def image_image) auto

lemma members_t1_payload: "set (batch_members (build_t1_batch_payload tx cfg i ms obs d)) = q_id ` set ms"
  by (simp add: build_t1_batch_payload_def Let_def)

lemma members_downstream_payload: "set (batch_members (build_downstream_batch_payload tx cfg i k sk ms d)) = q_id ` set ms"
  by (simp add: build_downstream_batch_payload_def build_t2_batch_payload_def build_t4_latent_batch_payload_def Let_def)

lemma known_old_ids: "queue_wf d \<Longrightarrow> known d ms \<Longrightarrow> uuid_next d \<notin> q_id ` set ms"
  by (force simp: queue_wf_def known_def dest: core_eqD)

lemma adopt_new: "q_id b \<notin> I \<Longrightarrow> adopt I p b = b"
  by (simp add: adopt_def)

lemma insert_t1_effect:
  assumes "queue_wf d" and "known d ms"
  shows "\<exists>b d'. insert_t1_batch_row tx cfg t ms d = (Inr (leased_of b), d') \<and> inserts_batch cfg ms d b d' \<and>
    is_event_batch b \<and> q_tenant b = t"
proof -
  have "uuid_next d \<notin> q_id ` set (trigger_queue d)" using assms(1) by (auto simp: queue_wf_def)
  moreover note known_old_ids [OF assms] members_t1_payload
  ultimately show ?thesis
    by (simp add: insert_t1_batch_row_def take_uuid_def enqueue_trigger_def Let_def bind_tx_def modify_tx_def return_tx_def
        adopt_members_eq adopt_new inserts_batch_def leased_of_def members_def is_event_batch_def)
qed

lemma insert_downstream_effect:
  assumes "queue_wf d" and "known d ms"
  shows "\<exists>b d'. insert_downstream_batch_row tx cfg t k sk ms d = (Inr (leased_of b), d') \<and> inserts_batch cfg ms d b d' \<and>
    q_kind b = k \<and> q_subkind b = sk \<and> q_tenant b = t"
proof -
  have "uuid_next d \<notin> q_id ` set (trigger_queue d)" using assms(1) by (auto simp: queue_wf_def)
  moreover note known_old_ids [OF assms] members_downstream_payload
  ultimately show ?thesis
    by (simp add: insert_downstream_batch_row_def take_uuid_def enqueue_trigger_def Let_def bind_tx_def modify_tx_def return_tx_def
        adopt_members_eq adopt_new inserts_batch_def leased_of_def members_def)
qed

text \<open>
  A batch belongs to the tenant of its members; a batch of T1 rows is an event batch, and only
  event arrivals go into it.
\<close>

definition fits :: "trigger_row \<Rightarrow> trigger_row \<Rightarrow> bool" where
  "fits b m \<longleftrightarrow> q_tenant b = q_tenant m \<and> (is_event_arrival m \<and> is_event_batch b \<or> q_kind m \<noteq> ''T1'')"

lemma fits_core: "core r = core m \<Longrightarrow> fits b m \<Longrightarrow> \<not> is_event_batch r"
  by (auto simp: fits_def core_def is_event_arrival_def is_event_batch_def)

lemma inv_inserts:
  assumes inv: "queue_inv M d" and M: "1 \<le> M" and known: "known d ms" and ins: "inserts_batch cfg ms d b d'"
    and fits: "\<forall>m \<in> set ms. fits b m"
  shows "queue_inv M d'"
proof -
  let ?g = "adopt (q_id ` set ms) (q_id b)"
  have queue: "trigger_queue d' = map ?g (trigger_queue d) @ [b]" and b: "q_id b = uuid_next d" "is_open b"
      "q_batch_parent b = None" "set (members b) = q_id ` set ms" "uuid_next d' = Suc (uuid_next d)" "row_ok M b"
    using ins M by (auto simp: inserts_batch_def row_ok_def)
  have wf: "queue_wf d" using inv by (simp add: queue_inv_def)
  have set': "set (trigger_queue d') = insert b (?g ` set (trigger_queue d))" by (simp add: queue)
  have adopted: "\<exists>m \<in> set ms. core r = core m" if r: "r \<in> set (trigger_queue d)" and i: "q_id r \<in> q_id ` set ms" for r
  proof -
    from i obtain m where m: "m \<in> set ms" "q_id m = q_id r" by auto
    with known obtain r' where "r' \<in> set (trigger_queue d)" "core r' = core m" by (auto simp: known_def)
    with wf_unique [OF wf _ r] m core_eqD [of r' m] show ?thesis by metis
  qed
  then have no_batch: "\<not> is_event_batch r" if "r \<in> set (trigger_queue d)" "q_id r \<in> q_id ` set ms" for r
    using that fits fits_core by blast
  have ids: "map q_id (trigger_queue d') = map q_id (trigger_queue d) @ [uuid_next d]"
    unfolding queue by (simp add: b(1))
  have "distinct (map q_id (trigger_queue d'))" unfolding ids using wf by (auto simp: queue_wf_def)
  moreover have "\<forall>i \<in> set (map q_id (trigger_queue d')). i < uuid_next d'"
    unfolding ids using wf b(5) by (auto simp: queue_wf_def less_Suc_eq)
  ultimately have wf': "queue_wf d'" by (simp add: queue_wf_def)
  have "row_ok M (?g r)" if "r \<in> set (trigger_queue d)" for r
  proof -
    have "row_ok M r" using inv that by (simp add: queue_inv_def)
    with no_batch [OF that] show ?thesis
      by (cases rule: adopt_cases [of "q_id ` set ms" "q_id b" r]) (auto simp: row_ok_def is_event_batch_def)
  qed
  with b(6) have rows: "\<forall>r \<in> set (trigger_queue d'). row_ok M r" by (simp add: set')
  have "\<exists>q \<in> set (trigger_queue d'). batch_of q (?g r)"
    if r: "r \<in> set (trigger_queue d)" and h: "is_open r" "q_kind r = ''T1''" "q_batch_parent (?g r) \<noteq> None" for r
  proof (cases rule: adopt_cases [of "q_id ` set ms" "q_id b" r])
    case 1
    with h r inv obtain q where q: "q \<in> set (trigger_queue d)" "batch_of q r"
      by (auto simp: queue_inv_def none_hidden_def)
    then have "?g q = q" using no_batch by (auto simp: batch_of_def adopt_def)
    with q have "q \<in> set (trigger_queue d')" unfolding set' by (metis image_eqI insertI2)
    with q 1 show ?thesis by auto
  next
    case 2
    with adopted [OF r] obtain m where m: "m \<in> set ms" "core r = core m" by blast
    with fits h have "is_event_batch b" using core_eqD [OF m(2)] by (auto simp: fits_def)
    moreover have "q_tenant b = q_tenant (?g r)"
      using fits m core_eqD [OF m(2)] core_eqD [OF adopt_core, of "q_id ` set ms" "q_id b" r] by (auto simp: fits_def)
    ultimately have "batch_of b (?g r)" using b 2 by (simp add: batch_of_def)
    then show ?thesis by (auto simp: set')
  qed
  with b(3) have "none_hidden d'" by (auto simp: none_hidden_def set')
  with wf' rows show ?thesis by (simp add: queue_inv_def)
qed

text \<open>
  The queue while batches are created from \<open>rows\<close> of \<open>d0\<close>: the old rows, some of them adopted,
  and then the batches, locked by this worker now.
\<close>

definition fresh_batch :: "worker_config \<Rightarrow> queue_db \<Rightarrow> trigger_row \<Rightarrow> bool" where
  "fresh_batch cfg d0 b \<longleftrightarrow> uuid_next d0 \<le> q_id b \<and> is_open b \<and> q_batch_parent b = None \<and> q_attempts b = 0 \<and>
     q_locked_by b = Some (wc_worker_id cfg) \<and> q_locked_at b = Some (db_now d0)"

definition adoption :: "trigger_row list \<Rightarrow> trigger_row \<Rightarrow> trigger_row \<Rightarrow> bool" where
  "adoption rows r r' \<longleftrightarrow> r' = r \<or> q_id r \<in> q_id ` set rows \<and> is_open r \<and> q_batch_parent r = None \<and>
     (\<exists>p. r' = r\<lparr>q_batch_parent := Some p\<rparr>)"

definition batching :: "int \<Rightarrow> worker_config \<Rightarrow> trigger_row list \<Rightarrow> queue_db \<Rightarrow> leased list \<Rightarrow> queue_db \<Rightarrow> bool" where
  "batching M cfg rows d0 ls d \<longleftrightarrow> queue_inv M d \<and> db_now d = db_now d0 \<and> uuid_next d0 \<le> uuid_next d \<and>
     (\<exists>g bs. trigger_queue d = map g (trigger_queue d0) @ bs \<and> ls = map leased_of bs \<and>
        (\<forall>r \<in> set (trigger_queue d0). adoption rows r (g r)) \<and> (\<forall>b \<in> set bs. fresh_batch cfg d0 b))"

lemma adoption_core: "adoption rows r r' \<Longrightarrow> core r' = core r"
  by (auto simp: adoption_def)

lemma adoption_adopt:
  assumes "adoption rows r s" and "I \<subseteq> q_id ` set rows"
  shows "adoption rows r (adopt I p s)"
  using assms(1) unfolding adoption_def
proof (elim disjE conjE exE)
  assume "s = r"
  with assms(2) show "adopt I p s = r \<or> q_id r \<in> q_id ` set rows \<and> is_open r \<and> q_batch_parent r = None \<and>
      (\<exists>p'. adopt I p s = r\<lparr>q_batch_parent := Some p'\<rparr>)"
    by (cases rule: adopt_cases [of I p r]) auto
next
  fix p'
  assume "s = r\<lparr>q_batch_parent := Some p'\<rparr>" "q_id r \<in> q_id ` set rows" "is_open r" "q_batch_parent r = None"
  moreover have "adopt I p (r\<lparr>q_batch_parent := Some p'\<rparr>) = r\<lparr>q_batch_parent := Some p'\<rparr>" by (simp add: adopt_def)
  ultimately show "adopt I p s = r \<or> q_id r \<in> q_id ` set rows \<and> is_open r \<and> q_batch_parent r = None \<and>
      (\<exists>p'. adopt I p s = r\<lparr>q_batch_parent := Some p'\<rparr>)"
    by blast
qed

lemma batching_start: "queue_inv M d \<Longrightarrow> batching M cfg rows d [] d"
  unfolding batching_def by (auto simp: adoption_def intro!: exI [of _ "\<lambda>r. r"])

lemma batching_known:
  assumes "batching M cfg rows d0 ls d" and "set rows \<subseteq> set (trigger_queue d0)"
  shows "known d rows"
proof -
  from assms(1) obtain g bs where g: "trigger_queue d = map g (trigger_queue d0) @ bs"
      "\<forall>r \<in> set (trigger_queue d0). adoption rows r (g r)"
    unfolding batching_def by blast
  have "\<exists>r' \<in> set (trigger_queue d). core r' = core r" if "r \<in> set rows" for r
    using that assms(2) g adoption_core [of rows r "g r"] by (intro bexI [of _ "g r"]) auto
  then show ?thesis by (simp add: known_def)
qed

lemma batching_step:
  assumes J: "batching M cfg rows d0 ls d" and rows: "set rows \<subseteq> set (trigger_queue d0)" "queue_wf d0"
    and ms: "set ms \<subseteq> set rows" and M: "1 \<le> M" and ins: "inserts_batch cfg ms d b d'" and fits: "\<forall>m \<in> set ms. fits b m"
  shows "batching M cfg rows d0 (ls @ [leased_of b]) d'"
proof -
  let ?a = "adopt (q_id ` set ms) (q_id b)"
  from J obtain g bs where g: "trigger_queue d = map g (trigger_queue d0) @ bs" "ls = map leased_of bs"
      "\<forall>r \<in> set (trigger_queue d0). adoption rows r (g r)" "\<forall>b \<in> set bs. fresh_batch cfg d0 b"
    and d: "queue_inv M d" "db_now d = db_now d0" "uuid_next d0 \<le> uuid_next d"
    unfolding batching_def by blast
  have "queue_inv M d'"
    using inv_inserts [OF d(1) M known_subset [OF batching_known [OF J rows(1)] ms] ins fits] .
  moreover have "map ?a bs = bs"
  proof (rule map_idI)
    fix c
    assume "c \<in> set bs"
    with g(4) have "uuid_next d0 \<le> q_id c" by (simp add: fresh_batch_def)
    moreover have "q_id m < uuid_next d0" if "m \<in> set ms" for m
      using that ms rows by (auto simp: queue_wf_def)
    ultimately have "q_id c \<notin> q_id ` set ms" by force
    then show "?a c = c" by (rule adopt_new)
  qed
  then have "trigger_queue d' = map (?a \<circ> g) (trigger_queue d0) @ (bs @ [b])"
    using ins by (simp add: inserts_batch_def g(1))
  moreover have "q_id ` set ms \<subseteq> q_id ` set rows" using ms by blast
  with g(3) have "adoption rows r (?a (g r))" if "r \<in> set (trigger_queue d0)" for r
    using that by (blast intro: adoption_adopt)
  then have "\<forall>r \<in> set (trigger_queue d0). adoption rows r ((?a \<circ> g) r)" by simp
  moreover have "fresh_batch cfg d0 b" using ins d by (auto simp: inserts_batch_def fresh_batch_def)
  moreover have "db_now d' = db_now d0" "uuid_next d0 \<le> uuid_next d'" using ins d by (auto simp: inserts_batch_def)
  moreover have "ls @ [leased_of b] = map leased_of (bs @ [b])" by (simp add: g(2))
  moreover have "\<forall>c \<in> set (bs @ [b]). fresh_batch cfg d0 c" using g(4) \<open>fresh_batch cfg d0 b\<close> by simp
  ultimately show ?thesis unfolding batching_def by blast
qed

section \<open>The loops over groups\<close>

lemma group_rows_subset: "g \<in> set (group_rows key rows) \<Longrightarrow> set (snd g) \<subseteq> set rows"
  by (auto simp: group_rows_def)

lemma group_rows_key: "g \<in> set (group_rows key rows) \<Longrightarrow> r \<in> set (snd g) \<Longrightarrow> key r = fst g"
  by (auto simp: group_rows_def)

lemma batch_pass_grows:
  "batch_pass B skip slots groups acc d = (Inr acc', d') \<Longrightarrow> length (fst acc) \<le> length (fst acc')"
proof (induction B skip slots groups acc arbitrary: d rule: batch_pass.induct)
  case (2 B skip slots k rows groups acc)
  let ?rows = "if skip then filter (\<lambda>r. q_id r \<notin> set (snd acc)) rows else rows"
  show ?case
  proof (cases "slots \<le> length (fst acc)")
    case True
    with 2(3) show ?thesis by (simp add: return_tx_def)
  next
    case full: False
    show ?thesis
    proof (cases "fst B k ?rows")
      case None
      with full 2(3) 2(1) [OF full None] show ?thesis by simp
    next
      case (Some ms)
      with full 2(3) obtain row d1 where "snd B k ms d = (Inr row, d1)"
          "batch_pass B skip slots groups (fst acc @ [row], snd acc @ map q_id ms) d1 = (Inr acc', d')"
        by (auto simp: bind_tx_def split: prod.splits sum.splits)
      with 2(2) [OF full Some] show ?thesis by fastforce
    qed
  qed
qed (simp add: return_tx_def)

text \<open>Fuel for as many passes as there are free slots is enough: more of it changes nothing.\<close>

lemma batch_loop_fuel:
  "slots - length (fst acc) \<le> n \<Longrightarrow> batch_loop (n + k) B slots groups acc d = batch_loop n B slots groups acc d"
proof (induction n arbitrary: acc d)
  case 0
  then show ?case by (cases k) simp_all
next
  case (Suc n)
  have "batch_loop (n + k) B slots groups acc' d' = batch_loop n B slots groups acc' d'"
    if "batch_pass B True slots groups acc d = (Inr acc', d')" "length (fst acc') \<noteq> length (fst acc)" for acc' d'
    using Suc.IH [of acc' d'] Suc.prems batch_pass_grows [OF that(1)] that(2) by linarith
  then show ?case by (auto simp: bind_tx_def split: prod.splits sum.splits)
qed

text \<open>
  A batcher chooses members among the rows it is given, and what it creates from rows that are
  \<open>ok\<close> for the key of their group is one new batch of them.
\<close>

locale batcher_laws =
  fixes B :: "'k batcher" and cfg :: worker_config and ok :: "'k \<Rightarrow> trigger_row \<Rightarrow> bool"
  assumes picks: "fst B k rows = Some ms \<Longrightarrow> set ms \<subseteq> set rows"
    and creates: "\<lbrakk>fst B k rows = Some ms; \<forall>m \<in> set ms. ok k m; queue_wf d; known d ms\<rbrakk> \<Longrightarrow>
      \<exists>b d'. snd B k ms d = (Inr (leased_of b), d') \<and> inserts_batch cfg ms d b d' \<and> (\<forall>m \<in> set ms. fits b m)"
begin

text \<open>The setting of both loops: the groups hold rows of the queue \<open>d0\<close> that are \<open>ok\<close> for their key.\<close>

definition grouped :: "queue_db \<Rightarrow> trigger_row list \<Rightarrow> ('k \<times> trigger_row list) list \<Rightarrow> bool" where
  "grouped d0 rows groups \<longleftrightarrow> queue_wf d0 \<and> set rows \<subseteq> set (trigger_queue d0) \<and>
     (\<forall>g \<in> set groups. set (snd g) \<subseteq> set rows \<and> (\<forall>r \<in> set (snd g). ok (fst g) r))"

lemma grouped_rows:
  assumes "queue_wf d0" and "set rows \<subseteq> set (trigger_queue d0)" and "\<forall>r \<in> set rows. ok (key r) r" and "set rs \<subseteq> set rows"
  shows "grouped d0 rows (group_rows key rs)"
proof -
  have "set (snd g) \<subseteq> set rows \<and> (\<forall>r \<in> set (snd g). ok (fst g) r)" if "g \<in> set (group_rows key rs)" for g
    using group_rows_subset [OF that] group_rows_key [OF that] assms(3,4) by fastforce
  with assms show ?thesis by (simp add: grouped_def)
qed

lemma pass_batching:
  assumes "grouped d0 rows groups" and "1 \<le> M" and "batching M cfg rows d0 (fst acc) d"
  shows "\<exists>acc' d'. batch_pass B skip slots groups acc d = (Inr acc', d') \<and> batching M cfg rows d0 (fst acc') d'"
  using assms
proof (induction groups arbitrary: acc d)
  case Nil
  then show ?case by (simp add: return_tx_def)
next
  case (Cons g groups)
  obtain k gr where g: "g = (k, gr)" by (cases g)
  let ?gr = "if skip then filter (\<lambda>r. q_id r \<notin> set (snd acc)) gr else gr"
  have gs: "grouped d0 rows groups" and sub: "set ?gr \<subseteq> set rows" "\<forall>r \<in> set ?gr. ok k r"
    using Cons.prems(1) by (auto simp: grouped_def g)
  show ?case
  proof (cases "slots \<le> length (fst acc)")
    case True
    with Cons.prems(3) show ?thesis by (simp add: g return_tx_def)
  next
    case full: False
    show ?thesis
    proof (cases "fst B k ?gr")
      case None
      with full Cons.IH [OF gs Cons.prems(2,3)] show ?thesis by (simp add: g)
    next
      case (Some ms)
      have ms: "set ms \<subseteq> set rows" using picks [OF Some] sub(1) by blast
      have d0: "set rows \<subseteq> set (trigger_queue d0)" "queue_wf d0" "\<forall>m \<in> set ms. ok k m"
        using Cons.prems(1) picks [OF Some] sub(2) by (auto simp: grouped_def)
      have "queue_wf d" using Cons.prems(3) by (simp add: batching_def queue_inv_def)
      from creates [OF Some d0(3) this known_subset [OF batching_known [OF Cons.prems(3) d0(1)] ms]]
      obtain b d1 where b: "snd B k ms d = (Inr (leased_of b), d1)" "inserts_batch cfg ms d b d1" "\<forall>m \<in> set ms. fits b m"
        by blast
      from batching_step [OF Cons.prems(3) d0(1,2) ms Cons.prems(2) b(2,3)]
      have "batching M cfg rows d0 (fst (fst acc @ [leased_of b], snd acc @ map q_id ms)) d1" by simp
      from Cons.IH [OF gs Cons.prems(2) this] full Some b(1) show ?thesis by (simp add: g bind_tx_def)
    qed
  qed
qed

lemma loop_batching:
  assumes "grouped d0 rows groups" and "1 \<le> M" and "batching M cfg rows d0 (fst acc) d"
  shows "\<exists>acc' d'. batch_loop n B slots groups acc d = (Inr acc', d') \<and> batching M cfg rows d0 (fst acc') d'"
  using assms(3)
proof (induction n arbitrary: acc d)
  case (Suc n)
  obtain acc1 d1 where pass: "batch_pass B True slots groups acc d = (Inr acc1, d1)" "batching M cfg rows d0 (fst acc1) d1"
    using pass_batching [OF assms(1,2) Suc.prems] by blast
  from Suc.IH [OF pass(2)] obtain acc2 d2 where
    loop: "batch_loop n B slots groups acc1 d1 = (Inr acc2, d2)" "batching M cfg rows d0 (fst acc2) d2"
    by blast
  consider "slots \<le> length (fst acc)" | "\<not> slots \<le> length (fst acc)" "length (fst acc1) = length (fst acc)"
    | "\<not> slots \<le> length (fst acc)" "length (fst acc1) \<noteq> length (fst acc)" by blast
  then show ?case
  proof cases
    case 1
    with Suc.prems show ?thesis by (intro exI) (simp add: return_tx_def)
  next
    case 2
    with pass show ?thesis by (intro exI) (simp add: bind_tx_def return_tx_def)
  next
    case 3
    with pass loop show ?thesis by (intro exI) (simp add: bind_tx_def)
  qed
qed (simp add: return_tx_def)

end

text \<open>
  Both loops together: the lane batcher first, then the fallback over the rows that are left. The
  batches that come out are the rows they were inserted as.
\<close>

locale batch_creation = lane: batcher_laws B cfg ok + fallback: batcher_laws F cfg ok'
  for B :: "'k batcher" and F :: "'j batcher" and cfg :: worker_config
    and ok :: "'k \<Rightarrow> trigger_row \<Rightarrow> bool" and ok' :: "'j \<Rightarrow> trigger_row \<Rightarrow> bool"
begin

lemma creates_batches:
  assumes "queue_inv M d" and "1 \<le> M" and "set rows \<subseteq> set (trigger_queue d)" 
    and "\<forall>r \<in> set rows. ok (lane_key r) r" and "\<forall>r \<in> set rows. ok' (fallback_key r) r"
  shows "\<exists>ls d'. create_batches B F lane_key fallback_key slots rows d = (Inr ls, d') \<and> batching M cfg rows d ls d'"
proof -
  have wf: "queue_wf d" using assms(1) by (simp add: queue_inv_def)
  have "lane.grouped d rows (group_rows lane_key rows)"
    using lane.grouped_rows [OF wf assms(3,4)] by blast
  moreover have "batching M cfg rows d (fst ([], [])) d" using batching_start [OF assms(1)] by simp
  ultimately obtain acc d1 where loop: "batch_loop slots B slots (group_rows lane_key rows) ([], []) d = (Inr acc, d1)"
      "batching M cfg rows d (fst acc) d1"
    using lane.loop_batching assms(2) by blast
  obtain ls used where acc: "acc = (ls, used)" by (cases acc)
  let ?groups = "group_rows fallback_key (filter (\<lambda>r. q_id r \<notin> set used) rows)"
  have "fallback.grouped d rows ?groups"
    by (rule fallback.grouped_rows [OF wf assms(3,5)]) auto
  from fallback.pass_batching [OF this assms(2) loop(2)]
  obtain acc' d2 where pass: "batch_pass F False slots ?groups acc d1 = (Inr acc', d2)" "batching M cfg rows d (fst acc') d2"
    by blast
  obtain ls' used' where acc': "acc' = (ls', used')" by (cases acc')
  show ?thesis
  proof (cases "slots \<le> length ls")
    case True
    with loop acc have "create_batches B F lane_key fallback_key slots rows d = (Inr ls, d1)"
      by (simp add: create_batches_def bind_tx_def return_tx_def)
    with loop acc show ?thesis by auto
  next
    case False
    with loop pass acc acc' have "create_batches B F lane_key fallback_key slots rows d = (Inr ls', d2)"
      by (simp add: create_batches_def bind_tx_def return_tx_def)
    with pass acc' show ?thesis by auto
  qed
qed

end

section \<open>The batchers of the worker\<close>

lemma ready_members:
  assumes "ready_batch_members rows mx mn w now allow fb = Some ms"
  shows "\<exists>P. ms = take (nat mx) (filter P (sort_key q_enqueued_at rows)) \<and> mn \<le> int (length ms)"
proof (cases "sort_key q_enqueued_at rows")
  case Nil
  with assms show ?thesis by (simp add: ready_batch_members_def)
next
  case (Cons o' ys)
  define P :: "trigger_row \<Rightarrow> bool" where "P r \<longleftrightarrow> seconds_between (q_enqueued_at r) (q_enqueued_at o') \<le> w" for r
  define elapsed where "elapsed \<longleftrightarrow> w \<le> seconds_between now (q_enqueued_at o')"
  have run: "ready_batch_members rows mx mn w now allow fb =
      (let ms = take (nat mx) (if fb then o' # ys else filter P (o' # ys)) in
       if fb \<and> \<not> elapsed \<or> \<not> fb \<and> \<not> elapsed \<and> \<not> (allow \<and> mx \<le> int (length (filter P (o' # ys)))) \<or>
         int (length ms) < mn then None else Some ms)"
    unfolding ready_batch_members_def Cons Let_def list.case P_def [symmetric] elapsed_def [symmetric] by argo
  then have "ms = take (nat mx) (if fb then o' # ys else filter P (o' # ys)) \<and> mn \<le> int (length ms)"
    using assms unfolding Let_def by (metis (mono_tags) linorder_not_less option.distinct(1) option.inject)
  moreover have "filter (\<lambda>r. True) (o' # ys) = o' # ys" by simp
  ultimately show ?thesis unfolding Cons by (cases fb) metis+
qed

lemma ready_subset:
  "ready_batch_members rows mx mn w now allow fb = Some ms \<Longrightarrow> set ms \<subseteq> set rows"
  using ready_members by (fastforce dest: in_set_takeD)

lemma ready_bounds:
  "ready_batch_members rows mx mn w now allow fb = Some ms \<Longrightarrow> mn \<le> int (length ms) \<and> length ms \<le> nat mx"
  using ready_members by fastforce

definition t1_ok :: "uuid \<Rightarrow> trigger_row \<Rightarrow> bool" where
  "t1_ok tenant_id r \<longleftrightarrow> is_event_arrival r \<and> q_tenant r = tenant_id"

lemma arrivals_fit: "t1_ok t m \<Longrightarrow> is_event_batch b \<Longrightarrow> q_tenant b = t \<Longrightarrow> fits b m"
  by (simp add: fits_def t1_ok_def)

interpretation t1_lane: batcher_laws "t1_lane_batcher tx cfg now" cfg "t1_ok \<circ> fst" for tx cfg now
proof unfold_locales
  fix k rows ms
  assume "fst (t1_lane_batcher tx cfg now) k rows = Some ms"
  then show "set ms \<subseteq> set rows"
    by (auto simp: t1_lane_batcher_def dest!: ready_subset split: prod.splits if_splits)
next
  fix k :: "uuid \<times> string option" and rows ms d
  assume ms: "\<forall>m \<in> set ms. (t1_ok \<circ> fst) k m" and d: "queue_wf d" "known d ms"
  obtain t lane where k: "k = (t, lane)" by (cases k)
  from insert_t1_effect [OF d] ms arrivals_fit
  show "\<exists>b d'. snd (t1_lane_batcher tx cfg now) k ms d = (Inr (leased_of b), d') \<and> inserts_batch cfg ms d b d' \<and>
      (\<forall>m \<in> set ms. fits b m)"
    unfolding t1_lane_batcher_def k snd_conv prod.case comp_def fst_conv by meson
qed

interpretation t1_fallback: batcher_laws "t1_fallback_batcher tx cfg now" cfg t1_ok for tx cfg now
proof unfold_locales
  fix k rows ms
  assume "fst (t1_fallback_batcher tx cfg now) k rows = Some ms"
  then show "set ms \<subseteq> set rows" by (auto simp: t1_fallback_batcher_def dest!: ready_subset)
next
  fix k rows ms d
  assume ms: "\<forall>m \<in> set ms. t1_ok k m" and d: "queue_wf d" "known d ms"
  from insert_t1_effect [OF d] ms arrivals_fit
  show "\<exists>b d'. snd (t1_fallback_batcher tx cfg now) k ms d = (Inr (leased_of b), d') \<and> inserts_batch cfg ms d b d' \<and>
      (\<forall>m \<in> set ms. fits b m)"
    unfolding t1_fallback_batcher_def snd_conv by meson
qed

definition down_ok :: "uuid \<Rightarrow> trigger_row \<Rightarrow> bool" where
  "down_ok tenant_id r \<longleftrightarrow> q_kind r \<noteq> ''T1'' \<and> q_tenant r = tenant_id"

lemma pick_downstream_subset: "pick_downstream cfg now allow fb kind subkind rows = Some ms \<Longrightarrow> set ms \<subseteq> set rows"
  by (auto simp: pick_downstream_def Let_def dest!: ready_subset split: if_splits)

lemma downstream_fits: "down_ok t m \<Longrightarrow> q_tenant b = t \<Longrightarrow> fits b m"
  by (simp add: fits_def down_ok_def)

interpretation down_lane: batcher_laws "down_lane_batcher tx cfg now" cfg "down_ok \<circ> fst" for tx cfg now
proof unfold_locales
  fix k rows ms
  assume "fst (down_lane_batcher tx cfg now) k rows = Some ms"
  then show "set ms \<subseteq> set rows"
    by (auto simp: down_lane_batcher_def dest!: pick_downstream_subset split: prod.splits)
next
  fix k :: "uuid \<times> string \<times> string option \<times> string option" and rows ms d
  assume ms: "\<forall>m \<in> set ms. (down_ok \<circ> fst) k m" and d: "queue_wf d" "known d ms"
  obtain t kind subkind lane where k: "k = (t, kind, subkind, lane)" by (cases k)
  from insert_downstream_effect [OF d] ms downstream_fits
  show "\<exists>b d'. snd (down_lane_batcher tx cfg now) k ms d = (Inr (leased_of b), d') \<and> inserts_batch cfg ms d b d' \<and>
      (\<forall>m \<in> set ms. fits b m)"
    unfolding down_lane_batcher_def k snd_conv prod.case comp_def fst_conv by meson
qed

interpretation down_fallback: batcher_laws "down_fallback_batcher tx cfg now" cfg "down_ok \<circ> fst" for tx cfg now
proof unfold_locales
  fix k rows ms
  assume "fst (down_fallback_batcher tx cfg now) k rows = Some ms"
  then show "set ms \<subseteq> set rows"
    by (auto simp: down_fallback_batcher_def dest!: pick_downstream_subset split: prod.splits)
next
  fix k :: "uuid \<times> string \<times> string option" and rows ms d
  assume ms: "\<forall>m \<in> set ms. (down_ok \<circ> fst) k m" and d: "queue_wf d" "known d ms"
  obtain t kind subkind where k: "k = (t, kind, subkind)" by (cases k)
  from insert_downstream_effect [OF d] ms downstream_fits
  show "\<exists>b d'. snd (down_fallback_batcher tx cfg now) k ms d = (Inr (leased_of b), d') \<and> inserts_batch cfg ms d b d' \<and>
      (\<forall>m \<in> set ms. fits b m)"
    unfolding down_fallback_batcher_def k snd_conv prod.case comp_def fst_conv by meson
qed

interpretation t1: batch_creation "t1_lane_batcher tx cfg now" "t1_fallback_batcher tx cfg now" cfg
  "t1_ok \<circ> fst" t1_ok for tx cfg now
  by unfold_locales

interpretation down: batch_creation "down_lane_batcher tx cfg now" "down_fallback_batcher tx cfg now" cfg
  "down_ok \<circ> fst" "down_ok \<circ> fst" for tx cfg now
  by unfold_locales

text \<open>
  Either pass leaves the queue in order, from candidates that are open rows of it without a batch.
\<close>

lemma candidate_set:
  "r \<in> set (take n (sort_key f (filter P (trigger_queue d)))) \<Longrightarrow> r \<in> set (trigger_queue d) \<and> P r"
  by (auto dest!: in_set_takeD)

lemma t1_batches:
  assumes "queue_inv M d" and "1 \<le> M"
  shows "\<exists>ls d' rows. create_t1_batch_rows tx cfg busy n d = (Inr ls, d') \<and> batching M cfg rows d ls d' \<and>
    (\<forall>r \<in> set rows. r \<in> set (trigger_queue d) \<and> leasable cfg (db_now d) r)"
proof (cases "\<not> t1_batching_enabled cfg \<or> n \<le> 0")
  case True
  with batching_start [OF assms(1), of cfg "[]"] show ?thesis
    unfolding create_t1_batch_rows_def by (intro exI [of _ "[]"] exI [of _ d]) simp
next
  case False
  let ?rows = "t1_candidates cfg busy n d"
  have rows: "\<forall>r \<in> set ?rows. r \<in> set (trigger_queue d) \<and> t1_candidate cfg (db_now d) r"
    unfolding t1_candidates_def using candidate_set by blast
  then have "set ?rows \<subseteq> set (trigger_queue d)"
      "\<forall>r \<in> set ?rows. (t1_ok \<circ> fst) (q_tenant r, t1_event_lane tx d r) r" "\<forall>r \<in> set ?rows. t1_ok (q_tenant r) r"
    by (auto simp: t1_candidate_def t1_ok_def)
  from t1.creates_batches [OF assms this] rows False show ?thesis
    unfolding create_t1_batch_rows_def by (simp add: t1_candidate_def) blast
qed

lemma downstream_batches:
  assumes "queue_inv M d" and "1 \<le> M"
  shows "\<exists>ls d' rows. create_downstream_batch_rows tx cfg busy n d = (Inr ls, d') \<and> batching M cfg rows d ls d' \<and>
    (\<forall>r \<in> set rows. r \<in> set (trigger_queue d) \<and> leasable cfg (db_now d) r)"
proof (cases "\<not> downstream_batching_enabled cfg \<or> n \<le> 0 \<or> largest_batch cfg < wc_down_min_size cfg")
  case True
  then have "create_downstream_batch_rows tx cfg busy n d = (Inr [], d)" by (auto simp: create_downstream_batch_rows_def)
  with batching_start [OF assms(1), of cfg "[]"] show ?thesis by (intro exI [of _ "[]"] exI [of _ d]) simp
next
  case False
  let ?rows = "downstream_candidates cfg busy n d"
  have rows: "\<forall>r \<in> set ?rows. r \<in> set (trigger_queue d) \<and> downstream_candidate cfg (db_now d) r"
    unfolding downstream_candidates_def using candidate_set by blast
  then have "set ?rows \<subseteq> set (trigger_queue d)"
      "\<forall>r \<in> set ?rows. (down_ok \<circ> fst) (q_tenant r, q_kind r, q_subkind r, downstream_lane tx d r) r"
      "\<forall>r \<in> set ?rows. (down_ok \<circ> fst) (q_tenant r, q_kind r, q_subkind r) r"
    by (auto simp: downstream_candidate_def is_belief_update_def is_latent_def down_ok_def)
  from down.creates_batches [OF assms this] rows False show ?thesis
    unfolding create_downstream_batch_rows_def by (simp add: downstream_candidate_def) blast
qed

end
