(* ===== verification/PollFacts.thy ===== *)
theory PollFacts
  imports BatchFacts
begin

text \<open>
  A poll keeps the invariant of the queue, fails only when the aggregation of candidates raises
  (and then changes nothing), and leases each row once: what it returns
  is open, belongs to no batch, was free for a lease or is a batch created by this poll, and is
  locked by the worker afterwards.
\<close>

section \<open>Pruning\<close>

text \<open>
  The aggregation of edge-type candidates writes proposals and candidates
  (\<open>services/reasoning/relationships/ontology_proposals.py\<close>); it may draw identifiers.
\<close>

definition keeps_queue :: "(uuid \<Rightarrow> (queue_db, unit) tx) \<Rightarrow> bool" where
  "keeps_queue aggregate \<longleftrightarrow> (\<forall>t d d'. aggregate t d = (Inr (), d') \<longrightarrow> trigger_queue d' = trigger_queue d \<and>
     uuid_next d \<le> uuid_next d' \<and> db_now d' = db_now d)"

lemma keeps_queue_id: "keeps_queue (\<lambda>t. return_tx ())"
  by (simp add: keeps_queue_def return_tx_def)

text \<open>A row after the pruning: untouched, or completed without having been in a batch.\<close>

definition pruning :: "worker_config \<Rightarrow> trigger_row \<Rightarrow> trigger_row \<Rightarrow> bool" where
  "pruning cfg r r' \<longleftrightarrow> r' = r \<or> is_open r \<and> q_batch_parent r = None \<and> in_filter cfg (q_tenant r) \<and>
     (is_belief_update r \<or> is_latent r) \<and> core r' = core r \<and> \<not> is_open r' \<and> q_locked_by r' = None \<and>
     q_batch_parent r' = None \<and> q_scheduled_for r' = q_scheduled_for r \<and> q_attempts r' = q_attempts r"

lemma pruning_refl [simp]: "pruning cfg r r"
  by (simp add: pruning_def)

lemma pruning_trans: "pruning cfg r s \<Longrightarrow> pruning cfg s t \<Longrightarrow> pruning cfg r t"
  by (auto simp: pruning_def)

lemma pruning_core: "pruning cfg r s \<Longrightarrow> core s = core r"
  by (auto simp: pruning_def)

definition pruned :: "int \<Rightarrow> worker_config \<Rightarrow> queue_db \<Rightarrow> queue_db \<Rightarrow> bool" where
  "pruned M cfg d d' \<longleftrightarrow> queue_inv M d' \<and> db_now d' = db_now d \<and> uuid_next d \<le> uuid_next d' \<and>
     (\<exists>g. trigger_queue d' = map g (trigger_queue d) \<and> (\<forall>r \<in> set (trigger_queue d). pruning cfg r (g r)))"

lemma pruned_refl: "queue_inv M d \<Longrightarrow> pruned M cfg d d"
  unfolding pruned_def by (auto intro!: exI [of _ "\<lambda>r. r"])

lemma pruned_trans:
  assumes "pruned M cfg d d1" and "pruned M cfg d1 d2"
  shows "pruned M cfg d d2"
proof -
  from assms obtain g h where g: "trigger_queue d1 = map g (trigger_queue d)" "\<forall>r \<in> set (trigger_queue d). pruning cfg r (g r)"
    and h: "trigger_queue d2 = map h (trigger_queue d1)" "\<forall>r \<in> set (trigger_queue d1). pruning cfg r (h r)"
    unfolding pruned_def by blast
  have "trigger_queue d2 = map (h \<circ> g) (trigger_queue d)" by (simp add: g(1) h(1))
  moreover have "\<forall>r \<in> set (trigger_queue d). pruning cfg r ((h \<circ> g) r)"
    using g h(2) by (auto intro: pruning_trans)
  moreover have "queue_inv M d2" "db_now d2 = db_now d" "uuid_next d \<le> uuid_next d2"
    using assms by (auto simp: pruned_def)
  ultimately show ?thesis unfolding pruned_def by blast
qed

lemma pruned_frame:
  assumes "queue_inv M d" and "trigger_queue d' = trigger_queue d" and "db_now d' = db_now d" and "uuid_next d \<le> uuid_next d'"
  shows "pruned M cfg d d'"
  using inv_frame [OF assms(1,2,4)] assms(2-4) unfolding pruned_def by (auto intro!: exI [of _ "\<lambda>r. r"])

text \<open>One statement of the pruning.\<close>

lemma pruned_upd:
  assumes inv: "queue_inv M d" and P: "\<And>r. P r \<Longrightarrow> prunable cfg r \<and> (is_belief_update r \<or> is_latent r)"
    and extra: "\<And>r. dict_get (rev (extra r)) ''batch_member_trigger_ids'' = None"
  shows "pruned M cfg d (upd_triggers P (\<lambda>r. auto_complete cfg now reason (extra r) r) d)"
proof -
  let ?f = "\<lambda>r. auto_complete cfg now reason (extra r) r"
  have core: "core (?f r) = core r" for r by (rule core_auto_complete) (rule extra)
  have "queue_inv M (upd_triggers P ?f d)"
    using inv core
  proof (rule inv_upd)
    fix r
    assume "row_ok M r" "P r"
    then show "row_ok M (?f r)"
      using core_event_batch [OF core, of r] by (simp add: row_ok_def auto_complete_def unlock_row_def)
  next
    fix q r
    assume "P q" "batch_of q r"
    with P [of q] show "P r \<and> (\<not> is_open (?f r) \<or> q_batch_parent (?f r) = None)"
      by (auto simp: batch_of_def is_event_batch_def is_belief_update_def is_latent_def)
  qed (auto simp: auto_complete_def unlock_row_def)
  moreover have "pruning cfg r (if P r then ?f r else r)" for r
    using P [of r] core [of r] by (auto simp: pruning_def prunable_def auto_complete_def unlock_row_def)
  moreover have "trigger_queue (upd_triggers P ?f d) = map (\<lambda>r. if P r then ?f r else r) (trigger_queue d)"
    by (simp add: upd_triggers_def)
  ultimately show ?thesis unfolding pruned_def upd_triggers_frame by blast
qed

lemma topology_fields_other: "dict_get (rev (topology_fields d r)) ''batch_member_trigger_ids'' = None"
  by (simp add: topology_fields_def dict_get_def split: option.splits)

lemma aggregate_pruned:
  assumes "keeps_queue aggregate" and "queue_inv M d" and "aggregate_for_pruning aggregate cfg d = (Inr (), d')"
  shows "pruned M cfg d d'"
proof -
  have "trigger_queue e' = trigger_queue e \<and> uuid_next e \<le> uuid_next e' \<and> db_now e' = db_now e"
    if "for_tx ts aggregate e = (Inr (), e')" for ts e e'
    using that
  proof (induction ts arbitrary: e)
    case (Cons t ts)
    then obtain e1 where "aggregate t e = (Inr (), e1)" "for_tx ts aggregate e1 = (Inr (), e')"
      by (auto simp: tx_simps)
    with Cons.IH [OF this(2)] assms(1) show ?case by (auto simp: keeps_queue_def intro: order_trans)
  qed (simp add: return_tx_def)
  from this [OF assms(3) [unfolded aggregate_for_pruning_def]] show ?thesis
    by (intro pruned_frame [OF assms(2)]) auto
qed

lemma prune_pruned:
  assumes "keeps_queue aggregate" and "queue_inv M d"
    and "prune_low_value_downstream_rows aggregate cfg d = (Inr (), d')"
  shows "pruned M cfg d d'"
proof (cases "wc_prune cfg")
  case True
  define d1 where "d1 = prune_noop_beliefs cfg d"
  obtain d2 where d2: "aggregate_for_pruning aggregate cfg d1 = (Inr (), d2)"
    and d': "d' = prune_edge_types cfg (prune_missing_models cfg (prune_low_value_t4_topology_candidate_rows cfg d2))"
    using assms(3) True by (auto simp: prune_low_value_downstream_rows_def d1_def tx_simps Let_def)
  define d3 where "d3 = prune_low_value_t4_topology_candidate_rows cfg d2"
  define d4 where "d4 = prune_missing_models cfg d3"
  have inv: "pruned M cfg e e' \<Longrightarrow> queue_inv M e'" for e e' by (simp add: pruned_def)
  have none: "dict_get (rev []) k = None" for k by (simp add: dict_get_def)
  have 1: "pruned M cfg d d1"
    unfolding d1_def prune_noop_beliefs_def by (rule pruned_upd [OF assms(2) _ none]) simp
  have 2: "pruned M cfg d1 d2" by (rule aggregate_pruned [OF assms(1) inv [OF 1] d2])
  have 3: "pruned M cfg d2 d3"
    unfolding d3_def prune_low_value_t4_topology_candidate_rows_def
    by (rule pruned_upd [OF inv [OF 2] _ topology_fields_other]) simp
  have 4: "pruned M cfg d3 d4"
    unfolding d4_def prune_missing_models_def by (rule pruned_upd [OF inv [OF 3] _ none]) simp
  have "pruned M cfg d4 (prune_edge_types cfg d4)"
    unfolding prune_edge_types_def by (rule pruned_upd [OF inv [OF 4] _ none]) (simp add: edge_type_trigger_def)
  with 1 2 3 4 have "pruned M cfg d (prune_edge_types cfg d4)" by (meson pruned_trans)
  then show ?thesis by (simp add: d' d3_def d4_def)
qed (use assms(2,3) in \<open>simp add: prune_low_value_downstream_rows_def pruned_refl\<close>)

section \<open>The rows through a step\<close>

text \<open>
  A step maps the old rows, keeping what identifies them, and appends rows with new identifiers;
  \<open>R\<close> relates an old row to what it becomes.
\<close>

definition queue_evolves :: "(trigger_row \<Rightarrow> trigger_row \<Rightarrow> bool) \<Rightarrow> queue_db \<Rightarrow> queue_db \<Rightarrow> bool" where
  "queue_evolves R d d' \<longleftrightarrow> uuid_next d \<le> uuid_next d' \<and> (\<exists>g bs. trigger_queue d' = map g (trigger_queue d) @ bs \<and>
     (\<forall>r \<in> set (trigger_queue d). core (g r) = core r \<and> R r (g r)) \<and> (\<forall>b \<in> set bs. uuid_next d \<le> q_id b))"

lemma evolvesI:
  assumes "trigger_queue d' = map g (trigger_queue d) @ bs" and "uuid_next d \<le> uuid_next d'"
    and "\<And>r. r \<in> set (trigger_queue d) \<Longrightarrow> core (g r) = core r \<and> R r (g r)" and "\<And>b. b \<in> set bs \<Longrightarrow> uuid_next d \<le> q_id b"
  shows "queue_evolves R d d'"
  using assms unfolding queue_evolves_def by blast

lemma evolves_new:
  assumes "queue_evolves R d d'" and "r' \<in> set (trigger_queue d')"
  obtains "uuid_next d \<le> q_id r'" | r where "r \<in> set (trigger_queue d)" "core r' = core r" "q_id r' = q_id r" "R r r'"
proof -
  from assms(1) obtain g bs where g: "trigger_queue d' = map g (trigger_queue d) @ bs"
    "\<forall>r \<in> set (trigger_queue d). core (g r) = core r \<and> R r (g r)" "\<forall>b \<in> set bs. uuid_next d \<le> q_id b"
    unfolding queue_evolves_def by blast
  with assms(2) consider "r' \<in> set bs" | r where "r \<in> set (trigger_queue d)" "r' = g r" by auto
  then show ?thesis using that g core_eqD by (cases; metis)
qed

lemma evolves_old:
  assumes "queue_evolves R d d'" and "r \<in> set (trigger_queue d)"
  obtains r' where "r' \<in> set (trigger_queue d')" "core r' = core r" "q_id r' = q_id r" "R r r'"
proof -
  from assms obtain g bs where "trigger_queue d' = map g (trigger_queue d) @ bs" "core (g r) = core r" "R r (g r)"
    unfolding queue_evolves_def by blast
  with assms(2) core_eqD [of "g r" r] that [of "g r"] show ?thesis by simp
qed

lemma evolves_trans:
  assumes "queue_evolves R d d1" and "queue_evolves S d1 d2"
    and "\<And>r s t. r \<in> set (trigger_queue d) \<Longrightarrow> core s = core r \<Longrightarrow> R r s \<Longrightarrow> S s t \<Longrightarrow> T r t"
  shows "queue_evolves T d d2"
proof -
  from assms(1) obtain g bs where g: "trigger_queue d1 = map g (trigger_queue d) @ bs"
    "\<forall>r \<in> set (trigger_queue d). core (g r) = core r \<and> R r (g r)" "\<forall>b \<in> set bs. uuid_next d \<le> q_id b"
    unfolding queue_evolves_def by blast
  from assms(2) obtain h cs where h: "trigger_queue d2 = map h (trigger_queue d1) @ cs"
    "\<forall>r \<in> set (trigger_queue d1). core (h r) = core r \<and> S r (h r)" "\<forall>c \<in> set cs. uuid_next d1 \<le> q_id c"
    unfolding queue_evolves_def by blast
  have next_id: "uuid_next d \<le> uuid_next d1" "uuid_next d1 \<le> uuid_next d2" using assms by (simp_all add: queue_evolves_def)
  show ?thesis
  proof (rule evolvesI [where g = "h \<circ> g" and bs = "map h bs @ cs"])
    show "trigger_queue d2 = map (h \<circ> g) (trigger_queue d) @ map h bs @ cs" by (simp add: g(1) h(1))
    show "uuid_next d \<le> uuid_next d2" using next_id by simp
    fix r
    assume r: "r \<in> set (trigger_queue d)"
    then have "g r \<in> set (trigger_queue d1)" by (simp add: g(1))
    with h(2) g(2) r assms(3) [OF r] show "core ((h \<circ> g) r) = core r \<and> T r ((h \<circ> g) r)" by auto
  next
    fix b
    assume "b \<in> set (map h bs @ cs)"
    then consider c where "c \<in> set bs" "b = h c" | "b \<in> set cs" by auto
    then show "uuid_next d \<le> q_id b"
    proof cases
      case 1
      then have "q_id b = q_id c" using h(2) core_eqD [of b c] by (simp add: g(1))
      with 1 g(3) show ?thesis by simp
    next
      case 2
      with h(3) next_id show ?thesis by force
    qed
  qed
qed

lemma evolves_upd:
  assumes "\<And>r. core (f r) = core r" and "\<And>r. r \<in> set (trigger_queue d) \<Longrightarrow> R r (if P r then f r else r)"
  shows "queue_evolves R d (upd_triggers P f d)"
  by (rule evolvesI [where g = "\<lambda>r. if P r then f r else r" and bs = "[]"]) (use assms in \<open>auto simp: upd_triggers_def\<close>)

text \<open>A poll changes a row that is locked and stays open in nothing, and reopens none.\<close>

definition calm_row :: "worker_config \<Rightarrow> time \<Rightarrow> trigger_row \<Rightarrow> trigger_row \<Rightarrow> bool" where
  "calm_row cfg now r r' \<longleftrightarrow> r' = r \<or> \<not> is_open r' \<or> is_open r \<and> lock_free cfg now r"

lemma calm_trans: "calm_row cfg now r s \<Longrightarrow> calm_row cfg now s t \<Longrightarrow> calm_row cfg now r t"
  by (auto simp: calm_row_def)

lemma evolves_pruned: "pruned M cfg d d' \<Longrightarrow> queue_evolves (calm_row c now) d d'"
  unfolding pruned_def by (elim conjE exE, rule evolvesI [where bs = "[]"]) (auto simp: pruning_def calm_row_def)

lemma evolves_batching:
  assumes wf: "queue_wf d0" and J: "batching M cfg rows d0 ls d"
    and rows: "\<forall>r \<in> set rows. r \<in> set (trigger_queue d0) \<and> leasable cfg (db_now d0) r"
  shows "queue_evolves (calm_row cfg (db_now d0)) d0 d"
proof -
  from J obtain g bs where g: "trigger_queue d = map g (trigger_queue d0) @ bs" "uuid_next d0 \<le> uuid_next d"
      "\<forall>r \<in> set (trigger_queue d0). adoption rows r (g r)" "\<forall>b \<in> set bs. fresh_batch cfg d0 b"
    unfolding batching_def by blast
  show ?thesis
  proof (rule evolvesI [OF g(1,2)])
    fix r
    assume r: "r \<in> set (trigger_queue d0)"
    with g(3) have a: "adoption rows r (g r)" by blast
    have "is_open r \<and> lock_free cfg (db_now d0) r" if "g r \<noteq> r"
    proof -
      from a that obtain m where "m \<in> set rows" "q_id m = q_id r" by (auto simp: adoption_def)
      with wf_unique [OF wf _ r, of m] rows show ?thesis by (auto simp: leasable_def)
    qed
    with adoption_core [OF a] show "core (g r) = core r \<and> calm_row cfg (db_now d0) r (g r)" by (auto simp: calm_row_def)
  next
    fix b
    assume "b \<in> set bs"
    with g(4) show "uuid_next d0 \<le> q_id b" by (simp add: fresh_batch_def)
  qed
qed

text \<open>The leased batches are rows of the queue.\<close>

lemma leased_id [simp]: "ls_id (leased_of r) = q_id r"
  by (simp add: leased_of_def)

lemma leased_ids: "map ls_id (map leased_of rs) = map q_id rs"
  by simp

lemma batching_leased:
  assumes "batching M cfg rows d0 ls d"
  shows "distinct (map ls_id ls) \<and> (\<forall>l \<in> set ls. \<exists>b \<in> set (trigger_queue d). leased_of b = l \<and> fresh_batch cfg d0 b)"
proof -
  from assms obtain g bs where g: "trigger_queue d = map g (trigger_queue d0) @ bs" "ls = map leased_of bs"
      "\<forall>b \<in> set bs. fresh_batch cfg d0 b" and wf: "queue_wf d"
    unfolding batching_def queue_inv_def by blast
  have "distinct (map q_id bs)" using wf by (simp add: queue_wf_def g(1))
  then have "distinct (map ls_id ls)" unfolding g(2) leased_ids .
  with g show ?thesis by auto
qed

section \<open>The poll\<close>

definition polled :: "int \<Rightarrow> worker_config \<Rightarrow> queue_db \<Rightarrow> leased list \<Rightarrow> queue_db \<Rightarrow> bool" where
  "polled M cfg d ls d' \<longleftrightarrow> queue_inv M d' \<and> db_now d' = db_now d \<and> queue_evolves (calm_row cfg (db_now d)) d d' \<and>
     distinct (map ls_id ls) \<and>
     (\<forall>l \<in> set ls. \<exists>r \<in> set (trigger_queue d'). leased_of r = l \<and> is_open r \<and> q_batch_parent r = None \<and>
        q_locked_by r = Some (wc_worker_id cfg) \<and> q_locked_at r = Some (db_now d) \<and>
        (uuid_next d \<le> q_id r \<or> (\<exists>r0 \<in> set (trigger_queue d). q_id r0 = q_id r \<and> is_open r0 \<and> lock_free cfg (db_now d) r0)))"

text \<open>Before the lease, a poll has a queue \<open>d3\<close> that evolved from \<open>d\<close> and rows of it to lease.\<close>

definition to_lease :: "worker_config \<Rightarrow> queue_db \<Rightarrow> queue_db \<Rightarrow> trigger_row \<Rightarrow> bool" where
  "to_lease cfg d d3 r \<longleftrightarrow> r \<in> set (trigger_queue d3) \<and> is_open r \<and> q_batch_parent r = None \<and>
     (uuid_next d \<le> q_id r \<or> lock_free cfg (db_now d) r)"

lemma lease_polled:
  assumes wf: "queue_wf d" and inv: "queue_inv M d3" and now: "db_now d3 = db_now d"
    and ev: "queue_evolves (calm_row cfg (db_now d)) d d3" and ls: "distinct (map ls_id ls)" "\<forall>l \<in> set ls. \<exists>r. to_lease cfg d d3 r \<and> leased_of r = l"
  shows "polled M cfg d ls (lease_rows cfg (map ls_id ls) d3)"
proof -
  let ?d' = "lease_rows cfg (map ls_id ls) d3"
  have wf3: "queue_wf d3" using inv by (simp add: queue_inv_def)
  have leased: "to_lease cfg d d3 r" if r: "r \<in> set (trigger_queue d3)" "q_id r \<in> ls_id ` set ls" for r
  proof -
    from r(2) ls(2) obtain s where s: "to_lease cfg d d3 s" "q_id s = q_id r" by fastforce
    then have "s = r" using wf_unique [OF wf3 _ r(1)] by (simp add: to_lease_def)
    with s show ?thesis by simp
  qed
  let ?S = "\<lambda>s t. t = s \<or> is_open s \<and> (uuid_next d \<le> q_id s \<or> lock_free cfg (db_now d) s)"
  have "queue_evolves ?S d3 ?d'"
    unfolding lease_rows_def by (rule evolves_upd) (use leased in \<open>auto simp: to_lease_def\<close>)
  then have "queue_evolves (calm_row cfg (db_now d)) d ?d'"
  proof (rule evolves_trans [OF ev])
    fix r s t
    assume "r \<in> set (trigger_queue d)" "core s = core r" "calm_row cfg (db_now d) r s" "?S s t"
    moreover have "q_id s < uuid_next d" using wf calculation(1,2) core_eqD [of s r] by (auto simp: queue_wf_def)
    ultimately show "calm_row cfg (db_now d) r t" by (auto simp: calm_row_def)
  qed
  moreover have "\<exists>r \<in> set (trigger_queue ?d'). leased_of r = l \<and> is_open r \<and> q_batch_parent r = None \<and>
      q_locked_by r = Some (wc_worker_id cfg) \<and> q_locked_at r = Some (db_now d) \<and>
      (uuid_next d \<le> q_id r \<or> (\<exists>r0 \<in> set (trigger_queue d). q_id r0 = q_id r \<and> is_open r0 \<and> lock_free cfg (db_now d) r0))"
    if l: "l \<in> set ls" for l
  proof -
    from ls(2) l obtain r where r: "to_lease cfg d d3 r" "leased_of r = l" by blast
    then have "q_id r = ls_id l" by auto
    with l r have "r \<in> set (trigger_queue d3)" "q_id r \<in> ls_id ` set ls" by (simp_all add: to_lease_def)
    then have "lock_row (wc_worker_id cfg) (db_now d) r \<in> set (trigger_queue ?d')"
      unfolding lease_rows_def set_upd_triggers by (intro rev_image_eqI [of r]) (auto simp: now)
    moreover have "uuid_next d \<le> q_id r \<or> (\<exists>r0 \<in> set (trigger_queue d). q_id r0 = q_id r \<and> is_open r0 \<and> lock_free cfg (db_now d) r0)"
      using ev \<open>r \<in> set (trigger_queue d3)\<close>
    proof (cases rule: evolves_new)
      case (2 r0)
      with r(1) wf show ?thesis by (auto simp: to_lease_def calm_row_def queue_wf_def intro!: bexI [of _ r0])
    qed simp
    ultimately show ?thesis
      using r by (intro bexI [of _ "lock_row (wc_worker_id cfg) (db_now d) r"]) (auto simp: lock_row_def leased_of_def to_lease_def)
  qed
  ultimately show ?thesis
    using ls(1) inv_lease [OF inv, of cfg "map ls_id ls"] now by (auto simp: polled_def lease_rows_def)
qed

text \<open>The rows the poll itself picks.\<close>

lemma poll_rows_set:
  "r \<in> set (poll_rows cfg busy n d) \<Longrightarrow> r \<in> set (trigger_queue d) \<and> pollable cfg (db_now d) r \<and> \<not> busy (q_id r)"
  by (auto simp: poll_rows_def poll_order_def dest!: in_set_takeD)

lemma poll_rows_distinct: "queue_wf d \<Longrightarrow> distinct (map q_id (poll_rows cfg busy n d))"
  unfolding poll_rows_def poll_order_def take_map [symmetric]
  by (rule distinct_take) (auto simp: queue_wf_def distinct_map inj_on_def)

lemma batch_to_lease:
  assumes "fresh_batch cfg d1 b" and "b \<in> set (trigger_queue d3)" and "uuid_next d \<le> uuid_next d1"
  shows "to_lease cfg d d3 b"
  using assms by (simp add: to_lease_def fresh_batch_def)

lemma seconds_us_nonneg: "0 \<le> s \<Longrightarrow> 0 \<le> seconds_us s"
  using round_mono [of 0 "s * 1000000"] by (simp add: seconds_us_def)

lemma fresh_locked: "fresh_batch cfg d0 b \<Longrightarrow> 0 \<le> wc_lock_timeout_s cfg \<Longrightarrow> \<not> lock_free cfg (db_now d0) b"
  using seconds_us_nonneg [of "wc_lock_timeout_s cfg"] by (simp add: fresh_batch_def lock_free_def lock_stale_def)

text \<open>A poll returns what it leased, or the pruning raised and the transaction is rolled back.\<close>

lemma poll_runs:
  assumes inv: "queue_inv M d" and M: "1 \<le> M" and agg: "keeps_queue aggregate" and timeout: "0 \<le> wc_lock_timeout_s cfg"
  shows "(\<exists>ls d'. poll_and_dispatch aggregate tx cfg in_flight busy d = (Inr ls, d') \<and> polled M cfg d ls d') \<or>
    (\<exists>e d1. prune_low_value_downstream_rows aggregate cfg d = (Inl e, d1) \<and>
       poll_and_dispatch aggregate tx cfg in_flight busy d = (Inl e, d))"
proof (cases "max 0 (wc_poll_batch cfg - int in_flight) \<le> 0")
  case True
  then have "poll_and_dispatch aggregate tx cfg in_flight busy d = (Inr [], d)"
    unfolding poll_and_dispatch_def Let_def by (simp only: if_True)
  moreover have "queue_evolves (calm_row cfg (db_now d)) d d"
    by (rule evolvesI [where g = "\<lambda>r. r" and bs = "[]"]) (auto simp: calm_row_def)
  ultimately show ?thesis using inv by (auto simp: polled_def)
next
  case False
  define slots where "slots = max 0 (wc_poll_batch cfg - int in_flight)"
  show ?thesis
  proof (cases "fst (prune_low_value_downstream_rows aggregate cfg d)")
    case (Inl e)
    then obtain d1 where raised: "prune_low_value_downstream_rows aggregate cfg d = (Inl e, d1)"
      by (metis prod.collapse)
    then have "poll_and_dispatch aggregate tx cfg in_flight busy d = (Inl e, d)"
      using False by (simp add: poll_and_dispatch_def slots_def atomically_def bind_tx_def Let_def)
    with raised show ?thesis by blast
  next
  case (Inr u)
  then obtain d1 where run: "prune_low_value_downstream_rows aggregate cfg d = (Inr (), d1)"
    by (cases "prune_low_value_downstream_rows aggregate cfg d") auto
  have p: "pruned M cfg d d1" by (rule prune_pruned [OF agg inv run])
  then have d1: "queue_inv M d1" "db_now d1 = db_now d" "uuid_next d \<le> uuid_next d1" by (simp_all add: pruned_def)
  have wf: "queue_wf d" "queue_wf d1" using inv d1 by (simp_all add: queue_inv_def)
  obtain t1 d2 rows1 where t1: "create_t1_batch_rows tx cfg busy slots d1 = (Inr t1, d2)" "batching M cfg rows1 d1 t1 d2"
      "\<forall>r \<in> set rows1. r \<in> set (trigger_queue d1) \<and> leasable cfg (db_now d1) r"
    using t1_batches [OF d1(1) M] by blast
  then have d2: "queue_inv M d2" "db_now d2 = db_now d" "uuid_next d \<le> uuid_next d2"
    using d1 by (auto simp: batching_def)
  have "queue_evolves (calm_row cfg (db_now d)) d1 d2"
    using evolves_batching [OF wf(2) t1(2,3)] d1(2) by simp
  then have ev2: "queue_evolves (calm_row cfg (db_now d)) d d2"
    using evolves_trans [OF evolves_pruned [OF p]] calm_trans by blast
  show ?thesis
  proof (cases "t1 = []")
    case t1_found: False
    have "\<forall>l \<in> set t1. \<exists>r. to_lease cfg d d2 r \<and> leased_of r = l"
      using batching_leased [OF t1(2)] batch_to_lease d1(3) by blast
    from lease_polled [OF wf(1) d2(1,2) ev2 _ this] batching_leased [OF t1(2)]
    have "polled M cfg d t1 (lease_rows cfg (map ls_id t1) d2)" by blast
    moreover have "poll_and_dispatch aggregate tx cfg in_flight busy d = (Inr t1, lease_rows cfg (map ls_id t1) d2)"
      using False t1(1) t1_found
      by (simp add: poll_and_dispatch_def slots_def run atomically_def bind_tx_def return_tx_def Let_def)
    ultimately show ?thesis by blast
  next
    case no_t1: True
    obtain down d3 rows2 where down: "create_downstream_batch_rows tx cfg busy slots d2 = (Inr down, d3)"
        "batching M cfg rows2 d2 down d3" "\<forall>r \<in> set rows2. r \<in> set (trigger_queue d2) \<and> leasable cfg (db_now d2) r"
      using downstream_batches [OF d2(1) M] by blast
    then have d3: "queue_inv M d3" "db_now d3 = db_now d" "uuid_next d \<le> uuid_next d3"
      using d2 by (auto simp: batching_def)
    have wf2: "queue_wf d2" "queue_wf d3" using d2 d3 by (simp_all add: queue_inv_def)
    have "queue_evolves (calm_row cfg (db_now d)) d2 d3"
      using evolves_batching [OF wf2(1) down(2,3)] d2(2) by simp
    then have ev3: "queue_evolves (calm_row cfg (db_now d)) d d3"
      using evolves_trans [OF ev2] calm_trans by blast
    define remaining where "remaining = slots - int (length down)"
    define rs where "rs = (if remaining \<le> 0 then [] else poll_rows cfg busy (nat remaining) d3)"
    have rs: "\<forall>r \<in> set rs. r \<in> set (trigger_queue d3) \<and> pollable cfg (db_now d) r" "distinct (map q_id rs)"
      using poll_rows_set [of _ cfg busy _ d3] poll_rows_distinct [OF wf2(2)] d3(2) by (auto simp: rs_def)
    have "\<exists>r. to_lease cfg d d3 r \<and> leased_of r = l" if "l \<in> set (down @ map leased_of rs)" for l
    proof (cases "l \<in> set down")
      case True
      then show ?thesis using batching_leased [OF down(2)] batch_to_lease d2(3) by blast
    next
      case False
      with that rs(1) show ?thesis by (auto simp: to_lease_def pollable_def leasable_def)
    qed
    moreover have "distinct (map ls_id (down @ map leased_of rs))"
    proof -
      have "ls_id l \<noteq> q_id r" if l: "l \<in> set down" and r: "r \<in> set rs" for l r
      proof
        assume eq: "ls_id l = q_id r"
        from batching_leased [OF down(2)] l obtain b where b: "b \<in> set (trigger_queue d3)" "leased_of b = l" "fresh_batch cfg d2 b"
          by blast
        with eq rs(1) r wf_unique [OF wf2(2) b(1)] have "r = b" by fastforce
        with fresh_locked [OF b(3) timeout] rs(1) r d2(2) show False by (auto simp: pollable_def leasable_def)
      qed
      moreover have "distinct (map ls_id (map leased_of rs))" unfolding leased_ids by (rule rs(2))
      ultimately show ?thesis using batching_leased [OF down(2)] by fastforce
    qed
    ultimately have "polled M cfg d (down @ map leased_of rs) (lease_rows cfg (map ls_id (down @ map leased_of rs)) d3)"
      using lease_polled [OF wf(1) d3(1,2) ev3] by blast
    moreover have "poll_and_dispatch aggregate tx cfg in_flight busy d =
        (Inr (down @ map leased_of rs), lease_rows cfg (map ls_id (down @ map leased_of rs)) d3)"
      using False t1(1) down(1) no_t1
      by (simp add: poll_and_dispatch_def slots_def run atomically_def bind_tx_def return_tx_def Let_def
          rs_def remaining_def)
    ultimately show ?thesis by blast
  qed
qed
qed

end
