(* ===== verification/WorkerSystem.thy ===== *)
theory WorkerSystem
  imports PollFacts
begin

text \<open>
  A fleet of \<open>ThinkWorker\<close> processes (\<open>services/reasoning/think/worker.py\<close>) around one queue. The
  state is the database and the tasks in flight; a step is one transaction of one process, the
  end or the loss of tasks, an operator's retry, or another part of the program at work. A
  \<open>strict\<close> run is one in which locks do not expire under a running task, processes have names of
  their own, and no trigger is reopened while a task still runs it.
\<close>

record task =
  tk_worker :: string
  tk_row :: leased

record think_system =
  ts_db :: queue_db
  ts_tasks :: "task list"

definition tk_id :: "task \<Rightarrow> uuid" where
  "tk_id t = ls_id (tk_row t)"

definition start_tasks :: "worker_config \<Rightarrow> leased list \<Rightarrow> task list" where
  "start_tasks cfg ls = map (\<lambda>l. \<lparr>tk_worker = wc_worker_id cfg, tk_row = l\<rparr>) ls"

text \<open>The tasks of a process that count against its poll.\<close>

definition in_flight :: "worker_config \<Rightarrow> think_system \<Rightarrow> nat" where
  "in_flight cfg s = length (filter (\<lambda>t. tk_worker t = wc_worker_id cfg) (ts_tasks s))"

text \<open>The workers are started with the same bound on attempts and a timeout that is not negative.\<close>

definition fleet :: "int \<Rightarrow> worker_config \<Rightarrow> bool" where
  "fleet M cfg \<longleftrightarrow> wc_trigger_max_attempts cfg = M \<and> 0 \<le> wc_lock_timeout_s cfg"

definition running :: "think_system \<Rightarrow> trigger_row \<Rightarrow> bool" where
  "running s r \<longleftrightarrow> q_id r \<in> tk_id ` set (ts_tasks s)"

text \<open>No lock of a running trigger has expired for this process.\<close>

definition live_locks :: "worker_config \<Rightarrow> think_system \<Rightarrow> bool" where
  "live_locks cfg s \<longleftrightarrow> (\<forall>r \<in> set (trigger_queue (ts_db s)). running s r \<and> is_open r \<longrightarrow>
     \<not> lock_stale cfg (db_now (ts_db s)) r)"

text \<open>The three ways a task of \<open>process_trigger\<close> ends.\<close>

datatype task_end = Rejection string | Deferral | Run run_end

definition end_task :: "environ \<Rightarrow> worker_config \<Rightarrow> leased \<Rightarrow> task_end \<Rightarrow> (queue_db, unit) tx" where
  "end_task env cfg row e =
    (case e of
       Rejection reason \<Rightarrow> mark_trigger_failed env cfg (ls_id row) reason True None None
     | Deferral \<Rightarrow> (\<lambda>d. (Inr (), defer_trigger_for_budget cfg (ls_id row) d))
     | Run outcome \<Rightarrow> finish_run env cfg row outcome)"

inductive think_step ::
  "bool \<Rightarrow> int \<Rightarrow> (uuid \<Rightarrow> (queue_db, unit) tx) \<Rightarrow> texts \<Rightarrow> environ \<Rightarrow> think_system \<Rightarrow> think_system \<Rightarrow> bool"
  for strict M aggregate tx env where
  clock: "db_now (ts_db s) \<le> now \<Longrightarrow>
    think_step strict M aggregate tx env s (s\<lparr>ts_db := (ts_db s)\<lparr>db_now := now, py_now := p\<rparr>\<rparr>)"
| elsewhere: "trigger_queue d = trigger_queue (ts_db s) \<Longrightarrow> uuid_next (ts_db s) \<le> uuid_next d \<Longrightarrow>
    think_step strict M aggregate tx env s (s\<lparr>ts_db := d\<rparr>)"
| enqueue: "enqueue_trigger t k sk obs m p sched None None (ts_db s) = (Inr i, d) \<Longrightarrow>
    think_step strict M aggregate tx env s (s\<lparr>ts_db := d\<rparr>)"
| promote: "fleet M cfg \<Longrightarrow> promote_reeval_rows cfg busy (ts_db s) = (Inr (), d) \<Longrightarrow>
    think_step strict M aggregate tx env s (s\<lparr>ts_db := d\<rparr>)"
| startup: "fleet M cfg \<Longrightarrow> recover_orphaned_trigger_locks cfg (ts_db s) = (n, d) \<Longrightarrow>
    strict \<longrightarrow> in_flight cfg s = 0 \<and> live_locks cfg s \<Longrightarrow>
    think_step strict M aggregate tx env s (s\<lparr>ts_db := d\<rparr>)"
| poll: "fleet M cfg \<Longrightarrow> strict \<longrightarrow> live_locks cfg s \<Longrightarrow>
    poll_and_dispatch aggregate tx cfg (in_flight cfg s) busy (ts_db s) = (Inr ls, d) \<Longrightarrow>
    think_step strict M aggregate tx env s \<lparr>ts_db = d, ts_tasks = ts_tasks s @ start_tasks cfg ls\<rparr>"
| poll_raised: "fleet M cfg \<Longrightarrow> poll_and_dispatch aggregate tx cfg (in_flight cfg s) busy (ts_db s) = (Inl e, d) \<Longrightarrow>
    think_step strict M aggregate tx env s (s\<lparr>ts_db := d\<rparr>)"
| heartbeat: "t \<in> set (ts_tasks s) \<Longrightarrow> tk_worker t = wc_worker_id cfg \<Longrightarrow>
    think_step strict M aggregate tx env s (s\<lparr>ts_db := heartbeat_trigger cfg (tk_id t) (ts_db s)\<rparr>)"
| finish: "fleet M cfg \<Longrightarrow> ts_tasks s = ts @ t # us \<Longrightarrow> tk_worker t = wc_worker_id cfg \<Longrightarrow>
    end_task env cfg (tk_row t) e (ts_db s) = (Inr (), d) \<Longrightarrow>
    think_step strict M aggregate tx env s \<lparr>ts_db = d, ts_tasks = ts @ us\<rparr>"
| crash: "think_step strict M aggregate tx env s (s\<lparr>ts_tasks := filter (\<lambda>t. tk_worker t \<noteq> w) (ts_tasks s)\<rparr>)"
| lost: "ts_tasks s = ts @ t # us \<Longrightarrow> think_step strict M aggregate tx env s (s\<lparr>ts_tasks := ts @ us\<rparr>)"
| reopen: "retry_think_trigger auth i reason (ts_db s) = (reply, d) \<Longrightarrow>
    \<forall>r \<in> set (trigger_queue (ts_db s)). q_id r = i \<longrightarrow> q_batch_parent r = None \<Longrightarrow>
    strict \<longrightarrow> i \<notin> tk_id ` set (ts_tasks s) \<Longrightarrow>
    think_step strict M aggregate tx env s (s\<lparr>ts_db := d\<rparr>)"

inductive think_reach ::
  "bool \<Rightarrow> int \<Rightarrow> (uuid \<Rightarrow> (queue_db, unit) tx) \<Rightarrow> texts \<Rightarrow> environ \<Rightarrow> think_system \<Rightarrow> bool"
  for strict M aggregate tx env where
  empty: "trigger_queue d = [] \<Longrightarrow> think_reach strict M aggregate tx env \<lparr>ts_db = d, ts_tasks = []\<rparr>"
| step: "think_reach strict M aggregate tx env s \<Longrightarrow> think_step strict M aggregate tx env s s' \<Longrightarrow>
    think_reach strict M aggregate tx env s'"

inductive_cases think_stepE: "think_step strict M aggregate tx env s s'"

section \<open>Rows through the operations\<close>

text \<open>
  A row is spared if its lock, its batch and its openness are kept or it is completed; \<open>J\<close> are the
  rows an operation may treat otherwise.
\<close>

definition spares :: "(trigger_row \<Rightarrow> bool) \<Rightarrow> trigger_row \<Rightarrow> trigger_row \<Rightarrow> bool" where
  "spares J r r' \<longleftrightarrow> q_locked_by r' = q_locked_by r \<and> q_batch_parent r' = q_batch_parent r \<and> (is_open r' \<longrightarrow> is_open r) \<or>
     \<not> is_open r' \<or> J r"

lemma spares_refl [simp]: "spares J r r"
  by (simp add: spares_def)

lemma evolves_mono:
  assumes "queue_evolves R d d'" and "\<And>r r'. R r r' \<Longrightarrow> S r r'"
  shows "queue_evolves S d d'"
  using assms unfolding queue_evolves_def by meson

lemma evolves_queue:
  "queue_evolves R d d1 \<Longrightarrow> trigger_queue d2 = trigger_queue d1 \<Longrightarrow> uuid_next d1 \<le> uuid_next d2 \<Longrightarrow> queue_evolves R d d2"
  unfolding queue_evolves_def by auto

lemma row_evolves_refl: "(\<And>r. R r r) \<Longrightarrow> queue_evolves R d d"
  by (rule evolvesI [where g = "\<lambda>r. r" and bs = "[]"]) auto

lemma evolves_elsewhere:
  "trigger_queue d' = trigger_queue d \<Longrightarrow> uuid_next d \<le> uuid_next d' \<Longrightarrow> queue_evolves (spares J) d d'"
  using evolves_queue [OF row_evolves_refl] by (metis spares_refl)

lemma spares_statements [simp]:
  "spares J r (complete_row now r)" "spares J r (fail_row now n e r)" "spares J r (r\<lparr>q_locked_at := t\<rparr>)"
  by (simp_all add: spares_def row_defs)

lemma evolves_enqueue:
  assumes "enqueue_trigger t k sk obs m p sched lk None d = (Inr i, d')"
  shows "queue_evolves (spares J) d d'"
proof -
  from assms obtain r where "trigger_queue d' = trigger_queue d @ [r]" "q_id r = uuid_next d" "uuid_next d' = Suc (uuid_next d)"
    by (auto simp: enqueue_trigger_def take_uuid_def Let_def split: if_splits)
  then show ?thesis by (intro evolvesI [where g = "\<lambda>r. r" and bs = "[r]"]) auto
qed

lemma for_tx_evolves:
  assumes "for_tx xs f d = (Inr (), d')" and "\<And>x d d'. f x d = (Inr (), d') \<Longrightarrow> queue_evolves (spares (\<lambda>r. False)) d d'"
  shows "queue_evolves (spares (\<lambda>r. False)) d d'"
  using assms(1)
proof (induction xs arbitrary: d)
  case Nil
  then show ?case by (auto simp: return_tx_def intro: row_evolves_refl)
next
  case (Cons x xs)
  then obtain d1 where d1: "f x d = (Inr (), d1)" "for_tx xs f d1 = (Inr (), d')"
    by (auto simp: bind_tx_def split: prod.splits sum.splits)
  show ?case
    by (rule evolves_trans [OF assms(2) [OF d1(1)] Cons.IH [OF d1(2)]]) (auto simp: spares_def)
qed

lemma evolves_promote:
  assumes "promote_reeval_rows cfg busy d = (Inr (), d')"
  shows "queue_evolves (spares (\<lambda>r. False)) d d'"
proof (rule for_tx_evolves)
  show "for_tx (take (nat (wc_poll_batch cfg)) (sort_key rq_enqueued_at (filter (promotable cfg busy) (reeval_rows d))))
      promote_one d = (Inr (), d')"
    using assms by (auto simp: promote_reeval_rows_def atomically_def split: prod.splits sum.splits)
  show "queue_evolves (spares (\<lambda>r. False)) d d'" if "promote_one x d = (Inr (), d')" for x d d'
    using that by (auto simp: promote_one_def bind_tx_def return_tx_def intro: row_evolves_refl evolves_enqueue
        split: if_splits prod.splits sum.splits)
qed

lemma evolves_recover:
  "queue_evolves (spares (orphaned cfg (db_now d))) d (snd (recover_orphaned_trigger_locks cfg d))"
  unfolding recover_orphaned_trigger_locks_def snd_conv
  by (rule evolves_upd) (auto simp: spares_def)

lemma evolves_heartbeat: "queue_evolves (spares (\<lambda>r. False)) d (heartbeat_trigger cfg i d)"
  unfolding heartbeat_trigger_def by (rule evolves_upd) auto

text \<open>What the end of a task touches: its own row, and the open rows of its batch.\<close>

definition of_task :: "uuid \<Rightarrow> trigger_row \<Rightarrow> bool" where
  "of_task i r \<longleftrightarrow> q_id r = i \<or> q_batch_parent r = Some i \<and> is_open r"

lemma evolves_complete: "queue_evolves (spares (of_task i)) d (mark_trigger_complete cfg i p d)"
proof -
  have "queue_evolves (spares (of_task i)) d (upd_triggers (\<lambda>r. q_id r = i \<and> q_locked_by r = Some (wc_worker_id cfg) \<or>
      q_id r \<in> set (batch_members p) \<and> q_batch_parent r = Some i \<and> is_open r) (complete_row (db_now d)) d)"
    by (rule evolves_upd) auto
  then show ?thesis
    unfolding complete_eq by (rule evolves_queue) (auto simp: stamp_reeval_def split: option.splits)
qed

lemma evolves_failed_db: "queue_evolves (spares (of_task i)) d (failed_db env cfg i error force cls feedback row backoff d)"
proof (cases "force \<or> effective_max_attempts env cfg cls \<le> q_attempts row + 1")
  case True
  have "queue_evolves (spares (of_task i)) d (upd_triggers
      (\<lambda>r. q_id r = i \<or> q_id r \<in> set (members row) \<and> q_batch_parent r = Some i \<and> is_open r)
      (\<lambda>r. if q_id r = i then fail_row (db_now d) (q_attempts row + 1) error r else released i (db_now d) r) d)"
    by (rule evolves_upd) (auto simp: spares_def of_task_def)
  from evolves_queue [OF this dead_letter_frame(1,2)] this True show ?thesis
    by (auto simp: failed_db_def Let_def split: option.splits)
next
  case False
  have "queue_evolves (spares (of_task i)) d (upd_triggers (\<lambda>r. q_id r = i)
      (\<lambda>r. feedback_row (stored_feedback env cls feedback) (retry_row (db_now d) (q_attempts row + 1) backoff error r)) d)"
    by (rule evolves_upd) (auto simp: spares_def of_task_def)
  with False show ?thesis by (simp add: failed_db_def Let_def)
qed

lemma evolves_failed:
  assumes "queue_inv M d" and "mark_trigger_failed env cfg i error force cls feedback d = (Inr (), d')"
  shows "queue_evolves (spares (of_task i)) d d'"
proof (cases "find (holds_lock cfg i) (trigger_queue d)")
  case None
  with assms(2) show ?thesis by (auto simp: failed_without_lock intro: row_evolves_refl)
next
  case (Some row)
  then have "0 \<le> q_attempts row"
    using assms(1) find_holds [OF Some] by (auto simp: queue_inv_def row_ok_def holds_lock_def)
  with failed_row [OF Some] assms(2) evolves_failed_db show ?thesis by (metis prod.inject)
qed

lemma evolves_defer: "queue_evolves (spares (of_task i)) d (defer_trigger_for_budget cfg i d)"
  unfolding defer_trigger_for_budget_def by (rule evolves_upd) (auto simp: spares_def of_task_def)

lemma end_task_ends:
  assumes "queue_inv M d" and "fleet M cfg" and "end_task env cfg row e d = (Inr (), d')"
    and "\<And>q. q \<in> set (trigger_queue d) \<Longrightarrow> q_id q = ls_id row \<Longrightarrow> members q = batch_members (ls_payload row)"
  shows "queue_inv M d' \<and> queue_evolves (spares (of_task (ls_id row))) d d'"
proof -
  have failed: "queue_inv M d' \<and> queue_evolves (spares (of_task (ls_id row))) d d'"
    if "mark_trigger_failed env cfg (ls_id row) error force cls feedback d = (Inr (), d')" for error force cls feedback
    using inv_failed [OF assms(1), of cfg env "ls_id row" error force cls feedback] assms(2)
      evolves_failed [OF assms(1) that] that by (auto simp: fleet_def)
  show ?thesis
  proof (cases e)
    case (Rejection r)
    with assms(3) failed show ?thesis by (simp add: end_task_def)
  next
    case Deferral
    with assms(3) inv_defer [OF assms(1)] evolves_defer show ?thesis by (auto simp: end_task_def)
  next
    case (Run outcome)
    with assms(3) failed inv_complete [OF assms(1,4)] evolves_complete show ?thesis
      by (auto simp: end_task_def finish_run_def Let_def split: run_end.splits if_splits)
  qed
qed

section \<open>An operator's retry\<close>

lemma operator_action_frame [simp]:
  "trigger_queue (record_operator_action auth a t i m d) = trigger_queue d"
  "uuid_next d \<le> uuid_next (record_operator_action auth a t i m d)"
  by (simp_all add: record_operator_action_def take_uuid_def Let_def)

definition reopens :: "auth_context \<Rightarrow> uuid \<Rightarrow> queue_db \<Rightarrow> queue_db" where
  "reopens auth i d = upd_triggers (\<lambda>r. q_tenant r = au_tenant auth \<and> q_id r = i) (reopen_row (db_now d)) d"

lemma retry_cases:
  assumes "retry_think_trigger auth i reason d = (reply, d')"
  shows "d' = d \<or> trigger_queue d' = trigger_queue (reopens auth i d) \<and> uuid_next d \<le> uuid_next d'"
  using assms by (auto simp: retry_think_trigger_def reopens_def Let_def
      intro: order_trans [OF _ operator_action_frame(2)] split: option.splits if_splits)

lemma inv_retry:
  assumes inv: "queue_inv M d" and M: "1 \<le> M" and retry: "retry_think_trigger auth i reason d = (reply, d')"
    and top: "\<forall>r \<in> set (trigger_queue d). q_id r = i \<longrightarrow> q_batch_parent r = None"
  shows "queue_inv M d' \<and> queue_evolves (spares (\<lambda>r. q_id r = i)) d d'"
proof -
  have "queue_inv M (reopens auth i d)"
    unfolding reopens_def using inv
  proof (rule inv_upd)
    fix r
    show "core (reopen_row (db_now d) r) = core r" by simp
  next
    fix r
    assume "row_ok M r"
    then show "row_ok M (reopen_row (db_now d) r)"
      using M by (auto simp: row_ok_def reopen_row_def unlock_row_def is_event_batch_def)
  next
    fix r
    assume "r \<in> set (trigger_queue d)" "q_tenant r = au_tenant auth \<and> q_id r = i"
    then show "(q_batch_parent (reopen_row (db_now d) r) = q_batch_parent r \<or> q_batch_parent (reopen_row (db_now d) r) = None) \<and>
        (is_open (reopen_row (db_now d) r) \<longrightarrow> is_open r \<or> q_batch_parent r = None)"
      using top by (auto simp: reopen_row_def unlock_row_def)
  qed (auto simp: reopen_row_def)
  moreover have "queue_evolves (spares (\<lambda>r. q_id r = i)) d (reopens auth i d)"
    unfolding reopens_def by (rule evolves_upd) (auto simp: spares_def)
  ultimately show ?thesis
    using retry_cases [OF retry] inv
    by (auto intro: inv_frame evolves_queue row_evolves_refl simp: reopens_def)
qed

section \<open>The invariants of the fleet\<close>

text \<open>Every task runs a trigger of the queue, with the payload that names the members of its batch.\<close>

definition tasks_known :: "task list \<Rightarrow> queue_db \<Rightarrow> bool" where
  "tasks_known ts d \<longleftrightarrow> (\<forall>t \<in> set ts. tk_id t < uuid_next d \<and>
     (\<forall>r \<in> set (trigger_queue d). q_id r = tk_id t \<longrightarrow> members r = batch_members (ls_payload (tk_row t))))"

definition fleet_inv :: "int \<Rightarrow> think_system \<Rightarrow> bool" where
  "fleet_inv M s \<longleftrightarrow> queue_inv M (ts_db s) \<and> tasks_known (ts_tasks s) (ts_db s)"

lemma tasks_known_evolves:
  assumes "tasks_known ts d" and "queue_evolves R d d'"
  shows "tasks_known ts d'"
  unfolding tasks_known_def
proof (intro ballI conjI impI)
  fix t
  assume t: "t \<in> set ts"
  with assms show "tk_id t < uuid_next d'" unfolding tasks_known_def queue_evolves_def by force
  fix r'
  assume r': "r' \<in> set (trigger_queue d')" "q_id r' = tk_id t"
  from assms(2) r'(1) show "members r' = batch_members (ls_payload (tk_row t))"
  proof (cases rule: evolves_new)
    case 1
    with assms(1) t r'(2) show ?thesis by (auto simp: tasks_known_def)
  next
    case (2 r)
    with assms(1) t r'(2) core_eqD [of r' r] show ?thesis by (auto simp: tasks_known_def)
  qed
qed

lemma tasks_known_subset: "tasks_known ts d \<Longrightarrow> set us \<subseteq> set ts \<Longrightarrow> tasks_known us d"
  by (auto simp: tasks_known_def)

lemma tasks_known_polled:
  assumes "tasks_known ts d" and "polled M cfg d ls d'"
  shows "tasks_known (ts @ start_tasks cfg ls) d'"
proof -
  have wf: "queue_wf d'" using assms(2) by (simp add: polled_def queue_inv_def)
  have "tk_id t < uuid_next d' \<and>
      (\<forall>r \<in> set (trigger_queue d'). q_id r = tk_id t \<longrightarrow> members r = batch_members (ls_payload (tk_row t)))"
    if "t \<in> set (start_tasks cfg ls)" for t
  proof -
    from that have "tk_row t \<in> set ls" by (auto simp: start_tasks_def)
    with assms(2) obtain r where r: "r \<in> set (trigger_queue d')" "leased_of r = tk_row t" by (auto simp: polled_def)
    have "tk_id t = q_id r" "ls_payload (tk_row t) = q_payload r"
      unfolding tk_id_def r(2) [symmetric] by (simp_all add: leased_of_def)
    with r(1) wf wf_unique [OF wf _ r(1)] show ?thesis by (auto simp: queue_wf_def members_def)
  qed
  moreover have "tasks_known ts d'" using tasks_known_evolves [OF assms(1)] assms(2) by (auto simp: polled_def)
  ultimately show ?thesis by (auto simp: tasks_known_def)
qed

lemma fleet_inv_step:
  assumes "think_step strict M aggregate tx env s s'" and "fleet_inv M s" and "1 \<le> M" and "keeps_queue aggregate"
  shows "fleet_inv M s'"
proof -
  have inv: "queue_inv M (ts_db s)" and known: "tasks_known (ts_tasks s) (ts_db s)"
    using assms(2) by (simp_all add: fleet_inv_def)
  note same = tasks_known_evolves [OF known]
  from assms(1) show ?thesis
  proof cases
    case (clock now p)
    with inv known show ?thesis by (auto simp: fleet_inv_def tasks_known_def intro: inv_frame)
  next
    case (elsewhere d)
    with inv same [OF evolves_elsewhere] show ?thesis by (auto simp: fleet_inv_def intro: inv_frame)
  next
    case (enqueue t k sk obs m p sched i d)
    with inv_enqueue [OF inv assms(3), of t k sk obs m p sched None] same [OF evolves_enqueue] show ?thesis
      by (auto simp: fleet_inv_def)
  next
    case (promote cfg busy d)
    with inv_promote [OF inv assms(3), of cfg busy] same [OF evolves_promote] show ?thesis by (auto simp: fleet_inv_def)
  next
    case (startup cfg n d)
    then have d: "d = snd (recover_orphaned_trigger_locks cfg (ts_db s))" by simp
    show ?thesis
      unfolding startup(1) d fleet_inv_def using inv_recover [OF inv] same [OF evolves_recover] by simp
  next
    case (poll cfg busy ls d)
    with poll_runs [OF inv assms(3,4), of cfg tx "in_flight cfg s" busy] have "polled M cfg (ts_db s) ls d"
      by (auto simp: fleet_def)
    with poll tasks_known_polled [OF known] show ?thesis by (auto simp: fleet_inv_def polled_def)
  next
    case (poll_raised cfg busy e d)
    with poll_runs [OF inv assms(3,4), of cfg tx "in_flight cfg s" busy] have "d = ts_db s"
      by (auto simp: fleet_def)
    with poll_raised inv known show ?thesis by (simp add: fleet_inv_def)
  next
    case (heartbeat t cfg)
    with inv_heartbeat [OF inv] same [OF evolves_heartbeat] show ?thesis by (auto simp: fleet_inv_def)
  next
    case (finish cfg ts t us e d)
    have "members q = batch_members (ls_payload (tk_row t))"
      if "q \<in> set (trigger_queue (ts_db s))" "q_id q = ls_id (tk_row t)" for q
      using known that finish(3) by (auto simp: tasks_known_def tk_id_def)
    with end_task_ends [OF inv finish(2,5)] have "queue_inv M d" "queue_evolves (spares (of_task (ls_id (tk_row t)))) (ts_db s) d"
      by blast+
    with finish tasks_known_subset [OF same, of "spares (of_task (ls_id (tk_row t)))" d "ts @ us"] show ?thesis
      by (auto simp: fleet_inv_def)
  next
    case (crash w)
    with inv tasks_known_subset [OF known] show ?thesis by (auto simp: fleet_inv_def)
  next
    case (lost ts t us)
    with inv tasks_known_subset [OF known, of "ts @ us"] show ?thesis by (auto simp: fleet_inv_def)
  next
    case (reopen auth i reason reply d)
    with inv_retry [OF inv assms(3) reopen(2,3)] same show ?thesis by (auto simp: fleet_inv_def)
  qed
qed

lemma queue_inv_empty: "trigger_queue d = [] \<Longrightarrow> queue_inv M d"
  by (simp add: queue_inv_def queue_wf_def none_hidden_def)

lemma fleet_inv_reach:
  assumes "think_reach strict M aggregate tx env s" and "1 \<le> M" and "keeps_queue aggregate"
  shows "fleet_inv M s"
  using assms(1)
proof induction
  case (empty d)
  then show ?case by (simp add: fleet_inv_def queue_inv_empty tasks_known_def)
next
  case (step s s')
  then show ?case using fleet_inv_step assms(2,3) by blast
qed

section \<open>Strict runs\<close>

lemma distinct_map_append_mid: "distinct (map f (xs @ y # ys)) \<Longrightarrow> f y \<notin> f ` set xs \<and> f y \<notin> f ` set ys"
  by auto

text \<open>An open trigger that a task runs is locked by the process of the task, and in no batch.\<close>

definition held :: "task list \<Rightarrow> queue_db \<Rightarrow> bool" where
  "held ts d \<longleftrightarrow> (\<forall>t \<in> set ts. \<forall>r \<in> set (trigger_queue d). q_id r = tk_id t \<and> is_open r \<longrightarrow>
     q_locked_by r = Some (tk_worker t) \<and> q_batch_parent r = None)"

definition strict_inv :: "think_system \<Rightarrow> bool" where
  "strict_inv s \<longleftrightarrow> distinct (map tk_id (ts_tasks s)) \<and> held (ts_tasks s) (ts_db s)"

lemma held_subset: "held ts d \<Longrightarrow> set us \<subseteq> set ts \<Longrightarrow> held us d"
  by (auto simp: held_def)

lemma held_evolves:
  assumes "held ts d" and "tasks_known ts d" and "queue_evolves (spares J) d d'"
    and "\<And>t r. t \<in> set ts \<Longrightarrow> r \<in> set (trigger_queue d) \<Longrightarrow> q_id r = tk_id t \<Longrightarrow> \<not> J r"
  shows "held ts d'"
  unfolding held_def
proof (intro ballI impI)
  fix t r'
  assume t: "t \<in> set ts" and r': "r' \<in> set (trigger_queue d')" "q_id r' = tk_id t \<and> is_open r'"
  from assms(3) r'(1) show "q_locked_by r' = Some (tk_worker t) \<and> q_batch_parent r' = None"
  proof (cases rule: evolves_new)
    case 1
    with assms(2) t r'(2) show ?thesis by (auto simp: tasks_known_def)
  next
    case (2 r)
    with assms(4) [OF t] r'(2) have "\<not> J r" by auto
    with 2 r'(2) assms(1) t show ?thesis by (auto simp: held_def spares_def)
  qed
qed

lemma held_frame: "held ts d \<Longrightarrow> trigger_queue d' = trigger_queue d \<Longrightarrow> held ts d'"
  by (simp add: held_def)

lemma not_free:
  assumes "strict_inv s" and "live_locks cfg s" and "t \<in> set (ts_tasks s)" and "r \<in> set (trigger_queue (ts_db s))"
    and "q_id r = tk_id t" and "is_open r"
  shows "\<not> lock_free cfg (db_now (ts_db s)) r"
  using assms by (auto simp: strict_inv_def held_def live_locks_def running_def lock_free_def)

lemma strict_poll:
  assumes strict: "strict_inv s" and live: "live_locks cfg s" and known: "tasks_known (ts_tasks s) (ts_db s)"
    and p: "polled M cfg (ts_db s) ls d'"
  shows "strict_inv \<lparr>ts_db = d', ts_tasks = ts_tasks s @ start_tasks cfg ls\<rparr>"
proof -
  let ?now = "db_now (ts_db s)"
  have wf: "queue_wf d'" and ls: "distinct (map ls_id ls)" using p by (simp_all add: polled_def queue_inv_def)
  have new: "\<exists>r \<in> set (trigger_queue d'). q_id r = ls_id l \<and> q_batch_parent r = None \<and>
      q_locked_by r = Some (wc_worker_id cfg) \<and> (uuid_next (ts_db s) \<le> ls_id l \<or>
        (\<exists>r0 \<in> set (trigger_queue (ts_db s)). q_id r0 = ls_id l \<and> is_open r0 \<and> lock_free cfg ?now r0))"
    if "l \<in> set ls" for l
    using p that by (force simp: polled_def)
  have "map tk_id (start_tasks cfg ls) = map ls_id ls" by (simp add: start_tasks_def tk_id_def)
  moreover have "tk_id t \<noteq> ls_id l" if t: "t \<in> set (ts_tasks s)" and l: "l \<in> set ls" for t l
  proof
    assume eq: "tk_id t = ls_id l"
    with known t have "ls_id l < uuid_next (ts_db s)" by (auto simp: tasks_known_def)
    with new [OF l] not_free [OF strict live t] eq show False by auto
  qed
  ultimately have "distinct (map tk_id (ts_tasks s @ start_tasks cfg ls))"
    using strict ls unfolding map_append distinct_append strict_inv_def by fastforce
  moreover have "held (start_tasks cfg ls) d'"
    unfolding held_def
  proof (intro ballI impI)
    fix t r
    assume "t \<in> set (start_tasks cfg ls)" and r: "r \<in> set (trigger_queue d')" "q_id r = tk_id t \<and> is_open r"
    then obtain l where l: "l \<in> set ls" "tk_id t = ls_id l" "tk_worker t = wc_worker_id cfg"
      by (auto simp: start_tasks_def tk_id_def)
    from new [OF l(1)] obtain r' where "r' \<in> set (trigger_queue d')" "q_id r' = ls_id l" "q_batch_parent r' = None"
        "q_locked_by r' = Some (wc_worker_id cfg)" by blast
    with wf_unique [OF wf r(1)] r l show "q_locked_by r = Some (tk_worker t) \<and> q_batch_parent r = None" by auto
  qed
  moreover have "held (ts_tasks s) d'"
  proof (rule held_evolves)
    show "queue_evolves (spares (\<lambda>r. is_open r \<and> lock_free cfg ?now r)) (ts_db s) d'"
      by (rule evolves_mono [of "calm_row cfg ?now"]) (use p in \<open>auto simp: polled_def calm_row_def spares_def\<close>)
  qed (use strict known not_free [OF strict live] in \<open>auto simp: strict_inv_def\<close>)
  ultimately show ?thesis by (auto simp: strict_inv_def held_def)
qed

lemma strict_inv_step:
  assumes step: "think_step True M aggregate tx env s s'" and inv: "fleet_inv M s" and strict: "strict_inv s"
    and M: "1 \<le> M" and agg: "keeps_queue aggregate"
  shows "strict_inv s'"
proof -
  have q: "queue_inv M (ts_db s)" and known: "tasks_known (ts_tasks s) (ts_db s)"
    using inv by (simp_all add: fleet_inv_def)
  have ids: "distinct (map tk_id (ts_tasks s))" and held: "held (ts_tasks s) (ts_db s)"
    using strict by (simp_all add: strict_inv_def)
  note keeps = held_evolves [OF held known]
  have quiet: "held (ts_tasks s) d" if "queue_evolves (spares (\<lambda>r. False)) (ts_db s) d" for d
    using keeps [OF that] by blast
  from step show ?thesis
  proof cases
    case (clock now p)
    with ids held show ?thesis by (simp add: strict_inv_def held_def)
  next
    case (elsewhere d)
    with ids held held_frame show ?thesis by (simp add: strict_inv_def)
  next
    case (enqueue t k sk obs m p sched i d)
    with ids quiet [OF evolves_enqueue] show ?thesis by (simp add: strict_inv_def)
  next
    case (promote cfg busy d)
    with ids quiet [OF evolves_promote] show ?thesis by (simp add: strict_inv_def)
  next
    case (startup cfg n d)
    then have d: "d = snd (recover_orphaned_trigger_locks cfg (ts_db s))" by simp
    have "held (ts_tasks s) d"
      unfolding d
    proof (rule keeps [OF evolves_recover])
      fix t r
      assume t: "t \<in> set (ts_tasks s)" and r: "r \<in> set (trigger_queue (ts_db s))" "q_id r = tk_id t"
      have "tk_worker t \<noteq> wc_worker_id cfg" using startup(4) t by (auto simp: in_flight_def filter_empty_conv)
      moreover have "row_ok M r" using q r(1) by (simp add: queue_inv_def)
      ultimately show "\<not> orphaned cfg (db_now (ts_db s)) r"
        using startup(4) held t r
        by (auto simp: orphaned_def held_def live_locks_def running_def row_ok_def)
    qed
    with ids startup(1) show ?thesis by (simp add: strict_inv_def)
  next
    case (poll cfg busy ls d)
    with poll_runs [OF q M agg, of cfg tx "in_flight cfg s" busy] have "polled M cfg (ts_db s) ls d"
      by (auto simp: fleet_def)
    with poll strict_poll [OF strict _ known] show ?thesis by simp
  next
    case (poll_raised cfg busy e d)
    with poll_runs [OF q M agg, of cfg tx "in_flight cfg s" busy] have "d = ts_db s"
      by (auto simp: fleet_def)
    with poll_raised ids held show ?thesis by (simp add: strict_inv_def)
  next
    case (heartbeat t cfg)
    with ids quiet [OF evolves_heartbeat] show ?thesis by (simp add: strict_inv_def)
  next
    case (finish cfg ts t us e d)
    have "members q = batch_members (ls_payload (tk_row t))"
      if "q \<in> set (trigger_queue (ts_db s))" "q_id q = ls_id (tk_row t)" for q
      using known that finish(3) by (auto simp: tasks_known_def tk_id_def)
    with end_task_ends [OF q finish(2,5)] have ev: "queue_evolves (spares (of_task (tk_id t))) (ts_db s) d"
      by (auto simp: tk_id_def)
    have sub: "set (ts @ us) \<subseteq> set (ts_tasks s)" using finish(3) by auto
    have "held (ts @ us) d"
    proof (rule held_evolves [OF held_subset [OF held sub] tasks_known_subset [OF known sub] ev])
      fix t' r
      assume t': "t' \<in> set (ts @ us)" and r: "r \<in> set (trigger_queue (ts_db s))" "q_id r = tk_id t'"
      have "tk_id t' \<in> tk_id ` set (ts @ us)" using t' by (rule imageI)
      then have "tk_id t' \<noteq> tk_id t" using distinct_map_append_mid [OF ids [unfolded finish(3)]] by (metis UnE image_Un set_append)
      moreover have "is_open r \<longrightarrow> q_batch_parent r = None" using held r subsetD [OF sub t'] by (auto simp: held_def)
      ultimately show "\<not> of_task (tk_id t) r" using r(2) by (auto simp: of_task_def)
    qed
    with ids finish(1,3) show ?thesis by (simp add: strict_inv_def)
  next
    case (crash w)
    with ids held_subset [OF held] show ?thesis by (auto simp: strict_inv_def distinct_map_filter)
  next
    case (lost ts t us)
    with ids held_subset [OF held, of "ts @ us"] show ?thesis by (auto simp: strict_inv_def)
  next
    case (reopen auth i reason reply d)
    have "held (ts_tasks s) d"
      by (rule keeps [of "\<lambda>r. q_id r = i"]) (use inv_retry [OF q M reopen(2,3)] reopen(4) in auto)
    with ids reopen(1) show ?thesis by (simp add: strict_inv_def)
  qed
qed

lemma strict_inv_reach:
  assumes "think_reach True M aggregate tx env s" and "1 \<le> M" and "keeps_queue aggregate"
  shows "strict_inv s"
  using assms(1)
proof induction
  case (empty d)
  then show ?case by (simp add: strict_inv_def held_def)
next
  case (step s s')
  then show ?case using strict_inv_step fleet_inv_reach assms(2,3) by blast
qed

end
