(* ===== verification/WorkerProperties.thy ===== *)
theory WorkerProperties
  imports WorkerSystem
begin

text \<open>What holds of the trigger queue and of the fleet of workers, and concrete runs of both.\<close>

section \<open>No event is lost\<close>

lemma eventually_pollable:
  assumes "row_ok (wc_trigger_max_attempts cfg) q" and "is_open q" and "q_batch_parent q = None" and "in_filter cfg (q_tenant q)"
  shows "\<exists>t0. \<forall>now \<ge> t0. pollable cfg now q"
proof -
  obtain at' where sched: "q_scheduled_for q = Some at'" using assms(1) by (auto simp: row_ok_def)
  obtain lk where lk: "q_locked_by q = None \<or> q_locked_at q = Some lk" using assms(1) by (auto simp: row_ok_def)
  define t0 where "t0 = Max {at', lk + seconds_us (wc_lock_timeout_s cfg) + 1,
    q_enqueued_at q + seconds_us (t1_batch_window_arg cfg), q_enqueued_at q + seconds_us (downstream_batch_window_arg cfg)}"
  have t0: "at' \<le> t0" "lk + seconds_us (wc_lock_timeout_s cfg) + 1 \<le> t0"
    "q_enqueued_at q + seconds_us (t1_batch_window_arg cfg) \<le> t0"
    "q_enqueued_at q + seconds_us (downstream_batch_window_arg cfg) \<le> t0"
    by (simp_all add: t0_def)
  have "pollable cfg now q" if "t0 \<le> now" for now
  proof -
    have "due now q" using t0(1) that by (simp add: due_def sched)
    moreover have "lock_free cfg now q" using lk t0(2) that by (auto simp: lock_free_def lock_stale_def)
    moreover have "waited (t1_batch_window_arg cfg) now q" "waited (downstream_batch_window_arg cfg) now q"
      using t0(3,4) that by (auto simp: waited_def)
    ultimately show ?thesis using assms by (auto simp: pollable_def leasable_def row_ok_def)
  qed
  then show ?thesis by blast
qed

text \<open>C22: Whatever the processes do - crashes, lost tasks, expired locks, polls whose aggregation
  raises, and operators' retries of triggers that are in no batch - an open T1 trigger is never
  lost: it, or an open batch of its tenant that lists it, satisfies the condition of the polling
  query of every worker that serves the tenant from some moment on. Operators' retries of members
  of a batch are not steps of these runs: they reopen a row that stays hidden in its completed
  batch. Nor does the condition say that a poll returns: while the aggregation raises, none does.\<close>

theorem no_event_lost:
  assumes "think_reach strict M aggregate tx env s" and "1 \<le> M" and "keeps_queue aggregate"
    and "r \<in> set (trigger_queue (ts_db s))" and "q_kind r = ''T1''" and "q_completed_at r = None"
    and "fleet M cfg" and "in_filter cfg (q_tenant r)"
  shows "\<exists>q \<in> set (trigger_queue (ts_db s)).
    (q = r \<or> q_batch_parent r = Some (q_id q) \<and> q_id r \<in> set (members q) \<and> q_tenant q = q_tenant r) \<and>
    (\<exists>t0. \<forall>now \<ge> t0. pollable cfg now q)"
proof -
  have inv: "queue_inv M (ts_db s)" using fleet_inv_reach [OF assms(1-3)] by (simp add: fleet_inv_def)
  have M: "wc_trigger_max_attempts cfg = M" using assms(7) by (simp add: fleet_def)
  obtain q where q: "q \<in> set (trigger_queue (ts_db s))" "is_open q" "q_batch_parent q = None" "q_tenant q = q_tenant r"
      "q = r \<or> q_batch_parent r = Some (q_id q) \<and> q_id r \<in> set (members q) \<and> q_tenant q = q_tenant r"
    using inv assms(4-6) by (cases "q_batch_parent r = None") (auto simp: queue_inv_def none_hidden_def batch_of_def)
  from q(1) inv have "row_ok (wc_trigger_max_attempts cfg) q" by (simp add: queue_inv_def M)
  from eventually_pollable [OF this q(2,3)] assms(8) q show ?thesis by auto
qed

section \<open>One task per trigger\<close>

text \<open>C23: In a run in which locks do not expire under a running task, process names are distinct
  and no running trigger is reopened, no trigger is run by two tasks, and an open trigger that a
  task runs is locked by the task's process and in no batch.\<close>

theorem one_task_per_trigger:
  assumes "think_reach True M aggregate tx env s" and "1 \<le> M" and "keeps_queue aggregate"
  shows "distinct (map tk_id (ts_tasks s)) \<and> (\<forall>t \<in> set (ts_tasks s). \<forall>r \<in> set (trigger_queue (ts_db s)).
    q_id r = tk_id t \<and> q_completed_at r = None \<longrightarrow>
      q_locked_by r = Some (tk_worker t) \<and> q_batch_parent r = None)"
  using strict_inv_reach [OF assms] by (simp add: strict_inv_def held_def)

section \<open>Concrete runs\<close>

definition plain_worker :: worker_config where
  "plain_worker = default_config\<lparr>wc_t1_window_s := 0, wc_down_window_s := 0, wc_prune := False\<rparr>"

definition one_event :: trigger_row where
  "one_event = \<lparr>q_id = 0, q_tenant = 1, q_kind = ''T1'', q_subkind = Some ''event_arrival'', q_observation = Some 7,
     q_model = None, q_payload = [], q_scheduled_for = Some 0, q_locked_by = None, q_locked_at = None,
     q_enqueued_at = 0, q_attempts = 0, q_completed_at = None, q_batch_parent = None, q_last_error = None,
     q_quarantined = None\<rparr>"

definition event_db :: queue_db where
  "event_db = empty_queue_db\<lparr>trigger_queue := [one_event], uuid_next := 1\<rparr>"

definition leased_db :: queue_db where
  "leased_db = empty_queue_db\<lparr>trigger_queue := [one_event\<lparr>q_locked_by := Some ''worker'', q_locked_at := Some 0\<rparr>], uuid_next := 1\<rparr>"

lemma event_enqueued:
  "enqueue_trigger 1 ''T1'' (Some ''event_arrival'') (Some 7) None None None None None empty_queue_db = (Inr 0, event_db)"
  by (simp add: enqueue_trigger_def take_uuid_def empty_queue_db_def event_db_def one_event_def)

lemma event_polled:
  "poll_and_dispatch (\<lambda>t. return_tx ()) tx plain_worker 0 (\<lambda>i. False) event_db = (Inr [leased_of one_event], leased_db)"
  by (simp add: poll_and_dispatch_def plain_worker_def default_config_def Let_def atomically_def bind_tx_def modify_tx_def
      return_tx_def prune_low_value_downstream_rows_def create_t1_batch_rows_def create_downstream_batch_rows_def
      t1_batching_enabled_def downstream_batching_enabled_def poll_rows_def poll_order_def pollable_def leasable_def
      lock_free_def due_def in_filter_def waited_def t1_batch_window_arg_def downstream_batch_window_arg_def
      event_db_def one_event_def empty_queue_db_def leased_db_def lease_rows_def upd_triggers_def lock_row_def)

lemma fleet_plain: "fleet 5 plain_worker"
  by (simp add: fleet_def plain_worker_def default_config_def)

lemma event_reached: "think_reach strict 5 (\<lambda>t. return_tx ()) tx env \<lparr>ts_db = event_db, ts_tasks = []\<rparr>"
proof (rule think_reach.step)
  show "think_reach strict 5 (\<lambda>t. return_tx ()) tx env \<lparr>ts_db = empty_queue_db, ts_tasks = []\<rparr>"
    by (rule think_reach.empty) (simp add: empty_queue_db_def)
  show "think_step strict 5 (\<lambda>t. return_tx ()) tx env \<lparr>ts_db = empty_queue_db, ts_tasks = []\<rparr> \<lparr>ts_db = event_db, ts_tasks = []\<rparr>"
    using think_step.enqueue [of _ _ _ _ _ _ _ "\<lparr>ts_db = empty_queue_db, ts_tasks = []\<rparr>", unfolded think_system.simps, OF event_enqueued]
    by simp
qed

lemma leased_reached:
  "think_reach strict 5 (\<lambda>t. return_tx ()) tx env \<lparr>ts_db = leased_db, ts_tasks = start_tasks plain_worker [leased_of one_event]\<rparr>"
proof (rule think_reach.step [OF event_reached])
  let ?s = "\<lparr>ts_db = event_db, ts_tasks = []\<rparr>"
  have "live_locks plain_worker ?s" by (simp add: live_locks_def running_def)
  moreover have "poll_and_dispatch (\<lambda>t. return_tx ()) tx plain_worker (in_flight plain_worker ?s) (\<lambda>i. False) (ts_db ?s)
      = (Inr [leased_of one_event], leased_db)"
    using event_polled by (simp add: in_flight_def)
  ultimately show "think_step strict 5 (\<lambda>t. return_tx ()) tx env ?s \<lparr>ts_db = leased_db, ts_tasks = start_tasks plain_worker [leased_of one_event]\<rparr>"
    using think_step.poll [OF fleet_plain, where s = ?s] by (metis append_Nil think_system.select_convs(2))
qed

theorem no_event_lost_witness:
  "\<exists>q \<in> set (trigger_queue event_db). (q = one_event \<or> q_batch_parent one_event = Some (q_id q) \<and>
     q_id one_event \<in> set (members q) \<and> q_tenant q = q_tenant one_event) \<and> (\<exists>t0. \<forall>now \<ge> t0. pollable plain_worker now q)"
  using no_event_lost [OF event_reached _ keeps_queue_id _ _ _ fleet_plain, of one_event]
  by (simp add: event_db_def one_event_def in_filter_def plain_worker_def default_config_def empty_queue_db_def)

theorem one_task_per_trigger_witness:
  "distinct (map tk_id (start_tasks plain_worker [leased_of one_event])) \<and>
   q_locked_by (hd (trigger_queue leased_db)) = Some ''worker''"
  using one_task_per_trigger [OF leased_reached _ keeps_queue_id]
  by (simp add: leased_db_def one_event_def start_tasks_def tk_id_def empty_queue_db_def plain_worker_def default_config_def
      leased_of_def)

section \<open>The rows of the queue\<close>

text \<open>C24: Every row of the trigger queue is well-formed, whatever the processes did: its identifier
  is a drawn one and no other row has it, it has a schedule, a lock has its time, an open trigger
  has attempts left, and a T1 batch is never itself inside a batch.\<close>

theorem queue_rows_well_formed:
  assumes "think_reach strict M aggregate tx env s" and "1 \<le> M" and "keeps_queue aggregate"
    and "r \<in> set (trigger_queue (ts_db s))"
  shows "q_id r < uuid_next (ts_db s) \<and> (\<forall>q \<in> set (trigger_queue (ts_db s)). q_id q = q_id r \<longrightarrow> q = r) \<and>
    q_scheduled_for r \<noteq> None \<and> (q_locked_by r \<noteq> None \<longrightarrow> q_locked_at r \<noteq> None) \<and>
    (q_completed_at r = None \<longrightarrow> 0 \<le> q_attempts r \<and> q_attempts r < M) \<and>
    (q_kind r = ''T1'' \<and> q_subkind r = Some ''event_batch'' \<longrightarrow> q_batch_parent r = None)"
proof -
  have inv: "queue_wf (ts_db s)" "row_ok M r"
    using fleet_inv_reach [OF assms(1-3)] assms(4) by (simp_all add: fleet_inv_def queue_inv_def)
  have "\<forall>q \<in> set (trigger_queue (ts_db s)). q_id q = q_id r \<longrightarrow> q = r"
    using wf_unique [OF inv(1)] assms(4) by blast
  with inv assms(4) show ?thesis by (auto simp: queue_wf_def row_ok_def is_event_batch_def)
qed

theorem queue_rows_well_formed_witness:
  "q_id one_event < uuid_next event_db \<and> q_attempts one_event < 5 \<and> q_scheduled_for one_event \<noteq> None"
  using queue_rows_well_formed [OF event_reached _ keeps_queue_id, of one_event]
  by (simp add: event_db_def one_event_def empty_queue_db_def)

section \<open>What a poll picks\<close>

definition before :: "trigger_row \<Rightarrow> trigger_row \<Rightarrow> bool" where
  "before r s \<longleftrightarrow> poll_priority r < poll_priority s \<or> poll_priority r = poll_priority s \<and> q_enqueued_at r \<le> q_enqueued_at s"

lemma sorted_by_both:
  assumes "sorted (map f xs)" and "\<And>k. sorted (map g (filter (\<lambda>x. f x = k) xs))"
  shows "sorted_wrt (\<lambda>x y. f x < f y \<or> f x = f y \<and> g x \<le> (g y :: 'b :: linorder)) (xs :: 'a list)"
  using assms
proof (induction xs)
  case (Cons x xs)
  have "sorted (map g (filter (\<lambda>y. f y = k) xs))" for k using Cons.prems(2) [of k] by (auto split: if_splits)
  moreover have "f x < f y \<or> f x = f y \<and> g x \<le> g y" if "y \<in> set xs" for y
    using Cons.prems(1) Cons.prems(2) [of "f x"] that by force
  ultimately show ?case using Cons.IH Cons.prems(1) by simp
qed simp

lemma poll_order_sorted: "sorted_wrt before (poll_order rs)"
  unfolding before_def poll_order_def
proof (rule sorted_by_both)
  fix k
  have "filter (\<lambda>x. poll_priority x = k) (sort_key poll_priority (sort_key q_enqueued_at rs))
      = sort_key q_enqueued_at (filter (\<lambda>x. poll_priority x = k) rs)"
    by (simp add: sort_key_stable filter_sort)
  then show "sorted (map q_enqueued_at (filter (\<lambda>x. poll_priority x = k) (sort_key poll_priority (sort_key q_enqueued_at rs))))"
    by simp
qed simp

text \<open>A poll picks the first rows of those that can be polled and are not busy: as many as there
  are slots, in the order of priority and age, and none that is left out goes before one that is
  picked.\<close>

theorem poll_picks_first:
  "length (poll_rows cfg busy n d) = min n (length (filter (\<lambda>r. pollable cfg (db_now d) r \<and> \<not> busy (q_id r)) (trigger_queue d))) \<and>
   sorted_wrt before (poll_rows cfg busy n d) \<and>
   set (poll_rows cfg busy n d) \<subseteq> {r \<in> set (trigger_queue d). pollable cfg (db_now d) r \<and> \<not> busy (q_id r)} \<and>
   (\<forall>r \<in> set (trigger_queue d). \<forall>s \<in> set (poll_rows cfg busy n d).
     pollable cfg (db_now d) r \<and> \<not> busy (q_id r) \<and> r \<notin> set (poll_rows cfg busy n d) \<longrightarrow> before s r)"
proof -
  let ?E = "filter (\<lambda>r. pollable cfg (db_now d) r \<and> \<not> busy (q_id r)) (trigger_queue d)"
  let ?L = "poll_order ?E"
  have L: "sorted_wrt before (take n ?L @ drop n ?L)" by (simp add: poll_order_sorted)
  then have parts: "sorted_wrt before (take n ?L)" "\<forall>s \<in> set (take n ?L). \<forall>r \<in> set (drop n ?L). before s r"
    unfolding sorted_wrt_append by blast+
  have set: "set ?L = set ?E" "length ?L = length ?E" by (simp_all add: poll_order_def)
  have "set ?L = set (take n ?L) \<union> set (drop n ?L)" by (metis append_take_drop_id set_append)
  then have left: "r \<in> set (drop n ?L)" if "r \<in> set ?E" "r \<notin> set (take n ?L)" for r
    using that set(1) by blast
  have rows: "poll_rows cfg busy n d = take n ?L" by (simp add: poll_rows_def)
  have "set (take n ?L) \<subseteq> set ?E" using set_take_subset [of n ?L] set(1) by simp
  with parts left show ?thesis unfolding rows by (auto simp: set(2) min.commute)
qed

theorem poll_picks_first_witness:
  "poll_rows plain_worker (\<lambda>i. False) 3 event_db \<noteq> [] \<and> length (poll_rows plain_worker (\<lambda>i. False) 3 event_db) \<le> 1"
proof -
  have "length (filter (\<lambda>r. pollable plain_worker (db_now event_db) r) (trigger_queue event_db)) = 1"
    by (simp add: pollable_def leasable_def lock_free_def due_def in_filter_def waited_def downstream_held_def
        is_latent_def is_belief_update_def is_event_arrival_def plain_worker_def default_config_def event_db_def one_event_def
        empty_queue_db_def t1_batch_window_arg_def downstream_batch_window_arg_def t1_batching_enabled_def)
  then show ?thesis using poll_picks_first [of plain_worker "\<lambda>i. False" 3 event_db] by (auto simp del: length_greater_0_conv)
qed

section \<open>Failures\<close>

text \<open>The trigger is leased, and its run fails, once for each error.\<close>

fun failing :: "environ \<Rightarrow> worker_config \<Rightarrow> uuid \<Rightarrow> string list \<Rightarrow> queue_db \<Rightarrow> queue_db" where
  "failing env cfg i [] d = d"
| "failing env cfg i (e # es) d =
    failing env cfg i es (snd (mark_trigger_failed env cfg i e False None None (lease_rows cfg [i] d)))"

definition at_attempt :: "int \<Rightarrow> uuid \<Rightarrow> bool \<Rightarrow> int \<Rightarrow> queue_db \<Rightarrow> bool" where
  "at_attempt M i op n d \<longleftrightarrow> queue_inv M d \<and> (\<exists>r \<in> set (trigger_queue d). q_id r = i \<and> (is_open r \<longleftrightarrow> op) \<and> q_attempts r = n)"

lemma find_unique:
  assumes "queue_wf d" and "r \<in> set (trigger_queue d)" and "holds_lock cfg i r"
  shows "find (holds_lock cfg i) (trigger_queue d) = Some r"
proof (cases "find (holds_lock cfg i) (trigger_queue d)")
  case None
  with assms show ?thesis by (auto simp: find_None_iff)
next
  case (Some s)
  from find_holds [OF Some] wf_unique [OF assms(1) _ assms(2), of s] assms(3) Some show ?thesis
    by (auto simp: holds_lock_def)
qed

lemma leased_attempt:
  assumes "at_attempt M i op n d"
  shows "at_attempt M i op n (lease_rows cfg [i] d) \<and> (\<exists>r \<in> set (trigger_queue (lease_rows cfg [i] d)).
    q_id r = i \<and> (is_open r \<longleftrightarrow> op) \<and> q_attempts r = n \<and> q_locked_by r = Some (wc_worker_id cfg))"
proof -
  from assms obtain r where r: "r \<in> set (trigger_queue d)" "q_id r = i" "is_open r \<longleftrightarrow> op" "q_attempts r = n"
    by (auto simp: at_attempt_def)
  let ?r = "lock_row (wc_worker_id cfg) (db_now d) r"
  from r have "?r \<in> set (trigger_queue (lease_rows cfg [i] d))"
    unfolding lease_rows_def set_upd_triggers by (intro rev_image_eqI [of r]) auto
  moreover have "queue_inv M (lease_rows cfg [i] d)" using assms inv_lease by (simp add: at_attempt_def)
  moreover have "q_id ?r = i \<and> (is_open ?r \<longleftrightarrow> op) \<and> q_attempts ?r = n \<and> q_locked_by ?r = Some (wc_worker_id cfg)"
    using r by (simp add: lock_row_def)
  ultimately show ?thesis unfolding at_attempt_def by blast
qed

lemma upd_row: "r \<in> set (trigger_queue d) \<Longrightarrow> P r \<Longrightarrow> f r \<in> set (trigger_queue (upd_triggers P f d))"
  unfolding set_upd_triggers by (rule rev_image_eqI) auto

lemma failing_open:
  assumes "at_attempt M i True n d" and "wc_trigger_max_attempts cfg = M"
  shows "at_attempt M i (n + 1 < M) (n + 1) (snd (mark_trigger_failed env cfg i e False None None (lease_rows cfg [i] d)))"
proof -
  let ?d = "lease_rows cfg [i] d"
  from leased_attempt [OF assms(1), of cfg] obtain r where inv: "queue_inv M ?d" and
    r: "r \<in> set (trigger_queue ?d)" "q_id r = i" "is_open r" "q_attempts r = n" "q_locked_by r = Some (wc_worker_id cfg)"
    by (auto simp: at_attempt_def)
  then have "0 \<le> q_attempts r" by (auto simp: queue_inv_def row_ok_def)
  moreover have "find (holds_lock cfg i) (trigger_queue ?d) = Some r"
    by (rule find_unique) (use inv r in \<open>auto simp: queue_inv_def holds_lock_def\<close>)
  ultimately obtain b where run: "mark_trigger_failed env cfg i e False None None ?d
      = (Inr (), failed_db env cfg i e False None None r b ?d)"
    using failed_row by blast
  have M: "effective_max_attempts env cfg None = M" using assms(2) by (simp add: effective_max_attempts_def split: option.split)
  let ?row = "if M \<le> n + 1 then fail_row (db_now ?d) (n + 1) e r else retry_row (db_now ?d) (n + 1) b e r"
  have in_queue: "?row \<in> set (trigger_queue (failed_db env cfg i e False None None r b ?d))"
  proof (cases "M \<le> n + 1")
    case True
    let ?P = "\<lambda>s. q_id s = i \<or> q_id s \<in> set (members r) \<and> q_batch_parent s = Some i \<and> is_open s"
    let ?f = "\<lambda>s. if q_id s = i then fail_row (db_now ?d) (n + 1) e s else released i (db_now ?d) s"
    have "trigger_queue (failed_db env cfg i e False None None r b ?d) = trigger_queue (upd_triggers ?P ?f ?d)"
      using True M r(4) by (simp add: failed_db_def Let_def split: option.split)
    with upd_row [of r ?d ?P ?f] r True show ?thesis by simp
  next
    case False
    then have "failed_db env cfg i e False None None r b ?d = upd_triggers (\<lambda>s. q_id s = i) (retry_row (db_now ?d) (n + 1) b e) ?d"
      using M r(4) by (simp add: failed_db_def Let_def feedback_row_def stored_feedback_def)
    with upd_row [of r ?d "\<lambda>s. q_id s = i" "retry_row (db_now ?d) (n + 1) b e"] r False show ?thesis by simp
  qed
  have "queue_inv M (failed_db env cfg i e False None None r b ?d)"
    by (rule inv_failed_db [OF inv assms(2) r(1)]) (use r in \<open>simp add: holds_lock_def\<close>)
  moreover have "q_id ?row = i \<and> (is_open ?row \<longleftrightarrow> n + 1 < M) \<and> q_attempts ?row = n + 1"
    using r by (auto simp: fail_row_def retry_row_def unlock_row_def)
  ultimately show ?thesis unfolding run at_attempt_def snd_conv by (intro conjI bexI [OF _ in_queue]) auto
qed

lemma failing_closed:
  assumes "at_attempt M i False n d"
  shows "at_attempt M i False n (snd (mark_trigger_failed env cfg i e False None None (lease_rows cfg [i] d)))"
proof -
  let ?d = "lease_rows cfg [i] d"
  have at': "at_attempt M i False n ?d" using leased_attempt [OF assms] by blast
  then obtain r where r: "queue_wf ?d" "r \<in> set (trigger_queue ?d)" "q_id r = i" "\<not> is_open r"
    by (auto simp: at_attempt_def queue_inv_def)
  have "find (holds_lock cfg i) (trigger_queue ?d) = None"
    using wf_unique [OF r(1) _ r(2)] r(3,4) by (auto simp: find_None_iff holds_lock_def)
  with failed_without_lock at' show ?thesis by simp
qed

text \<open>A trigger whose runs keep failing is retried until its attempts reach the bound and
  completed then, exactly: after fewer failures it is open, later ones change nothing.\<close>

theorem failures_end:
  assumes "queue_inv M d" and "wc_trigger_max_attempts cfg = M" and "r \<in> set (trigger_queue d)" and "q_completed_at r = None"
  shows "\<exists>r' \<in> set (trigger_queue (failing env cfg (q_id r) es d)). q_id r' = q_id r \<and>
    (q_completed_at r' = None \<longleftrightarrow> int (length es) < M - q_attempts r) \<and>
    q_attempts r' = min M (q_attempts r + int (length es))"
proof -
  have closed: "at_attempt M i False n (failing env cfg i fs d)" if "at_attempt M i False n d" for i n d fs
    using that by (induction fs arbitrary: d) (simp_all add: failing_closed)
  have "at_attempt M i (int (length es) < M - n) (min M (n + int (length es))) (failing env cfg i es d)"
    if "at_attempt M i True n d" "n < M" for i n d
    using that
  proof (induction es arbitrary: n d)
    case (Cons e es)
    let ?d = "snd (mark_trigger_failed env cfg i e False None None (lease_rows cfg [i] d))"
    have next_at: "at_attempt M i (n + 1 < M) (n + 1) ?d" by (rule failing_open [OF Cons.prems(1) assms(2)])
    show ?case
    proof (cases "n + 1 < M")
      case True
      with next_at Cons.IH [of "n + 1" ?d] show ?thesis by (simp add: algebra_simps)
    next
      case False
      then have "n + 1 = M" using Cons.prems(2) by simp
      then have "at_attempt M i False M ?d" using next_at by simp
      moreover have "\<not> int (length (e # es)) < M - n" "min M (n + int (length (e # es))) = M"
        using \<open>n + 1 = M\<close> by auto
      ultimately show ?thesis using closed [of i M ?d es] by (simp only: failing.simps)
    qed
  qed simp
  moreover have "q_attempts r < M" using assms by (auto simp: queue_inv_def row_ok_def)
  moreover have "at_attempt M (q_id r) True (q_attempts r) d" using assms by (auto simp: at_attempt_def)
  ultimately show ?thesis unfolding at_attempt_def by blast
qed

section \<open>Promotion\<close>

text \<open>The reevaluations one promotion looks at.\<close>

definition promoted_rows :: "worker_config \<Rightarrow> (uuid \<Rightarrow> bool) \<Rightarrow> queue_db \<Rightarrow> reeval_row list" where
  "promoted_rows cfg busy d =
    take (nat (wc_poll_batch cfg)) (sort_key rq_enqueued_at (filter (promotable cfg busy) (reeval_rows d)))"

abbreviation carried :: "queue_db \<Rightarrow> uuid \<Rightarrow> bool" where
  "carried d i \<equiv> list_ex (open_reeval_trigger i) (trigger_queue d)"

lemma promote_one_effect:
  assumes "promote_one r d = (Inr u, d')"
  shows "reeval_rows d' = reeval_rows d \<and> (\<exists>rs. trigger_queue d' = trigger_queue d @ rs) \<and> carried d' (rq_id r)"
proof (cases "carried d (rq_id r)")
  case True
  with assms show ?thesis by (simp add: promote_one_def)
next
  case False
  then show ?thesis
    using assms by (auto simp: promote_one_def bind_tx_def return_tx_def enqueue_trigger_def take_uuid_def Let_def
        open_reeval_trigger_def jget_def dict_get_or_def dict_get_def split: if_splits)
qed

lemma promote_all_effect:
  assumes "for_tx rs promote_one d = (Inr (), d')"
  shows "reeval_rows d' = reeval_rows d \<and> (\<exists>qs. trigger_queue d' = trigger_queue d @ qs) \<and> (\<forall>r \<in> set rs. carried d' (rq_id r))"
  using assms
proof (induction rs arbitrary: d)
  case (Cons r rs)
  then obtain u d1 where d1: "promote_one r d = (Inr u, d1)" "for_tx rs promote_one d1 = (Inr (), d')"
    by (auto simp: bind_tx_def split: prod.splits sum.splits)
  from promote_one_effect [OF d1(1)] Cons.IH [OF d1(2)] show ?case by (auto simp: list_ex_iff)
qed (simp add: return_tx_def)

lemma promote_carried: "\<forall>r \<in> set rs. carried d (rq_id r) \<Longrightarrow> for_tx rs promote_one d = (Inr (), d)"
  by (induction rs) (simp_all add: promote_one_def bind_tx_def return_tx_def)

lemma promote_eq: "promote_reeval_rows cfg busy d = atomically (\<lambda>d. for_tx (promoted_rows cfg busy d) promote_one d) d"
  by (simp add: promote_reeval_rows_def promoted_rows_def)

text \<open>A promotion gives each reevaluation it looks at an open T4 trigger, appending triggers
  and changing nothing else; running it again adds nothing.\<close>

theorem promotion_once:
  assumes "promote_reeval_rows cfg busy d = (Inr (), d')"
  shows "(\<exists>qs. trigger_queue d' = trigger_queue d @ qs) \<and> reeval_rows d' = reeval_rows d \<and>
    (\<forall>r \<in> set (promoted_rows cfg busy d). carried d' (rq_id r)) \<and>
    promote_reeval_rows cfg busy d' = (Inr (), d')"
proof -
  have run: "for_tx (promoted_rows cfg busy d) promote_one d = (Inr (), d')"
    using assms by (auto simp: promote_eq atomically_def split: prod.splits sum.splits)
  note all = promote_all_effect [OF run]
  then have "promoted_rows cfg busy d' = promoted_rows cfg busy d" by (simp add: promoted_rows_def)
  with all promote_carried [of "promoted_rows cfg busy d'" d'] show ?thesis by (simp add: promote_eq atomically_def)
qed

section \<open>Batches\<close>

text \<open>The members of a batch are the oldest rows of their group that count, at least the minimum
  and at most the maximum of them; without the fallback they lie in one window after the oldest row.\<close>

theorem batch_members_bounds:
  assumes "ready_batch_members rows max_size min_size window_s now allow fallback = Some ms"
  shows "min_size \<le> int (length ms) \<and> length ms \<le> nat max_size \<and> set ms \<subseteq> set rows \<and>
    sorted (map q_enqueued_at ms) \<and>
    (\<not> fallback \<longrightarrow> (\<forall>m \<in> set ms. \<exists>o' \<in> set rows. (\<forall>r \<in> set rows. q_enqueued_at o' \<le> q_enqueued_at r) \<and>
      seconds_between (q_enqueued_at m) (q_enqueued_at o') \<le> window_s))"
proof -
  obtain P where P: "ms = take (nat max_size) (filter P (sort_key q_enqueued_at rows))"
    using ready_members [OF assms] by blast
  have "sorted (map q_enqueued_at ms)"
    unfolding P using sorted_wrt_take [of "(\<le>)" "map q_enqueued_at (filter P (sort_key q_enqueued_at rows))"]
    by (simp add: take_map filter_sort)
  moreover have "\<exists>o' \<in> set rows. (\<forall>r \<in> set rows. q_enqueued_at o' \<le> q_enqueued_at r) \<and>
      seconds_between (q_enqueued_at m) (q_enqueued_at o') \<le> window_s"
    if m: "m \<in> set ms" and lane: "\<not> fallback" for m
  proof (cases "sort_key q_enqueued_at rows")
    case Nil
    with assms show ?thesis by (simp add: ready_batch_members_def)
  next
    case (Cons o' ys)
    then have "set rows = set (o' # ys)" "sorted (map q_enqueued_at (o' # ys))"
      by (metis set_sort, metis sorted_sort_key)
    moreover have picked: "m \<in> set (take (nat max_size) (filter (\<lambda>r. seconds_between (q_enqueued_at r) (q_enqueued_at o') \<le> window_s) (o' # ys)))"
      using assms m lane unfolding ready_batch_members_def Cons by (auto simp: Let_def split: if_splits)
    moreover have "seconds_between (q_enqueued_at m) (q_enqueued_at o') \<le> window_s"
      using in_set_takeD [OF picked] unfolding set_filter by blast
    ultimately show ?thesis by (intro bexI [of _ o']) auto
  qed
  ultimately show ?thesis using ready_bounds [OF assms] ready_subset [OF assms] by blast
qed

text \<open>The loop that fills the slots with batches stops by itself: as many passes as there are
  slots are enough, and more change neither the result nor the database.\<close>

theorem batch_loop_ends:
  "batch_loop (slots + k) B slots groups acc d = batch_loop slots B slots groups acc d"
  by (rule batch_loop_fuel) simp

section \<open>The end of a batch\<close>

text \<open>C25: The terminal failure of a batch by the worker that holds it gives its members back: each
  open member stays open, leaves the batch, is unlocked and due at once, is never put into a batch
  again, and keeps its attempts; the batch is completed with its error.\<close>

theorem failed_batch_frees_members:
  assumes "queue_inv M d" and "row \<in> set (trigger_queue d)" and "q_completed_at row = None"
    and "q_locked_by row = Some (wc_worker_id cfg)" and "force \<or> effective_max_attempts env cfg cls \<le> q_attempts row + 1"
    and "m \<in> set (trigger_queue d)" and "q_id m \<in> set (members row)" and "q_batch_parent m = Some (q_id row)"
    and "q_completed_at m = None" and "q_id m \<noteq> q_id row"
  shows "\<exists>d' m' row'. mark_trigger_failed env cfg (q_id row) error force cls feedback d = (Inr (), d') \<and>
    m' \<in> set (trigger_queue d') \<and> q_id m' = q_id m \<and> q_completed_at m' = None \<and> q_batch_parent m' = None \<and>
    q_locked_by m' = None \<and> due (db_now d) m' \<and> q_attempts m' = q_attempts m \<and>
    (\<forall>cfg now. \<not> t1_candidate cfg now m' \<and> \<not> downstream_candidate cfg now m') \<and>
    row' \<in> set (trigger_queue d') \<and> q_id row' = q_id row \<and> q_completed_at row' = Some (db_now d) \<and>
    q_last_error row' = Some (take 2000 error)"
proof -
  have held: "holds_lock cfg (q_id row) row" using assms(3,4) by (simp add: holds_lock_def)
  have "0 \<le> q_attempts row" using assms(1-3) by (auto simp: queue_inv_def row_ok_def)
  then obtain b where run: "mark_trigger_failed env cfg (q_id row) error force cls feedback d
      = (Inr (), failed_db env cfg (q_id row) error force cls feedback row b d)"
    using failed_row find_unique [OF _ assms(2) held] assms(1) by (metis queue_inv_def)
  let ?P = "\<lambda>r. q_id r = q_id row \<or> q_id r \<in> set (members row) \<and> q_batch_parent r = Some (q_id row) \<and> is_open r"
  let ?f = "\<lambda>r. if q_id r = q_id row then fail_row (db_now d) (q_attempts row + 1) error r else released (q_id row) (db_now d) r"
  have queue: "trigger_queue (failed_db env cfg (q_id row) error force cls feedback row b d) = trigger_queue (upd_triggers ?P ?f d)"
    using assms(5) by (auto simp: failed_db_def Let_def split: option.split)
  have m: "released (q_id row) (db_now d) m \<in> set (trigger_queue (failed_db env cfg (q_id row) error force cls feedback row b d))"
    unfolding queue using upd_row [of m d ?P ?f] assms(6-10) by simp
  have row: "fail_row (db_now d) (q_attempts row + 1) error row \<in> set (trigger_queue (failed_db env cfg (q_id row) error force cls feedback row b d))"
    unfolding queue using upd_row [of row d ?P ?f] assms(2) by simp
  have "\<not> unbatched (released (q_id row) (db_now d) m)"
    by (simp add: unbatched_def released_def jget_def dict_get_or_def dict_simps)
  then have "\<forall>cfg now. \<not> t1_candidate cfg now (released (q_id row) (db_now d) m) \<and>
      \<not> downstream_candidate cfg now (released (q_id row) (db_now d) m)"
    by (simp add: t1_candidate_def downstream_candidate_def)
  note freed = conjI [OF run conjI [OF m _]]
  show ?thesis
    by (rule exI, rule exI [of _ "released (q_id row) (db_now d) m"],
        rule exI [of _ "fail_row (db_now d) (q_attempts row + 1) error row"], rule freed)
      (use \<open>\<forall>cfg now. _ cfg now\<close> row assms(9) in \<open>simp add: released_def fail_row_def unlock_row_def due_def\<close>)
qed

section \<open>Findings\<close>

text \<open>
  A lease expires under a task that waits: rows are leased together, but only a running task
  renews its lock (\<open>_dispatch_trigger\<close> waits for the tenant's semaphore first). The same process
  then leases the trigger a second time.
\<close>

lemma expired_lease_runs_twice:
  "\<exists>s. think_reach False 5 (\<lambda>t. return_tx ()) tx env s \<and> \<not> distinct (map tk_id (ts_tasks s))"
proof -
  let ?late = "leased_db\<lparr>db_now := 601000000, py_now := 0\<rparr>"
  let ?again = "empty_queue_db\<lparr>trigger_queue := [one_event\<lparr>q_locked_by := Some ''worker'', q_locked_at := Some 601000000\<rparr>],
    uuid_next := 1, db_now := 601000000\<rparr>"
  let ?tasks = "start_tasks plain_worker [leased_of one_event]"
  let ?s = "\<lparr>ts_db = ?late, ts_tasks = ?tasks\<rparr>"
  have late: "think_reach False 5 (\<lambda>t. return_tx ()) tx env ?s"
    using think_reach.step [OF leased_reached think_step.clock] by (simp add: leased_db_def empty_queue_db_def)
  have "poll_and_dispatch (\<lambda>t. return_tx ()) tx plain_worker (in_flight plain_worker ?s) (\<lambda>i. False) (ts_db ?s)
      = (Inr [leased_of one_event], ?again)"
    by (simp add: poll_and_dispatch_def plain_worker_def default_config_def Let_def atomically_def bind_tx_def modify_tx_def
      return_tx_def prune_low_value_downstream_rows_def create_t1_batch_rows_def create_downstream_batch_rows_def
      t1_batching_enabled_def downstream_batching_enabled_def poll_rows_def poll_order_def pollable_def leasable_def
      lock_free_def due_def in_filter_def waited_def t1_batch_window_arg_def downstream_batch_window_arg_def lock_stale_def
      seconds_us_def in_flight_def start_tasks_def leased_of_def
      one_event_def empty_queue_db_def leased_db_def lease_rows_def upd_triggers_def lock_row_def)
  from think_reach.step [OF late think_step.poll [OF fleet_plain _ this]]
  have "think_reach False 5 (\<lambda>t. return_tx ()) tx env \<lparr>ts_db = ?again, ts_tasks = ?tasks @ ?tasks\<rparr>" by simp
  moreover have "\<not> distinct (map tk_id (?tasks @ ?tasks))" by (simp add: start_tasks_def)
  ultimately show ?thesis by (metis think_system.select_convs(2))
qed

text \<open>Attempts are counted when a run fails; a process that dies in the run is not counted.\<close>

lemma crashes_not_counted:
  assumes "r \<in> set (trigger_queue d)" and "q_completed_at r = None" and "in_filter cfg (q_tenant r)"
  shows "\<exists>r' \<in> set (trigger_queue (snd (recover_orphaned_trigger_locks cfg (lease_rows cfg [q_id r] d)))).
    q_id r' = q_id r \<and> q_completed_at r' = None \<and> q_locked_by r' \<noteq> Some (wc_worker_id cfg) \<and> q_attempts r' = q_attempts r"
proof -
  let ?l = "lock_row (wc_worker_id cfg) (db_now d) r"
  have "?l \<in> set (trigger_queue (lease_rows cfg [q_id r] d))"
    unfolding lease_rows_def using upd_row [of r d] assms(1) by simp
  then show ?thesis
    unfolding recover_orphaned_trigger_locks_def snd_conv set_upd_triggers using assms(2,3)
    by (intro bexI [of _ "unlock_row ?l"] rev_image_eqI [of ?l]) (auto simp: orphaned_def unlock_row_def lock_row_def)
qed

text \<open>
  The pruning completes the row of a batch of beliefs when the model of its first member has
  nothing to reconsider any more; the members stay open inside the completed batch, where no
  query finds them.
\<close>

definition belief :: "uuid \<Rightarrow> uuid option \<Rightarrow> dict \<Rightarrow> trigger_row" where
  "belief i parent p = one_event\<lparr>q_id := i, q_kind := ''T2'', q_subkind := Some ''belief_updated'', q_observation := None,
     q_model := Some 3, q_payload := p, q_batch_parent := parent\<rparr>"

definition belief_batch_db :: queue_db where
  "belief_batch_db = empty_queue_db\<lparr>uuid_next := 6,
     trigger_queue := [belief 1 (Some 5) [], belief 2 (Some 5) [],
       belief 5 None [(''batch_member_trigger_ids'', JList [JUuid 1, JUuid 2])]],
     model_columns := [\<lparr>mc_id = 3, mc_tenant = 1, mc_kind = None, mc_falsifiable = False, mc_evaluate_at = None, mc_resolution = None\<rparr>]\<rparr>"

lemma for_return: "for_tx ts (\<lambda>t. return_tx ()) d = (Inr (), d)"
  by (induction ts) (simp_all add: bind_tx_def return_tx_def)

lemma pruned_batch_hides_members:
  "\<exists>d. prune_low_value_downstream_rows (\<lambda>t. return_tx ()) default_config belief_batch_db = (Inr (), d) \<and>
   map (\<lambda>r. (q_id r, q_completed_at r, q_batch_parent r)) (trigger_queue d)
     = [(1, None, Some 5), (2, None, Some 5), (5, Some 0, None)] \<and>
   (\<forall>r \<in> set (trigger_queue d). \<forall>cfg now. \<not> leasable cfg now r)"
proof -
  have agg: "aggregate_for_pruning (\<lambda>t. return_tx ()) cfg d = (Inr (), d)" for cfg d
    by (simp add: aggregate_for_pruning_def for_return)
  have "\<exists>d. prune_low_value_downstream_rows (\<lambda>t. return_tx ()) default_config belief_batch_db = (Inr (), d) \<and>
      trigger_queue d =
      [belief 1 (Some 5) [], belief 2 (Some 5) [],
       auto_complete default_config 0 ''non_prediction_belief_updated_noop'' []
         (belief 5 None [(''batch_member_trigger_ids'', JList [JUuid 1, JUuid 2])])]"
    by (simp add: prune_low_value_downstream_rows_def agg bind_tx_def Let_def prune_noop_beliefs_def prune_missing_models_def
        prune_edge_types_def
        edge_type_trigger_def prune_low_value_t4_topology_candidate_rows_def upd_triggers_def prunable_def is_belief_update_def
        is_latent_def in_filter_def model_of_trigger_def nothing_to_reconsider_def belief_batch_db_def belief_def one_event_def
        empty_queue_db_def default_config_def auto_complete_def unlock_row_def)
  then obtain d where d: "prune_low_value_downstream_rows (\<lambda>t. return_tx ()) default_config belief_batch_db = (Inr (), d)"
    "trigger_queue d = [belief 1 (Some 5) [], belief 2 (Some 5) [],
       auto_complete default_config 0 ''non_prediction_belief_updated_noop'' []
         (belief 5 None [(''batch_member_trigger_ids'', JList [JUuid 1, JUuid 2])])]" by blast
  show ?thesis
    by (rule exI [of _ d]) (simp add: d auto_complete_def unlock_row_def belief_def one_event_def leasable_def)
qed

text \<open>
  A promotion looks at the oldest waiting_reeval reevaluations, those that have a trigger already
  included: when they fill the batch, younger ones wait although nothing runs for them.
\<close>

definition waiting_reeval :: "uuid \<Rightarrow> time \<Rightarrow> reeval_row" where
  "waiting_reeval i t = \<lparr>rq_id = i, rq_tenant = 1, rq_model = 3, rq_cause = None, rq_kind = ''cascade'',
     rq_processed_at = None, rq_enqueued_at = t, rq_attempts = 0, rq_last_error = None\<rparr>"

definition waiting_db :: queue_db where
  "waiting_db = empty_queue_db\<lparr>uuid_next := 20, reeval_rows := [waiting_reeval 10 0, waiting_reeval 11 1]\<rparr>"

definition small_worker :: worker_config where
  "small_worker = default_config\<lparr>wc_poll_batch := 1\<rparr>"

lemma promotion_waits:
  "\<exists>d. promote_reeval_rows small_worker (\<lambda>i. False) waiting_db = (Inr (), d) \<and> carried d 10 \<and> \<not> carried d 11 \<and>
     promote_reeval_rows small_worker (\<lambda>i. False) d = (Inr (), d)"
proof -
  have rows: "promoted_rows small_worker (\<lambda>i. False) waiting_db = [waiting_reeval 10 0]"
    by (simp add: promoted_rows_def promotable_def small_worker_def default_config_def waiting_db_def waiting_reeval_def
        empty_queue_db_def in_filter_def)
  have "\<exists>d. promote_reeval_rows small_worker (\<lambda>i. False) waiting_db = (Inr (), d) \<and> \<not> carried d 11"
    unfolding promote_eq atomically_def rows
    by (simp add: bind_tx_def return_tx_def promote_one_def waiting_db_def waiting_reeval_def
        empty_queue_db_def enqueue_trigger_def take_uuid_def open_reeval_trigger_def jget_def dict_get_or_def dict_get_def)
  then obtain d where d: "promote_reeval_rows small_worker (\<lambda>i. False) waiting_db = (Inr (), d)" "\<not> carried d 11" by blast
  with promote_all_effect [of "[waiting_reeval 10 0]" waiting_db d] rows have "carried d 10"
    by (auto simp: promote_eq atomically_def waiting_reeval_def split: prod.splits sum.splits)
  moreover have "promoted_rows small_worker (\<lambda>i. False) d = promoted_rows small_worker (\<lambda>i. False) waiting_db"
    using d(1) promote_all_effect [of "promoted_rows small_worker (\<lambda>i. False) waiting_db" waiting_db d]
    by (auto simp: promote_eq atomically_def promoted_rows_def split: prod.splits sum.splits)
  then have "promote_reeval_rows small_worker (\<lambda>i. False) d = (Inr (), d)"
    using promote_carried [of "[waiting_reeval 10 0]" d] \<open>carried d 10\<close> rows by (simp add: promote_eq atomically_def waiting_reeval_def)
  ultimately show ?thesis using d by blast
qed

section \<open>Witnesses\<close>

lemma event_inv: "queue_inv 5 event_db"
  by (simp add: queue_inv_def queue_wf_def row_ok_def none_hidden_def is_event_batch_def event_db_def one_event_def empty_queue_db_def)

theorem failures_end_witness:
  "\<exists>r' \<in> set (trigger_queue (failing (\<lambda>k. None) default_config 0 [''a'', ''b'', ''c'', ''d'', ''e''] event_db)).
     q_id r' = 0 \<and> q_completed_at r' \<noteq> None \<and> q_attempts r' = 5"
  using failures_end [OF event_inv, of default_config one_event "\<lambda>k. None" "[''a'', ''b'', ''c'', ''d'', ''e'']"]
  by (auto simp: event_db_def one_event_def default_config_def)

theorem promotion_once_witness:
  "\<exists>d. carried d 10 \<and> promote_reeval_rows small_worker (\<lambda>i. False) d = (Inr (), d)"
proof -
  obtain d where d: "promote_reeval_rows small_worker (\<lambda>i. False) waiting_db = (Inr (), d)" using promotion_waits by blast
  moreover have "promoted_rows small_worker (\<lambda>i. False) waiting_db = [waiting_reeval 10 0]"
    by (simp add: promoted_rows_def promotable_def small_worker_def default_config_def waiting_db_def waiting_reeval_def
        empty_queue_db_def in_filter_def)
  ultimately show ?thesis using promotion_once [OF d] by (auto simp: waiting_reeval_def)
qed

definition two_events :: "trigger_row list" where
  "two_events = [one_event\<lparr>q_id := 1, q_enqueued_at := 5\<rparr>, one_event]"

theorem batch_members_bounds_witness:
  "sorted (map q_enqueued_at [one_event, one_event\<lparr>q_id := 1, q_enqueued_at := 5\<rparr>])"
  using batch_members_bounds [of two_events 2 2 30 0 True False "[one_event, one_event\<lparr>q_id := 1, q_enqueued_at := 5\<rparr>]"]
  by (simp add: two_events_def ready_batch_members_def one_event_def seconds_between_def Let_def)

definition batch_db :: queue_db where
  "batch_db = empty_queue_db\<lparr>uuid_next := 6, trigger_queue := [one_event\<lparr>q_batch_parent := Some 5\<rparr>,
     one_event\<lparr>q_id := 5, q_subkind := Some ''event_batch'', q_locked_by := Some ''worker'', q_locked_at := Some 0,
       q_attempts := 4, q_payload := [(''batch_member_trigger_ids'', JList [JUuid 0])]\<rparr>]\<rparr>"

lemma batch_inv: "queue_inv 5 batch_db"
  by (simp add: queue_inv_def queue_wf_def row_ok_def none_hidden_def batch_of_def is_event_batch_def batch_db_def one_event_def
      empty_queue_db_def members_def batch_members_def payload_uuid_list_def jget_def dict_get_or_def dict_get_def)

theorem failed_batch_frees_members_witness:
  "\<exists>d' m'. mark_trigger_failed (\<lambda>k. None) default_config 5 ''boom'' False None None batch_db = (Inr (), d') \<and>
     m' \<in> set (trigger_queue d') \<and> q_id m' = 0 \<and> q_batch_parent m' = None"
  using failed_batch_frees_members [OF batch_inv, of "trigger_queue batch_db ! 1" default_config False "\<lambda>k. None" None
      "trigger_queue batch_db ! 0" "''boom''" None]
  by (auto simp: batch_db_def one_event_def default_config_def effective_max_attempts_def validation_max_attempts_env_def
      env_int_def env_text_def members_def batch_members_def payload_uuid_list_def jget_def dict_get_or_def dict_get_def)

end
