(* ===== verification/Candidates.thy ===== *)
theory Candidates
  imports EdgeStore
begin

text \<open>
  Relationship candidates, the hypotheses about relations between beliefs that are not yet truth:
  the scores of \<open>services/reasoning/judgment/scoring.py\<close>, the constructors of
  \<open>services/reasoning/relationships/candidates.py\<close>, and the rows and readers of
  \<open>relationships/repo.py\<close>. Scores are real numbers. \<open>str_of\<close> is \<open>str()\<close> on a value. What a
  decision does is in \<open>EdgePromotion\<close>; the per-kind text rules that generate candidates
  are not modelled.
\<close>

section \<open>Scores\<close>

definition clamp_score :: "real \<Rightarrow> real" where
  "clamp_score v = max 0 (min 1 v)"

record judgment_scores =
  js_impact :: real
  js_uncertainty :: real
  js_urgency :: real
  js_reversibility :: real
  js_authority :: real
  js_actionability :: real
  js_novelty :: real
  js_confidence :: real

definition judgment_leverage :: "judgment_scores \<Rightarrow> real" where
  "judgment_leverage s = clamp_score
    (22 / 100 * clamp_score (js_impact s) + 16 / 100 * clamp_score (js_urgency s)
     + 15 / 100 * clamp_score (js_actionability s) + 14 / 100 * clamp_score (js_authority s)
     + 12 / 100 * clamp_score (js_uncertainty s) + 10 / 100 * clamp_score (js_novelty s)
     + 7 / 100 * clamp_score (js_reversibility s) + 4 / 100 * clamp_score (js_confidence s))"

definition clamped_scores :: "judgment_scores \<Rightarrow> judgment_scores" where
  "clamped_scores s = \<lparr>js_impact = clamp_score (js_impact s), js_uncertainty = clamp_score (js_uncertainty s),
     js_urgency = clamp_score (js_urgency s), js_reversibility = clamp_score (js_reversibility s),
     js_authority = clamp_score (js_authority s), js_actionability = clamp_score (js_actionability s),
     js_novelty = clamp_score (js_novelty s), js_confidence = clamp_score (js_confidence s)\<rparr>"

section \<open>Candidates\<close>

record rel_candidate =
  rk_id :: uuid
  rk_tenant :: uuid
  rk_kind :: string
  rk_basis :: string
  rk_source_model :: "uuid option"
  rk_target_model :: "uuid option"
  rk_edge_kind :: "string option"
  rk_members :: "uuid list"
  rk_events :: "uuid list"
  rk_models :: "uuid list"
  rk_counter :: "uuid list"
  rk_proposition :: "dict option"
  rk_explanation :: string
  rk_scores :: judgment_scores
  rk_source :: string
  rk_review :: string
  rk_metadata :: dict

definition SITUATION_PRESSURE_TYPES :: "string list" where
  "SITUATION_PRESSURE_TYPES = [''capacity'', ''trust'', ''revenue'', ''compliance'', ''decision'', ''execution'',
     ''market'', ''resource'']"

definition set_default :: "string \<Rightarrow> json \<Rightarrow> dict \<Rightarrow> dict" where
  "set_default k v d = (if dict_has d k then d else dict_set k v d)"

definition candidate_lifecycle_metadata :: "dict \<Rightarrow> string \<Rightarrow> string \<Rightarrow> dict" where
  "candidate_lifecycle_metadata metadata candidate_kind source =
    (let lifecycle = (case jget metadata ''candidate_lifecycle'' of JObj l \<Rightarrow> l | _ \<Rightarrow> []);
         lifecycle = set_default ''stage'' (JStr ''memory_proposal'') lifecycle;
         lifecycle = set_default ''proposal_kind'' (JStr candidate_kind) lifecycle;
         lifecycle = set_default ''origin'' (JStr source) lifecycle;
         lifecycle = set_default ''origin_stage''
           (JStr (if source = ''latent_topology'' then ''pattern_discovery'' else ''direct_proposal'')) lifecycle
     in dict_set ''candidate_lifecycle'' (JObj lifecycle) metadata)"

definition make_topology_candidate_metadata :: "string \<Rightarrow> string \<Rightarrow> dict \<Rightarrow> dict list \<Rightarrow> string list \<Rightarrow> dict" where
  "make_topology_candidate_metadata proposal_kind pattern_kind score_components impact_signatures selection_sources =
    candidate_lifecycle_metadata
      [(''candidate_lifecycle'', JObj
         [(''stage'', JStr ''memory_proposal''), (''origin'', JStr ''latent_topology''),
          (''origin_stage'', JStr ''pattern_discovery''), (''proposal_kind'', JStr proposal_kind),
          (''discovery_pattern_kind'', JStr pattern_kind)]),
       (''topology'', JObj
         [(''kind'', JStr ''latent_relationship_field''), (''object_type'', JStr (pattern_kind @ ''_candidate'')),
          (''selection_sources'', JList (map JStr selection_sources)),
          (''score_components'', JObj score_components),
          (''impact_signatures'', JList (map JObj impact_signatures))])]
      proposal_kind ''latent_topology''"

definition CAUSAL_BASES :: "string list" where
  "CAUSAL_BASES = [''causal_hypothesis'', ''causal_confirmed'']"

definition json_opt :: "string option \<Rightarrow> json" where
  "json_opt v = (case v of None \<Rightarrow> JNull | Some s \<Rightarrow> JStr s)"

definition has_text :: "string option \<Rightarrow> bool" where
  "has_text v \<longleftrightarrow> (case v of None \<Rightarrow> False | Some s \<Rightarrow> s \<noteq> [])"

definition make_edge_candidate ::
  "uuid \<Rightarrow> uuid \<Rightarrow> uuid \<Rightarrow> uuid \<Rightarrow> string \<Rightarrow> string \<Rightarrow> string \<Rightarrow> judgment_scores \<Rightarrow> uuid list \<Rightarrow> uuid list \<Rightarrow>
   string option \<Rightarrow> string option \<Rightarrow> string option \<Rightarrow> string list \<Rightarrow> dict \<Rightarrow> string \<Rightarrow> string \<Rightarrow> rel_candidate result" where
  "make_edge_candidate new_id tenant_id source_model_id target_model_id edge_kind basis explanation scores
     evidence_model_ids evidence_event_ids mechanism_summary intervention_surface expected_delay confounders
     metadata source review_status =
    (if source_model_id = target_model_id then Inl (ValueError ''relationship candidate cannot be a self-edge'')
     else if basis \<in> set CAUSAL_BASES \<and> (case mechanism_summary of None \<Rightarrow> True | Some m \<Rightarrow> py_strip m = [])
     then Inl (ValueError ''causal relationship candidate requires mechanism_summary'')
     else Inr
      (let metadata = (if has_text mechanism_summary \<or> has_text intervention_surface \<or> has_text expected_delay \<or>
             confounders \<noteq> [] \<or> basis \<in> set CAUSAL_BASES
           then dict_set ''causal'' (JObj [(''basis'', JStr basis), (''mechanism_summary'', json_opt mechanism_summary),
             (''intervention_surface'', json_opt intervention_surface), (''expected_delay'', json_opt expected_delay),
             (''confounders'', JList (map JStr confounders))]) metadata
           else metadata)
       in \<lparr>rk_id = new_id, rk_tenant = tenant_id, rk_kind = ''edge'', rk_basis = basis,
           rk_source_model = Some source_model_id, rk_target_model = Some target_model_id,
           rk_edge_kind = Some edge_kind, rk_members = [source_model_id, target_model_id],
           rk_events = evidence_event_ids,
           rk_models = (if evidence_model_ids = [] then [source_model_id, target_model_id] else evidence_model_ids),
           rk_counter = [], rk_proposition = None, rk_explanation = explanation, rk_scores = scores,
           rk_source = source, rk_review = review_status, rk_metadata = metadata\<rparr>))"

definition make_situation_candidate ::
  "uuid \<Rightarrow> uuid \<Rightarrow> string \<Rightarrow> string \<Rightarrow> string \<Rightarrow> uuid list \<Rightarrow> string \<Rightarrow> judgment_scores \<Rightarrow> uuid list \<Rightarrow> dict \<Rightarrow>
   string \<Rightarrow> string \<Rightarrow> rel_candidate result" where
  "make_situation_candidate new_id tenant_id situation summary relationship_summary member_model_ids basis scores
     evidence_event_ids metadata source review_status =
    (let members = dedup member_model_ids in
     if length members < 2 then Inl (ValueError ''situation candidate requires at least two member models'')
     else
      let pressure_type = (case jget metadata ''pressure_type'' of JStr p \<Rightarrow>
            if p \<in> set SITUATION_PRESSURE_TYPES then p else ''execution'' | _ \<Rightarrow> ''execution'');
          proposition = [(''kind'', JStr ''belief''), (''legacy_kind'', JStr ''situation''),
            (''claim_role'', JStr ''situation''), (''abstraction_level'', JStr ''composite''),
            (''time_mode'', JStr ''current''), (''modality'', JStr ''inferred''), (''polarity'', JStr ''mixed''),
            (''situation'', JStr situation), (''summary'', JStr summary),
            (''member_model_ids'', JList (map JUuid members)),
            (''relationship_summary'', JStr relationship_summary), (''status'', JStr ''forming''),
            (''pressure_type'', JStr pressure_type), (''shared_mechanism'', JStr relationship_summary),
            (''judgment_change'', JStr (''Treat the member models as one composite situation because '' @
              relationship_summary)),
            (''open_falsifier'', JStr (''The shared mechanism no longer holds, or the member models '' @
              ''stop being jointly true.''))]
      in Inr \<lparr>rk_id = new_id, rk_tenant = tenant_id, rk_kind = ''situation'', rk_basis = basis,
           rk_source_model = None, rk_target_model = None, rk_edge_kind = None, rk_members = members,
           rk_events = evidence_event_ids, rk_models = members, rk_counter = [],
           rk_proposition = Some proposition, rk_explanation = relationship_summary, rk_scores = scores,
           rk_source = source, rk_review = review_status, rk_metadata = metadata\<rparr>)"

text \<open>\<open>promotion_criteria or {..}\<close>; \<open>parent_kind or nearest_existing_kind\<close> is \<open>or_text\<close>.\<close>

definition default_criteria :: "int \<Rightarrow> dict" where
  "default_criteria minimum = [(''minimum_distinct_examples'', JInt minimum),
     (''requires_human_or_llm_adjudication'', JBool True), (''requires_registry_spec'', JBool True)]"

definition make_edge_type_candidate ::
  "uuid \<Rightarrow> uuid \<Rightarrow> string \<Rightarrow> string \<Rightarrow> string \<Rightarrow> judgment_scores \<Rightarrow> string option \<Rightarrow> string option \<Rightarrow> string \<Rightarrow>
   string option \<Rightarrow> string list \<Rightarrow> uuid list \<Rightarrow> uuid list \<Rightarrow> uuid option \<Rightarrow> uuid option \<Rightarrow> dict \<Rightarrow> dict \<Rightarrow> string \<Rightarrow> string \<Rightarrow>
   rel_candidate result" where
  "make_edge_type_candidate new_id tenant_id proposed_edge_kind description relationship_summary scores
     parent_kind nearest_existing_kind directionality inverse_label dropped_dimensions evidence_model_ids
     evidence_event_ids example_source example_target promotion_criteria metadata source review_status =
    (let normalized_kind = py_strip proposed_edge_kind in
     if normalized_kind = [] then Inl (ValueError ''edge type candidate requires proposed_edge_kind'')
     else if py_strip description = [] then Inl (ValueError ''edge type candidate requires description'')
     else if py_strip relationship_summary = [] then Inl (ValueError ''edge type candidate requires relationship_summary'')
     else if (example_source = None) \<noteq> (example_target = None)
     then Inl (ValueError ''edge type candidate examples require both source and target model ids'')
     else if example_source \<noteq> None \<and> example_source = example_target
     then Inl (ValueError ''edge type candidate example cannot be a self-edge'')
     else
      let (models, examples) = (case (example_source, example_target) of
            (Some s, Some t) \<Rightarrow> ([s, t], [JObj [(''source_model_id'', JUuid s), (''target_model_id'', JUuid t)]])
          | _ \<Rightarrow> ([], []));
          parent = json_opt (or_text parent_kind nearest_existing_kind);
          proposal = [(''kind'', JStr ''ontology_gap''), (''proposed_edge_kind'', JStr normalized_kind),
            (''description'', JStr (py_strip description)),
            (''relationship_summary'', JStr (py_strip relationship_summary)), (''parent_kind'', parent),
            (''nearest_existing_kind'', json_opt nearest_existing_kind), (''directionality'', JStr directionality),
            (''inverse_label'', json_opt inverse_label),
            (''dropped_dimensions'', JList (map JStr dropped_dimensions)), (''examples'', JList examples),
            (''promotion_criteria'', JObj (if promotion_criteria = [] then default_criteria 3 else promotion_criteria))];
          metadata = dict_set ''ontology_gap'' (JObj [(''proposed_edge_kind'', JStr normalized_kind),
            (''nearest_existing_kind'', json_opt nearest_existing_kind), (''parent_kind'', parent),
            (''dropped_dimensions'', JList (map JStr dropped_dimensions)),
            (''retrieval_fallback_kind'', parent)]) metadata
      in Inr \<lparr>rk_id = new_id, rk_tenant = tenant_id, rk_kind = ''edge_type'', rk_basis = ''ontology_gap'',
           rk_source_model = None, rk_target_model = None, rk_edge_kind = None, rk_members = models,
           rk_events = evidence_event_ids, rk_models = (if evidence_model_ids = [] then models else evidence_model_ids),
           rk_counter = [], rk_proposition = Some proposal,
           rk_explanation = ''Proposed edge type `'' @ normalized_kind @ ''` because '' @ py_strip relationship_summary,
           rk_scores = scores, rk_source = source, rk_review = review_status, rk_metadata = metadata\<rparr>)"

text \<open>Sorting by leverage, impact and confidence, all descending, then by the text of the id; \<open>ordered[:limit]\<close>.\<close>

definition rank_candidates :: "rel_candidate list \<Rightarrow> int option \<Rightarrow> rel_candidate list" where
  "rank_candidates cs limit =
    (let ordered = sort_key (\<lambda>c. - judgment_leverage (rk_scores c))
           (sort_key (\<lambda>c. - clamp_score (js_impact (rk_scores c)))
           (sort_key (\<lambda>c. - clamp_score (js_confidence (rk_scores c))) (sort_key rk_id cs)))
     in case limit of None \<Rightarrow> ordered
        | Some n \<Rightarrow> take (nat (if n < 0 then int (length ordered) + n else n)) ordered)"

section \<open>The table\<close>

text \<open>
  A row of \<open>relationship_candidates\<close>: the record of the dataclass with the scores clamped and the
  lifecycle annotated (\<open>to_record\<close>), and the columns the table adds.
\<close>

record candidate_rec = rel_candidate +
  cn_leverage :: real
  cn_accepted_model :: "uuid option"
  cn_accepted_edges :: "uuid list"
  cn_created_at :: time
  cn_decided_at :: "time option"
  cn_expires_at :: "time option"

definition to_record :: "time \<Rightarrow> rel_candidate \<Rightarrow> candidate_rec" where
  "to_record now c = rel_candidate.extend
    (c\<lparr>rk_scores := clamped_scores (rk_scores c),
       rk_metadata := candidate_lifecycle_metadata (rk_metadata c) (rk_kind c) (rk_source c)\<rparr>)
    \<lparr>cn_leverage = judgment_leverage (rk_scores c), cn_accepted_model = None, cn_accepted_edges = [],
     cn_created_at = now, cn_decided_at = None, cn_expires_at = None\<rparr>"

definition BASES :: "string list" where
  "BASES = [''observed'', ''inferred'', ''correlated'', ''topology_suggested'', ''causal_hypothesis'',
     ''causal_confirmed'', ''ontology_gap'']"

definition CANDIDATE_STATUSES :: "string list" where
  "CANDIDATE_STATUSES = [''candidate'', ''needs_review'', ''accepted'', ''rejected'', ''contested'', ''retired'']"

definition shape_check :: "'a rel_candidate_scheme \<Rightarrow> bool" where
  "shape_check c \<longleftrightarrow>
     (rk_kind c = ''edge'' \<and> rk_source_model c \<noteq> None \<and> rk_target_model c \<noteq> None \<and> rk_edge_kind c \<noteq> None \<and>
      rk_source_model c \<noteq> rk_target_model c) \<or>
     (rk_kind c = ''situation'' \<and> 2 \<le> length (rk_members c) \<and> rk_proposition c \<noteq> None) \<or>
     (rk_kind c = ''edge_type'' \<and> rk_source_model c = None \<and> rk_target_model c = None \<and> rk_edge_kind c = None \<and>
      (case rk_proposition c of None \<Rightarrow> False | Some p \<Rightarrow>
        jget p ''kind'' = JStr ''ontology_gap'' \<and> jget p ''proposed_edge_kind'' \<notin> {JNull, JStr []}))"

definition unit_interval :: "real \<Rightarrow> bool" where
  "unit_interval v \<longleftrightarrow> 0 \<le> v \<and> v \<le> 1"

definition scores_check :: "judgment_scores \<Rightarrow> bool" where
  "scores_check s \<longleftrightarrow> list_all unit_interval [js_novelty s, js_impact s, js_actionability s, js_urgency s,
     js_uncertainty s, js_authority s, js_reversibility s, js_confidence s]"

text \<open>The \<open>CHECK\<close> constraints of the table.\<close>

definition candidate_checks :: "candidate_rec \<Rightarrow> bool" where
  "candidate_checks c \<longleftrightarrow> rk_basis c \<in> set BASES \<and> rk_review c \<in> set CANDIDATE_STATUSES \<and> shape_check c \<and>
     scores_check (rk_scores c) \<and> unit_interval (cn_leverage c)"

end
