(* ===== verification/CandidateFacts.thy ===== *)
theory CandidateFacts
  imports Candidates
begin

text \<open>
  Lemmas on relationship candidates: scores stay in the unit interval, the candidates that the
  constructors make satisfy the checks of their table, and ranking.
\<close>

lemma clamp_unit: "unit_interval (clamp_score v)"
  by (simp add: clamp_score_def unit_interval_def)

lemma clamp_idem: "unit_interval v \<Longrightarrow> clamp_score v = v"
  by (simp add: clamp_score_def unit_interval_def)

lemma leverage_unit: "unit_interval (judgment_leverage s)"
  unfolding judgment_leverage_def by (rule clamp_unit)

lemma clamped_ok: "scores_check (clamped_scores s)"
  by (simp add: scores_check_def clamped_scores_def clamp_unit)

lemma leverage_clamped: "judgment_leverage (clamped_scores s) = judgment_leverage s"
  by (simp add: judgment_leverage_def clamped_scores_def clamp_idem [OF clamp_unit])

lemma record_fields:
  "rk_kind (to_record now c) = rk_kind c" "rk_basis (to_record now c) = rk_basis c" "rk_review (to_record now c) = rk_review c"
  "rk_source_model (to_record now c) = rk_source_model c" "rk_target_model (to_record now c) = rk_target_model c"
  "rk_edge_kind (to_record now c) = rk_edge_kind c" "rk_members (to_record now c) = rk_members c"
  "rk_proposition (to_record now c) = rk_proposition c" "rk_scores (to_record now c) = clamped_scores (rk_scores c)"
  "cn_leverage (to_record now c) = judgment_leverage (rk_scores c)" "rk_id (to_record now c) = rk_id c"
  by (simp_all add: to_record_def rel_candidate.defs)

lemma record_checks:
  assumes "shape_check c" and "rk_basis c \<in> set BASES" and "rk_review c \<in> set CANDIDATE_STATUSES"
  shows "candidate_checks (to_record now c)"
proof -
  have "shape_check (to_record now c) = shape_check c" by (simp only: shape_check_def record_fields)
  with assms show ?thesis by (simp add: candidate_checks_def record_fields clamped_ok leverage_unit)
qed

text \<open>The weights of the leverage add up to one, so it is a weighted mean of the clamped scores.\<close>

definition scores_list :: "judgment_scores \<Rightarrow> real list" where
  "scores_list s = map clamp_score [js_impact s, js_urgency s, js_actionability s, js_authority s, js_uncertainty s,
     js_novelty s, js_reversibility s, js_confidence s]"

lemma leverage_mean:
  "judgment_leverage s = (\<Sum>(w, v) \<leftarrow> zip [22 / 100, 16 / 100, 15 / 100, 14 / 100, 12 / 100, 10 / 100, 7 / 100, 4 / 100] (scores_list s). w * v)"
proof -
  let ?w = "22 / 100 * clamp_score (js_impact s) + 16 / 100 * clamp_score (js_urgency s)
     + 15 / 100 * clamp_score (js_actionability s) + 14 / 100 * clamp_score (js_authority s)
     + 12 / 100 * clamp_score (js_uncertainty s) + 10 / 100 * clamp_score (js_novelty s)
     + 7 / 100 * clamp_score (js_reversibility s) + 4 / 100 * clamp_score (js_confidence s)"
  have "0 \<le> clamp_score v \<and> clamp_score v \<le> 1" for v using clamp_unit by (simp add: unit_interval_def)
  note u = this [of "js_impact s"] this [of "js_urgency s"] this [of "js_actionability s"] this [of "js_authority s"]
    this [of "js_uncertainty s"] this [of "js_novelty s"] this [of "js_reversibility s"] this [of "js_confidence s"]
  have "unit_interval ?w" using u unfolding unit_interval_def by linarith
  then show ?thesis unfolding judgment_leverage_def by (simp add: clamp_idem scores_list_def)
qed

section \<open>Made candidates\<close>

lemma edge_shape: "rk_kind c = ''edge'' \<Longrightarrow> rk_source_model c = Some s \<Longrightarrow> rk_target_model c = Some t \<Longrightarrow> s \<noteq> t \<Longrightarrow>
    rk_edge_kind c = Some k \<Longrightarrow> shape_check c"
  by (simp add: shape_check_def)

lemma checked: "(if P then Inl e else r) = Inr c \<Longrightarrow> \<not> P \<and> r = Inr c"
  by (simp split: if_split_asm)

lemma made_edge:
  assumes "make_edge_candidate i t s u k b x sc ms es mech surf delay conf md src st = Inr c"
  shows "shape_check c \<and> rk_basis c = b \<and> rk_review c = st"
proof -
  note run = checked [OF assms [unfolded make_edge_candidate_def]]
  note c = conjunct2 [OF checked [OF conjunct2 [OF run]], unfolded sum.inject Let_def, symmetric]
  have "shape_check c" by (rule edge_shape) (use conjunct1 [OF run] in \<open>simp_all add: c\<close>)
  then show ?thesis by (simp add: c)
qed

lemma situation_shape: "rk_kind c = ''situation'' \<Longrightarrow> 2 \<le> length (rk_members c) \<Longrightarrow> rk_proposition c \<noteq> None \<Longrightarrow> shape_check c"
  by (simp add: shape_check_def)

lemma edge_type_shape:
  "rk_kind c = ''edge_type'' \<Longrightarrow> rk_source_model c = None \<Longrightarrow> rk_target_model c = None \<Longrightarrow> rk_edge_kind c = None \<Longrightarrow>
    rk_proposition c = Some p \<Longrightarrow> jget p ''kind'' = JStr ''ontology_gap'' \<Longrightarrow>
    jget p ''proposed_edge_kind'' = JStr k \<Longrightarrow> k \<noteq> [] \<Longrightarrow> shape_check c"
  by (simp add: shape_check_def)

lemma made_situation:
  assumes "make_situation_candidate i t si su rs ms b sc es md src st = Inr c"
  shows "shape_check c \<and> rk_basis c = b \<and> rk_review c = st"
proof -
  have two: "\<not> length (dedup ms) < 2" using assms by (auto simp: make_situation_candidate_def Let_def)
  note c = assms [unfolded make_situation_candidate_def Let_def if_not_P [OF two] sum.inject, symmetric]
  have "shape_check c" by (rule situation_shape) (use two in \<open>simp_all add: c\<close>)
  then show ?thesis by (simp add: c)
qed

lemma made_edge_type:
  assumes "make_edge_type_candidate i t pk ds rs sc par nek dir il dims ms es exs ext crit md src st = Inr c"
  shows "shape_check c \<and> rk_basis c = ''ontology_gap'' \<and> rk_review c = st"
proof -
  note run = checked [OF assms [unfolded make_edge_type_candidate_def Let_def]]
  note c = run [THEN conjunct2, THEN checked, THEN conjunct2, THEN checked, THEN conjunct2, THEN checked, THEN conjunct2,
      THEN checked, THEN conjunct2]
  have "\<exists>p. rk_kind c = ''edge_type'' \<and> rk_source_model c = None \<and> rk_target_model c = None \<and> rk_edge_kind c = None \<and>
      rk_proposition c = Some p \<and> jget p ''kind'' = JStr ''ontology_gap'' \<and> jget p ''proposed_edge_kind'' = JStr (py_strip pk) \<and>
      rk_basis c = ''ontology_gap'' \<and> rk_review c = st"
    using c by (cases exs; cases ext; simp only: option.case prod.case sum.inject)
      (erule subst, simp add: jget_def dict_get_or_def dict_get_def)+
  then obtain p where p: "rk_kind c = ''edge_type''" "rk_source_model c = None" "rk_target_model c = None" "rk_edge_kind c = None"
    "rk_proposition c = Some p" "jget p ''kind'' = JStr ''ontology_gap''" "jget p ''proposed_edge_kind'' = JStr (py_strip pk)"
    "rk_basis c = ''ontology_gap'' \<and> rk_review c = st" by (elim exE conjE) (rule that, simp_all only: simp_thms)
  from edge_type_shape [OF p(1-7)] conjunct1 [OF run] p(8) show ?thesis by (simp only: simp_thms)
qed

text \<open>C32: Whatever the arguments, a candidate that one of the three constructors returns is written as a
  row that passes the checks of the table (shape, scores and leverage between 0 and 1), when its basis
  and its review status are legal values.\<close>

theorem candidates_fit_table:
  assumes "make_edge_candidate i t s u k b x sc ms es mech surf delay conf md src st = Inr c \<or>
      make_situation_candidate i t x su rs ms b sc es md src st = Inr c \<or>
      make_edge_type_candidate i t pk ds rs sc par nek dir il dims ms es exs ext crit md src st = Inr c"
    and "b \<in> set BASES" and "st \<in> set CANDIDATE_STATUSES"
  shows "candidate_checks (to_record now c)"
proof -
  have gap: "''ontology_gap'' \<in> set BASES" by (simp add: BASES_def)
  have "shape_check c \<and> (rk_basis c = b \<or> rk_basis c = ''ontology_gap'') \<and> rk_review c = st"
    using assms(1) by (elim disjE) (drule made_edge made_situation made_edge_type, simp only: simp_thms)+
  then have "shape_check c" "rk_basis c \<in> set BASES" "rk_review c \<in> set CANDIDATE_STATUSES"
    using assms(2,3) gap by (simp_all only: simp_thms) (elim conjE disjE; simp only:)
  then show ?thesis by (rule record_checks)
qed

definition flat_scores :: judgment_scores where
  "flat_scores = \<lparr>js_impact = 2, js_uncertainty = 0, js_urgency = 0, js_reversibility = 0, js_authority = 0,
     js_actionability = 0, js_novelty = 0, js_confidence = - 1\<rparr>"

lemma candidates_fit_table_witness:
  "candidate_checks (to_record 5 (projr (make_edge_candidate 9 1 2 3 ''blocks'' ''inferred'' ''x'' flat_scores [] []
     None None None [] [] ''t4_memory'' ''candidate'')))"
proof -
  obtain c where c: "make_edge_candidate 9 1 2 3 ''blocks'' ''inferred'' ''x'' flat_scores [] [] None None None [] []
      ''t4_memory'' ''candidate'' = Inr c"
    by (simp add: make_edge_candidate_def CAUSAL_BASES_def)
  moreover have "''inferred'' \<in> set BASES" "''candidate'' \<in> set CANDIDATE_STATUSES"
    by (simp_all add: BASES_def CANDIDATE_STATUSES_def)
  ultimately show ?thesis using candidates_fit_table [OF disjI1 [OF c]] by simp
qed

end
