(* ===== verification/OntologyProposals.thy ===== *)
theory OntologyProposals
  imports Candidates
begin

text \<open>
  Proposals of new edge kinds: \<open>services/reasoning/relationships/ontology_proposals.py\<close> and the
  pass of \<open>services/workers/relationship_ontology_proposals/worker.py\<close> over the tenants. Edge-type
  candidates are grouped by the kind they propose, each group becomes or extends one proposal, and
  an operator reviews it; the edges of an accepted kind can then be linked (\<open>EdgeRegistry\<close>). The
  arrays that the upsert fills with \<open>SELECT DISTINCT\<close> are sets. \<open>str_of\<close> is \<open>str()\<close> on a value.
\<close>

section \<open>Names of kinds\<close>

text \<open>\<open>re.sub(r"[..]+", "_", text)\<close> for the class of characters \<open>P\<close>.\<close>

function sub_runs :: "(char \<Rightarrow> bool) \<Rightarrow> string \<Rightarrow> string" where
  "sub_runs P [] = []"
| "sub_runs P (c # cs) = (if P c then CHR ''_'' # sub_runs P (dropWhile P cs) else c # sub_runs P cs)"
  by pat_completeness auto

termination
  by (relation "measure (\<lambda>(P, s). length s)") (auto simp: length_dropWhile_le le_imp_less_Suc)

definition is_slug_char :: "char \<Rightarrow> bool" where
  "is_slug_char c \<longleftrightarrow> (let n = of_char c :: nat in 97 \<le> n \<and> n \<le> 122 \<or> 48 \<le> n \<and> n \<le> 57) \<or> c = CHR ''_''"

definition is_lower :: "char \<Rightarrow> bool" where
  "is_lower c \<longleftrightarrow> (let n = of_char c :: nat in 97 \<le> n \<and> n \<le> 122)"

definition strip_char :: "char \<Rightarrow> string \<Rightarrow> string" where
  "strip_char c s = rev (dropWhile (\<lambda>x. x = c) (rev (dropWhile (\<lambda>x. x = c) s)))"

text \<open>\<open>^[a-z][a-z0-9_]{2,63}$\<close>, on a text without newlines.\<close>

definition edge_kind_ok :: "string \<Rightarrow> bool" where
  "edge_kind_ok s \<longleftrightarrow> (case s of [] \<Rightarrow> False | c # cs \<Rightarrow> is_lower c \<and> list_all is_slug_char cs \<and>
     2 \<le> length cs \<and> length cs \<le> 63)"

definition text_or_empty :: "(json \<Rightarrow> string) \<Rightarrow> json \<Rightarrow> string" where
  "text_or_empty str_of v = (if truthy v then str_of v else [])"

definition normalize_text :: "string \<Rightarrow> string option" where
  "normalize_text s =
    (let text = strip_char CHR ''_'' (sub_runs (\<lambda>c. c = CHR ''_'') (sub_runs (\<lambda>c. \<not> is_slug_char c) (to_lower (py_strip s))))
     in if edge_kind_ok text then Some text else None)"

definition normalize_proposed_edge_kind :: "(json \<Rightarrow> string) \<Rightarrow> json \<Rightarrow> string option" where
  "normalize_proposed_edge_kind str_of v = normalize_text (text_or_empty str_of v)"

section \<open>Aggregation\<close>

text \<open>\<open>for value in (payload.get(k) or [])\<close>; a value that cannot be iterated raises \<open>TypeError\<close> (\<open>py_iter\<close>).\<close>

definition iter_or_empty :: "json \<Rightarrow> json list result" where
  "iter_or_empty v = (if truthy v then py_iter v else Inr [])"

fun concat_results :: "'a list result list \<Rightarrow> 'a list result" where
  "concat_results [] = Inr []"
| "concat_results (r # rs) = bind_result r (\<lambda>xs. bind_result (concat_results rs) (\<lambda>ys. Inr (xs @ ys)))"

definition strings_of :: "(json \<Rightarrow> string) \<Rightarrow> json list \<Rightarrow> string list" where
  "strings_of str_of vs = dedup (filter (\<lambda>t. t \<noteq> []) (map (\<lambda>v. py_strip (text_or_empty str_of v)) vs))"

definition pick_text :: "(json \<Rightarrow> string) \<Rightarrow> json list \<Rightarrow> string" where
  "pick_text str_of vs = (case filter (\<lambda>t. t \<noteq> []) (map (\<lambda>v. py_strip (text_or_empty str_of v)) vs) of
     [] \<Rightarrow> [] | t # ts \<Rightarrow> t)"

definition payload_of :: "candidate_rec \<Rightarrow> dict" where
  "payload_of c = (case rk_proposition c of None \<Rightarrow> [] | Some p \<Rightarrow> p)"

definition proposed_kind :: "(json \<Rightarrow> string) \<Rightarrow> candidate_rec \<Rightarrow> string option" where
  "proposed_kind str_of c = (if rk_kind c \<noteq> ''edge_type'' then None
     else normalize_proposed_edge_kind str_of (jget (payload_of c) ''proposed_edge_kind''))"

record kind_proposal = ontology_proposal +
  pp_description :: string
  pp_summary :: string
  pp_dropped :: "string list"
  pp_examples :: "uuid list"
  pp_example_count :: int
  pp_models :: "uuid list"
  pp_events :: "uuid list"
  pp_criteria :: dict
  pp_facets :: dict
  pp_avg_leverage :: real
  pp_max_leverage :: real
  pp_confidence :: real
  pp_metadata :: dict
  pp_first_seen :: "time option"
  pp_last_seen :: "time option"

definition opt_text :: "string \<Rightarrow> string option" where
  "opt_text s = (if s = [] then None else Some s)"

definition max_of :: "real list \<Rightarrow> real" where
  "max_of vs = (case vs of [] \<Rightarrow> 0 | v # ws \<Rightarrow> fold max ws v)"

definition group_proposal :: "(json \<Rightarrow> string) \<Rightarrow> int \<Rightarrow> string \<Rightarrow> candidate_rec list \<Rightarrow> kind_proposal result" where
  "group_proposal str_of minimum proposed rows =
    (let payloads = map payload_of rows;
         gaps = List.map_filter (\<lambda>r. json_fields (jget (rk_metadata r) ''ontology_gap'')) rows;
         pick = (\<lambda>k. pick_text str_of (map (\<lambda>p. jget p k) payloads));
         examples = dedup (map rk_id rows);
         models = dedup (concat (map rk_models rows));
         events = dedup (concat (map rk_events rows));
         scores = map cn_leverage rows;
         confidences = map (\<lambda>r. js_confidence (rk_scores r)) rows;
         status = (if minimum \<le> int (length examples) then ''review_ready'' else ''draft'');
         directionality = (let t = pick ''directionality'' in
           if t \<in> {''directed'', ''symmetric'', ''unknown''} then t else ''unknown'');
         fallback = opt_text (pick_text str_of (map (\<lambda>g. jget g ''retrieval_fallback_kind'') gaps @
           map (\<lambda>p. jget p ''parent_kind'') payloads @ map (\<lambda>p. jget p ''nearest_existing_kind'') payloads));
         criteria = (case List.map_filter (\<lambda>p. json_fields (jget p ''promotion_criteria'')) payloads of
           (c # cs) # _ \<Rightarrow> c # cs | _ \<Rightarrow> default_criteria minimum)
     in bind_result (concat_results (map (\<lambda>p. iter_or_empty (jget p ''dropped_dimensions'')) payloads)) (\<lambda>dims.
          let dropped = strings_of str_of dims in
          Inr \<lparr>op_tenant = (case rows of [] \<Rightarrow> 0 | r # _ \<Rightarrow> rk_tenant r), op_kind = proposed, op_status = status,
            op_parent = or_text (Some (pick ''parent_kind'')) fallback,
            op_nearest = or_text (Some (pick ''nearest_existing_kind'')) fallback, op_fallback = fallback,
            op_directionality = directionality, pp_description = pick ''description'',
            pp_summary = pick ''relationship_summary'', pp_dropped = dropped, pp_examples = examples,
            pp_example_count = int (length examples), pp_models = models, pp_events = events,
            pp_criteria = criteria,
            pp_facets = [(''dropped_dimensions'', JList (map JStr dropped)), (''directionality'', JStr directionality),
              (''retrieval_fallback_kind'', json_opt fallback)],
            pp_avg_leverage = sum_list scores / real (length scores), pp_max_leverage = max_of scores,
            pp_confidence = max_of confidences,
            pp_metadata = [(''source'', JStr ''edge_type_candidate_aggregation''),
              (''candidate_count'', JInt (int (length rows)))],
            pp_first_seen = (case map cn_created_at rows of [] \<Rightarrow> None | t # ts \<Rightarrow> Some (fold min ts t)),
            pp_last_seen = (case map cn_created_at rows of [] \<Rightarrow> None | t # ts \<Rightarrow> Some (fold max ts t))\<rparr>))"

text \<open>\<open>sorted(grouped.items())\<close>: one group per kind, in the order of the names.\<close>

definition proposed_kinds :: "(json \<Rightarrow> string) \<Rightarrow> candidate_rec list \<Rightarrow> string list" where
  "proposed_kinds str_of cs = sort (remdups (List.map_filter (proposed_kind str_of) cs))"

definition group_of :: "(json \<Rightarrow> string) \<Rightarrow> candidate_rec list \<Rightarrow> string \<Rightarrow> candidate_rec list" where
  "group_of str_of cs k = filter (\<lambda>c. proposed_kind str_of c = Some k) cs"

definition aggregate_edge_type_candidates :: "(json \<Rightarrow> string) \<Rightarrow> int \<Rightarrow> candidate_rec list \<Rightarrow> kind_proposal list result" where
  "aggregate_edge_type_candidates str_of minimum cs =
    concat_results (map (\<lambda>k. bind_result (group_proposal str_of minimum k (group_of str_of cs k)) (\<lambda>p. Inr [p]))
      (proposed_kinds str_of cs))"

section \<open>The tables\<close>

record proposal_row = ontology_proposal +
  pr_id :: uuid
  pr_description :: string
  pr_summary :: string
  pr_dropped :: "string set"
  pr_examples :: "uuid set"
  pr_example_count :: int
  pr_models :: "uuid set"
  pr_events :: "uuid set"
  pr_criteria :: dict
  pr_facets :: dict
  pr_avg_leverage :: real
  pr_max_leverage :: real
  pr_confidence :: real
  pr_metadata :: dict
  pr_first_seen :: time
  pr_last_seen :: time
  pr_reviewed_at :: "time option"
  pr_promoted_at :: "time option"
  pr_updated_at :: time

text \<open>
  The tables of relationship intelligence. \<open>rd_graph\<close> holds the edges, the models, the supply of
  identifiers and the clock; its table of proposals is the one below (\<open>graph_of\<close>).
\<close>

record relation_db =
  rd_graph :: edge_db
  rd_candidates :: "candidate_rec list"
  rd_proposals :: "proposal_row list"

definition graph_of :: "'a relation_db_scheme \<Rightarrow> edge_db" where
  "graph_of d = (rd_graph d)\<lparr>ontology_tab := Some (map ontology_proposal.truncate (rd_proposals d))\<rparr>"

definition rd_now :: "'a relation_db_scheme \<Rightarrow> time" where
  "rd_now d = edge_now (rd_graph d)"

definition rd_uuid :: "'a relation_db_scheme \<Rightarrow> uuid \<times> 'a relation_db_scheme" where
  "rd_uuid d = (case draw_uuid (rd_graph d) of (i, g) \<Rightarrow> (i, d\<lparr>rd_graph := g\<rparr>))"

section \<open>Upserting\<close>

definition merge_status :: "string \<Rightarrow> string \<Rightarrow> string" where
  "merge_status old new =
    (if old \<in> {''accepted'', ''rejected'', ''superseded''} then old
     else if new = ''review_ready'' then ''review_ready'' else old)"

definition or_old :: "string \<Rightarrow> string \<Rightarrow> string" where
  "or_old new old = (if new = [] then old else new)"

definition new_proposal :: "uuid \<Rightarrow> time \<Rightarrow> kind_proposal \<Rightarrow> proposal_row" where
  "new_proposal new_id now p = ontology_proposal.extend (ontology_proposal.truncate p)
    \<lparr>pr_id = new_id, pr_description = pp_description p, pr_summary = pp_summary p, pr_dropped = set (pp_dropped p),
     pr_examples = set (pp_examples p), pr_example_count = pp_example_count p, pr_models = set (pp_models p),
     pr_events = set (pp_events p), pr_criteria = pp_criteria p, pr_facets = pp_facets p,
     pr_avg_leverage = pp_avg_leverage p, pr_max_leverage = pp_max_leverage p, pr_confidence = pp_confidence p,
     pr_metadata = pp_metadata p,
     pr_first_seen = (case pp_first_seen p of None \<Rightarrow> now | Some t \<Rightarrow> t),
     pr_last_seen = (case pp_last_seen p of None \<Rightarrow> now | Some t \<Rightarrow> t),
     pr_reviewed_at = None, pr_promoted_at = None, pr_updated_at = now\<rparr>"

definition merge_proposal :: "proposal_row \<Rightarrow> time \<Rightarrow> proposal_row \<Rightarrow> proposal_row" where
  "merge_proposal new now old =
    old\<lparr>op_status := merge_status (op_status old) (op_status new),
        pr_description := or_old (pr_description new) (pr_description old),
        pr_summary := or_old (pr_summary new) (pr_summary old),
        op_parent := coalesce (op_parent new) (op_parent old),
        op_nearest := coalesce (op_nearest new) (op_nearest old),
        op_fallback := coalesce (op_fallback new) (op_fallback old),
        op_directionality := (if op_directionality new \<noteq> ''unknown'' then op_directionality new
          else op_directionality old),
        pr_dropped := {v \<in> pr_dropped old \<union> pr_dropped new. v \<noteq> []},
        pr_examples := pr_examples old \<union> pr_examples new,
        pr_example_count := max (pr_example_count old) (pr_example_count new),
        pr_models := pr_models old \<union> pr_models new, pr_events := pr_events old \<union> pr_events new,
        pr_criteria := dict_update (pr_criteria old) (pr_criteria new),
        pr_facets := dict_update (pr_facets old) (pr_facets new),
        pr_avg_leverage := max (pr_avg_leverage old) (pr_avg_leverage new),
        pr_max_leverage := max (pr_max_leverage old) (pr_max_leverage new),
        pr_confidence := max (pr_confidence old) (pr_confidence new),
        pr_metadata := dict_update (pr_metadata old) (pr_metadata new),
        pr_first_seen := min (pr_first_seen old) (pr_first_seen new),
        pr_last_seen := max (pr_last_seen old) (pr_last_seen new), pr_updated_at := now\<rparr>"

definition proposal_key :: "proposal_row \<Rightarrow> uuid \<times> string" where
  "proposal_key p = (op_tenant p, op_kind p)"

definition upsert_proposal :: "kind_proposal \<Rightarrow> 'a relation_db_scheme \<Rightarrow> proposal_row \<times> 'a relation_db_scheme" where
  "upsert_proposal p d =
    (let (new_id, d) = rd_uuid d; row = new_proposal new_id (rd_now d) p
     in case row_at proposal_key (proposal_key row) (rd_proposals d) of
          None \<Rightarrow> (row, d\<lparr>rd_proposals := rd_proposals d @ [row]\<rparr>)
        | Some old \<Rightarrow> (merge_proposal row (rd_now d) old, d\<lparr>rd_proposals :=
            row_update proposal_key (proposal_key row) (merge_proposal row (rd_now d)) (rd_proposals d)\<rparr>))"

section \<open>Attaching to candidates\<close>

definition retire_candidate :: "time \<Rightarrow> candidate_rec \<Rightarrow> candidate_rec" where
  "retire_candidate now c = (if rk_review c \<in> {''candidate'', ''needs_review''}
     then c\<lparr>rk_review := ''retired'', cn_decided_at := Some now\<rparr> else c)"

definition attach_to_candidates ::
  "uuid \<Rightarrow> uuid \<Rightarrow> uuid list \<Rightarrow> bool \<Rightarrow> 'a relation_db_scheme \<Rightarrow> nat \<times> 'a relation_db_scheme" where
  "attach_to_candidates tenant_id proposal_id candidate_ids retire_examples d =
    (if candidate_ids = [] then (0, d) else
     let hit = (\<lambda>c. rk_tenant c = tenant_id \<and> rk_id c \<in> set candidate_ids);
         mark = (\<lambda>c. (if retire_examples then retire_candidate (rd_now d) c else c)
                  \<lparr>rk_metadata := dict_set ''ontology_proposal_id'' (JUuid proposal_id) (rk_metadata c)\<rparr>)
     in (length (filter hit (rd_candidates d)),
         d\<lparr>rd_candidates := map (\<lambda>c. if hit c then mark c else c) (rd_candidates d)\<rparr>))"

text \<open>\<open>ORDER BY judgment_leverage_score DESC, created_at DESC\<close>; ties in any order, here the table's.\<close>

definition by_leverage :: "candidate_rec list \<Rightarrow> candidate_rec list" where
  "by_leverage cs = sort_key (\<lambda>c. - cn_leverage c) (sort_key (\<lambda>c. - cn_created_at c) cs)"

definition open_edge_type :: "uuid \<Rightarrow> candidate_rec \<Rightarrow> bool" where
  "open_edge_type tenant_id c \<longleftrightarrow> rk_tenant c = tenant_id \<and> rk_kind c = ''edge_type'' \<and>
    rk_review c \<in> {''candidate'', ''needs_review''}"

definition edge_type_candidates :: "uuid \<Rightarrow> int \<Rightarrow> 'a relation_db_scheme \<Rightarrow> candidate_rec list" where
  "edge_type_candidates tenant_id limit d =
    take (nat (max 1 limit)) (by_leverage (filter (open_edge_type tenant_id) (rd_candidates d)))"

definition store_proposal ::
  "uuid \<Rightarrow> kind_proposal \<Rightarrow> proposal_row list \<times> 'a relation_db_scheme \<Rightarrow> proposal_row list \<times> 'a relation_db_scheme" where
  "store_proposal tenant_id p s =
    (case s of (out, d) \<Rightarrow>
       let (row, d) = upsert_proposal p d;
           (n, d) = attach_to_candidates tenant_id (pr_id row) (pp_examples p) (op_status row = ''review_ready'') d
       in (out @ [row], d))"

definition aggregate_from_edge_type_candidates ::
  "(json \<Rightarrow> string) \<Rightarrow> uuid \<Rightarrow> int \<Rightarrow> int \<Rightarrow> ('a relation_db_scheme, proposal_row list) tx" where
  "aggregate_from_edge_type_candidates str_of tenant_id minimum limit d =
    (case aggregate_edge_type_candidates str_of minimum (edge_type_candidates tenant_id limit d) of
       Inl e \<Rightarrow> (Inl e, d)
     | Inr proposals \<Rightarrow> (case fold (store_proposal tenant_id) proposals ([], d) of (out, d) \<Rightarrow> (Inr out, d)))"

section \<open>Review\<close>

definition get_accepted :: "uuid \<Rightarrow> string \<Rightarrow> 'a relation_db_scheme \<Rightarrow> proposal_row option" where
  "get_accepted tenant_id kind d =
    List.find (\<lambda>p. op_tenant p = tenant_id \<and> op_kind p = kind \<and> op_status p = ''accepted'') (rd_proposals d)"

definition REVIEW_DECISIONS :: "string list" where
  "REVIEW_DECISIONS = [''accepted'', ''rejected'', ''superseded'']"

definition reviewable :: "string \<Rightarrow> string \<Rightarrow> bool" where
  "reviewable old new \<longleftrightarrow> old \<in> {''draft'', ''review_ready''} \<or> old = new \<or> (old = ''accepted'' \<and> new = ''superseded'')"

definition reviewed :: "time \<Rightarrow> string \<Rightarrow> string option \<Rightarrow> string option \<Rightarrow> proposal_row \<Rightarrow> proposal_row" where
  "reviewed now status reviewed_by note p =
    p\<lparr>op_status := status, pr_reviewed_at := Some now,
      pr_promoted_at := (if status = ''accepted'' then coalesce (pr_promoted_at p) (Some now) else pr_promoted_at p),
      pr_metadata := dict_set ''last_review'' (JObj [(''status'', JStr status), (''reviewed_by'', json_opt reviewed_by),
        (''note'', json_opt note), (''reviewed_at'', JInt now)]) (pr_metadata p), pr_updated_at := now\<rparr>"

definition review_proposal ::
  "uuid \<Rightarrow> uuid \<Rightarrow> string \<Rightarrow> string option \<Rightarrow> string option \<Rightarrow> ('a relation_db_scheme, proposal_row option) tx" where
  "review_proposal tenant_id proposal_id status reviewed_by note d =
    (if status \<notin> set REVIEW_DECISIONS
     then (Inl (ValueError (''invalid ontology proposal review status '' @ py_repr status)), d)
     else
      let hit = (\<lambda>p. op_tenant p = tenant_id \<and> pr_id p = proposal_id \<and> reviewable (op_status p) status);
          f = reviewed (rd_now d) status reviewed_by note
      in (Inr (map_option f (List.find hit (rd_proposals d))),
          d\<lparr>rd_proposals := map (\<lambda>p. if hit p then f p else p) (rd_proposals d)\<rparr>))"

section \<open>The pass over the tenants\<close>

text \<open>
  \<open>GROUP BY tenant_id ORDER BY max(created_at) DESC\<close>, and the report of a tenant: the error of its
  transaction, or how many proposals were stored and how many of them are ready for review.
\<close>

definition candidate_tenants :: "'a relation_db_scheme \<Rightarrow> uuid list" where
  "candidate_tenants d =
    (let open_rows = filter (\<lambda>c. open_edge_type (rk_tenant c) c) (rd_candidates d)
     in dedup (map rk_tenant (sort_key (\<lambda>c. - cn_created_at c) open_rows)))"

definition tenant_pass ::
  "(json \<Rightarrow> string) \<Rightarrow> int \<Rightarrow> int \<Rightarrow> uuid \<Rightarrow> (uuid \<times> (err + nat \<times> nat)) list \<times> 'a relation_db_scheme \<Rightarrow>
   (uuid \<times> (err + nat \<times> nat)) list \<times> 'a relation_db_scheme" where
  "tenant_pass str_of minimum limit tid s =
    (case s of (reports, d) \<Rightarrow>
      (case atomically (aggregate_from_edge_type_candidates str_of tid minimum limit) d of
         (Inl e, d) \<Rightarrow> (reports @ [(tid, Inl e)], d)
       | (Inr out, d) \<Rightarrow>
           (reports @ [(tid, Inr (length out, length (filter (\<lambda>p. op_status p = ''review_ready'') out)))], d)))"

definition run_once ::
  "(json \<Rightarrow> string) \<Rightarrow> uuid option \<Rightarrow> int \<Rightarrow> int \<Rightarrow> 'a relation_db_scheme \<Rightarrow>
   (uuid \<times> (err + nat \<times> nat)) list \<times> 'a relation_db_scheme" where
  "run_once str_of tenant_id minimum limit d =
    fold (tenant_pass str_of minimum limit)
      (case tenant_id of Some t \<Rightarrow> [t] | None \<Rightarrow> candidate_tenants d) ([], d)"

end
