(* ===== verification/OntologyFacts.thy ===== *)
theory OntologyFacts
  imports OntologyProposals CandidateFacts
begin

text \<open>
  Lemmas on proposals of edge kinds: normal forms of names, what an upsert, an aggregation and a
  review keep of the table, and the life of a proposal under all of them.
\<close>

section \<open>Normal forms of names\<close>

lemma sub_runs_set: "set (sub_runs P s) \<subseteq> insert CHR ''_'' {c \<in> set s. \<not> P c}"
proof (induction P s rule: sub_runs.induct)
  case (2 P c cs)
  moreover have "set (dropWhile P cs) \<subseteq> set cs" by (auto dest: set_dropWhileD)
  ultimately show ?case by auto
qed simp

lemma hd_dropWhile_not: "dropWhile P s = [] \<or> \<not> P (hd (dropWhile P s))"
  using hd_dropWhile [of P s] by blast

lemma sub_runs_none: "list_all (\<lambda>c. \<not> P c) s \<Longrightarrow> sub_runs P s = s"
  by (induction s) simp_all

text \<open>No two underscores next to each other.\<close>

fun single :: "string \<Rightarrow> bool" where
  "single (a # b # cs) = (\<not> (a = CHR ''_'' \<and> b = CHR ''_'') \<and> single (b # cs))"
| "single s = True"

lemma single_Cons: "single (a # s) \<longleftrightarrow> single s \<and> (a = CHR ''_'' \<longrightarrow> s = [] \<or> hd s \<noteq> CHR ''_'')"
  by (cases s) auto

lemma single_append: "single (s @ t) \<longleftrightarrow> single s \<and> single t \<and>
    (s \<noteq> [] \<and> t \<noteq> [] \<longrightarrow> \<not> (last s = CHR ''_'' \<and> hd t = CHR ''_''))"
  by (induction s) (auto simp: single_Cons hd_append)

lemma single_rev: "single (rev s) \<longleftrightarrow> single s"
  by (induction s) (auto simp: single_append single_Cons last_rev)

lemma single_dropWhile: "single s \<Longrightarrow> single (dropWhile P s)"
  by (metis single_append takeWhile_dropWhile_id)

lemma single_sub_runs: "single (sub_runs (\<lambda>c. c = CHR ''_'') s)"
proof (induction "\<lambda>c. c = CHR ''_''" s rule: sub_runs.induct)
  case (2 c cs)
  show ?case
  proof (cases "c = CHR ''_''")
    case True
    obtain t where t: "t = dropWhile (\<lambda>c. c = CHR ''_'') cs" "t = [] \<or> hd t \<noteq> CHR ''_''"
      using hd_dropWhile_not [of "\<lambda>c. c = CHR ''_''" cs] by blast
    have "sub_runs (\<lambda>c. c = CHR ''_'') t = [] \<or> hd (sub_runs (\<lambda>c. c = CHR ''_'') t) \<noteq> CHR ''_''" using t(2) by (cases t) simp_all
    with 2(1) [OF True, folded t(1)] True show ?thesis by (simp add: single_Cons t(1) [symmetric])
  next
    case False
    with 2(2) show ?thesis by (simp add: single_Cons)
  qed
qed simp

lemma sub_runs_single: "single s \<Longrightarrow> sub_runs (\<lambda>c. c = CHR ''_'') s = s"
proof (induction "\<lambda>c. c = CHR ''_''" s rule: sub_runs.induct)
  case (2 c cs)
  show ?case
  proof (cases "c = CHR ''_''")
    case True
    with 2(3) have "dropWhile (\<lambda>c. c = CHR ''_'') cs = cs" by (cases cs) (auto simp: single_Cons)
    with 2 True show ?thesis by (simp add: single_Cons)
  qed (use 2 in \<open>simp add: single_Cons\<close>)
qed simp

lemma dropWhile_hd: "s = [] \<or> \<not> P (hd s) \<Longrightarrow> dropWhile P s = s"
  by (cases s) auto

lemma last_strip: "strip_char c s = [] \<or> last (strip_char c s) \<noteq> c"
  unfolding strip_char_def
  using hd_dropWhile_not [of "\<lambda>x. x = c" "rev (dropWhile (\<lambda>x. x = c) s)"] by (auto simp: last_rev)

lemma hd_strip: "strip_char c s = [] \<or> hd (strip_char c s) \<noteq> c"
proof -
  let ?t = "dropWhile (\<lambda>x. x = c) s"
  obtain u where u: "?t = strip_char c s @ u"
    unfolding strip_char_def by (metis rev_append rev_rev_ident takeWhile_dropWhile_id)
  show ?thesis using hd_dropWhile_not [of "\<lambda>x. x = c" s] u by (cases "strip_char c s = []") auto
qed

lemma strip_ends: "s = [] \<or> hd s \<noteq> c \<and> last s \<noteq> c \<Longrightarrow> strip_char c s = s"
  unfolding strip_char_def by (auto simp: dropWhile_hd hd_rev)

lemma strip_set: "set (strip_char c s) \<subseteq> set s"
  unfolding strip_char_def using set_dropWhileD by (metis (full_types) set_rev subsetI)

lemma slug_plain: "is_slug_char c \<Longrightarrow> \<not> py_isspace c \<and> to_lower [c] = [c]"
  unfolding is_slug_char_def py_isspace_def to_lower_def Let_def by auto

lemma slug_text: "list_all is_slug_char s \<Longrightarrow> py_strip s = s \<and> to_lower s = s"
proof
  assume s: "list_all is_slug_char s"
  then have hd: "dropWhile py_isspace s = s" using slug_plain by (cases s) auto
  from s have "list_all is_slug_char (rev s)" by (simp add: list_all_iff)
  then have "dropWhile py_isspace (rev s) = rev s" using slug_plain by (cases "rev s") auto
  with hd show "py_strip s = s" by (simp add: py_strip_def)
  from s show "to_lower s = s"
    using slug_plain by (induction s) (simp_all add: to_lower_def Let_def)
qed

lemma normal_form:
  assumes "normalize_text s = Some k"
  shows "edge_kind_ok k \<and> normalize_text k = Some k"
proof -
  let ?u = "sub_runs (\<lambda>c. \<not> is_slug_char c) (to_lower (py_strip s))"
  let ?v = "sub_runs (\<lambda>c. c = CHR ''_'') ?u"
  have k: "k = strip_char CHR ''_'' ?v" "edge_kind_ok k"
    using assms by (auto simp: normalize_text_def Let_def split: if_splits)
  have under: "is_slug_char CHR ''_''" by (simp add: is_slug_char_def)
  have "set ?u \<subseteq> {c. is_slug_char c}" using sub_runs_set [of "\<lambda>c. \<not> is_slug_char c"] under by fastforce
  then have "set ?v \<subseteq> {c. is_slug_char c}" using sub_runs_set [of "\<lambda>c. c = CHR ''_''" ?u] under by fastforce
  then have slug: "list_all is_slug_char k" using strip_set [of "CHR ''_''" ?v] k(1) by (auto simp: list_all_iff)
  have "single k" unfolding k(1) strip_char_def by (simp add: single_rev single_dropWhile single_sub_runs)
  then have "sub_runs (\<lambda>c. c = CHR ''_'') k = k" by (rule sub_runs_single)
  moreover have "sub_runs (\<lambda>c. \<not> is_slug_char c) k = k" using slug by (simp add: sub_runs_none list_all_iff)
  moreover have "strip_char CHR ''_'' k = k"
    by (rule strip_ends) (use hd_strip last_strip k(1) in metis)
  ultimately show ?thesis using slug_text [OF slug] k(2) by (simp add: normalize_text_def)
qed

section \<open>What an aggregation proposes\<close>

lemma concat_results_map: "concat_results (map Inr yss) = Inr (concat yss)"
  by (induction yss) simp_all

lemma concat_results_Inr:
  assumes "concat_results rs = Inr xs"
  shows "\<exists>yss. rs = map Inr yss \<and> xs = concat yss"
  using assms
proof (induction rs arbitrary: xs)
  case (Cons r rs)
  from Cons.prems obtain ys zs where r: "r = Inr ys" "concat_results rs = Inr zs" "xs = ys @ zs"
    by (auto simp: bind_result_Inr)
  from Cons.IH [OF r(2)] obtain yss where "rs = map Inr yss" "zs = concat yss" by auto
  with r show ?case by (intro exI [of _ "ys # yss"]) simp
qed simp

lemma aggregated:
  assumes "aggregate_edge_type_candidates str_of m cs = Inr ps"
  shows "list_all2 (\<lambda>k p. group_proposal str_of m k (group_of str_of cs k) = Inr p) (proposed_kinds str_of cs) ps"
proof -
  obtain yss where yss: "map (\<lambda>k. bind_result (group_proposal str_of m k (group_of str_of cs k)) (\<lambda>p. Inr [p]))
      (proposed_kinds str_of cs) = map Inr yss" "ps = concat yss"
    using concat_results_Inr [OF assms [unfolded aggregate_edge_type_candidates_def]] by blast
  have "list_all2 (\<lambda>k p. group_proposal str_of m k (group_of str_of cs k) = Inr p) ks (concat zss)"
    if "map (\<lambda>k. bind_result (group_proposal str_of m k (group_of str_of cs k)) (\<lambda>p. Inr [p])) ks = map Inr zss" for ks zss
    using that
  proof (induction ks arbitrary: zss)
    case (Cons k ks)
    then obtain zs zss' where zss: "zss = zs # zss'" by (cases zss) auto
    with Cons show ?case by (auto simp: bind_result_Inr)
  qed simp
  with yss show ?thesis by simp
qed

lemma group_fields:
  assumes "group_proposal str_of m k rows = Inr p"
  shows "op_kind p = k" "op_tenant p = (case rows of [] \<Rightarrow> 0 | r # _ \<Rightarrow> rk_tenant r)"
    "pp_examples p = dedup (map rk_id rows)" "pp_example_count p = int (card (rk_id ` set rows))"
    "op_status p = (if m \<le> int (card (rk_id ` set rows)) then ''review_ready'' else ''draft'')"
    "pp_max_leverage p = max_of (map cn_leverage rows)"
    "pp_first_seen p = (case map cn_created_at rows of [] \<Rightarrow> None | t # ts \<Rightarrow> Some (fold min ts t))"
    "pp_last_seen p = (case map cn_created_at rows of [] \<Rightarrow> None | t # ts \<Rightarrow> Some (fold max ts t))"
    "op_directionality p \<in> {''directed'', ''symmetric'', ''unknown''}"
    "set (pp_models p) = (\<Union>r \<in> set rows. set (rk_models r))" "set (pp_events p) = (\<Union>r \<in> set rows. set (rk_events r))"
proof -
  have len: "length (dedup xs) = card (set xs)" for xs :: "uuid list"
    by (simp add: dedup_def length_remdups_card_conv)
  obtain dims where dims: "concat_results (map (\<lambda>q. iter_or_empty (jget q ''dropped_dimensions'')) (map payload_of rows)) = Inr dims"
    using assms by (auto simp: group_proposal_def Let_def bind_result_Inr)
  note p = assms [unfolded group_proposal_def Let_def dims bind_result_simps sum.inject]
  show "op_kind p = k" "op_tenant p = (case rows of [] \<Rightarrow> 0 | r # _ \<Rightarrow> rk_tenant r)"
    "pp_examples p = dedup (map rk_id rows)" "pp_example_count p = int (card (rk_id ` set rows))"
    "op_status p = (if m \<le> int (card (rk_id ` set rows)) then ''review_ready'' else ''draft'')"
    "pp_max_leverage p = max_of (map cn_leverage rows)"
    "pp_first_seen p = (case map cn_created_at rows of [] \<Rightarrow> None | t # ts \<Rightarrow> Some (fold min ts t))"
    "pp_last_seen p = (case map cn_created_at rows of [] \<Rightarrow> None | t # ts \<Rightarrow> Some (fold max ts t))"
    "op_directionality p \<in> {''directed'', ''symmetric'', ''unknown''}"
    "set (pp_models p) = (\<Union>r \<in> set rows. set (rk_models r))" "set (pp_events p) = (\<Union>r \<in> set rows. set (rk_events r))"
    unfolding p [symmetric] kind_proposal.simps ontology_proposal.simps by (simp_all add: len)
qed

lemma set_proposed_kinds: "set (proposed_kinds str_of cs) = {k. \<exists>c \<in> set cs. proposed_kind str_of c = Some k}"
  by (force simp: proposed_kinds_def map_filter_def)

lemma proposed_kinds_sorted: "sorted_wrt (<) (proposed_kinds str_of cs)"
  by (simp add: proposed_kinds_def strict_sorted_iff)

lemma proposed_kind_ok: "proposed_kind str_of c = Some k \<Longrightarrow> rk_kind c = ''edge_type'' \<and> edge_kind_ok k"
  by (auto simp: proposed_kind_def normalize_proposed_edge_kind_def dest: normal_form split: if_splits)

lemma set_group: "set (group_of str_of cs k) = {c \<in> set cs. proposed_kind str_of c = Some k}"
  by (auto simp: group_of_def)

lemma in_aggregate:
  assumes "aggregate_edge_type_candidates str_of m cs = Inr ps" and "p \<in> set ps"
  shows "op_kind p \<in> set (proposed_kinds str_of cs) \<and> group_proposal str_of m (op_kind p) (group_of str_of cs (op_kind p)) = Inr p"
proof -
  let ?R = "\<lambda>k p. group_proposal str_of m k (group_of str_of cs k) = Inr p"
  have all: "list_all2 ?R (proposed_kinds str_of cs) ps" by (rule aggregated [OF assms(1)])
  obtain i where i: "i < length ps" "p = ps ! i" using assms(2) by (auto simp: in_set_conv_nth)
  then have "?R (proposed_kinds str_of cs ! i) p" using list_all2_nthD2 [OF all] by simp
  moreover from this have "op_kind p = proposed_kinds str_of cs ! i" by (rule group_fields(1))
  moreover have "proposed_kinds str_of cs ! i \<in> set (proposed_kinds str_of cs)"
    using i(1) list_all2_lengthD [OF all] by simp
  ultimately show ?thesis by simp
qed

lemma aggregate_kinds: "aggregate_edge_type_candidates str_of m cs = Inr ps \<Longrightarrow> map op_kind ps = proposed_kinds str_of cs"
proof (drule aggregated)
  show "list_all2 (\<lambda>k p. group_proposal str_of m k (group_of str_of cs k) = Inr p) (proposed_kinds str_of cs) ps \<Longrightarrow>
      map op_kind ps = proposed_kinds str_of cs"
    by (auto simp: list_all2_conv_all_nth group_fields(1) intro!: nth_equalityI)
qed

section \<open>The life of a proposal\<close>

definition PROPOSAL_STATUSES :: "string list" where
  "PROPOSAL_STATUSES = [''draft'', ''review_ready'', ''accepted'', ''rejected'', ''superseded'']"

definition DIRECTIONALITIES :: "string list" where
  "DIRECTIONALITIES = [''directed'', ''symmetric'', ''unknown'']"

definition decided :: "string \<Rightarrow> bool" where
  "decided s \<longleftrightarrow> s \<in> set REVIEW_DECISIONS"

lemma decided_simps [simp]:
  "decided ''accepted''" "decided ''rejected''" "decided ''superseded''" "\<not> decided ''draft''" "\<not> decided ''review_ready''"
  by (simp_all add: decided_def REVIEW_DECISIONS_def)

lemma decided_status: "decided s \<Longrightarrow> s \<in> set PROPOSAL_STATUSES \<and> s \<noteq> ''draft''"
  unfolding decided_def REVIEW_DECISIONS_def PROPOSAL_STATUSES_def by (simp, elim disjE) simp_all

definition status_advances :: "string \<Rightarrow> string \<Rightarrow> bool" where
  "status_advances s s' \<longleftrightarrow> s' = s \<or> \<not> decided s \<and> s' \<in> set PROPOSAL_STATUSES \<and> s' \<noteq> ''draft'' \<or>
     s = ''accepted'' \<and> s' = ''superseded''"

lemma status_advances_trans: "status_advances r s \<Longrightarrow> status_advances s t \<Longrightarrow> status_advances r t"
  unfolding status_advances_def using decided_status [of "''superseded''"] by auto

definition proposal_evolves :: "proposal_row \<Rightarrow> proposal_row \<Rightarrow> bool" where
  "proposal_evolves p q \<longleftrightarrow> pr_id q = pr_id p \<and> proposal_key q = proposal_key p \<and> status_advances (op_status p) (op_status q) \<and>
     pr_examples p \<subseteq> pr_examples q \<and> pr_example_count p \<le> pr_example_count q \<and>
     (pr_promoted_at p \<noteq> None \<longrightarrow> pr_promoted_at q = pr_promoted_at p)"

lemma proposal_evolves_refl: "proposal_evolves p p"
  by (simp add: proposal_evolves_def status_advances_def)

lemma proposal_evolves_trans:
  assumes "proposal_evolves p q" and "proposal_evolves q r"
  shows "proposal_evolves p r"
proof -
  have "status_advances (op_status p) (op_status r)"
    using assms status_advances_trans [of "op_status p" "op_status q" "op_status r"] by (simp add: proposal_evolves_def)
  with assms show ?thesis unfolding proposal_evolves_def by (auto simp del: not_None_eq)
qed

definition proposal_ok :: "proposal_row \<Rightarrow> bool" where
  "proposal_ok p \<longleftrightarrow> op_status p \<in> set PROPOSAL_STATUSES \<and> edge_kind_ok (op_kind p) \<and>
     (op_status p = ''accepted'' \<longrightarrow> pr_promoted_at p \<noteq> None) \<and>
     (decided (op_status p) \<longleftrightarrow> pr_reviewed_at p \<noteq> None) \<and>
     finite (pr_examples p) \<and> pr_example_count p \<le> int (card (pr_examples p)) \<and> pr_first_seen p \<le> pr_last_seen p \<and>
     op_directionality p \<in> set DIRECTIONALITIES"

lemma merge_status_cases: "merge_status old new = old \<or> \<not> decided old \<and> merge_status old new = ''review_ready''"
  by (simp add: merge_status_def decided_def REVIEW_DECISIONS_def)

lemma merge_fields:
  "op_status (merge_proposal n now p) = merge_status (op_status p) (op_status n)" "op_kind (merge_proposal n now p) = op_kind p"
  "pr_promoted_at (merge_proposal n now p) = pr_promoted_at p" "pr_reviewed_at (merge_proposal n now p) = pr_reviewed_at p"
  "pr_examples (merge_proposal n now p) = pr_examples p \<union> pr_examples n"
  "pr_example_count (merge_proposal n now p) = max (pr_example_count p) (pr_example_count n)"
  "pr_first_seen (merge_proposal n now p) = min (pr_first_seen p) (pr_first_seen n)"
  "pr_last_seen (merge_proposal n now p) = max (pr_last_seen p) (pr_last_seen n)"
  "op_directionality (merge_proposal n now p) = op_directionality p \<or> op_directionality (merge_proposal n now p) = op_directionality n"
  "pr_id (merge_proposal n now p) = pr_id p" "proposal_key (merge_proposal n now p) = proposal_key p"
  by (simp_all add: merge_proposal_def proposal_key_def)

lemma review_ready_status: "''review_ready'' \<in> set PROPOSAL_STATUSES" "''review_ready'' \<noteq> ''draft''"
  by (simp_all add: PROPOSAL_STATUSES_def)

lemma merge_evolves: "proposal_evolves p (merge_proposal n now p)"
  using merge_status_cases [of "op_status p" "op_status n"] review_ready_status
  unfolding proposal_evolves_def merge_fields status_advances_def by auto

lemma merge_ok:
  assumes "proposal_ok p" and "proposal_ok n"
  shows "proposal_ok (merge_proposal n now p)"
proof -
  have card: "card (pr_examples p) \<le> card (pr_examples p \<union> pr_examples n)" "card (pr_examples n) \<le> card (pr_examples p \<union> pr_examples n)"
    using assms by (simp_all add: proposal_ok_def card_mono)
  have rest: "edge_kind_ok (op_kind p)" "finite (pr_examples p \<union> pr_examples n)"
    "max (pr_example_count p) (pr_example_count n) \<le> int (card (pr_examples p \<union> pr_examples n))"
    "min (pr_first_seen p) (pr_first_seen n) \<le> max (pr_last_seen p) (pr_last_seen n)"
    using assms card by (simp_all add: proposal_ok_def min_le_iff_disj le_max_iff_disj)
  have "op_directionality p \<in> set DIRECTIONALITIES" "op_directionality n \<in> set DIRECTIONALITIES"
    using assms by (simp_all add: proposal_ok_def)
  then have dir: "op_directionality (merge_proposal n now p) \<in> set DIRECTIONALITIES"
    using merge_fields(9) [of n now p] by (elim disjE) simp_all
  from merge_status_cases [of "op_status p" "op_status n"] show ?thesis
  proof
    assume "merge_status (op_status p) (op_status n) = op_status p"
    with assms(1) rest dir show ?thesis unfolding proposal_ok_def merge_fields(1-8) by simp
  next
    assume "\<not> decided (op_status p) \<and> merge_status (op_status p) (op_status n) = ''review_ready''"
    with assms(1) rest dir review_ready_status show ?thesis unfolding proposal_ok_def merge_fields(1-8) by simp
  qed
qed

lemma reviewed_fields:
  "op_status (reviewed now s by' note' p) = s" "pr_reviewed_at (reviewed now s by' note' p) = Some now"
  "pr_examples (reviewed now s by' note' p) = pr_examples p"
  "pr_example_count (reviewed now s by' note' p) = pr_example_count p"
  "pr_first_seen (reviewed now s by' note' p) = pr_first_seen p" "pr_last_seen (reviewed now s by' note' p) = pr_last_seen p"
  "op_kind (reviewed now s by' note' p) = op_kind p" "op_directionality (reviewed now s by' note' p) = op_directionality p"
  "pr_id (reviewed now s by' note' p) = pr_id p" "proposal_key (reviewed now s by' note' p) = proposal_key p"
  by (simp_all add: reviewed_def proposal_key_def)

lemma reviewed_promoted:
  "s = ''accepted'' \<Longrightarrow> pr_promoted_at (reviewed now s by' note' p) \<noteq> None"
  "pr_promoted_at p \<noteq> None \<Longrightarrow> pr_promoted_at (reviewed now s by' note' p) = pr_promoted_at p"
  by (auto simp: reviewed_def coalesce_def split: option.splits)

lemma reviewable_advances: "reviewable old s \<Longrightarrow> decided s \<Longrightarrow> status_advances old s"
  unfolding reviewable_def status_advances_def using decided_status [of s] by (elim disjE) auto

lemma reviewed_evolves: "reviewable (op_status p) s \<Longrightarrow> decided s \<Longrightarrow> proposal_evolves p (reviewed now s by' note' p)"
  unfolding proposal_evolves_def reviewed_fields using reviewable_advances reviewed_promoted(2) by simp

lemma reviewed_ok:
  assumes "proposal_ok p" and "decided s"
  shows "proposal_ok (reviewed now s by' note' p)"
  using assms decided_status [OF assms(2)] reviewed_promoted(1) unfolding proposal_ok_def reviewed_fields by simp

text \<open>The proposals of one database in a later one: changed rows and new ones.\<close>

definition evolved :: "proposal_row list \<Rightarrow> proposal_row list \<Rightarrow> bool" where
  "evolved ps qs \<longleftrightarrow> (\<exists>f news. qs = map f ps @ news \<and>
     (\<forall>p \<in> set ps. proposal_evolves p (f p) \<and> (proposal_ok p \<longrightarrow> proposal_ok (f p))) \<and> (\<forall>q \<in> set news. proposal_ok q))"

lemma evolvedI:
  assumes "qs = map f ps @ news" and "\<And>p. p \<in> set ps \<Longrightarrow> proposal_evolves p (f p) \<and> (proposal_ok p \<longrightarrow> proposal_ok (f p))"
    and "\<forall>q \<in> set news. proposal_ok q"
  shows "evolved ps qs"
  using assms unfolding evolved_def by blast

lemma evolved_refl: "evolved ps ps"
  by (rule evolvedI [where f = "\<lambda>p. p" and news = "[]"]) (simp_all add: proposal_evolves_refl)

lemma evolved_trans:
  assumes "evolved ps qs" and "evolved qs rs"
  shows "evolved ps rs"
proof -
  obtain f news where f: "qs = map f ps @ news" "\<forall>p \<in> set ps. proposal_evolves p (f p) \<and> (proposal_ok p \<longrightarrow> proposal_ok (f p))"
    "\<forall>q \<in> set news. proposal_ok q" using assms(1) unfolding evolved_def by blast
  obtain g more where g: "rs = map g qs @ more" "\<forall>p \<in> set qs. proposal_evolves p (g p) \<and> (proposal_ok p \<longrightarrow> proposal_ok (g p))"
    "\<forall>q \<in> set more. proposal_ok q" using assms(2) unfolding evolved_def by blast
  show ?thesis
  proof (rule evolvedI)
    show "rs = map (\<lambda>p. g (f p)) ps @ (map g news @ more)" using f(1) g(1) by simp
    show "proposal_evolves p (g (f p)) \<and> (proposal_ok p \<longrightarrow> proposal_ok (g (f p)))" if "p \<in> set ps" for p
      using that f(1,2) g(2) proposal_evolves_trans by fastforce
    show "\<forall>q \<in> set (map g news @ more). proposal_ok q" using f(1,3) g(2,3) by auto
  qed
qed

lemma evolved_in: "evolved ps qs \<Longrightarrow> p \<in> set ps \<Longrightarrow> \<exists>q \<in> set qs. proposal_evolves p q"
  by (auto simp: evolved_def)

lemma evolved_ok: "evolved ps qs \<Longrightarrow> \<forall>p \<in> set ps. proposal_ok p \<Longrightarrow> \<forall>q \<in> set qs. proposal_ok q"
  by (auto simp: evolved_def)

section \<open>Unique proposals\<close>

definition proposals_unique :: "'a relation_db_scheme \<Rightarrow> bool" where
  "proposals_unique d \<longleftrightarrow> distinct (map proposal_key (rd_proposals d)) \<and> distinct (map pr_id (rd_proposals d)) \<and>
     (\<forall>p \<in> set (rd_proposals d). pr_id p < edge_uuid (rd_graph d))"

lemma unique_map:
  assumes "proposals_unique d" and "rd_proposals d' = map f (rd_proposals d)"
    and "\<And>p. p \<in> set (rd_proposals d) \<Longrightarrow> proposal_evolves p (f p)" and "edge_uuid (rd_graph d) \<le> edge_uuid (rd_graph d')"
  shows "proposals_unique d'"
proof -
  have "map proposal_key (rd_proposals d') = map proposal_key (rd_proposals d)" "map pr_id (rd_proposals d') = map pr_id (rd_proposals d)"
    using assms(2,3) by (auto simp: proposal_evolves_def)
  moreover have "\<forall>p \<in> set (rd_proposals d'). pr_id p < edge_uuid (rd_graph d')"
    using assms by (fastforce simp: proposals_unique_def proposal_evolves_def)
  ultimately show ?thesis using assms(1) by (simp add: proposals_unique_def)
qed

end
