(* ===== verification/OntologyProperties.thy ===== *)
theory OntologyProperties
  imports OntologyFacts
begin

text \<open>
  What holds of proposals of edge kinds: their life, what an aggregation makes of the candidates,
  and when edges of a proposed kind can be linked.
\<close>

section \<open>Effects of the operations\<close>

lemma fold_min_le: "fold min ts t \<le> (t :: time)"
proof (induction ts arbitrary: t)
  case (Cons s ts)
  from Cons.IH [of "min s t"] show ?case by simp
qed simp

lemma le_fold_max: "(t :: time) \<le> fold max ts t"
proof (induction ts arbitrary: t)
  case (Cons s ts)
  from Cons.IH [of "max s t"] show ?case by simp
qed simp

lemma new_fields:
  "pr_id (new_proposal i now p) = i" "proposal_key (new_proposal i now p) = (op_tenant p, op_kind p)"
  "op_status (new_proposal i now p) = op_status p" "op_kind (new_proposal i now p) = op_kind p"
  "op_directionality (new_proposal i now p) = op_directionality p"
  "pr_examples (new_proposal i now p) = set (pp_examples p)"
  "pr_example_count (new_proposal i now p) = pp_example_count p" "pr_reviewed_at (new_proposal i now p) = None"
  "pr_promoted_at (new_proposal i now p) = None"
  "pr_first_seen (new_proposal i now p) = (case pp_first_seen p of None \<Rightarrow> now | Some t \<Rightarrow> t)"
  "pr_last_seen (new_proposal i now p) = (case pp_last_seen p of None \<Rightarrow> now | Some t \<Rightarrow> t)"
  by (simp_all add: new_proposal_def proposal_key_def ontology_proposal.defs)

lemma group_ok:
  assumes "group_proposal str_of m k rows = Inr p" and "edge_kind_ok k"
  shows "proposal_ok (new_proposal i now p)"
proof -
  note f = group_fields [OF assms(1)]
  have "op_directionality p \<in> set DIRECTIONALITIES" using f(9) by (simp add: DIRECTIONALITIES_def)
  moreover have "op_status p \<in> set PROPOSAL_STATUSES" "\<not> decided (op_status p)" "op_status p \<noteq> ''accepted''"
    unfolding f(5) by (auto simp: PROPOSAL_STATUSES_def)
  moreover have "(case pp_first_seen p of None \<Rightarrow> now | Some t \<Rightarrow> t) \<le> (case pp_last_seen p of None \<Rightarrow> now | Some t \<Rightarrow> t)"
    unfolding f(7,8) by (auto split: list.split intro: order_trans [OF fold_min_le le_fold_max])
  ultimately show ?thesis using assms(2) unfolding proposal_ok_def new_fields by (simp add: f(1,3,4))
qed

lemma row_update_map: "row_update key k f t = map (\<lambda>r. if key r = k then f r else r) t"
  by (simp add: row_update_def)

lemma upsert_effect:
  assumes "upsert_proposal p d = (row, d')" and "\<And>i. proposal_ok (new_proposal i (rd_now d) p)"
  shows "evolved (rd_proposals d) (rd_proposals d') \<and> (proposals_unique d \<longrightarrow> proposals_unique d') \<and>
    row \<in> set (rd_proposals d') \<and> proposal_key row = (op_tenant p, op_kind p) \<and> rd_candidates d' = rd_candidates d \<and>
    rd_graph d' = (rd_graph d)\<lparr>edge_uuid := Suc (edge_uuid (rd_graph d))\<rparr>"
proof -
  let ?i = "edge_uuid (rd_graph d)" and ?d1 = "d\<lparr>rd_graph := (rd_graph d)\<lparr>edge_uuid := Suc (edge_uuid (rd_graph d))\<rparr>\<rparr>"
  let ?n = "new_proposal ?i (rd_now d) p"
  have now: "rd_now ?d1 = rd_now d" by (simp add: rd_now_def)
  note run = assms(1) [unfolded upsert_proposal_def rd_uuid_def draw_uuid_def Let_def prod.case now new_fields(2)]
  show ?thesis
  proof (cases "row_at proposal_key (op_tenant p, op_kind p) (rd_proposals d)")
    case None
    with run have d': "row = ?n" "d' = ?d1\<lparr>rd_proposals := rd_proposals d @ [?n]\<rparr>" by auto
    have "evolved (rd_proposals d) (rd_proposals d @ [?n])"
      by (rule evolvedI [where f = "\<lambda>p. p" and news = "[?n]"]) (simp_all add: proposal_evolves_refl assms(2))
    moreover have "proposals_unique d'" if "proposals_unique d"
      using that None unfolding d' proposals_unique_def row_at_None by (force simp: new_fields)
    ultimately show ?thesis unfolding d' by (simp add: new_fields)
  next
    case (Some old)
    let ?f = "\<lambda>q. if proposal_key q = (op_tenant p, op_kind p) then merge_proposal ?n (rd_now d) q else q"
    from run Some have d': "row = merge_proposal ?n (rd_now d) old" "d' = ?d1\<lparr>rd_proposals := map ?f (rd_proposals d)\<rparr>"
      by (simp_all add: row_update_map)
    have f: "proposal_evolves q (?f q) \<and> (proposal_ok q \<longrightarrow> proposal_ok (?f q))" for q
      using merge_evolves merge_ok assms(2) proposal_evolves_refl by simp
    have "evolved (rd_proposals d) (map ?f (rd_proposals d))"
      by (rule evolvedI [where f = ?f and news = "[]"]) (use f in simp_all)
    moreover have "proposals_unique d'" if "proposals_unique d"
      by (rule unique_map [OF that, where f = ?f]) (use f in \<open>simp_all add: d'\<close>)
    moreover have "row \<in> set (map ?f (rd_proposals d))"
      using row_at_Some [OF Some] unfolding d' by (auto intro!: image_eqI [of _ _ old])
    ultimately show ?thesis using row_at_Some [OF Some] unfolding d' by (simp add: merge_fields)
  qed
qed

lemma attach_frame:
  "rd_proposals (snd (attach_to_candidates t i cs b d)) = rd_proposals d" "rd_graph (snd (attach_to_candidates t i cs b d)) = rd_graph d"
  by (simp_all add: attach_to_candidates_def Let_def)

lemma store_step:
  "upsert_proposal p d = (row, d1) \<Longrightarrow> store_proposal t p (out, d) =
     (out @ [row], snd (attach_to_candidates t (pr_id row) (pp_examples p) (op_status row = ''review_ready'') d1))"
  by (simp add: store_proposal_def split: prod.splits)

lemma store_all:
  assumes "fold (store_proposal t) ps (out, d) = (out', d')" and "\<And>p i now. p \<in> set ps \<Longrightarrow> proposal_ok (new_proposal i now p)"
  shows "evolved (rd_proposals d) (rd_proposals d') \<and> (proposals_unique d \<longrightarrow> proposals_unique d') \<and>
    edge_uuid (rd_graph d) \<le> edge_uuid (rd_graph d') \<and> edge_now (rd_graph d') = edge_now (rd_graph d) \<and>
    model_edges (rd_graph d') = model_edges (rd_graph d)"
  using assms
proof (induction ps arbitrary: out d)
  case Nil
  then show ?case by (simp add: evolved_refl)
next
  case (Cons p ps)
  obtain row d1 where up: "upsert_proposal p d = (row, d1)" by fastforce
  define d2 where "d2 = snd (attach_to_candidates t (pr_id row) (pp_examples p) (op_status row = ''review_ready'') d1)"
  have "fold (store_proposal t) ps (out @ [row], d2) = (out', d')"
    using Cons.prems(1) store_step [OF up] by (simp add: d2_def)
  note rest = Cons.IH [OF this Cons.prems(2)]
  have d2: "rd_proposals d2 = rd_proposals d1" "rd_graph d2 = rd_graph d1" by (simp_all add: d2_def attach_frame)
  note first = upsert_effect [OF up Cons.prems(2)]
  have "proposals_unique d2 = proposals_unique d1" by (simp add: proposals_unique_def d2)
  with first rest d2 evolved_trans show ?case by auto
qed

lemma aggregate_effect:
  assumes "aggregate_from_edge_type_candidates str_of t m l d = (r, d')"
  shows "evolved (rd_proposals d) (rd_proposals d') \<and> (proposals_unique d \<longrightarrow> proposals_unique d') \<and>
    edge_uuid (rd_graph d) \<le> edge_uuid (rd_graph d') \<and> edge_now (rd_graph d') = edge_now (rd_graph d) \<and>
    model_edges (rd_graph d') = model_edges (rd_graph d)"
proof (cases "aggregate_edge_type_candidates str_of m (edge_type_candidates t l d)")
  case (Inl e)
  with assms show ?thesis by (simp add: aggregate_from_edge_type_candidates_def evolved_refl)
next
  case (Inr ps)
  then obtain out where fold: "fold (store_proposal t) ps ([], d) = (out, d')"
    using assms by (auto simp: aggregate_from_edge_type_candidates_def split: prod.splits)
  show ?thesis
  proof (rule store_all [OF fold])
    fix p i now
    assume "p \<in> set ps"
    from in_aggregate [OF Inr this] show "proposal_ok (new_proposal i now p)"
      using group_ok set_proposed_kinds proposed_kind_ok by blast
  qed
qed

lemma review_effect:
  assumes "review_proposal t i s by' note' d = (r, d')"
  shows "evolved (rd_proposals d) (rd_proposals d') \<and> (proposals_unique d \<longrightarrow> proposals_unique d') \<and> rd_graph d' = rd_graph d \<and>
    rd_candidates d' = rd_candidates d"
proof (cases "decided s")
  case False
  with assms show ?thesis by (simp add: review_proposal_def decided_def evolved_refl)
next
  case True
  define hit where "hit = (\<lambda>p :: proposal_row. op_tenant p = t \<and> pr_id p = i \<and> reviewable (op_status p) s)"
  let ?f = "\<lambda>p. if hit p then reviewed (rd_now d) s by' note' p else p"
  from assms True have d': "d' = d\<lparr>rd_proposals := map ?f (rd_proposals d)\<rparr>"
    by (simp add: review_proposal_def decided_def hit_def Let_def)
  have f: "proposal_evolves q (?f q) \<and> (proposal_ok q \<longrightarrow> proposal_ok (?f q))" for q
    using reviewed_evolves reviewed_ok True proposal_evolves_refl by (simp add: hit_def)
  have "evolved (rd_proposals d) (map ?f (rd_proposals d))"
    by (rule evolvedI [where f = ?f and news = "[]"]) (use f in simp_all)
  moreover have "proposals_unique d'" if "proposals_unique d"
    by (rule unique_map [OF that, where f = ?f]) (use f in \<open>simp_all add: d'\<close>)
  ultimately show ?thesis by (simp add: d')
qed

section \<open>The life of a proposal\<close>

text \<open>
  Any sequence of aggregations, reviews and of writes elsewhere: new candidates and decisions on
  them, edges, the clock.
\<close>

inductive ontology_run :: "(json \<Rightarrow> string) \<Rightarrow> 'a relation_db_scheme \<Rightarrow> 'a relation_db_scheme \<Rightarrow> bool" for str_of d0 where
  start: "ontology_run str_of d0 d0"
| aggregation: "ontology_run str_of d0 d \<Longrightarrow> aggregate_from_edge_type_candidates str_of t m l d = (r, d') \<Longrightarrow>
    ontology_run str_of d0 d'"
| review: "ontology_run str_of d0 d \<Longrightarrow> review_proposal t i s by' note' d = (r', d') \<Longrightarrow> ontology_run str_of d0 d'"
| elsewhere: "ontology_run str_of d0 d \<Longrightarrow> rd_proposals d' = rd_proposals d \<Longrightarrow>
    edge_uuid (rd_graph d) \<le> edge_uuid (rd_graph d') \<Longrightarrow> ontology_run str_of d0 d'"

lemma run_evolved: "ontology_run str_of d0 d \<Longrightarrow> evolved (rd_proposals d0) (rd_proposals d) \<and> (proposals_unique d0 \<longrightarrow> proposals_unique d)"
proof (induction rule: ontology_run.induct)
  case start
  show ?case by (simp add: evolved_refl)
next
  case (aggregation d t m l r d')
  then show ?case using aggregate_effect evolved_trans by blast
next
  case (review d t i s by' note' r' d')
  then show ?case using review_effect evolved_trans by blast
next
  case (elsewhere d d')
  moreover have "proposals_unique d \<Longrightarrow> proposals_unique d'"
    using elsewhere.hyps by (auto simp: proposals_unique_def)
  ultimately show ?case by simp
qed

lemma status_advances_cases:
  assumes "status_advances s s'"
  shows "s' = s \<or> s \<notin> {''accepted'', ''rejected'', ''superseded''} \<and>
      s' \<in> {''review_ready'', ''accepted'', ''rejected'', ''superseded''} \<or> s = ''accepted'' \<and> s' = ''superseded''"
proof -
  have later: "t \<in> set PROPOSAL_STATUSES \<Longrightarrow> t \<noteq> ''draft'' \<Longrightarrow> t \<in> {''review_ready'', ''accepted'', ''rejected'', ''superseded''}" for t
    unfolding PROPOSAL_STATUSES_def set_simps by (elim insertE) (simp_all only: insert_iff empty_iff simp_thms)
  have undecided: "\<not> decided s \<Longrightarrow> s \<notin> {''accepted'', ''rejected'', ''superseded''}"
    by (simp add: decided_def REVIEW_DECISIONS_def)
  from assms show ?thesis unfolding status_advances_def
  proof (elim disjE conjE)
    assume "\<not> decided s" "s' \<in> set PROPOSAL_STATUSES" "s' \<noteq> ''draft''"
    with later undecided show ?thesis by (intro disjI2 disjI1 conjI)
  qed (intro disjI1 disjI2 conjI; assumption)+
qed

text \<open>C29: Whatever is aggregated and reviewed, a proposal keeps its tenant and its name and only moves
  forward: from draft to ready for review, from there to one decision, and afterwards at most from
  accepted to superseded; a decided proposal never opens again, the time of its first promotion
  never changes, and its examples only grow. There is one proposal for a tenant and name.\<close>

theorem proposal_lifecycle:
  assumes "ontology_run str_of d0 d" and "p \<in> set (rd_proposals d0)"
  shows "(\<exists>q \<in> set (rd_proposals d). pr_id q = pr_id p \<and> op_tenant q = op_tenant p \<and> op_kind q = op_kind p \<and>
      (op_status q = op_status p \<or>
       op_status p \<notin> {''accepted'', ''rejected'', ''superseded''} \<and>
         op_status q \<in> {''review_ready'', ''accepted'', ''rejected'', ''superseded''} \<or>
       op_status p = ''accepted'' \<and> op_status q = ''superseded'') \<and>
      pr_examples p \<subseteq> pr_examples q \<and> (pr_promoted_at p \<noteq> None \<longrightarrow> pr_promoted_at q = pr_promoted_at p)) \<and>
    (proposals_unique d0 \<longrightarrow> distinct (map (\<lambda>q. (op_tenant q, op_kind q)) (rd_proposals d)))"
proof -
  note run = run_evolved [OF assms(1)]
  from evolved_in [OF conjunct1 [OF run] assms(2)] obtain q where q: "q \<in> set (rd_proposals d)" "proposal_evolves p q" by blast
  note step = status_advances_cases [of "op_status p" "op_status q"]
  have "distinct (map (\<lambda>q. (op_tenant q, op_kind q)) (rd_proposals d))" if "proposals_unique d0"
    using run that by (simp add: proposals_unique_def proposal_key_def [abs_def])
  moreover have "pr_id q = pr_id p \<and> op_tenant q = op_tenant p \<and> op_kind q = op_kind p \<and> pr_examples p \<subseteq> pr_examples q \<and>
      (pr_promoted_at p \<noteq> None \<longrightarrow> pr_promoted_at q = pr_promoted_at p)"
    using q(2) by (auto simp: proposal_evolves_def proposal_key_def)
  moreover have "status_advances (op_status p) (op_status q)" using q(2) by (simp add: proposal_evolves_def)
  ultimately show ?thesis using q(1) step by (intro conjI impI bexI [of _ q]) (simp_all only: simp_thms)
qed

section \<open>What an aggregation makes of the candidates\<close>

lemma aggregated_each:
  assumes "aggregate_edge_type_candidates str_of m cs = Inr ps" and "p \<in> set ps"
  shows "edge_kind_ok (op_kind p) \<and> distinct (pp_examples p) \<and>
      set (pp_examples p) = rk_id ` {c \<in> set cs. proposed_kind str_of c = Some (op_kind p)} \<and>
      pp_example_count p = int (length (pp_examples p)) \<and>
      op_status p = (if m \<le> pp_example_count p then ''review_ready'' else ''draft'')"
proof -
  from in_aggregate [OF assms] have k: "op_kind p \<in> set (proposed_kinds str_of cs)"
    and g: "group_proposal str_of m (op_kind p) (group_of str_of cs (op_kind p)) = Inr p" by blast+
  have "edge_kind_ok (op_kind p)" using k set_proposed_kinds proposed_kind_ok by blast
  moreover have "card (rk_id ` set (group_of str_of cs (op_kind p))) = length (pp_examples p)"
    unfolding group_fields(3) [OF g] by (simp add: dedup_def length_remdups_card_conv)
  ultimately show ?thesis using group_fields(3-5) [OF g] by (simp add: set_group)
qed

lemma aggregated_kinds:
  assumes "aggregate_edge_type_candidates str_of m cs = Inr ps"
  shows "sorted_wrt (<) (map op_kind ps)" "set (map op_kind ps) = {k. \<exists>c \<in> set cs. proposed_kind str_of c = Some k}"
  unfolding aggregate_kinds [OF assms] by (rule proposed_kinds_sorted, rule set_proposed_kinds)

text \<open>An aggregation makes one proposal for each name that the edge-type candidates normalise to,
  in the order of the names; its examples are the candidates of that name, each once, and it is
  ready for review exactly when there are enough of them.\<close>

theorem aggregation_exact:
  assumes "aggregate_edge_type_candidates str_of m cs = Inr ps"
  shows "sorted_wrt (<) (map op_kind ps) \<and>
    set (map op_kind ps) = {k. \<exists>c \<in> set cs. proposed_kind str_of c = Some k} \<and>
    (\<forall>p \<in> set ps. edge_kind_ok (op_kind p) \<and> distinct (pp_examples p) \<and>
      set (pp_examples p) = rk_id ` {c \<in> set cs. proposed_kind str_of c = Some (op_kind p)} \<and>
      pp_example_count p = int (length (pp_examples p)) \<and>
      op_status p = (if m \<le> pp_example_count p then ''review_ready'' else ''draft''))"
  using aggregated_kinds [OF assms] aggregated_each [OF assms] by (intro conjI ballI) blast+

text \<open>Names are normal forms: a name that a proposal stores normalises to itself.\<close>

lemma stored_names_normal: "normalize_text s = Some k \<Longrightarrow> normalize_text k = Some k"
  using normal_form by blast

section \<open>What an aggregation does to the candidates\<close>

definition attach_one :: "time \<Rightarrow> uuid \<Rightarrow> uuid \<Rightarrow> uuid list \<Rightarrow> bool \<Rightarrow> candidate_rec \<Rightarrow> candidate_rec" where
  "attach_one now t i ids b c = (if rk_tenant c = t \<and> rk_id c \<in> set ids
     then (if b then retire_candidate now c else c)\<lparr>rk_metadata := dict_set ''ontology_proposal_id'' (JUuid i) (rk_metadata c)\<rparr>
     else c)"

lemma attach_candidates:
  "rd_candidates (snd (attach_to_candidates t i ids b d)) = map (attach_one (rd_now d) t i ids b) (rd_candidates d)"
  by (auto simp: attach_to_candidates_def Let_def attach_one_def retire_candidate_def intro!: map_idI [symmetric])

lemma attach_one_same: "rk_id (attach_one now t i ids b c) = rk_id c" "rk_tenant (attach_one now t i ids b c) = rk_tenant c"
  by (simp_all add: attach_one_def retire_candidate_def)

abbreviation attach_all :: "time \<Rightarrow> uuid \<Rightarrow> (kind_proposal \<times> proposal_row) list \<Rightarrow> candidate_rec \<Rightarrow> candidate_rec" where
  "attach_all now t prs \<equiv> fold (\<lambda>(p, row). attach_one now t (pr_id row) (pp_examples p) (op_status row = ''review_ready'')) prs"

lemma store_all_candidates:
  assumes "fold (store_proposal t) ps (out, d) = (out', d')" and "\<And>p i now. p \<in> set ps \<Longrightarrow> proposal_ok (new_proposal i now p)"
  shows "\<exists>rows. out' = out @ rows \<and> list_all2 (\<lambda>p row. proposal_key row = (op_tenant p, op_kind p)) ps rows \<and>
    rd_candidates d' = map (attach_all (rd_now d) t (zip ps rows)) (rd_candidates d)"
  using assms
proof (induction ps arbitrary: out d)
  case Nil
  then show ?case by simp
next
  case (Cons p ps)
  obtain row d1 where up: "upsert_proposal p d = (row, d1)" by fastforce
  define d2 where "d2 = snd (attach_to_candidates t (pr_id row) (pp_examples p) (op_status row = ''review_ready'') d1)"
  have "fold (store_proposal t) ps (out @ [row], d2) = (out', d')"
    using Cons.prems(1) store_step [OF up] by (simp add: d2_def)
  from Cons.IH [OF this Cons.prems(2)] obtain rows where rows: "out' = (out @ [row]) @ rows"
    "list_all2 (\<lambda>p row. proposal_key row = (op_tenant p, op_kind p)) ps rows"
    "rd_candidates d' = map (attach_all (rd_now d2) t (zip ps rows)) (rd_candidates d2)" by auto
  note first = upsert_effect [OF up Cons.prems(2)]
  have now: "rd_now d1 = rd_now d" using first by (simp add: rd_now_def)
  then have "rd_now d2 = rd_now d" by (simp add: rd_now_def d2_def attach_frame)
  moreover have "rd_candidates d2 = map (attach_one (rd_now d) t (pr_id row) (pp_examples p) (op_status row = ''review_ready'')) (rd_candidates d)"
    unfolding d2_def attach_candidates now using first by simp
  ultimately have "rd_candidates d' = map (attach_all (rd_now d) t (zip (p # ps) (row # rows))) (rd_candidates d)"
    using rows(3) by (simp add: comp_def)
  with rows(1,2) first show ?case by (intro exI [of _ "row # rows"]) simp
qed

lemma attach_all_others:
  assumes "\<And>p row. (p, row) \<in> set prs \<Longrightarrow> rk_tenant c \<noteq> t \<or> rk_id c \<notin> set (pp_examples p)"
  shows "attach_all now t prs c = c"
  using assms
proof (induction prs)
  case (Cons pr prs)
  obtain p row where pr: "pr = (p, row)" by (cases pr)
  with Cons.prems [of p row] have "attach_one now t (pr_id row) (pp_examples p) b c = c" for b by (auto simp: attach_one_def)
  with Cons pr show ?case by auto
qed simp

lemma attach_all_one:
  assumes "prs = xs @ (p, row) # ys"
    and "\<And>q r. (q, r) \<in> set xs \<union> set ys \<Longrightarrow> rk_id c \<notin> set (pp_examples q)"
  shows "attach_all now t prs c = attach_one now t (pr_id row) (pp_examples p) (op_status row = ''review_ready'') c"
proof -
  have "attach_all now t xs c = c" by (rule attach_all_others) (use assms(2) in auto)
  moreover have "attach_all now t ys (attach_one now t (pr_id row) (pp_examples p) (op_status row = ''review_ready'') c) =
      attach_one now t (pr_id row) (pp_examples p) (op_status row = ''review_ready'') c"
    by (rule attach_all_others) (use assms(2) in \<open>auto simp: attach_one_same\<close>)
  ultimately show ?thesis using assms(1) by simp
qed

text \<open>C31: An aggregation over a tenant's open edge-type candidates retires exactly the candidates it
  read whose proposal is now ready for review, and notes the proposal in the metadata of each
  candidate it read that has a name; every other candidate, of this or of another tenant, is as
  it was.\<close>

theorem aggregation_effect:
  assumes "aggregate_from_edge_type_candidates str_of t m l d = (Inr rows, d')"
    and "distinct (map rk_id (rd_candidates d))" and "c \<in> set (rd_candidates d)"
  shows "\<exists>c' \<in> set (rd_candidates d'). rk_id c' = rk_id c \<and>
    (case (if c \<in> set (edge_type_candidates t l d) then proposed_kind str_of c else None) of
       None \<Rightarrow> c' = c
     | Some k \<Rightarrow> \<exists>row \<in> set rows. op_kind row = k \<and>
         dict_get (rk_metadata c') ''ontology_proposal_id'' = Some (JUuid (pr_id row)) \<and>
         (rk_review c', cn_decided_at c') = (if op_status row = ''review_ready'' then (''retired'', Some (rd_now d))
            else (rk_review c, cn_decided_at c)))"
proof -
  let ?cs = "edge_type_candidates t l d"
  obtain ps where ps: "aggregate_edge_type_candidates str_of m ?cs = Inr ps"
    and fold: "fold (store_proposal t) ps ([], d) = (rows, d')"
    using assms(1) by (auto simp: aggregate_from_edge_type_candidates_def split: sum.splits prod.splits)
  have ok: "proposal_ok (new_proposal i now p)" if "p \<in> set ps" for p i now
    using in_aggregate [OF ps that] group_ok set_proposed_kinds proposed_kind_ok by blast
  obtain prs where prs: "list_all2 (\<lambda>p row. proposal_key row = (op_tenant p, op_kind p)) ps prs" "rows = prs"
      "rd_candidates d' = map (attach_all (rd_now d) t (zip ps prs)) (rd_candidates d)"
    using store_all_candidates [OF fold ok] by auto
  have cs: "b \<in> set (rd_candidates d) \<and> open_edge_type t b" if "b \<in> set ?cs" for b
    using in_set_takeD [OF that [unfolded edge_type_candidates_def]] by (simp add: by_leverage_def)
  have examples: "set (pp_examples p) = rk_id ` {b \<in> set ?cs. proposed_kind str_of b = Some (op_kind p)}" if "p \<in> set ps" for p
    using aggregated_each [OF ps that] by blast
  have mem: "rk_id c \<in> set (pp_examples p) \<longleftrightarrow> c \<in> set ?cs \<and> proposed_kind str_of c = Some (op_kind p)" if "p \<in> set ps" for p
    unfolding examples [OF that] using cs assms(2,3) by (auto simp: distinct_map inj_on_def)
  let ?c' = "attach_all (rd_now d) t (zip ps prs) c"
  have in': "?c' \<in> set (rd_candidates d')" using prs(3) assms(3) by simp
  show ?thesis
  proof (cases "if c \<in> set ?cs then proposed_kind str_of c else None")
    case None
    then have "?c' = c" by (intro attach_all_others) (auto dest!: set_zip_leftD simp: mem split: if_splits)
    with in' None show ?thesis by (intro bexI [of _ c]) auto
  next
    case (Some k)
    then have k: "c \<in> set ?cs" "proposed_kind str_of c = Some k" by (auto split: if_splits)
    have "k \<in> set (map op_kind ps)" using k aggregated_kinds(2) [OF ps] by blast
    then obtain i where i: "i < length ps" "op_kind (ps ! i) = k" by (auto simp: in_set_conv_nth)
    have len: "length prs = length ps" using prs(1) by (simp add: list_all2_lengthD)
    have dist: "distinct (map op_kind ps)" using aggregated_kinds(1) [OF ps] strict_sorted_iff by blast
    have split: "zip ps prs = take i (zip ps prs) @ (ps ! i, prs ! i) # drop (Suc i) (zip ps prs)"
      using i(1) len id_take_nth_drop [of i "zip ps prs"] by simp
    have "rk_id c \<notin> set (pp_examples q)" if "(q, r) \<in> set (take i (zip ps prs)) \<union> set (drop (Suc i) (zip ps prs))" for q r
    proof -
      have "\<exists>j < length ps. j \<noteq> i \<and> q = ps ! j"
      proof (cases "(q, r) \<in> set (take i (zip ps prs))")
        case True
        then obtain a where "a < length (take i (zip ps prs))" "(q, r) = take i (zip ps prs) ! a"
          by (metis in_set_conv_nth)
        then show ?thesis using len by (intro exI [of _ a]) simp
      next
        case False
        with that have "(q, r) \<in> set (drop (Suc i) (zip ps prs))" by blast
        then obtain a where "a < length (drop (Suc i) (zip ps prs))" "(q, r) = drop (Suc i) (zip ps prs) ! a"
          by (metis in_set_conv_nth)
        then show ?thesis using len by (intro exI [of _ "Suc (i + a)"]) simp
      qed
      then obtain j where j: "j < length ps" "j \<noteq> i" "q = ps ! j" by blast
      with dist i have "op_kind q \<noteq> k" using nth_eq_iff_index_eq [OF dist, of i j] by auto
      with mem [of q] j(1,3) k(2) show ?thesis by auto
    qed
    from attach_all_one [OF split this]
    have c': "?c' = attach_one (rd_now d) t (pr_id (prs ! i)) (pp_examples (ps ! i)) (op_status (prs ! i) = ''review_ready'') c" by simp
    have hit: "rk_tenant c = t" "rk_id c \<in> set (pp_examples (ps ! i))" "rk_review c \<in> {''candidate'', ''needs_review''}"
      using cs [OF k(1)] mem [of "ps ! i"] i k by (auto simp: open_edge_type_def)
    have "prs ! i \<in> set rows" "op_kind (prs ! i) = k"
      using prs(2) i len list_all2_nthD [OF prs(1) i(1)] by (simp_all add: proposal_key_def)
    moreover have "rk_id ?c' = rk_id c" "dict_get (rk_metadata ?c') ''ontology_proposal_id'' = Some (JUuid (pr_id (prs ! i)))"
      "(rk_review ?c', cn_decided_at ?c') = (if op_status (prs ! i) = ''review_ready'' then (''retired'', Some (rd_now d))
         else (rk_review c, cn_decided_at c))"
      unfolding c' using hit by (simp_all add: attach_one_def dict_get_set retire_candidate_def)
    ultimately show ?thesis unfolding Some option.case using in' by blast
  qed
qed

section \<open>When a proposed kind can be linked\<close>

lemma find_map: "List.find P (map f xs) = map_option f (List.find (P \<circ> f) xs)"
  by (induction xs) auto

lemma find_same: "(\<And>x. x \<in> set xs \<Longrightarrow> P x = Q x) \<Longrightarrow> List.find P xs = List.find Q xs"
  by (induction xs) auto

lemma find_some: "List.find P xs = Some x \<Longrightarrow> x \<in> set xs \<and> P x"
  by (induction xs) (auto split: if_splits)

lemma truncate_fields: "op_tenant (ontology_proposal.truncate p) = op_tenant p" "op_kind (ontology_proposal.truncate p) = op_kind p"
  "op_status (ontology_proposal.truncate p) = op_status p"
  by (simp_all add: ontology_proposal.defs)

lemma load_accepted:
  "load_accepted_proposal (ontology_tab (graph_of d)) t k =
    map_option ontology_proposal.truncate (List.find (\<lambda>p. op_tenant p = t \<and> op_kind p = k \<and> op_status p = ''accepted'') (rd_proposals d))"
  by (simp add: load_accepted_proposal_def graph_of_def find_map comp_def truncate_fields)

lemma supports_spec: "\<exists>base. get_spec ''supports'' = Inr base"
  by (rule exI [of _ "projr (get_spec ''supports'')"]) code_simp

lemma spec_from_proposal_ok: "spec_from_proposal k p \<noteq> Inl e"
  using supports_spec by (auto simp: spec_from_proposal_def Let_def split: sum.split option.split)

lemma writable_new_kind:
  assumes "k \<notin> set (map fst EDGE_REGISTRY)"
  shows "is_edge_kind_writable (ontology_tab (graph_of d)) t k \<longleftrightarrow>
    (\<exists>p \<in> set (rd_proposals d). op_tenant p = t \<and> op_kind p = k \<and> op_status p = ''accepted'')"
proof -
  have "\<exists>e. assert_writable k = Inl e"
    using assms by (auto simp: assert_writable_def get_spec_def map_of_eq_None_iff [THEN iffD2])
  then have "is_edge_kind_writable (ontology_tab (graph_of d)) t k \<longleftrightarrow>
      load_accepted_proposal (ontology_tab (graph_of d)) t k \<noteq> None"
    using spec_from_proposal_ok [of k]
    by (auto simp del: not_None_eq simp: is_edge_kind_writable_def resolve_edge_kind_spec_def split: option.split sum.split)
  then show ?thesis unfolding load_accepted by (auto simp: find_None_iff dest: find_some split: option.splits)
qed

text \<open>C30: A review that finds its proposal decides whether the tenant can link edges of the proposed
  kind: it can exactly when the decision is acceptance, and no other kind or tenant is affected.\<close>

theorem accepted_kinds_linkable:
  assumes "review_proposal t i s by' note' d = (Inr (Some p), d')" and "proposals_unique d"
    and "op_kind p \<notin> set (map fst EDGE_REGISTRY)"
  shows "op_tenant p = t \<and> pr_id p = i \<and>
    (is_edge_kind_writable (ontology_tab (graph_of d')) t (op_kind p) \<longleftrightarrow> s = ''accepted'') \<and>
    (\<forall>t' k. (t', k) \<noteq> (t, op_kind p) \<longrightarrow>
      resolve_edge_kind_spec (ontology_tab (graph_of d')) t' k = resolve_edge_kind_spec (ontology_tab (graph_of d)) t' k)"
proof -
  define hit where "hit = (\<lambda>q :: proposal_row. op_tenant q = t \<and> pr_id q = i \<and> reviewable (op_status q) s)"
  define f where "f = (\<lambda>q. if hit q then reviewed (rd_now d) s by' note' q else q)"
  obtain q0 where q0: "List.find hit (rd_proposals d) = Some q0" "p = reviewed (rd_now d) s by' note' q0"
    and d': "d' = d\<lparr>rd_proposals := map f (rd_proposals d)\<rparr>"
    using assms(1) by (auto simp: review_proposal_def hit_def f_def Let_def split: if_splits)
  have q: "q0 \<in> set (rd_proposals d)" "hit q0" using find_some [OF q0(1)] by simp_all
  have key: "proposal_key (f q) = proposal_key q" for q by (simp add: f_def reviewed_fields)
  then have tk: "op_tenant (f q) = op_tenant q" "op_kind (f q) = op_kind q" for q by (simp_all add: proposal_key_def)
  have only: "q = q0" if "q \<in> set (rd_proposals d)" "hit q" for q
    using that q assms(2) by (auto simp: proposals_unique_def hit_def distinct_map inj_on_def)
  have row: "q = q0" if "q \<in> set (rd_proposals d)" "proposal_key q = proposal_key q0" for q
    using that q assms(2) by (auto simp: proposals_unique_def distinct_map inj_on_def)
  have p: "p = f q0" using q q0(2) by (simp add: f_def)
  have ids: "op_tenant p = t" "pr_id p = i" "op_status p = s" "op_kind p = op_kind q0" "op_tenant q0 = t"
    using q(2) tk [of q0, folded p] unfolding q0(2) by (simp_all add: hit_def reviewed_fields)
  have "is_edge_kind_writable (ontology_tab (graph_of d')) t (op_kind p) \<longleftrightarrow> s = ''accepted''"
  proof -
    have "op_tenant (f q) = t \<and> op_kind (f q) = op_kind p \<longleftrightarrow> q = q0" if "q \<in> set (rd_proposals d)" for q
      using row [OF that] ids by (auto simp: tk proposal_key_def)
    then have "(\<exists>r \<in> set (rd_proposals d'). op_tenant r = t \<and> op_kind r = op_kind p \<and> op_status r = ''accepted'') \<longleftrightarrow>
        op_status (f q0) = ''accepted''" using q(1) d' by auto
    then show ?thesis using writable_new_kind [OF assms(3), of d' t] ids(3) p by simp
  qed
  moreover have "resolve_edge_kind_spec (ontology_tab (graph_of d')) t' k = resolve_edge_kind_spec (ontology_tab (graph_of d)) t' k"
    if other: "(t', k) \<noteq> (t, op_kind p)" for t' k
  proof -
    let ?P = "\<lambda>q :: proposal_row. op_tenant q = t' \<and> op_kind q = k \<and> op_status q = ''accepted''"
    have same: "f q = q" if "q \<in> set (rd_proposals d)" "op_tenant q = t' \<and> op_kind q = k" for q
      using only [OF that(1)] that(2) other ids by (auto simp: f_def)
    have "List.find (?P \<circ> f) (rd_proposals d) = List.find ?P (rd_proposals d)"
    proof (rule find_same)
      fix q
      assume "q \<in> set (rd_proposals d)"
      then show "(?P \<circ> f) q = ?P q"
        by (cases "op_tenant q = t' \<and> op_kind q = k") (simp add: same, simp only: comp_apply tk, blast)
    qed
    moreover have "map_option f (List.find ?P (rd_proposals d)) = List.find ?P (rd_proposals d)"
    proof (cases "List.find ?P (rd_proposals d)")
      case (Some q)
      from find_some [OF Some] same [of q] have "f q = q" by blast
      then show ?thesis unfolding Some by simp
    qed simp
    ultimately have "load_accepted_proposal (ontology_tab (graph_of d')) t' k = load_accepted_proposal (ontology_tab (graph_of d)) t' k"
      unfolding load_accepted d' by (simp add: find_map)
    then show ?thesis unfolding resolve_edge_kind_spec_def by (rule arg_cong)
  qed
  ultimately show ?thesis using ids(1,2) by blast
qed

section \<open>Two candidates that propose one kind\<close>

definition gap_candidate :: "uuid \<Rightarrow> candidate_rec" where
  "gap_candidate i = \<lparr>rk_id = i, rk_tenant = 1, rk_kind = ''edge_type'', rk_basis = ''ontology_gap'', rk_source_model = None,
     rk_target_model = None, rk_edge_kind = None, rk_members = [], rk_events = [], rk_models = [], rk_counter = [],
     rk_proposition = Some [(''kind'', JStr ''ontology_gap''), (''proposed_edge_kind'', JStr ''Delays renewal'')],
     rk_explanation = [], rk_scores = \<lparr>js_impact = 0, js_uncertainty = 0, js_urgency = 0, js_reversibility = 0,
       js_authority = 0, js_actionability = 0, js_novelty = 0, js_confidence = 0\<rparr>,
     rk_source = ''t4_memory'', rk_review = ''candidate'', rk_metadata = [], cn_leverage = 0, cn_accepted_model = None,
     cn_accepted_edges = [], cn_created_at = 5, cn_decided_at = None, cn_expires_at = None\<rparr>"

definition gap_proposal :: proposal_row where
  "gap_proposal = \<lparr>op_tenant = 1, op_kind = ''delays_renewal'', op_status = ''review_ready'', op_parent = None,
     op_nearest = None, op_fallback = None, op_directionality = ''directed'', pr_id = 3, pr_description = [],
     pr_summary = [], pr_dropped = {}, pr_examples = {7}, pr_example_count = 1, pr_models = {}, pr_events = {},
     pr_criteria = [], pr_facets = [], pr_avg_leverage = 0, pr_max_leverage = 0, pr_confidence = 0, pr_metadata = [],
     pr_first_seen = 5, pr_last_seen = 5, pr_reviewed_at = None, pr_promoted_at = None, pr_updated_at = 5\<rparr>"

definition gap_db :: "proposal_row list \<Rightarrow> relation_db" where
  "gap_db ps = \<lparr>rd_graph = \<lparr>model_edges = [], models_tab = [], ontology_tab = None, reeval_queue = [], edge_uuid = 50,
       edge_now = 9\<rparr>, rd_candidates = [gap_candidate 7, gap_candidate 8], rd_proposals = ps\<rparr>"

definition json_str :: "json \<Rightarrow> string" where
  "json_str v = (case v of JStr s \<Rightarrow> s | _ \<Rightarrow> [])"

lemma gap_unique: "proposals_unique (gap_db [gap_proposal])"
  by (simp add: proposals_unique_def gap_db_def gap_proposal_def)

lemma gap_reviewed: "review_proposal 1 3 ''accepted'' None None (gap_db [gap_proposal]) =
    (Inr (Some (reviewed 9 ''accepted'' None None gap_proposal)), gap_db [reviewed 9 ''accepted'' None None gap_proposal])"
  by (simp add: review_proposal_def gap_db_def gap_proposal_def REVIEW_DECISIONS_def reviewable_def rd_now_def Let_def)

lemma gap_new: "op_kind (reviewed 9 ''accepted'' None None gap_proposal) \<notin> set (map fst EDGE_REGISTRY)"
proof -
  have "op_kind (reviewed 9 ''accepted'' None None gap_proposal) = ''delays_renewal''" by (simp add: reviewed_fields gap_proposal_def)
  moreover have "''delays_renewal'' \<notin> set (map fst EDGE_REGISTRY)" by code_simp
  ultimately show ?thesis by simp
qed

lemma accepted_kinds_linkable_witness:
  "is_edge_kind_writable (ontology_tab (graph_of (gap_db [reviewed 9 ''accepted'' None None gap_proposal]))) 1
     (op_kind (reviewed 9 ''accepted'' None None gap_proposal))"
  using accepted_kinds_linkable [OF gap_reviewed gap_unique gap_new] by blast

lemma proposal_lifecycle_witness:
  "distinct (map (\<lambda>q. (op_tenant q, op_kind q)) (rd_proposals (gap_db [reviewed 9 ''accepted'' None None gap_proposal])))"
proof -
  have "ontology_run json_str (gap_db [gap_proposal]) (gap_db [reviewed 9 ''accepted'' None None gap_proposal])"
    by (rule ontology_run.review [OF ontology_run.start gap_reviewed])
  moreover have "gap_proposal \<in> set (rd_proposals (gap_db [gap_proposal]))" by (simp add: gap_db_def)
  ultimately show ?thesis using proposal_lifecycle gap_unique by blast
qed

lemma gap_kind: "proposed_kind json_str (gap_candidate i) = Some ''delays_renewal''"
proof -
  have "normalize_text ''Delays renewal'' = Some ''delays_renewal''" by code_simp
  then show ?thesis
    by (simp add: proposed_kind_def gap_candidate_def payload_of_def normalize_proposed_edge_kind_def text_or_empty_def
        jget_def dict_get_or_def dict_get_def json_str_def)
qed

lemma group_proposal_ok:
  assumes "\<And>c. c \<in> set rows \<Longrightarrow> jget (payload_of c) ''dropped_dimensions'' = JNull"
  shows "\<exists>p. group_proposal str_of m k rows = Inr p"
proof -
  have "concat_results (map (\<lambda>p. iter_or_empty (jget p ''dropped_dimensions'')) (map payload_of rows)) = Inr []"
    using assms by (induction rows) (simp_all add: iter_or_empty_def)
  then show ?thesis by (simp add: group_proposal_def Let_def)
qed

lemma aggregate_ok:
  assumes "\<And>c. c \<in> set cs \<Longrightarrow> jget (payload_of c) ''dropped_dimensions'' = JNull"
  shows "\<exists>ps. aggregate_edge_type_candidates str_of m cs = Inr ps"
proof -
  have g: "\<exists>p. group_proposal str_of m k (group_of str_of cs k) = Inr p" for k
    by (rule group_proposal_ok) (use assms in \<open>simp add: group_of_def\<close>)
  have "\<exists>ps. concat_results (map (\<lambda>k. bind_result (group_proposal str_of m k (group_of str_of cs k)) (\<lambda>p. Inr [p])) ks) = Inr ps" for ks
  proof (induction ks)
    case (Cons k ks)
    with g [of k] show ?case by auto
  qed simp
  then show ?thesis by (simp add: aggregate_edge_type_candidates_def)
qed

lemma gap_dimensions: "jget (payload_of (gap_candidate i)) ''dropped_dimensions'' = JNull"
  by (simp add: gap_candidate_def payload_of_def jget_def dict_get_or_def dict_get_def)

lemma aggregation_exact_witness:
  "\<exists>ps. aggregate_edge_type_candidates json_str 2 [gap_candidate 7, gap_candidate 8] = Inr ps \<and>
    set (map op_kind ps) = {''delays_renewal''}"
proof -
  obtain ps where ps: "aggregate_edge_type_candidates json_str 2 [gap_candidate 7, gap_candidate 8] = Inr ps"
    using aggregate_ok [of "[gap_candidate 7, gap_candidate 8]" json_str 2] gap_dimensions by auto
  from aggregation_exact [OF ps] have "set (map op_kind ps) = {''delays_renewal''}" by (simp add: gap_kind)
  with ps show ?thesis by blast
qed

lemma gap_read: "edge_type_candidates 1 10 (gap_db []) = [gap_candidate 7, gap_candidate 8]"
  by (simp add: edge_type_candidates_def by_leverage_def open_edge_type_def gap_db_def gap_candidate_def)

lemma aggregation_effect_witness:
  "\<exists>rows d'. aggregate_from_edge_type_candidates json_str 1 2 10 (gap_db []) = (Inr rows, d') \<and>
    (\<exists>c' \<in> set (rd_candidates d'). rk_id c' = 7 \<and> (\<exists>row \<in> set rows. op_kind row = ''delays_renewal'' \<and>
       dict_get (rk_metadata c') ''ontology_proposal_id'' = Some (JUuid (pr_id row))))"
proof -
  obtain ps where ps: "aggregate_edge_type_candidates json_str 2 [gap_candidate 7, gap_candidate 8] = Inr ps"
    using aggregate_ok [of "[gap_candidate 7, gap_candidate 8]" json_str 2] gap_dimensions by auto
  obtain rows d' where run: "aggregate_from_edge_type_candidates json_str 1 2 10 (gap_db []) = (Inr rows, d')"
    by (cases "fold (store_proposal 1) ps ([], gap_db [])") (simp add: aggregate_from_edge_type_candidates_def gap_read ps del: One_nat_def)
  have "distinct (map rk_id (rd_candidates (gap_db [])))" "gap_candidate 7 \<in> set (rd_candidates (gap_db []))"
    "rk_id (gap_candidate 7) = 7" by (simp_all add: gap_db_def gap_candidate_def)
  from aggregation_effect [OF run this(1,2)] this(3) run show ?thesis
    by (simp only: gap_read gap_kind list.set insert_iff simp_thms if_True option.case) blast
qed

end
