(* ===== verification/PairEvidence.thy ===== *)
theory PairEvidence
  imports OntologyProposals
begin

text \<open>
  Evidence on pairs of models: \<open>services/reasoning/edge_intelligence/types.py\<close> and \<open>compiler.py\<close>, and
  of \<open>repo.py\<close> the evidence of relations and of pairs. An observation of a pair is folded into the
  row of the pair and primitive; the compiler makes a relationship candidate of a row with enough
  evidence. Votes are dictionaries from texts to counts; a count is a 32-bit column. \<open>fmt\<close> is the
  format \<open>.2f\<close> and \<open>str_of\<close> is \<open>str()\<close> on a value.
\<close>

section \<open>Pairs and votes\<close>

type_synonym votes = "(string \<times> int) list"

text \<open>The nine counts of a row, and the nine deltas of an observation.\<close>

record pair_counts =
  pc_co_retrieved :: int
  pc_co_used :: int
  pc_explicit :: int
  pc_think_edge_op :: int
  pc_t4_accept :: int
  pc_t4_reject :: int
  pc_no_edge :: int
  pc_positive :: int
  pc_negative :: int

record pair_obs =
  po_tenant :: uuid
  po_left :: uuid
  po_right :: uuid
  po_primitive :: "string option"
  po_deltas :: pair_counts
  po_source :: "uuid option"
  po_target :: "uuid option"
  po_kind_hint :: "string option"
  po_metadata :: dict

record pair_row =
  pv_id :: uuid
  pv_tenant :: uuid
  pv_a :: uuid
  pv_b :: uuid
  pv_primitive :: string
  pv_counts :: pair_counts
  pv_directions :: votes
  pv_kinds :: votes
  pv_confidence :: real
  pv_last_seen :: time
  pv_metadata :: dict
  pv_created_at :: time
  pv_updated_at :: time

text \<open>UUIDs compare as their texts do.\<close>

definition canonical_model_pair :: "uuid \<Rightarrow> uuid \<Rightarrow> (uuid \<times> uuid) result" where
  "canonical_model_pair left right =
    (if left = right then Inl (ValueError ''model pair evidence cannot use the same model twice'')
     else Inr (if left < right then (left, right) else (right, left)))"

definition to_upper :: "string \<Rightarrow> string" where
  "to_upper s = map (\<lambda>c. let n = of_char c :: nat in if 97 \<le> n \<and> n \<le> 122 then char_of (n - 32) else c) s"

definition normalize_primitive :: "string option \<Rightarrow> string" where
  "normalize_primitive value =
    (let primitive = to_upper (py_strip (case value of Some (c # cs) \<Rightarrow> c # cs | _ \<Rightarrow> ''UNKNOWN''))
     in if primitive = [] then ''UNKNOWN'' else primitive)"

definition max_vote :: "votes \<Rightarrow> string option" where
  "max_vote votes = (case sort_key (\<lambda>v. - snd v) (sort_key fst votes) of
     [] \<Rightarrow> None | (k, n) # _ \<Rightarrow> if 0 < n then Some k else None)"

definition strongest_edge_kind :: "pair_row \<Rightarrow> string option" where
  "strongest_edge_kind v = max_vote (pv_kinds v)"

definition strongest_direction :: "pair_row \<Rightarrow> string" where
  "strongest_direction v = (case max_vote (pv_directions v) of
     Some d \<Rightarrow> if d \<in> {''a_to_b'', ''b_to_a'', ''symmetric'', ''unknown''} then d else ''unknown''
   | None \<Rightarrow> ''unknown'')"

section \<open>The compiler\<close>

definition PRIMITIVE_EDGE_KIND_DEFAULTS :: "(string \<times> string) list" where
  "PRIMITIVE_EDGE_KIND_DEFAULTS =
    [(''DEPENDENCY'', ''blocks''), (''BLOCKER'', ''blocks''), (''ENABLEMENT'', ''enables''),
     (''COUNTEREVIDENCE'', ''weakens''), (''RECURRENCE'', ''same_issue_as''), (''GOAL_IMPACT'', ''supports''),
     (''PREDICTION'', ''early_warning_for''), (''TEMPORAL'', ''early_warning_for''), (''CAUSAL'', ''causes''),
     (''EXPLANATION'', ''explains''), (''RESOLUTION'', ''contributes_to_resolution'')]"

record compiler_config =
  cc_min_confidence :: real
  cc_min_positive :: int
  cc_min_direction_votes :: int
  cc_max_rejects :: int
  cc_retrieval_only :: bool

definition EdgeCompilerConfig :: compiler_config where
  "EdgeCompilerConfig = \<lparr>cc_min_confidence = 60 / 100, cc_min_positive = 2, cc_min_direction_votes = 1,
     cc_max_rejects = 0, cc_retrieval_only = False\<rparr>"

definition positive_weight :: "pair_counts \<Rightarrow> real" where
  "positive_weight c = 24 / 10 * of_int (pc_explicit c) + 17 / 10 * of_int (pc_co_used c)
     + 15 / 10 * of_int (pc_think_edge_op c) + 22 / 10 * of_int (pc_t4_accept c)
     + 35 / 100 * of_int (pc_co_retrieved c) + of_int (pc_positive c)"

definition negative_weight :: "pair_counts \<Rightarrow> real" where
  "negative_weight c = 22 / 10 * of_int (pc_t4_reject c) + 9 / 10 * of_int (pc_no_edge c)
     + 12 / 10 * of_int (pc_negative c)"

definition confidence_from_pair_evidence :: "pair_counts \<Rightarrow> real" where
  "confidence_from_pair_evidence c =
    (let positive = positive_weight c; negative = negative_weight c
     in if positive \<le> 0 then 0 else clamp_score (positive / (positive + negative + 3)))"

definition CAUSALISH_KINDS :: "string list" where
  "CAUSALISH_KINDS = [''blocks'', ''causes'', ''explains'', ''enables'', ''contributes_to_resolution'']"

definition choose_edge_kind :: "pair_row \<Rightarrow> string option" where
  "choose_edge_kind v = or_text (strongest_edge_kind v) (map_of PRIMITIVE_EDGE_KIND_DEFAULTS (pv_primitive v))"

definition vote_count :: "votes \<Rightarrow> string \<Rightarrow> int" where
  "vote_count votes k = (case map_of votes k of Some n \<Rightarrow> n | None \<Rightarrow> 0)"

definition oriented_pair :: "pair_row \<Rightarrow> bool \<Rightarrow> int \<Rightarrow> (uuid \<times> uuid) option" where
  "oriented_pair v directed min_votes =
    (if \<not> directed then Some (pv_a v, pv_b v)
     else
      let direction = strongest_direction v in
      if vote_count (pv_directions v) direction < min_votes then None
      else if direction = ''a_to_b'' then Some (pv_a v, pv_b v)
      else if direction = ''b_to_a'' then Some (pv_b v, pv_a v)
      else None)"

definition positive_signal_count :: "pair_counts \<Rightarrow> int" where
  "positive_signal_count c = pc_explicit c + pc_co_used c + pc_think_edge_op c + pc_t4_accept c + pc_positive c"

definition is_retrieval_only :: "pair_counts \<Rightarrow> bool" where
  "is_retrieval_only c \<longleftrightarrow> positive_signal_count c = 0 \<and> 0 < pc_co_retrieved c"

definition is_negative_memory_dominant :: "pair_counts \<Rightarrow> compiler_config \<Rightarrow> bool" where
  "is_negative_memory_dominant c config \<longleftrightarrow> \<not> 0 < pc_t4_accept c \<and> cc_max_rejects config < pc_t4_reject c"

definition pair_scores :: "pair_counts \<Rightarrow> real \<Rightarrow> judgment_scores" where
  "pair_scores c confidence = (let positive = of_int (positive_signal_count c) in
     \<lparr>js_impact = clamp_score (42 / 100 + 8 / 100 * positive + 5 / 100 * of_int (pc_t4_accept c)),
      js_uncertainty = clamp_score (45 / 100 - 8 / 100 * of_int (pc_t4_accept c) + 12 / 100 * of_int (pc_t4_reject c)),
      js_urgency = 1 / 2, js_reversibility = 0, js_authority = 45 / 100,
      js_actionability = clamp_score (45 / 100 + 7 / 100 * of_int (pc_co_used c)),
      js_novelty = 35 / 100, js_confidence = confidence\<rparr>)"

definition counts_json :: "pair_counts \<Rightarrow> dict" where
  "counts_json c =
    [(''co_retrieved'', JInt (pc_co_retrieved c)), (''co_used_valid_diff'', JInt (pc_co_used c)),
     (''explicit_relation'', JInt (pc_explicit c)), (''think_edge_op'', JInt (pc_think_edge_op c)),
     (''t4_accept'', JInt (pc_t4_accept c)), (''t4_reject'', JInt (pc_t4_reject c)),
     (''no_edge'', JInt (pc_no_edge c)), (''positive_outcome'', JInt (pc_positive c)),
     (''negative_outcome'', JInt (pc_negative c))]"

definition votes_json :: "votes \<Rightarrow> json" where
  "votes_json votes = JObj (map (\<lambda>(k, n). (k, JInt n)) votes)"

definition pair_explanation :: "(real \<Rightarrow> string) \<Rightarrow> (json \<Rightarrow> string) \<Rightarrow> pair_row \<Rightarrow> string \<Rightarrow> real \<Rightarrow> string" where
  "pair_explanation fmt str_of v edge_kind confidence =
    ''Pair evidence under '' @ pv_primitive v @ '' supports `'' @ edge_kind @ ''` with confidence '' @ fmt confidence @
    '': '' @ str_of (JObj (counts_json (pv_counts v))) @ ''.''"

definition pair_mechanism :: "(json \<Rightarrow> string) \<Rightarrow> pair_row \<Rightarrow> string \<Rightarrow> string" where
  "pair_mechanism str_of v edge_kind =
    ''Aggregated pair evidence indicates `'' @ edge_kind @ ''` under '' @ pv_primitive v @ '': '' @
    str_of (JObj (counts_json (pv_counts v))) @ ''.''"

definition pair_basis :: "pair_counts \<Rightarrow> string \<Rightarrow> string" where
  "pair_basis c edge_kind =
    (if 0 < pc_t4_accept c \<or> 0 < pc_think_edge_op c
     then if edge_kind \<in> set CAUSALISH_KINDS then ''causal_confirmed'' else ''observed''
     else if pc_explicit c \<noteq> 0 then ''observed'' else ''inferred'')"

text \<open>The identifier is drawn when the candidate is made, at the end.\<close>

definition compile_pair_evidence_candidate ::
  "(real \<Rightarrow> string) \<Rightarrow> (json \<Rightarrow> string) \<Rightarrow> compiler_config \<Rightarrow> uuid \<Rightarrow> pair_row \<Rightarrow> rel_candidate option result" where
  "compile_pair_evidence_candidate fmt str_of config new_id v =
    (let c = pv_counts v; confidence = confidence_from_pair_evidence c in
     if confidence < cc_min_confidence config then Inr None
     else if is_negative_memory_dominant c config then Inr None
     else if \<not> cc_retrieval_only config \<and> is_retrieval_only c then Inr None
     else if positive_signal_count c < cc_min_positive config then Inr None
     else
      case choose_edge_kind v of
        None \<Rightarrow> Inr None
      | Some edge_kind \<Rightarrow>
          (case map_of EDGE_REGISTRY edge_kind of
             None \<Rightarrow> Inr None
           | Some spec \<Rightarrow>
               if \<not> es_enabled spec then Inr None
               else
                case oriented_pair v (es_directed spec) (cc_min_direction_votes config) of
                  None \<Rightarrow> Inr None
                | Some (source, target) \<Rightarrow>
                    let basis = pair_basis c edge_kind in
                    bind_result (make_edge_candidate new_id (pv_tenant v) source target edge_kind basis
                      (pair_explanation fmt str_of v edge_kind confidence) (pair_scores c confidence)
                      [pv_a v, pv_b v] []
                      (if basis \<in> set CAUSAL_BASES then Some (pair_mechanism str_of v edge_kind) else None) None None []
                      [(''edge_intelligence'', JObj
                         [(''source'', JStr ''model_pair_evidence''), (''model_pair_evidence_id'', JUuid (pv_id v)),
                          (''primitive'', JStr (pv_primitive v)), (''counts'', JObj (counts_json c)),
                          (''direction_votes'', votes_json (pv_directions v)),
                          (''edge_kind_votes'', votes_json (pv_kinds v)), (''confidence_score'', JFloat confidence)])]
                      ''edge_intelligence_kernel'' ''candidate'') (\<lambda>k. Inr (Some k))))"

section \<open>Recording\<close>

text \<open>
  The tables of the edge kernel. \<open>model_text\<close> has the columns of \<open>models\<close> that the graph of
  beliefs does not read.
\<close>

record model_text =
  mt_kind :: string
  mt_natural :: "string option"
  mt_proposition :: dict
  mt_scope :: "json list"

record relation_evidence =
  re_id :: "uuid option"
  re_tenant :: uuid
  re_source_model :: "uuid option"
  re_target_model :: "uuid option"
  re_predicate :: string
  re_kind_hint :: "string option"
  re_direction :: string
  re_text :: "string option"
  re_confidence :: real
  re_method :: string
  re_status :: string
  re_metadata :: dict

record relation_evidence_row =
  rr_id :: uuid
  rr_evidence :: relation_evidence
  rr_created_at :: time
  rr_updated_at :: time

record pair_db = relation_db +
  pd_pairs :: "pair_row list"
  pd_evidence :: "relation_evidence_row list"
  pd_text :: "uuid \<Rightarrow> model_text"

definition clean_optional_text :: "string option \<Rightarrow> string option" where
  "clean_optional_text value = (case value of None \<Rightarrow> None | Some t \<Rightarrow> opt_text (py_strip t))"

definition deltas_of :: "pair_counts \<Rightarrow> int list" where
  "deltas_of c = [pc_co_retrieved c, pc_co_used c, pc_explicit c, pc_think_edge_op c, pc_t4_accept c,
     pc_t4_reject c, pc_no_edge c, pc_positive c, pc_negative c]"

definition validate_pair_observation :: "pair_obs \<Rightarrow> err option" where
  "validate_pair_observation obs =
    (case canonical_model_pair (po_left obs) (po_right obs) of
       Inl e \<Rightarrow> Some e
     | Inr _ \<Rightarrow>
         then_check (fails (list_ex (\<lambda>n. n < 0) (deltas_of (po_deltas obs)))
           (ValidationError ''pair evidence deltas must be non-negative''))
        (then_check (fails (sum_list (deltas_of (po_deltas obs)) \<le> 0 \<and> po_kind_hint obs \<in> {None, Some []})
           (ValidationError ''pair evidence observation has no signal''))
         (fails ((po_source obs = None) \<noteq> (po_target obs = None))
           (ValidationError ''direction evidence requires both endpoints''))))"

definition direction_vote :: "pair_obs \<Rightarrow> uuid \<Rightarrow> uuid \<Rightarrow> string option" where
  "direction_vote obs a b =
    (case (po_source obs, po_target obs) of
       (Some src, Some tgt) \<Rightarrow>
         if src = a \<and> tgt = b then Some ''a_to_b'' else if src = b \<and> tgt = a then Some ''b_to_a''
         else Some ''unknown''
     | _ \<Rightarrow> None)"

definition vote_dict :: "string option \<Rightarrow> votes" where
  "vote_dict value = (case value of Some (c # cs) \<Rightarrow> [(c # cs, 1)] | _ \<Rightarrow> [])"

definition merge_votes :: "votes \<Rightarrow> votes \<Rightarrow> votes" where
  "merge_votes left right =
    filter (\<lambda>(k, n). 0 < n)
      (sort_key fst (fold (\<lambda>(k, n) m. AList.update k (vote_count m k + n) m) right left))"

definition fits_int4 :: "pair_counts \<Rightarrow> bool" where
  "fits_int4 c \<longleftrightarrow> list_all (\<lambda>n. n \<le> 2147483647) (deltas_of c)"

definition add_counts :: "pair_counts \<Rightarrow> pair_counts \<Rightarrow> pair_counts" where
  "add_counts c e = \<lparr>pc_co_retrieved = pc_co_retrieved c + pc_co_retrieved e, pc_co_used = pc_co_used c + pc_co_used e,
     pc_explicit = pc_explicit c + pc_explicit e, pc_think_edge_op = pc_think_edge_op c + pc_think_edge_op e,
     pc_t4_accept = pc_t4_accept c + pc_t4_accept e, pc_t4_reject = pc_t4_reject c + pc_t4_reject e,
     pc_no_edge = pc_no_edge c + pc_no_edge e, pc_positive = pc_positive c + pc_positive e,
     pc_negative = pc_negative c + pc_negative e\<rparr>"

definition pair_key :: "pair_row \<Rightarrow> uuid \<times> uuid \<times> uuid \<times> string" where
  "pair_key v = (pv_tenant v, pv_a v, pv_b v, pv_primitive v)"

definition update_pair_confidence :: "pair_row \<Rightarrow> ('a pair_db_scheme, pair_row) tx" where
  "update_pair_confidence aggregate d =
    (let confidence = confidence_from_pair_evidence (pv_counts aggregate) in
     if \<bar>confidence - pv_confidence aggregate\<bar> < 1 / 1000000 then (Inr aggregate, d)
     else
      let set_conf = (\<lambda>v. v\<lparr>pv_confidence := confidence, pv_updated_at := rd_now d\<rparr>) in
      case row_at pair_key (pair_key aggregate) (pd_pairs d) of
        None \<Rightarrow> (Inl (ValidationError ''model pair confidence update returned no row''), d)
      | Some row \<Rightarrow> (Inr (set_conf row),
          d\<lparr>pd_pairs := row_update pair_key (pair_key aggregate) set_conf (pd_pairs d)\<rparr>))"

definition data_error :: err where
  "data_error = OtherError ''DataError''"

definition out_of_range :: err where
  "out_of_range = OtherError ''NumericValueOutOfRangeError''"

definition new_pair_row :: "uuid \<Rightarrow> time \<Rightarrow> pair_obs \<Rightarrow> uuid \<Rightarrow> uuid \<Rightarrow> pair_row" where
  "new_pair_row new_id now obs a b =
    \<lparr>pv_id = new_id, pv_tenant = po_tenant obs, pv_a = a, pv_b = b, pv_primitive = normalize_primitive (po_primitive obs),
     pv_counts = po_deltas obs, pv_directions = vote_dict (direction_vote obs a b),
     pv_kinds = vote_dict (clean_optional_text (po_kind_hint obs)), pv_confidence = 0, pv_last_seen = now,
     pv_metadata = po_metadata obs, pv_created_at = now, pv_updated_at = now\<rparr>"

definition merge_pair_row :: "time \<Rightarrow> pair_obs \<Rightarrow> pair_row \<Rightarrow> pair_row" where
  "merge_pair_row now obs v =
    v\<lparr>pv_counts := add_counts (pv_counts v) (po_deltas obs),
      pv_directions := merge_votes (pv_directions v) (vote_dict (direction_vote obs (pv_a v) (pv_b v))),
      pv_kinds := merge_votes (pv_kinds v) (vote_dict (clean_optional_text (po_kind_hint obs))),
      pv_metadata := dict_update (pv_metadata v) (po_metadata obs), pv_last_seen := now, pv_updated_at := now\<rparr>"

definition record_pair_observation :: "pair_obs \<Rightarrow> ('a pair_db_scheme, pair_row) tx" where
  "record_pair_observation obs d =
    (case validate_pair_observation obs of
       Some e \<Rightarrow> (Inl e, d)
     | None \<Rightarrow>
         (case canonical_model_pair (po_left obs) (po_right obs) of
            Inl e \<Rightarrow> (Inl e, d)
          | Inr (a, b) \<Rightarrow>
              let (new_id, d) = rd_uuid d; fresh = new_pair_row new_id (rd_now d) obs a b in
              if \<not> fits_int4 (po_deltas obs) then (Inl data_error, d)
              else
               case row_at pair_key (pair_key fresh) (pd_pairs d) of
                 None \<Rightarrow> update_pair_confidence fresh (d\<lparr>pd_pairs := pd_pairs d @ [fresh]\<rparr>)
               | Some current \<Rightarrow>
                   let merged = merge_pair_row (rd_now d) obs current in
                   if \<not> fits_int4 (pv_counts merged) then (Inl out_of_range, d)
                   else update_pair_confidence merged
                     (d\<lparr>pd_pairs := row_update pair_key (pair_key fresh) (merge_pair_row (rd_now d) obs) (pd_pairs d)\<rparr>)))"

definition list_promotable_pair_evidence ::
  "uuid \<Rightarrow> real \<Rightarrow> int \<Rightarrow> uuid list \<Rightarrow> 'a pair_db_scheme \<Rightarrow> pair_row list" where
  "list_promotable_pair_evidence tenant_id min_confidence limit model_ids d =
    (let hit = (\<lambda>v. pv_tenant v = tenant_id \<and> clamp_score min_confidence \<le> pv_confidence v \<and>
           (model_ids = [] \<or> pv_a v \<in> set model_ids \<or> pv_b v \<in> set model_ids))
     in take (nat (max 1 limit)) (sort_key (\<lambda>v. - pv_confidence v) (sort_key (\<lambda>v. - pv_last_seen v)
          (filter hit (pd_pairs d)))))"

section \<open>Evidence of relations\<close>

definition EVIDENCE_DIRECTIONS :: "string list" where
  "EVIDENCE_DIRECTIONS = [''source_to_target'', ''target_to_source'', ''symmetric'', ''unknown'']"

definition EVIDENCE_STATUSES :: "string list" where
  "EVIDENCE_STATUSES = [''active'', ''consumed'', ''rejected'', ''superseded'']"

definition validate_relation_evidence :: "relation_evidence \<Rightarrow> err option" where
  "validate_relation_evidence e =
    then_check (fails (blank (re_predicate e)) (ValidationError ''relation evidence requires predicate''))
   (then_check (fails (blank (re_method e)) (ValidationError ''relation evidence requires extraction_method''))
   (then_check (fails (re_source_model e \<noteq> None \<and> re_source_model e = re_target_model e)
      (ValidationError ''relation evidence cannot use same source/target model''))
   (then_check (fails (re_direction e \<notin> set EVIDENCE_DIRECTIONS) (ValidationError ''invalid relation evidence direction''))
      (fails (re_status e \<notin> set EVIDENCE_STATUSES) (ValidationError ''invalid relation evidence status'')))))"

definition cleaned_evidence :: "relation_evidence \<Rightarrow> relation_evidence" where
  "cleaned_evidence e = e\<lparr>re_predicate := py_strip (re_predicate e), re_kind_hint := clean_optional_text (re_kind_hint e),
     re_text := clean_optional_text (re_text e), re_confidence := clamp_score (re_confidence e),
     re_method := py_strip (re_method e)\<rparr>"

definition merge_evidence :: "relation_evidence \<Rightarrow> time \<Rightarrow> relation_evidence_row \<Rightarrow> relation_evidence_row" where
  "merge_evidence e now row = row\<lparr>rr_evidence := (rr_evidence row)\<lparr>re_predicate := re_predicate e,
     re_kind_hint := re_kind_hint e, re_direction := re_direction e, re_text := re_text e,
     re_confidence := re_confidence e, re_method := re_method e, re_status := re_status e,
     re_metadata := re_metadata e\<rparr>, rr_updated_at := now\<rparr>"

definition insert_relation_evidence :: "relation_evidence \<Rightarrow> ('a pair_db_scheme, relation_evidence_row) tx" where
  "insert_relation_evidence e d =
    (case validate_relation_evidence e of
       Some x \<Rightarrow> (Inl x, d)
     | None \<Rightarrow>
         let (row_id, d) = (case re_id e of Some i \<Rightarrow> (i, d) | None \<Rightarrow> rd_uuid d);
             e = cleaned_evidence e;
             fresh = \<lparr>rr_id = row_id, rr_evidence = e\<lparr>re_id := Some row_id\<rparr>, rr_created_at = rd_now d, rr_updated_at = rd_now d\<rparr>
         in case row_at rr_id row_id (pd_evidence d) of
              None \<Rightarrow> (Inr fresh, d\<lparr>pd_evidence := pd_evidence d @ [fresh]\<rparr>)
            | Some row \<Rightarrow> (Inr (merge_evidence e (rd_now d) row),
                d\<lparr>pd_evidence := row_update rr_id row_id (merge_evidence e (rd_now d)) (pd_evidence d)\<rparr>))"

end
