(* ===== verification/EdgePromotion.thy ===== *)
theory EdgePromotion
  imports PairEvidence "HOL-Library.Sublist"
begin

text \<open>
  From evidence to edges: the table of candidates of \<open>services/reasoning/relationships/repo.py\<close>, whose
  decisions are fed back to the evidence on pairs, the gate on endpoints and the pass over pairs of
  \<open>services/reasoning/edge_intelligence\<close> (\<open>endpoint_quality.py\<close>, \<open>promoter.py\<close>), and the pass that
  links safe candidates of \<open>services/reasoning/relationships/promoter.py\<close>. An error of the database
  would abort the transaction of the caller; the statements here raise none (\<open>PromotionProperties\<close>),
  apart from checks and conflicts that their results name. \<open>str_of\<close> is \<open>str()\<close>, \<open>dumps\<close> is \<open>json.dumps\<close>.
\<close>

section \<open>The table of candidates\<close>

definition insert_candidate :: "rel_candidate \<Rightarrow> ('a pair_db_scheme, candidate_rec) tx" where
  "insert_candidate c d =
    (let row = to_record (rd_now d) c;
         overwrite = (\<lambda>old. old\<lparr>rk_review := rk_review row, rk_metadata := rk_metadata row\<rparr>)
     in if \<not> candidate_checks row then (Inl (CheckViolationError ''relationship_candidates''), d)
        else case row_at rk_id (rk_id row) (rd_candidates d) of
          None \<Rightarrow> (Inr row, d\<lparr>rd_candidates := rd_candidates d @ [row]\<rparr>)
        | Some old \<Rightarrow> (Inr (overwrite old),
            d\<lparr>rd_candidates := row_update rk_id (rk_id row) overwrite (rd_candidates d)\<rparr>))"

definition insert_many :: "rel_candidate list \<Rightarrow> ('a pair_db_scheme, unit) tx" where
  "insert_many cs = for_tx cs (\<lambda>c. bind_tx (insert_candidate c) (\<lambda>row. return_tx ()))"

definition not_expired :: "time \<Rightarrow> candidate_rec \<Rightarrow> bool" where
  "not_expired now c \<longleftrightarrow> (case cn_expires_at c of None \<Rightarrow> True | Some t \<Rightarrow> now < t)"

definition list_for_review :: "uuid \<Rightarrow> string list \<Rightarrow> int \<Rightarrow> 'a pair_db_scheme \<Rightarrow> candidate_rec list" where
  "list_for_review tenant_id statuses limit d =
    take (nat (max 1 limit)) (by_leverage (filter (\<lambda>c. rk_tenant c = tenant_id \<and> rk_review c \<in> set statuses \<and>
      not_expired (rd_now d) c) (rd_candidates d)))"

definition get_candidate :: "uuid \<Rightarrow> uuid \<Rightarrow> 'a pair_db_scheme \<Rightarrow> candidate_rec option" where
  "get_candidate candidate_id tenant_id d =
    List.find (\<lambda>c. rk_id c = candidate_id \<and> rk_tenant c = tenant_id) (rd_candidates d)"

definition DECISIONS :: "string list" where
  "DECISIONS = [''accepted'', ''rejected'', ''contested'', ''retired'', ''needs_review'']"

definition FINAL_DECISIONS :: "string list" where
  "FINAL_DECISIONS = [''accepted'', ''rejected'', ''contested'', ''retired'']"

definition KIND_PRIMITIVES :: "(string \<times> string) list" where
  "KIND_PRIMITIVES =
    [(''blocks'', ''DEPENDENCY''), (''enables'', ''ENABLEMENT''), (''weakens'', ''COUNTEREVIDENCE''),
     (''contradicts'', ''COUNTEREVIDENCE''), (''same_issue_as'', ''RECURRENCE''), (''supports'', ''GOAL_IMPACT''),
     (''early_warning_for'', ''PREDICTION''), (''predicts'', ''PREDICTION''), (''causes'', ''CAUSAL''),
     (''explains'', ''EXPLANATION''), (''contributes_to_resolution'', ''RESOLUTION'')]"

definition primitive_from_candidate :: "(json \<Rightarrow> string) \<Rightarrow> string \<Rightarrow> dict \<Rightarrow> string" where
  "primitive_from_candidate str_of edge_kind metadata =
    (let stated = (\<lambda>k. case jget metadata k of JObj f \<Rightarrow> jget f ''primitive'' | _ \<Rightarrow> JNull) in
     if truthy (stated ''edge_intelligence'') then to_upper (str_of (stated ''edge_intelligence''))
     else if truthy (stated ''candidate_lifecycle'') then to_upper (str_of (stated ''candidate_lifecycle''))
     else case map_of KIND_PRIMITIVES edge_kind of Some p \<Rightarrow> p | None \<Rightarrow> ''UNKNOWN'')"

definition decision_dict :: "dict option \<Rightarrow> dict" where
  "decision_dict decision_metadata = (case decision_metadata of None \<Rightarrow> [] | Some m \<Rightarrow> m)"

definition one_if :: "bool \<Rightarrow> int" where
  "one_if b = (if b then 1 else 0)"

definition kind_directed :: "string \<Rightarrow> bool" where
  "kind_directed k \<longleftrightarrow> (case map_of EDGE_REGISTRY k of None \<Rightarrow> True | Some spec \<Rightarrow> es_directed spec)"

definition feedback_observation ::
  "(json \<Rightarrow> string) \<Rightarrow> candidate_rec \<Rightarrow> uuid \<Rightarrow> uuid \<Rightarrow> string \<Rightarrow> string \<Rightarrow> dict \<Rightarrow> pair_obs" where
  "feedback_observation str_of row source target edge_kind review_status decision =
    (let is_t4 = truthy (jget decision ''decision_reason'');
         accepted = (review_status = ''accepted''); rejected = (review_status = ''rejected'')
     in \<lparr>po_tenant = rk_tenant row, po_left = source, po_right = target,
         po_primitive = Some (primitive_from_candidate str_of edge_kind (rk_metadata row)),
         po_deltas = \<lparr>pc_co_retrieved = 0, pc_co_used = 0, pc_explicit = 0, pc_think_edge_op = 0,
           pc_t4_accept = one_if (accepted \<and> is_t4), pc_t4_reject = one_if (rejected \<and> is_t4),
           pc_no_edge = one_if rejected, pc_positive = one_if accepted, pc_negative = one_if rejected\<rparr>,
         po_source = (if kind_directed edge_kind then Some source else None),
         po_target = (if kind_directed edge_kind then Some target else None),
         po_kind_hint = Some edge_kind,
         po_metadata = [(''relationship_candidate_id'', JUuid (rk_id row)),
           (''candidate_review_status'', JStr review_status), (''decision'', JObj decision)]\<rparr>)"

definition feedback_evidence :: "candidate_rec \<Rightarrow> uuid \<Rightarrow> uuid \<Rightarrow> string \<Rightarrow> string \<Rightarrow> dict \<Rightarrow> relation_evidence" where
  "feedback_evidence row source target edge_kind review_status decision =
    \<lparr>re_id = None, re_tenant = rk_tenant row, re_source_model = Some source, re_target_model = Some target,
     re_predicate = edge_kind, re_kind_hint = Some edge_kind,
     re_direction = (if kind_directed edge_kind then ''source_to_target'' else ''symmetric''),
     re_text = Some (rk_explanation row), re_confidence = js_confidence (rk_scores row),
     re_method = ''relationship_candidate_decision'', re_status = ''active'',
     re_metadata = [(''relationship_candidate_id'', JUuid (rk_id row)), (''review_status'', JStr review_status),
       (''decision'', JObj decision)]\<rparr>"

text \<open>The feedback runs in a savepoint and swallows its errors.\<close>

definition record_candidate_edge_feedback ::
  "(json \<Rightarrow> string) \<Rightarrow> candidate_rec \<Rightarrow> string \<Rightarrow> dict option \<Rightarrow> 'a pair_db_scheme \<Rightarrow> 'a pair_db_scheme" where
  "record_candidate_edge_feedback str_of row review_status decision_metadata d =
    (if rk_kind row \<noteq> ''edge'' then d
     else
      case (rk_source_model row, rk_target_model row, rk_edge_kind row) of
        (Some source, Some target, Some edge_kind) \<Rightarrow>
          if review_status \<notin> {''accepted'', ''rejected'', ''needs_review''} then d
          else
           let decision = decision_dict decision_metadata in
           snd (atomically
             (bind_tx (record_pair_observation (feedback_observation str_of row source target edge_kind review_status decision))
               (\<lambda>_. if review_status = ''accepted''
                 then bind_tx (insert_relation_evidence
                   (feedback_evidence row source target edge_kind review_status decision)) (\<lambda>_. return_tx ())
                 else return_tx ())) d)
      | _ \<Rightarrow> d)"

definition decide_row :: "time \<Rightarrow> string \<Rightarrow> uuid option \<Rightarrow> uuid list \<Rightarrow> dict option \<Rightarrow> candidate_rec \<Rightarrow> candidate_rec" where
  "decide_row now review_status model edges decision_metadata c =
    c\<lparr>rk_review := review_status, cn_accepted_model := model, cn_accepted_edges := edges,
      rk_metadata := (case decision_metadata of None \<Rightarrow> rk_metadata c
        | Some m \<Rightarrow> dict_set ''latest_adjudication'' (JObj m) (rk_metadata c)),
      cn_decided_at := (if review_status \<in> set FINAL_DECISIONS then Some now else cn_decided_at c)\<rparr>"

definition mark_decided ::
  "(json \<Rightarrow> string) \<Rightarrow> uuid \<Rightarrow> uuid \<Rightarrow> string \<Rightarrow> uuid option \<Rightarrow> uuid list \<Rightarrow> dict option \<Rightarrow>
   ('a pair_db_scheme, candidate_rec option) tx" where
  "mark_decided str_of candidate_id tenant_id review_status model edges decision_metadata d =
    (if review_status \<notin> set DECISIONS
     then (Inl (ValidationError ''invalid relationship candidate review_status''), d)
     else
      let hit = (\<lambda>c. rk_id c = candidate_id \<and> rk_tenant c = tenant_id);
          f = decide_row (rd_now d) review_status model edges decision_metadata
      in case List.find hit (rd_candidates d) of
           None \<Rightarrow> (Inr None, d)
         | Some c \<Rightarrow> (Inr (Some (f c)),
             record_candidate_edge_feedback str_of (f c) review_status decision_metadata
               (d\<lparr>rd_candidates := map (\<lambda>c. if hit c then f c else c) (rd_candidates d)\<rparr>)))"

section \<open>The gate on endpoints\<close>

definition CONCRETE_SCOPE_TYPES :: "string list" where
  "CONCRETE_SCOPE_TYPES = [''customer'', ''customer_resource'', ''commitment'']"

definition PRECISE_EDGE_KINDS :: "string list" where
  "PRECISE_EDGE_KINDS = [''blocks'', ''enables'', ''supports'', ''weakens'', ''contradicts'', ''causes'', ''explains'',
     ''predicts'', ''early_warning_for'', ''contributes_to_resolution'']"

definition DIAGNOSTIC_TERMS :: "string list" where
  "DIAGNOSTIC_TERMS = [''unrecorded mutation'', ''state discontinuity'', ''consecutive audit events'',
     ''mutation gap'', ''missing transition'']"

definition is_composite :: "model_text \<Rightarrow> bool" where
  "is_composite t \<longleftrightarrow> mt_kind t = ''situation'' \<or> jget (mt_proposition t) ''claim_role'' = JStr ''situation'' \<or>
     jget (mt_proposition t) ''abstraction_level'' = JStr ''composite''"

definition is_diagnostic :: "(json \<Rightarrow> string) \<Rightarrow> model_text \<Rightarrow> bool" where
  "is_diagnostic dumps t \<longleftrightarrow>
    (let text = to_lower ((case mt_natural t of None \<Rightarrow> [] | Some n \<Rightarrow> n) @ '' '' @ dumps (JObj (mt_proposition t)))
     in list_ex (\<lambda>term. sublist term text) DIAGNOSTIC_TERMS)"

definition scope_set :: "(json \<Rightarrow> string) \<Rightarrow> model_text \<Rightarrow> (string \<times> string) list" where
  "scope_set str_of t =
    [(scope_type, scope_id). item \<leftarrow> List.map_filter json_fields (mt_scope t),
       scope_type \<leftarrow> [py_strip (text_or_empty str_of (jget item ''type''))],
       scope_id \<leftarrow> [py_strip (text_or_empty str_of (jget item ''id''))], scope_type \<noteq> [], scope_id \<noteq> []]"

definition shared_concrete_scope :: "(string \<times> string) list \<Rightarrow> (string \<times> string) list \<Rightarrow> bool" where
  "shared_concrete_scope left right \<longleftrightarrow> list_ex (\<lambda>s. s \<in> set right \<and> fst s \<in> set CONCRETE_SCOPE_TYPES) left"

definition endpoint_reasons :: "(json \<Rightarrow> string) \<Rightarrow> model_row \<Rightarrow> model_text \<Rightarrow> string list" where
  "endpoint_reasons dumps row t =
    (if m_status row \<noteq> ''active'' \<or> m_archived_at row \<noteq> None then [''inactive_endpoint''] else []) @
    (if is_composite t then [''composite_endpoint''] else []) @
    (if is_diagnostic dumps t then [''diagnostic_endpoint''] else [])"

text \<open>The rows of \<open>models\<close> that the gate reads: \<open>id = ANY\<close> of the two ends.\<close>

definition endpoint_quality_gate ::
  "(json \<Rightarrow> string) \<Rightarrow> (json \<Rightarrow> string) \<Rightarrow> uuid \<Rightarrow> uuid \<Rightarrow> uuid \<Rightarrow> string \<Rightarrow> 'a pair_db_scheme \<Rightarrow> bool \<times> string list" where
  "endpoint_quality_gate str_of dumps tenant_id source target edge_kind d =
    (let rows = filter (\<lambda>r. m_tenant r = tenant_id \<and> m_id r \<in> {source, target}) (models_tab (rd_graph d)) in
     if length rows < 2 then (True, [])
     else
      let reasons = concat (map (\<lambda>i. case row_at m_id i rows of None \<Rightarrow> [] | Some r \<Rightarrow> endpoint_reasons dumps r (pd_text d i))
            [source, target]) @
          (if edge_kind \<in> set PRECISE_EDGE_KINDS \<and>
              \<not> shared_concrete_scope (scope_set str_of (pd_text d source)) (scope_set str_of (pd_text d target))
           then [''missing_shared_concrete_scope''] else [])
      in (reasons = [], sort (remdups reasons)))"

section \<open>From pairs to candidates\<close>

definition active_edge_exists :: "uuid \<Rightarrow> uuid \<Rightarrow> uuid \<Rightarrow> string \<Rightarrow> 'a relation_db_scheme \<Rightarrow> bool" where
  "active_edge_exists tenant_id source target edge_kind d \<longleftrightarrow>
    list_ex (\<lambda>e. me_tenant e = tenant_id \<and> me_source e = source \<and> me_target e = target \<and> me_kind e = edge_kind \<and>
      me_status e = ''active'') (model_edges (rd_graph d))"

definition names_pair :: "uuid \<Rightarrow> candidate_rec \<Rightarrow> bool" where
  "names_pair pair_id c \<longleftrightarrow>
    (case jget (rk_metadata c) ''edge_intelligence'' of
       JObj f \<Rightarrow> jget f ''model_pair_evidence_id'' = JUuid pair_id | _ \<Rightarrow> False)"

definition candidate_exists :: "uuid \<Rightarrow> uuid \<Rightarrow> uuid \<Rightarrow> string \<Rightarrow> uuid \<Rightarrow> 'a relation_db_scheme \<Rightarrow> bool" where
  "candidate_exists tenant_id source target edge_kind pair_id d \<longleftrightarrow>
    list_ex (\<lambda>c. rk_tenant c = tenant_id \<and> rk_kind c = ''edge'' \<and> rk_source_model c = Some source \<and>
      rk_target_model c = Some target \<and> rk_edge_kind c = Some edge_kind \<and>
      rk_review c \<in> {''candidate'', ''needs_review'', ''accepted''} \<and>
      (names_pair pair_id c \<or> rk_source c = ''edge_intelligence_kernel'')) (rd_candidates d)"

record pair_report =
  pp_inserted :: nat
  pp_skipped :: nat
  pp_errors :: "(uuid \<times> err) list"

definition promote_pair ::
  "(real \<Rightarrow> string) \<Rightarrow> (json \<Rightarrow> string) \<Rightarrow> (json \<Rightarrow> string) \<Rightarrow> compiler_config \<Rightarrow> uuid \<Rightarrow> pair_row \<Rightarrow>
   pair_report \<times> 'a pair_db_scheme \<Rightarrow> pair_report \<times> 'a pair_db_scheme" where
  "promote_pair fmt str_of dumps config tenant_id v s =
    (case s of (rep, d) \<Rightarrow>
      let (new_id, d1) = rd_uuid d; skip = (\<lambda>d. (rep\<lparr>pp_skipped := Suc (pp_skipped rep)\<rparr>, d)) in
      case compile_pair_evidence_candidate fmt str_of config new_id v of
        Inl e \<Rightarrow> (rep\<lparr>pp_errors := pp_errors rep @ [(pv_id v, e)]\<rparr>, d)
      | Inr None \<Rightarrow> skip d
      | Inr (Some c) \<Rightarrow>
          (case (rk_source_model c, rk_target_model c, rk_edge_kind c) of
             (Some source, Some target, Some edge_kind) \<Rightarrow>
               if \<not> fst (endpoint_quality_gate str_of dumps tenant_id source target edge_kind d1) then skip d1
               else if active_edge_exists tenant_id source target edge_kind d1 then skip d1
               else if candidate_exists tenant_id source target edge_kind (pv_id v) d1 then skip d1
               else (case insert_candidate c d1 of
                   (Inl e, d2) \<Rightarrow> (rep\<lparr>pp_errors := pp_errors rep @ [(pv_id v, e)]\<rparr>, d2)
                 | (Inr row, d2) \<Rightarrow> (rep\<lparr>pp_inserted := Suc (pp_inserted rep)\<rparr>, d2))
           | _ \<Rightarrow> skip d1))"

definition promote_pair_evidence_candidates ::
  "(real \<Rightarrow> string) \<Rightarrow> (json \<Rightarrow> string) \<Rightarrow> (json \<Rightarrow> string) \<Rightarrow> compiler_config \<Rightarrow> uuid \<Rightarrow> int \<Rightarrow> uuid list \<Rightarrow>
   'a pair_db_scheme \<Rightarrow> pair_report \<times> 'a pair_db_scheme" where
  "promote_pair_evidence_candidates fmt str_of dumps config tenant_id limit model_ids d =
    fold (promote_pair fmt str_of dumps config tenant_id)
      (list_promotable_pair_evidence tenant_id (cc_min_confidence config) limit model_ids d)
      (\<lparr>pp_inserted = 0, pp_skipped = 0, pp_errors = []\<rparr>, d)"

section \<open>From candidates to edges\<close>

definition MIN_CONFIDENCE :: real where "MIN_CONFIDENCE = 70 / 100"
definition MIN_LEVERAGE :: real where "MIN_LEVERAGE = 50 / 100"
definition MAX_UNCERTAINTY :: real where "MAX_UNCERTAINTY = 55 / 100"

definition EDGE_INTELLIGENCE_PRECISE_KINDS :: "string list" where
  "EDGE_INTELLIGENCE_PRECISE_KINDS = [''blocks'', ''causes'', ''contributes_to_resolution'', ''contradicts'',
     ''early_warning_for'', ''enables'', ''explains'', ''weakens'']"

definition retire_expired_candidates :: "uuid \<Rightarrow> 'a relation_db_scheme \<Rightarrow> nat \<times> 'a relation_db_scheme" where
  "retire_expired_candidates tenant_id d =
    (let hit = (\<lambda>c. rk_tenant c = tenant_id \<and> rk_review c \<in> {''candidate'', ''needs_review'', ''contested''} \<and>
           \<not> not_expired (rd_now d) c);
         retire = (\<lambda>c. c\<lparr>rk_review := ''retired'', cn_decided_at := Some (rd_now d),
           rk_metadata := dict_set ''retired_reason'' (JStr ''expired'') (rk_metadata c)\<rparr>)
     in (length (filter hit (rd_candidates d)),
         d\<lparr>rd_candidates := map (\<lambda>c. if hit c then retire c else c) (rd_candidates d)\<rparr>))"

record thresholds =
  th_confidence :: real
  th_leverage :: real
  th_uncertainty :: real

definition meets :: "thresholds \<Rightarrow> candidate_rec \<Rightarrow> bool" where
  "meets th c \<longleftrightarrow> th_confidence th \<le> js_confidence (rk_scores c) \<and> th_leverage th \<le> cn_leverage c \<and>
     js_uncertainty (rk_scores c) \<le> th_uncertainty th"

definition kernel_thresholds :: thresholds where
  "kernel_thresholds = \<lparr>th_confidence = MIN_CONFIDENCE, th_leverage = MIN_LEVERAGE, th_uncertainty = MAX_UNCERTAINTY\<rparr>"

definition query_thresholds :: "thresholds \<Rightarrow> thresholds" where
  "query_thresholds th = \<lparr>th_confidence = min (th_confidence th) MIN_CONFIDENCE,
     th_leverage = min (th_leverage th) MIN_LEVERAGE, th_uncertainty = max (th_uncertainty th) MAX_UNCERTAINTY\<rparr>"

definition linkable :: "uuid \<Rightarrow> time \<Rightarrow> candidate_rec \<Rightarrow> bool" where
  "linkable tenant_id now c \<longleftrightarrow> rk_tenant c = tenant_id \<and> rk_kind c = ''edge'' \<and>
     rk_review c \<in> {''candidate'', ''needs_review''} \<and> rk_basis c \<in> {''observed'', ''causal_confirmed''} \<and>
     rk_source_model c \<noteq> None \<and> rk_target_model c \<noteq> None \<and> rk_edge_kind c \<noteq> None \<and> not_expired now c"

definition promotion_rows :: "uuid \<Rightarrow> int \<Rightarrow> thresholds \<Rightarrow> 'a relation_db_scheme \<Rightarrow> candidate_rec list" where
  "promotion_rows tenant_id limit th d =
    take (nat (max 1 limit)) (sort_key (\<lambda>c. - cn_leverage c) (sort_key (\<lambda>c. - js_confidence (rk_scores c))
      (sort_key cn_created_at (filter (\<lambda>c. linkable tenant_id (rd_now d) c \<and> meets (query_thresholds th) c) (rd_candidates d)))))"

text \<open>The counts in the metadata of a candidate; \<open>int(..)\<close> raises on a malformed one.\<close>

definition direct_edge_intelligence_candidate :: "candidate_rec \<Rightarrow> bool result" where
  "direct_edge_intelligence_candidate c =
    (if rk_source c \<noteq> ''edge_intelligence_kernel'' then Inr False
     else if (case rk_edge_kind c of None \<Rightarrow> True | Some k \<Rightarrow> k \<notin> set EDGE_INTELLIGENCE_PRECISE_KINDS) then Inr False
     else if \<not> meets kernel_thresholds c then Inr False
     else
      case jget (rk_metadata c) ''edge_intelligence'' of
        JObj f \<Rightarrow>
          (case jget f ''counts'' of
             JObj counts \<Rightarrow>
               let n = (\<lambda>k. py_int (py_or (jget counts k) (JInt 0))) in
               bind_result (n ''explicit_relation'') (\<lambda>explicit.
               bind_result (n ''co_used_valid_diff'') (\<lambda>co_used.
               bind_result (n ''think_edge_op'') (\<lambda>think_edge.
               bind_result (n ''t4_accept'') (\<lambda>t4_accept.
                 Inr (0 < explicit \<and> 0 < co_used \<and> (0 < think_edge \<or> 0 < t4_accept))))))
           | _ \<Rightarrow> Inr False)
      | _ \<Rightarrow> Inr False)"

definition passes_promotion_gate :: "thresholds \<Rightarrow> candidate_rec \<Rightarrow> bool result" where
  "passes_promotion_gate th c = (if meets th c then Inr True else direct_edge_intelligence_candidate c)"

definition candidate_weight :: "candidate_rec \<Rightarrow> edge_spec \<Rightarrow> real option" where
  "candidate_weight c spec = (if \<not> es_weight_allowed spec then None
     else Some (max (1 / 10) (min 1 ((js_confidence (rk_scores c) + cn_leverage c) / 2))))"

definition promotion_link :: "candidate_rec \<Rightarrow> uuid \<Rightarrow> uuid \<Rightarrow> string \<Rightarrow> uuid \<Rightarrow> edge_spec \<Rightarrow> link_args" where
  "promotion_link c source target kind tenant_id spec =
    (link_defaults source target kind tenant_id ''link_miner'' None)
      \<lparr>la_weight := candidate_weight c spec,
       la_metadata := Some (dict_update [(''relationship_candidate_id'', JUuid (rk_id c)), (''basis'', JStr (rk_basis c)),
         (''promotion'', JStr ''high_confidence_housekeeper'')] (rk_metadata c)),
       la_confidence := js_confidence (rk_scores c), la_event_evidence := Some (rk_events c),
       la_model_evidence := Some (rk_models c), la_explanation := Some (rk_explanation c)\<rparr>"

definition link_in :: "link_args \<Rightarrow> ('a relation_db_scheme, uuid list) tx" where
  "link_in a d = (case link a (graph_of d) of (r, g) \<Rightarrow> (r, d\<lparr>rd_graph := g\<rparr>))"

record promotion_report =
  pr_promoted :: nat
  pr_edge_ids :: "uuid list"
  pr_errors :: "(uuid \<times> err) list"

text \<open>The body of the \<open>try\<close>; \<open>None\<close> is a candidate that the gate leaves alone.\<close>

definition promote_row ::
  "(json \<Rightarrow> string) \<Rightarrow> uuid \<Rightarrow> thresholds \<Rightarrow> candidate_rec \<Rightarrow> ('a pair_db_scheme, uuid list option) tx" where
  "promote_row str_of tenant_id th c d =
    (case passes_promotion_gate th c of
       Inl e \<Rightarrow> (Inl e, d)
     | Inr False \<Rightarrow> (Inr None, d)
     | Inr True \<Rightarrow>
         (case (rk_source_model c, rk_target_model c, rk_edge_kind c) of
            (Some source, Some target, Some kind) \<Rightarrow>
              (case resolve_edge_kind_spec (ontology_tab (graph_of d)) tenant_id kind of
                 Inl e \<Rightarrow> (Inl e, d)
               | Inr spec \<Rightarrow>
                   (case link_in (promotion_link c source target kind tenant_id spec) d of
                      (Inl e, d) \<Rightarrow> (Inl e, d)
                    | (Inr edge_ids, d) \<Rightarrow>
                        (case mark_decided str_of (rk_id c) tenant_id ''accepted'' None edge_ids
                            (Some [(''reason'', JStr ''high_confidence_housekeeper_promotion''),
                              (''promoted_edge_ids'', JList (map JUuid edge_ids))]) d of
                           (Inl e, d) \<Rightarrow> (Inl e, d)
                         | (Inr row, d) \<Rightarrow> (Inr (Some edge_ids), d))))
          | _ \<Rightarrow> (Inr None, d)))"

definition promote_candidate ::
  "(json \<Rightarrow> string) \<Rightarrow> (err \<Rightarrow> string) \<Rightarrow> uuid \<Rightarrow> thresholds \<Rightarrow> candidate_rec \<Rightarrow>
   promotion_report \<times> 'a pair_db_scheme \<Rightarrow> promotion_report \<times> 'a pair_db_scheme" where
  "promote_candidate str_of err_text tenant_id th c s =
    (case s of (rep, d) \<Rightarrow>
      case promote_row str_of tenant_id th c d of
        (Inr None, d) \<Rightarrow> (rep, d)
      | (Inr (Some edge_ids), d) \<Rightarrow>
          (rep\<lparr>pr_promoted := Suc (pr_promoted rep), pr_edge_ids := pr_edge_ids rep @ edge_ids\<rparr>, d)
      | (Inl e, d) \<Rightarrow>
          (rep\<lparr>pr_errors := pr_errors rep @ [(rk_id c, e)]\<rparr>,
           snd (mark_decided str_of (rk_id c) tenant_id ''needs_review'' None []
             (Some [(''reason'', JStr ''housekeeper_promotion_failed''), (''error'', JStr (err_text e))]) d)))"

definition promote_high_confidence_edges ::
  "(json \<Rightarrow> string) \<Rightarrow> (err \<Rightarrow> string) \<Rightarrow> uuid \<Rightarrow> int \<Rightarrow> thresholds \<Rightarrow> 'a pair_db_scheme \<Rightarrow>
   nat \<times> promotion_report \<times> 'a pair_db_scheme" where
  "promote_high_confidence_edges str_of err_text tenant_id limit th d =
    (let (retired, d) = retire_expired_candidates tenant_id d in
     (retired, fold (promote_candidate str_of err_text tenant_id th) (promotion_rows tenant_id limit th d)
       (\<lparr>pr_promoted = 0, pr_edge_ids = [], pr_errors = []\<rparr>, d)))"

definition default_thresholds :: thresholds where
  "default_thresholds = \<lparr>th_confidence = 80 / 100, th_leverage = 75 / 100, th_uncertainty = 50 / 100\<rparr>"

end
