(* ===== verification/PairFacts.thy ===== *)
theory PairFacts
  imports PairEvidence CandidateFacts
begin

text \<open>
  Lemmas on the evidence of pairs: the row of a pair and primitive is the tally of the observations
  recorded for it, and what the compiler makes of a row.
\<close>

section \<open>Votes\<close>

definition votes_ok :: "votes \<Rightarrow> bool" where
  "votes_ok m \<longleftrightarrow> distinct (map fst m) \<and> (\<forall>(k, n) \<in> set m. 0 < n)"

lemma vote_dict_ok: "votes_ok (vote_dict v)"
  by (auto simp: vote_dict_def votes_ok_def split: option.split list.split)

lemma vote_count_update: "vote_count (AList.update k n m) j = (if j = k then n else vote_count m j)"
  by (simp add: vote_count_def update_conv')

lemma vote_count_nonneg: "votes_ok m \<Longrightarrow> 0 \<le> vote_count m k"
  by (fastforce simp: vote_count_def votes_ok_def dest: map_of_SomeD split: option.split)

lemma vote_count_pos: "votes_ok m \<Longrightarrow> 0 < vote_count m k \<longleftrightarrow> k \<in> fst ` set m"
  by (force simp: vote_count_def votes_ok_def map_of_eq_None_iff dest: map_of_SomeD split: option.split)

lemma votes_update_ok: "votes_ok m \<Longrightarrow> 0 < n \<Longrightarrow> votes_ok (AList.update k n m)"
proof -
  assume m: "votes_ok m" and n: "0 < n"
  have "0 < snd p" if "p \<in> set (AList.update k n m)" for p
  proof -
    have "distinct (map fst (AList.update k n m))" using m by (simp add: votes_ok_def distinct_update)
    then have "map_of (AList.update k n m) (fst p) = Some (snd p)" using that by (simp add: map_of_is_SomeI)
    then have "map_of m (fst p) = Some (snd p) \<or> snd p = n" by (simp add: update_conv' split: if_splits)
    then show ?thesis using m n by (fastforce simp: votes_ok_def dest: map_of_SomeD)
  qed
  then show ?thesis using m by (auto simp: votes_ok_def distinct_update)
qed

lemma votes_sort_ok: "votes_ok m \<Longrightarrow> votes_ok (sort_key f m)"
  by (simp add: votes_ok_def distinct_map)

lemma vote_count_sort: "votes_ok m \<Longrightarrow> vote_count (sort_key f m) k = vote_count m k"
  using map_of_inject_set [of "sort_key f m" m] votes_sort_ok [of m f] by (simp add: vote_count_def votes_ok_def)

lemma votes_filter: "votes_ok m \<Longrightarrow> filter (\<lambda>(k, n). 0 < n) m = m"
  by (auto simp: votes_ok_def filter_id_conv)

lemma merged_count:
  assumes "votes_ok m"
  shows "votes_ok (merge_votes m (vote_dict v)) \<and> vote_count (merge_votes m (vote_dict v)) k = vote_count m k + vote_count (vote_dict v) k"
proof (cases "\<exists>c cs. v = Some (c # cs)")
  case True
  then obtain t where t: "v = Some t" "t \<noteq> []" by blast
  then have d: "vote_dict v = [(t, 1)]" by (auto simp: vote_dict_def split: list.split)
  have ok: "votes_ok (AList.update t (vote_count m t + 1) m)"
    using assms vote_count_nonneg [OF assms, of t] by (intro votes_update_ok) simp_all
  have one: "vote_count [(t, 1)] k = (if k = t then 1 else 0)" by (simp add: vote_count_def)
  show ?thesis unfolding d merge_votes_def using ok assms
    by (simp add: votes_sort_ok vote_count_sort votes_filter vote_count_update one)
next
  case False
  then have "vote_dict v = []" by (auto simp: vote_dict_def split: option.split list.split)
  then show ?thesis using assms by (simp add: merge_votes_def votes_sort_ok vote_count_sort votes_filter vote_count_def [of "[]"])
qed

section \<open>Tallies\<close>

definition zero_counts :: pair_counts where
  "zero_counts = \<lparr>pc_co_retrieved = 0, pc_co_used = 0, pc_explicit = 0, pc_think_edge_op = 0, pc_t4_accept = 0,
     pc_t4_reject = 0, pc_no_edge = 0, pc_positive = 0, pc_negative = 0\<rparr>"

definition obs_key :: "pair_obs \<Rightarrow> uuid \<times> uuid \<times> uuid \<times> string" where
  "obs_key obs = (po_tenant obs, min (po_left obs) (po_right obs), max (po_left obs) (po_right obs),
     normalize_primitive (po_primitive obs))"

definition votes_for :: "('o \<Rightarrow> string option) \<Rightarrow> 'o list \<Rightarrow> string \<Rightarrow> int" where
  "votes_for vote os k = int (length (filter (\<lambda>obs. vote obs = Some k \<and> k \<noteq> []) os))"

text \<open>What a row holds after the observations \<open>os\<close> of its pair and primitive.\<close>

definition tally :: "pair_obs list \<Rightarrow> pair_row \<Rightarrow> bool" where
  "tally os v \<longleftrightarrow> pv_a v < pv_b v \<and> pv_counts v = fold (\<lambda>obs c. add_counts c (po_deltas obs)) os zero_counts \<and>
     (\<forall>k. vote_count (pv_directions v) k = votes_for (\<lambda>obs. direction_vote obs (pv_a v) (pv_b v)) os k) \<and>
     (\<forall>k. vote_count (pv_kinds v) k = votes_for (\<lambda>obs. clean_optional_text (po_kind_hint obs)) os k) \<and>
     \<bar>confidence_from_pair_evidence (pv_counts v) - pv_confidence v\<bar> < 1 / 1000000 \<and> unit_interval (pv_confidence v)"

definition tallied :: "pair_obs list \<Rightarrow> 'a pair_db_scheme \<Rightarrow> bool" where
  "tallied os d \<longleftrightarrow> distinct (map pair_key (pd_pairs d)) \<and> pair_key ` set (pd_pairs d) = obs_key ` set os \<and>
     (\<forall>v \<in> set (pd_pairs d). votes_ok (pv_directions v) \<and> votes_ok (pv_kinds v) \<and>
        tally (filter (\<lambda>obs. obs_key obs = pair_key v) os) v)"

lemma confidence_unit: "unit_interval (confidence_from_pair_evidence c)"
  by (simp add: confidence_from_pair_evidence_def Let_def clamp_unit unit_interval_def [of 0])

lemma valid_observation:
  assumes "validate_pair_observation obs = None"
  shows "canonical_model_pair (po_left obs) (po_right obs) = Inr (min (po_left obs) (po_right obs), max (po_left obs) (po_right obs))"
    and "po_left obs \<noteq> po_right obs" and "list_all (\<lambda>n. 0 \<le> n) (deltas_of (po_deltas obs))"
proof -
  show ne: "po_left obs \<noteq> po_right obs"
    using assms by (auto simp: validate_pair_observation_def canonical_model_pair_def)
  then show "canonical_model_pair (po_left obs) (po_right obs) = Inr (min (po_left obs) (po_right obs), max (po_left obs) (po_right obs))"
    by (auto simp: canonical_model_pair_def)
  show "list_all (\<lambda>n. 0 \<le> n) (deltas_of (po_deltas obs))"
    using assms by (auto simp: validate_pair_observation_def then_check_def fails_def list_all_iff list_ex_iff not_less
        split: sum.splits if_splits option.splits)
qed

text \<open>The pairs after the confidence was brought up to date.\<close>

definition with_confidence :: "time \<Rightarrow> pair_row \<Rightarrow> pair_row" where
  "with_confidence now v = (if \<bar>confidence_from_pair_evidence (pv_counts v) - pv_confidence v\<bar> < 1 / 1000000 then v
     else v\<lparr>pv_confidence := confidence_from_pair_evidence (pv_counts v), pv_updated_at := now\<rparr>)"

lemma with_confidence_fields [simp]:
  "pair_key (with_confidence now v) = pair_key v" "pv_counts (with_confidence now v) = pv_counts v"
  "pv_a (with_confidence now v) = pv_a v" "pv_b (with_confidence now v) = pv_b v"
  "pv_directions (with_confidence now v) = pv_directions v" "pv_kinds (with_confidence now v) = pv_kinds v"
  by (simp_all add: with_confidence_def pair_key_def)

lemma with_confidence_near:
  "\<bar>confidence_from_pair_evidence (pv_counts v) - pv_confidence (with_confidence now v)\<bar> < 1 / 1000000"
  "unit_interval (pv_confidence v) \<Longrightarrow> unit_interval (pv_confidence (with_confidence now v))"
  by (simp_all add: with_confidence_def confidence_unit)

lemma row_update_in:
  assumes "distinct (map key t)" and "v \<in> set t"
  shows "row_update key (key v) (\<lambda>r. if r = v then f r else r) t = row_update key (key v) f t"
  using assms by (auto simp: row_update_def distinct_map inj_on_def)

lemma update_confidence:
  assumes "v \<in> set (pd_pairs d)" and "distinct (map pair_key (pd_pairs d))"
  shows "update_pair_confidence v d = (Inr (with_confidence (rd_now d) v),
      d\<lparr>pd_pairs := row_update pair_key (pair_key v) (with_confidence (rd_now d)) (pd_pairs d)\<rparr>)"
proof -
  have at: "row_at pair_key (pair_key v) (pd_pairs d) = Some v" using row_at_unique [OF assms(2,1)] .
  have only: "r = v" if "r \<in> set (pd_pairs d)" "pair_key r = pair_key v" for r
    using that assms by (auto simp: distinct_map inj_on_def)
  show ?thesis
  proof (cases "\<bar>confidence_from_pair_evidence (pv_counts v) - pv_confidence v\<bar> < 1 / 1000000")
    case True
    then have "with_confidence (rd_now d) v = v" by (simp add: with_confidence_def)
    moreover from this only have "row_update pair_key (pair_key v) (with_confidence (rd_now d)) (pd_pairs d) = pd_pairs d"
      unfolding row_update_def by (intro map_idI) auto
    ultimately show ?thesis using True by (simp add: update_pair_confidence_def)
  next
    case False
    let ?f = "\<lambda>u. u\<lparr>pv_confidence := confidence_from_pair_evidence (pv_counts v), pv_updated_at := rd_now d\<rparr>"
    have w: "with_confidence (rd_now d) v = ?f v" using False by (simp add: with_confidence_def)
    have "row_update pair_key (pair_key v) (with_confidence (rd_now d)) (pd_pairs d) = row_update pair_key (pair_key v) ?f (pd_pairs d)"
      unfolding row_update_def using only w by (intro map_cong) auto
    then show ?thesis using False w by (simp add: update_pair_confidence_def Let_def at)
  qed
qed

lemma add_zero: "add_counts zero_counts c = c"
  by (simp add: add_counts_def zero_counts_def)

lemma vote_dict_count: "vote_count (vote_dict v) k = (if v = Some k \<and> k \<noteq> [] then 1 else 0)"
  by (auto simp: vote_count_def vote_dict_def split: option.split list.split)

lemma votes_for_Nil: "votes_for vote [] k = 0"
  by (simp add: votes_for_def)

lemma votes_for_append: "votes_for vote (os @ [obs]) k = votes_for vote os k + (if vote obs = Some k \<and> k \<noteq> [] then 1 else 0)"
  by (simp add: votes_for_def)

lemma tally_first:
  assumes "a < b"
  shows "tally [obs] (with_confidence now (new_pair_row i now obs a b))"
  using assms with_confidence_near [of "new_pair_row i now obs a b" now]
  unfolding tally_def using votes_for_append [of _ "[]" obs]
  by (simp add: new_pair_row_def add_zero vote_dict_count votes_for_Nil unit_interval_def)

lemma tally_next:
  assumes "tally os v" and "votes_ok (pv_directions v)" and "votes_ok (pv_kinds v)"
  shows "tally (os @ [obs]) (with_confidence now (merge_pair_row now obs v))"
proof -
  note m1 = merged_count [OF assms(2), of "direction_vote obs (pv_a v) (pv_b v)"]
  note m2 = merged_count [OF assms(3), of "clean_optional_text (po_kind_hint obs)"]
  have "pv_confidence (merge_pair_row now obs v) = pv_confidence v" by (simp add: merge_pair_row_def)
  then show ?thesis
    using assms(1) with_confidence_near [of "merge_pair_row now obs v" now] m1 m2
    unfolding tally_def votes_for_append by (simp add: merge_pair_row_def vote_dict_count)
qed

lemma merge_ok_votes:
  assumes "votes_ok (pv_directions v)" and "votes_ok (pv_kinds v)"
  shows "votes_ok (pv_directions (merge_pair_row now obs v)) \<and> votes_ok (pv_kinds (merge_pair_row now obs v))"
  using merged_count [OF assms(1)] merged_count [OF assms(2)] by (simp add: merge_pair_row_def)

lemma merge_key [simp]: "pair_key (merge_pair_row now obs v) = pair_key v"
  by (simp add: merge_pair_row_def pair_key_def)

lemma new_key [simp]: "pair_key (new_pair_row i now obs (min (po_left obs) (po_right obs)) (max (po_left obs) (po_right obs))) = obs_key obs"
  by (simp add: new_pair_row_def pair_key_def obs_key_def)

lemma rd_uuid_pairs: "rd_uuid d = (i, d') \<Longrightarrow> pd_pairs d' = pd_pairs d \<and> rd_now d' = rd_now d"
  by (auto simp: rd_uuid_def draw_uuid_def rd_now_def)

text \<open>A recorded observation changes the row of its key only, or makes it.\<close>

lemma record_effect:
  assumes "record_pair_observation obs d = (Inr v, d')" and "distinct (map pair_key (pd_pairs d))"
  shows "validate_pair_observation obs = None \<and>
    (case row_at pair_key (obs_key obs) (pd_pairs d) of
       None \<Rightarrow> \<exists>i. v = with_confidence (rd_now d) (new_pair_row i (rd_now d) obs (min (po_left obs) (po_right obs)) (max (po_left obs) (po_right obs))) \<and>
         pd_pairs d' = pd_pairs d @ [v]
     | Some current \<Rightarrow> v = with_confidence (rd_now d) (merge_pair_row (rd_now d) obs current) \<and>
         pd_pairs d' = row_update pair_key (obs_key obs) (\<lambda>r. with_confidence (rd_now d) (merge_pair_row (rd_now d) obs r)) (pd_pairs d))"
proof -
  let ?a = "min (po_left obs) (po_right obs)" and ?b = "max (po_left obs) (po_right obs)"
  have valid: "validate_pair_observation obs = None"
    using assms(1) by (auto simp: record_pair_observation_def split: option.splits)
  obtain i d1 where u: "rd_uuid d = (i, d1)" by fastforce
  note d1 = rd_uuid_pairs [OF u]
  let ?n = "new_pair_row i (rd_now d) obs ?a ?b"
  note run = assms(1) [unfolded record_pair_observation_def valid valid_observation(1) [OF valid] option.case sum.case prod.case
      u Let_def conjunct2 [OF d1] conjunct1 [OF d1] new_key]
  have fits: "fits_int4 (po_deltas obs)" using run by (simp split: if_split_asm)
  show ?thesis
  proof (cases "row_at pair_key (obs_key obs) (pd_pairs d)")
    case None
    then have new: "obs_key obs \<notin> pair_key ` set (pd_pairs d)" by (simp add: row_at_None)
    let ?d2 = "d1\<lparr>pd_pairs := pd_pairs d @ [?n]\<rparr>"
    have "?n \<in> set (pd_pairs ?d2)" "distinct (map pair_key (pd_pairs ?d2))" using new assms(2) by simp_all
    from update_confidence [OF this] run fits None
    have v: "v = with_confidence (rd_now ?d2) ?n"
      and d': "pd_pairs d' = row_update pair_key (pair_key ?n) (with_confidence (rd_now ?d2)) (pd_pairs d @ [?n])" by auto
    have now: "rd_now ?d2 = rd_now d" using d1 by (simp add: rd_now_def)
    have "row_update pair_key (pair_key ?n) (with_confidence (rd_now d)) (pd_pairs d @ [?n]) = pd_pairs d @ [with_confidence (rd_now d) ?n]"
      using new unfolding row_update_def by (auto intro!: map_idI) (metis imageI)
    then show ?thesis using valid v d' None unfolding now by auto
  next
    case (Some current)
    note c = row_at_Some [OF Some]
    let ?m = "merge_pair_row (rd_now d) obs" and ?d2 = "d1\<lparr>pd_pairs := row_update pair_key (obs_key obs) (merge_pair_row (rd_now d) obs) (pd_pairs d)\<rparr>"
    have ins: "?m current \<in> set (pd_pairs ?d2)" using c by (force simp: set_row_update)
    have dis: "distinct (map pair_key (pd_pairs ?d2))"
      using assms(2) row_update_keys [of pair_key "obs_key obs" ?m "pd_pairs d"] by simp
    have now: "rd_now ?d2 = rd_now d" using d1 by (simp add: rd_now_def)
    from update_confidence [OF ins dis] run fits Some c
    have v: "v = with_confidence (rd_now d) (?m current)"
      and d': "pd_pairs d' = row_update pair_key (obs_key obs) (with_confidence (rd_now d)) (pd_pairs ?d2)"
      unfolding now by (auto split: if_split_asm)
    have "pd_pairs d' = row_update pair_key (obs_key obs) (\<lambda>r. with_confidence (rd_now d) (?m r)) (pd_pairs d)"
      unfolding d' by (auto simp: row_update_def)
    then show ?thesis using valid v Some by simp
  qed
qed

lemma record_error: "record_pair_observation obs d = (Inl e, d') \<Longrightarrow> distinct (map pair_key (pd_pairs d)) \<Longrightarrow> pd_pairs d' = pd_pairs d"
proof -
  assume run: "record_pair_observation obs d = (Inl e, d')" and dis: "distinct (map pair_key (pd_pairs d))"
  show ?thesis
  proof (cases "validate_pair_observation obs")
    case (Some x)
    with run show ?thesis by (simp add: record_pair_observation_def)
  next
    case None
    obtain i d1 where u: "rd_uuid d = (i, d1)" by fastforce
    note d1 = rd_uuid_pairs [OF u]
    let ?n = "new_pair_row i (rd_now d) obs (min (po_left obs) (po_right obs)) (max (po_left obs) (po_right obs))"
    note run = run [unfolded record_pair_observation_def None valid_observation(1) [OF None] option.case sum.case prod.case
        u Let_def conjunct2 [OF d1] conjunct1 [OF d1] new_key]
    show ?thesis
    proof (cases "row_at pair_key (obs_key obs) (pd_pairs d)")
      case None
      then have new: "obs_key obs \<notin> pair_key ` set (pd_pairs d)" by (simp add: row_at_None)
      let ?d2 = "d1\<lparr>pd_pairs := pd_pairs d @ [?n]\<rparr>"
      have "?n \<in> set (pd_pairs ?d2)" "distinct (map pair_key (pd_pairs ?d2))" using new dis by simp_all
      from update_confidence [OF this] run None d1 show ?thesis by (auto split: if_split_asm)
    next
      case (Some current)
      note c = row_at_Some [OF Some]
      let ?m = "merge_pair_row (rd_now d) obs" and ?d2 = "d1\<lparr>pd_pairs := row_update pair_key (obs_key obs) (merge_pair_row (rd_now d) obs) (pd_pairs d)\<rparr>"
      have ins: "?m current \<in> set (pd_pairs ?d2)" using c by (force simp: set_row_update)
      have dist: "distinct (map pair_key (pd_pairs ?d2))"
        using dis row_update_keys [of pair_key "obs_key obs" ?m "pd_pairs d"] by simp
      from update_confidence [OF ins dist] run Some c d1 show ?thesis by (auto split: if_split_asm)
    qed
  qed
qed

lemma record_step:
  assumes "tallied h d" and "record_pair_observation obs d = (Inr v, d')"
  shows "tallied (h @ [obs]) d'"
proof -
  have dis: "distinct (map pair_key (pd_pairs d))" and keys: "pair_key ` set (pd_pairs d) = obs_key ` set h"
    and rows: "\<And>r. r \<in> set (pd_pairs d) \<Longrightarrow> votes_ok (pv_directions r) \<and> votes_ok (pv_kinds r) \<and> tally (filter (\<lambda>obs. obs_key obs = pair_key r) h) r"
    using assms(1) by (auto simp: tallied_def)
  note e = record_effect [OF assms(2) dis]
  have ne: "min (po_left obs) (po_right obs) < max (po_left obs) (po_right obs)"
    using valid_observation(2) [OF conjunct1 [OF e]] by auto
  show ?thesis
  proof (cases "row_at pair_key (obs_key obs) (pd_pairs d)")
    case None
    then have new: "obs_key obs \<notin> pair_key ` set (pd_pairs d)" by (simp add: row_at_None)
    from e None obtain i where v: "v = with_confidence (rd_now d) (new_pair_row i (rd_now d) obs (min (po_left obs) (po_right obs)) (max (po_left obs) (po_right obs)))"
      and d': "pd_pairs d' = pd_pairs d @ [v]" by auto
    have key: "pair_key v = obs_key obs" by (simp add: v)
    have "filter (\<lambda>ob. obs_key ob = obs_key obs) (h @ [obs]) = [obs]"
      using new unfolding keys by (auto simp: filter_empty_conv) (metis imageI)
    then have "tally (filter (\<lambda>ob. obs_key ob = pair_key v) (h @ [obs])) v" unfolding key v by (simp add: tally_first [OF ne])
    moreover have "votes_ok (pv_directions v) \<and> votes_ok (pv_kinds v)" unfolding v by (simp add: new_pair_row_def vote_dict_ok)
    moreover have "filter (\<lambda>ob. obs_key ob = pair_key r) (h @ [obs]) = filter (\<lambda>ob. obs_key ob = pair_key r) h" if "r \<in> set (pd_pairs d)" for r
      using that new by auto
    ultimately show ?thesis using dis keys new rows unfolding tallied_def d' by (auto simp: key)
  next
    case (Some current)
    let ?f = "\<lambda>r. with_confidence (rd_now d) (merge_pair_row (rd_now d) obs r)"
    from e Some have d': "pd_pairs d' = row_update pair_key (obs_key obs) ?f (pd_pairs d)" by simp
    have map: "map pair_key (pd_pairs d') = map pair_key (pd_pairs d)" unfolding d' by (rule row_update_keys) simp
    have "obs_key obs \<in> pair_key ` set (pd_pairs d)" using row_at_Some [OF Some] by (metis imageI)
    moreover have "pair_key ` set (pd_pairs d') = pair_key ` set (pd_pairs d)" using map by (metis set_map)
    ultimately have "pair_key ` set (pd_pairs d') = obs_key ` set (h @ [obs])" using keys by (simp add: insert_absorb)
    moreover have "votes_ok (pv_directions q) \<and> votes_ok (pv_kinds q) \<and> tally (filter (\<lambda>ob. obs_key ob = pair_key q) (h @ [obs])) q"
      if q: "q \<in> set (pd_pairs d')" for q
    proof -
      from q obtain r where r: "r \<in> set (pd_pairs d)" "q = (if pair_key r = obs_key obs then ?f r else r)"
        unfolding d' by (auto simp: in_row_update)
      note ok = rows [OF r(1)]
      show ?thesis
      proof (cases "pair_key r = obs_key obs")
        case True
        with r(2) have q: "q = ?f r" by simp
        have "tally (filter (\<lambda>ob. obs_key ob = pair_key r) h @ [obs]) q" unfolding q using ok by (intro tally_next) simp_all
        moreover have "filter (\<lambda>ob. obs_key ob = pair_key q) (h @ [obs]) = filter (\<lambda>ob. obs_key ob = pair_key r) h @ [obs]"
          by (simp add: q True)
        ultimately show ?thesis using merge_ok_votes [of r "rd_now d" obs] ok by (simp add: q)
      next
        case False
        with r ok show ?thesis by auto
      qed
    qed
    ultimately show ?thesis using dis map unfolding tallied_def by simp
  qed
qed

text \<open>An observation is recorded when it is valid and no count leaves its column.\<close>

lemma record_succeeds:
  assumes "validate_pair_observation obs = None" and "distinct (map pair_key (pd_pairs d))" and "fits_int4 (po_deltas obs)"
    and "\<And>r. r \<in> set (pd_pairs d) \<Longrightarrow> pair_key r = obs_key obs \<Longrightarrow> fits_int4 (add_counts (pv_counts r) (po_deltas obs))"
  shows "\<exists>v d'. record_pair_observation obs d = (Inr v, d')"
proof -
  obtain i d1 where u: "rd_uuid d = (i, d1)" by fastforce
  note d1 = rd_uuid_pairs [OF u]
  let ?n = "new_pair_row i (rd_now d) obs (min (po_left obs) (po_right obs)) (max (po_left obs) (po_right obs))"
  note run = record_pair_observation_def [of obs d, unfolded assms(1) valid_observation(1) [OF assms(1)] option.case sum.case prod.case
      u Let_def conjunct2 [OF d1] conjunct1 [OF d1] new_key]
  show ?thesis
  proof (cases "row_at pair_key (obs_key obs) (pd_pairs d)")
    case None
    then have new: "obs_key obs \<notin> pair_key ` set (pd_pairs d)" by (simp add: row_at_None)
    let ?d2 = "d1\<lparr>pd_pairs := pd_pairs d @ [?n]\<rparr>"
    have "?n \<in> set (pd_pairs ?d2)" "distinct (map pair_key (pd_pairs ?d2))" using new assms(2) by simp_all
    from update_confidence [OF this] run None assms(3) show ?thesis by simp
  next
    case (Some current)
    note c = row_at_Some [OF Some]
    let ?m = "merge_pair_row (rd_now d) obs" and ?d2 = "d1\<lparr>pd_pairs := row_update pair_key (obs_key obs) (merge_pair_row (rd_now d) obs) (pd_pairs d)\<rparr>"
    have ins: "?m current \<in> set (pd_pairs ?d2)" using c by (force simp: set_row_update)
    have dist: "distinct (map pair_key (pd_pairs ?d2))"
      using assms(2) row_update_keys [of pair_key "obs_key obs" ?m "pd_pairs d"] by simp
    have "fits_int4 (pv_counts (?m current))" using assms(4) c by (simp add: merge_pair_row_def)
    with update_confidence [OF ins dist] run Some c assms(3) show ?thesis by simp
  qed
qed

end
