(* ===== verification/PairProperties.thy ===== *)
theory PairProperties
  imports PairFacts
begin

text \<open>
  What holds of the evidence on pairs of models: rows are tallies of what was recorded, the compiler
  never raises and follows the votes, and a rejected pair is not proposed again.
\<close>

section \<open>Histories\<close>

text \<open>Recording one observation after the other; the first component has those that were recorded.\<close>

fun record_pairs :: "pair_obs list \<Rightarrow> 'a pair_db_scheme \<Rightarrow> pair_obs list \<times> 'a pair_db_scheme" where
  "record_pairs [] d = ([], d)"
| "record_pairs (obs # os) d =
    (case record_pair_observation obs d of
       (Inl e, d) \<Rightarrow> record_pairs os d
     | (Inr v, d) \<Rightarrow> (case record_pairs os d of (recorded, d) \<Rightarrow> (obs # recorded, d)))"

lemma tallied_pairs: "tallied h d \<Longrightarrow> pd_pairs d' = pd_pairs d \<Longrightarrow> tallied h d'"
  by (simp add: tallied_def)

lemma record_pairs_tallied:
  assumes "record_pairs os d = (recorded, d')" and "tallied h d"
  shows "tallied (h @ recorded) d'"
  using assms
proof (induction os arbitrary: d h recorded)
  case Nil
  then show ?case by simp
next
  case (Cons obs os)
  obtain r d1 where run: "record_pair_observation obs d = (r, d1)" by fastforce
  show ?case
  proof (cases r)
    case (Inl e)
    have "tallied h d1"
      using record_error run Inl Cons.prems(2) tallied_pairs by (metis tallied_def)
    with Cons.IH [of d1 recorded h] Cons.prems(1) run Inl show ?thesis by simp
  next
    case (Inr v)
    with run Cons.prems(1) obtain rest where rest: "record_pairs os d1 = (rest, d')" "recorded = obs # rest"
      by (auto split: prod.splits)
    from Cons.IH [OF rest(1) record_step [OF Cons.prems(2) run [unfolded Inr]]] rest(2) show ?thesis by simp
  qed
qed

lemma tallied_empty: "pd_pairs d = [] \<Longrightarrow> tallied [] d"
  by (simp add: tallied_def)

text \<open>C34: After any observations on an empty table there is one row for each pair (in either order),
  tenant and primitive that was recorded; its counts are the sums of the deltas recorded for it, its
  votes count the directions and kinds recorded for it, and its confidence, between 0 and 1, is the
  confidence of its counts up to one millionth.\<close>

theorem pair_evidence_is_tally:
  assumes "record_pairs os d = (recorded, d')" and "pd_pairs d = []"
  shows "distinct (map pair_key (pd_pairs d')) \<and> pair_key ` set (pd_pairs d') = obs_key ` set recorded \<and>
    (\<forall>v \<in> set (pd_pairs d'). let mine = filter (\<lambda>obs. obs_key obs = pair_key v) recorded in
       pv_a v < pv_b v \<and> pv_counts v = fold (\<lambda>obs c. add_counts c (po_deltas obs)) mine zero_counts \<and>
       (\<forall>k. vote_count (pv_directions v) k = votes_for (\<lambda>obs. direction_vote obs (pv_a v) (pv_b v)) mine k) \<and>
       (\<forall>k. vote_count (pv_kinds v) k = votes_for (\<lambda>obs. clean_optional_text (po_kind_hint obs)) mine k) \<and>
       \<bar>confidence_from_pair_evidence (pv_counts v) - pv_confidence v\<bar> < 1 / 1000000 \<and>
       0 \<le> pv_confidence v \<and> pv_confidence v \<le> 1)"
proof -
  have "tallied recorded d'" using record_pairs_tallied [OF assms(1) tallied_empty [OF assms(2)]] by simp
  then show ?thesis unfolding tallied_def tally_def unit_interval_def Let_def by blast
qed

section \<open>The compiler\<close>

lemma max_vote_max:
  assumes "votes_ok m" and "max_vote m = Some k"
  shows "0 < vote_count m k \<and> vote_count m j \<le> vote_count m k"
proof -
  let ?s = "sort_key (\<lambda>v. - snd v) (sort_key fst m)"
  have ok: "votes_ok ?s" using assms(1) by (simp add: votes_sort_ok)
  have same: "vote_count ?s i = vote_count m i" for i using assms(1) by (simp add: vote_count_sort votes_sort_ok)
  obtain n vs where s: "?s = (k, n) # vs" "0 < n"
    using assms(2) unfolding max_vote_def by (auto split: list.splits if_splits)
  have sorted: "sorted (map (\<lambda>v. - snd v) ?s)" by (rule sorted_sort_key)
  have k: "vote_count m k = n" using same [of k] by (simp add: s(1) vote_count_def)
  have "vote_count ?s j \<le> n"
  proof (cases "map_of ?s j")
    case (Some c)
    then have "(j, c) \<in> set ?s" by (rule map_of_SomeD)
    with sorted show ?thesis unfolding s(1) using Some s(1) by (auto simp: vote_count_def)
  qed (use s in \<open>simp add: vote_count_def\<close>)
  with s k same show ?thesis by simp
qed

lemma not_blank_strip:
  assumes "py_strip (c # s) = []"
  shows "py_isspace c"
proof (rule ccontr)
  assume "\<not> py_isspace c"
  with assms have "dropWhile py_isspace (rev (c # s)) = []" by (simp only: py_strip_def dropWhile.simps if_False rev_is_Nil_conv)
  then have "\<forall>x \<in> set (rev (c # s)). py_isspace x" unfolding dropWhile_eq_Nil_conv .
  with \<open>\<not> py_isspace c\<close> show False by simp
qed

lemma mechanism_given: "py_strip (pair_mechanism str_of v k) \<noteq> []"
proof
  assume "py_strip (pair_mechanism str_of v k) = []"
  then have "py_isspace CHR ''A''" unfolding pair_mechanism_def append_Cons by (rule not_blank_strip)
  then show False by (simp add: py_isspace_def)
qed

lemma pair_basis_legal: "pair_basis c k \<in> set BASES"
  by (simp add: pair_basis_def BASES_def)

lemma made_edge_fields:
  assumes "make_edge_candidate i t s u k b x sc ms es mech surf delay conf md src st = Inr c"
  shows "rk_id c = i" "rk_tenant c = t" "rk_kind c = ''edge''" "rk_source_model c = Some s" "rk_target_model c = Some u"
    "rk_edge_kind c = Some k" "rk_source c = src" "rk_review c = st" "rk_basis c = b" "rk_scores c = sc"
proof -
  note run = checked [OF assms [unfolded make_edge_candidate_def]]
  note c = conjunct2 [OF checked [OF conjunct2 [OF run]], unfolded sum.inject Let_def, symmetric]
  show "rk_id c = i" "rk_tenant c = t" "rk_kind c = ''edge''" "rk_source_model c = Some s" "rk_target_model c = Some u"
    "rk_edge_kind c = Some k" "rk_source c = src" "rk_review c = st" "rk_basis c = b" "rk_scores c = sc"
    by (simp_all add: c)
qed

lemma make_edge_ok:
  assumes "s \<noteq> u" and "b \<in> set CAUSAL_BASES \<Longrightarrow> \<exists>m. mech = Some m \<and> py_strip m \<noteq> []"
  shows "\<exists>c. make_edge_candidate i t s u k b x sc ms es mech surf delay conf md src st = Inr c"
  using assms by (cases "b \<in> set CAUSAL_BASES") (auto simp: make_edge_candidate_def)

lemma oriented_cases:
  assumes "oriented_pair v directed n = Some (s, u)"
  shows "(s, u) = (pv_a v, pv_b v) \<or> directed \<and> (s, u) = (pv_b v, pv_a v)"
  using assms by (auto simp: oriented_pair_def Let_def split: if_splits)

lemma strongest_voted: "strongest_direction v \<noteq> ''unknown'' \<Longrightarrow> max_vote (pv_directions v) = Some (strongest_direction v)"
proof (cases "max_vote (pv_directions v)")
  case (Some d)
  then show "strongest_direction v \<noteq> ''unknown'' \<Longrightarrow> max_vote (pv_directions v) = Some (strongest_direction v)"
    unfolding strongest_direction_def Some option.case by (cases "d \<in> {''a_to_b'', ''b_to_a'', ''symmetric'', ''unknown''}") (simp_all only: if_True if_False simp_thms)
qed (simp add: strongest_direction_def)

lemma oriented_votes:
  assumes "oriented_pair v True n = Some (s, u)" and "votes_ok (pv_directions v)"
  shows "\<exists>dir. max_vote (pv_directions v) = Some dir \<and> n \<le> vote_count (pv_directions v) dir \<and>
    (dir = ''a_to_b'' \<and> (s, u) = (pv_a v, pv_b v) \<or> dir = ''b_to_a'' \<and> (s, u) = (pv_b v, pv_a v))"
proof -
  from assms(1) have dir: "strongest_direction v = ''a_to_b'' \<and> (s, u) = (pv_a v, pv_b v) \<or>
      strongest_direction v = ''b_to_a'' \<and> (s, u) = (pv_b v, pv_a v)" "n \<le> vote_count (pv_directions v) (strongest_direction v)"
    by (simp_all add: oriented_pair_def Let_def split: if_split_asm)
  then have "strongest_direction v \<noteq> ''unknown''" by (elim disjE conjE) simp_all
  then have "max_vote (pv_directions v) = Some (strongest_direction v)" by (rule strongest_voted)
  with dir show ?thesis by blast
qed

lemma max_vote_some:
  assumes "votes_ok m" and "m \<noteq> []"
  shows "\<exists>k. max_vote m = Some k"
proof -
  let ?s = "sort_key (\<lambda>v. - snd v) (sort_key fst m)"
  have "set ?s = set m" by simp
  with assms(2) obtain k n vs where s: "?s = (k, n) # vs" by (metis list.exhaust prod.exhaust set_empty)
  with \<open>set ?s = set m\<close> assms(1) have "0 < n" by (fastforce simp: votes_ok_def)
  with s show ?thesis by (simp add: max_vote_def)
qed

lemma chosen_kind:
  assumes "choose_edge_kind v = Some k" and "votes_ok (pv_kinds v)" and "vote_count (pv_kinds v) [] = 0"
  shows "if pv_kinds v = [] then map_of PRIMITIVE_EDGE_KIND_DEFAULTS (pv_primitive v) = Some k
    else \<forall>j. vote_count (pv_kinds v) j \<le> vote_count (pv_kinds v) k"
proof (cases "pv_kinds v = []")
  case True
  with assms(1) show ?thesis by (simp add: choose_edge_kind_def strongest_edge_kind_def or_text_def max_vote_def)
next
  case False
  obtain t where t: "max_vote (pv_kinds v) = Some t" using max_vote_some [OF assms(2) False] by blast
  note best = max_vote_max [OF assms(2) t]
  have "t \<noteq> []" using best assms(3) by auto
  with assms(1) t have "k = t" by (auto simp: choose_edge_kind_def strongest_edge_kind_def or_text_def split: list.splits)
  with best False show ?thesis by simp
qed

text \<open>C38: The compiler never raises. What it proposes has at least the configured confidence and number of
  positive signals and is not dominated by rejections; its kind is enabled in the registry and is the
  kind with most votes or, without votes, the default of the primitive; its ends are the two models of
  the pair, for a directed kind in the direction with most votes; and its row passes the checks of the
  table of candidates.\<close>

theorem compiled_candidate_sound:
  assumes "pv_a v \<noteq> pv_b v" and "votes_ok (pv_directions v)" and "votes_ok (pv_kinds v)" and "vote_count (pv_kinds v) [] = 0"
  shows "\<exists>r. compile_pair_evidence_candidate fmt str_of config i v = Inr r \<and>
    (case r of None \<Rightarrow> True | Some c \<Rightarrow>
       cc_min_confidence config \<le> confidence_from_pair_evidence (pv_counts v) \<and>
       cc_min_positive config \<le> positive_signal_count (pv_counts v) \<and>
       (pc_t4_accept (pv_counts v) \<le> 0 \<longrightarrow> pc_t4_reject (pv_counts v) \<le> cc_max_rejects config) \<and>
       candidate_checks (to_record now c) \<and>
       (\<exists>k spec s u. rk_edge_kind c = Some k \<and> rk_source_model c = Some s \<and> rk_target_model c = Some u \<and>
          map_of EDGE_REGISTRY k = Some spec \<and> es_enabled spec \<and>
          (if pv_kinds v = [] then map_of PRIMITIVE_EDGE_KIND_DEFAULTS (pv_primitive v) = Some k
           else \<forall>j. vote_count (pv_kinds v) j \<le> vote_count (pv_kinds v) k) \<and>
          (if es_directed spec
           then (\<exists>dir. (dir = ''a_to_b'' \<and> (s, u) = (pv_a v, pv_b v) \<or> dir = ''b_to_a'' \<and> (s, u) = (pv_b v, pv_a v)) \<and>
             cc_min_direction_votes config \<le> vote_count (pv_directions v) dir \<and>
             (\<forall>j. vote_count (pv_directions v) j \<le> vote_count (pv_directions v) dir))
           else (s, u) = (pv_a v, pv_b v))))"
proof (cases "compile_pair_evidence_candidate fmt str_of config i v = Inr None")
  case True
  then show ?thesis by (intro exI [of _ None]) simp
next
  case False
  let ?c = "pv_counts v"
  have gates: "cc_min_confidence config \<le> confidence_from_pair_evidence ?c" "\<not> is_negative_memory_dominant ?c config"
    "\<not> (\<not> cc_retrieval_only config \<and> is_retrieval_only ?c)" "cc_min_positive config \<le> positive_signal_count ?c"
    using False by (auto simp: compile_pair_evidence_candidate_def Let_def simp del: not_None_eq split: if_split_asm)
  note run = False [unfolded compile_pair_evidence_candidate_def Let_def if_not_P [OF leD [OF gates(1)]]
      if_not_P [OF gates(2)] if_not_P [OF gates(3)] if_not_P [OF leD [OF gates(4)]]]
  obtain k where k: "choose_edge_kind v = Some k" using run by (cases "choose_edge_kind v") simp_all
  obtain spec where spec: "map_of EDGE_REGISTRY k = Some spec" "es_enabled spec"
    using run k by (cases "map_of EDGE_REGISTRY k") (simp_all split: if_split_asm)
  obtain s u where su: "oriented_pair v (es_directed spec) (cc_min_direction_votes config) = Some (s, u)"
    using run k spec by (cases "oriented_pair v (es_directed spec) (cc_min_direction_votes config)") auto
  have ends: "s \<noteq> u" using oriented_cases [OF su] assms(1) by auto
  let ?b = "pair_basis ?c k"
  obtain c where made: "compile_pair_evidence_candidate fmt str_of config i v = Inr (Some c)"
    and fields: "shape_check c" "rk_basis c = ?b" "rk_review c = ''candidate''" "rk_source_model c = Some s"
      "rk_target_model c = Some u" "rk_edge_kind c = Some k"
  proof -
    let ?m = "make_edge_candidate i (pv_tenant v) s u k ?b (pair_explanation fmt str_of v k (confidence_from_pair_evidence ?c))
      (pair_scores ?c (confidence_from_pair_evidence ?c)) [pv_a v, pv_b v] []
      (if ?b \<in> set CAUSAL_BASES then Some (pair_mechanism str_of v k) else None) None None []
      [(''edge_intelligence'', JObj [(''source'', JStr ''model_pair_evidence''), (''model_pair_evidence_id'', JUuid (pv_id v)),
         (''primitive'', JStr (pv_primitive v)), (''counts'', JObj (counts_json ?c)),
         (''direction_votes'', votes_json (pv_directions v)), (''edge_kind_votes'', votes_json (pv_kinds v)),
         (''confidence_score'', JFloat (confidence_from_pair_evidence ?c))])] ''edge_intelligence_kernel'' ''candidate''"
    have "\<exists>c. ?m = Inr c" by (rule make_edge_ok [OF ends]) (use mechanism_given in simp)
    then obtain c where m: "?m = Inr c" by blast
    have "compile_pair_evidence_candidate fmt str_of config i v = Inr (Some c)"
      unfolding compile_pair_evidence_candidate_def Let_def if_not_P [OF leD [OF gates(1)]]
        if_not_P [OF gates(2)] if_not_P [OF gates(3)] if_not_P [OF leD [OF gates(4)]] k spec(1) su option.case prod.case
        if_not_P [OF notI [OF notE [OF _ spec(2)]]] m bind_result_simps
      using spec(2) by simp
    with made_edge [OF m] made_edge_fields [OF m] that show thesis by blast
  qed
  have "candidate_checks (to_record now c)"
    using record_checks [OF fields(1)] fields(2,3) pair_basis_legal by (simp add: CANDIDATE_STATUSES_def)
  moreover have "pc_t4_accept ?c \<le> 0 \<longrightarrow> pc_t4_reject ?c \<le> cc_max_rejects config"
    using gates(2) by (simp add: is_negative_memory_dominant_def not_less)
  moreover have "if es_directed spec
      then (\<exists>dir. (dir = ''a_to_b'' \<and> (s, u) = (pv_a v, pv_b v) \<or> dir = ''b_to_a'' \<and> (s, u) = (pv_b v, pv_a v)) \<and>
        cc_min_direction_votes config \<le> vote_count (pv_directions v) dir \<and>
        (\<forall>j. vote_count (pv_directions v) j \<le> vote_count (pv_directions v) dir))
      else (s, u) = (pv_a v, pv_b v)"
  proof (cases "es_directed spec")
    case True
    have "oriented_pair v True (cc_min_direction_votes config) = Some (s, u)" using su True by simp
    from oriented_votes [OF this assms(2)] obtain dir where dir: "max_vote (pv_directions v) = Some dir"
      "cc_min_direction_votes config \<le> vote_count (pv_directions v) dir"
      "dir = ''a_to_b'' \<and> (s, u) = (pv_a v, pv_b v) \<or> dir = ''b_to_a'' \<and> (s, u) = (pv_b v, pv_a v)" by blast
    with max_vote_max [OF assms(2) dir(1)] True show ?thesis by (simp only: if_True) blast
  next
    case False
    with oriented_cases [OF su] show ?thesis by simp
  qed
  ultimately show ?thesis using made gates(1,4) chosen_kind [OF k assms(3,4)] fields(4-6) spec
    by (intro exI [of _ "Some c"]) (simp only: option.case simp_thms, blast)
qed

section \<open>Rejected pairs\<close>

lemma fold_counts:
  "pc_t4_accept (fold (\<lambda>obs c. add_counts c (po_deltas obs)) os c) = pc_t4_accept c + (\<Sum>obs \<leftarrow> os. pc_t4_accept (po_deltas obs))"
  "pc_t4_reject (fold (\<lambda>obs c. add_counts c (po_deltas obs)) os c) = pc_t4_reject c + (\<Sum>obs \<leftarrow> os. pc_t4_reject (po_deltas obs))"
  by (induction os arbitrary: c) (simp_all add: add_counts_def)

lemma recorded_validates: "record_pair_observation obs d = (Inr v, d') \<Longrightarrow> validate_pair_observation obs = None"
  by (auto simp: record_pair_observation_def split: option.splits)

lemma recorded_valid: "record_pairs os d = (recorded, d') \<Longrightarrow> obs \<in> set recorded \<Longrightarrow> validate_pair_observation obs = None"
proof (induction os arbitrary: d recorded)
  case (Cons ob os)
  obtain r d1 where run: "record_pair_observation ob d = (r, d1)" by fastforce
  show ?case
  proof (cases r)
    case (Inl e)
    with Cons run show ?thesis by simp
  next
    case (Inr v)
    with run Cons.prems(1) obtain rest where rest: "record_pairs os d1 = (rest, d')" "recorded = ob # rest"
      by (auto split: prod.splits)
    with Cons.IH [OF rest(1)] Cons.prems(2) recorded_validates run Inr show ?thesis by auto
  qed
qed simp

lemma recorded_deltas:
  assumes "validate_pair_observation obs = None"
  shows "0 \<le> pc_t4_accept (po_deltas obs)" "0 \<le> pc_t4_reject (po_deltas obs)"
  using valid_observation(3) [OF assms] by (simp_all add: deltas_of_def)

lemma sum_list_ge: "x \<in> set xs \<Longrightarrow> (\<And>y. y \<in> set xs \<Longrightarrow> 0 \<le> f y) \<Longrightarrow> f x \<le> (\<Sum>y \<leftarrow> xs. f y :: int)"
proof (induction xs)
  case (Cons a xs)
  have "0 \<le> (\<Sum>y \<leftarrow> xs. f y)" by (rule sum_list_nonneg) (use Cons.prems(2) in auto)
  with Cons show ?case by (cases "x = a") (fastforce)+
qed simp

text \<open>C35: Rejections are remembered for a pair and one primitive: when an adjudication rejected the pair
  for this primitive and none accepted it for this primitive, the evidence of that pair and primitive
  is not compiled into a candidate, whatever else was recorded for it, under every configuration
  that tolerates no rejections (the default one among them). Evidence of the same pair for
  another primitive is another row and is not concerned.\<close>

theorem rejected_pairs_stay_out:
  assumes "record_pairs os d = (recorded, d')" and "pd_pairs d = []" and "v \<in> set (pd_pairs d')"
    and "obs \<in> set recorded" and "obs_key obs = pair_key v" and "0 < pc_t4_reject (po_deltas obs)"
    and "\<forall>ob \<in> set recorded. obs_key ob = pair_key v \<longrightarrow> pc_t4_accept (po_deltas ob) = 0"
    and "cc_max_rejects config \<le> 0"
  shows "compile_pair_evidence_candidate fmt str_of config i v = Inr None"
proof -
  let ?mine = "filter (\<lambda>ob. obs_key ob = pair_key v) recorded"
  have "tallied recorded d'" using record_pairs_tallied [OF assms(1) tallied_empty [OF assms(2)]] by simp
  then have counts: "pv_counts v = fold (\<lambda>obs c. add_counts c (po_deltas obs)) ?mine zero_counts"
    using assms(3) by (auto simp: tallied_def tally_def)
  have "(\<Sum>ob \<leftarrow> ?mine. pc_t4_accept (po_deltas ob)) = (\<Sum>ob \<leftarrow> ?mine. 0)"
    by (rule arg_cong [where f = sum_list], rule map_cong) (use assms(7) in auto)
  then have accept: "pc_t4_accept (pv_counts v) = 0" by (simp add: counts fold_counts zero_counts_def)
  have "pc_t4_reject (po_deltas obs) \<le> (\<Sum>ob \<leftarrow> ?mine. pc_t4_reject (po_deltas ob))"
    by (rule sum_list_ge) (use assms(4,5) recorded_deltas(2) recorded_valid [OF assms(1)] in auto)
  then have "0 < pc_t4_reject (pv_counts v)" using assms(6) by (simp add: counts fold_counts zero_counts_def)
  with accept assms(8) have "is_negative_memory_dominant (pv_counts v) config"
    by (simp add: is_negative_memory_dominant_def)
  then show ?thesis by (simp add: compile_pair_evidence_candidate_def Let_def)
qed

section \<open>An example\<close>

definition sample_obs :: "uuid \<Rightarrow> uuid \<Rightarrow> int \<Rightarrow> int \<Rightarrow> pair_obs" where
  "sample_obs l r explicit reject =
    \<lparr>po_tenant = 1, po_left = l, po_right = r, po_primitive = None, po_deltas = zero_counts\<lparr>pc_explicit := explicit, pc_t4_reject := reject\<rparr>,
     po_source = None, po_target = None, po_kind_hint = Some ''same_issue_as'', po_metadata = []\<rparr>"

definition sample_db :: "pair_row list \<Rightarrow> pair_db" where
  "sample_db ps = \<lparr>rd_graph = \<lparr>model_edges = [], models_tab = [], ontology_tab = None, reeval_queue = [], edge_uuid = 50,
       edge_now = 9\<rparr>, rd_candidates = [], rd_proposals = [], pd_pairs = ps, pd_evidence = [],
       pd_text = (\<lambda>i. \<lparr>mt_kind = ''belief'', mt_natural = None, mt_proposition = [], mt_scope = []\<rparr>)\<rparr>"

lemma sample_valid: "l \<noteq> r \<Longrightarrow> 0 \<le> e \<Longrightarrow> 0 \<le> j \<Longrightarrow> validate_pair_observation (sample_obs l r e j) = None"
  by (simp add: validate_pair_observation_def canonical_model_pair_def sample_obs_def deltas_of_def zero_counts_def
      then_check_def fails_def)

lemma sample_fits: "e \<le> 5 \<Longrightarrow> j \<le> 5 \<Longrightarrow> fits_int4 (zero_counts\<lparr>pc_explicit := e, pc_t4_reject := j\<rparr>)"
  by (simp add: fits_int4_def deltas_of_def zero_counts_def)

lemma sample_recorded:
  "\<exists>d'. record_pairs [sample_obs 3 2 2 0, sample_obs 2 3 1 1] (sample_db []) = ([sample_obs 3 2 2 0, sample_obs 2 3 1 1], d')"
proof -
  let ?d = "sample_db []" and ?o1 = "sample_obs 3 2 2 0" and ?o2 = "sample_obs 2 3 1 1"
  have dis: "distinct (map pair_key (pd_pairs ?d))" "pd_pairs ?d = []" by (simp_all add: sample_db_def)
  have "fits_int4 (po_deltas ?o1)" using sample_fits [of 2 0] by (simp add: sample_obs_def)
  with record_succeeds [of ?o1 ?d] dis sample_valid [of 3 2 2 0]
  obtain v d1 where r1: "record_pair_observation ?o1 ?d = (Inr v, d1)" by auto
  have t1: "tallied [?o1] d1" using record_step [OF tallied_empty [OF dis(2)] r1] by simp
  have "fits_int4 (add_counts (pv_counts r) (po_deltas ?o2))" if "r \<in> set (pd_pairs d1)" "pair_key r = obs_key ?o2" for r
  proof -
    have "obs_key ?o1 = obs_key ?o2" by (simp add: obs_key_def sample_obs_def)
    then have "filter (\<lambda>ob. obs_key ob = pair_key r) [?o1] = [?o1]" using that(2) by simp
    then have "pv_counts r = po_deltas ?o1" using t1 that(1) by (simp add: tallied_def tally_def add_zero)
    then show ?thesis by (simp add: fits_int4_def deltas_of_def add_counts_def sample_obs_def zero_counts_def)
  qed
  moreover have "distinct (map pair_key (pd_pairs d1))" using t1 by (simp add: tallied_def)
  moreover have "fits_int4 (po_deltas ?o2)" using sample_fits [of 1 1] by (simp add: sample_obs_def)
  ultimately obtain w d2 where "record_pair_observation ?o2 d1 = (Inr w, d2)"
    using record_succeeds [of ?o2 d1] sample_valid [of 2 3 1 1] by auto
  with r1 show ?thesis by simp
qed

lemma pair_evidence_is_tally_witness:
  "\<exists>recorded d'. record_pairs [sample_obs 3 2 2 0, sample_obs 2 3 1 1] (sample_db []) = (recorded, d') \<and>
    pair_key ` set (pd_pairs d') = {(1, 2, 3, ''UNKNOWN'')}"
proof -
  obtain d' where run: "record_pairs [sample_obs 3 2 2 0, sample_obs 2 3 1 1] (sample_db []) = ([sample_obs 3 2 2 0, sample_obs 2 3 1 1], d')"
    using sample_recorded by blast
  have "pd_pairs (sample_db []) = []" by (simp add: sample_db_def)
  from pair_evidence_is_tally [OF run this]
  have "pair_key ` set (pd_pairs d') = obs_key ` set [sample_obs 3 2 2 0, sample_obs 2 3 1 1]" by blast
  moreover have "normalize_primitive None = ''UNKNOWN''" by code_simp
  ultimately have "pair_key ` set (pd_pairs d') = {(1, 2, 3, ''UNKNOWN'')}" by (simp add: obs_key_def sample_obs_def)
  with run show ?thesis by blast
qed

lemma rejected_pairs_stay_out_witness:
  "\<exists>(d' :: pair_db) v. v \<in> set (pd_pairs d') \<and> 0 < pc_t4_reject (pv_counts v) \<and>
    compile_pair_evidence_candidate (\<lambda>x. []) (\<lambda>x. []) EdgeCompilerConfig 60 v = Inr None"
proof -
  let ?o1 = "sample_obs 3 2 2 0" and ?o2 = "sample_obs 2 3 1 1"
  obtain d' where run: "record_pairs [?o1, ?o2] (sample_db []) = ([?o1, ?o2], d')" using sample_recorded by blast
  have empty: "pd_pairs (sample_db []) = []" by (simp add: sample_db_def)
  have t: "tallied [?o1, ?o2] d'" using record_pairs_tallied [OF run tallied_empty [OF empty]] by simp
  then have "obs_key ?o2 \<in> pair_key ` set (pd_pairs d')" by (simp add: tallied_def)
  then obtain v where v: "v \<in> set (pd_pairs d')" "pair_key v = obs_key ?o2" by (metis imageE)
  have same: "obs_key ?o1 = obs_key ?o2" by (simp add: obs_key_def sample_obs_def)
  have "compile_pair_evidence_candidate (\<lambda>x. []) (\<lambda>x. []) EdgeCompilerConfig 60 v = Inr None"
    by (rule rejected_pairs_stay_out [OF run empty v(1), of ?o2]) (simp_all add: v(2), simp_all add: sample_obs_def zero_counts_def EdgeCompilerConfig_def)
  moreover have "0 < pc_t4_reject (pv_counts v)"
    using t v same by (simp add: tallied_def tally_def add_counts_def sample_obs_def zero_counts_def)
  ultimately show ?thesis using v(1) by blast
qed

definition sample_row :: pair_row where
  "sample_row = \<lparr>pv_id = 40, pv_tenant = 1, pv_a = 2, pv_b = 3, pv_primitive = ''DEPENDENCY'',
     pv_counts = zero_counts\<lparr>pc_explicit := 3, pc_co_used := 2\<rparr>, pv_directions = [(''a_to_b'', 2)], pv_kinds = [],
     pv_confidence = 1 / 2, pv_last_seen = 5, pv_metadata = [], pv_created_at = 5, pv_updated_at = 5\<rparr>"

lemma sample_compiles: "compile_pair_evidence_candidate (\<lambda>x. []) (\<lambda>x. []) EdgeCompilerConfig 60 sample_row \<noteq> Inr None"
proof -
  have kind: "choose_edge_kind sample_row = Some ''blocks''"
    by (simp add: choose_edge_kind_def strongest_edge_kind_def max_vote_def sample_row_def or_text_def PRIMITIVE_EDGE_KIND_DEFAULTS_def)
  have "\<exists>spec. map_of EDGE_REGISTRY ''blocks'' = Some spec \<and> es_enabled spec \<and> es_directed spec"
    by (rule exI [of _ "the (map_of EDGE_REGISTRY ''blocks'')"]) code_simp
  then obtain spec where spec: "map_of EDGE_REGISTRY ''blocks'' = Some spec" "es_enabled spec" "es_directed spec" by blast
  have dir: "oriented_pair sample_row True 1 = Some (2, 3)"
    by (simp add: oriented_pair_def strongest_direction_def max_vote_def sample_row_def vote_count_def)
  have conf: "confidence_from_pair_evidence (pv_counts sample_row) = 106 / 136"
    by (simp add: confidence_from_pair_evidence_def positive_weight_def negative_weight_def sample_row_def zero_counts_def clamp_score_def)
  have c: "pv_counts sample_row = zero_counts\<lparr>pc_explicit := 3, pc_co_used := 2\<rparr>" "pv_a sample_row = 2" "pv_b sample_row = 3"
    by (simp_all add: sample_row_def)
  have basis: "pair_basis (pv_counts sample_row) ''blocks'' \<notin> set CAUSAL_BASES"
    by (simp add: pair_basis_def c zero_counts_def CAUSAL_BASES_def)
  show ?thesis
    using spec basis conf dir
    by (simp add: compile_pair_evidence_candidate_def kind EdgeCompilerConfig_def is_negative_memory_dominant_def c(1)
        positive_signal_count_def is_retrieval_only_def zero_counts_def make_edge_candidate_def Let_def)
qed

lemma compiled_candidate_sound_witness:
  "\<exists>c. compile_pair_evidence_candidate (\<lambda>x. []) (\<lambda>x. []) EdgeCompilerConfig 60 sample_row = Inr (Some c) \<and>
    candidate_checks (to_record 9 c)"
proof -
  have "pv_a sample_row \<noteq> pv_b sample_row" "votes_ok (pv_directions sample_row)" "votes_ok (pv_kinds sample_row)"
    "vote_count (pv_kinds sample_row) [] = 0"
    by (simp_all add: sample_row_def votes_ok_def vote_count_def)
  from compiled_candidate_sound [OF this, of "\<lambda>x. []" "\<lambda>x. []" EdgeCompilerConfig 60 9] sample_compiles
  show ?thesis by (auto split: option.splits)
qed

end
