(* ===== verification/PromotionFacts.thy ===== *)
theory PromotionFacts
  imports EdgePromotion PairProperties EdgeGraph
begin

text \<open>
  Lemmas on the way from evidence to edges: what the passes over pairs and over candidates leave
  alone, when the pass over pairs has nothing left to do, and what one promotion does.
\<close>

section \<open>The compiler and the identifier it is given\<close>

lemma make_edge_id:
  "make_edge_candidate j t s u k b x sc ms es mech surf delay conf md src st =
    map_sum (\<lambda>e. e) (\<lambda>c. c\<lparr>rk_id := j\<rparr>) (make_edge_candidate i t s u k b x sc ms es mech surf delay conf md src st)"
  by (simp add: make_edge_candidate_def Let_def)

lemma bind_map_sum: "bind_result (map_sum (\<lambda>e. e) g r) (\<lambda>c. Inr (Some c)) = map_sum (\<lambda>e. e) (map_option g) (bind_result r (\<lambda>c. Inr (Some c)))"
  by (cases r) simp_all

lemma compile_id:
  "compile_pair_evidence_candidate fmt str_of config j v =
    map_sum (\<lambda>e. e) (map_option (\<lambda>c. c\<lparr>rk_id := j\<rparr>)) (compile_pair_evidence_candidate fmt str_of config i v)"
  unfolding compile_pair_evidence_candidate_def Let_def make_edge_id [of j _ _ _ _ _ _ _ _ _ _ _ _ _ _ _ _ i] bind_map_sum
  by (simp split: option.split prod.split)

lemma record_checks_iff:
  "candidate_checks (to_record now c) \<longleftrightarrow> rk_basis c \<in> set BASES \<and> rk_review c \<in> set CANDIDATE_STATUSES \<and> shape_check c"
proof -
  have "shape_check (to_record now c) = shape_check c" by (simp only: shape_check_def record_fields)
  then show ?thesis by (simp add: candidate_checks_def record_fields clamped_ok leverage_unit)
qed

lemma checks_id: "candidate_checks (to_record now (c\<lparr>rk_id := j\<rparr>)) = candidate_checks (to_record now' c)"
  unfolding record_checks_iff by (simp add: shape_check_def)

lemma compiled_fields:
  assumes "compile_pair_evidence_candidate fmt str_of config i v = Inr (Some c)"
  shows "rk_id c = i" "rk_tenant c = pv_tenant v" "rk_kind c = ''edge''" "rk_review c = ''candidate''"
    "rk_source c = ''edge_intelligence_kernel''" "\<exists>s u k. rk_source_model c = Some s \<and> rk_target_model c = Some u \<and> rk_edge_kind c = Some k"
proof -
  obtain s u k b x sc ms mech md where
    "make_edge_candidate i (pv_tenant v) s u k b x sc ms [] mech None None [] md ''edge_intelligence_kernel'' ''candidate'' = Inr c"
    using assms unfolding compile_pair_evidence_candidate_def Let_def
    by (auto simp: bind_result_Inr split: if_split_asm option.splits)
  from made_edge_fields [OF this]
  show "rk_id c = i" "rk_tenant c = pv_tenant v" "rk_kind c = ''edge''" "rk_review c = ''candidate''"
    "rk_source c = ''edge_intelligence_kernel''" "\<exists>s u k. rk_source_model c = Some s \<and> rk_target_model c = Some u \<and> rk_edge_kind c = Some k"
    by blast+
qed

section \<open>The pass over pairs\<close>

text \<open>What the pass leaves alone, and that candidates are only appended.\<close>

definition only_grows :: "'a pair_db_scheme \<Rightarrow> 'a pair_db_scheme \<Rightarrow> bool" where
  "only_grows d d' \<longleftrightarrow> pd_pairs d' = pd_pairs d \<and> pd_text d' = pd_text d \<and> rd_proposals d' = rd_proposals d \<and>
     models_tab (rd_graph d') = models_tab (rd_graph d) \<and> model_edges (rd_graph d') = model_edges (rd_graph d) \<and>
     edge_now (rd_graph d') = edge_now (rd_graph d) \<and> edge_uuid (rd_graph d) \<le> edge_uuid (rd_graph d') \<and>
     (\<exists>new. rd_candidates d' = rd_candidates d @ new)"

lemma only_grows_refl: "only_grows d d"
  by (simp add: only_grows_def)

lemma only_grows_trans: "only_grows d e \<Longrightarrow> only_grows e f \<Longrightarrow> only_grows d f"
  unfolding only_grows_def by auto

lemma only_grows_uuid: "rd_uuid d = (i, d') \<Longrightarrow> only_grows d d' \<and> i = edge_uuid (rd_graph d) \<and> rd_candidates d' = rd_candidates d \<and>
    edge_uuid (rd_graph d') = Suc i"
  by (auto simp: rd_uuid_def draw_uuid_def only_grows_def)

definition fresh_ids :: "'a relation_db_scheme \<Rightarrow> bool" where
  "fresh_ids d \<longleftrightarrow> (\<forall>c \<in> set (rd_candidates d). rk_id c < edge_uuid (rd_graph d))"

text \<open>Nothing is left to do for a pair.\<close>

definition settled :: "(real \<Rightarrow> string) \<Rightarrow> (json \<Rightarrow> string) \<Rightarrow> (json \<Rightarrow> string) \<Rightarrow> compiler_config \<Rightarrow> uuid \<Rightarrow> pair_row \<Rightarrow>
    'a pair_db_scheme \<Rightarrow> bool" where
  "settled fmt str_of dumps config tn v d \<longleftrightarrow>
    (\<forall>c s u k. compile_pair_evidence_candidate fmt str_of config 0 v = Inr (Some c) \<and> rk_source_model c = Some s \<and>
        rk_target_model c = Some u \<and> rk_edge_kind c = Some k \<longrightarrow>
      \<not> fst (endpoint_quality_gate str_of dumps tn s u k d) \<or> active_edge_exists tn s u k d \<or>
      candidate_exists tn s u k (pv_id v) d \<or> \<not> candidate_checks (to_record 0 c))"

lemma only_grows_reads:
  assumes "only_grows d d'"
  shows "endpoint_quality_gate str_of dumps tn s u k d' = endpoint_quality_gate str_of dumps tn s u k d"
    and "active_edge_exists tn s u k d' = active_edge_exists tn s u k d"
    and "candidate_exists tn s u k i d \<Longrightarrow> candidate_exists tn s u k i d'"
proof -
  have "pd_text d' = pd_text d" "models_tab (rd_graph d') = models_tab (rd_graph d)"
    using assms by (simp_all add: only_grows_def)
  then show "endpoint_quality_gate str_of dumps tn s u k d' = endpoint_quality_gate str_of dumps tn s u k d"
    unfolding endpoint_quality_gate_def by (simp only:)
  show "active_edge_exists tn s u k d' = active_edge_exists tn s u k d"
    using assms by (simp add: only_grows_def active_edge_exists_def)
  show "candidate_exists tn s u k i d \<Longrightarrow> candidate_exists tn s u k i d'"
    using assms by (auto simp: only_grows_def candidate_exists_def)
qed

lemma settled_grows: "settled fmt str_of dumps config tn v d \<Longrightarrow> only_grows d d' \<Longrightarrow> settled fmt str_of dumps config tn v d'"
proof -
  assume s: "settled fmt str_of dumps config tn v d" and g: "only_grows d d'"
  from s show "settled fmt str_of dumps config tn v d'"
    unfolding settled_def only_grows_reads(1,2) [OF g] using only_grows_reads(3) [OF g] by blast
qed

lemma promote_pair_settles:
  assumes "promote_pair fmt str_of dumps config tn v (rep, d) = (rep', d')" and "fresh_ids d" and "pv_tenant v = tn"
  shows "only_grows d d' \<and> fresh_ids d' \<and> settled fmt str_of dumps config tn v d' \<and>
    (settled fmt str_of dumps config tn v d \<longrightarrow> rd_candidates d' = rd_candidates d \<and> pp_inserted rep' = pp_inserted rep)"
proof -
  obtain i d1 where u: "rd_uuid d = (i, d1)" by fastforce
  note g = only_grows_uuid [OF u]
  let ?C = "compile_pair_evidence_candidate fmt str_of config"
  note same = compile_id [of fmt str_of config i v 0]
  show ?thesis
  proof (cases "\<exists>c. ?C 0 v = Inr (Some c)")
    case False
    then have "settled fmt str_of dumps config tn v d" by (simp add: settled_def)
    moreover have "rd_candidates d' = rd_candidates d \<and> d' = d \<and> pp_inserted rep' = pp_inserted rep"
      using assms(1) False same by (cases "?C 0 v") (auto simp: promote_pair_def u split: option.splits)
    ultimately show ?thesis using only_grows_refl [of d] assms(2) by simp
  next
    case True
    then obtain c0 where c0: "?C 0 v = Inr (Some c0)" by blast
    let ?c = "c0\<lparr>rk_id := i\<rparr>"
    have c: "?C i v = Inr (Some ?c)" using same c0 by simp
    obtain s t k where stk: "rk_source_model c0 = Some s" "rk_target_model c0 = Some t" "rk_edge_kind c0 = Some k"
      using compiled_fields(6) [OF c0] by blast
    define stop where "stop \<longleftrightarrow> \<not> fst (endpoint_quality_gate str_of dumps tn s t k d1) \<or> active_edge_exists tn s t k d1 \<or>
      candidate_exists tn s t k (pv_id v) d1"
    have set1: "settled fmt str_of dumps config tn v e \<longleftrightarrow> \<not> fst (endpoint_quality_gate str_of dumps tn s t k e) \<or>
        active_edge_exists tn s t k e \<or> candidate_exists tn s t k (pv_id v) e \<or> \<not> candidate_checks (to_record 0 c0)" for e :: "'a pair_db_scheme"
      using c0 stk by (auto simp: settled_def)
    have fresh1: "fresh_ids d1" using assms(2) g by (auto simp: fresh_ids_def only_grows_def)
    have base: "settled fmt str_of dumps config tn v d = settled fmt str_of dumps config tn v d1"
      unfolding set1 using only_grows_reads(1,2) [of d d1] g by (simp add: candidate_exists_def)
    show ?thesis
    proof (cases "stop \<or> \<not> candidate_checks (to_record 0 c0)")
      case True
      have d': "d' = d1 \<and> pp_inserted rep' = pp_inserted rep"
        using assms(1) True unfolding stop_def promote_pair_def prod.case u Let_def c
        by (auto simp: stk insert_candidate_def checks_id [where now' = 0] split: if_split_asm)
      have "settled fmt str_of dumps config tn v d1" using True unfolding set1 stop_def by blast
      with d' g fresh1 show ?thesis by simp
    next
      case False
      have ok: "candidate_checks (to_record (rd_now d1) ?c)" using False by (simp add: checks_id [where now' = 0])
      have no: "row_at rk_id (rk_id (to_record (rd_now d1) ?c)) (rd_candidates d1) = None"
        using assms(2) g by (auto simp: row_at_None record_fields fresh_ids_def)
      let ?row = "to_record (rd_now d1) ?c"
      have d': "d' = d1\<lparr>rd_candidates := rd_candidates d1 @ [?row]\<rparr>"
        using assms(1) False ok no unfolding stop_def promote_pair_def prod.case u Let_def c
        by (auto simp: stk insert_candidate_def Let_def)
      have gd: "only_grows d1 d'" unfolding d' only_grows_def by simp
      have "candidate_exists tn s t k (pv_id v) d'"
        unfolding candidate_exists_def d' using compiled_fields [OF c] stk assms(3)
        by (simp add: to_record_def rel_candidate.defs)
      then have "settled fmt str_of dumps config tn v d'" unfolding set1 by blast
      moreover have "\<not> settled fmt str_of dumps config tn v d" using False set1 [of d1] unfolding base stop_def by blast
      moreover have "fresh_ids d'" using fresh1 g unfolding d' fresh_ids_def by (simp add: record_fields)
      ultimately show ?thesis using gd g only_grows_trans by blast
    qed
  qed
qed

lemma promote_pairs_settle:
  assumes "fold (promote_pair fmt str_of dumps config tn) vs (rep, d) = (rep', d')" and "fresh_ids d" and "\<forall>v \<in> set vs. pv_tenant v = tn"
  shows "only_grows d d' \<and> fresh_ids d' \<and> (\<forall>v \<in> set vs. settled fmt str_of dumps config tn v d')"
  using assms
proof (induction vs arbitrary: rep d)
  case Nil
  then show ?case by (simp add: only_grows_refl)
next
  case (Cons v vs)
  obtain rep1 d1 where one: "promote_pair fmt str_of dumps config tn v (rep, d) = (rep1, d1)" by fastforce
  have tn: "pv_tenant v = tn" using Cons.prems(3) by simp
  note first = promote_pair_settles [OF one Cons.prems(2) tn]
  have "fold (promote_pair fmt str_of dumps config tn) vs (rep1, d1) = (rep', d')" using Cons.prems(1) one by simp
  from Cons.IH [OF this] first Cons.prems(3) have rest: "only_grows d1 d'" "fresh_ids d'" "\<forall>v \<in> set vs. settled fmt str_of dumps config tn v d'"
    by simp_all
  with first settled_grows [OF _ rest(1)] only_grows_trans [OF _ rest(1)] show ?case by simp
qed

lemma settled_pairs_stay:
  assumes "fold (promote_pair fmt str_of dumps config tn) vs (rep, d) = (rep', d')" and "fresh_ids d"
    and "\<forall>v \<in> set vs. pv_tenant v = tn \<and> settled fmt str_of dumps config tn v d"
  shows "rd_candidates d' = rd_candidates d \<and> pp_inserted rep' = pp_inserted rep"
  using assms
proof (induction vs arbitrary: rep d)
  case (Cons v vs)
  obtain rep1 d1 where one: "promote_pair fmt str_of dumps config tn v (rep, d) = (rep1, d1)" by fastforce
  have tn: "pv_tenant v = tn" using Cons.prems(3) by simp
  note first = promote_pair_settles [OF one Cons.prems(2) tn]
  have rest: "fold (promote_pair fmt str_of dumps config tn) vs (rep1, d1) = (rep', d')" using Cons.prems(1) one by simp
  have "\<forall>v \<in> set vs. pv_tenant v = tn \<and> settled fmt str_of dumps config tn v d1"
    using Cons.prems(3) settled_grows [OF _ conjunct1 [OF first]] by auto
  from Cons.IH [OF rest _ this] first Cons.prems(3) show ?case by simp
qed simp

lemma promotable_tenant: "v \<in> set (list_promotable_pair_evidence tn m l ms d) \<Longrightarrow> pv_tenant v = tn \<and> v \<in> set (pd_pairs d)"
  by (auto simp: list_promotable_pair_evidence_def Let_def dest: in_set_takeD)

end
