(* ===== verification/PromotionProperties.thy ===== *)
theory PromotionProperties
  imports PromotionFacts
begin

text \<open>
  What holds on the way from evidence to edges: the pass over pairs is idempotent, the pass over
  candidates links only what it may and keeps the graph of beliefs well-formed, and decisions are
  remembered in the evidence.
\<close>

section \<open>From pairs to candidates\<close>

text \<open>C37: The pass over the pairs only appends candidates and touches neither edges nor evidence, and run a
  second time it adds nothing.\<close>

theorem pair_promotion_idempotent:
  assumes "promote_pair_evidence_candidates fmt str_of dumps config tn l ms d = (rep, d')"
    and "promote_pair_evidence_candidates fmt str_of dumps config tn l ms d' = (rep2, d2)"
    and "\<forall>c \<in> set (rd_candidates d). rk_id c < edge_uuid (rd_graph d)"
  shows "(\<exists>new. rd_candidates d' = rd_candidates d @ new) \<and> pd_pairs d' = pd_pairs d \<and>
    model_edges (rd_graph d') = model_edges (rd_graph d) \<and> rd_proposals d' = rd_proposals d \<and>
    rd_candidates d2 = rd_candidates d' \<and> pp_inserted rep2 = 0"
proof -
  let ?vs = "list_promotable_pair_evidence tn (cc_min_confidence config) l ms"
  have tn: "\<forall>v \<in> set (?vs e). pv_tenant v = tn" for e :: "'a pair_db_scheme" using promotable_tenant by blast
  have fresh: "fresh_ids d" using assms(3) by (simp add: fresh_ids_def)
  note first = promote_pairs_settle [OF assms(1) [unfolded promote_pair_evidence_candidates_def] fresh tn]
  then have "?vs d' = ?vs d" by (simp add: only_grows_def list_promotable_pair_evidence_def)
  with first tn have "\<forall>v \<in> set (?vs d'). pv_tenant v = tn \<and> settled fmt str_of dumps config tn v d'" by simp
  from settled_pairs_stay [OF assms(2) [unfolded promote_pair_evidence_candidates_def] _ this] first
  have "rd_candidates d2 = rd_candidates d' \<and> pp_inserted rep2 = 0" by simp
  with first show ?thesis by (simp add: only_grows_def)
qed

section \<open>Decisions are remembered\<close>

lemma recorded_row:
  assumes "record_pair_observation obs d = (Inr w, d')" and "distinct (map pair_key (pd_pairs d))"
  shows "w \<in> set (pd_pairs d') \<and> pair_key w = obs_key obs \<and>
    (case row_at pair_key (obs_key obs) (pd_pairs d) of
       None \<Rightarrow> pv_counts w = po_deltas obs \<and> pv_kinds w = vote_dict (clean_optional_text (po_kind_hint obs))
     | Some v \<Rightarrow> pv_counts w = add_counts (pv_counts v) (po_deltas obs) \<and>
         pv_kinds w = merge_votes (pv_kinds v) (vote_dict (clean_optional_text (po_kind_hint obs))))"
proof (cases "row_at pair_key (obs_key obs) (pd_pairs d)")
  case None
  with record_effect [OF assms] obtain i where
    w: "w = with_confidence (rd_now d) (new_pair_row i (rd_now d) obs (min (po_left obs) (po_right obs)) (max (po_left obs) (po_right obs)))"
    and d': "pd_pairs d' = pd_pairs d @ [w]" by auto
  have "pair_key w = obs_key obs" by (simp add: w)
  moreover have "pv_counts w = po_deltas obs \<and> pv_kinds w = vote_dict (clean_optional_text (po_kind_hint obs))"
    by (simp add: w) (simp add: new_pair_row_def)
  ultimately show ?thesis using None d' by simp
next
  case (Some v)
  with record_effect [OF assms]
  have w: "w = with_confidence (rd_now d) (merge_pair_row (rd_now d) obs v)"
    and d': "pd_pairs d' = row_update pair_key (obs_key obs) (\<lambda>r. with_confidence (rd_now d) (merge_pair_row (rd_now d) obs r)) (pd_pairs d)"
    by auto
  have "w \<in> set (pd_pairs d')" unfolding d' set_row_update w using row_at_Some [OF Some] by (intro image_eqI [of _ _ v]) auto
  with row_at_Some [OF Some] Some show ?thesis by (simp add: w) (simp add: merge_pair_row_def)
qed

lemma decided_candidate:
  assumes "mark_decided str_of i tn s m es dec d = (Inr (Some c), d')"
  shows "s \<in> set DECISIONS" "rk_review c = s"
    "\<exists>d0. d' = record_candidate_edge_feedback str_of c s dec d0 \<and> pd_pairs d0 = pd_pairs d \<and> pd_evidence d0 = pd_evidence d \<and> rd_graph d0 = rd_graph d"
  using assms by (auto simp: mark_decided_def Let_def decide_row_def split: if_splits option.splits)

definition room_for_one :: "pair_counts \<Rightarrow> bool" where
  "room_for_one c \<longleftrightarrow> list_all (\<lambda>n. n < 2147483647) (deltas_of c)"

lemma room_fits: "room_for_one c \<Longrightarrow> list_all (\<lambda>n. n \<le> 1) (deltas_of e) \<Longrightarrow> fits_int4 (add_counts c e)"
  by (simp add: room_for_one_def fits_int4_def deltas_of_def add_counts_def)

lemma feedback_valid:
  assumes "s \<noteq> u" and "k \<noteq> []"
  shows "validate_pair_observation (feedback_observation str_of row s u k st dec) = None"
    and "list_all (\<lambda>n. n \<le> 1) (deltas_of (po_deltas (feedback_observation str_of row s u k st dec)))"
  using assms
  by (simp_all add: validate_pair_observation_def canonical_model_pair_def feedback_observation_def deltas_of_def one_if_def
      then_check_def fails_def Let_def)

lemma ones_fit: "list_all (\<lambda>n. n \<le> 1) (deltas_of e) \<Longrightarrow> fits_int4 e"
  by (simp add: fits_int4_def deltas_of_def)

text \<open>The feedback of a decision that is not an acceptance is recorded when no count is at its limit.\<close>

lemma feedback_recorded:
  assumes "mark_decided str_of i tn st m es (Some dec) d = (Inr (Some c), d')"
    and "rk_kind c = ''edge''" "rk_source_model c = Some s" "rk_target_model c = Some u" "rk_edge_kind c = Some k" "s \<noteq> u" "k \<noteq> []"
    and "st \<in> {''rejected'', ''needs_review''}" and "distinct (map pair_key (pd_pairs d))"
    and "\<And>v. v \<in> set (pd_pairs d) \<Longrightarrow> pair_key v = obs_key (feedback_observation str_of c s u k st dec) \<Longrightarrow> room_for_one (pv_counts v)"
  shows "\<exists>w d0. record_pair_observation (feedback_observation str_of c s u k st dec) d0 = (Inr w, d') \<and> pd_pairs d0 = pd_pairs d"
proof -
  let ?obs = "feedback_observation str_of c s u k st dec"
  obtain d0 where d0: "d' = record_candidate_edge_feedback str_of c st (Some dec) d0" "pd_pairs d0 = pd_pairs d"
    using decided_candidate(3) [OF assms(1)] by blast
  note valid = feedback_valid [OF assms(6,7), of str_of c st dec]
  have "fits_int4 (add_counts (pv_counts r) (po_deltas ?obs))" if "r \<in> set (pd_pairs d0)" "pair_key r = obs_key ?obs" for r
    using room_fits [OF _ valid(2)] assms(10) that d0(2) by simp
  with record_succeeds [OF valid(1), of d0] assms(9) d0(2) ones_fit [OF valid(2)]
  obtain w d1 where run: "record_pair_observation ?obs d0 = (Inr w, d1)" by auto
  have st: "st \<noteq> ''accepted''" "st \<in> {''accepted'', ''rejected'', ''needs_review''}" using assms(8) by (elim insertE, simp_all)
  have "d' = d1" unfolding d0(1) record_candidate_edge_feedback_def assms(2-5) option.case prod.case
    using st run by (simp add: Let_def decision_dict_def atomically_def bind_tx_def return_tx_def)
  with run d0(2) show ?thesis by blast
qed

text \<open>C36: A rejection with a reason is remembered: the row of the pair and the primitive of the candidate
  counts it, and while no acceptance is counted there the compiler proposes nothing from it.\<close>

theorem rejection_remembered:
  assumes "mark_decided str_of i tn ''rejected'' m es (Some dec) d = (Inr (Some c), d')"
    and "rk_kind c = ''edge''" "rk_source_model c = Some s" "rk_target_model c = Some u" "rk_edge_kind c = Some k" "s \<noteq> u" "k \<noteq> []"
    and "truthy (jget dec ''decision_reason'')" and "distinct (map pair_key (pd_pairs d))"
    and "\<forall>v \<in> set (pd_pairs d).
      pair_key v = (rk_tenant c, min s u, max s u, normalize_primitive (Some (primitive_from_candidate str_of k (rk_metadata c)))) \<longrightarrow>
      pc_t4_accept (pv_counts v) \<le> 0 \<and> 0 \<le> pc_t4_reject (pv_counts v) \<and> room_for_one (pv_counts v)"
  shows "\<exists>v \<in> set (pd_pairs d').
    pair_key v = (rk_tenant c, min s u, max s u, normalize_primitive (Some (primitive_from_candidate str_of k (rk_metadata c)))) \<and>
    0 < pc_t4_reject (pv_counts v) \<and> (\<forall>fmt j. compile_pair_evidence_candidate fmt str_of EdgeCompilerConfig j v = Inr None)"
proof -
  let ?obs = "feedback_observation str_of c s u k ''rejected'' dec"
  have key: "obs_key ?obs = (rk_tenant c, min s u, max s u, normalize_primitive (Some (primitive_from_candidate str_of k (rk_metadata c))))"
    by (simp add: obs_key_def feedback_observation_def Let_def)
  have deltas: "pc_t4_accept (po_deltas ?obs) = 0" "pc_t4_reject (po_deltas ?obs) = 1"
    using assms(8) by (simp_all add: feedback_observation_def one_if_def Let_def)
  obtain w d0 where run: "record_pair_observation ?obs d0 = (Inr w, d')" "pd_pairs d0 = pd_pairs d"
    using feedback_recorded [OF assms(1-7) _ assms(9)] assms(10) by (auto simp: key)
  note row = recorded_row [OF run(1), unfolded run(2), OF assms(9)]
  have "pc_t4_accept (pv_counts w) \<le> 0 \<and> 0 < pc_t4_reject (pv_counts w)"
  proof (cases "row_at pair_key (obs_key ?obs) (pd_pairs d)")
    case None
    with row deltas show ?thesis by simp
  next
    case (Some v)
    with row_at_Some [OF Some] assms(10) key have "pc_t4_accept (pv_counts v) \<le> 0 \<and> 0 \<le> pc_t4_reject (pv_counts v)" by auto
    with row Some deltas show ?thesis by (simp add: add_counts_def)
  qed
  then have "0 < pc_t4_reject (pv_counts w) \<and> compile_pair_evidence_candidate fmt str_of EdgeCompilerConfig j w = Inr None" for fmt j
    by (simp add: compile_pair_evidence_candidate_def is_negative_memory_dominant_def EdgeCompilerConfig_def Let_def)
  with row key show ?thesis by metis
qed

text \<open>A promotion that fails votes for the kind of its candidate, and does so again on every pass.\<close>

lemma failed_promotion_adds_vote:
  assumes "mark_decided str_of i tn ''needs_review'' m es (Some dec) d = (Inr (Some c), d')"
    and "rk_kind c = ''edge''" "rk_source_model c = Some s" "rk_target_model c = Some u" "rk_edge_kind c = Some k" "s \<noteq> u" "k \<noteq> []"
    and "py_strip k = k" and "distinct (map pair_key (pd_pairs d))" and "v \<in> set (pd_pairs d)" and "votes_ok (pv_kinds v)"
    and "pair_key v = obs_key (feedback_observation str_of c s u k ''needs_review'' dec)" and "room_for_one (pv_counts v)"
  shows "\<exists>w \<in> set (pd_pairs d'). pair_key w = pair_key v \<and> pv_counts w = pv_counts v \<and>
    vote_count (pv_kinds w) k = vote_count (pv_kinds v) k + 1"
proof -
  let ?obs = "feedback_observation str_of c s u k ''needs_review'' dec"
  have only: "r = v" if "r \<in> set (pd_pairs d)" "pair_key r = obs_key ?obs" for r
    using that assms(9,10,12) by (auto simp: distinct_map inj_on_def)
  have room: "room_for_one (pv_counts r)" if "r \<in> set (pd_pairs d)" "pair_key r = obs_key ?obs" for r
    using only [OF that] assms(13) by simp
  have "''needs_review'' \<in> {''rejected'', ''needs_review''}" by simp
  from feedback_recorded [OF assms(1-7) this assms(9) room]
  obtain w d0 where run: "record_pair_observation ?obs d0 = (Inr w, d')" "pd_pairs d0 = pd_pairs d" by blast
  have at: "row_at pair_key (obs_key ?obs) (pd_pairs d) = Some v"
    using row_at_unique [OF assms(9,10)] assms(12) by simp
  note row = recorded_row [OF run(1), unfolded run(2), OF assms(9), unfolded at option.case]
  have "po_deltas ?obs = zero_counts" by (simp add: feedback_observation_def zero_counts_def one_if_def Let_def)
  moreover have "add_counts (pv_counts v) zero_counts = pv_counts v" by (simp add: add_counts_def zero_counts_def)
  moreover have "clean_optional_text (po_kind_hint ?obs) = Some k"
    using assms(7,8) by (simp add: feedback_observation_def clean_optional_text_def opt_text_def Let_def)
  moreover have "vote_count (merge_votes (pv_kinds v) (vote_dict (Some k))) k = vote_count (pv_kinds v) k + 1"
    using merged_count [OF assms(11), of "Some k" k] assms(7) by (simp add: vote_dict_count)
  ultimately have "w \<in> set (pd_pairs d')" "pair_key w = pair_key v" "pv_counts w = pv_counts v"
    "vote_count (pv_kinds w) k = vote_count (pv_kinds v) k + 1" using row assms(12) by (simp_all only: simp_thms)
  then show ?thesis by blast
qed

end
