(* ===== verification/PromotionEdges.thy ===== *)
theory PromotionEdges
  imports PromotionProperties OntologyProperties
begin

text \<open>
  The pass that links safe candidates: it changes the graph of beliefs by steps of the edge store
  only, and what becomes of each candidate.
\<close>

section \<open>What feedback leaves alone\<close>

definition quiet :: "'a pair_db_scheme \<Rightarrow> 'a pair_db_scheme \<Rightarrow> bool" where
  "quiet d d' \<longleftrightarrow> rd_candidates d' = rd_candidates d \<and> rd_proposals d' = rd_proposals d \<and>
     model_edges (rd_graph d') = model_edges (rd_graph d) \<and> edge_now (rd_graph d') = edge_now (rd_graph d)"

lemma quiet_refl: "quiet d d"
  by (simp add: quiet_def)

lemma quiet_trans: "quiet d e \<Longrightarrow> quiet e f \<Longrightarrow> quiet d f"
  by (simp add: quiet_def)

lemma uuid_quiet: "rd_uuid d = (i, d') \<Longrightarrow> quiet d d'"
  by (auto simp: rd_uuid_def draw_uuid_def quiet_def)

lemma pairs_quiet: "quiet d (d\<lparr>pd_pairs := ps\<rparr>)" "quiet d (d\<lparr>pd_evidence := es\<rparr>)"
  by (simp_all add: quiet_def)

lemma confidence_quiet: "update_pair_confidence v d = (r, d') \<Longrightarrow> quiet d d'"
  by (auto simp: update_pair_confidence_def Let_def quiet_def split: if_splits option.splits)

lemma record_quiet:
  assumes "record_pair_observation obs d = (r, d')"
  shows "quiet d d'"
proof (cases "validate_pair_observation obs")
  case (Some e)
  with assms show ?thesis by (simp add: record_pair_observation_def quiet_refl)
next
  case None
  obtain i d1 where u: "rd_uuid d = (i, d1)" by fastforce
  have conf: "quiet e d'" if "update_pair_confidence v (e\<lparr>pd_pairs := ps\<rparr>) = (r, d')" for v r ps and e :: "'a pair_db_scheme"
    by (rule quiet_trans [OF pairs_quiet(1) confidence_quiet [OF that]])
  note run = assms [unfolded record_pair_observation_def None valid_observation(1) [OF None] option.case sum.case prod.case u Let_def]
  have "quiet d1 d'" using run by (auto simp: quiet_refl split: if_split_asm option.split_asm dest!: conf)
  with quiet_trans [OF uuid_quiet [OF u]] show ?thesis by blast
qed

lemma evidence_quiet:
  assumes "insert_relation_evidence e d = (r, d')"
  shows "quiet d d'"
proof (cases "re_id e")
  case None
  obtain i d1 where u: "rd_uuid d = (i, d1)" by fastforce
  have "quiet d1 d' \<or> d' = d"
    using assms None u pairs_quiet(2) by (auto simp: insert_relation_evidence_def Let_def quiet_refl split: option.splits)
  with quiet_trans [OF uuid_quiet [OF u]] show ?thesis by (auto simp: quiet_refl)
next
  case (Some i)
  with assms pairs_quiet(2) show ?thesis
    by (auto simp: insert_relation_evidence_def Let_def quiet_refl split: option.splits)
qed

lemma feedback_quiet: "quiet d (record_candidate_edge_feedback str_of row st dec d)"
proof -
  have body: "quiet d (snd (atomically (bind_tx (record_pair_observation obs)
      (\<lambda>_. if b then bind_tx (insert_relation_evidence e) (\<lambda>_. return_tx ()) else return_tx ())) d))" for obs b e
  proof -
    obtain r d1 where one: "record_pair_observation obs d = (r, d1)" by fastforce
    obtain r2 d2 where two: "insert_relation_evidence e d1 = (r2, d2)" by fastforce
    have "quiet d d1" "quiet d d2" using record_quiet [OF one] evidence_quiet [OF two] quiet_trans by blast+
    then show ?thesis using one two
      by (auto simp: atomically_def bind_tx_def return_tx_def quiet_refl split: sum.splits)
  qed
  show ?thesis unfolding record_candidate_edge_feedback_def
    using body quiet_refl by (auto simp: Let_def split: option.split)
qed

section \<open>One promotion\<close>

definition set_row :: "candidate_rec \<Rightarrow> candidate_rec list \<Rightarrow> candidate_rec list" where
  "set_row c' cs = map (\<lambda>x. if rk_id x = rk_id c' then c' else x) cs"

lemma decided_effect:
  assumes "c \<in> set (rd_candidates d)" and "distinct (map rk_id (rd_candidates d))" and "rk_tenant c = tn" and "st \<in> set DECISIONS"
  shows "\<exists>d'. mark_decided str_of (rk_id c) tn st m es dec d = (Inr (Some (decide_row (rd_now d) st m es dec c)), d') \<and>
    rd_candidates d' = set_row (decide_row (rd_now d) st m es dec c) (rd_candidates d) \<and> rd_proposals d' = rd_proposals d \<and>
    model_edges (rd_graph d') = model_edges (rd_graph d) \<and> edge_now (rd_graph d') = edge_now (rd_graph d)"
proof -
  let ?hit = "\<lambda>x. rk_id x = rk_id c \<and> rk_tenant x = tn" and ?f = "decide_row (rd_now d) st m es dec"
  have only: "x = c" if "x \<in> set (rd_candidates d)" "rk_id x = rk_id c" for x
    using that assms(1,2) by (auto simp: distinct_map inj_on_def)
  have "List.find ?hit (rd_candidates d) \<noteq> None" using assms(1,3) by (auto simp: find_None_iff)
  then obtain x where x: "List.find ?hit (rd_candidates d) = Some x" by blast
  with only find_some [OF x] have c: "x = c" by blast
  have id: "rk_id (?f c) = rk_id c" by (simp add: decide_row_def)
  have rows: "map (\<lambda>x. if ?hit x then ?f x else x) (rd_candidates d) = set_row (?f c) (rd_candidates d)"
    unfolding set_row_def id using only assms(3) by (intro map_cong) auto
  let ?d1 = "d\<lparr>rd_candidates := set_row (?f c) (rd_candidates d)\<rparr>"
  have "mark_decided str_of (rk_id c) tn st m es dec d = (Inr (Some (?f c)), record_candidate_edge_feedback str_of (?f c) st dec ?d1)"
    using assms(4) by (simp add: mark_decided_def Let_def x c rows)
  moreover note feedback_quiet [of ?d1 str_of "?f c" st dec]
  ultimately show ?thesis by (intro exI [of _ "record_candidate_edge_feedback str_of (?f c) st dec ?d1"]) (simp add: quiet_def)
qed

text \<open>The edge of a candidate in the graph, by its key.\<close>

definition edge_id_at :: "'a relation_db_scheme \<Rightarrow> uuid \<Rightarrow> uuid \<Rightarrow> uuid \<Rightarrow> string \<Rightarrow> uuid option" where
  "edge_id_at d tn s u k = map_option me_id (edge_at (rd_graph d) tn s u k)"

lemma insert_one_id: "edge_at d tn a b k = Some e \<Longrightarrow> \<exists>e'. edge_at (snd (insert_one x d)) tn a b k = Some e' \<and> me_id e' = me_id e"
  by (auto simp: insert_one_at)

lemma insert_one_returns: "map_option me_id (edge_at (snd (insert_one x d)) (la_tenant x) (la_source x) (la_target x) (la_kind x)) = Some (fst (insert_one x d))"
proof (cases "edge_at d (la_tenant x) (la_source x) (la_target x) (la_kind x)")
  case None
  then show ?thesis unfolding insert_one_at
    by (simp add: insert_one_def draw_uuid_def Let_def) (simp add: edge_at_def edge_key_def new_edge_def)
next
  case (Some e)
  then show ?thesis unfolding insert_one_at
    by (simp add: insert_one_def draw_uuid_def Let_def) (simp add: edge_at_def edge_key_def new_edge_def merge_edge_def)
qed

lemma insert_one_new: "edge_at (snd (insert_one x d)) tn a b k \<noteq> None \<Longrightarrow> edge_at d tn a b k \<noteq> None \<or>
    (tn, a, b, k) = (la_tenant x, la_source x, la_target x, la_kind x)"
  by (auto simp: insert_one_at)

lemma link_effect:
  assumes "link a g = (Inr ids, g')"
  shows "edge_step g g'" and "edge_at g tn x y k = Some e \<Longrightarrow> \<exists>e'. edge_at g' tn x y k = Some e' \<and> me_id e' = me_id e"
    and "\<exists>e. edge_at g' (la_tenant a) (la_source a) (la_target a) (la_kind a) = Some e \<and> me_id e \<in> set ids"
    and "edge_at g' tn x y k \<noteq> None \<Longrightarrow> edge_at g tn x y k \<noteq> None \<or>
      tn = la_tenant a \<and> k = la_kind a \<and> {x, y} = {la_source a, la_target a}"
    and "edge_now g' = edge_now g" and "ontology_tab g' = ontology_tab g"
proof -
  show "edge_step g g'" using assms by (rule es_link)
  let ?one = "insert_one a g" and ?two = "insert_one (swap_ends a) (snd (insert_one a g))"
  have cases: "g' = snd ?one \<and> ids = [fst ?one] \<or> g' = snd ?two \<and> ids = [fst ?one, fst ?two]"
    using assms by (auto simp: link_def Let_def case_prod_beta split: sum.splits option.splits if_splits)
  show "edge_at g tn x y k = Some e \<Longrightarrow> \<exists>e'. edge_at g' tn x y k = Some e' \<and> me_id e' = me_id e"
    using cases insert_one_id by (metis (full_types))
  have "\<exists>e. edge_at (snd ?one) (la_tenant a) (la_source a) (la_target a) (la_kind a) = Some e \<and> me_id e = fst ?one"
    using insert_one_returns [of a g] by auto
  then show "\<exists>e. edge_at g' (la_tenant a) (la_source a) (la_target a) (la_kind a) = Some e \<and> me_id e \<in> set ids"
    using cases insert_one_id by (metis list.set_intros(1))
  show "edge_at g' tn x y k \<noteq> None \<Longrightarrow> edge_at g tn x y k \<noteq> None \<or>
      tn = la_tenant a \<and> k = la_kind a \<and> {x, y} = {la_source a, la_target a}"
    using cases insert_one_new [of "swap_ends a" "snd (insert_one a g)" tn x y k] insert_one_new [of a g tn x y k]
    by (auto simp: swap_ends_def)
  have "edge_now (snd (insert_one b h)) = edge_now h \<and> ontology_tab (snd (insert_one b h)) = ontology_tab h" for b h
    by (simp add: insert_one_rows Let_def insert_one_def draw_uuid_def split: option.split)
  with cases show "edge_now g' = edge_now g" "ontology_tab g' = ontology_tab g" by auto
qed

lemma link_fails: "link a g = (Inl e, g') \<Longrightarrow> g' = g"
  by (auto simp: link_def Let_def case_prod_beta split: sum.splits option.splits if_splits)

text \<open>What the edges keep, and between which ends new ones may stand.\<close>

definition keeps_edges :: "edge_db \<Rightarrow> edge_db \<Rightarrow> bool" where
  "keeps_edges g g' \<longleftrightarrow> (\<forall>tn x y k e. edge_at g tn x y k = Some e \<longrightarrow> (\<exists>e'. edge_at g' tn x y k = Some e' \<and> me_id e' = me_id e))"

lemma keeps_refl: "keeps_edges g g"
  by (simp add: keeps_edges_def)

lemma keeps_trans: "keeps_edges f g \<Longrightarrow> keeps_edges g h \<Longrightarrow> keeps_edges f h"
  unfolding keeps_edges_def by metis

lemma keeps_same: "model_edges g' = model_edges g \<Longrightarrow> keeps_edges g g'"
  by (simp add: keeps_edges_def edge_at_def)

definition joins :: "uuid \<Rightarrow> thresholds \<Rightarrow> candidate_rec \<Rightarrow> uuid \<Rightarrow> uuid \<Rightarrow> uuid \<Rightarrow> string \<Rightarrow> bool" where
  "joins tn th c t x y k \<longleftrightarrow> t = tn \<and> passes_promotion_gate th c = Inr True \<and> rk_edge_kind c = Some k \<and>
     {Some x, Some y} = {rk_source_model c, rk_target_model c}"

text \<open>What becomes of a candidate that the pass looks at.\<close>

definition settled_as :: "uuid \<Rightarrow> thresholds \<Rightarrow> edge_db \<Rightarrow> candidate_rec \<Rightarrow> candidate_rec \<Rightarrow> bool" where
  "settled_as tn th g c c' \<longleftrightarrow>
    (case passes_promotion_gate th c of
       Inr False \<Rightarrow> c' = c
     | Inr True \<Rightarrow> rk_review c' = ''needs_review'' \<and> cn_accepted_edges c' = [] \<or>
         rk_review c' = ''accepted'' \<and>
         (\<exists>s u k e. rk_source_model c = Some s \<and> rk_target_model c = Some u \<and> rk_edge_kind c = Some k \<and>
           edge_at g tn s u k = Some e \<and> me_id e \<in> set (cn_accepted_edges c'))
     | Inl e \<Rightarrow> rk_review c' = ''needs_review'' \<and> cn_accepted_edges c' = [])"

lemma settled_as_keeps: "settled_as tn th g c c' \<Longrightarrow> keeps_edges g g' \<Longrightarrow> settled_as tn th g' c c'"
  unfolding settled_as_def keeps_edges_def by (auto split: sum.splits bool.splits) metis+

text \<open>One turn of the loop.\<close>

definition turn :: "uuid \<Rightarrow> thresholds \<Rightarrow> candidate_rec \<Rightarrow> 'a pair_db_scheme \<Rightarrow> 'a pair_db_scheme \<Rightarrow> bool" where
  "turn tn th c d d' \<longleftrightarrow> edge_step\<^sup>*\<^sup>* (graph_of d) (graph_of d') \<and> keeps_edges (graph_of d) (graph_of d') \<and>
     (\<forall>t x y k. edge_at (graph_of d') t x y k \<noteq> None \<longrightarrow> edge_at (graph_of d) t x y k \<noteq> None \<or> joins tn th c t x y k) \<and>
     (\<exists>c'. rd_candidates d' = set_row c' (rd_candidates d) \<and> rk_id c' = rk_id c \<and> settled_as tn th (graph_of d') c c')"

lemma set_row_same: "c \<in> set cs \<Longrightarrow> distinct (map rk_id cs) \<Longrightarrow> set_row c cs = cs"
  unfolding set_row_def by (rule map_idI) (auto simp: distinct_map inj_on_def)

lemma graph_of_same: "model_edges (rd_graph d') = model_edges (rd_graph d) \<Longrightarrow> model_edges (graph_of d') = model_edges (graph_of d)"
  by (simp add: graph_of_def)

lemma turn_undone:
  assumes "c \<in> set (rd_candidates d)" and "distinct (map rk_id (rd_candidates d))" and "rk_tenant c = tn"
    and "passes_promotion_gate th c \<noteq> Inr False" and "rd_candidates d1 = rd_candidates d" and "model_edges (rd_graph d1) = model_edges (rd_graph d)"
  shows "turn tn th c d (snd (mark_decided str_of (rk_id c) tn ''needs_review'' None [] dec d1))"
proof -
  have st: "''needs_review'' \<in> set DECISIONS" by (simp add: DECISIONS_def)
  obtain d' where d': "mark_decided str_of (rk_id c) tn ''needs_review'' None [] dec d1 =
      (Inr (Some (decide_row (rd_now d1) ''needs_review'' None [] dec c)), d')"
    "rd_candidates d' = set_row (decide_row (rd_now d1) ''needs_review'' None [] dec c) (rd_candidates d)"
    "model_edges (rd_graph d') = model_edges (rd_graph d)"
    using decided_effect [OF _ _ assms(3) st, of d1] assms(1,2,5,6) by metis
  have "settled_as tn th g c (decide_row (rd_now d1) ''needs_review'' None [] dec c)" for g
    using assms(4) by (simp add: settled_as_def decide_row_def split: sum.split bool.split)
  moreover have "rk_id (decide_row (rd_now d1) ''needs_review'' None [] dec c) = rk_id c" by (simp add: decide_row_def)
  moreover note same = graph_of_same [OF d'(3)]
  moreover have "edge_at (graph_of d') = edge_at (graph_of d)" by (intro ext) (simp add: edge_at_def same)
  ultimately show ?thesis using d'(2) keeps_same [OF same] es_elsewhere [OF same] unfolding turn_def d'(1) snd_conv by auto
qed

lemma promotion_link_ends:
  "la_tenant (promotion_link c s u k tn spec) = tn" "la_source (promotion_link c s u k tn spec) = s"
  "la_target (promotion_link c s u k tn spec) = u" "la_kind (promotion_link c s u k tn spec) = k"
  by (simp_all add: promotion_link_def link_defaults_def)

lemma turn_done:
  assumes "c \<in> set (rd_candidates d)" and "distinct (map rk_id (rd_candidates d))" and "rk_tenant c = tn"
    and gate: "passes_promotion_gate th c = Inr True"
    and ends: "rk_source_model c = Some s" "rk_target_model c = Some u" "rk_edge_kind c = Some k"
    and link: "link (promotion_link c s u k tn spec) (graph_of d) = (Inr ids, g)"
  shows "\<exists>c' d'. mark_decided str_of (rk_id c) tn ''accepted'' None ids dec (d\<lparr>rd_graph := g\<rparr>) = (Inr (Some c'), d') \<and> turn tn th c d d'"
proof -
  let ?d1 = "d\<lparr>rd_graph := g\<rparr>" and ?c = "decide_row (rd_now (d\<lparr>rd_graph := g\<rparr>)) ''accepted'' None ids dec c"
  have st: "''accepted'' \<in> set DECISIONS" by (simp add: DECISIONS_def)
  obtain d' where d': "mark_decided str_of (rk_id c) tn ''accepted'' None ids dec ?d1 = (Inr (Some ?c), d')"
    "rd_candidates d' = set_row ?c (rd_candidates d)" "model_edges (rd_graph d') = model_edges g"
    using decided_effect [OF _ _ assms(3) st, of ?d1 str_of None ids dec] assms(1,2) by auto
  note fx = link_effect [OF link, unfolded promotion_link_ends]
  have same: "model_edges (graph_of d') = model_edges g" using d'(3) by (simp add: graph_of_def)
  have at: "edge_at (graph_of d') = edge_at g" by (intro ext) (simp add: edge_at_def same)
  have "edge_step\<^sup>*\<^sup>* (graph_of d) (graph_of d')" using fx(1) es_elsewhere [OF same] by (meson rtranclp.simps)
  moreover have "keeps_edges (graph_of d) (graph_of d')" unfolding keeps_edges_def at using fx(2) by blast
  moreover have "joins tn th c t x y l \<or> edge_at (graph_of d) t x y l \<noteq> None" if "edge_at (graph_of d') t x y l \<noteq> None" for t x y l
    using fx(4) [OF that [unfolded at]] gate ends unfolding joins_def by auto
  moreover have "settled_as tn th (graph_of d') c ?c"
    using fx(3) gate ends unfolding settled_as_def at by (simp add: decide_row_def)
  moreover have "rk_id ?c = rk_id c" by (simp add: decide_row_def)
  ultimately have "turn tn th c d d'" unfolding turn_def using d'(2) by blast
  with d'(1) show ?thesis by blast
qed

lemma promote_candidate_turn:
  assumes "promote_candidate str_of err_text tn th c (rep, d) = (rep', d')" and "linkable tn now c"
    and "c \<in> set (rd_candidates d)" and "distinct (map rk_id (rd_candidates d))"
  shows "turn tn th c d d'"
proof -
  obtain s u k where c: "rk_source_model c = Some s" "rk_target_model c = Some u" "rk_edge_kind c = Some k" "rk_tenant c = tn"
    using assms(2) by (auto simp: linkable_def)
  note undone = turn_undone [OF assms(3,4) c(4)]
  consider (fails) e where "passes_promotion_gate th c = Inl e" | (stays) "passes_promotion_gate th c = Inr False"
    | (passes) "passes_promotion_gate th c = Inr True"
    by (cases "passes_promotion_gate th c") auto
  then show ?thesis
  proof cases
    case fails
    with assms(1) have "d' = snd (mark_decided str_of (rk_id c) tn ''needs_review'' None []
        (Some [(''reason'', JStr ''housekeeper_promotion_failed''), (''error'', JStr (err_text e))]) d)"
      by (auto simp: promote_candidate_def promote_row_def)
    with undone [of th d] fails show ?thesis by simp
  next
    case stays
    with assms(1) have "d' = d" by (auto simp: promote_candidate_def promote_row_def)
    with stays set_row_same [OF assms(3,4)] keeps_refl [of "graph_of d"] show ?thesis
      by (auto simp: turn_def settled_as_def intro!: exI [of _ c])
  next
    case passes
    show ?thesis
    proof (cases "resolve_edge_kind_spec (ontology_tab (graph_of d)) tn k")
      case (Inl e)
      with assms(1) passes c have "d' = snd (mark_decided str_of (rk_id c) tn ''needs_review'' None []
          (Some [(''reason'', JStr ''housekeeper_promotion_failed''), (''error'', JStr (err_text e))]) d)"
        by (auto simp: promote_candidate_def promote_row_def)
      with undone [of th d] passes show ?thesis by simp
    next
      case (Inr spec)
      obtain r g where link: "link (promotion_link c s u k tn spec) (graph_of d) = (r, g)" by fastforce
      show ?thesis
      proof (cases r)
        case (Inl e)
        note same = link_fails [OF link [unfolded Inl]]
        from assms(1) passes c Inr Inl link have "d' = snd (mark_decided str_of (rk_id c) tn ''needs_review'' None []
            (Some [(''reason'', JStr ''housekeeper_promotion_failed''), (''error'', JStr (err_text e))]) (d\<lparr>rd_graph := g\<rparr>))"
          by (auto simp: promote_candidate_def promote_row_def link_in_def)
        with undone [of th "d\<lparr>rd_graph := g\<rparr>"] passes show ?thesis by (simp add: same graph_of_def)
      next
        case ids: (Inr ids)
        obtain c' d1 where "mark_decided str_of (rk_id c) tn ''accepted'' None ids
            (Some [(''reason'', JStr ''high_confidence_housekeeper_promotion''), (''promoted_edge_ids'', JList (map JUuid ids))])
            (d\<lparr>rd_graph := g\<rparr>) = (Inr (Some c'), d1)" "turn tn th c d d1"
          using turn_done [OF assms(3,4) c(4) passes c(1-3) link [unfolded ids]] by blast
        with assms(1) passes c Inr ids link show ?thesis
          by (auto simp: promote_candidate_def promote_row_def link_in_def)
      qed
    qed
  qed
qed

section \<open>The whole pass\<close>

lemma set_row_ids: "map rk_id (set_row c' cs) = map rk_id cs"
  by (induction cs) (auto simp: set_row_def)

lemma set_row_other: "x \<in> set cs \<Longrightarrow> rk_id x \<noteq> rk_id c' \<Longrightarrow> x \<in> set (set_row c' cs)"
  by (auto simp: set_row_def)

lemma set_row_in: "c \<in> set cs \<Longrightarrow> rk_id c' = rk_id c \<Longrightarrow> c' \<in> set (set_row c' cs)"
  by (auto simp: set_row_def)

lemma promote_candidates_effect:
  assumes "fold (promote_candidate str_of err_text tn th) rows (rep, d) = (rep', d')" and "\<forall>c \<in> set rows. linkable tn now c"
    and "set rows \<subseteq> set (rd_candidates d)" and "distinct (map rk_id rows)" and "distinct (map rk_id (rd_candidates d))"
  shows "edge_step\<^sup>*\<^sup>* (graph_of d) (graph_of d') \<and> keeps_edges (graph_of d) (graph_of d') \<and>
    map rk_id (rd_candidates d') = map rk_id (rd_candidates d) \<and>
    (\<forall>t x y k. edge_at (graph_of d') t x y k \<noteq> None \<longrightarrow> edge_at (graph_of d) t x y k \<noteq> None \<or> (\<exists>c \<in> set rows. joins tn th c t x y k)) \<and>
    (\<forall>c \<in> set (rd_candidates d). rk_id c \<notin> rk_id ` set rows \<longrightarrow> c \<in> set (rd_candidates d')) \<and>
    (\<forall>c \<in> set rows. \<exists>c' \<in> set (rd_candidates d'). rk_id c' = rk_id c \<and> settled_as tn th (graph_of d') c c')"
  using assms
proof (induction rows arbitrary: rep d)
  case Nil
  then show ?case by (simp add: keeps_refl)
next
  case (Cons c rows)
  obtain rep1 d1 where one: "promote_candidate str_of err_text tn th c (rep, d) = (rep1, d1)" by fastforce
  have c: "linkable tn now c" "c \<in> set (rd_candidates d)" using Cons.prems(2,3) by simp_all
  note t = promote_candidate_turn [OF one c Cons.prems(5)]
  obtain c1 where c1: "rd_candidates d1 = set_row c1 (rd_candidates d)" "rk_id c1 = rk_id c" "settled_as tn th (graph_of d1) c c1"
    using t unfolding turn_def by blast
  have other: "x \<in> set (rd_candidates d1)" if "x \<in> set (rd_candidates d)" "rk_id x \<noteq> rk_id c" for x
    unfolding c1(1) by (rule set_row_other) (simp_all add: that c1(2))
  have rest: "fold (promote_candidate str_of err_text tn th) rows (rep1, d1) = (rep', d')" using Cons.prems(1) one by simp
  have sub: "set rows \<subseteq> set (rd_candidates d1)"
  proof
    fix x
    assume x: "x \<in> set rows"
    then have "rk_id x \<in> rk_id ` set rows" by (rule imageI)
    with Cons.prems(4) have "rk_id x \<noteq> rk_id c" by auto
    with x Cons.prems(3) show "x \<in> set (rd_candidates d1)" by (intro other) auto
  qed
  have ids: "map rk_id (rd_candidates d1) = map rk_id (rd_candidates d)" unfolding c1(1) by (rule set_row_ids)
  have ih: "edge_step\<^sup>*\<^sup>* (graph_of d1) (graph_of d')" "keeps_edges (graph_of d1) (graph_of d')"
    "map rk_id (rd_candidates d') = map rk_id (rd_candidates d1)"
    "\<And>t x y k. edge_at (graph_of d') t x y k \<noteq> None \<Longrightarrow> edge_at (graph_of d1) t x y k \<noteq> None \<or> (\<exists>c \<in> set rows. joins tn th c t x y k)"
    "\<And>c. c \<in> set (rd_candidates d1) \<Longrightarrow> rk_id c \<notin> rk_id ` set rows \<Longrightarrow> c \<in> set (rd_candidates d')"
    "\<And>c. c \<in> set rows \<Longrightarrow> \<exists>c' \<in> set (rd_candidates d'). rk_id c' = rk_id c \<and> settled_as tn th (graph_of d') c c'"
    using Cons.IH [OF rest _ sub] Cons.prems(2,4,5) ids by auto
  have "edge_step\<^sup>*\<^sup>* (graph_of d) (graph_of d')" using t ih(1) unfolding turn_def by (meson rtranclp_trans)
  moreover have "keeps_edges (graph_of d) (graph_of d')" using t ih(2) keeps_trans unfolding turn_def by blast
  moreover have "map rk_id (rd_candidates d') = map rk_id (rd_candidates d)" using ih(3) ids by simp
  moreover have "edge_at (graph_of d) t x y k \<noteq> None \<or> (\<exists>c \<in> set (c # rows). joins tn th c t x y k)"
    if "edge_at (graph_of d') t x y k \<noteq> None" for t x y k
    using ih(4) [OF that] \<open>turn tn th c d d1\<close> unfolding turn_def list.set by blast
  moreover have "x \<in> set (rd_candidates d')" if "x \<in> set (rd_candidates d)" "rk_id x \<notin> rk_id ` set (c # rows)" for x
    using ih(5) other that by auto
  moreover have "\<exists>c' \<in> set (rd_candidates d'). rk_id c' = rk_id x \<and> settled_as tn th (graph_of d') x c'" if "x \<in> set (c # rows)" for x
  proof (cases "x = c")
    case True
    have "c1 \<in> set (rd_candidates d')" using ih(5) set_row_in [OF c(2) c1(2)] c1 Cons.prems(4) by auto
    with True c1(2) settled_as_keeps [OF c1(3) ih(2)] show ?thesis by blast
  next
    case False
    with ih(6) that show ?thesis by auto
  qed
  ultimately show ?case by blast
qed

lemma retire_effect:
  assumes "retire_expired_candidates tn d = (n, d1)"
  shows "rd_graph d1 = rd_graph d" "rd_proposals d1 = rd_proposals d" "map rk_id (rd_candidates d1) = map rk_id (rd_candidates d)"
    "\<And>c. c \<in> set (rd_candidates d) \<Longrightarrow> \<exists>c1 \<in> set (rd_candidates d1). rk_id c1 = rk_id c \<and>
      (c1 = c \<or> rk_review c1 = ''retired'' \<and> \<not> not_expired (rd_now d) c)"
    "\<And>c1. c1 \<in> set (rd_candidates d1) \<Longrightarrow> c1 \<in> set (rd_candidates d) \<or> rk_review c1 = ''retired''"
proof -
  define hit where "hit c \<longleftrightarrow> rk_tenant c = tn \<and> rk_review c \<in> {''candidate'', ''needs_review'', ''contested''} \<and>
    \<not> not_expired (rd_now d) c" for c :: candidate_rec
  define f where "f c = c\<lparr>rk_review := ''retired'', cn_decided_at := Some (rd_now d),
    rk_metadata := dict_set ''retired_reason'' (JStr ''expired'') (rk_metadata c)\<rparr>" for c :: candidate_rec
  have d1: "d1 = d\<lparr>rd_candidates := map (\<lambda>c. if hit c then f c else c) (rd_candidates d)\<rparr>"
    using assms unfolding hit_def f_def retire_expired_candidates_def Let_def by simp
  have f: "rk_id (f c) = rk_id c" "rk_review (f c) = ''retired''" for c :: candidate_rec by (simp_all add: f_def)
  show "rd_graph d1 = rd_graph d" "rd_proposals d1 = rd_proposals d" by (simp_all add: d1)
  show "map rk_id (rd_candidates d1) = map rk_id (rd_candidates d)" by (simp add: d1 comp_def f(1) if_distrib cong: if_cong)
  show "\<exists>c1 \<in> set (rd_candidates d1). rk_id c1 = rk_id c \<and> (c1 = c \<or> rk_review c1 = ''retired'' \<and> \<not> not_expired (rd_now d) c)"
    if "c \<in> set (rd_candidates d)" for c
    using that f hit_def by (intro bexI [of _ "if hit c then f c else c"]) (auto simp: d1)
  show "c1 \<in> set (rd_candidates d) \<or> rk_review c1 = ''retired''" if "c1 \<in> set (rd_candidates d1)" for c1
    using that f by (auto simp: d1 split: if_splits)
qed

lemma distinct_take_map: "distinct (map f xs) \<Longrightarrow> distinct (map f (take n xs))"
  unfolding take_map [symmetric] by (rule distinct_take)

lemma promotion_rows_in:
  assumes "c \<in> set (promotion_rows tn l th d)"
  shows "c \<in> set (rd_candidates d)" "linkable tn (rd_now d) c"
  using assms by (auto simp: promotion_rows_def dest!: in_set_takeD)

lemma promotion_rows_distinct: "distinct (map rk_id (rd_candidates d)) \<Longrightarrow> distinct (map rk_id (promotion_rows tn l th d))"
  unfolding promotion_rows_def by (rule distinct_take_map) (simp add: distinct_map inj_on_def)

text \<open>C33: The pass that links safe candidates changes the graph by steps of the edge store only and removes no
  edge; a new edge joins the ends of a candidate that may be linked and that passes the gate; and a
  candidate is left as it was, retired because it had expired, accepted with its edge in the graph, or
  left for review because its gate, its kind or the store refused it.\<close>

theorem promotion_effect:
  assumes "promote_high_confidence_edges str_of err_text tn l th d = (n, rep, d')" and "distinct (map rk_id (rd_candidates d))"
  shows "edge_step\<^sup>*\<^sup>* (graph_of d) (graph_of d') \<and> keeps_edges (graph_of d) (graph_of d') \<and>
    (\<forall>t x y k. edge_at (graph_of d') t x y k \<noteq> None \<longrightarrow> edge_at (graph_of d) t x y k \<noteq> None \<or>
      (\<exists>c \<in> set (rd_candidates d). linkable tn (rd_now d) c \<and> joins tn th c t x y k)) \<and>
    (\<forall>c \<in> set (rd_candidates d). \<exists>c' \<in> set (rd_candidates d'). rk_id c' = rk_id c \<and>
      (c' = c \<or> rk_review c' = ''retired'' \<and> \<not> not_expired (rd_now d) c \<or>
       linkable tn (rd_now d) c \<and> settled_as tn th (graph_of d') c c'))"
proof -
  obtain m d1 where one: "retire_expired_candidates tn d = (m, d1)" by fastforce
  note ret = retire_effect [OF one]
  let ?rows = "promotion_rows tn l th d1"
  have now: "rd_now d1 = rd_now d" and graph: "graph_of d1 = graph_of d" by (simp_all add: ret rd_now_def graph_of_def)
  have run: "fold (promote_candidate str_of err_text tn th) ?rows (\<lparr>pr_promoted = 0, pr_edge_ids = [], pr_errors = []\<rparr>, d1) = (rep, d')"
    using assms(1) by (simp add: promote_high_confidence_edges_def one)
  have dist: "distinct (map rk_id (rd_candidates d1))" using assms(2) ret(3) by simp
  have rows: "x \<in> set (rd_candidates d1)" "linkable tn (rd_now d) x" "rk_review x \<noteq> ''retired''" if "x \<in> set ?rows" for x
    using promotion_rows_in [OF that] by (auto simp: now linkable_def)
  then have row: "x \<in> set (rd_candidates d)" if "x \<in> set ?rows" for x using ret(5) that by blast
  have ids: "distinct (map rk_id ?rows)" by (rule promotion_rows_distinct [OF dist])
  note fx = promote_candidates_effect [OF run _ _ ids dist, of "rd_now d", unfolded graph]
  have all: "\<forall>c \<in> set ?rows. linkable tn (rd_now d) c" "set ?rows \<subseteq> set (rd_candidates d1)" using rows by blast+
  have left: "c \<in> set (rd_candidates d')" if "c \<in> set (rd_candidates d1)" "rk_id c \<notin> rk_id ` set ?rows" for c
    using fx [OF all] that by blast
  have met: "\<exists>c' \<in> set (rd_candidates d'). rk_id c' = rk_id c \<and> settled_as tn th (graph_of d') c c'" if "c \<in> set ?rows" for c
    using fx [OF all] that by blast
  have "\<exists>c' \<in> set (rd_candidates d'). rk_id c' = rk_id c \<and> (c' = c \<or> rk_review c' = ''retired'' \<and> \<not> not_expired (rd_now d) c \<or>
       linkable tn (rd_now d) c \<and> settled_as tn th (graph_of d') c c')" if here: "c \<in> set (rd_candidates d)" for c
  proof -
    obtain c1 where c1: "c1 \<in> set (rd_candidates d1)" "rk_id c1 = rk_id c" "c1 = c \<or> rk_review c1 = ''retired'' \<and> \<not> not_expired (rd_now d) c"
      using ret(4) [OF here] by blast
    have same: "x = c1" if "x \<in> set ?rows" "rk_id x = rk_id c1" for x
      using that rows(1) c1(1) dist by (auto simp: distinct_map inj_on_def)
    show ?thesis
    proof (cases "c1 \<in> set ?rows")
      case True
      with rows(3) [OF True] c1(3) have "c1 = c" by simp
      with met [OF True] rows(2) [OF True] show ?thesis by blast
    next
      case False
      have "rk_id c1 \<notin> rk_id ` set ?rows"
      proof
        assume "rk_id c1 \<in> rk_id ` set ?rows"
        then obtain x where "x \<in> set ?rows" "rk_id x = rk_id c1" by (elim imageE) simp
        with same [of x] False show False by simp
      qed
      from left [OF c1(1) this] c1(2,3) show ?thesis by blast
    qed
  qed
  moreover have "edge_at (graph_of d) t x y k \<noteq> None \<or> (\<exists>c \<in> set (rd_candidates d). linkable tn (rd_now d) c \<and> joins tn th c t x y k)"
    if "edge_at (graph_of d') t x y k \<noteq> None" for t x y k
    using conjunct1 [OF conjunct2 [OF conjunct2 [OF conjunct2 [OF fx [OF all]]]]] that rows(2) row by metis
  moreover have "edge_step\<^sup>*\<^sup>* (graph_of d) (graph_of d') \<and> keeps_edges (graph_of d) (graph_of d')"
    using fx [OF all] by blast
  ultimately show ?thesis by blast
qed

section \<open>The statements at concrete inputs\<close>

definition sure_row :: pair_row where
  "sure_row = sample_row\<lparr>pv_confidence := 9 / 10\<rparr>"

lemma pair_promotion_idempotent_witness:
  "\<exists>(d' :: pair_db) d2 rep rep2. list_promotable_pair_evidence 1 (cc_min_confidence EdgeCompilerConfig) 10 [] (sample_db [sure_row]) = [sure_row] \<and>
    promote_pair_evidence_candidates (\<lambda>x. []) (\<lambda>x. []) (\<lambda>x. []) EdgeCompilerConfig 1 10 [] (sample_db [sure_row]) = (rep, d') \<and>
    promote_pair_evidence_candidates (\<lambda>x. []) (\<lambda>x. []) (\<lambda>x. []) EdgeCompilerConfig 1 10 [] d' = (rep2, d2) \<and>
    pp_inserted rep2 = 0 \<and> rd_candidates d2 = rd_candidates d'"
proof -
  obtain rep and d' :: pair_db where one: "promote_pair_evidence_candidates (\<lambda>x. []) (\<lambda>x. []) (\<lambda>x. []) EdgeCompilerConfig 1 10 [] (sample_db [sure_row]) = (rep, d')"
    by fastforce
  obtain rep2 d2 where two: "promote_pair_evidence_candidates (\<lambda>x. []) (\<lambda>x. []) (\<lambda>x. []) EdgeCompilerConfig 1 10 [] d' = (rep2, d2)"
    by fastforce
  have "\<forall>c \<in> set (rd_candidates (sample_db [sure_row])). rk_id c < edge_uuid (rd_graph (sample_db [sure_row]))"
    by (simp add: sample_db_def)
  from pair_promotion_idempotent [OF one two this] have "pp_inserted rep2 = 0" "rd_candidates d2 = rd_candidates d'" by blast+
  moreover have "list_promotable_pair_evidence 1 (cc_min_confidence EdgeCompilerConfig) 10 [] (sample_db [sure_row]) = [sure_row]"
    by (simp add: list_promotable_pair_evidence_def sample_db_def sure_row_def sample_row_def EdgeCompilerConfig_def zero_counts_def
        clamp_score_def Let_def)
  ultimately show ?thesis using one two by blast
qed

definition edge_candidate :: candidate_rec where
  "edge_candidate = \<lparr>rk_id = 7, rk_tenant = 1, rk_kind = ''edge'', rk_basis = ''observed'', rk_source_model = Some 2,
     rk_target_model = Some 3, rk_edge_kind = Some ''blocks'', rk_members = [], rk_events = [5], rk_models = [], rk_counter = [],
     rk_proposition = None, rk_explanation = ''a blocks b'', rk_scores = flat_scores\<lparr>js_confidence := 9 / 10\<rparr>,
     rk_source = ''think'', rk_review = ''candidate'', rk_metadata = [], cn_leverage = 9 / 10, cn_accepted_model = None,
     cn_accepted_edges = [], cn_created_at = 5, cn_decided_at = None, cn_expires_at = None\<rparr>"

definition edge_db_sample :: pair_db where
  "edge_db_sample = (sample_db [])\<lparr>rd_candidates := [edge_candidate]\<rparr>"

lemma edge_db_sample_rows: "rd_candidates edge_db_sample = [edge_candidate]"
  "c \<in> set (rd_candidates edge_db_sample) \<longleftrightarrow> c = edge_candidate"
  by (simp_all add: edge_db_sample_def)

lemma rejection_remembered_witness:
  "\<exists>c d'. mark_decided (\<lambda>x. []) 7 1 ''rejected'' None [] (Some [(''decision_reason'', JStr ''no'')]) edge_db_sample = (Inr (Some c), d') \<and>
    (\<exists>v \<in> set (pd_pairs d'). pv_a v = 2 \<and> pv_b v = 3 \<and> 0 < pc_t4_reject (pv_counts v))"
proof -
  let ?dec = "[(''decision_reason'', JStr ''no'')]"
  have at: "List.find (\<lambda>c. rk_id c = 7 \<and> rk_tenant c = 1) (rd_candidates edge_db_sample) = Some edge_candidate"
    by (simp add: edge_db_sample_def edge_candidate_def)
  obtain d' where run: "mark_decided (\<lambda>x. []) 7 1 ''rejected'' None [] (Some ?dec) edge_db_sample =
      (Inr (Some (decide_row (rd_now edge_db_sample) ''rejected'' None [] (Some ?dec) edge_candidate)), d')"
    by (simp add: mark_decided_def DECISIONS_def at Let_def del: One_nat_def)
  have c: "rk_kind (decide_row n st m es dec edge_candidate) = ''edge''" "rk_source_model (decide_row n st m es dec edge_candidate) = Some 2"
    "rk_target_model (decide_row n st m es dec edge_candidate) = Some 3" "rk_edge_kind (decide_row n st m es dec edge_candidate) = Some ''blocks''"
    "(2 :: uuid) \<noteq> 3" "''blocks'' \<noteq> []" for n st m es dec
    by (simp_all add: decide_row_def edge_candidate_def)
  have "truthy (jget ?dec ''decision_reason'')" "pd_pairs edge_db_sample = []"
    by (simp_all add: jget_def dict_get_or_def dict_get_def edge_db_sample_def sample_db_def)
  from rejection_remembered [OF run c this(1)] this(2) run show ?thesis by (fastforce simp: pair_key_def)
qed

lemma promotion_effect_witness:
  "\<exists>n rep d'. promote_high_confidence_edges (\<lambda>x. []) (\<lambda>e. []) 1 10 default_thresholds edge_db_sample = (n, rep, d') \<and>
    (\<forall>t x y k. edge_at (graph_of d') t x y k \<noteq> None \<longrightarrow> t = 1 \<and> k = ''blocks'' \<and> {x, y} = {2, 3})"
proof -
  obtain n rep d' where run: "promote_high_confidence_edges (\<lambda>x. []) (\<lambda>e. []) 1 10 default_thresholds edge_db_sample = (n, rep, d')"
    using prod_cases3 by blast
  have "distinct (map rk_id (rd_candidates edge_db_sample))" by (simp add: edge_db_sample_def)
  note new = conjunct1 [OF conjunct2 [OF conjunct2 [OF promotion_effect [OF run this]]]]
  have "edge_at (graph_of edge_db_sample) t x y k \<noteq> None \<or> joins 1 default_thresholds edge_candidate t x y k"
    if "edge_at (graph_of d') t x y k \<noteq> None" for t x y k
    using new that by (metis (no_types, lifting) edge_db_sample_rows(2))
  moreover have "edge_at (graph_of edge_db_sample) t x y k = None" for t x y k
    by (simp add: edge_at_def graph_of_def edge_db_sample_def sample_db_def row_at_Nil)
  moreover have "t = 1 \<and> k = ''blocks'' \<and> {x, y} = {2, 3}" if "joins 1 default_thresholds edge_candidate t x y k" for t x y k
    using that by (auto simp: joins_def edge_candidate_def doubleton_eq_iff)
  ultimately have "\<forall>t x y k. edge_at (graph_of d') t x y k \<noteq> None \<longrightarrow> t = 1 \<and> k = ''blocks'' \<and> {x, y} = {2, 3}" by metis
  with run show ?thesis by blast
qed

end
