(* ===== verification/Spec2Isabelle.thy ===== *)
theory Spec2Isabelle
  imports ActsContracts Bridge CustomerLinks LlmBreaker Leases CascadeSystem Triggers Ids Revenue EdgeProperties AccessProperties Capabilities QueueProperties WorkerProperties CandidateFacts OntologyProperties PromotionEdges
begin

text \<open>
  A verification development for the domain core of fyraliscore.

  The program. Fyralis keeps an organisational memory in PostgreSQL. Its core is a set of domain
  services under \<open>src/services/domain\<close> that write tables under integrity rules: acts (goals,
  commitments, decisions and the edges between them), resources (a ledger, deployments of units to
  commitments, links between customers and commitments) and models (beliefs and the graph between
  them). Reasoning code under \<open>src/services/reasoning\<close> reacts to their state changes (the cascade,
  the trigger queue and the fleet of workers that leases from it, the post-commit actions) and turns
  evidence about pairs of beliefs into candidates and candidates into edges.
  \<open>src/services/platform/access_control\<close> decides who reads what, and \<open>src/lib/shared\<close> holds what
  everything uses (errors, identifiers, retry, circuit breakers, leases, the registry of edge kinds).

  How the code is translated. A table is a list of records with a primary key, a database is the
  record of its tables with the supply of fresh identifiers and the clock. A coroutine that takes a
  connection is a function from the database to a result (\<open>Inl\<close> an exception, \<open>Inr\<close> a value) and
  the database it leaves, because the statements it ran before a Python exception stay executed on
  the caller's connection; \<open>atomically\<close> is \<open>async with conn.transaction()\<close> and restores the old
  database on an exception. Every raise is a branch with its exception. Dictionaries and JSONB values
  are association lists of \<open>json\<close>; Python integers are \<open>int\<close>; floats and times are \<open>real\<close> (times of
  the acts and the ledger are \<open>int\<close>); constants are lists in the order of the source.

  The theories, the code they model and what their lemmas show.

  \<^item> \<open>Prelude\<close>, \<open>Json\<close>, \<open>Closure\<close>: exceptions, transactions with their preservation rules
    (\<open>keeps\<close>, \<open>ensures\<close>), tables, dictionaries and the \<open>WITH RECURSIVE\<close> queries (with \<open>UNION\<close> and
    with a depth column). The locale \<open>guarded_graph\<close> is the contract of a cycle guard: if an insert
    is admitted only when the guard finds no path back, the relation stays acyclic.
  \<^item> \<open>StateMachines\<close>: \<open>acts/state_machines.py\<close>; the locale \<open>state_table\<close> is interpreted on the
    three tables.
  \<^item> \<open>Store\<close>: the tables and \<open>observations/state_change.py\<close>; the locale \<open>row_store\<close> states what a
    keyed table promises and is interpreted on goals, commitments, decisions and resources.
  \<^item> \<open>ActsInvariants\<close>, \<open>Goals\<close>, \<open>Decisions\<close>, \<open>Commitments\<close>, \<open>Retry\<close>: \<open>acts/invariants.py\<close>,
    \<open>goals.py\<close>, \<open>decisions.py\<close>, \<open>commitments.py\<close>, \<open>retry.py\<close> with \<open>lib/shared/backoff.py\<close> and
    \<open>http_retry.py\<close>. \<open>ActsSafety\<close> and \<open>ActsSystem\<close> show that every operation keeps the invariants,
    \<open>ActsReach\<close> is the transition system of all committed operations with its reachable states, and
    \<open>ActsContracts\<close> holds further contracts.
  \<^item> \<open>Partitions\<close>, \<open>Ledger\<close>, \<open>Deployments\<close>, \<open>Resources\<close>, \<open>CustomerLinks\<close>, \<open>Bridge\<close>, \<open>Revenue\<close>:
    \<open>resources/partitions.py\<close>, \<open>transactions.py\<close>, \<open>deployments.py\<close>, \<open>repo.py\<close>,
    \<open>customer_commitments.py\<close> and \<open>bridge.py\<close>: conservation of units, replay of the ledger, the
    history of a resource, the two revenue primitives.
  \<^item> \<open>Cascade\<close>, \<open>CascadeSystem\<close>, \<open>Triggers\<close>: \<open>reasoning/think/cascade.py\<close> and \<open>triggers.py\<close>. The
    cascade calls the transitions of \<open>Commitments\<close> on the database of \<open>Store\<close>; that it terminates
    and what it unblocks is shown in the databases reachable in \<open>ActsReach\<close>.
  \<^item> \<open>EdgeRegistry\<close>, \<open>EdgeStore\<close>, \<open>EdgeGraph\<close>, \<open>EdgeProperties\<close>: \<open>lib/shared/edge_registry.py\<close>,
    \<open>relationships/ontology_runtime.py\<close>, \<open>models/edges_repo.py\<close> and the relation part of
    \<open>models/repo.py\<close>. \<open>guarded_graph\<close> is interpreted on every cycle scope (and, in \<open>ActsSafety\<close>, on
    \<open>depends_on\<close>).
  \<^item> \<open>CircuitBreaker\<close>, \<open>LlmBreaker\<close>, \<open>Leases\<close>, \<open>Ids\<close>: \<open>lib/shared/circuit_breaker.py\<close>,
    \<open>think/circuit_breaker.py\<close>, \<open>lib/shared/db_leases.py\<close>, \<open>lib/shared/ids.py\<close>. Calls of a breaker
    may overlap: a call is two critical sections with other calls between them.

  \<^item> \<open>Access\<close>, \<open>AccessChecks\<close>, \<open>AccessProperties\<close>, \<open>Capabilities\<close>: \<open>platform/access_control\<close>
    (\<open>roles.py\<close>, \<open>hierarchy.py\<close>, \<open>materialized.py\<close>, \<open>checks.py\<close>, \<open>audit.py\<close>, \<open>middleware.py\<close>) over the
    database of \<open>Store\<close> with the tables of the service, and the grants of extensions: who reads a
    commitment, isolation of tenants, sensitive channels, the log of overrides.
  \<^item> \<open>WorkerStore\<close>, \<open>Worker\<close>, \<open>WorkerBatches\<close>, \<open>WorkerPoll\<close>: \<open>think/worker.py\<close>, its tables and
    its configuration, leases and the end of a run, the batches and the polling transaction.
    \<open>WorkerFacts\<close>, \<open>BatchFacts\<close> (the locales \<open>batcher_laws\<close> and \<open>batch_creation\<close>, the contract of
    the code that groups triggers, interpreted on the four batchers) and \<open>PollFacts\<close> show what each
    does to the rows. \<open>WorkerSystem\<close> is the transition system of several processes around one queue
    with crashes, expired locks, lost tasks and polls that raise; \<open>WorkerProperties\<close> holds what it guarantees.
  \<^item> \<open>DeadLetters\<close>, \<open>RegionLocks\<close>, \<open>RegionProperties\<close>, \<open>PostCommit\<close>, \<open>QueueProperties\<close>:
    \<open>gateway/dead_letter_router.py\<close>, \<open>think/region_locks.py\<close> and \<open>think/post_commit.py\<close>: the locks a
    diff takes cover the entities it announces, actions are recorded once, operators stay in their
    tenant.
  \<^item> \<open>Candidates\<close>, \<open>CandidateFacts\<close>: \<open>judgment/scoring.py\<close> and \<open>relationships/candidates.py\<close> with the
    checks of the table in the migrations. \<open>OntologyProposals\<close>, \<open>OntologyFacts\<close>,
    \<open>OntologyProperties\<close>: \<open>relationships/ontology_proposals.py\<close> and its worker, the life of a proposed
    edge kind up to the edges that may be linked with it.
  \<^item> \<open>PairEvidence\<close>, \<open>PairFacts\<close>, \<open>PairProperties\<close>: \<open>edge_intelligence/types.py\<close>, \<open>compiler.py\<close> and
    the evidence part of \<open>repo.py\<close>: the evidence kept of a pair is the tally of its observations, and
    when it is compiled into a candidate. \<open>EdgePromotion\<close>, \<open>PromotionFacts\<close>, \<open>PromotionProperties\<close>,
    \<open>PromotionEdges\<close>: \<open>relationships/repo.py\<close>, \<open>edge_intelligence/endpoint_quality.py\<close> and the two
    passes \<open>edge_intelligence/promoter.py\<close> and \<open>relationships/promoter.py\<close>: pairs to candidates,
    candidates to edges of \<open>EdgeStore\<close>, and the feedback of decisions to the evidence.

  Parameters. What is not Python of this repository is an argument of the definitions that use it:
  \<open>str()\<close>, \<open>json.dumps\<close>, \<open>float()\<close> of a text, the texts of exceptions and of formatted numbers, sha256,
  the run of Think, the aggregation of memory pruning that a poll calls (it may change the database and
  may raise, which loses the poll) and the handlers of post-commit actions (each may write on the
  connection of the batch, also before it raises). Whether the best-effort insert of an access
  override fails is an argument too. The statements hold for every such argument, or say what they use
  of it (\<open>keeps_queue\<close>: the aggregation that the worker calls leaves the trigger queue alone).

  Bounds and termination. The cascade's loop is a \<open>function\<close> whose termination measure is the
  multiset of the weights of the queued events; no event goes deeper than its weight, so the cap of
  50 levels is never reached. The depth-limited recursive queries keep their bounds of the source.
  Retry loops recurse on the number of attempts left. The batching loop of a poll runs on fuel, the
  number of slots it has to fill, and \<open>batch_loop_ends\<close> shows that this is enough. The regular
  expressions of edge kinds recurse on the rest of the text. Counts of evidence are integers that a
  guard keeps in the range of the column.

  Not modelled. The text renderings of JSONB and of observations, NOTIFY, metrics and logging; the
  sleeps of the retry loops; the rounding of floats; whitespace outside ASCII in \<open>str.strip\<close>; foreign
  keys into tables of components that are not modelled (of the table of models the identifiers are
  kept, for the confidence basis of commitments, and the rows of the model repository, for its edges
  and the queue of re-evaluations); a month without a partition of the observations; \<open>capability_at_risk\<close>, trigram and embedding
  search, which are PostgreSQL queries; the mirrored obligations of acts and the audit events. The
  language-model, retrieval, ingest, product and gateway code is input and output around these
  services and is listed in the manifest as not modelled. Of relationship intelligence the rules that
  propose edges from texts, relation claims, frames, participants and projections, and the counters
  for dashboards are left out.
\<close>

end

